(* ===== verification/Go_Prelude.thy ===== *)
theory Go_Prelude
  imports Main "HOL-Library.AList" "HOL-Library.Multiset" "HOL-Library.Char_ord" "HOL-Library.List_Lexorder"
begin

section \<open>The fragment of Go and of its standard library the models use\<close>

text \<open>
  Shared ground of the development: Go strings as byte lists, the functions of
  the packages \<open>strings\<close>, \<open>strconv\<close>, \<open>path\<close>, \<open>slices\<close> and \<open>time\<close> that the modelled
  code calls, and Go maps as association lists with distinct keys.

  A Go string is a byte sequence, as an Isabelle \<^typ>\<open>string\<close> is.  The case
  mapping of \<open>strings.ToLower\<close> and the blanks of \<open>strings.TrimSpace\<close> are modelled on
  the ASCII range; bytes of multi-byte UTF-8 sequences are left unchanged.

  The iteration order of a Go map is unspecified.  A map value is an association
  list, and a loop over the map runs in the order of that list; every theorem
  quantifies over the lists, hence over the orders.
\<close>

named_theorems go_simps \<open>evaluation rules of the Go library functions\<close>

subsection \<open>Package strings\<close>

definition is_space :: "char \<Rightarrow> bool" where
  "is_space c \<longleftrightarrow> c = CHR '' '' \<or> c = CHR 0x09 \<or> c = CHR 0x0A \<or> c = CHR 0x0B \<or> c = CHR 0x0C \<or> c = CHR 0x0D"

definition TrimSpace :: "string \<Rightarrow> string" where
  "TrimSpace s = rev (dropWhile is_space (rev (dropWhile is_space s)))"

definition lower_char :: "char \<Rightarrow> char" where
  "lower_char c = (if CHR ''A'' \<le> c \<and> c \<le> CHR ''Z'' then char_of ((of_char c :: nat) + 32) else c)"

definition ToLower :: "string \<Rightarrow> string" where
  "ToLower s = map lower_char s"

fun HasPrefix :: "string \<Rightarrow> string \<Rightarrow> bool" where
  "HasPrefix s [] = True"
| "HasPrefix [] (p # ps) = False"
| "HasPrefix (c # s) (p # ps) = (c = p \<and> HasPrefix s ps)"

definition TrimPrefix :: "string \<Rightarrow> string \<Rightarrow> string" where
  "TrimPrefix s p = (if HasPrefix s p then drop (length p) s else s)"

fun Contains :: "string \<Rightarrow> string \<Rightarrow> bool" where
  "Contains [] p = (p = [])"
| "Contains (c # s) p = (HasPrefix (c # s) p \<or> Contains s p)"

definition ContainsAny :: "string \<Rightarrow> string \<Rightarrow> bool" where
  "ContainsAny s cs = list_ex (\<lambda>c. c \<in> set cs) s"

text \<open>\<open>strings.Split\<close> with a separator of one byte, the only kind the code uses.\<close>

fun Split :: "string \<Rightarrow> char \<Rightarrow> string list" where
  "Split [] sep = [[]]"
| "Split (c # s) sep =
     (if c = sep then [] # Split s sep
      else (case Split s sep of [] \<Rightarrow> [[c]] | p # ps \<Rightarrow> (c # p) # ps))"

fun Join :: "string list \<Rightarrow> string \<Rightarrow> string" where
  "Join [] sep = []"
| "Join [p] sep = p"
| "Join (p # q # ps) sep = p @ sep @ Join (q # ps) sep"

text \<open>\<open>strings.SplitN(s, sep, 2)\<close>: \<^const>\<open>None\<close> when the separator does not occur.\<close>

fun cut :: "string \<Rightarrow> string \<Rightarrow> (string \<times> string) option" where
  "cut [] sep = (if sep = [] then Some ([], []) else None)"
| "cut (c # s) sep =
     (if HasPrefix (c # s) sep then Some ([], drop (length sep) (c # s))
      else map_option (\<lambda>(a, b). (c # a, b)) (cut s sep))"

fun Fields_aux :: "string \<Rightarrow> string \<Rightarrow> string list" where
  "Fields_aux acc [] = (if acc = [] then [] else [rev acc])"
| "Fields_aux acc (c # s) =
     (if is_space c then (if acc = [] then Fields_aux [] s else rev acc # Fields_aux [] s)
      else Fields_aux (c # acc) s)"

definition Fields :: "string \<Rightarrow> string list" where
  "Fields s = Fields_aux [] s"

text \<open>\<open>strings.IndexByte\<close> and \<open>strings.LastIndexByte\<close>, as options instead of \<open>-1\<close>.\<close>

fun IndexByte :: "string \<Rightarrow> char \<Rightarrow> nat option" where
  "IndexByte [] b = None"
| "IndexByte (c # s) b = (if c = b then Some 0 else map_option Suc (IndexByte s b))"

fun LastIndexByte :: "string \<Rightarrow> char \<Rightarrow> nat option" where
  "LastIndexByte [] b = None"
| "LastIndexByte (c # s) b =
     (case LastIndexByte s b of Some i \<Rightarrow> Some (Suc i) | None \<Rightarrow> if c = b then Some 0 else None)"

text \<open>The three-way result of \<open>strings.Compare\<close> and of \<open>cmp\<close>-style comparators.\<close>

definition Compare :: "string \<Rightarrow> string \<Rightarrow> int" where
  "Compare a b = (if a = b then 0 else if a < b then -1 else 1)"

text \<open>\<open>io.LimitReader\<close>: the first \<open>n\<close> bytes.\<close>

definition LimitReader :: "string \<Rightarrow> int \<Rightarrow> string" where
  "LimitReader s n = take (nat n) s"

lemma LimitReader_code [code]:
  "LimitReader s n = (if int (length s) \<le> n then s else take (nat n) s)"
  by (auto simp: LimitReader_def)

text \<open>The verb \<open>%q\<close> of \<open>fmt\<close>, for text without control characters.\<close>

definition quoted :: "string \<Rightarrow> string" where
  "quoted s = [CHR 0x22] @ concat (map (\<lambda>c. if c = CHR 0x22 \<or> c = CHR 0x5C then [CHR 0x5C, c] else [c]) s) @ [CHR 0x22]"

text \<open>A key of a Go map of strings that is absent reads as the empty string.\<close>

definition str_at :: "(string \<times> string) list \<Rightarrow> string \<Rightarrow> string" where
  "str_at m k = (case map_of m k of Some v \<Rightarrow> v | None \<Rightarrow> [])"

text \<open>Keys joined by a zero byte, as the code builds composite map keys.\<close>

definition nul :: string where "nul = [CHR 0x00]"

subsection \<open>Package strconv\<close>

definition is_digit :: "char \<Rightarrow> bool" where
  "is_digit c \<longleftrightarrow> CHR ''0'' \<le> c \<and> c \<le> CHR ''9''"

definition digit_val :: "char \<Rightarrow> nat" where
  "digit_val c = (of_char c :: nat) - 48"

definition digits_val :: "string \<Rightarrow> nat" where
  "digits_val s = foldl (\<lambda>n c. 10 * n + digit_val c) 0 s"

text \<open>\<open>strconv.ParseUint(s, 10, 64)\<close>.\<close>

definition ParseUint :: "string \<Rightarrow> nat option" where
  "ParseUint s =
     (if s \<noteq> [] \<and> list_all is_digit s \<and> digits_val s < 2 ^ 64 then Some (digits_val s) else None)"

text \<open>\<open>strconv.Atoi\<close> on a 64-bit platform.\<close>

definition Atoi :: "string \<Rightarrow> int option" where
  "Atoi s =
     (let neg = HasPrefix s ''-'';
          body = (if HasPrefix s ''-'' \<or> HasPrefix s ''+'' then tl s else s)
      in if body = [] \<or> \<not> list_all is_digit body then None
         else let n = (if neg then - int (digits_val body) else int (digits_val body))
              in if - (2 ^ 63) \<le> n \<and> n < 2 ^ 63 then Some n else None)"

text \<open>\<open>strconv.Itoa\<close> on a natural number.\<close>

fun Itoa :: "nat \<Rightarrow> string" where
  "Itoa n = (if n < 10 then [char_of (48 + n)] else Itoa (n div 10) @ [char_of (48 + n mod 10)])"

declare Itoa.simps [simp del]

subsection \<open>Package time\<close>

text \<open>
  A \<open>time.Time\<close> is the number of nanoseconds since the zero time (1 January of
  year 1), a \<open>time.Duration\<close> a number of nanoseconds.  \<open>Time.Sub\<close> saturates at the
  bounds of a 64-bit duration.
\<close>

type_synonym gotime = int
type_synonym duration = int

definition min_duration :: duration where "min_duration = - (2 ^ 63)"
definition max_duration :: duration where "max_duration = 2 ^ 63 - 1"

definition time_sub :: "gotime \<Rightarrow> gotime \<Rightarrow> duration" where
  "time_sub a b = max min_duration (min max_duration (a - b))"

definition second :: duration where "second = 1000000000"
definition minute :: duration where "minute = 60 * second"
definition hour :: duration where "hour = 60 * minute"

lemma time_units:
  "second = 1000000000" "minute = 60000000000" "hour = 3600000000000"
  by (simp_all add: second_def minute_def hour_def)

lemma time_sub_ge:
  assumes "min_duration < d" "d \<le> max_duration"
  shows "d \<le> time_sub a b \<longleftrightarrow> b + d \<le> a"
  using assms by (auto simp: time_sub_def)

subsection \<open>Package path\<close>

text \<open>
  \<open>path.Clean\<close>: the components of the path are folded from left to right;
  empty components and \<open>.\<close> vanish, and \<open>..\<close> drops the component before it, or is
  dropped at the root, or is kept in front of a relative path.
\<close>

fun clean_step :: "bool \<Rightarrow> string list \<Rightarrow> string \<Rightarrow> string list" where
  "clean_step rooted acc p =
     (if p = [] \<or> p = ''.'' then acc
      else if p = ''..'' then
        (if acc \<noteq> [] \<and> hd acc \<noteq> ''..'' then tl acc
         else if rooted then acc else ''..'' # acc)
      else p # acc)"

definition clean_parts :: "bool \<Rightarrow> string list \<Rightarrow> string list" where
  "clean_parts rooted ps = rev (foldl (clean_step rooted) [] ps)"

definition path_clean :: "string \<Rightarrow> string" where
  "path_clean s =
     (let rooted = HasPrefix s ''/'';
          out = Join (clean_parts rooted (Split s (CHR ''/''))) ''/''
      in if rooted then CHR ''/'' # out else if out = [] then ''.'' else out)"

subsection \<open>Laws of the string functions\<close>

lemma HasPrefix_iff: "HasPrefix s p \<longleftrightarrow> take (length p) s = p"
  by (induction s p rule: HasPrefix.induct) auto

lemma HasPrefix_append [simp]: "HasPrefix (p @ s) p"
  by (simp add: HasPrefix_iff)

lemma HasPrefix_exists: "HasPrefix s p \<longleftrightarrow> (\<exists>t. s = p @ t)"
  by (metis HasPrefix_append HasPrefix_iff append_take_drop_id)

lemma TrimPrefix_append [simp]: "TrimPrefix (p @ s) p = s"
  by (simp add: TrimPrefix_def)

definition trimmed :: "string \<Rightarrow> bool" where
  "trimmed s \<longleftrightarrow> s = [] \<or> (\<not> is_space (hd s) \<and> \<not> is_space (last s))"

lemma trimmed_TrimSpace_id: "trimmed s \<Longrightarrow> TrimSpace s = s"
proof (cases s)
  case (Cons c t)
  assume "trimmed s"
  with Cons have "\<not> is_space c" "\<not> is_space (last s)" by (auto simp: trimmed_def)
  moreover obtain u where "s = u @ [last s]" using Cons by (metis append_butlast_last_id list.distinct(1))
  ultimately show ?thesis using Cons by (metis TrimSpace_def dropWhile.simps(2) rev.simps(2) rev_append rev_rev_ident append_Cons rev_swap append_Nil)
qed (simp add: TrimSpace_def)

lemma trimmed_TrimSpace [simp]: "trimmed (TrimSpace s)"
proof -
  let ?d = "dropWhile is_space s" and ?t = "TrimSpace s"
  have t: "?t = rev (dropWhile is_space (rev ?d))"
    by (simp add: TrimSpace_def)
  show ?thesis
  proof (cases "?t = []")
    case False
    then have ne: "dropWhile is_space (rev ?d) \<noteq> []" using t by simp
    have "last ?t = hd (dropWhile is_space (rev ?d))"
      using t ne by (simp add: last_rev)
    then have l: "\<not> is_space (last ?t)" using ne by (metis hd_dropWhile)
    obtain u where "rev ?d = u @ dropWhile is_space (rev ?d)"
      by (metis takeWhile_dropWhile_id)
    then have "?d = ?t @ rev u" using t by (metis rev_append rev_rev_ident)
    then have "hd ?t = hd ?d" using False by (metis hd_append2)
    moreover have "?d \<noteq> []" using ne by (metis dropWhile.simps(1) rev.simps(1))
    ultimately have "\<not> is_space (hd ?t)" by (metis hd_dropWhile)
    with l show ?thesis by (simp add: trimmed_def)
  qed (simp add: trimmed_def)
qed

lemma TrimSpace_idem [simp]: "TrimSpace (TrimSpace s) = TrimSpace s"
  by (simp add: trimmed_TrimSpace_id)

lemma TrimSpace_Nil [simp]: "TrimSpace [] = []"
  by (simp add: TrimSpace_def)

lemma set_TrimSpace: "set (TrimSpace s) \<subseteq> set s"
proof -
  have "set (dropWhile is_space xs) \<subseteq> set xs" for xs
    by (auto dest: set_dropWhileD)
  then show ?thesis unfolding TrimSpace_def by (metis order_trans set_rev)
qed

lemma length_TrimSpace: "length (TrimSpace s) \<le> length s"
  by (simp add: TrimSpace_def) (metis length_dropWhile_le length_rev order_trans)

lemma lower_char_idem [simp]: "lower_char (lower_char c) = lower_char c"
proof (cases "CHR ''A'' \<le> c \<and> c \<le> CHR ''Z''")
  case True
  let ?n = "of_char c :: nat"
  from True have n: "65 \<le> ?n" "?n \<le> 90" by (simp_all add: less_eq_char_def)
  then have "of_char (char_of (?n + 32) :: char) = ?n + 32" by simp
  with n have "\<not> (char_of (?n + 32) \<le> CHR ''Z'')" by (simp add: less_eq_char_def)
  with True show ?thesis by (simp add: lower_char_def)
qed (auto simp: lower_char_def)

lemma ToLower_idem [simp]: "ToLower (ToLower s) = ToLower s"
  by (simp add: ToLower_def)

lemma is_space_lower_char [simp]: "is_space (lower_char c) \<longleftrightarrow> is_space c"
proof (cases "CHR ''A'' \<le> c \<and> c \<le> CHR ''Z''")
  case True
  let ?n = "of_char c :: nat"
  from True have n: "65 \<le> ?n" "?n \<le> 90" by (simp_all add: less_eq_char_def)
  have sp: "is_space d \<Longrightarrow> (of_char d :: nat) \<le> 32" for d
    by (auto simp: is_space_def)
  have "of_char (char_of (?n + 32) :: char) = ?n + 32" using n by simp
  with n True have "\<not> is_space (lower_char c)" using sp [of "lower_char c"]
    by (auto simp: lower_char_def)
  moreover have "\<not> is_space c" using sp [of c] n by auto
  ultimately show ?thesis by simp
qed (auto simp: lower_char_def)

lemma dropWhile_map_lower:
  "dropWhile is_space (map lower_char s) = map lower_char (dropWhile is_space s)"
  by (induction s) auto

lemma TrimSpace_ToLower: "TrimSpace (ToLower s) = ToLower (TrimSpace s)"
  by (simp add: TrimSpace_def ToLower_def dropWhile_map_lower rev_map)

lemma length_ToLower [simp]: "length (ToLower s) = length s"
  by (simp add: ToLower_def)

lemma Split_nonempty [simp]: "Split s c \<noteq> []"
  by (induction s) (auto split: list.splits)

lemma Split_hd_tl:
  "Split (d # s) c = (if d = c then [] # Split s c else (d # hd (Split s c)) # tl (Split s c))"
  by (cases "Split s c") auto

lemma Join_Cons: "ps \<noteq> [] \<Longrightarrow> Join (p # ps) sep = p @ sep @ Join ps sep"
  by (cases ps) auto

lemma Join_hd_Cons: "ps \<noteq> [] \<Longrightarrow> Join ((c # hd ps) # tl ps) sep = c # Join ps sep"
  by (cases ps; cases "tl ps") auto

lemma Join_Split [simp]: "Join (Split s c) [c] = s"
  by (induction s) (simp_all add: Join_Cons Split_hd_tl Join_hd_Cons del: Split.simps(2))

lemma Split_no_sep: "p \<in> set (Split s c) \<Longrightarrow> c \<notin> set p"
proof (induction s arbitrary: p)
  case (Cons d s)
  then show ?case
    by (cases "Split s c") (auto split: if_splits)
qed simp

lemma Split_append_sep: "c \<notin> set p \<Longrightarrow> Split (p @ c # s) c = p # Split s c"
  by (induction p) (auto split: list.splits)

lemma Split_single: "c \<notin> set p \<Longrightarrow> Split p c = [p]"
  by (induction p) auto

lemma Split_Join:
  "ps \<noteq> [] \<Longrightarrow> \<forall>p \<in> set ps. c \<notin> set p \<Longrightarrow> Split (Join ps [c]) c = ps"
proof (induction ps)
  case (Cons p ps)
  then show ?case
    by (cases ps) (auto simp: Split_single Split_append_sep)
qed simp

lemma Contains_iff: "Contains s p \<longleftrightarrow> (\<exists>a b. s = a @ p @ b)"
proof (induction s)
  case (Cons c s)
  have "(\<exists>a b. c # s = a @ p @ b) \<longleftrightarrow> (\<exists>b. c # s = p @ b) \<or> (\<exists>a b. s = a @ p @ b)"
    by (metis append_Cons append_Nil neq_Nil_conv list.inject)
  with Cons show ?case by (simp add: HasPrefix_exists)
qed auto

lemma Contains_single: "Contains s [c] \<longleftrightarrow> c \<in> set s"
  by (simp add: Contains_iff) (metis append_Cons in_set_conv_decomp)

lemma cut_Some: "cut s sep = Some (a, b) \<Longrightarrow> s = a @ sep @ b"
proof (induction s sep arbitrary: a rule: cut.induct)
  case (2 c s sep)
  then show ?case
    by (auto split: if_splits simp: HasPrefix_iff) (metis append_take_drop_id)
qed (auto split: if_splits)

lemma IndexByte_None [simp]: "IndexByte s c = None \<longleftrightarrow> c \<notin> set s"
  by (induction s) auto

lemma IndexByte_split: "c \<notin> set a \<Longrightarrow> IndexByte (a @ c # b) c = Some (length a)"
  by (induction a) auto

lemma LastIndexByte_None [simp]: "LastIndexByte s c = None \<longleftrightarrow> c \<notin> set s"
  by (induction s) (auto split: option.splits)

lemma LastIndexByte_split: "c \<notin> set b \<Longrightarrow> LastIndexByte (a @ c # b) c = Some (length a)"
  by (induction a) (auto split: option.splits)

subsection \<open>Laws of the number functions\<close>

lemma digit_char: "n < 10 \<Longrightarrow> digit_val (char_of (48 + n)) = n \<and> is_digit (char_of (48 + n))"
  by (simp add: digit_val_def is_digit_def less_eq_char_def)

lemma digits_val_snoc: "digits_val (s @ [c]) = 10 * digits_val s + digit_val c"
  by (simp add: digits_val_def)

lemma Itoa_digits: "Itoa n \<noteq> [] \<and> list_all is_digit (Itoa n) \<and> digits_val (Itoa n) = n"
proof (induction n rule: Itoa.induct)
  case (1 n)
  show ?case
  proof (cases "n < 10")
    case True
    then show ?thesis using digit_char [of n]
      by (simp add: Itoa.simps [of n] digits_val_def)
  next
    case False
    moreover have "digit_val (char_of (48 + n mod 10)) = n mod 10 \<and> is_digit (char_of (48 + n mod 10))"
      by (rule digit_char) simp
    ultimately show ?thesis using 1
      by (simp add: Itoa.simps [of n] digits_val_snoc)
  qed
qed

lemma is_digit_no_sign: "is_digit c \<Longrightarrow> c \<noteq> CHR ''-'' \<and> c \<noteq> CHR ''+''"
  by (auto simp: is_digit_def less_eq_char_def)

lemma Atoi_Itoa: "n < 2 ^ 63 \<Longrightarrow> Atoi (Itoa n) = Some (int n)"
proof -
  assume n: "n < 2 ^ 63"
  have d: "Itoa n \<noteq> []" "list_all is_digit (Itoa n)" "digits_val (Itoa n) = n"
    using Itoa_digits by auto
  obtain c cs where c: "Itoa n = c # cs" "is_digit c" using d(1,2) by (cases "Itoa n") auto
  then have "\<not> HasPrefix (Itoa n) ''-''" "\<not> HasPrefix (Itoa n) ''+''"
    using is_digit_no_sign by auto
  moreover have "int n < 2 ^ 63" using n by (metis of_nat_less_iff of_nat_numeral of_nat_power)
  ultimately show ?thesis using d by (simp add: Atoi_def Let_def)
qed

text \<open>Evaluation by the simplifier keeps the bound in binary.\<close>

lemma ParseUint_code [code]:
  "ParseUint s =
     (if s \<noteq> [] \<and> list_all is_digit s \<and> int (digits_val s) < 2 ^ 64 then Some (digits_val s) else None)"
  by (simp add: ParseUint_def)

lemma ParseUint_bound: "ParseUint s = Some n \<Longrightarrow> n < 2 ^ 64"
  by (auto simp: ParseUint_def split: if_splits)

subsection \<open>Laws of \<open>path.Clean\<close>\<close>

text \<open>
  A cleaned path, as the reversed list of its components: no empty component, no
  \<open>.\<close>, and \<open>..\<close> only in front of a relative path.
\<close>

fun clean_ok :: "bool \<Rightarrow> string list \<Rightarrow> bool" where
  "clean_ok rooted [] = True"
| "clean_ok rooted (p # acc) =
     (p \<noteq> [] \<and> p \<noteq> ''.'' \<and> CHR ''/'' \<notin> set p \<and>
      (p = ''..'' \<longrightarrow> \<not> rooted \<and> (acc = [] \<or> hd acc = ''..'')) \<and> clean_ok rooted acc)"

lemma clean_ok_tl: "clean_ok r acc \<Longrightarrow> clean_ok r (tl acc)"
  by (cases acc) auto

lemma clean_ok_step: "clean_ok r acc \<Longrightarrow> CHR ''/'' \<notin> set p \<Longrightarrow> clean_ok r (clean_step r acc p)"
  by (auto simp: clean_ok_tl)

lemma clean_ok_foldl:
  "clean_ok r acc \<Longrightarrow> \<forall>p \<in> set ps. CHR ''/'' \<notin> set p \<Longrightarrow> clean_ok r (foldl (clean_step r) acc ps)"
  by (induction ps arbitrary: acc) (auto simp del: clean_step.simps intro: clean_ok_step)

lemma clean_ok_parts: "clean_ok r (rev (clean_parts r (Split s (CHR ''/''))))"
  by (auto simp: clean_parts_def intro: clean_ok_foldl dest: Split_no_sep)

lemma clean_fold_id: "clean_ok r acc \<Longrightarrow> foldl (clean_step r) [] (rev acc) = acc"
  by (induction acc) (auto split: list.splits)

lemma clean_parts_id: "clean_ok r (rev ps) \<Longrightarrow> clean_parts r ps = ps"
  using clean_fold_id [of r "rev ps"] by (simp add: clean_parts_def)

lemma clean_ok_no_slash: "clean_ok r acc \<Longrightarrow> p \<in> set acc \<Longrightarrow> CHR ''/'' \<notin> set p \<and> p \<noteq> []"
  by (induction acc) auto

lemma clean_parts_drop_empty: "clean_parts r ([] # ps) = clean_parts r ps"
  by (simp add: clean_parts_def)

lemma path_clean_idem: "path_clean (path_clean s) = path_clean s"
proof -
  define r where "r = HasPrefix s ''/''"
  define ps where "ps = clean_parts r (Split s (CHR ''/''))"
  have ok: "clean_ok r (rev ps)" by (simp add: ps_def clean_ok_parts)
  then have id: "clean_parts r ps = ps" by (rule clean_parts_id)
  have no: "\<forall>p \<in> set ps. CHR ''/'' \<notin> set p" and ne: "\<forall>p \<in> set ps. p \<noteq> []"
    using clean_ok_no_slash [OF ok] by auto
  have eq: "path_clean s =
      (if r then CHR ''/'' # Join ps ''/'' else if Join ps ''/'' = [] then ''.'' else Join ps ''/'')"
    by (simp only: path_clean_def Let_def r_def ps_def)
  show ?thesis
  proof (cases "ps = []")
    case True
    then have "path_clean s = (if r then ''/'' else ''.'')"
      by (simp add: eq)
    moreover have "path_clean ''/'' = ''/''" "path_clean ''.'' = ''.''"
      by (simp_all add: path_clean_def clean_parts_def Let_def)
    ultimately show ?thesis by simp
  next
    case False
    then obtain q qs where q: "ps = q # qs" "q \<noteq> []" using ne by (cases ps) auto
    have split: "Split (Join ps ''/'') (CHR ''/'') = ps"
      using False no by (rule Split_Join)
    have J: "Join ps ''/'' \<noteq> []" using q by (cases qs) auto
    have nopre: "\<not> HasPrefix (Join ps ''/'') ''/''"
      using q no by (cases q; cases qs) auto
    have c: "path_clean s = (if r then CHR ''/'' # Join ps ''/'' else Join ps ''/'')"
      using J by (simp add: eq)
    show ?thesis
    proof (cases r)
      case True
      then show ?thesis using c split id
        by (simp add: path_clean_def Let_def clean_parts_drop_empty)
    next
      case False
      then show ?thesis using c split id nopre J
        by (simp add: path_clean_def Let_def)
    qed
  qed
qed

subsection \<open>Go maps\<close>

text \<open>
  A Go map is an association list whose keys are distinct: \<open>m[k]\<close> is \<open>map_of\<close>,
  \<open>m[k] = v\<close> is \<open>AList.update\<close>, \<open>delete(m, k)\<close> is \<open>AList.delete\<close>, \<open>len(m)\<close> is \<open>length\<close>.
  The locale states the contract the clients rely on.
\<close>

type_synonym ('k, 'v) gomap = "('k \<times> 'v) list"

definition gomap_ok :: "('k, 'v) gomap \<Rightarrow> bool" where
  "gomap_ok m \<longleftrightarrow> distinct (map fst m)"

definition gomap_filter :: "('k \<Rightarrow> 'v \<Rightarrow> bool) \<Rightarrow> ('k, 'v) gomap \<Rightarrow> ('k, 'v) gomap" where
  "gomap_filter P m = filter (\<lambda>(k, v). P k v) m"

locale go_map =
  fixes ok :: "'m \<Rightarrow> bool"
    and look :: "'m \<Rightarrow> 'k \<Rightarrow> 'v option"
    and put :: "'k \<Rightarrow> 'v \<Rightarrow> 'm \<Rightarrow> 'm"
    and del :: "'k \<Rightarrow> 'm \<Rightarrow> 'm"
    and keep :: "('k \<Rightarrow> 'v \<Rightarrow> bool) \<Rightarrow> 'm \<Rightarrow> 'm"
    and len :: "'m \<Rightarrow> nat"
  assumes look_put: "look (put k v m) j = (if j = k then Some v else look m j)"
    and look_del: "look (del k m) j = (if j = k then None else look m j)"
    and look_keep: "ok m \<Longrightarrow> look (keep P m) j =
      (case look m j of None \<Rightarrow> None | Some v \<Rightarrow> if P j v then Some v else None)"
    and ok_put: "ok m \<Longrightarrow> ok (put k v m)"
    and ok_del: "ok m \<Longrightarrow> ok (del k m)"
    and ok_keep: "ok m \<Longrightarrow> ok (keep P m)"
    and len_put: "ok m \<Longrightarrow> len (put k v m) = (if look m k = None then Suc (len m) else len m)"
    and len_del: "ok m \<Longrightarrow> len (del k m) \<le> len m"
    and len_keep: "len (keep P m) \<le> len m"
begin

lemma look_put_same: "look (put k v m) k = Some v"
  by (simp add: look_put)

lemma look_put_other: "j \<noteq> k \<Longrightarrow> look (put k v m) j = look m j"
  by (simp add: look_put)

lemma look_del_same: "look (del k m) k = None"
  by (simp add: look_del)

lemma look_del_other: "j \<noteq> k \<Longrightarrow> look (del k m) j = look m j"
  by (simp add: look_del)

lemma len_put_bound:
  assumes "ok m" "look m k = None \<Longrightarrow> len m < b" "len m \<le> b"
  shows "len (put k v m) \<le> b"
  using assms by (auto simp: len_put)

lemmas map_laws = look_put look_del look_keep ok_put ok_del ok_keep

end

lemma gomap_look_keep:
  "gomap_ok m \<Longrightarrow> map_of (gomap_filter P m) j =
     (case map_of m j of None \<Rightarrow> None | Some v \<Rightarrow> if P j v then Some v else None)"
proof (induction m)
  case (Cons e m)
  obtain k v where e: "e = (k, v)" by fastforce
  have "k \<notin> fst ` set m" using Cons.prems e by (auto simp: gomap_ok_def)
  then have "map_of m k = None" by (simp add: map_of_eq_None_iff)
  with Cons e show ?case
    by (auto simp: gomap_ok_def gomap_filter_def split: option.splits)
qed (simp add: gomap_filter_def)

lemma gomap_filter_None: "map_of m k = None \<Longrightarrow> map_of (gomap_filter P m) k = None"
  by (auto simp: gomap_filter_def map_of_eq_None_iff)

lemma gomap_len_put:
  "length (AList.update k v m) = (if map_of m k = None then Suc (length m) else length m)"
  by (induction m) auto

interpretation gm: go_map gomap_ok map_of AList.update AList.delete gomap_filter length
proof (unfold_locales, goal_cases)
  case (1 k v m j) then show ?case by (simp add: update_conv')
next
  case (2 k m j) then show ?case by (simp add: delete_conv')
next
  case (3 m P j) then show ?case by (rule gomap_look_keep)
next
  case (4 m k v) then show ?case by (simp add: gomap_ok_def distinct_update)
next
  case (5 m k) then show ?case by (simp add: gomap_ok_def distinct_delete)
next
  case (6 m P) then show ?case by (auto simp: gomap_ok_def gomap_filter_def distinct_map inj_on_def)
next
  case (7 m k v) then show ?case by (simp add: gomap_len_put)
next
  case (8 m k) then show ?case by (simp add: length_delete_le)
next
  case (9 P m) then show ?case by (simp add: gomap_filter_def)
qed

lemma gomap_ok_Nil [simp]: "gomap_ok []"
  by (simp add: gomap_ok_def)

lemma gomap_filter_key: "gomap_ok m \<Longrightarrow> length (filter (\<lambda>e. fst e = k) m) \<le> 1"
proof (induction m)
  case (Cons e m)
  have "filter (\<lambda>e. fst e = k) m = []" if "fst e = k"
    using Cons.prems that by (auto simp: gomap_ok_def filter_empty_conv rev_image_eqI)
  with Cons show ?case by (auto simp: gomap_ok_def)
qed simp

lemmas gomap_simps = gm.look_put gm.look_del gm.ok_put gm.ok_del gm.ok_keep

subsection \<open>Package slices\<close>

text \<open>
  \<open>slices.SortFunc\<close> with a comparator that compares a key.  Go does not say in
  which order elements with equal keys end up; the clients use the contract below,
  and the model computes with \<^const>\<open>sort_key\<close>.
\<close>

lemma distinct_set_single: "distinct xs \<Longrightarrow> set xs = {x} \<Longrightarrow> xs = [x]"
proof (cases xs)
  case (Cons y ys)
  assume a: "distinct xs" "set xs = {x}"
  with Cons have "y = x" "x \<notin> set ys" "set ys \<subseteq> {x}" by auto
  then have "ys = []" by (cases ys) auto
  with Cons \<open>y = x\<close> show ?thesis by simp
qed simp

lemma filter_out_left:
  assumes "distinct (map g (xs @ ys))"
  shows "filter (\<lambda>x. g x \<notin> g ` set xs) (xs @ ys) = ys"
    and "filter (\<lambda>x. g x \<notin> g ` set ys) (xs @ ys) = xs"
  using assms by (fastforce simp: filter_empty_conv filter_id_conv)+

locale go_sort =
  fixes srt :: "('a \<Rightarrow> 'k :: linorder) \<Rightarrow> 'a list \<Rightarrow> 'a list"
  assumes mset_srt: "mset (srt f xs) = mset xs"
    and sorted_srt: "sorted (map f (srt f xs))"
begin

lemma set_srt: "set (srt f xs) = set xs"
  by (metis mset_srt set_mset_mset)

lemma length_srt: "length (srt f xs) = length xs"
  by (metis mset_srt size_mset)

lemma distinct_srt: "distinct (map g (srt f xs)) = distinct (map g xs)"
  by (metis mset_srt mset_map distinct_count_atmost_1 set_map set_srt)

lemma hd_srt_least:
  assumes "x \<in> set xs"
  shows "f (hd (srt f xs)) \<le> f x"
proof -
  have "x \<in> set (srt f xs)" using assms by (simp add: set_srt)
  then show ?thesis using sorted_srt [of f xs] by (cases "srt f xs") auto
qed

lemma take_drop_srt:
  assumes "x \<in> set (take n (srt f xs))" "y \<in> set (drop n (srt f xs))"
  shows "f x \<le> f y"
proof -
  have "sorted (map f (take n (srt f xs) @ drop n (srt f xs)))" by (simp add: sorted_srt)
  then show ?thesis using assms unfolding map_append sorted_append by auto
qed

text \<open>Deleting by key what was taken from, or dropped from, a sorted list of rows.\<close>

lemma filter_not_taken:
  assumes "distinct (map g xs)"
  shows "mset (filter (\<lambda>x. g x \<notin> g ` set (take n (srt f xs))) xs) = mset (drop n (srt f xs))"
proof -
  let ?s = "srt f xs" and ?P = "\<lambda>x. g x \<notin> g ` set (take n (srt f xs))"
  have "distinct (map g (take n ?s @ drop n ?s))"
    using assms by (simp add: distinct_srt)
  note out = filter_out_left(1) [OF this]
  have "mset (filter ?P xs) = filter_mset ?P (mset ?s)" by (simp add: mset_srt)
  also have "\<dots> = mset (filter ?P (take n ?s @ drop n ?s))"
    by (simp only: append_take_drop_id mset_filter)
  finally show ?thesis unfolding out .
qed

lemma filter_not_dropped:
  assumes "distinct (map g xs)"
  shows "mset (filter (\<lambda>x. g x \<notin> g ` set (drop n (srt f xs))) xs) = mset (take n (srt f xs))"
proof -
  let ?s = "srt f xs" and ?P = "\<lambda>x. g x \<notin> g ` set (drop n (srt f xs))"
  have "distinct (map g (take n ?s @ drop n ?s))"
    using assms by (simp add: distinct_srt)
  note out = filter_out_left(2) [OF this]
  have "mset (filter ?P xs) = filter_mset ?P (mset ?s)" by (simp add: mset_srt)
  also have "\<dots> = mset (filter ?P (take n ?s @ drop n ?s))"
    by (simp only: append_take_drop_id mset_filter)
  finally show ?thesis unfolding out .
qed

end

interpretation gs: go_sort sort_key
  by unfold_locales simp_all

end
