(* ===== verification/Auth_Throttle.thy ===== *)
theory Auth_Throttle
  imports Go_Prelude
begin

section \<open>The sign-in throttle\<close>

text \<open>
  Models \<open>core/internal/auth/throttle.go\<close>: the per-username failure counter that
  delays sign-in attempts.  The clock the code reads through \<open>t.now()\<close> is an argument.
  The lemmas give the closed form of the delay, the bound on the tracked entries as
  an invariant of every run, and the meaning of \<open>retryAfter\<close>.
\<close>

subsection \<open>State and operations\<close>

definition loginFreeAttempts :: nat where "loginFreeAttempts = 5"
definition loginBaseDelay :: duration where "loginBaseDelay = second"
definition loginMaxDelay :: duration where "loginMaxDelay = minute"
definition loginAttemptTTL :: duration where "loginAttemptTTL = 15 * minute"
definition maxTrackedLogins :: nat where "maxTrackedLogins = 1024"

record loginAttempt =
  failures :: nat
  last_at :: gotime

record loginThrottle =
  attempts :: "(string, loginAttempt) gomap"

definition newLoginThrottle :: loginThrottle where
  "newLoginThrottle = \<lparr>attempts = []\<rparr>"

fun delay_loop :: "nat \<Rightarrow> duration \<Rightarrow> duration" where
  "delay_loop 0 delay = delay"
| "delay_loop (Suc n) delay =
     (let delay = delay * 2 in if delay \<ge> loginMaxDelay then loginMaxDelay else delay_loop n delay)"

definition delayFor :: "nat \<Rightarrow> duration" where
  "delayFor n =
     (if n \<le> loginFreeAttempts then 0 else delay_loop (n - (loginFreeAttempts + 1)) loginBaseDelay)"

definition retryAfter :: "gotime \<Rightarrow> string \<Rightarrow> loginThrottle \<Rightarrow> duration \<times> loginThrottle" where
  "retryAfter moment username t =
     (case map_of (attempts t) username of
        None \<Rightarrow> (0, t)
      | Some attempt \<Rightarrow>
          if time_sub moment (last_at attempt) \<ge> loginAttemptTTL
          then (0, t\<lparr>attempts := AList.delete username (attempts t)\<rparr>)
          else let wait = time_sub (last_at attempt + delayFor (failures attempt)) moment
               in if wait \<le> 0 then (0, t) else (wait, t))"

definition pruneLogins :: "gotime \<Rightarrow> loginThrottle \<Rightarrow> loginThrottle" where
  "pruneLogins moment t =
     t\<lparr>attempts := gomap_filter (\<lambda>_ a. \<not> time_sub moment (last_at a) \<ge> loginAttemptTTL) (attempts t)\<rparr>"

definition recordFailure :: "gotime \<Rightarrow> string \<Rightarrow> loginThrottle \<Rightarrow> loginThrottle" where
  "recordFailure moment username t =
     (let found = map_of (attempts t) username;
          t1 = (if found = None \<and> length (attempts t) \<ge> maxTrackedLogins then pruneLogins moment t else t)
      in if found = None \<and> length (attempts t1) \<ge> maxTrackedLogins then t1
         else let attempt = (case found of Some a \<Rightarrow> a | None \<Rightarrow> \<lparr>failures = 0, last_at = 0\<rparr>);
                  n = (if time_sub moment (last_at attempt) \<ge> loginAttemptTTL then 0 else failures attempt)
              in t1\<lparr>attempts := AList.update username \<lparr>failures = n + 1, last_at = moment\<rparr> (attempts t1)\<rparr>)"

definition recordSuccess :: "gotime \<Rightarrow> string \<Rightarrow> loginThrottle \<Rightarrow> loginThrottle" where
  "recordSuccess moment username t =
     pruneLogins moment (t\<lparr>attempts := AList.delete username (attempts t)\<rparr>)"

subsection \<open>The throttle's runs\<close>

datatype throttle_op = AskWait string | Failure string | Success string

fun throttle_step :: "loginThrottle \<Rightarrow> gotime \<times> throttle_op \<Rightarrow> loginThrottle" where
  "throttle_step t (m, AskWait u) = snd (retryAfter m u t)"
| "throttle_step t (m, Failure u) = recordFailure m u t"
| "throttle_step t (m, Success u) = recordSuccess m u t"

definition throttle_run :: "loginThrottle \<Rightarrow> (gotime \<times> throttle_op) list \<Rightarrow> loginThrottle" where
  "throttle_run t evs = foldl throttle_step t evs"

definition throttle_inv :: "loginThrottle \<Rightarrow> bool" where
  "throttle_inv t \<longleftrightarrow> gomap_ok (attempts t) \<and> length (attempts t) \<le> maxTrackedLogins"

subsection \<open>Lemmas\<close>

lemmas throttle_consts = loginFreeAttempts_def loginBaseDelay_def loginMaxDelay_def
  loginAttemptTTL_def maxTrackedLogins_def time_units

lemma ttl_sub: "loginAttemptTTL \<le> time_sub a b \<longleftrightarrow> b + loginAttemptTTL \<le> a"
  by (rule time_sub_ge) (simp_all add: throttle_consts min_duration_def max_duration_def)

lemma delay_loop_closed:
  "0 < d \<Longrightarrow> d < loginMaxDelay \<Longrightarrow> delay_loop n d = min loginMaxDelay (d * 2 ^ n)"
proof (induction n arbitrary: d)
  case (Suc n)
  show ?case
  proof (cases "d * 2 \<ge> loginMaxDelay")
    case True
    have "(1::int) \<le> 2 ^ n" by simp
    then have "d * 2 * 1 \<le> d * 2 * 2 ^ n" using Suc.prems(1) by (intro mult_left_mono) auto
    with True show ?thesis by (simp add: Let_def algebra_simps)
  next
    case False
    then have "delay_loop n (d * 2) = min loginMaxDelay (d * 2 * 2 ^ n)"
      using Suc.prems by (intro Suc.IH) auto
    with False show ?thesis by (simp add: Let_def algebra_simps)
  qed
qed simp

lemma delayFor_closed:
  "delayFor n = (if n \<le> 5 then 0 else min minute (second * 2 ^ (n - 6)))"
  using delay_loop_closed [of second "n - 6"]
  by (simp add: delayFor_def throttle_consts)

lemma delayFor_bounds: "0 \<le> delayFor n \<and> delayFor n \<le> loginMaxDelay"
  by (auto simp: delayFor_closed throttle_consts)

lemma pruneLogins_inv: "throttle_inv t \<Longrightarrow> throttle_inv (pruneLogins m t)"
  by (auto simp: throttle_inv_def pruneLogins_def gm.ok_keep intro: order_trans [OF gm.len_keep])

lemma recordFailure_inv:
  assumes "throttle_inv t"
  shows "throttle_inv (recordFailure m u t)"
proof -
  define t1 where "t1 = (if map_of (attempts t) u = None \<and> length (attempts t) \<ge> maxTrackedLogins
    then pruneLogins m t else t)"
  have t1: "throttle_inv t1" using assms by (simp add: t1_def pruneLogins_inv)
  obtain a where eq: "recordFailure m u t =
      (if map_of (attempts t) u = None \<and> length (attempts t1) \<ge> maxTrackedLogins then t1
       else t1\<lparr>attempts := AList.update u a (attempts t1)\<rparr>)"
    unfolding recordFailure_def Let_def t1_def [symmetric] by blast
  have "map_of (attempts t) u \<noteq> None \<Longrightarrow> map_of (attempts t1) u \<noteq> None"
    by (auto simp: t1_def)
  then show ?thesis unfolding eq using t1
    by (auto simp: throttle_inv_def gm.ok_put intro!: gm.len_put_bound)
qed

lemma delete_inv: "throttle_inv t \<Longrightarrow> throttle_inv (t\<lparr>attempts := AList.delete u (attempts t)\<rparr>)"
  by (auto simp: throttle_inv_def gm.ok_del intro: order_trans [OF gm.len_del])

lemma throttle_step_inv: "throttle_inv t \<Longrightarrow> throttle_inv (throttle_step t e)"
proof (cases e)
  case (Pair m op)
  assume "throttle_inv t"
  then show ?thesis unfolding Pair
    by (cases op) (auto simp: retryAfter_def recordSuccess_def Let_def
        recordFailure_inv delete_inv pruneLogins_inv split: option.splits)
qed

lemma throttle_run_inv: "throttle_inv t \<Longrightarrow> throttle_inv (throttle_run t evs)"
  unfolding throttle_run_def by (induction evs arbitrary: t) (auto intro: throttle_step_inv)

lemma newLoginThrottle_inv: "throttle_inv newLoginThrottle"
  by (simp add: throttle_inv_def newLoginThrottle_def)

lemma retryAfter_value:
  "fst (retryAfter m u t) =
     (case map_of (attempts t) u of None \<Rightarrow> 0
      | Some a \<Rightarrow> if last_at a + loginAttemptTTL \<le> m then 0
                  else max 0 (time_sub (last_at a + delayFor (failures a)) m))"
  by (auto simp: retryAfter_def Let_def ttl_sub split: option.splits)

end
