(* ===== verification/Auth_Service.thy ===== *)
theory Auth_Service
  imports Auth_Throttle
begin

section \<open>Users, sessions and requests\<close>

text \<open>
  Models \<open>core/internal/auth\<close>: the session and user tables
  (\<open>store_sessions_gorm.go\<close>, \<open>store_user_gorm.go\<close>), the sign-in service
  (\<open>service.go\<close>), the request check (\<open>middleware.go\<close>) and the handlers
  (\<open>handler.go\<close>, \<open>handler_http.go\<close>).

  What the package gets from outside is an argument: the clock, the outcome of each
  database statement (\<^const>\<open>None\<close> when it succeeds; a failing statement inside a
  transaction rolls the transaction back), bcrypt's comparison, the token hash, the
  random token and the verified claims of the identity provider.
\<close>

subsection \<open>Tables\<close>

record User =
  usr_ID :: nat
  usr_Username :: string
  usr_EncryptedPassword :: string

record Session =
  ses_ID :: nat
  ses_CreatedAt :: gotime
  ses_UserID :: nat
  ses_HashedToken :: string
  ses_Expires :: gotime

record authdb =
  users :: "User list"
  sessions :: "Session list"
  nextUser :: nat
  nextSession :: nat

type_synonym fault = "string option"

datatype auth_error =
    ErrTooManyLoginAttempts duration
  | ErrInvalidUserPassword
  | ErrDatabase string
  | ErrRecordNotFound
  | ErrTokenExpired gotime
  | ErrNoCookie
  | ErrInvalidArgument
  | ErrUnauthenticated
  | ErrOIDC string

definition GetUser :: "fault \<Rightarrow> authdb \<Rightarrow> string \<Rightarrow> auth_error + User" where
  "GetUser f db username =
     (case f of Some e \<Rightarrow> Inl (ErrDatabase e)
      | None \<Rightarrow> (case find (\<lambda>u. usr_Username u = username) (users db) of
                  None \<Rightarrow> Inl ErrInvalidUserPassword | Some u \<Rightarrow> Inr u))"

definition NewUser :: "fault \<Rightarrow> authdb \<Rightarrow> string \<Rightarrow> string \<Rightarrow> (auth_error + User) \<times> authdb" where
  "NewUser f db username encrypted =
     (case f of Some e \<Rightarrow> (Inl (ErrDatabase e), db)
      | None \<Rightarrow>
        (case find (\<lambda>u. usr_Username u = username) (users db) of
           Some old \<Rightarrow>
             (let u = old\<lparr>usr_EncryptedPassword := encrypted\<rparr>
              in (Inr u, db\<lparr>users := map (\<lambda>v. if usr_Username v = username then u else v) (users db)\<rparr>))
         | None \<Rightarrow>
             (let u = \<lparr>usr_ID = nextUser db, usr_Username = username, usr_EncryptedPassword = encrypted\<rparr>
              in (Inr u, db\<lparr>users := users db @ [u], nextUser := nextUser db + 1\<rparr>))))"

definition deleteExpiredSessions :: "gotime \<Rightarrow> authdb \<Rightarrow> authdb" where
  "deleteExpiredSessions now db = db\<lparr>sessions := filter (\<lambda>s. \<not> ses_Expires s < now) (sessions db)\<rparr>"

definition userSessions :: "authdb \<Rightarrow> nat \<Rightarrow> Session list" where
  "userSessions db uid = filter (\<lambda>s. ses_UserID s = uid) (sessions db)"

definition evictOldest :: "nat \<Rightarrow> nat \<Rightarrow> authdb \<Rightarrow> authdb" where
  "evictOldest maxSessions uid db =
     (let mine = userSessions db uid; count = length mine
      in if count > maxSessions then
           let oldSessions = take (count - maxSessions) (sort_key ses_CreatedAt mine)
           in db\<lparr>sessions := filter (\<lambda>s. ses_ID s \<notin> set (map ses_ID oldSessions)) (sessions db)\<rparr>
         else db)"

definition NewSession :: "fault \<Rightarrow> nat \<Rightarrow> gotime \<Rightarrow> Session \<Rightarrow> authdb \<Rightarrow> (auth_error + Session) \<times> authdb" where
  "NewSession f maxSessions now session db =
     (case f of Some e \<Rightarrow> (Inl (ErrDatabase e), db)
      | None \<Rightarrow>
        (let db1 = deleteExpiredSessions now db;
             s = session\<lparr>ses_ID := nextSession db1, ses_CreatedAt := now\<rparr>;
             db2 = db1\<lparr>sessions := sessions db1 @ [s], nextSession := nextSession db1 + 1\<rparr>
         in (Inr s, evictOldest maxSessions (ses_UserID s) db2)))"

definition DeleteSession :: "fault \<Rightarrow> nat \<Rightarrow> authdb \<Rightarrow> (auth_error + unit) \<times> authdb" where
  "DeleteSession f sessionID db =
     (case f of Some e \<Rightarrow> (Inl (ErrDatabase e), db)
      | None \<Rightarrow>
        if sessionID \<in> set (map ses_ID (sessions db))
        then (Inr (), db\<lparr>sessions := filter (\<lambda>s. ses_ID s \<noteq> sessionID) (sessions db)\<rparr>)
        else (Inl ErrRecordNotFound, db))"

definition GetSessionByToken :: "fault \<Rightarrow> authdb \<Rightarrow> string \<Rightarrow> auth_error + (Session \<times> User)" where
  "GetSessionByToken f db token =
     (case f of Some e \<Rightarrow> Inl (ErrDatabase e)
      | None \<Rightarrow>
        (case sort_key ses_ID (filter (\<lambda>s. ses_HashedToken s = token) (sessions db)) of
           [] \<Rightarrow> Inl ErrRecordNotFound
         | s # _ \<Rightarrow>
             (case find (\<lambda>u. usr_ID u = ses_UserID s) (users db) of
                None \<Rightarrow> Inr (s, \<lparr>usr_ID = 0, usr_Username = [], usr_EncryptedPassword = []\<rparr>)
              | Some u \<Rightarrow> Inr (s, u))))"

subsection \<open>Service\<close>

record authState =
  throttle :: loginThrottle
  authDB :: authdb

record authEnv =
  now_at :: gotime
  faultGetUser :: fault
  faultCreate :: fault
  faultNewSession :: fault
  bcryptOK :: "string \<Rightarrow> string \<Rightarrow> bool"
  hashString :: "string \<Rightarrow> string"
  encryptPassword :: "string \<Rightarrow> auth_error + string"
  randomIndexes :: "nat list"
  randomPassword :: "nat list"
  maxSessions :: nat
  cookieExpiry :: duration

definition tokenCharacters :: string where
  "tokenCharacters = ''ABCDEFGHIJKLMNOPQRSTUVWXYZabcdefghijklmnopqrstuvwxyz0123456789''"

text \<open>
  \<open>rand.Int(rand.Reader, 62)\<close> yields an index below 62 from the entropy source; a failing
  source panics and issues no token.
\<close>

definition CreateAuthToken :: "nat list \<Rightarrow> string" where
  "CreateAuthToken indexes = map (\<lambda>i. tokenCharacters ! (i mod length tokenCharacters)) indexes"

definition CreateSession :: "authEnv \<Rightarrow> User \<Rightarrow> authdb \<Rightarrow> (auth_error + (Session \<times> string)) \<times> authdb" where
  "CreateSession env user db =
     (let raw = CreateAuthToken (randomIndexes env);
          session = \<lparr>ses_ID = 0, ses_CreatedAt = 0, ses_UserID = usr_ID user,
                     ses_HashedToken = hashString env raw, ses_Expires = now_at env + cookieExpiry env\<rparr>
      in (case NewSession (faultNewSession env) (maxSessions env) (now_at env) session db of
            (Inl e, db') \<Rightarrow> (Inl e, db')
          | (Inr s, db') \<Rightarrow> (Inr (s, raw), db')))"

definition Login :: "authEnv \<Rightarrow> string \<Rightarrow> string \<Rightarrow> authState \<Rightarrow> (auth_error + (Session \<times> string)) \<times> authState" where
  "Login env username password st =
     (let (wait, th) = retryAfter (now_at env) username (throttle st); st1 = st\<lparr>throttle := th\<rparr>
      in if wait > 0 then (Inl (ErrTooManyLoginAttempts wait), st1)
         else (case GetUser (faultGetUser env) (authDB st1) username of
                 Inl _ \<Rightarrow> (Inl ErrInvalidUserPassword,
                           st1\<lparr>throttle := recordFailure (now_at env) username (throttle st1)\<rparr>)
               | Inr user \<Rightarrow>
                   if \<not> bcryptOK env password (usr_EncryptedPassword user)
                   then (Inl ErrInvalidUserPassword,
                         st1\<lparr>throttle := recordFailure (now_at env) username (throttle st1)\<rparr>)
                   else let st2 = st1\<lparr>throttle := recordSuccess (now_at env) username (throttle st1)\<rparr>;
                            (r, db') = CreateSession env user (authDB st2)
                        in (r, st2\<lparr>authDB := db'\<rparr>)))"

definition Logout :: "fault \<Rightarrow> nat \<Rightarrow> authState \<Rightarrow> (auth_error + unit) \<times> authState" where
  "Logout f sessionId st =
     (let (r, db') = DeleteSession f sessionId (authDB st) in (r, st\<lparr>authDB := db'\<rparr>))"

definition VerifyToken :: "fault \<Rightarrow> (string \<Rightarrow> string) \<Rightarrow> gotime \<Rightarrow> authdb \<Rightarrow> string \<Rightarrow> auth_error + User" where
  "VerifyToken f hash now db token =
     (case GetSessionByToken f db (hash token) of
        Inl e \<Rightarrow> Inl e
      | Inr (s, u) \<Rightarrow> if now > ses_Expires s then Inl (ErrTokenExpired (ses_Expires s)) else Inr u)"

text \<open>
  \<open>Service.create\<close> and \<open>Service.OIDCCallback\<close>.  The exchange with the provider and the
  verification of the ID token happen in the OAuth2 and OIDC packages; their outcome, the
  claims \<open>email\<close> and \<open>email_verified\<close>, is an argument.
\<close>

record oidcClaims =
  claimEmail :: string
  claimEmailVerified :: bool

definition createUser :: "authEnv \<Rightarrow> string \<Rightarrow> string \<Rightarrow> authdb \<Rightarrow> (auth_error + User) \<times> authdb" where
  "createUser env username password db =
     (case encryptPassword env password of
        Inl e \<Rightarrow> (Inl e, db)
      | Inr enc \<Rightarrow> NewUser (faultCreate env) db username enc)"

definition OIDCCallback :: "authEnv \<Rightarrow> auth_error + oidcClaims \<Rightarrow> authState \<Rightarrow> (auth_error + (Session \<times> string)) \<times> authState" where
  "OIDCCallback env provider st =
     (case provider of
        Inl e \<Rightarrow> (Inl e, st)
      | Inr claims \<Rightarrow>
          (let (r, db1) = (case GetUser (faultGetUser env) (authDB st) (claimEmail claims) of
                 Inr user \<Rightarrow> (Inr user, authDB st)
               | Inl _ \<Rightarrow> createUser env (claimEmail claims) (CreateAuthToken (randomPassword env)) (authDB st))
           in (case r of
                 Inl e \<Rightarrow> (Inl e, st\<lparr>authDB := db1\<rparr>)
               | Inr user \<Rightarrow> (let (s, db2) = CreateSession env user db1 in (s, st\<lparr>authDB := db2\<rparr>)))))"

subsection \<open>Requests\<close>

record cookie =
  ck_Name :: string
  ck_Value :: string
  ck_Expires :: gotime
  ck_HttpOnly :: bool
  ck_SameSiteLax :: bool
  ck_Secure :: bool

definition CookieHeaderAuth :: string where "CookieHeaderAuth = ''Authorization''"
definition CookieHeaderSessionId :: string where "CookieHeaderSessionId = ''SessionId''"

definition createCookie :: "string \<Rightarrow> string \<Rightarrow> gotime \<Rightarrow> bool \<Rightarrow> cookie" where
  "createCookie name token expiresAt secure =
     \<lparr>ck_Name = name, ck_Value = token, ck_Expires = expiresAt, ck_HttpOnly = True,
      ck_SameSiteLax = True, ck_Secure = secure\<rparr>"

definition createAuthCookies :: "string \<Rightarrow> nat \<Rightarrow> gotime \<Rightarrow> bool \<Rightarrow> cookie list" where
  "createAuthCookies sessionToken sessionId expiry secure =
     [createCookie CookieHeaderAuth sessionToken expiry secure,
      createCookie CookieHeaderSessionId (Itoa sessionId) expiry secure]"

definition requestIsHTTPS :: "bool \<Rightarrow> string \<Rightarrow> bool" where
  "requestIsHTTPS tlsServed forwardedProto =
     (if tlsServed then True
      else let proto = (case IndexByte forwardedProto (CHR '','') of
                          Some comma \<Rightarrow> take comma forwardedProto | None \<Rightarrow> forwardedProto)
           in ToLower (TrimSpace proto) = ''https'')"

definition getCookie :: "string \<Rightarrow> (string \<times> string) list \<Rightarrow> auth_error + string" where
  "getCookie name cookies =
     (if name = [] then Inl ErrNoCookie
      else (case map_of cookies name of None \<Rightarrow> Inl ErrNoCookie | Some v \<Rightarrow> Inr v))"

definition verifyCookie :: "fault \<Rightarrow> (string \<Rightarrow> string) \<Rightarrow> gotime \<Rightarrow> authdb \<Rightarrow> (string \<times> string) list \<Rightarrow> auth_error + User" where
  "verifyCookie f hash now db cookies =
     (case getCookie CookieHeaderAuth cookies of
        Inl e \<Rightarrow> Inl e
      | Inr token \<Rightarrow> VerifyToken f hash now db token)"

datatype check_result = Proceed User | RedirectToOIDC | Unauthorized

definition CheckAuth :: "bool \<Rightarrow> bool \<Rightarrow> fault \<Rightarrow> (string \<Rightarrow> string) \<Rightarrow> gotime \<Rightarrow> authdb \<Rightarrow> (string \<times> string) list \<Rightarrow> check_result" where
  "CheckAuth oidcEnable oidcAutoRedirect f hash now db cookies =
     (case verifyCookie f hash now db cookies of
        Inr u \<Rightarrow> Proceed u
      | Inl _ \<Rightarrow> if oidcEnable \<and> oidcAutoRedirect then RedirectToOIDC else Unauthorized)"

definition handlerLogin :: "authEnv \<Rightarrow> bool \<Rightarrow> string \<Rightarrow> string \<Rightarrow> string \<Rightarrow> authState \<Rightarrow> (auth_error + cookie list) \<times> authState" where
  "handlerLogin env tlsServed forwardedProto username password st =
     (case Login env username password st of
        (Inl e, st') \<Rightarrow> (Inl e, st')
      | (Inr (s, token), st') \<Rightarrow>
          (Inr (createAuthCookies token (ses_ID s) (ses_Expires s) (requestIsHTTPS tlsServed forwardedProto)), st'))"

definition handlerLogout :: "fault \<Rightarrow> fault \<Rightarrow> (string \<Rightarrow> string) \<Rightarrow> gotime \<Rightarrow> (string \<times> string) list \<Rightarrow> authState \<Rightarrow> (auth_error + unit) \<times> authState" where
  "handlerLogout f g hash now cookies st =
     (case verifyCookie f hash now (authDB st) cookies of
        Inl _ \<Rightarrow> (Inl ErrUnauthenticated, st)
      | Inr _ \<Rightarrow>
          (case getCookie CookieHeaderSessionId cookies of
             Inl _ \<Rightarrow> (Inl ErrInvalidArgument, st)
           | Inr v \<Rightarrow>
               (case Atoi v of
                  None \<Rightarrow> (Inl ErrInvalidArgument, st)
                | Some n \<Rightarrow> (Inr (), snd (Logout g (nat (n mod 2 ^ 64)) st)))))"

datatype callback_result =
  ProviderError | StateCookieMissing | InvalidState | TokenFailure auth_error | SignedIn "cookie list"

definition handlerOIDCCallback :: "authEnv \<Rightarrow> bool \<Rightarrow> string \<Rightarrow> string \<Rightarrow> string \<Rightarrow> string option \<Rightarrow> (auth_error + oidcClaims) \<Rightarrow> authState \<Rightarrow> callback_result \<times> authState" where
  "handlerOIDCCallback env tlsServed forwardedProto oidcErr returnedState stateCookie provider st =
     (if oidcErr \<noteq> [] then (ProviderError, st)
      else (case stateCookie of
          None \<Rightarrow> (StateCookieMissing, st)
        | Some v \<Rightarrow>
            if returnedState = [] \<or> returnedState \<noteq> v then (InvalidState, st)
            else (case OIDCCallback env provider st of
                    (Inl e, st') \<Rightarrow> (TokenFailure e, st')
                  | (Inr (s, token), st') \<Rightarrow>
                      (SignedIn (createAuthCookies token (ses_ID s) (ses_Expires s)
                         (requestIsHTTPS tlsServed forwardedProto)), st'))))"

subsection \<open>Invariant of the tables\<close>

definition authdb_ok :: "authdb \<Rightarrow> bool" where
  "authdb_ok db \<longleftrightarrow>
     distinct (map ses_ID (sessions db)) \<and> (\<forall>s \<in> set (sessions db). ses_ID s < nextSession db) \<and>
     distinct (map usr_ID (users db)) \<and> (\<forall>u \<in> set (users db). usr_ID u < nextUser db) \<and>
     distinct (map usr_Username (users db))"

lemma authdb_ok_filter:
  "authdb_ok db \<Longrightarrow> authdb_ok (db\<lparr>sessions := filter P (sessions db)\<rparr>)"
  by (auto simp: authdb_ok_def distinct_map_filter)

lemma authdb_ok_evict: "authdb_ok db \<Longrightarrow> authdb_ok (evictOldest m uid db)"
  by (auto simp: evictOldest_def Let_def intro: authdb_ok_filter)

lemma authdb_ok_add:
  assumes "authdb_ok db"
  shows "authdb_ok (db\<lparr>sessions := sessions db @ [s\<lparr>ses_ID := nextSession db, ses_CreatedAt := t\<rparr>],
    nextSession := nextSession db + 1\<rparr>)"
  using assms by (fastforce simp: authdb_ok_def)

lemma authdb_ok_NewSession:
  assumes "authdb_ok db"
  shows "authdb_ok (snd (NewSession f m now s db))"
proof -
  have "authdb_ok (deleteExpiredSessions now db)"
    unfolding deleteExpiredSessions_def by (rule authdb_ok_filter) (rule assms)
  then show ?thesis using assms
    by (auto simp: NewSession_def Let_def split: option.split intro!: authdb_ok_evict authdb_ok_add [simplified])
qed

lemma map_replace_user:
  assumes "find (\<lambda>u. usr_Username u = n) us = Some old" "\<And>u. g (u\<lparr>usr_EncryptedPassword := e\<rparr>) = g u"
    and "distinct (map usr_Username us)"
  shows "map g (map (\<lambda>v. if usr_Username v = n then old\<lparr>usr_EncryptedPassword := e\<rparr> else v) us) = map g us"
proof -
  from assms(1) obtain k where k: "k < length us" "usr_Username (us ! k) = n" "old = us ! k"
    by (auto simp: find_Some_iff)
  have "v = old" if "v \<in> set us" "usr_Username v = n" for v
    using assms(3) k that by (metis distinct_map inj_onD nth_mem)
  with assms(2) show ?thesis by (simp cong: map_cong)
qed

lemma authdb_ok_users:
  assumes "authdb_ok db" "map usr_ID us = map usr_ID (users db)"
    and "map usr_Username us = map usr_Username (users db)"
  shows "authdb_ok (db\<lparr>users := us\<rparr>)"
proof -
  have "usr_ID ` set us = usr_ID ` set (users db)" using assms(2) by (metis set_map)
  moreover have "\<forall>i \<in> usr_ID ` set (users db). i < nextUser db"
    using assms(1) by (auto simp: authdb_ok_def)
  ultimately have "\<forall>u \<in> set us. usr_ID u < nextUser db" by (metis imageI)
  with assms show ?thesis by (simp add: authdb_ok_def)
qed

lemma authdb_ok_new_user:
  assumes "authdb_ok db" "n \<notin> usr_Username ` set (users db)"
  shows "authdb_ok (db\<lparr>users := users db @ [\<lparr>usr_ID = nextUser db, usr_Username = n,
    usr_EncryptedPassword = e\<rparr>], nextUser := Suc (nextUser db)\<rparr>)"
proof -
  have "\<forall>u \<in> set (users db). usr_ID u < nextUser db" using assms(1) by (simp add: authdb_ok_def)
  then have "nextUser db \<notin> usr_ID ` set (users db)" and "\<forall>u \<in> set (users db). usr_ID u < Suc (nextUser db)"
    by auto
  with assms show ?thesis by (simp add: authdb_ok_def)
qed

lemma authdb_ok_NewUser:
  assumes "authdb_ok db"
  shows "authdb_ok (snd (NewUser f db n e))"
proof (cases "find (\<lambda>u. usr_Username u = n) (users db)")
  case None
  then have "n \<notin> usr_Username ` set (users db)" by (auto simp: find_None_iff)
  from authdb_ok_new_user [OF assms this] None assms show ?thesis
    by (simp add: NewUser_def Let_def split: option.split)
next
  case (Some old)
  have d: "distinct (map usr_Username (users db))" using assms by (simp add: authdb_ok_def)
  have "authdb_ok (db\<lparr>users := map (\<lambda>v. if usr_Username v = n
      then old\<lparr>usr_EncryptedPassword := e\<rparr> else v) (users db)\<rparr>)"
    by (rule authdb_ok_users [OF assms]) (rule map_replace_user [OF Some _ d], simp)+
  with Some assms show ?thesis by (simp add: NewUser_def Let_def split: option.split)
qed

lemma authdb_ok_CreateSession: "authdb_ok db \<Longrightarrow> authdb_ok (snd (CreateSession env u db))"
  using authdb_ok_NewSession unfolding CreateSession_def Let_def
  by (auto split: prod.split sum.split) (metis snd_conv)+

subsection \<open>Sessions\<close>

lemma userSessions_evict:
  assumes "distinct (map ses_ID (sessions db))"
  shows "mset (userSessions (evictOldest m uid db) uid) =
    mset (drop (length (userSessions db uid) - m) (sort_key ses_CreatedAt (userSessions db uid)))"
proof -
  let ?mine = "userSessions db uid" and ?n = "length (userSessions db uid) - m"
  have d: "distinct (map ses_ID ?mine)"
    unfolding userSessions_def by (rule distinct_map_filter) (rule assms)
  have c: "filter (\<lambda>s. ses_UserID s = uid) (filter P (sessions db)) = filter P ?mine" for P
    by (simp add: userSessions_def conj_commute)
  show ?thesis
  proof (cases "length ?mine > m")
    case True
    then have "userSessions (evictOldest m uid db) uid =
        filter (\<lambda>s. ses_ID s \<notin> ses_ID ` set (take ?n (sort_key ses_CreatedAt ?mine))) ?mine"
      unfolding evictOldest_def Let_def c [symmetric] by (simp add: userSessions_def)
    then show ?thesis by (simp only: gs.filter_not_taken [OF d])
  qed (simp add: evictOldest_def Let_def)
qed

lemma userSessions_evict_other:
  assumes "distinct (map ses_ID (sessions db))" "v \<noteq> uid"
  shows "userSessions (evictOldest m uid db) v = userSessions db v"
proof (cases "length (userSessions db uid) > m")
  case True
  let ?old = "take (length (userSessions db uid) - m) (sort_key ses_CreatedAt (userSessions db uid))"
  have "ses_ID s \<notin> set (map ses_ID ?old)" if "s \<in> set (sessions db)" "ses_UserID s = v" for s
  proof
    assume "ses_ID s \<in> set (map ses_ID ?old)"
    then obtain x where "x \<in> set (userSessions db uid)" "ses_ID x = ses_ID s"
      by (auto dest!: in_set_takeD)
    then have "x = s" "ses_UserID x = uid" using assms(1) that(1)
      by (auto simp: userSessions_def distinct_map dest: inj_onD)
    then show False using that(2) assms(2) by simp
  qed
  then show ?thesis using True
    by (auto simp: evictOldest_def Let_def userSessions_def intro!: filter_cong)
qed (simp add: evictOldest_def Let_def)

lemma newest_survives:
  assumes d: "distinct (map ses_ID (sessions db))" and m: "0 < m"
    and s: "s \<in> set (userSessions db uid)"
    and newest: "\<forall>x \<in> set (userSessions db uid). x \<noteq> s \<longrightarrow> ses_CreatedAt x < ses_CreatedAt s"
  shows "s \<in> set (userSessions (evictOldest m uid db) uid)"
proof -
  let ?mine = "userSessions db uid" and ?srt = "sort_key ses_CreatedAt (userSessions db uid)"
  let ?n = "length ?mine - m"
  have "distinct ?mine" using d by (simp add: userSessions_def distinct_map)
  then have ds: "distinct (take ?n ?srt @ drop ?n ?srt)" by simp
  have "s \<in> set (drop ?n ?srt)"
  proof (rule ccontr)
    assume no: "s \<notin> set (drop ?n ?srt)"
    have "s \<in> set (take ?n ?srt @ drop ?n ?srt)" using s by simp
    with no have t: "s \<in> set (take ?n ?srt)" by (metis UnE set_append)
    have "?mine \<noteq> []" using s by auto
    then have "?n < length ?srt" using m by (simp add: diff_less)
    then have "drop ?n ?srt \<noteq> []" by simp
    then obtain y where y: "y \<in> set (drop ?n ?srt)" by (meson hd_in_set)
    with t have "ses_CreatedAt s \<le> ses_CreatedAt y" by (intro gs.take_drop_srt)
    moreover have "y \<noteq> s" using y no by auto
    moreover have "y \<in> set ?mine" using y by (auto dest: in_set_dropD)
    ultimately show False using newest by force
  qed
  then show ?thesis using userSessions_evict [OF d] by (metis set_mset_mset)
qed

lemma set_evict: "set (sessions (evictOldest m uid db)) \<subseteq> set (sessions db)"
  by (auto simp: evictOldest_def Let_def)

lemma users_evict [simp]: "users (evictOldest m uid db) = users db"
  by (simp add: evictOldest_def Let_def)

lemma users_NewSession [simp]: "users (snd (NewSession f m now s db)) = users db"
  by (simp add: NewSession_def Let_def deleteExpiredSessions_def split: option.split)

definition grownDB :: "gotime \<Rightarrow> Session \<Rightarrow> authdb \<Rightarrow> authdb" where
  "grownDB now s db =
     (let db1 = deleteExpiredSessions now db
      in db1\<lparr>sessions := sessions db1 @ [s\<lparr>ses_ID := nextSession db, ses_CreatedAt := now\<rparr>],
             nextSession := nextSession db + 1\<rparr>)"

lemma NewSession_None:
  "NewSession None m now s db =
     (Inr (s\<lparr>ses_ID := nextSession db, ses_CreatedAt := now\<rparr>), evictOldest m (ses_UserID s) (grownDB now s db))"
  by (simp add: NewSession_def grownDB_def Let_def deleteExpiredSessions_def)

lemma sessions_grownDB:
  "sessions (grownDB now s db) =
     filter (\<lambda>x. \<not> ses_Expires x < now) (sessions db) @ [s\<lparr>ses_ID := nextSession db, ses_CreatedAt := now\<rparr>]"
  by (simp add: grownDB_def deleteExpiredSessions_def Let_def)

lemma grownDB_ok: "authdb_ok db \<Longrightarrow> authdb_ok (grownDB now s db)"
  unfolding grownDB_def Let_def deleteExpiredSessions_def
  using authdb_ok_add [OF authdb_ok_filter] by fastforce

lemma NewSession_set:
  assumes "NewSession f m now s db = (Inr s', db')"
  shows "s' = s\<lparr>ses_ID := nextSession db, ses_CreatedAt := now\<rparr>"
    and "set (sessions db') \<subseteq> insert s' {x \<in> set (sessions db). \<not> ses_Expires x < now}"
proof -
  have "f = None" using assms by (cases f) (simp_all add: NewSession_def)
  then have *: "s' = s\<lparr>ses_ID := nextSession db, ses_CreatedAt := now\<rparr>"
      "db' = evictOldest m (ses_UserID s) (grownDB now s db)"
    using assms by (simp_all add: NewSession_None)
  then show "s' = s\<lparr>ses_ID := nextSession db, ses_CreatedAt := now\<rparr>" by simp
  show "set (sessions db') \<subseteq> insert s' {x \<in> set (sessions db). \<not> ses_Expires x < now}"
    using set_evict [of m "ses_UserID s" "grownDB now s db"] by (auto simp: * sessions_grownDB)
qed

lemma NewSession_kept:
  assumes "NewSession f m now s db = (Inr s', db')" "authdb_ok db" "0 < m"
    and older: "\<forall>x \<in> set (sessions db). ses_CreatedAt x < now"
  shows "s' \<in> set (sessions db')"
proof -
  have "f = None" using assms(1) by (cases f) (simp_all add: NewSession_def)
  then have *: "s' = s\<lparr>ses_ID := nextSession db, ses_CreatedAt := now\<rparr>"
      "db' = evictOldest m (ses_UserID s) (grownDB now s db)"
    using assms(1) by (simp_all add: NewSession_None)
  have "distinct (map ses_ID (sessions (grownDB now s db)))"
    using grownDB_ok [OF assms(2)] by (simp add: authdb_ok_def)
  then have "s' \<in> set (userSessions (evictOldest m (ses_UserID s) (grownDB now s db)) (ses_UserID s))"
    using older by (intro newest_survives assms(3)) (auto simp: userSessions_def sessions_grownDB *)
  then show ?thesis by (simp add: * userSessions_def)
qed

lemma GetSessionByToken_only:
  assumes "authdb_ok db" "s \<in> set (sessions db)"
    and only: "\<forall>x \<in> set (sessions db). ses_HashedToken x = ses_HashedToken s \<longrightarrow> x = s"
    and "u \<in> set (users db)" "usr_ID u = ses_UserID s"
  shows "GetSessionByToken None db (ses_HashedToken s) = Inr (s, u)"
proof -
  let ?F = "filter (\<lambda>x. ses_HashedToken x = ses_HashedToken s) (sessions db)"
  have "distinct (sessions db)" using assms(1) by (simp add: authdb_ok_def distinct_map)
  then have "distinct ?F" "set ?F = {s}" using assms(2) only by auto
  then have F: "?F = [s]" by (rule distinct_set_single)
  obtain v where v: "find (\<lambda>u. usr_ID u = ses_UserID s) (users db) = Some v"
    using assms(4,5) by (cases "find (\<lambda>u. usr_ID u = ses_UserID s) (users db)") (auto simp: find_None_iff)
  then have "v \<in> set (users db)" "usr_ID v = ses_UserID s"
    by (auto simp: find_Some_iff)
  then have "v = u" using assms(1,4,5) unfolding authdb_ok_def distinct_map by (metis inj_onD)
  with F v show ?thesis by (simp add: GetSessionByToken_def)
qed

lemma GetUser_Inr: "GetUser f db n = Inr u \<Longrightarrow> f = None \<and> u \<in> set (users db) \<and> usr_Username u = n"
  by (auto simp: GetUser_def find_Some_iff split: option.splits)

lemma Login_Inr:
  assumes "Login env username password st = (Inr (s, token), st')"
  obtains user where "fst (retryAfter (now_at env) username (throttle st)) \<le> 0"
    "GetUser (faultGetUser env) (authDB st) username = Inr user"
    "bcryptOK env password (usr_EncryptedPassword user)"
    "CreateSession env user (authDB st) = (Inr (s, token), authDB st')"
    "throttle st' = recordSuccess (now_at env) username (snd (retryAfter (now_at env) username (throttle st)))"
  using assms
  by (auto simp: Login_def Let_def split: prod.splits sum.splits if_splits)

lemma CreateSession_Inr:
  assumes "CreateSession env user db = (Inr (s, token), db')"
  shows "token = CreateAuthToken (randomIndexes env)" "ses_UserID s = usr_ID user"
    "ses_HashedToken s = hashString env token" "ses_Expires s = now_at env + cookieExpiry env"
    "users db' = users db"
    "\<exists>s0. NewSession (faultNewSession env) (maxSessions env) (now_at env) s0 db = (Inr s, db')"
proof -
  let ?s0 = "\<lparr>ses_ID = 0, ses_CreatedAt = 0, ses_UserID = usr_ID user,
    ses_HashedToken = hashString env (CreateAuthToken (randomIndexes env)), ses_Expires = now_at env + cookieExpiry env\<rparr>"
  have n: "NewSession (faultNewSession env) (maxSessions env) (now_at env) ?s0 db = (Inr s, db')"
    and t: "token = CreateAuthToken (randomIndexes env)"
    using assms by (auto simp: CreateSession_def Let_def split: prod.splits sum.splits)
  show "token = CreateAuthToken (randomIndexes env)" by (rule t)
  show "ses_UserID s = usr_ID user" "ses_HashedToken s = hashString env token"
    "ses_Expires s = now_at env + cookieExpiry env"
    using NewSession_set(1) [OF n] t by simp_all
  show "users db' = users db" using n users_NewSession by (metis snd_conv)
  show "\<exists>s0. NewSession (faultNewSession env) (maxSessions env) (now_at env) s0 db = (Inr s, db')"
    using n by blast
qed

text \<open>What a successful sign-in needs to hold of the database for its token to be usable.\<close>

definition fresh_token :: "authEnv \<Rightarrow> authdb \<Rightarrow> bool" where
  "fresh_token env db \<longleftrightarrow>
     (\<forall>x \<in> set (sessions db). ses_HashedToken x \<noteq> hashString env (CreateAuthToken (randomIndexes env)) \<and>
        ses_CreatedAt x < now_at env)"

lemma CreateSession_verifies:
  assumes "CreateSession env user db = (Inr (s, token), db')" "authdb_ok db" "0 < maxSessions env"
    "fresh_token env db" "user \<in> set (users db)"
  shows "authdb_ok db' \<and> s \<in> set (sessions db') \<and>
    GetSessionByToken None db' (hashString env token) = Inr (s, user)"
proof -
  note c = CreateSession_Inr [OF assms(1)]
  obtain s0 where n: "NewSession (faultNewSession env) (maxSessions env) (now_at env) s0 db = (Inr s, db')"
    using c(6) by blast
  have ok: "authdb_ok db'" using authdb_ok_NewSession [OF assms(2)] n by (metis snd_conv)
  have s: "s \<in> set (sessions db')"
    using assms(4) by (intro NewSession_kept [OF n assms(2,3)]) (simp add: fresh_token_def)
  have "x = s" if "x \<in> set (sessions db')" "ses_HashedToken x = ses_HashedToken s" for x
  proof -
    have "x = s \<or> x \<in> set (sessions db)" using NewSession_set(2) [OF n] that(1) by auto
    moreover have "ses_HashedToken x = hashString env (CreateAuthToken (randomIndexes env))"
      using that(2) c(1,3) by simp
    ultimately show ?thesis using assms(4) by (auto simp: fresh_token_def)
  qed
  then have "GetSessionByToken None db' (ses_HashedToken s) = Inr (s, user)"
    using s ok assms(5) c(2,5) by (intro GetSessionByToken_only) auto
  with ok s c(3) show ?thesis by simp
qed

subsection \<open>Properties of the throttle\<close>

text \<open>
  however many sign-in attempts arrive, for whichever usernames and at whichever
  times, the throttle tracks each username at most once and never more than 1024 of them.
\<close>

theorem throttle_memory_bounded:
  "length (attempts (throttle_run newLoginThrottle evs)) \<le> 1024 \<and>
   distinct (map fst (attempts (throttle_run newLoginThrottle evs)))"
  using throttle_run_inv [OF newLoginThrottle_inv, of evs]
  by (simp add: throttle_inv_def maxTrackedLogins_def gomap_ok_def)

text \<open>
  C1: the throttle delays but never locks out.  The wait it announces is at most one
  minute, and whoever waits that long without a further failure is let through.
\<close>

theorem throttle_no_lockout:
  assumes past: "\<And>a. map_of (attempts t) u = Some a \<Longrightarrow> last_at a \<le> m"
    and later: "m + fst (retryAfter m u t) \<le> m'"
  shows "0 \<le> fst (retryAfter m u t) \<and> fst (retryAfter m u t) \<le> minute \<and> fst (retryAfter m' u t) = 0"
proof (cases "map_of (attempts t) u")
  case (Some a)
  let ?d = "delayFor (failures a)"
  have d: "0 \<le> ?d" "?d \<le> minute" using delayFor_bounds [of "failures a"] by (auto simp: loginMaxDelay_def)
  have dur: "minute < max_duration" "min_duration < 0" by (simp_all add: time_units max_duration_def min_duration_def)
  have w: "time_sub (last_at a + ?d) x = max min_duration (min max_duration (last_at a + ?d - x))" for x
    by (simp add: time_sub_def)
  have "last_at a \<le> m" using past Some by simp
  with d dur w have 1: "fst (retryAfter m u t) = (if last_at a + loginAttemptTTL \<le> m then 0 else max 0 (last_at a + ?d - m))"
    by (auto simp: retryAfter_value Some)
  have "last_at a + loginAttemptTTL \<le> m' \<or> last_at a + ?d \<le> m'"
    using later d unfolding 1 by (auto simp: loginAttemptTTL_def split: if_splits)
  then have "fst (retryAfter m' u t) = 0" using dur w
    by (auto simp: retryAfter_value Some)
  with 1 d show ?thesis using \<open>last_at a \<le> m\<close> by auto
qed (simp add: retryAfter_def time_units)

theorem throttle_no_lockout_witness:
  "fst (retryAfter 0 ''root'' \<lparr>attempts = [(''root'', \<lparr>failures = 8, last_at = 0\<rparr>)]\<rparr>) \<le> minute"
  using throttle_no_lockout [of "\<lparr>attempts = [(''root'', \<lparr>failures = 8, last_at = 0\<rparr>)]\<rparr>" "''root''" 0 minute]
  by (simp add: retryAfter_value delayFor_closed time_sub_def throttle_consts min_duration_def max_duration_def)

text \<open>
  C2: while a username waits, a sign-in is refused before the user store or the
  password is looked at: the outcome and the state after it are the same for every
  password, the right one included.  The wait after \<open>n\<close> failures is nothing up to five
  and then doubles from one second to the cap of a minute.
\<close>

theorem Login_refused_while_waiting:
  assumes "map_of (attempts (throttle st)) username = Some a" "last_at a \<le> now_at env"
    and "now_at env < last_at a + (if failures a \<le> 5 then 0 else min minute (second * 2 ^ (failures a - 6)))"
  shows "Login env username password st =
    (Inl (ErrTooManyLoginAttempts (last_at a + delayFor (failures a) - now_at env)), st)"
proof -
  let ?d = "delayFor (failures a)"
  have d: "now_at env < last_at a + ?d" using assms(3) by (simp add: delayFor_closed)
  have "?d \<le> minute" using delayFor_bounds [of "failures a"] by (simp add: loginMaxDelay_def)
  then have "\<not> last_at a + loginAttemptTTL \<le> now_at env" "last_at a + ?d - now_at env \<le> max_duration"
    using d assms(2) by (auto simp: throttle_consts max_duration_def)
  then have "retryAfter (now_at env) username (throttle st) = (last_at a + ?d - now_at env, throttle st)"
    using d assms(1,2) by (simp add: retryAfter_def ttl_sub time_sub_def min_duration_def)
  then show ?thesis using d by (simp add: Login_def Let_def)
qed

definition demoEnv :: authEnv where
  "demoEnv = \<lparr>now_at = 10 * second, faultGetUser = None, faultCreate = None, faultNewSession = None,
     bcryptOK = (\<lambda>p h. p = h), hashString = (\<lambda>s. CHR ''#'' # s), encryptPassword = Inr,
     randomIndexes = [0, 1], randomPassword = [2], maxSessions = 1, cookieExpiry = hour\<rparr>"

definition demoDB :: authdb where
  "demoDB = \<lparr>users = [\<lparr>usr_ID = 1, usr_Username = ''root'', usr_EncryptedPassword = ''pw''\<rparr>],
     sessions = [\<lparr>ses_ID = 1, ses_CreatedAt = 0, ses_UserID = 1, ses_HashedToken = ''old'', ses_Expires = hour\<rparr>],
     nextUser = 2, nextSession = 2\<rparr>"

theorem Login_refused_while_waiting_witness:
  "fst (Login demoEnv ''root'' ''pw''
     \<lparr>throttle = \<lparr>attempts = [(''root'', \<lparr>failures = 9, last_at = 9 * second\<rparr>)]\<rparr>, authDB = demoDB\<rparr>) =
   Inl (ErrTooManyLoginAttempts (7 * second))"
  using Login_refused_while_waiting [of "\<lparr>throttle = \<lparr>attempts = [(''root'', \<lparr>failures = 9, last_at = 9 * second\<rparr>)]\<rparr>,
    authDB = demoDB\<rparr>" "''root''" "\<lparr>failures = 9, last_at = 9 * second\<rparr>" demoEnv "''pw''"]
  by (simp add: demoEnv_def delayFor_closed time_units)

subsection \<open>Properties of sign-in and of sessions\<close>

text \<open>
  C3: a successful sign-in needs a known username whose password matches, clears the
  failure counter of that username, and issues a token that verifies as that user until
  it expires and not after.
\<close>

theorem Login_token_roundtrip:
  assumes login: "Login env username password st = (Inr (s, token), st')"
    and db: "authdb_ok (authDB st)" "0 < maxSessions env" "fresh_token env (authDB st)"
  shows "\<exists>user \<in> set (users (authDB st)). usr_Username user = username \<and>
      bcryptOK env password (usr_EncryptedPassword user) \<and>
      (\<forall>t. VerifyToken None (hashString env) t (authDB st') token =
         (if t \<le> now_at env + cookieExpiry env then Inr user
          else Inl (ErrTokenExpired (now_at env + cookieExpiry env)))) \<and>
      map_of (attempts (throttle st')) username = None"
proof -
  obtain user where u: "GetUser (faultGetUser env) (authDB st) username = Inr user"
    and pw: "bcryptOK env password (usr_EncryptedPassword user)"
    and c: "CreateSession env user (authDB st) = (Inr (s, token), authDB st')"
    and th: "throttle st' = recordSuccess (now_at env) username (snd (retryAfter (now_at env) username (throttle st)))"
    by (rule Login_Inr [OF login])
  from GetUser_Inr [OF u] have user: "user \<in> set (users (authDB st))" "usr_Username user = username" by auto
  from CreateSession_verifies [OF c db user(1)]
  have "GetSessionByToken None (authDB st') (hashString env token) = Inr (s, user)" by simp
  moreover have "ses_Expires s = now_at env + cookieExpiry env" using CreateSession_Inr [OF c] by simp
  moreover have "map_of (attempts (throttle st')) username = None"
    by (simp add: th recordSuccess_def pruneLogins_def gomap_filter_None gm.look_del_same)
  ultimately show ?thesis using user pw by (auto simp: VerifyToken_def)
qed

lemmas auth_eval = Login_def CreateSession_def NewSession_def GetUser_def retryAfter_def recordSuccess_def
  pruneLogins_def gomap_filter_def deleteExpiredSessions_def evictOldest_def userSessions_def
  demoEnv_def demoDB_def Let_def time_units CreateAuthToken_def tokenCharacters_def

theorem Login_token_roundtrip_witness:
  "\<exists>s token st'. Login demoEnv ''root'' ''pw'' \<lparr>throttle = newLoginThrottle, authDB = demoDB\<rparr> = (Inr (s, token), st') \<and>
     (\<exists>user \<in> set (users demoDB). usr_Username user = ''root'' \<and>
        VerifyToken None (hashString demoEnv) (now_at demoEnv) (authDB st') token = Inr user)"
proof -
  let ?st = "\<lparr>throttle = newLoginThrottle, authDB = demoDB\<rparr>"
  obtain s token st' where l: "Login demoEnv ''root'' ''pw'' ?st = (Inr (s, token), st')"
    by (simp add: auth_eval newLoginThrottle_def)
  have "authdb_ok (authDB ?st)" "0 < maxSessions demoEnv" "fresh_token demoEnv (authDB ?st)"
    by (simp_all add: authdb_ok_def fresh_token_def auth_eval)
  from Login_token_roundtrip [OF l this]
  show ?thesis using l by (auto simp: demoEnv_def time_units)
qed

text \<open>
  C4: storing a session sweeps the expired ones first and then keeps at most
  \<open>maxSessions\<close> sessions of that user; every session of another user that has not expired
  survives untouched, and a failing statement leaves the tables as they were.
\<close>

theorem NewSession_cap:
  assumes "authdb_ok db"
  shows "authdb_ok (snd (NewSession f maxS now s db)) \<and>
    (case f of
       Some e \<Rightarrow> NewSession f maxS now s db = (Inl (ErrDatabase e), db)
     | None \<Rightarrow>
         length (userSessions (snd (NewSession f maxS now s db)) (ses_UserID s)) \<le> maxS \<and>
         (\<forall>v. v \<noteq> ses_UserID s \<longrightarrow>
            userSessions (snd (NewSession f maxS now s db)) v =
            filter (\<lambda>x. \<not> ses_Expires x < now) (userSessions db v)))"
proof (cases f)
  case None
  let ?g = "grownDB now s db"
  have d: "distinct (map ses_ID (sessions ?g))" using grownDB_ok [OF assms] by (simp add: authdb_ok_def)
  have "length (userSessions (evictOldest maxS (ses_UserID s) ?g) (ses_UserID s)) \<le> maxS"
    using arg_cong [OF userSessions_evict [OF d, of maxS "ses_UserID s"], of size] by simp
  moreover have "userSessions (evictOldest maxS (ses_UserID s) ?g) v = filter (\<lambda>x. \<not> ses_Expires x < now) (userSessions db v)"
    if "v \<noteq> ses_UserID s" for v
    using userSessions_evict_other [OF d that] that
    by (simp add: userSessions_def sessions_grownDB conj_commute)
  ultimately show ?thesis using authdb_ok_NewSession [OF assms, of None maxS now s] None
    by (simp add: NewSession_None)
qed (simp add: NewSession_def assms)

theorem NewSession_cap_witness:
  "length (userSessions (snd (NewSession None 1 5 \<lparr>ses_ID = 0, ses_CreatedAt = 0, ses_UserID = 1,
     ses_HashedToken = ''h'', ses_Expires = 9\<rparr> demoDB)) 1) \<le> 1"
  using NewSession_cap [of demoDB None 1 5 "\<lparr>ses_ID = 0, ses_CreatedAt = 0, ses_UserID = 1,
     ses_HashedToken = ''h'', ses_Expires = 9\<rparr>"]
  by (simp add: authdb_ok_def demoDB_def)

text \<open>
  C5: a request reaches the handlers behind the authentication middleware only when its
  cookie names a stored session that has not expired, and then with that session's user.
\<close>

theorem CheckAuth_gate:
  assumes "CheckAuth oidc redirect f hash now db cookies = Proceed u"
    and foreign: "\<forall>s \<in> set (sessions db). ses_UserID s \<in> usr_ID ` set (users db)"
  shows "\<exists>token s. map_of cookies ''Authorization'' = Some token \<and> s \<in> set (sessions db) \<and>
    ses_HashedToken s = hash token \<and> now \<le> ses_Expires s \<and>
    u \<in> set (users db) \<and> usr_ID u = ses_UserID s"
proof -
  obtain token where c: "map_of cookies ''Authorization'' = Some token"
    and v: "VerifyToken f hash now db token = Inr u"
    using assms by (auto simp: CheckAuth_def verifyCookie_def getCookie_def CookieHeaderAuth_def
        split: sum.splits option.splits if_splits)
  obtain s where g: "GetSessionByToken f db (hash token) = Inr (s, u)" and "now \<le> ses_Expires s"
    using v by (auto simp: VerifyToken_def split: sum.splits if_splits prod.splits)
  let ?F = "filter (\<lambda>x. ses_HashedToken x = hash token) (sessions db)"
  have F: "\<exists>r. sort_key ses_ID ?F = s # r" and
    u: "ses_UserID s \<in> usr_ID ` set (users db) \<longrightarrow> u \<in> set (users db) \<and> usr_ID u = ses_UserID s"
    using g by (auto simp: GetSessionByToken_def find_None_iff find_Some_iff split: option.splits list.splits)
  then have "s \<in> set ?F" by (metis list.set_intros(1) set_sort)
  then show ?thesis using c \<open>now \<le> ses_Expires s\<close> u foreign by auto
qed

theorem CheckAuth_gate_witness:
  "\<exists>token s. map_of [(''Authorization'', ''ld'')] ''Authorization'' = Some token \<and>
     s \<in> set (sessions demoDB) \<and> ses_HashedToken s = (CHR ''o'' # token) \<and> 5 \<le> ses_Expires s"
proof -
  have "CheckAuth False False None (\<lambda>t. CHR ''o'' # t) 5 demoDB [(''Authorization'', ''ld'')] =
      Proceed \<lparr>usr_ID = 1, usr_Username = ''root'', usr_EncryptedPassword = ''pw''\<rparr>"
    by (simp add: CheckAuth_def verifyCookie_def getCookie_def CookieHeaderAuth_def VerifyToken_def
        GetSessionByToken_def demoDB_def time_units)
  moreover have "\<forall>s \<in> set (sessions demoDB). ses_UserID s \<in> usr_ID ` set (users demoDB)"
    by (simp add: demoDB_def)
  ultimately show ?thesis using CheckAuth_gate by blast
qed

text \<open>
  signing in through the handler and signing out with the cookies it issued ends the
  session: the token does not verify any more.
\<close>

theorem handlerLogout_ends_session:
  assumes login: "handlerLogin env tls proto username password st = (Inr cookies, st')"
    and db: "authdb_ok (authDB st)" "0 < maxSessions env" "fresh_token env (authDB st)"
    and ids: "nextSession (authDB st) < 2 ^ 63" and t: "t \<le> now_at env + cookieExpiry env"
  shows "\<exists>token st''. map ck_Value cookies = [token, Itoa (nextSession (authDB st))] \<and>
    handlerLogout None None (hashString env) t (map (\<lambda>c. (ck_Name c, ck_Value c)) cookies) st' = (Inr (), st'') \<and>
    (\<forall>t'. VerifyToken None (hashString env) t' (authDB st'') token = Inl ErrRecordNotFound)"
proof -
  obtain s token where l: "Login env username password st = (Inr (s, token), st')"
    and ck: "cookies = createAuthCookies token (ses_ID s) (ses_Expires s) (requestIsHTTPS tls proto)"
    using login by (auto simp: handlerLogin_def split: prod.splits sum.splits)
  obtain user where u: "GetUser (faultGetUser env) (authDB st) username = Inr user"
    and c: "CreateSession env user (authDB st) = (Inr (s, token), authDB st')"
    by (rule Login_Inr [OF l])
  have user: "user \<in> set (users (authDB st))" using GetUser_Inr [OF u] by simp
  note v = CreateSession_verifies [OF c db user] and p = CreateSession_Inr [OF c]
  obtain s0 where n: "NewSession (faultNewSession env) (maxSessions env) (now_at env) s0 (authDB st) = (Inr s, authDB st')"
    using p(6) by blast
  have id: "ses_ID s = nextSession (authDB st)" using NewSession_set(1) [OF n] by simp
  have at: "Atoi (Itoa (ses_ID s)) = Some (int (ses_ID s))" using id ids by (intro Atoi_Itoa) simp
  have m: "nat (int (ses_ID s) mod 2 ^ 64) = ses_ID s" using id ids by simp
  let ?db = "(authDB st')\<lparr>sessions := filter (\<lambda>x. ses_ID x \<noteq> ses_ID s) (sessions (authDB st'))\<rparr>"
  let ?st = "st'\<lparr>authDB := ?db\<rparr>"
  have lo: "handlerLogout None None (hashString env) t (map (\<lambda>c. (ck_Name c, ck_Value c)) cookies) st' = (Inr (), ?st)"
    using v t p(4) m by (auto simp: ck handlerLogout_def verifyCookie_def getCookie_def createAuthCookies_def
        createCookie_def CookieHeaderAuth_def CookieHeaderSessionId_def VerifyToken_def at Logout_def DeleteSession_def)
  have "filter (\<lambda>x. ses_HashedToken x = hashString env token) (sessions ?db) = []"
    using NewSession_set(2) [OF n] db(3) p(1) by (auto simp: filter_empty_conv fresh_token_def)
  then have "\<forall>t'. VerifyToken None (hashString env) t' (authDB ?st) token = Inl ErrRecordNotFound"
    by (simp add: VerifyToken_def GetSessionByToken_def)
  then show ?thesis using lo id by (auto simp: ck createAuthCookies_def createCookie_def)
qed

theorem handlerLogout_ends_session_witness:
  "\<exists>cookies st' token st''.
     handlerLogin demoEnv True [] ''root'' ''pw'' \<lparr>throttle = newLoginThrottle, authDB = demoDB\<rparr> = (Inr cookies, st') \<and>
     handlerLogout None None (hashString demoEnv) 20 (map (\<lambda>c. (ck_Name c, ck_Value c)) cookies) st' = (Inr (), st'') \<and>
     VerifyToken None (hashString demoEnv) 20 (authDB st'') token = Inl ErrRecordNotFound"
proof -
  let ?st = "\<lparr>throttle = newLoginThrottle, authDB = demoDB\<rparr>"
  obtain cookies st' where l: "handlerLogin demoEnv True [] ''root'' ''pw'' ?st = (Inr cookies, st')"
    by (simp add: handlerLogin_def auth_eval newLoginThrottle_def)
  have "authdb_ok (authDB ?st)" "0 < maxSessions demoEnv" "fresh_token demoEnv (authDB ?st)"
    "nextSession (authDB ?st) < 2 ^ 63" "20 \<le> now_at demoEnv + cookieExpiry demoEnv"
    by (simp_all add: authdb_ok_def fresh_token_def auth_eval)
  from handlerLogout_ends_session [OF l this] l show ?thesis by blast
qed

text \<open>
  the sign-out handler authenticates the caller by the session cookie but deletes
  whatever session the second cookie names.  Any signed-in caller can end any session,
  another user's included.
\<close>

theorem handlerLogout_deletes_any_session:
  assumes "verifyCookie None hash now (authDB st) cookies = Inr caller"
    and "map_of cookies ''SessionId'' = Some (Itoa n)" "n < 2 ^ 63"
    and "victim \<in> set (sessions (authDB st))" "ses_ID victim = n"
  shows "fst (handlerLogout None None hash now cookies st) = Inr () \<and>
    sessions (authDB (snd (handlerLogout None None hash now cookies st))) =
      filter (\<lambda>x. ses_ID x \<noteq> n) (sessions (authDB st))"
proof -
  have "nat (int n mod 2 ^ 64) = n" using assms(3) by simp
  moreover have "n \<in> ses_ID ` set (sessions (authDB st))" using assms(4,5) by blast
  ultimately show ?thesis using assms(1,2) Atoi_Itoa [OF assms(3)]
    by (simp add: handlerLogout_def getCookie_def CookieHeaderSessionId_def Logout_def DeleteSession_def)
qed

definition twoUsersDB :: authdb where
  "twoUsersDB = \<lparr>users = [\<lparr>usr_ID = 1, usr_Username = ''eve'', usr_EncryptedPassword = ''x''\<rparr>,
                          \<lparr>usr_ID = 2, usr_Username = ''root'', usr_EncryptedPassword = ''y''\<rparr>],
     sessions = [\<lparr>ses_ID = 4, ses_CreatedAt = 0, ses_UserID = 1, ses_HashedToken = ''eve-token'', ses_Expires = 99\<rparr>,
                 \<lparr>ses_ID = 7, ses_CreatedAt = 0, ses_UserID = 2, ses_HashedToken = ''root-token'', ses_Expires = 99\<rparr>],
     nextUser = 3, nextSession = 8\<rparr>"

theorem handlerLogout_deletes_any_session_witness:
  "map ses_UserID (sessions (authDB (snd (handlerLogout None None id 5
     [(''Authorization'', ''eve-token''), (''SessionId'', ''7'')]
     \<lparr>throttle = newLoginThrottle, authDB = twoUsersDB\<rparr>)))) = [1]"
proof -
  let ?st = "\<lparr>throttle = newLoginThrottle, authDB = twoUsersDB\<rparr>"
    and ?c = "[(''Authorization'', ''eve-token''), (''SessionId'', Itoa 7)]"
  have i: "Itoa 7 = ''7''" by code_simp
  have "verifyCookie None id 5 (authDB ?st) ?c = Inr \<lparr>usr_ID = 1, usr_Username = ''eve'', usr_EncryptedPassword = ''x''\<rparr>"
    by (simp add: verifyCookie_def getCookie_def CookieHeaderAuth_def VerifyToken_def GetSessionByToken_def twoUsersDB_def)
  from handlerLogout_deletes_any_session [OF this, of 7
      "\<lparr>ses_ID = 7, ses_CreatedAt = 0, ses_UserID = 2, ses_HashedToken = ''root-token'', ses_Expires = 99\<rparr>"]
  show ?thesis by (simp add: twoUsersDB_def i)
qed

text \<open>
  C6: the identity-provider callback signs somebody in only when the returned state is
  the one of the state cookie; in every other case no session is created.  The
  \<open>email_verified\<close> claim plays no part: an unverified address is accepted like a verified one.
\<close>

theorem OIDCCallback_state_checked:
  "(returned = [] \<or> stateCookie \<noteq> Some returned \<or> oidcErr \<noteq> [] \<longrightarrow>
      snd (handlerOIDCCallback env tls proto oidcErr returned stateCookie provider st) = st \<and>
      (\<forall>cs. fst (handlerOIDCCallback env tls proto oidcErr returned stateCookie provider st) \<noteq> SignedIn cs)) \<and>
   OIDCCallback env (Inr (claims\<lparr>claimEmailVerified := False\<rparr>)) st = OIDCCallback env (Inr claims) st"
proof
  show "OIDCCallback env (Inr (claims\<lparr>claimEmailVerified := False\<rparr>)) st = OIDCCallback env (Inr claims) st"
    by (simp add: OIDCCallback_def cong: sum.case_cong)
qed (auto simp: handlerOIDCCallback_def split: option.splits)

theorem OIDCCallback_state_checked_witness:
  "fst (handlerOIDCCallback demoEnv True [] [] ''abc'' (Some ''xyz'') (Inl (ErrOIDC [])) \<lparr>throttle = newLoginThrottle, authDB = demoDB\<rparr>) \<noteq> SignedIn []"
  using OIDCCallback_state_checked [of "''abc''" "Some ''xyz''" "[]"] by blast

end
