(* ===== verification/Container_Labels.thy ===== *)
theory Container_Labels
  imports Go_Prelude
begin

section \<open>Containers, their labels and the guards built on them\<close>

text \<open>
  Models the container summary the Docker client returns (the fields the updater reads) and
  the helpers that classify a container: the boolean labels, the guard against replacing
  Dockman or the daemon's own infrastructure (\<open>core/internal/docker/updater/updater.go\<close> and
  \<open>policy.go\<close>), the grouping of a batch by stack and the writer that merges the output of
  concurrent stacks (\<open>parallel.go\<close>).
\<close>

record mountPoint =
  mnt_Source :: string
  mnt_Destination :: string

record containerSummary =
  cs_ID :: string
  cs_Names :: "string list"
  cs_Image :: string
  cs_ImageID :: string
  cs_State :: string
  cs_Labels :: "(string, string) gomap"
  cs_Mounts :: "mountPoint list"

subsection \<open>Labels\<close>

definition DockmanOptInUpdateLabel :: string where "DockmanOptInUpdateLabel = ''dockman.update''"
definition DockmanUpdateDisableLabel :: string where "DockmanUpdateDisableLabel = ''dockman.update.disable''"
definition DockmanContainerLabel :: string where "DockmanContainerLabel = ''dockman.container''"
definition composeProjectLabel :: string where "composeProjectLabel = ''com.docker.compose.project''"
definition composeFilesLabel :: string where "composeFilesLabel = ''com.docker.compose.project.config_files''"
definition composeServiceLabel :: string where "composeServiceLabel = ''com.docker.compose.service''"
definition composeDependsLabel :: string where "composeDependsLabel = ''com.docker.compose.depends_on''"

text \<open>\<open>(value, present, valid)\<close>, as the source returns them.\<close>

definition parseBoolLabel :: "(string, string) gomap \<Rightarrow> string \<Rightarrow> bool \<times> bool \<times> bool" where
  "parseBoolLabel labels key =
     (case map_of labels key of
        None \<Rightarrow> (False, False, True)
      | Some raw \<Rightarrow>
          let trimmed = TrimSpace raw in
          if trimmed = [] then (True, True, True)
          else if ToLower trimmed \<in> set [''1'', ''t'', ''true'', ''y'', ''yes'', ''on'', ''enable'', ''enabled'']
          then (True, True, True)
          else if ToLower trimmed \<in> set [''0'', ''f'', ''false'', ''n'', ''no'', ''off'', ''disable'', ''disabled'']
          then (False, True, True)
          else (False, True, False))"

definition invalidLabelReason :: "(string, string) gomap \<Rightarrow> string \<Rightarrow> string" where
  "invalidLabelReason labels key =
     key @ ''='' @ quoted (TrimSpace (str_at labels key)) @ '' is not a recognised boolean; use true or false''"

definition hasDisableUpdateLabel :: "containerSummary \<Rightarrow> bool" where
  "hasDisableUpdateLabel c =
     (let (disabled, present, valid) = parseBoolLabel (cs_Labels c) DockmanUpdateDisableLabel
      in present \<and> (\<not> valid \<or> disabled))"

definition MarksDockmanContainer :: "containerSummary \<Rightarrow> bool" where
  "MarksDockmanContainer c =
     (let (marked, present, valid) = parseBoolLabel (cs_Labels c) DockmanContainerLabel
      in present \<and> (\<not> valid \<or> marked))"

definition IdentifiesDockmanContainer :: "(string, string) gomap \<Rightarrow> bool" where
  "IdentifiesDockmanContainer labels =
     (let (marked, present, valid) = parseBoolLabel labels DockmanContainerLabel
      in present \<and> valid \<and> marked)"

definition hasDockmanLabel :: "containerSummary \<Rightarrow> bool" where
  "hasDockmanLabel c = MarksDockmanContainer c"

definition stackIdentity :: "(string, string) gomap \<Rightarrow> string \<times> string" where
  "stackIdentity labels =
     (let name = TrimSpace (str_at labels composeProjectLabel);
          files = TrimSpace (str_at labels composeFilesLabel)
      in if name = [] then ([], [])
         else if files \<noteq> [] then (name, name @ ''|'' @ files)
         else (name, name))"

subsection \<open>Guards\<close>

definition dockerSocketPaths :: "string list" where
  "dockerSocketPaths = [''/var/run/docker.sock'', ''/run/docker.sock'']"

definition ExposesDockerSocket :: "containerSummary \<Rightarrow> bool" where
  "ExposesDockerSocket c =
     list_ex (\<lambda>m. list_ex (\<lambda>socket. path_clean (mnt_Source m) = socket \<or> path_clean (mnt_Destination m) = socket)
       dockerSocketPaths) (cs_Mounts c)"

definition shortContainerID :: "string \<Rightarrow> string" where
  "shortContainerID i = (if length i > 12 then take 12 i else i)"

definition summaryName :: "containerSummary \<Rightarrow> string" where
  "summaryName c = (case cs_Names c of [] \<Rightarrow> shortContainerID (cs_ID c) | n # _ \<Rightarrow> TrimPrefix n ''/'')"

text \<open>\<^const>\<open>None\<close> is the nil error: the container may be replaced through the API.\<close>

definition guardProtectedInfrastructure :: "containerSummary \<Rightarrow> string option" where
  "guardProtectedInfrastructure c =
     (if hasDockmanLabel c
      then Some (summaryName c @ '' is Dockman itself and cannot recreate its own container through the Docker API: use the Dockman update action, which hands the work to a detached helper'')
      else if \<not> ExposesDockerSocket c then None
      else if map_of (cs_Labels c) DockmanOptInUpdateLabel \<noteq> None then None
      else Some (summaryName c @ '' exposes the Docker socket and cannot be updated through it: use the protected update on the Updates page, which runs from a detached helper that survives Dockman losing its Docker connection, or set '' @ DockmanOptInUpdateLabel @ ''=true to override''))"

definition ProtectedFromAPIReplacement :: "containerSummary \<Rightarrow> bool" where
  "ProtectedFromAPIReplacement c \<longleftrightarrow> guardProtectedInfrastructure c \<noteq> None"

subsection \<open>Grouping a batch by stack\<close>

definition stackGroupKey :: "containerSummary \<Rightarrow> string" where
  "stackGroupKey c =
     (let project = TrimSpace (str_at (cs_Labels c) composeProjectLabel)
      in if project \<noteq> [] then project else cs_ID c)"

text \<open>
  One loop over the containers.  The groups are kept in the order their keys were first
  seen, which is the pair of \<^verbatim>\<open>order\<close> and \<^verbatim>\<open>byKey\<close> of the source.
\<close>

fun addToGroup :: "('a \<Rightarrow> string) \<Rightarrow> (string \<times> 'a list) list \<Rightarrow> 'a \<Rightarrow> (string \<times> 'a list) list" where
  "addToGroup key [] x = [(key x, [x])]"
| "addToGroup key ((k, xs) # groups) x =
     (if k = key x then (k, xs @ [x]) # groups else (k, xs) # addToGroup key groups x)"

definition groupBy :: "('a \<Rightarrow> string) \<Rightarrow> 'a list \<Rightarrow> (string \<times> 'a list) list" where
  "groupBy key xs = foldl (addToGroup key) [] xs"

definition groupContainersByStack :: "containerSummary list \<Rightarrow> (string \<times> containerSummary list) list" where
  "groupContainersByStack cs = groupBy stackGroupKey cs"

subsection \<open>Merging the output of concurrent stacks\<close>

record stackLogWriter =
  slw_prefix :: string
  slw_buf :: string

definition newline :: char where "newline = CHR 0x0A"

definition newStackLogWriter :: "string \<Rightarrow> stackLogWriter" where
  "newStackLogWriter stack = \<lparr>slw_prefix = ''['' @ stack @ ''] '', slw_buf = []\<rparr>"

text \<open>
  The loop of \<open>Write\<close>: every complete line of the buffer is emitted with the prefix, the
  unfinished one stays.  The underlying writer accepts every line; \<^verbatim>\<open>out\<close> is what it received,
  one element per locked \<open>emit\<close>.
\<close>

fun emitLines :: "string \<Rightarrow> string list \<Rightarrow> string list \<times> string" where
  "emitLines pre [] = ([], [])"
| "emitLines pre [rest] = ([], rest)"
| "emitLines pre (line # l # ls) =
     (let (out, rest) = emitLines pre (l # ls) in ((pre @ line @ [newline]) # out, rest))"

definition logWrite :: "stackLogWriter \<Rightarrow> string list \<Rightarrow> string \<Rightarrow> stackLogWriter \<times> string list" where
  "logWrite w out p =
     (let (emitted, rest) = emitLines (slw_prefix w) (Split (slw_buf w @ p) newline)
      in (w\<lparr>slw_buf := rest\<rparr>, out @ emitted))"

definition logFlush :: "stackLogWriter \<Rightarrow> string list \<Rightarrow> stackLogWriter \<times> string list" where
  "logFlush w out =
     (if slw_buf w = [] then (w, out)
      else (w\<lparr>slw_buf := []\<rparr>, out @ [slw_prefix w @ slw_buf w @ [CHR 0x0D, newline]]))"

subsection \<open>Laws of the labels\<close>

lemma parseBoolLabel_absent: "fst (snd (parseBoolLabel labels key)) \<longleftrightarrow> map_of labels key \<noteq> None"
  by (auto simp: parseBoolLabel_def Let_def split: option.splits)

lemma parseBoolLabel_invalid: "parseBoolLabel labels key = (v, present, valid) \<Longrightarrow> \<not> valid \<Longrightarrow> \<not> v \<and> present"
  by (auto simp: parseBoolLabel_def Let_def split: option.splits if_splits)

text \<open>The container to restart is always one that an ordinary update keeps away from.\<close>

lemma IdentifiesDockman_marked: "IdentifiesDockmanContainer (cs_Labels c) \<Longrightarrow> MarksDockmanContainer c"
  by (auto simp: IdentifiesDockmanContainer_def MarksDockmanContainer_def split: prod.splits)

lemma guard_None_iff:
  "guardProtectedInfrastructure c = None \<longleftrightarrow>
     \<not> hasDockmanLabel c \<and> (ExposesDockerSocket c \<longrightarrow> map_of (cs_Labels c) DockmanOptInUpdateLabel \<noteq> None)"
  unfolding guardProtectedInfrastructure_def by simp

subsection \<open>The contract of a grouping\<close>

lemma sum_if_single:
  "distinct ks \<Longrightarrow> (\<Sum>k \<leftarrow> ks. if j = k then (m :: 'b multiset) else {#}) = (if j \<in> set ks then m else {#})"
  by (induction ks) auto

text \<open>
  A batch split into groups by a key: what the callers that run the groups in parallel rely
  on, and what follows from it.
\<close>

locale stack_grouping =
  fixes key :: "'a \<Rightarrow> string"
    and grp :: "'a list \<Rightarrow> (string \<times> 'a list) list"
  assumes keys_distinct: "distinct (map fst (grp xs))"
    and members: "(k, ys) \<in> set (grp xs) \<Longrightarrow> ys = filter (\<lambda>x. key x = k) xs"
    and covered: "fst ` set (grp xs) = key ` set xs"
begin

lemma member_key: "(k, ys) \<in> set (grp xs) \<Longrightarrow> x \<in> set ys \<Longrightarrow> key x = k \<and> x \<in> set xs"
  using members by fastforce

lemma nonempty: "(k, ys) \<in> set (grp xs) \<Longrightarrow> ys \<noteq> []"
proof -
  assume g: "(k, ys) \<in> set (grp xs)"
  then have "k \<in> key ` set xs" by (metis covered fst_conv image_eqI)
  then show ?thesis using members [OF g] by (auto simp: filter_empty_conv)
qed

lemma separate:
  assumes "(k, ys) \<in> set (grp xs)" "(l, zs) \<in> set (grp xs)" "x \<in> set ys" "z \<in> set zs" "key x = key z"
  shows "k = l \<and> ys = zs"
  using assms member_key members by metis

lemma grouped: "x \<in> set xs \<Longrightarrow> (key x, filter (\<lambda>y. key y = key x) xs) \<in> set (grp xs)"
proof -
  assume "x \<in> set xs"
  then have "key x \<in> fst ` set (grp xs)" by (simp add: covered)
  then obtain ys where "(key x, ys) \<in> set (grp xs)" by force
  then show ?thesis using members by metis
qed

lemma mset_by_keys:
  assumes "distinct ks" "key ` set xs \<subseteq> set ks"
  shows "(\<Sum>k \<leftarrow> ks. mset (filter (\<lambda>x. key x = k) xs)) = mset xs"
  using assms(2)
proof (induction xs)
  case (Cons x xs)
  have "(\<Sum>k \<leftarrow> ks. mset (filter (\<lambda>y. key y = k) (x # xs))) =
      (\<Sum>k \<leftarrow> ks. if key x = k then {#x#} else {#}) + (\<Sum>k \<leftarrow> ks. mset (filter (\<lambda>y. key y = k) xs))"
    by (induction ks) (auto simp: ac_simps)
  moreover have "(\<Sum>k \<leftarrow> ks. if key x = k then {#x#} else {#}) = {#x#}"
    using sum_if_single [OF assms(1), of "key x" "{#x#}"] Cons.prems by auto
  ultimately show ?case using Cons by simp
qed (induction ks; simp)

text \<open>Nothing is lost and nothing is duplicated.\<close>

lemma partition_batch: "mset (concat (map snd (grp xs))) = mset xs"
proof -
  have eq: "map snd (grp xs) = map (\<lambda>k. filter (\<lambda>x. key x = k) xs) (map fst (grp xs))"
    using members by (auto simp: map_eq_conv)
  have "mset (concat (map snd (grp xs))) = (\<Sum>k \<leftarrow> map fst (grp xs). mset (filter (\<lambda>x. key x = k) xs))"
    unfolding eq mset_concat by (simp add: comp_def)
  then show ?thesis using mset_by_keys [OF keys_distinct] covered by auto
qed

end

definition firsts :: "'b list \<Rightarrow> 'b list" where
  "firsts ks = rev (remdups (rev ks))"

lemma firsts_snoc: "firsts (ks @ [k]) = (if k \<in> set ks then firsts ks else firsts ks @ [k])"
  by (simp add: firsts_def)

lemma firsts_set [simp]: "set (firsts ks) = set ks" "distinct (firsts ks)"
  by (simp_all add: firsts_def)

lemma addToGroup_map:
  assumes "distinct ks"
  shows "addToGroup key (map (\<lambda>k. (k, f k)) ks) x =
    (if key x \<in> set ks then map (\<lambda>k. (k, if k = key x then f k @ [x] else f k)) ks
     else map (\<lambda>k. (k, f k)) ks @ [(key x, [x])])"
  using assms by (induction ks) auto

lemma groupBy_spec: "groupBy key xs = map (\<lambda>k. (k, filter (\<lambda>x. key x = k) xs)) (firsts (map key xs))"
proof (induction xs rule: rev_induct)
  case Nil
  then show ?case by (simp add: groupBy_def firsts_def)
next
  case (snoc x xs)
  have "filter (\<lambda>y. key y = key x) xs = []" if "key x \<notin> key ` set xs"
    using that by (auto simp: filter_empty_conv rev_image_eqI)
  moreover have "groupBy key (xs @ [x]) = addToGroup key (groupBy key xs) x" by (simp add: groupBy_def)
  ultimately show ?case
    unfolding snoc by (auto simp: addToGroup_map firsts_snoc)
qed

lemma groupBy_laws:
  "distinct (map fst (groupBy key xs))"
  "(k, ys) \<in> set (groupBy key xs) \<Longrightarrow> ys = filter (\<lambda>x. key x = k) xs"
  "fst ` set (groupBy key xs) = key ` set xs"
  by (auto simp: groupBy_spec comp_def image_image)

interpretation stacks: stack_grouping stackGroupKey groupContainersByStack
  by unfold_locales (simp_all add: groupContainersByStack_def groupBy_laws)

text \<open>
  a batch of containers is split into groups that may run in parallel.  Every container is
  in exactly one group, containers of the same Compose project are in the same one in their
  original order, a container without a project is grouped by its own id, and two groups never
  share a project.
\<close>

theorem groupContainersByStack_partition:
  "mset (concat (map snd (groupContainersByStack cs))) = mset cs \<and>
   distinct (map fst (groupContainersByStack cs)) \<and>
   (\<forall>c \<in> set cs. (stackGroupKey c, filter (\<lambda>d. stackGroupKey d = stackGroupKey c) cs) \<in> set (groupContainersByStack cs)) \<and>
   (\<forall>(k, ys) \<in> set (groupContainersByStack cs). ys \<noteq> [] \<and> (\<forall>y \<in> set ys. stackGroupKey y = k))"
  using stacks.partition_batch [of cs] stacks.keys_distinct [of cs] stacks.grouped stacks.nonempty stacks.member_key
  by fastforce

definition sampleContainer :: "string \<Rightarrow> string \<Rightarrow> containerSummary" where
  "sampleContainer i project =
     \<lparr>cs_ID = i, cs_Names = [''/'' @ i], cs_Image = ''app'', cs_ImageID = ''sha256:1'', cs_State = ''running'',
      cs_Labels = (if project = [] then [] else [(composeProjectLabel, project)]), cs_Mounts = []\<rparr>"

theorem groupContainersByStack_partition_witness:
  "groupContainersByStack [sampleContainer ''a'' ''p'', sampleContainer ''b'' [], sampleContainer ''c'' ''p''] =
     [(''p'', [sampleContainer ''a'' ''p'', sampleContainer ''c'' ''p'']), (''b'', [sampleContainer ''b'' []])] \<and>
   mset (concat (map snd (groupContainersByStack [sampleContainer ''a'' ''p'', sampleContainer ''b'' [], sampleContainer ''c'' ''p'']))) =
     mset [sampleContainer ''a'' ''p'', sampleContainer ''b'' [], sampleContainer ''c'' ''p'']"
  using groupContainersByStack_partition [of "[sampleContainer ''a'' ''p'', sampleContainer ''b'' [], sampleContainer ''c'' ''p'']"]
  by (simp add: groupContainersByStack_def groupBy_def stackGroupKey_def sampleContainer_def str_at_def
      TrimSpace_def is_space_def Let_def)

subsection \<open>Whole lines\<close>

lemma emitLines_eq: "ls \<noteq> [] \<Longrightarrow> emitLines pre ls = (map (\<lambda>l. pre @ l @ [newline]) (butlast ls), last ls)"
  by (induction pre ls rule: emitLines.induct) auto

lemma Split_append_chunk: "Split (a @ b) c = butlast (Split a c) @ Split (last (Split a c) @ b) c"
proof (induction a)
  case (Cons d a)
  show ?case
  proof (cases "d = c")
    case False
    obtain p ps where p: "Split a c = p # ps" by (cases "Split a c") auto
    show ?thesis
    proof (cases "ps = []")
      case True
      with Cons p False show ?thesis by simp
    next
      case ne: False
      then obtain q qs where "Split (a @ b) c = p # qs" "qs = butlast ps @ Split (last ps @ b) c"
        using Cons p by simp
      with False p ne show ?thesis by simp
    qed
  qed (simp add: Cons)
qed simp

lemma logWrite_chunks:
  "foldl (\<lambda>(w, out) p. logWrite w out p) (w, out) ps = logWrite w out (concat ps)"
  if "newline \<notin> set (slw_buf w)"
  using that
proof (induction ps arbitrary: w out)
  case Nil
  then show ?case by (simp add: logWrite_def Split_single)
next
  case (Cons p ps)
  let ?s = "Split (slw_buf w @ p) newline"
  have l: "logWrite w out p = (w\<lparr>slw_buf := last ?s\<rparr>, out @ map (\<lambda>l. slw_prefix w @ l @ [newline]) (butlast ?s))"
    by (simp add: logWrite_def emitLines_eq)
  have "newline \<notin> set (last ?s)" using Split_no_sep last_in_set Split_nonempty by metis
  then have "foldl (\<lambda>(w, out) p. logWrite w out p) (logWrite w out p) ps =
      logWrite (w\<lparr>slw_buf := last ?s\<rparr>) (out @ map (\<lambda>l. slw_prefix w @ l @ [newline]) (butlast ?s)) (concat ps)"
    unfolding l by (intro Cons.IH) simp
  also have "\<dots> = logWrite w out (p @ concat ps)"
    using Split_append_chunk [of "slw_buf w @ p" "concat ps" newline]
    by (simp add: logWrite_def emitLines_eq butlast_append)
  finally show ?case by simp
qed

text \<open>
  the output of a stack reaches the shared stream as whole lines, each emitted in one
  piece with the stack's prefix, however its text was cut into writes: after the final flush
  the emitted pieces are exactly the lines of the text, the unterminated last one included,
  and nothing is left in the buffer.
\<close>

theorem stackLogWriter_whole_lines:
  "(case foldl (\<lambda>(w, out) p. logWrite w out p) (newStackLogWriter stack, []) ps of (w, out) \<Rightarrow> logFlush w out) =
    (let pre = ''['' @ stack @ ''] ''; ls = Split (concat ps) newline in
     (\<lparr>slw_prefix = pre, slw_buf = []\<rparr>,
      map (\<lambda>l. pre @ l @ [newline]) (butlast ls) @ (if last ls = [] then [] else [pre @ last ls @ [CHR 0x0D, newline]])))"
  using logWrite_chunks [of "newStackLogWriter stack" "[]" ps]
  by (simp add: newStackLogWriter_def logWrite_def logFlush_def emitLines_eq Let_def)

end
