(* ===== verification/Registry_Client.thy ===== *)
theory Registry_Client
  imports Go_Prelude
begin

section \<open>Image references and the anonymous registry client\<close>

text \<open>
  Models \<open>core/internal/docker/updater/registry.go\<close>: the parser of img references, the
  manifest request with its anonymous Bearer token, and the redirect policy of the two
  HTTP clients the updater builds (\<open>RegistryManifestDigest\<close> here, \<open>RegistryTags\<close> in
  \<open>version.go\<close>).

  What happens on the network is the argument \<^verbatim>\<open>env\<close>: the answer to a request may depend
  on every request made before it, so the theorems hold for every registry, honest or
  not.  The log of requests is threaded through the operations.  \<open>url.Parse\<close>, the
  resolution of a relative URL and the two JSON decoders are arguments as well.
\<close>

subsection \<open>HTTP\<close>

record url =
  url_scheme :: string
  url_host :: string
  url_path :: string
  url_query :: "(string, string) gomap"

record http_request =
  req_method :: string
  req_url :: url
  req_headers :: "(string, string) gomap"

record http_response =
  resp_status :: nat
  resp_headers :: "(string, string) gomap"
  resp_body :: string

datatype http_reply =
  Failed string
| Redirected url
| Response http_response

record http_env =
  env_exchange :: "http_request list \<Rightarrow> http_request \<Rightarrow> http_reply"
  env_forwards_auth :: "string \<Rightarrow> string \<Rightarrow> bool"
  env_url_parse :: "string \<Rightarrow> url option"
  env_url_resolve :: "url \<Rightarrow> string \<Rightarrow> url option"
  env_json_token :: "string \<Rightarrow> string + (string \<times> string)"
  env_json_tags :: "string \<Rightarrow> string + string list"

type_synonym 'a http_result = "(string + 'a) \<times> http_request list"

text \<open>
  The two clients differ in their \<open>CheckRedirect\<close> hook.  \<^verbatim>\<open>via\<close> is the number of requests
  already made for this call; the hook returns the error that stops the redirect.
\<close>

datatype registry_client = ManifestClient | TagClient

definition checkRedirect :: "registry_client \<Rightarrow> nat \<Rightarrow> url \<Rightarrow> string option" where
  "checkRedirect c via u =
     (case c of
        ManifestClient \<Rightarrow>
          if via \<ge> 3 then Some ''too many registry redirects''
          else if url_scheme u \<noteq> ''https'' then Some ''registry redirect must use HTTPS''
          else None
      | TagClient \<Rightarrow>
          if via \<ge> 3 \<or> url_scheme u \<noteq> ''https'' then Some ''unsafe or excessive registry redirect''
          else None)"

text \<open>
  \<open>http.Client.Do\<close>: follows redirects while the hook allows them.  The standard library
  drops the \<open>Authorization\<close> header when a redirect leaves the host it was set for.
\<close>

definition redirect_request :: "http_env \<Rightarrow> http_request \<Rightarrow> url \<Rightarrow> http_request" where
  "redirect_request env req u =
     req\<lparr>req_url := u,
         req_headers := (if env_forwards_auth env (url_host (req_url req)) (url_host u) then req_headers req
                         else AList.delete ''Authorization'' (req_headers req))\<rparr>"

function client_do ::
  "registry_client \<Rightarrow> http_env \<Rightarrow> nat \<Rightarrow> http_request list \<Rightarrow> http_request \<Rightarrow> http_response http_result" where
  "client_do c env via log req =
     (case env_exchange env log req of
        Failed e \<Rightarrow> (Inl e, log @ [req])
      | Response r \<Rightarrow> (Inr r, log @ [req])
      | Redirected u \<Rightarrow>
          (case checkRedirect c (Suc via) u of
             Some e \<Rightarrow> (Inl e, log @ [req])
           | None \<Rightarrow> client_do c env (Suc via) (log @ [req]) (redirect_request env req u)))"
  by pat_completeness auto
termination
  by (relation "measure (\<lambda>(c, env, via, log, req). 3 - via)")
    (auto simp: checkRedirect_def split: registry_client.splits if_splits)

declare client_do.simps [simp del]

definition https :: "http_request \<Rightarrow> bool" where
  "https req \<longleftrightarrow> url_scheme (req_url req) = ''https''"

definition req_auth :: "http_request \<Rightarrow> string" where
  "req_auth req = str_at (req_headers req) ''Authorization''"

subsection \<open>Escaping\<close>

definition unescaped :: "char \<Rightarrow> bool" where
  "unescaped c \<longleftrightarrow> is_digit c \<or> (CHR ''a'' \<le> c \<and> c \<le> CHR ''z'') \<or> (CHR ''A'' \<le> c \<and> c \<le> CHR ''Z'') \<or>
     c \<in> set ''-_.~$&+:=@''"

definition hex_digit :: "nat \<Rightarrow> char" where
  "hex_digit n = (if n < 10 then char_of (48 + n) else char_of (55 + n))"

definition PathEscape :: "string \<Rightarrow> string" where
  "PathEscape s = concat (map (\<lambda>c. if unescaped c then [c]
     else [CHR ''%'', hex_digit (of_char c div 16), hex_digit (of_char c mod 16)]) s)"

definition escapeRepositoryPath :: "string \<Rightarrow> string" where
  "escapeRepositoryPath repo = Join (map PathEscape (Split repo (CHR ''/''))) ''/''"

subsection \<open>Image references\<close>

record registryImageReference =
  ref_registry :: string
  ref_repo :: string
  ref_tag :: string

definition docker_hub :: string where "docker_hub = ''registry-1.docker.io''"

definition canonical_registry :: "string \<Rightarrow> string" where
  "canonical_registry r = (if r = ''docker.io'' \<or> r = ''index.docker.io'' then docker_hub else r)"

text \<open>The registry in front of the first slash, and the tag behind the last colon of the rest.\<close>

definition splitRegistry :: "string \<Rightarrow> string \<times> string" where
  "splitRegistry img =
     (case IndexByte img (CHR ''/'') of
        None \<Rightarrow> (docker_hub, img)
      | Some slash \<Rightarrow>
          let first = take slash img in
          if Contains first ''.'' \<or> Contains first '':'' \<or> first = ''localhost''
          then (first, drop (slash + 1) img)
          else (docker_hub, img))"

definition splitTag :: "string \<Rightarrow> string \<times> string" where
  "splitTag remainder =
     (let lastSlash = LastIndexByte remainder (CHR ''/'');
          lastColon = LastIndexByte remainder (CHR '':'')
      in case lastColon of
           None \<Rightarrow> (''latest'', remainder)
         | Some colon \<Rightarrow>
             if (case lastSlash of None \<Rightarrow> True | Some slash \<Rightarrow> colon > slash)
             then (drop (colon + 1) remainder, take colon remainder)
             else (''latest'', remainder))"

definition parseRegistryImageReference :: "string \<Rightarrow> string + registryImageReference" where
  "parseRegistryImageReference img0 =
     (let img = TrimSpace img0 in
      if img = [] \<or> Contains img ''://'' \<or> Contains img ''@''
      then Inl (''unsupported image reference '' @ quoted img)
      else
        let (registry0, remainder0) = splitRegistry img;
            registry1 = canonical_registry registry0;
            (tag1, remainder1) = splitTag remainder0;
            remainder2 = (if registry1 = docker_hub \<and> \<not> Contains remainder1 ''/''
                          then ''library/'' @ remainder1 else remainder1)
        in if registry1 = [] \<or> remainder2 = [] \<or> tag1 = []
           then Inl (''invalid image reference '' @ quoted img)
           else Inr \<lparr>ref_registry = registry1, ref_repo = remainder2, ref_tag = tag1\<rparr>)"

definition registryStatusError :: "nat \<Rightarrow> string" where
  "registryStatusError status =
     (if status = 404 then ''image tag was not found in the public registry''
      else if status = 429 then ''public registry rate limit reached''
      else if status = 401 \<or> status = 403
      then ''registry authentication required; private registry credentials are not configured''
      else ''registry manifest request returned HTTP '' @ Itoa status)"

subsection \<open>The anonymous Bearer token\<close>

definition is_letter :: "char \<Rightarrow> bool" where
  "is_letter c \<longleftrightarrow> (CHR ''a'' \<le> c \<and> c \<le> CHR ''z'') \<or> (CHR ''A'' \<le> c \<and> c \<le> CHR ''Z'')"

text \<open>
  One match of the pattern \<^verbatim>\<open>([A-Za-z]+)="([^"]*)"\<close> at the start of the string: the two
  groups and the rest.
\<close>

definition bearer_match :: "string \<Rightarrow> (string \<times> string \<times> string) option" where
  "bearer_match s =
     (let name = takeWhile is_letter s;
          after = dropWhile is_letter s;
          body = drop 2 after;
          val = takeWhile (\<lambda>c. c \<noteq> CHR 0x22) body;
          rest = dropWhile (\<lambda>c. c \<noteq> CHR 0x22) body
      in if name \<noteq> [] \<and> HasPrefix after [CHR ''='', CHR 0x22] \<and> rest \<noteq> []
         then Some (name, val, tl rest) else None)"

lemma bearer_match_shorter:
  assumes "bearer_match s = Some (name, val, rest)"
  shows "length rest < length s"
proof -
  let ?after = "dropWhile is_letter s"
  let ?rest = "dropWhile (\<lambda>c. c \<noteq> CHR 0x22) (drop 2 ?after)"
  have r: "rest = tl ?rest" "?rest \<noteq> []"
    using assms by (auto simp: bearer_match_def Let_def split: if_splits)
  have "length rest < length ?rest" using r by (cases ?rest) auto
  also have "\<dots> \<le> length (drop 2 ?after)" by (rule length_dropWhile_le)
  also have "\<dots> \<le> length ?after" by simp
  also have "\<dots> \<le> length s" by (rule length_dropWhile_le)
  finally show ?thesis .
qed

function bearerParameter :: "string \<Rightarrow> (string \<times> string) list" where
  "bearerParameter [] = []"
| "bearerParameter (c # s) =
     (case bearer_match (c # s) of
        Some (name, val, rest) \<Rightarrow> (name, val) # bearerParameter rest
      | None \<Rightarrow> bearerParameter s)"
  by pat_completeness auto
termination
  by (relation "measure length") (auto dest: bearer_match_shorter)

definition bearerParams :: "string \<Rightarrow> (string, string) gomap" where
  "bearerParams challenge =
     foldl (\<lambda>m (name, val). AList.update (ToLower name) val m) [] (bearerParameter challenge)"

definition tokenURL :: "http_env \<Rightarrow> string \<Rightarrow> string \<Rightarrow> string + url" where
  "tokenURL env challenge repo =
     (let params = bearerParams challenge in
      case env_url_parse env (str_at params ''realm'') of
        None \<Rightarrow> Inl ''registry returned an invalid or insecure Bearer authentication realm''
      | Some realm \<Rightarrow>
          if url_scheme realm \<noteq> ''https'' \<or> url_host realm = []
          then Inl ''registry returned an invalid or insecure Bearer authentication realm''
          else
            let service = str_at params ''service'';
                q1 = (if service \<noteq> [] then AList.update ''service'' service (url_query realm) else url_query realm);
                scope0 = str_at params ''scope'';
                scope = (if scope0 = [] then ''repository:'' @ repo @ '':pull'' else scope0)
            in Inr (realm\<lparr>url_query := AList.update ''scope'' scope q1\<rparr>))"

definition anonymousBearerToken ::
  "registry_client \<Rightarrow> http_env \<Rightarrow> http_request list \<Rightarrow> string \<Rightarrow> string \<Rightarrow> string http_result" where
  "anonymousBearerToken c env log challenge repo =
     (if \<not> HasPrefix (ToLower (TrimSpace challenge)) ''bearer ''
      then (Inl ''registry authentication required; only anonymous Bearer authentication is supported'', log)
      else case tokenURL env challenge repo of
        Inl e \<Rightarrow> (Inl e, log)
      | Inr realm \<Rightarrow>
          (case client_do c env 0 log
                  \<lparr>req_method = ''GET'', req_url = realm, req_headers = [(''User-Agent'', ''Dockman/1.0'')]\<rparr> of
             (Inl e, log1) \<Rightarrow> (Inl e, log1)
           | (Inr resp, log1) \<Rightarrow>
               (if resp_status resp = 401 \<or> resp_status resp = 403
                then Inl ''registry authentication required; private registry credentials are not configured''
                else if resp_status resp \<noteq> 200
                then Inl (''registry token request returned HTTP '' @ Itoa (resp_status resp))
                else case env_json_token env (LimitReader (resp_body resp) (1024 * 1024)) of
                  Inl e \<Rightarrow> Inl (''decode registry token: '' @ e)
                | Inr (token0, access) \<Rightarrow>
                    let token = (if token0 = [] then access else token0) in
                    if token = [] then Inl ''registry token response contained no token'' else Inr token,
                log1)))"

subsection \<open>The manifest digest\<close>

definition registryManifestAccept :: string where
  "registryManifestAccept =
     ''application/vnd.docker.distribution.manifest.list.v2+json, '' @
     ''application/vnd.oci.image.index.v1+json, '' @
     ''application/vnd.docker.distribution.manifest.v2+json, '' @
     ''application/vnd.oci.image.manifest.v1+json''"

definition with_auth :: "string \<Rightarrow> (string, string) gomap \<Rightarrow> (string, string) gomap" where
  "with_auth authorization h = (if authorization \<noteq> [] then AList.update ''Authorization'' authorization h else h)"

definition requestManifestDigest ::
  "registry_client \<Rightarrow> http_env \<Rightarrow> http_request list \<Rightarrow> url \<Rightarrow> string \<Rightarrow> (string \<times> string \<times> nat) http_result" where
  "requestManifestDigest c env log endpoint authorization =
     (case client_do c env 0 log
             \<lparr>req_method = ''HEAD'', req_url = endpoint,
              req_headers = with_auth authorization
                [(''Accept'', registryManifestAccept), (''User-Agent'', ''Dockman/1.0'')]\<rparr> of
        (Inl e, log1) \<Rightarrow> (Inl e, log1)
      | (Inr resp, log1) \<Rightarrow>
          let digest = TrimPrefix (TrimSpace (str_at (resp_headers resp) ''Docker-Content-Digest'')) ''sha256:''
          in if resp_status resp = 200 \<and> digest = []
             then (Inl ''registry returned no Docker-Content-Digest header'', log1)
             else (Inr (digest, str_at (resp_headers resp) ''WWW-Authenticate'', resp_status resp), log1))"

definition manifestURL :: "registryImageReference \<Rightarrow> url" where
  "manifestURL ref =
     \<lparr>url_scheme = ''https'', url_host = ref_registry ref,
      url_path = ''/v2/'' @ escapeRepositoryPath (ref_repo ref) @ ''/manifests/'' @ PathEscape (ref_tag ref),
      url_query = []\<rparr>"

definition registryManifestDigestWithClient ::
  "registry_client \<Rightarrow> http_env \<Rightarrow> http_request list \<Rightarrow> string \<Rightarrow> string http_result" where
  "registryManifestDigestWithClient c env log img =
     (case parseRegistryImageReference img of
        Inl e \<Rightarrow> (Inl e, log)
      | Inr ref \<Rightarrow>
          (case requestManifestDigest c env log (manifestURL ref) [] of
             (Inl e, log1) \<Rightarrow> (Inl e, log1)
           | (Inr (digest, challenge, status), log1) \<Rightarrow>
               if status = 200 then (Inr digest, log1)
               else if status \<noteq> 401 then (Inl (registryStatusError status), log1)
               else case anonymousBearerToken c env log1 challenge (ref_repo ref) of
                 (Inl e, log2) \<Rightarrow> (Inl e, log2)
               | (Inr token, log2) \<Rightarrow>
                   (case requestManifestDigest c env log2 (manifestURL ref) (''Bearer '' @ token) of
                      (Inl e, log3) \<Rightarrow> (Inl e, log3)
                    | (Inr (digest2, _, status2), log3) \<Rightarrow>
                        if status2 = 401 \<or> status2 = 403
                        then (Inl ''registry authentication required; private registry credentials are not configured'', log3)
                        else if status2 \<noteq> 200 then (Inl (registryStatusError status2), log3)
                        else (Inr digest2, log3))))"

definition RegistryManifestDigest :: "http_env \<Rightarrow> http_request list \<Rightarrow> string \<Rightarrow> string http_result" where
  "RegistryManifestDigest env log img = registryManifestDigestWithClient ManifestClient env log img"

subsection \<open>What a call sends\<close>

text \<open>
  \<open>sends P n log log'\<close>: the call appended at most \<open>n\<close> requests to the log, all of them
  satisfying \<open>P\<close>.
\<close>

definition sends :: "(http_request \<Rightarrow> bool) \<Rightarrow> nat \<Rightarrow> http_request list \<Rightarrow> http_request list \<Rightarrow> bool" where
  "sends P n log log' \<longleftrightarrow> (\<exists>new. log' = log @ new \<and> length new \<le> n \<and> (\<forall>r \<in> set new. P r))"

lemma sends_refl [simp]: "sends P n log log"
  by (auto simp: sends_def)

lemma sends_one: "P r \<Longrightarrow> 0 < n \<Longrightarrow> sends P n log (log @ [r])"
  by (auto simp: sends_def)

lemma sends_trans: "sends P m a b \<Longrightarrow> sends P n b c \<Longrightarrow> sends P (m + n) a c"
  by (fastforce simp: sends_def)

lemma sends_mono: "sends P m a b \<Longrightarrow> m \<le> n \<Longrightarrow> (\<And>r. P r \<Longrightarrow> Q r) \<Longrightarrow> sends Q n a b"
  unfolding sends_def by (force intro: le_trans)

text \<open>
  A request the policy allows: HTTPS, and an \<open>Authorization\<close> header only on hosts that
  may see it.
\<close>

definition allowed :: "(string \<Rightarrow> bool) \<Rightarrow> http_request \<Rightarrow> bool" where
  "allowed trusted r \<longleftrightarrow> https r \<and> (req_auth r \<noteq> [] \<longrightarrow> trusted (url_host (req_url r)))"

definition forwards_within :: "http_env \<Rightarrow> (string \<Rightarrow> bool) \<Rightarrow> bool" where
  "forwards_within env trusted \<longleftrightarrow>
     (\<forall>a b. trusted a \<longrightarrow> env_forwards_auth env a b \<longrightarrow> trusted b)"

lemma checkRedirect_None: "checkRedirect c via u = None \<Longrightarrow> via < 3 \<and> url_scheme u = ''https''"
  by (auto simp: checkRedirect_def split: registry_client.splits if_splits)

lemma allowed_redirect:
  assumes "forwards_within env trusted" "allowed trusted req" "url_scheme u = ''https''"
  shows "allowed trusted (redirect_request env req u)"
  using assms
  by (auto simp: allowed_def redirect_request_def https_def req_auth_def str_at_def
      forwards_within_def gm.look_del_same)

lemma client_do_sends:
  assumes "forwards_within env trusted" "allowed trusted req" "via < 3"
  shows "sends (allowed trusted) (3 - via) log (snd (client_do c env via log req))"
  using assms
proof (induction c env via log req rule: client_do.induct)
  case (1 c env via log req)
  note IH = 1(1) and fwd = 1(2) and ok = 1(3) and via = 1(4)
  show ?case
  proof (cases "env_exchange env log req")
    case (Redirected u)
    show ?thesis
    proof (cases "checkRedirect c (Suc via) u")
      case None
      let ?log = "log @ [req]" and ?req = "redirect_request env req u"
      have "Suc via < 3" "url_scheme u = ''https''" using checkRedirect_None [OF None] by auto
      then have "sends (allowed trusted) (3 - Suc via) ?log (snd (client_do c env (Suc via) ?log ?req))"
        using IH [OF Redirected None fwd] allowed_redirect [OF fwd ok] by blast
      moreover have "sends (allowed trusted) 1 log ?log" by (rule sends_one) (use ok in auto)
      moreover have "1 + (3 - Suc via) = 3 - via" using via by simp
      ultimately have "sends (allowed trusted) (3 - via) log (snd (client_do c env (Suc via) ?log ?req))"
        by (metis sends_trans)
      then show ?thesis using Redirected None by (simp add: client_do.simps [of c env via])
    qed (use Redirected ok via in \<open>simp add: client_do.simps [of c env via] sends_one\<close>)
  qed (use ok via in \<open>simp_all add: client_do.simps [of c env via] sends_one\<close>)
qed

lemma client_do_sends_new:
  assumes "forwards_within env trusted" "url_scheme u = ''https''" "auth \<noteq> [] \<longrightarrow> trusted (url_host u)"
    "map_of h ''Authorization'' = None"
  shows "sends (allowed trusted) 3 log
    (snd (client_do c env 0 log \<lparr>req_method = m, req_url = u, req_headers = with_auth auth h\<rparr>))"
proof -
  have "allowed trusted \<lparr>req_method = m, req_url = u, req_headers = with_auth auth h\<rparr>"
    using assms by (auto simp: allowed_def https_def req_auth_def str_at_def with_auth_def gomap_simps)
  from client_do_sends [OF assms(1) this, of 0] show ?thesis by simp
qed

lemma tokenURL_https: "tokenURL env challenge repo = Inr u \<Longrightarrow> url_scheme u = ''https'' \<and> url_host u \<noteq> []"
  by (auto simp: tokenURL_def Let_def split: option.splits if_splits)

lemma anonymousBearerToken_sends:
  assumes "forwards_within env trusted"
  shows "sends (allowed trusted) 3 log (snd (anonymousBearerToken c env log challenge repo))"
proof (cases "HasPrefix (ToLower (TrimSpace challenge)) ''bearer ''")
  case True
  show ?thesis
  proof (cases "tokenURL env challenge repo")
    case (Inr u)
    have "sends (allowed trusted) 3 log (snd (client_do c env 0 log
        \<lparr>req_method = ''GET'', req_url = u, req_headers = [(''User-Agent'', ''Dockman/1.0'')]\<rparr>))"
      using client_do_sends_new [OF assms, of u "[]" "[(''User-Agent'', ''Dockman/1.0'')]"] tokenURL_https [OF Inr]
      by (simp add: with_auth_def)
    then show ?thesis using True Inr
      by (auto simp: anonymousBearerToken_def split: prod.split sum.split)
  qed (simp add: anonymousBearerToken_def)
qed (simp add: anonymousBearerToken_def)

lemma requestManifestDigest_sends:
  assumes "forwards_within env trusted" "url_scheme u = ''https''" "auth \<noteq> [] \<longrightarrow> trusted (url_host u)"
  shows "sends (allowed trusted) 3 log (snd (requestManifestDigest c env log u auth))"
  using client_do_sends_new [OF assms,
      of "[(''Accept'', registryManifestAccept), (''User-Agent'', ''Dockman/1.0'')]" log c "''HEAD''"]
  by (auto simp: requestManifestDigest_def Let_def split: prod.split sum.split)

lemma requestManifestDigest_digest:
  "requestManifestDigest c env log u auth = (Inr (digest, challenge, 200), log') \<Longrightarrow> digest \<noteq> []"
  by (auto simp: requestManifestDigest_def Let_def split: prod.splits sum.splits if_splits)

lemma anonymousBearerToken_nonempty:
  "anonymousBearerToken c env log challenge repo = (Inr token, log') \<Longrightarrow> token \<noteq> []"
  by (auto simp: anonymousBearerToken_def Let_def split: prod.splits sum.splits if_splits)

lemmas manifest_sends = requestManifestDigest_sends anonymousBearerToken_sends

lemma sends_3: "sends P 3 a b \<Longrightarrow> sends P 3 b c \<Longrightarrow> sends P 3 c d \<Longrightarrow> sends P 9 a d"
  using sends_trans [of P 3 a b 3 c] sends_trans [of P 6 a c 3 d] by simp

lemma sends_3_9: "sends P 3 a b \<Longrightarrow> sends P 9 a b"
  by (erule sends_mono) auto

lemma sends_6_9: "sends P 3 a b \<Longrightarrow> sends P 3 b c \<Longrightarrow> sends P 9 a c"
  using sends_3 [of P a b c c] by simp

lemma manifestURL_https [simp]: "url_scheme (manifestURL ref) = ''https''" "url_host (manifestURL ref) = ref_registry ref"
  by (simp_all add: manifestURL_def)

text \<open>
  C36: asking a registry for the digest of an image never leaves HTTPS and never costs more
  than nine requests (three calls of at most three hops), whatever the registry answers,
  redirects and token realms included; the token obtained on the way is only ever sent to
  the registry named in the image reference and to hosts the HTTP library forwards
  credentials to from there; and a digest that is returned is not empty.
\<close>

theorem RegistryManifestDigest_contained:
  assumes "parseRegistryImageReference img = Inr ref"
    and "trusted (ref_registry ref)" and "forwards_within env trusted"
    and "RegistryManifestDigest env log img = (result, log')"
  shows "sends (allowed trusted) 9 log log' \<and> (\<forall>digest. result = Inr digest \<longrightarrow> digest \<noteq> [])"
proof -
  let ?P = "allowed trusted" and ?c = ManifestClient and ?u = "manifestURL ref"
  obtain r1 l1 where q1: "requestManifestDigest ?c env log ?u [] = (r1, l1)" by fastforce
  have s1: "sends ?P 3 log l1"
    using manifest_sends(1) [OF assms(3), of ?u "[]" log ?c] q1 by simp
  note eq = assms(4) [unfolded RegistryManifestDigest_def registryManifestDigestWithClient_def assms(1) sum.case q1 prod.case]
  show ?thesis
  proof (cases r1)
    case (Inl e)
    then show ?thesis using eq s1 by (auto intro: sends_3_9)
  next
    case (Inr a)
    obtain digest challenge status where a: "a = (digest, challenge, status)" by (cases a) auto
    obtain r2 l2 where q2: "anonymousBearerToken ?c env l1 challenge (ref_repo ref) = (r2, l2)" by fastforce
    have s2: "sends ?P 3 l1 l2"
      using manifest_sends(2) [OF assms(3), of l1 ?c challenge "ref_repo ref"] q2 by simp
    note eq = eq [unfolded Inr a sum.case prod.case q2]
    show ?thesis
    proof (cases "status = 401 \<and> (\<exists>token. r2 = Inr token)")
      case True
      then obtain token where token: "r2 = Inr token" and st: "status = 401" by blast
      obtain r3 l3 where q3: "requestManifestDigest ?c env l2 ?u (''Bearer '' @ token) = (r3, l3)" by fastforce
      have s3: "sends ?P 3 l2 l3"
        using manifest_sends(1) [OF assms(3), of ?u "''Bearer '' @ token" l2 ?c] q3 assms(2) by simp
      note eq = eq [unfolded token sum.case q3 prod.case]
      show ?thesis using eq st sends_3 [OF s1 s2 s3] requestManifestDigest_digest [of ?c env l2 ?u] q3
        by (auto split: sum.splits if_splits)
    next
      case False
      then show ?thesis
        using eq sends_3_9 [OF s1] sends_6_9 [OF s1 s2] requestManifestDigest_digest [of ?c env log ?u] q1 Inr a
        by (auto split: sum.splits if_splits)
    qed
  qed
qed

subsection \<open>The canonical form of a reference\<close>

definition printReference :: "registryImageReference \<Rightarrow> string" where
  "printReference ref = ref_registry ref @ ''/'' @ ref_repo ref @ '':'' @ ref_tag ref"

definition registry_name :: "string \<Rightarrow> bool" where
  "registry_name r \<longleftrightarrow> CHR ''/'' \<notin> set r \<and> (CHR ''.'' \<in> set r \<or> CHR '':'' \<in> set r \<or> r = ''localhost'')"

definition reference_ok :: "registryImageReference \<Rightarrow> bool" where
  "reference_ok ref \<longleftrightarrow>
     registry_name (ref_registry ref) \<and> ref_registry ref \<noteq> ''docker.io'' \<and> ref_registry ref \<noteq> ''index.docker.io'' \<and>
     ref_repo ref \<noteq> [] \<and> (ref_registry ref = docker_hub \<longrightarrow> CHR ''/'' \<in> set (ref_repo ref)) \<and>
     ref_tag ref \<noteq> [] \<and> CHR ''/'' \<notin> set (ref_tag ref) \<and> CHR '':'' \<notin> set (ref_tag ref) \<and>
     trimmed (printReference ref) \<and> \<not> Contains (printReference ref) ''://'' \<and>
     CHR ''@'' \<notin> set (printReference ref)"

lemma Contains_set: "Contains s p \<Longrightarrow> set p \<subseteq> set s"
  by (auto simp: Contains_iff)

lemma Contains_after_colon:
  assumes "CHR ''/'' \<notin> set t"
  shows "Contains (y @ CHR '':'' # t) ''://'' \<longleftrightarrow> Contains y ''://''"
proof (induction y)
  case Nil
  show ?case using assms Contains_set [of "CHR '':'' # t" "''://''"] by auto
next
  case (Cons c y)
  then show ?case using assms
    by (cases y; cases "tl y") (auto simp: HasPrefix_iff)
qed

lemma Contains_before_slash:
  assumes "CHR '':'' \<notin> set r"
  shows "Contains (r @ CHR ''/'' # y) ''://'' \<longleftrightarrow> Contains y ''://''"
  using assms by (induction r) auto

lemma splitRegistry_cases:
  obtains (hub) "splitRegistry img = (docker_hub, img)"
  | (named) r m where "img = r @ CHR ''/'' # m" "registry_name r" "splitRegistry img = (r, m)"
proof (cases "CHR ''/'' \<in> set img")
  case True
  then obtain r m where rm: "img = r @ CHR ''/'' # m" "CHR ''/'' \<notin> set r"
    by (metis split_list_first)
  then have i: "IndexByte img (CHR ''/'') = Some (length r)" by (simp add: IndexByte_split)
  show thesis
  proof (cases "registry_name r")
    case True
    then have "splitRegistry img = (r, m)"
      using rm i by (simp add: splitRegistry_def Contains_single registry_name_def)
    then show ?thesis using named [of r m] rm(1) True by simp
  next
    case False
    then have "splitRegistry img = (docker_hub, img)"
      using rm i by (simp add: splitRegistry_def Contains_single registry_name_def)
    then show ?thesis by (rule hub)
  qed
next
  case False
  then have "IndexByte img (CHR ''/'') = None" by simp
  then have "splitRegistry img = (docker_hub, img)" unfolding splitRegistry_def by (simp only: option.case)
  then show thesis by (rule hub)
qed

lemma splitRegistry_named: "registry_name r \<Longrightarrow> splitRegistry (r @ CHR ''/'' # m) = (r, m)"
  by (simp add: splitRegistry_def IndexByte_split registry_name_def Contains_single)

lemma splitTag_tag:
  assumes "CHR ''/'' \<notin> set t" "CHR '':'' \<notin> set t"
  shows "splitTag (m @ CHR '':'' # t) = (t, m)"
proof -
  have "slash < length m" if "LastIndexByte (m @ CHR '':'' # t) (CHR ''/'') = Some slash" for slash
  proof (cases "CHR ''/'' \<in> set m")
    case True
    then obtain a b where "m = a @ CHR ''/'' # b" "CHR ''/'' \<notin> set b" by (metis split_list_last)
    then show ?thesis using that assms LastIndexByte_split [of "CHR ''/''" "b @ CHR '':'' # t" a] by simp
  next
    case False
    then have "LastIndexByte (m @ CHR '':'' # t) (CHR ''/'') = None" using assms by simp
    with that show ?thesis by simp
  qed
  then show ?thesis using assms
    by (auto simp: splitTag_def LastIndexByte_split split: option.splits)
qed

lemma splitTag_cases:
  obtains (plain) "splitTag m = (''latest'', m)"
  | (tagged) n t where "m = n @ CHR '':'' # t" "CHR ''/'' \<notin> set t" "CHR '':'' \<notin> set t" "splitTag m = (t, n)"
proof (cases "CHR '':'' \<in> set m")
  case True
  then obtain n t where nt: "m = n @ CHR '':'' # t" "CHR '':'' \<notin> set t" by (metis split_list_last)
  show thesis
  proof (cases "CHR ''/'' \<in> set t")
    case True
    then obtain a b where "t = a @ CHR ''/'' # b" "CHR ''/'' \<notin> set b" by (metis split_list_last)
    then have "LastIndexByte m (CHR ''/'') = Some (length (n @ CHR '':'' # a))"
      using nt LastIndexByte_split [of "CHR ''/''" b "n @ CHR '':'' # a"] by simp
    then have "splitTag m = (''latest'', m)"
      using nt by (simp add: splitTag_def LastIndexByte_split)
    then show ?thesis by (rule plain)
  next
    case False
    with nt have "splitTag m = (t, n)" by (simp add: splitTag_tag)
    then show ?thesis using tagged [of n t] nt False by simp
  qed
next
  case False
  then have "LastIndexByte m (CHR '':'') = None" by simp
  then have "splitTag m = (''latest'', m)" unfolding splitTag_def Let_def by (simp only: option.case)
  then show thesis by (rule plain)
qed

text \<open>A well-formed reference is what its printed form parses to.\<close>

lemma parse_print:
  assumes "reference_ok ref"
  shows "parseRegistryImageReference (printReference ref) = Inr ref"
proof -
  let ?p = "printReference ref" and ?m = "ref_repo ref @ CHR '':'' # ref_tag ref"
  have p: "?p = ref_registry ref @ CHR ''/'' # ?m" by (simp add: printReference_def)
  have "TrimSpace ?p = ?p" using assms by (simp add: reference_ok_def trimmed_TrimSpace_id)
  moreover have "splitRegistry ?p = (ref_registry ref, ?m)"
    unfolding p using assms by (intro splitRegistry_named) (simp add: reference_ok_def)
  moreover have "splitTag ?m = (ref_tag ref, ref_repo ref)"
    using assms by (intro splitTag_tag) (simp_all add: reference_ok_def)
  moreover have "ref_registry ref \<noteq> []" using assms by (auto simp: reference_ok_def registry_name_def)
  ultimately show ?thesis using assms
    by (auto simp: parseRegistryImageReference_def reference_ok_def Contains_single canonical_registry_def p)
qed

lemma trimmed_ends: "a \<noteq> [] \<Longrightarrow> b \<noteq> [] \<Longrightarrow> \<not> is_space (hd a) \<Longrightarrow> \<not> is_space (last b) \<Longrightarrow> trimmed (a @ m @ b)"
  by (simp add: trimmed_def)

lemma trimmed_hd_append: "trimmed (a @ b) \<Longrightarrow> a \<noteq> [] \<Longrightarrow> \<not> is_space (hd a)"
  by (auto simp: trimmed_def)

lemma trimmed_last_append: "trimmed (a @ b) \<Longrightarrow> b \<noteq> [] \<Longrightarrow> \<not> is_space (last b)"
  by (auto simp: trimmed_def)

text \<open>
  The parts of an accepted image string: registry and remainder come from it, and so do
  repository and tag.
\<close>

lemma splitTag_facts:
  assumes "splitTag m = (t, n)" "trimmed (p @ m)" "t \<noteq> []" "\<not> Contains (p @ m) ''://''" "CHR ''@'' \<notin> set m"
  shows "CHR ''/'' \<notin> set t" "CHR '':'' \<notin> set t" "CHR ''@'' \<notin> set t" "CHR ''@'' \<notin> set n" "\<not> is_space (last t)"
    "\<not> Contains (p @ n) ''://''"
proof -
  consider "t = ''latest''" "n = m"
    | "m = n @ CHR '':'' # t" "CHR ''/'' \<notin> set t" "CHR '':'' \<notin> set t"
    using assms(1) by (cases rule: splitTag_cases [of m]) auto
  then have "CHR ''/'' \<notin> set t \<and> CHR '':'' \<notin> set t \<and> CHR ''@'' \<notin> set t \<and> CHR ''@'' \<notin> set n \<and>
     \<not> is_space (last t) \<and> \<not> Contains (p @ n) ''://''"
  proof cases
    case 1
    then show ?thesis using assms by (simp add: is_space_def)
  next
    case 2
    then have "\<not> is_space (last t)" using assms(2,3) trimmed_last_append [of "p @ n @ '':''" t] by simp
    moreover have "\<not> Contains (p @ n) ''://''"
      using assms(4) 2 Contains_after_colon [of t "p @ n"] by simp
    ultimately show ?thesis using assms(5) 2 by auto
  qed
  then show "CHR ''/'' \<notin> set t" "CHR '':'' \<notin> set t" "CHR ''@'' \<notin> set t" "CHR ''@'' \<notin> set n" "\<not> is_space (last t)"
    "\<not> Contains (p @ n) ''://''" by auto
qed

lemma reference_okI:
  assumes "registry_name r" "r \<noteq> ''docker.io''" "r \<noteq> ''index.docker.io''" "n \<noteq> []"
    "r = docker_hub \<longrightarrow> CHR ''/'' \<in> set n" "t \<noteq> []" "CHR ''/'' \<notin> set t" "CHR '':'' \<notin> set t"
    "CHR ''@'' \<notin> set r" "CHR ''@'' \<notin> set n" "CHR ''@'' \<notin> set t" "\<not> is_space (hd r)" "\<not> is_space (last t)"
    "\<not> Contains (r @ CHR ''/'' # n) ''://''"
  shows "reference_ok \<lparr>ref_registry = r, ref_repo = n, ref_tag = t\<rparr>"
proof -
  have ne: "r \<noteq> []" using assms(1) by (auto simp: registry_name_def)
  have "trimmed (r @ (''/'' @ n @ '':'') @ t)" using assms ne by (intro trimmed_ends) auto
  moreover have "\<not> Contains ((r @ CHR ''/'' # n) @ CHR '':'' # t) ''://''"
    using assms by (simp only: Contains_after_colon not_False_eq_True)
  ultimately show ?thesis using assms ne by (simp add: reference_ok_def printReference_def)
qed

lemma Contains_suffix: "Contains b p \<Longrightarrow> Contains (a @ b) p"
  by (auto simp: Contains_iff) (metis append.assoc)

lemma Contains_library: "Contains (''library/'' @ n) ''://'' \<longleftrightarrow> Contains n ''://''"
  using Contains_before_slash [of "''library''" n] by simp

lemma docker_hub_name: "registry_name docker_hub" "CHR '':'' \<notin> set docker_hub" "CHR ''@'' \<notin> set docker_hub"
  "\<not> is_space (hd docker_hub)" "canonical_registry docker_hub = docker_hub"
  by (simp_all add: registry_name_def docker_hub_def canonical_registry_def is_space_def)

lemma splitRegistry_facts:
  assumes "splitRegistry img = (r0, m)" "trimmed img" "CHR ''@'' \<notin> set img"
  obtains p where "img = p @ m" "p = [] \<and> canonical_registry r0 = docker_hub \<or> p = r0 @ ''/''"
    "CHR ''@'' \<notin> set (canonical_registry r0)" "\<not> is_space (hd (canonical_registry r0))"
    "registry_name (canonical_registry r0)"
proof (cases rule: splitRegistry_cases [of img])
  case hub
  then have "r0 = docker_hub" "m = img" using assms(1) by simp_all
  then show ?thesis using that [of "[]"] docker_hub_name by simp
next
  case (named r m')
  then have rm: "img = r0 @ CHR ''/'' # m" "registry_name r0" using assms(1) by simp_all
  have "r0 \<noteq> []" using rm(2) by (auto simp: registry_name_def)
  then have "\<not> is_space (hd r0)" using rm(1) assms(2) trimmed_hd_append [of r0] by simp
  then show ?thesis
    using that [of "r0 @ ''/''"] rm assms(3) docker_hub_name by (simp add: canonical_registry_def)
qed

lemma parse_unfold:
  assumes "parseRegistryImageReference img0 = Inr ref"
  obtains r0 m t n k where
    "splitRegistry (TrimSpace img0) = (r0, m)" "splitTag m = (t, n)"
    "k = (if canonical_registry r0 = docker_hub \<and> CHR ''/'' \<notin> set n then ''library/'' @ n else n)"
    "ref = \<lparr>ref_registry = canonical_registry r0, ref_repo = k, ref_tag = t\<rparr>" "k \<noteq> []" "t \<noteq> []"
    "\<not> Contains (TrimSpace img0) ''://''" "CHR ''@'' \<notin> set (TrimSpace img0)"
proof -
  obtain r0 m where s: "splitRegistry (TrimSpace img0) = (r0, m)" by fastforce
  obtain t n where t: "splitTag m = (t, n)" by fastforce
  show thesis
    by (rule that [OF s t refl])
      (use assms in \<open>auto simp: parseRegistryImageReference_def Let_def s t Contains_single
         split: if_splits\<close>)
qed

lemma parse_reference_ok:
  assumes "parseRegistryImageReference img0 = Inr ref"
  shows "reference_ok ref"
  using assms
proof (rule parse_unfold)
  fix r0 m t n k
  define r where "r = canonical_registry r0"
  assume a: "splitRegistry (TrimSpace img0) = (r0, m)" "splitTag m = (t, n)"
    and k: "k = (if canonical_registry r0 = docker_hub \<and> CHR ''/'' \<notin> set n then ''library/'' @ n else n)"
    and ref: "ref = \<lparr>ref_registry = canonical_registry r0, ref_repo = k, ref_tag = t\<rparr>" "k \<noteq> []" "t \<noteq> []"
    and img: "\<not> Contains (TrimSpace img0) ''://''" "CHR ''@'' \<notin> set (TrimSpace img0)"
  obtain p where p: "TrimSpace img0 = p @ m" "p = [] \<and> r = docker_hub \<or> p = r0 @ ''/''"
    "CHR ''@'' \<notin> set r" "\<not> is_space (hd r)" "registry_name r"
    using splitRegistry_facts [OF a(1) trimmed_TrimSpace img(2)] unfolding r_def by blast
  have tn: "CHR ''/'' \<notin> set t" "CHR '':'' \<notin> set t" "CHR ''@'' \<notin> set t" "CHR ''@'' \<notin> set n" "\<not> is_space (last t)"
    "\<not> Contains (p @ n) ''://''"
    using splitTag_facts [OF a(2), of p] trimmed_TrimSpace [of img0] img p(1) ref(3) by simp_all
  have "\<not> Contains (r @ CHR ''/'' # k) ''://''"
  proof (cases "r = docker_hub")
    case True
    have "\<not> Contains n ''://''" using tn(6) Contains_suffix by blast
    then have "\<not> Contains k ''://''" using Contains_library [of n] k by simp
    then show ?thesis using True docker_hub_name(2) Contains_before_slash [of docker_hub k] by simp
  next
    case False
    then have "r = r0" "k = n" using k by (auto simp: r_def canonical_registry_def)
    then show ?thesis using False tn(6) p(2) by simp
  qed
  moreover have "CHR ''@'' \<notin> set k" "r = docker_hub \<longrightarrow> CHR ''/'' \<in> set k"
    using tn(4) k by (simp_all add: r_def)
  moreover have "r \<noteq> ''docker.io''" "r \<noteq> ''index.docker.io''"
    by (simp_all add: r_def canonical_registry_def docker_hub_def)
  ultimately show "reference_ok ref"
    unfolding ref(1) r_def [symmetric] using p(3-5) tn(1-3,5) ref(2,3) by (intro reference_okI) simp_all
qed

text \<open>
  parsing an image reference is canonicalisation.  An accepted reference has a
  registry, a repository and a tag, none of them empty, with the Docker Hub aliases and the
  implicit \<open>library/\<close> resolved; printing it as \<open>registry/repository:tag\<close> and parsing again
  gives the same reference, so the parser is a projection onto canonical references.
\<close>

theorem parseRegistryImageReference_canonical:
  assumes "parseRegistryImageReference img = Inr ref"
  shows "reference_ok ref \<and> parseRegistryImageReference (printReference ref) = Inr ref"
  using parse_reference_ok [OF assms] parse_print by blast

theorem parseRegistryImageReference_canonical_witness:
  "parseRegistryImageReference '' docker.io/nginx:1.27 '' =
     Inr \<lparr>ref_registry = ''registry-1.docker.io'', ref_repo = ''library/nginx'', ref_tag = ''1.27''\<rparr> \<and>
   parseRegistryImageReference ''registry-1.docker.io/library/nginx:1.27'' =
     Inr \<lparr>ref_registry = ''registry-1.docker.io'', ref_repo = ''library/nginx'', ref_tag = ''1.27''\<rparr>"
proof -
  let ?ref = "\<lparr>ref_registry = ''registry-1.docker.io'', ref_repo = ''library/nginx'', ref_tag = ''1.27''\<rparr>"
  have p: "parseRegistryImageReference '' docker.io/nginx:1.27 '' = Inr ?ref" by code_simp
  from parseRegistryImageReference_canonical [OF p] show ?thesis
    using p by (simp add: printReference_def)
qed

text \<open>A registry that redirects once and then answers.\<close>

definition sample_env :: http_env where
  "sample_env =
     \<lparr>env_exchange = (\<lambda>log req.
        if log = [] then Redirected \<lparr>url_scheme = ''https'', url_host = ''cdn.example.org'', url_path = ''/m'', url_query = []\<rparr>
        else Response \<lparr>resp_status = 200, resp_headers = [(''Docker-Content-Digest'', ''sha256:ab'')], resp_body = []\<rparr>),
      env_forwards_auth = (\<lambda>a b. a = b),
      env_url_parse = (\<lambda>_. None), env_url_resolve = (\<lambda>_ _. None),
      env_json_token = (\<lambda>_. Inl ''''), env_json_tags = (\<lambda>_. Inl '''')\<rparr>"

theorem RegistryManifestDigest_contained_witness:
  "\<exists>log'. RegistryManifestDigest sample_env [] ''example.org/app:1'' = (Inr ''ab'', log') \<and>
     length log' = 2 \<and> sends (allowed (\<lambda>h. h = ''example.org'')) 9 [] log'"
proof -
  let ?ref = "\<lparr>ref_registry = ''example.org'', ref_repo = ''app'', ref_tag = ''1''\<rparr>"
  define out where "out = RegistryManifestDigest sample_env [] ''example.org/app:1''"
  have p: "parseRegistryImageReference ''example.org/app:1'' = Inr ?ref" by code_simp
  have r: "fst out = Inr ''ab'' \<and> length (snd out) = 2"
    unfolding out_def by code_simp
  have "forwards_within sample_env (\<lambda>h. h = ''example.org'')"
    by (simp add: forwards_within_def sample_env_def)
  from RegistryManifestDigest_contained [OF p _ this, of "[]" "fst out" "snd out"]
  have "sends (allowed (\<lambda>h. h = ''example.org'')) 9 [] (snd out)" by (simp add: out_def)
  then show ?thesis using r unfolding out_def by (metis prod.collapse)
qed

end
