(* ===== verification/Version_Discovery.thy ===== *)
theory Version_Discovery
  imports Registry_Client "HOL-Library.Product_Lexorder"
begin

section \<open>Semantic version tags and their discovery\<close>

text \<open>
  Models \<open>core/internal/docker/updater/version.go\<close>: the tag parser (a regular expression
  in the source), the order on versions, the choice of the newest tag a policy allows, the
  paginated tag catalogue of a registry, its cache with one fetch in flight per
  repository, and the discovery of one or many targets.

  The lemmas show that the parser recognises exactly the language of the pattern, that the
  comparator is a total order given by a key, that the choice is sound, complete and
  maximal, that a catalogue is bounded whatever the registry answers, and that concurrent
  lookups share one fetch without a lost wake-up.
\<close>

subsection \<open>Parsing a tag\<close>

record semanticTag =
  raw :: string
  major :: nat
  minor :: nat
  patch :: nat
  precision :: nat
  prerelease :: string

definition tag_char :: "char \<Rightarrow> bool" where
  "tag_char c \<longleftrightarrow> is_digit c \<or> is_letter c \<or> c = CHR ''.'' \<or> c = CHR ''-''"

text \<open>An optional group: a marker followed by a non-empty run, greedily, or nothing.\<close>

definition opt_group :: "char \<Rightarrow> (char \<Rightarrow> bool) \<Rightarrow> string \<Rightarrow> string \<times> string" where
  "opt_group mark P s =
     (case s of
        c # t \<Rightarrow> if c = mark \<and> takeWhile P t \<noteq> [] then (takeWhile P t, dropWhile P t) else ([], s)
      | [] \<Rightarrow> ([], []))"

definition versionTagPattern :: "string \<Rightarrow> (string \<times> string \<times> string \<times> string) option" where
  "versionTagPattern s =
     (let s0 = (if HasPrefix s ''v'' \<or> HasPrefix s ''V'' then tl s else s);
          a = takeWhile is_digit s0;
          (b, s2) = opt_group (CHR ''.'') is_digit (dropWhile is_digit s0);
          (c, s3) = opt_group (CHR ''.'') is_digit s2;
          (p, s4) = opt_group (CHR ''-'') tag_char s3;
          (_, s5) = opt_group (CHR ''+'') tag_char s4
      in if a \<noteq> [] \<and> s5 = [] then Some (a, b, c, p) else None)"

text \<open>The loop over the three numeric groups; \<open>precision\<close> is the last group present.\<close>

fun parseParts :: "nat \<Rightarrow> string list \<Rightarrow> nat list \<Rightarrow> nat \<Rightarrow> (nat list \<times> nat) option" where
  "parseParts index [] parts prec = Some (parts, prec)"
| "parseParts index (m # ms) parts prec =
     (if m = [] then parseParts (Suc index) ms parts prec
      else case ParseUint m of
        None \<Rightarrow> None
      | Some n \<Rightarrow> parseParts (Suc index) ms (parts[index := n]) (index + 1))"

definition parseVersionTag :: "string \<Rightarrow> semanticTag option" where
  "parseVersionTag s =
     (case versionTagPattern (TrimSpace s) of
        None \<Rightarrow> None
      | Some (a, b, c, p) \<Rightarrow>
          (case parseParts 0 [a, b, c] [0, 0, 0] 1 of
             None \<Rightarrow> None
           | Some (parts, prec) \<Rightarrow>
               Some \<lparr>raw = TrimSpace s, major = parts ! 0, minor = parts ! 1, patch = parts ! 2,
                     precision = prec, prerelease = p\<rparr>))"

subsection \<open>Comparing and choosing\<close>

fun comparePrereleaseParts :: "string list \<Rightarrow> string list \<Rightarrow> int" where
  "comparePrereleaseParts [] [] = 0"
| "comparePrereleaseParts [] (b # bs) = -1"
| "comparePrereleaseParts (a # as) [] = 1"
| "comparePrereleaseParts (a # as) (b # bs) =
     (let x = ParseUint a; y = ParseUint b in
      if x \<noteq> None \<and> y \<noteq> None \<and> x \<noteq> y then (if the x < the y then -1 else 1)
      else if x \<noteq> None \<and> y = None then -1
      else if x = None \<and> y \<noteq> None then 1
      else if a < b then -1
      else if a > b then 1
      else comparePrereleaseParts as bs)"

definition comparePrerelease :: "string \<Rightarrow> string \<Rightarrow> int" where
  "comparePrerelease a b = comparePrereleaseParts (Split a (CHR ''.'')) (Split b (CHR ''.''))"

fun compareNumbers :: "(nat \<times> nat) list \<Rightarrow> int" where
  "compareNumbers [] = 0"
| "compareNumbers ((x, y) # ps) = (if x < y then -1 else if x > y then 1 else compareNumbers ps)"

definition compareSemanticTag :: "semanticTag \<Rightarrow> semanticTag \<Rightarrow> int" where
  "compareSemanticTag a b =
     (let n = compareNumbers [(major a, major b), (minor a, minor b), (patch a, patch b)] in
      if n \<noteq> 0 then n
      else if prerelease a = prerelease b then 0
      else if prerelease a = [] then 1
      else if prerelease b = [] then -1
      else comparePrerelease (prerelease a) (prerelease b))"

definition VersionPolicyPatch :: string where "VersionPolicyPatch = ''patch''"
definition VersionPolicyMinor :: string where "VersionPolicyMinor = ''minor''"
definition VersionPolicyMajor :: string where "VersionPolicyMajor = ''major''"

definition versionPolicyAllows :: "semanticTag \<Rightarrow> semanticTag \<Rightarrow> string \<Rightarrow> bool" where
  "versionPolicyAllows current candidate policy =
     (if policy = VersionPolicyPatch then
        (if major candidate \<noteq> major current then False
         else precision current < 2 \<or> minor candidate = minor current)
      else if policy = VersionPolicyMinor then major candidate = major current
      else if policy = VersionPolicyMajor then True
      else False)"

definition eligibleTag :: "semanticTag \<Rightarrow> string \<Rightarrow> bool \<Rightarrow> semanticTag \<Rightarrow> bool" where
  "eligibleTag current policy allowPrerelease candidate \<longleftrightarrow>
     \<not> (\<not> allowPrerelease \<and> prerelease candidate \<noteq> []) \<and> \<not> compareSemanticTag candidate current \<le> 0 \<and>
     versionPolicyAllows current candidate policy"

definition newestStep :: "semanticTag \<Rightarrow> string \<Rightarrow> bool \<Rightarrow> semanticTag option \<Rightarrow> string \<Rightarrow> semanticTag option" where
  "newestStep current policy allowPrerelease latest v =
     (case parseVersionTag v of
        None \<Rightarrow> latest
      | Some candidate \<Rightarrow>
          if \<not> eligibleTag current policy allowPrerelease candidate then latest
          else (case latest of
                  None \<Rightarrow> Some candidate
                | Some l \<Rightarrow> if compareSemanticTag candidate l > 0 then Some candidate else latest))"

definition newestAllowedTag :: "semanticTag \<Rightarrow> string list \<Rightarrow> string \<Rightarrow> bool \<Rightarrow> semanticTag option" where
  "newestAllowedTag current tags policy allowPrerelease =
     foldl (newestStep current policy allowPrerelease) None tags"

subsection \<open>The language of the pattern\<close>

text \<open>
  \<open>versionTagLanguage\<close> is the regular expression read as a set of decompositions:
  \<^verbatim>\<open>[vV]?(\d+)(?:\.(\d+))?(?:\.(\d+))?(?:-([0-9A-Za-z.-]+))?(?:\+[0-9A-Za-z.-]+)?\<close>, with an
  absent group read as the empty string and the second number only after the first.
\<close>

definition marked :: "char \<Rightarrow> string \<Rightarrow> string" where
  "marked c g = (if g = [] then [] else c # g)"

definition versionTagLanguage :: "string \<Rightarrow> string \<Rightarrow> string \<Rightarrow> string \<Rightarrow> string \<Rightarrow> bool" where
  "versionTagLanguage s a b c p \<longleftrightarrow>
     (\<exists>v build. s = v @ a @ marked (CHR ''.'') b @ marked (CHR ''.'') c @ marked (CHR ''-'') p @ marked (CHR ''+'') build \<and>
        v \<in> {[], ''v'', ''V''} \<and> a \<noteq> [] \<and> list_all is_digit a \<and> list_all is_digit b \<and> list_all is_digit c \<and>
        (c \<noteq> [] \<longrightarrow> b \<noteq> []) \<and> list_all tag_char p \<and> list_all tag_char build)"

definition stops :: "(char \<Rightarrow> bool) \<Rightarrow> string \<Rightarrow> bool" where
  "stops P s \<longleftrightarrow> s = [] \<or> \<not> P (hd s)"

lemma opt_group_append: "opt_group m P s = (g, r) \<Longrightarrow> s = marked m g @ r \<and> list_all P g"
  by (auto simp: opt_group_def marked_def list_all_iff dest: set_takeWhileD split: list.splits if_splits)

lemma takeWhile_stops: "list_all P g \<Longrightarrow> stops P r \<Longrightarrow> takeWhile P (g @ r) = g \<and> dropWhile P (g @ r) = r"
  by (cases r) (auto simp: stops_def list_all_iff)

lemma opt_group_marked:
  assumes "list_all P g" "stops P r" "g = [] \<longrightarrow> stops (\<lambda>c. c = m) r"
  shows "opt_group m P (marked m g @ r) = (g, r)"
proof (cases "g = []")
  case True
  then show ?thesis using assms by (cases r) (auto simp: opt_group_def marked_def stops_def)
next
  case False
  then show ?thesis using takeWhile_stops [OF assms(1,2)] by (simp add: opt_group_def marked_def)
qed

lemma stops_marked: "\<not> P m \<Longrightarrow> stops P r \<Longrightarrow> stops P (marked m g @ r)"
  by (simp add: stops_def marked_def)

lemma stops_end: "stops P []" "\<not> P m \<Longrightarrow> stops P (marked m g)"
  by (simp_all add: stops_def marked_def)

lemma tag_marks:
  "\<not> is_digit (CHR ''.'')" "\<not> is_digit (CHR ''-'')" "\<not> is_digit (CHR ''+'')" "\<not> tag_char (CHR ''+'')"
  by (simp_all add: is_digit_def tag_char_def is_letter_def)

lemma opt_group_empty_stays: "opt_group m P s = ([], r) \<Longrightarrow> r = s"
  by (auto simp: opt_group_def split: list.splits if_splits)

lemma digit_not_v: "is_digit c \<Longrightarrow> c \<noteq> CHR ''v'' \<and> c \<noteq> CHR ''V''"
  by (auto simp: is_digit_def less_eq_char_def)

lemma versionTagPattern_sound:
  assumes "versionTagPattern s = Some (a, b, c, p)"
  shows "versionTagLanguage s a b c p"
proof -
  define s0 where "s0 = (if HasPrefix s ''v'' \<or> HasPrefix s ''V'' then tl s else s)"
  obtain b' s2 where g2: "opt_group (CHR ''.'') is_digit (dropWhile is_digit s0) = (b', s2)" by fastforce
  obtain c' s3 where g3: "opt_group (CHR ''.'') is_digit s2 = (c', s3)" by fastforce
  obtain p' s4 where g4: "opt_group (CHR ''-'') tag_char s3 = (p', s4)" by fastforce
  obtain build s5 where g5: "opt_group (CHR ''+'') tag_char s4 = (build, s5)" by fastforce
  have r: "a = takeWhile is_digit s0" "b' = b" "c' = c" "p' = p" "a \<noteq> []" "s5 = []"
    using assms unfolding versionTagPattern_def Let_def s0_def [symmetric]
    by (simp_all add: g2 g3 g4 g5 split: if_splits)
  obtain v where v: "v \<in> {[], ''v'', ''V''}" "s = v @ s0"
  proof (cases s)
    case (Cons x xs)
    then show ?thesis using that [of "[]"] that [of "[x]"] by (cases "x = CHR ''v'' \<or> x = CHR ''V''") (auto simp: s0_def)
  qed (use that [of "[]"] in \<open>simp add: s0_def\<close>)
  have "b = [] \<longrightarrow> c = []"
  proof
    assume "b = []"
    then have "opt_group (CHR ''.'') is_digit s2 = (b, s2)"
      using g2 r opt_group_empty_stays by force
    then show "c = []" using g3 r \<open>b = []\<close> by simp
  qed
  moreover have "list_all is_digit a" using r(1) by (auto simp: list_all_iff dest: set_takeWhileD)
  moreover have "s0 = a @ marked (CHR ''.'') b @ s2" "list_all is_digit b"
    using opt_group_append [OF g2] r(2) takeWhile_dropWhile_id [of is_digit s0, folded r(1)] by simp_all
  moreover have "s2 = marked (CHR ''.'') c @ s3" "list_all is_digit c" using opt_group_append [OF g3] r(3) by simp_all
  moreover have "s3 = marked (CHR ''-'') p @ s4" "list_all tag_char p" using opt_group_append [OF g4] r(4) by simp_all
  moreover have "s4 = marked (CHR ''+'') build" "list_all tag_char build" using opt_group_append [OF g5] r(6) by simp_all
  ultimately show ?thesis
    unfolding versionTagLanguage_def using v r(5)
    by (rule_tac x = v in exI, rule_tac x = build in exI) (simp, blast)
qed

lemma versionTagPattern_complete:
  assumes "versionTagLanguage s a b c p"
  shows "versionTagPattern s = Some (a, b, c, p)"
proof -
  obtain v build where s: "s = v @ a @ marked (CHR ''.'') b @ marked (CHR ''.'') c @ marked (CHR ''-'') p @ marked (CHR ''+'') build"
    and v: "v \<in> {[], ''v'', ''V''}" and a: "a \<noteq> []" "list_all is_digit a"
    and g: "list_all is_digit b" "list_all is_digit c" "c \<noteq> [] \<longrightarrow> b \<noteq> []" "list_all tag_char p" "list_all tag_char build"
    using assms unfolding versionTagLanguage_def by blast
  define r4 where "r4 = marked (CHR ''+'') build @ []"
  define r3 where "r3 = marked (CHR ''-'') p @ r4"
  define r2 where "r2 = marked (CHR ''.'') c @ r3"
  define r1 where "r1 = marked (CHR ''.'') b @ r2"
  note stop = stops_marked stops_end tag_marks
  have g5: "opt_group (CHR ''+'') tag_char r4 = (build, [])"
    unfolding r4_def by (rule opt_group_marked) (simp_all add: g stop)
  have g4: "opt_group (CHR ''-'') tag_char r3 = (p, r4)"
    unfolding r3_def by (rule opt_group_marked) (simp_all add: g r4_def stop)
  have g3: "opt_group (CHR ''.'') is_digit r2 = (c, r3)"
    unfolding r2_def by (rule opt_group_marked) (simp_all add: g r3_def r4_def stop)
  have g2: "opt_group (CHR ''.'') is_digit r1 = (b, r2)"
    unfolding r1_def using g(3)
    by (intro opt_group_marked) (auto simp: g r2_def r3_def r4_def stop marked_def stops_def)
  have s0: "(if HasPrefix s ''v'' \<or> HasPrefix s ''V'' then tl s else s) = a @ r1"
  proof -
    obtain d ds where "a = d # ds" "is_digit d" using a by (cases a) auto
    then show ?thesis using v s digit_not_v [of d] by (auto simp: r1_def r2_def r3_def r4_def)
  qed
  have "takeWhile is_digit (a @ r1) = a \<and> dropWhile is_digit (a @ r1) = r1"
    by (rule takeWhile_stops [OF a(2)]) (simp add: r1_def r2_def r3_def r4_def stop)
  then show ?thesis unfolding versionTagPattern_def s0 Let_def
    using a by (simp add: g2 g3 g4 g5)
qed

lemma versionTagPattern_iff: "versionTagPattern s = Some (a, b, c, p) \<longleftrightarrow> versionTagLanguage s a b c p"
  using versionTagPattern_sound versionTagPattern_complete by blast

text \<open>The numbers a parsed tag carries.\<close>

definition group_value :: "string \<Rightarrow> nat" where
  "group_value g = (if g = [] then 0 else digits_val g)"

definition tagLanguage :: "string \<Rightarrow> semanticTag \<Rightarrow> bool" where
  "tagLanguage s t \<longleftrightarrow>
     (\<exists>a b c. versionTagLanguage s a b c (prerelease t) \<and> raw t = s \<and>
        major t = group_value a \<and> minor t = group_value b \<and> patch t = group_value c \<and>
        major t < 2 ^ 64 \<and> minor t < 2 ^ 64 \<and> patch t < 2 ^ 64 \<and>
        precision t = (if c \<noteq> [] then 3 else if b \<noteq> [] then 2 else 1))"

lemma parseParts_3:
  assumes "a \<noteq> []" "list_all is_digit a" "list_all is_digit b" "list_all is_digit c"
  shows "parseParts 0 [a, b, c] [0, 0, 0] 1 =
    (if group_value a < 2 ^ 64 \<and> group_value b < 2 ^ 64 \<and> group_value c < 2 ^ 64
     then Some ([group_value a, group_value b, group_value c], if c \<noteq> [] then 3 else if b \<noteq> [] then 2 else 1)
     else None)"
  using assms by (simp add: ParseUint_def group_value_def)

text \<open>
  the tag parser accepts exactly the trimmed strings of the version pattern whose
  numbers fit 64 bits, and reads off their numbers, their precision and their pre-release
  part: a string is parsed to \<^verbatim>\<open>t\<close> if and only if it is a decomposition of \<^verbatim>\<open>t\<close>.
\<close>

theorem parseVersionTag_iff_pattern:
  "parseVersionTag s = Some t \<longleftrightarrow> tagLanguage (TrimSpace s) t"
proof
  assume "parseVersionTag s = Some t"
  then obtain a b c p where m: "versionTagLanguage (TrimSpace s) a b c p"
    and t: "(case parseParts 0 [a, b, c] [0, 0, 0] 1 of None \<Rightarrow> None | Some (parts, prec) \<Rightarrow>
       Some \<lparr>raw = TrimSpace s, major = parts ! 0, minor = parts ! 1, patch = parts ! 2,
         precision = prec, prerelease = p\<rparr>) = Some t"
    by (auto simp: parseVersionTag_def versionTagPattern_iff split: option.splits prod.splits)
  have d: "a \<noteq> []" "list_all is_digit a" "list_all is_digit b" "list_all is_digit c"
    using m by (auto simp: versionTagLanguage_def)
  note t = t [unfolded parseParts_3 [OF d]]
  have ok: "group_value a < 2 ^ 64 \<and> group_value b < 2 ^ 64 \<and> group_value c < 2 ^ 64"
    by (rule ccontr) (use t in \<open>auto split: if_splits\<close>)
  then have "t = \<lparr>raw = TrimSpace s, major = group_value a, minor = group_value b, patch = group_value c,
      precision = (if c \<noteq> [] then 3 else if b \<noteq> [] then 2 else 1), prerelease = p\<rparr>"
    using t by simp
  then show "tagLanguage (TrimSpace s) t"
    unfolding tagLanguage_def using m ok
    by (rule_tac x = a in exI, rule_tac x = b in exI, rule_tac x = c in exI) simp
next
  assume "tagLanguage (TrimSpace s) t"
  then obtain a b c where m: "versionTagLanguage (TrimSpace s) a b c (prerelease t)"
    and t: "raw t = TrimSpace s" "major t = group_value a" "minor t = group_value b" "patch t = group_value c"
      "major t < 2 ^ 64" "minor t < 2 ^ 64" "patch t < 2 ^ 64"
      "precision t = (if c \<noteq> [] then 3 else if b \<noteq> [] then 2 else 1)"
    by (auto simp: tagLanguage_def)
  have d: "a \<noteq> []" "list_all is_digit a" "list_all is_digit b" "list_all is_digit c"
    using m by (auto simp: versionTagLanguage_def)
  have "versionTagPattern (TrimSpace s) = Some (a, b, c, prerelease t)"
    using m by (simp add: versionTagPattern_iff)
  then show "parseVersionTag s = Some t"
    using t parseParts_3 [OF d] by (simp add: parseVersionTag_def del: parseParts.simps)
qed

subsection \<open>The order on versions\<close>

text \<open>
  A Go comparator that is decided by a key, the contract of every comparator the updater
  hands to \<open>slices.SortFunc\<close> or uses to keep a maximum.
\<close>

locale key_comparator =
  fixes cmp :: "'a \<Rightarrow> 'a \<Rightarrow> int"
    and key :: "'a \<Rightarrow> 'k :: linorder"
  assumes cmp_neg: "cmp a b < 0 \<longleftrightarrow> key a < key b"
    and cmp_pos: "0 < cmp a b \<longleftrightarrow> key b < key a"
begin

lemma cmp_zero: "cmp a b = 0 \<longleftrightarrow> key a = key b"
  using cmp_neg [of a b] cmp_pos [of a b] by (metis less_irrefl linorder_less_linear)

lemma cmp_le: "cmp a b \<le> 0 \<longleftrightarrow> key a \<le> key b"
  using cmp_pos [of a b] by (metis not_le)

lemma cmp_trans: "cmp a b \<le> 0 \<Longrightarrow> cmp b c \<le> 0 \<Longrightarrow> cmp a c \<le> 0"
  by (simp add: cmp_le)

lemma cmp_antisym: "0 < cmp a b \<longleftrightarrow> cmp b a < 0"
  by (simp add: cmp_neg cmp_pos)

text \<open>Keeping a maximum over a list of optional candidates, as a loop does.\<close>

definition keep_max :: "'a option \<Rightarrow> 'a option \<Rightarrow> 'a option" where
  "keep_max best c =
     (case c of None \<Rightarrow> best
      | Some x \<Rightarrow> (case best of None \<Rightarrow> Some x | Some b \<Rightarrow> if cmp x b > 0 then Some x else best))"

definition is_max :: "'a option \<Rightarrow> 'a set \<Rightarrow> bool" where
  "is_max best xs \<longleftrightarrow>
     (case best of None \<Rightarrow> xs = {} | Some b \<Rightarrow> b \<in> xs \<and> (\<forall>x \<in> xs. cmp x b \<le> 0))"

lemma keep_max_step: "is_max best xs \<Longrightarrow> is_max (keep_max best c) (xs \<union> set_option c)"
  by (auto simp: is_max_def keep_max_def cmp_le cmp_pos not_less split: option.splits intro: order_trans less_imp_le)

lemma keep_max_fold:
  "is_max best xs \<Longrightarrow> is_max (foldl (\<lambda>b y. keep_max b (f y)) best ys) (xs \<union> (\<Union>y \<in> set ys. set_option (f y)))"
  by (induction ys arbitrary: best xs) (auto dest: keep_max_step simp: Un_assoc [symmetric])

end

definition part_key :: "string \<Rightarrow> nat \<times> nat \<times> string" where
  "part_key p = (case ParseUint p of Some n \<Rightarrow> (0, n, p) | None \<Rightarrow> (1, 0, p))"

definition version_key :: "semanticTag \<Rightarrow> nat \<times> nat \<times> nat \<times> bool \<times> (nat \<times> nat \<times> string) list" where
  "version_key t =
     (major t, minor t, patch t, prerelease t = [], map part_key (Split (prerelease t) (CHR ''.'')))"

lemma part_key_inj: "part_key a = part_key b \<longleftrightarrow> a = b"
  by (auto simp: part_key_def split: option.splits)

lemma part_key_less:
  "part_key a < part_key b \<longleftrightarrow>
     (case (ParseUint a, ParseUint b) of
        (Some m, Some n) \<Rightarrow> m < n \<or> m = n \<and> a < b
      | (Some m, None) \<Rightarrow> True
      | (None, Some n) \<Rightarrow> False
      | (None, None) \<Rightarrow> a < b)"
  by (auto simp: part_key_def split: option.split)

lemma comparePrereleaseParts_key:
  "(comparePrereleaseParts as bs < 0 \<longleftrightarrow> map part_key as < map part_key bs) \<and>
   (0 < comparePrereleaseParts as bs \<longleftrightarrow> map part_key bs < map part_key as)"
proof (induction as bs rule: comparePrereleaseParts.induct)
  case (4 a as b bs)
  show ?case
  proof (cases "a = b")
    case True
    then show ?thesis using 4 [OF refl refl] by (cases "ParseUint b") simp_all
  next
    case False
    then have "part_key a \<noteq> part_key b" by (simp add: part_key_inj)
    moreover have "(comparePrereleaseParts (a # as) (b # bs) < 0 \<longleftrightarrow> part_key a < part_key b) \<and>
        (0 < comparePrereleaseParts (a # as) (b # bs) \<longleftrightarrow> part_key b < part_key a)"
      using False by (cases "ParseUint a"; cases "ParseUint b") (auto simp: part_key_less Let_def split: if_splits)
    ultimately show ?thesis by (simp del: comparePrereleaseParts.simps)
  qed
qed simp_all

lemma Split_inj: "Split a c = Split b c \<longleftrightarrow> a = b"
  using Join_Split [of a c] Join_Split [of b c] by metis

lemma prerelease_key_inj:
  "map part_key (Split a (CHR ''.'')) = map part_key (Split b (CHR ''.'')) \<longleftrightarrow> a = b"
proof -
  have "inj part_key" by (simp add: inj_def part_key_inj)
  then show ?thesis by (simp add: inj_map_eq_map Split_inj)
qed

lemma compareSemanticTag_key:
  "compareSemanticTag a b < 0 \<longleftrightarrow> version_key a < version_key b"
  "0 < compareSemanticTag a b \<longleftrightarrow> version_key b < version_key a"
proof -
  let ?k = "\<lambda>t. map part_key (Split (prerelease t) (CHR ''.''))"
  let ?pre = "if prerelease a = prerelease b then 0 else if prerelease a = [] then 1
     else if prerelease b = [] then -1 else comparePrerelease (prerelease a) (prerelease b)"
  have pre: "(?pre < 0 \<longleftrightarrow> (prerelease a = [], ?k a) < (prerelease b = [], ?k b)) \<and>
     (0 < ?pre \<longleftrightarrow> (prerelease b = [], ?k b) < (prerelease a = [], ?k a))"
    by (auto simp: comparePrerelease_def comparePrereleaseParts_key prerelease_key_inj)
  show "compareSemanticTag a b < 0 \<longleftrightarrow> version_key a < version_key b"
    "0 < compareSemanticTag a b \<longleftrightarrow> version_key b < version_key a"
    using pre unfolding compareSemanticTag_def version_key_def Let_def
    by (simp_all add: not_less_iff_gr_or_eq del: Split.simps)
qed

interpretation ver: key_comparator compareSemanticTag version_key
  by unfold_locales (simp_all add: compareSemanticTag_key)

definition eligible_parse :: "semanticTag \<Rightarrow> string \<Rightarrow> bool \<Rightarrow> string \<Rightarrow> semanticTag option" where
  "eligible_parse current policy pre v =
     (case parseVersionTag v of None \<Rightarrow> None
      | Some t \<Rightarrow> if eligibleTag current policy pre t then Some t else None)"

lemma newestStep_keep_max:
  "newestStep current policy pre = (\<lambda>best v. ver.keep_max best (eligible_parse current policy pre v))"
  by (auto simp: newestStep_def ver.keep_max_def eligible_parse_def fun_eq_iff split: option.splits)

lemma newestAllowedTag_is_max:
  "ver.is_max (newestAllowedTag current tags policy pre)
     (\<Union>v \<in> set tags. set_option (eligible_parse current policy pre v))"
  using ver.keep_max_fold [of None "{}" "eligible_parse current policy pre" tags]
  by (simp add: newestAllowedTag_def newestStep_keep_max ver.is_max_def)

lemma eligible_parse_Some:
  "eligible_parse current policy pre v = Some t \<longleftrightarrow>
     parseVersionTag v = Some t \<and> eligibleTag current policy pre t"
  by (auto simp: eligible_parse_def split: option.splits)

text \<open>
  the tag offered as an update is the newest one the policy allows.  It comes from the
  catalogue, is strictly newer than the running tag, respects the policy (same major for
  minor updates, same minor as well for patch updates) and the pre-release switch, and no
  other eligible tag of the catalogue is newer; when nothing is offered, the catalogue has no
  eligible tag at all.
\<close>

theorem newestAllowedTag_newest:
  "(\<forall>t. newestAllowedTag current tags policy pre = Some t \<longrightarrow>
      (\<exists>v \<in> set tags. parseVersionTag v = Some t) \<and> version_key current < version_key t \<and>
      (policy = VersionPolicyMinor \<longrightarrow> major t = major current) \<and>
      (policy = VersionPolicyPatch \<longrightarrow> major t = major current \<and> (2 \<le> precision current \<longrightarrow> minor t = minor current)) \<and>
      (\<not> pre \<longrightarrow> prerelease t = []) \<and>
      (\<forall>v \<in> set tags. \<forall>u. parseVersionTag v = Some u \<and> eligibleTag current policy pre u \<longrightarrow> version_key u \<le> version_key t)) \<and>
   (newestAllowedTag current tags policy pre = None \<longrightarrow>
      (\<forall>v \<in> set tags. \<forall>u. parseVersionTag v = Some u \<longrightarrow> \<not> eligibleTag current policy pre u))"
proof -
  let ?E = "\<Union>v \<in> set tags. set_option (eligible_parse current policy pre v)"
  have E: "u \<in> ?E \<longleftrightarrow> (\<exists>v \<in> set tags. parseVersionTag v = Some u) \<and> eligibleTag current policy pre u" for u
    by (auto simp: eligible_parse_Some)
  show ?thesis
  proof (cases "newestAllowedTag current tags policy pre")
    case None
    then have "?E = {}" using newestAllowedTag_is_max [of current tags policy pre] by (simp add: ver.is_max_def)
    with None E show ?thesis by auto
  next
    case (Some t)
    then have t: "t \<in> ?E" "\<forall>u \<in> ?E. version_key u \<le> version_key t"
      using newestAllowedTag_is_max [of current tags policy pre] by (simp_all add: ver.is_max_def ver.cmp_le)
    have e: "eligibleTag current policy pre t" using t(1) E by blast
    then have "version_key current < version_key t" by (simp add: eligibleTag_def ver.cmp_le not_le)
    moreover have "(policy = VersionPolicyMinor \<longrightarrow> major t = major current) \<and>
      (policy = VersionPolicyPatch \<longrightarrow> major t = major current \<and> (2 \<le> precision current \<longrightarrow> minor t = minor current)) \<and>
      (\<not> pre \<longrightarrow> prerelease t = [])"
      using e by (auto simp: eligibleTag_def versionPolicyAllows_def VersionPolicyPatch_def VersionPolicyMinor_def
        VersionPolicyMajor_def split: if_splits)
    moreover have "\<exists>v \<in> set tags. parseVersionTag v = Some t" using t(1) E by blast
    moreover have "\<forall>v \<in> set tags. \<forall>u. parseVersionTag v = Some u \<and> eligibleTag current policy pre u \<longrightarrow>
        version_key u \<le> version_key t" using t(2) E by blast
    ultimately show ?thesis using Some by simp
  qed
qed

definition sampleTag :: "string \<Rightarrow> semanticTag" where
  "sampleTag s = (case parseVersionTag s of Some t \<Rightarrow> t | None \<Rightarrow>
     \<lparr>raw = [], major = 0, minor = 0, patch = 0, precision = 0, prerelease = []\<rparr>)"

theorem newestAllowedTag_newest_witness:
  "newestAllowedTag (sampleTag ''1.2.3'') [''1.2.10'', ''v1.2.9'', ''1.3.0'', ''1.2.11-rc.1'', ''latest''] ''patch'' False
     = Some (sampleTag ''1.2.10'') \<and>
   version_key (sampleTag ''v1.2.9'') \<le> version_key (sampleTag ''1.2.10'') \<and>
   version_key (sampleTag ''1.2.3'') < version_key (sampleTag ''1.2.10'')"
proof -
  define cur new old tags where d: "cur = sampleTag ''1.2.3''" "new = sampleTag ''1.2.10''" "old = sampleTag ''v1.2.9''"
    "tags = [''1.2.10'', ''v1.2.9'', ''1.3.0'', ''1.2.11-rc.1'', ''latest'']"
  have n: "newestAllowedTag cur tags ''patch'' False = Some new" unfolding d by code_simp
  have o: "parseVersionTag ''v1.2.9'' = Some old" unfolding d by code_simp
  have e: "eligibleTag cur ''patch'' False old" unfolding d by code_simp
  have m: "''v1.2.9'' \<in> set tags" by (simp add: d)
  have "version_key old \<le> version_key new \<and> version_key cur < version_key new"
    using newestAllowedTag_newest [of cur tags "''patch''" False] n o e m by blast
  then show ?thesis using n unfolding d by blast
qed

subsection \<open>The tag catalogue of a registry\<close>

definition maxRegistryTags :: nat where "maxRegistryTags = 1000"
definition maxRegistryTagPages :: nat where "maxRegistryTagPages = 10"

definition Trim :: "string \<Rightarrow> string \<Rightarrow> string" where
  "Trim s cutset = rev (dropWhile (\<lambda>c. c \<in> set cutset) (rev (dropWhile (\<lambda>c. c \<in> set cutset) s)))"

fun nextLink :: "string list \<Rightarrow> string" where
  "nextLink [] = []"
| "nextLink (part # rest) =
     (let sections = Split part (CHR '';'');
          relations = ToLower (Join (tl sections) '';'')
      in if length sections < 2 \<or>
            (\<not> Contains relations (''rel='' @ [CHR 0x22] @ ''next'' @ [CHR 0x22]) \<and> \<not> Contains relations ''rel=next'')
         then nextLink rest
         else Trim (TrimSpace (hd sections)) ''<>'')"

definition parseNextLink :: "string \<Rightarrow> string" where
  "parseNextLink s = nextLink (Split s (CHR '',''))"

record tags_page =
  pg_tags :: "string list"
  pg_challenge :: string
  pg_next :: string
  pg_status :: nat

definition requestRegistryTagsPage ::
  "http_env \<Rightarrow> http_request list \<Rightarrow> url \<Rightarrow> string \<Rightarrow> tags_page http_result" where
  "requestRegistryTagsPage env log endpoint authorization =
     (case client_do TagClient env 0 log
             \<lparr>req_method = ''GET'', req_url = endpoint,
              req_headers = with_auth authorization [(''Accept'', ''application/json''), (''User-Agent'', ''Dockman/1.0'')]\<rparr> of
        (Inl e, log1) \<Rightarrow> (Inl e, log1)
      | (Inr resp, log1) \<Rightarrow>
          if resp_status resp \<noteq> 200
          then (Inr \<lparr>pg_tags = [], pg_challenge = str_at (resp_headers resp) ''WWW-Authenticate'',
                     pg_next = [], pg_status = resp_status resp\<rparr>, log1)
          else case env_json_tags env (LimitReader (resp_body resp) (2 * 1024 * 1024)) of
            Inl e \<Rightarrow> (Inl (''decode registry tag catalog: '' @ e), log1)
          | Inr tags \<Rightarrow>
              (Inr \<lparr>pg_tags = tags, pg_challenge = [],
                    pg_next = parseNextLink (str_at (resp_headers resp) ''Link''), pg_status = resp_status resp\<rparr>, log1))"

text \<open>One page of tags: the flag says that the bound was reached and the caller returns.\<close>

fun addPageTags :: "string list \<Rightarrow> string list \<Rightarrow> bool \<times> string list" where
  "addPageTags tags [] = (False, tags)"
| "addPageTags tags (t # ts) =
     (let t = TrimSpace t in
      if t \<noteq> [] \<and> t \<notin> set tags
      then (let tags = tags @ [t] in
            if length tags \<ge> maxRegistryTags then (True, tags) else addPageTags tags ts)
      else addPageTags tags ts)"

text \<open>
  The page loop.  An unauthorised answer to a request without a token fetches one and
  repeats the same page; it happens once, because the header is set from then on.  The
  source's extra test that the URL is not empty is always true: its scheme is \<open>https\<close>.
\<close>

function tagPages ::
  "http_env \<Rightarrow> registryImageReference \<Rightarrow> nat \<Rightarrow> url \<Rightarrow> string \<Rightarrow> string list \<Rightarrow> http_request list \<Rightarrow> string list http_result" where
  "tagPages env ref page endpoint authorization tags log =
     (if \<not> page < maxRegistryTagPages then (Inr tags, log)
      else case requestRegistryTagsPage env log endpoint authorization of
        (Inl e, log1) \<Rightarrow> (Inl e, log1)
      | (Inr p, log1) \<Rightarrow>
          if pg_status p = 401 \<and> authorization = [] then
            (case anonymousBearerToken TagClient env log1 (pg_challenge p) (ref_repo ref) of
               (Inl e, log2) \<Rightarrow> (Inl e, log2)
             | (Inr token, log2) \<Rightarrow> tagPages env ref page endpoint (''Bearer '' @ token) tags log2)
          else if pg_status p \<noteq> 200 then (Inl (registryStatusError (pg_status p)), log1)
          else (case addPageTags tags (pg_tags p) of
                  (True, tags1) \<Rightarrow> (Inr tags1, log1)
                | (False, tags1) \<Rightarrow>
                    if pg_next p = [] then (Inr tags1, log1)
                    else (case env_url_resolve env endpoint (pg_next p) of
                            None \<Rightarrow> (Inl ''registry returned an unsafe tag pagination link'', log1)
                          | Some u \<Rightarrow>
                              if url_scheme u \<noteq> ''https'' \<or> url_host u \<noteq> ref_registry ref
                              then (Inl ''registry returned an unsafe tag pagination link'', log1)
                              else tagPages env ref (Suc page) u authorization tags1 log1)))"
  by pat_completeness auto
termination
  by (relation "measure (\<lambda>(env, ref, page, endpoint, auth, tags, log).
       2 * (maxRegistryTagPages - page) + (if auth = [] then 1 else 0))") auto

declare tagPages.simps [simp del]

definition registryTagsWithClient ::
  "http_env \<Rightarrow> http_request list \<Rightarrow> registryImageReference \<Rightarrow> string list http_result" where
  "registryTagsWithClient env log ref =
     tagPages env ref 0
       \<lparr>url_scheme = ''https'', url_host = ref_registry ref,
        url_path = ''/v2/'' @ escapeRepositoryPath (ref_repo ref) @ ''/tags/list'', url_query = [(''n'', ''100'')]\<rparr>
       [] [] log"

definition RegistryTags :: "http_env \<Rightarrow> http_request list \<Rightarrow> registryImageReference \<Rightarrow> string list http_result" where
  "RegistryTags env log ref = registryTagsWithClient env log ref"

text \<open>A catalogue is a bounded list of distinct, trimmed, non-empty tags.\<close>

definition catalogue_ok :: "string list \<Rightarrow> bool" where
  "catalogue_ok tags \<longleftrightarrow> distinct tags \<and> length tags \<le> maxRegistryTags \<and> (\<forall>t \<in> set tags. t \<noteq> [] \<and> trimmed t)"

lemma addPageTags_ok:
  "catalogue_ok tags \<Longrightarrow> length tags < maxRegistryTags \<Longrightarrow> addPageTags tags ts = (full, tags') \<Longrightarrow>
     catalogue_ok tags' \<and> (\<not> full \<longrightarrow> length tags' < maxRegistryTags)"
proof (induction tags ts rule: addPageTags.induct)
  case (2 tags t ts)
  let ?t = "TrimSpace t"
  show ?case
  proof (cases "?t \<noteq> [] \<and> ?t \<notin> set tags")
    case True
    then have ok: "catalogue_ok (tags @ [?t])" using 2(3,4) by (simp add: catalogue_ok_def)
    show ?thesis
    proof (cases "length (tags @ [?t]) \<ge> maxRegistryTags")
      case full: True
      then show ?thesis using 2(5) True ok by simp
    next
      case False
      then show ?thesis using 2(1) [OF refl True refl] 2(5) True ok by (simp add: Let_def)
    qed
  next
    case False
    then show ?thesis using 2(2-5) by (auto simp: Let_def)
  qed
qed auto

lemma requestRegistryTagsPage_sends:
  assumes "forwards_within env trusted" "url_scheme u = ''https''" "auth \<noteq> [] \<longrightarrow> trusted (url_host u)"
  shows "sends (allowed trusted) 3 log (snd (requestRegistryTagsPage env log u auth))"
  using client_do_sends_new [OF assms,
      of "[(''Accept'', ''application/json''), (''User-Agent'', ''Dockman/1.0'')]" log TagClient "''GET''"]
  by (auto simp: requestRegistryTagsPage_def split: prod.split sum.split)

definition page_budget :: "nat \<Rightarrow> string \<Rightarrow> nat" where
  "page_budget page authorization = 3 * (maxRegistryTagPages - page) + (if authorization = [] then 6 else 0)"

definition pages_ok :: "(string \<Rightarrow> bool) \<Rightarrow> nat \<Rightarrow> http_request list \<Rightarrow> string list http_result \<Rightarrow> bool" where
  "pages_ok trusted n log r \<longleftrightarrow>
     sends (allowed trusted) n log (snd r) \<and> (\<forall>out. fst r = Inr out \<longrightarrow> catalogue_ok out)"

lemma pages_ok_after:
  "sends (allowed trusted) m log l \<Longrightarrow> pages_ok trusted n l r \<Longrightarrow> m + n \<le> k \<Longrightarrow> pages_ok trusted k log r"
  unfolding pages_ok_def using sends_trans sends_mono by blast

lemma pages_ok_end:
  "sends (allowed trusted) m log l \<Longrightarrow> m \<le> k \<Longrightarrow> pages_ok trusted k log (Inl e, l)"
  "sends (allowed trusted) m log l \<Longrightarrow> m \<le> k \<Longrightarrow> catalogue_ok out \<Longrightarrow> pages_ok trusted k log (Inr out, l)"
  by (auto simp: pages_ok_def intro: sends_mono)

lemma pages_ok_page:
  assumes s1: "sends (allowed trusted) 3 log l1" and k: "3 \<le> k" and cat: "catalogue_ok tags" "length tags < maxRegistryTags"
    and more: "\<And>u tags1. \<lbrakk>url_scheme u = ''https''; url_host u = ref_registry ref; catalogue_ok tags1;
       length tags1 < maxRegistryTags\<rbrakk> \<Longrightarrow> pages_ok trusted (k - 3) l1 (cont u tags1)"
  shows "pages_ok trusted k log
    (case addPageTags tags (pg_tags p) of
       (True, tags1) \<Rightarrow> (Inr tags1, l1)
     | (False, tags1) \<Rightarrow>
         if pg_next p = [] then (Inr tags1, l1)
         else (case env_url_resolve env endpoint (pg_next p) of
                 None \<Rightarrow> (Inl e1, l1)
               | Some u \<Rightarrow> if url_scheme u \<noteq> ''https'' \<or> url_host u \<noteq> ref_registry ref then (Inl e2, l1) else cont u tags1))"
proof -
  obtain full tags1 where add: "addPageTags tags (pg_tags p) = (full, tags1)" by fastforce
  have ok: "catalogue_ok tags1" "\<not> full \<longrightarrow> length tags1 < maxRegistryTags"
    using addPageTags_ok [OF cat add] by auto
  show ?thesis
  proof (cases "full \<or> pg_next p = []")
    case True
    then show ?thesis using pages_ok_end(2) [OF s1 k ok(1)] by (cases full) (simp_all add: add)
  next
    case False
    have "pages_ok trusted k log (cont u tags1)" if "url_scheme u = ''https''" "url_host u = ref_registry ref" for u
      using pages_ok_after [OF s1 more] that ok False k by simp
    then show ?thesis using False pages_ok_end(1) [OF s1 k] by (auto simp: add split: option.split)
  qed
qed

lemma tagPages_bounded:
  assumes env: "forwards_within env trusted" "trusted (ref_registry ref)"
    and u: "url_scheme u = ''https''" "url_host u = ref_registry ref"
    and cat: "catalogue_ok tags" "length tags < maxRegistryTags"
  shows "pages_ok trusted (page_budget page auth) log (tagPages env ref page u auth tags log)"
  using u cat
proof (induction "2 * (maxRegistryTagPages - page) + (if auth = [] then 1 else 0 :: nat)"
    arbitrary: page u auth tags log rule: less_induct)
  case less
  note eq = tagPages.simps [of env ref page u auth tags log]
  show ?case
  proof (cases "page < maxRegistryTagPages")
    case False
    then show ?thesis using less.prems pages_ok_end(2) [OF sends_refl le0] unfolding eq by simp
  next
    case page: True
    then have b: "3 \<le> page_budget page auth" by (auto simp: page_budget_def)
    obtain r1 l1 where q1: "requestRegistryTagsPage env log u auth = (r1, l1)" by fastforce
    have s1: "sends (allowed trusted) 3 log l1"
      using requestRegistryTagsPage_sends [OF env(1) less.prems(1), of auth log] env(2) less.prems(2) q1 by simp
    have again: "pages_ok trusted (page_budget page auth) log (tagPages env ref page u (''Bearer '' @ token) tags l2)"
      if "auth = []" "sends (allowed trusted) 3 l1 l2" for token l2
    proof (rule pages_ok_after [OF sends_trans [OF s1 that(2)]])
      show "pages_ok trusted (page_budget page (''Bearer '' @ token)) l2 (tagPages env ref page u (''Bearer '' @ token) tags l2)"
        by (rule less.hyps) (use that less.prems in auto)
    qed (simp add: page_budget_def that)
    have tok: "sends (allowed trusted) 3 l1 (snd (anonymousBearerToken TagClient env l1 ch (ref_repo ref)))" for ch
      by (rule anonymousBearerToken_sends [OF env(1)])
    have next_page: "pages_ok trusted (page_budget page auth - 3) l1 (tagPages env ref (Suc page) u' auth tags1 l1)"
      if "url_scheme u' = ''https''" "url_host u' = ref_registry ref" "catalogue_ok tags1" "length tags1 < maxRegistryTags"
      for u' tags1
    proof -
      have "page_budget page auth - 3 = page_budget (Suc page) auth" using page by (auto simp: page_budget_def)
      moreover have "pages_ok trusted (page_budget (Suc page) auth) l1 (tagPages env ref (Suc page) u' auth tags1 l1)"
        by (rule less.hyps) (use page that in auto)
      ultimately show ?thesis by simp
    qed
    have retry: "pages_ok trusted (page_budget page auth) log
        (case anonymousBearerToken TagClient env l1 ch (ref_repo ref) of
           (Inl e, log2) \<Rightarrow> (Inl e, log2)
         | (Inr token, log2) \<Rightarrow> tagPages env ref page u (''Bearer '' @ token) tags log2)" if "auth = []" for ch
      using tok [of ch] again [OF that] pages_ok_end(1) [OF sends_trans [OF s1]] that
      by (fastforce simp: page_budget_def split: prod.split sum.split)
    show ?thesis
      using page pages_ok_end(1) [OF s1 b] retry pages_ok_page [OF s1 b less.prems(3,4) next_page]
      unfolding eq q1 by (auto split: sum.split)
  qed
qed

text \<open>
  C37: the tag catalogue of a repository is bounded whatever the registry answers.  Fetching it
  terminates after at most 36 requests (ten pages, one repeated after the token, and the
  token, three hops each), all over HTTPS and with the token confined to the registry and the
  hosts credentials are forwarded to; an error is returned as such, and a catalogue has at
  most 1000 tags, distinct, trimmed and not empty.
\<close>

theorem RegistryTags_bounded:
  assumes "trusted (ref_registry ref)" and "forwards_within env trusted"
    and "RegistryTags env log ref = (result, log')"
  shows "sends (allowed trusted) 36 log log' \<and> (\<forall>tags. result = Inr tags \<longrightarrow> catalogue_ok tags)"
proof -
  let ?u = "\<lparr>url_scheme = ''https'', url_host = ref_registry ref,
    url_path = ''/v2/'' @ escapeRepositoryPath (ref_repo ref) @ ''/tags/list'', url_query = [(''n'', ''100'')]\<rparr>"
  have "pages_ok trusted (page_budget 0 []) log (tagPages env ref 0 ?u [] [] log)"
    by (rule tagPages_bounded [OF assms(2,1)]) (simp_all add: catalogue_ok_def maxRegistryTags_def)
  then show ?thesis using assms(3)
    by (simp add: RegistryTags_def registryTagsWithClient_def pages_ok_def page_budget_def maxRegistryTagPages_def)
qed

text \<open>A registry with a two-page catalogue that asks for a token first.\<close>

definition catalogue_env :: http_env where
  "catalogue_env =
     \<lparr>env_exchange = (\<lambda>log req.
        if length log = 0 then Response \<lparr>resp_status = 401,
          resp_headers = [(''WWW-Authenticate'', ''Bearer realm='' @ [CHR 0x22] @ ''r'' @ [CHR 0x22])], resp_body = []\<rparr>
        else if length log = 1 then Response \<lparr>resp_status = 200, resp_headers = [], resp_body = ''t''\<rparr>
        else if length log = 2 then Response \<lparr>resp_status = 200, resp_headers = [(''Link'', ''</p2>; rel=next'')], resp_body = ''1''\<rparr>
        else Response \<lparr>resp_status = 200, resp_headers = [], resp_body = ''2''\<rparr>),
      env_forwards_auth = (\<lambda>a b. a = b),
      env_url_parse = (\<lambda>_. Some \<lparr>url_scheme = ''https'', url_host = ''auth.org'', url_path = [], url_query = []\<rparr>),
      env_url_resolve = (\<lambda>u s. Some (u\<lparr>url_path := s\<rparr>)),
      env_json_token = (\<lambda>s. Inr (s, [])),
      env_json_tags = (\<lambda>s. Inr [s @ ''.0'', '' 1.0 '', ''''])\<rparr>"

theorem RegistryTags_bounded_witness:
  "\<exists>log'. RegistryTags catalogue_env [] \<lparr>ref_registry = ''example.org'', ref_repo = ''app'', ref_tag = ''1''\<rparr> =
     (Inr [''1.0'', ''2.0''], log') \<and> length log' = 4 \<and> sends (allowed (\<lambda>h. h = ''example.org'')) 36 [] log'"
proof -
  let ?ref = "\<lparr>ref_registry = ''example.org'', ref_repo = ''app'', ref_tag = ''1''\<rparr>"
  define out where "out = RegistryTags catalogue_env [] ?ref"
  have r: "fst out = Inr [''1.0'', ''2.0''] \<and> length (snd out) = 4"
    unfolding out_def by code_simp
  have "forwards_within catalogue_env (\<lambda>h. h = ''example.org'')"
    by (simp add: forwards_within_def catalogue_env_def)
  from RegistryTags_bounded [OF _ this, of ?ref "[]" "fst out" "snd out"]
  have "sends (allowed (\<lambda>h. h = ''example.org'')) 36 [] (snd out)" by (simp add: out_def)
  then show ?thesis using r unfolding out_def by (metis prod.collapse)
qed

subsection \<open>The shared cache\<close>

text \<open>
  \<open>RegistryVersionDiscovery\<close>.  A fetch in flight is a \<open>versionInflight\<close> object on a heap,
  named by its address; \<^verbatim>\<open>inf_result\<close> is set when the channel \<open>done\<close> is closed.  The two
  sections of \<open>tags\<close> that hold the mutex are \<open>tagsLookup\<close> and \<open>tagsFinish\<close>; between them
  other goroutines run.
\<close>

record versionCacheEntry =
  vce_tags :: "string list"
  vce_expiresAt :: gotime

record versionInflight =
  inf_result :: "(string + string list) option"

record discovery =
  vd_ttl :: duration
  vd_cache :: "(string, versionCacheEntry) gomap"
  vd_inflight :: "(string, nat) gomap"
  vd_heap :: "versionInflight list"

definition NewRegistryVersionDiscovery :: "duration \<Rightarrow> discovery" where
  "NewRegistryVersionDiscovery ttl =
     \<lparr>vd_ttl = (if ttl \<le> 0 then 6 * hour else ttl), vd_cache = [], vd_inflight = [], vd_heap = []\<rparr>"

datatype lookup_result =
  Cached "string list"
| Pending nat
| Started nat

definition repositoryKey :: "registryImageReference \<Rightarrow> string" where
  "repositoryKey ref = ref_registry ref @ ''/'' @ ref_repo ref"

definition tagsLookup :: "gotime \<Rightarrow> string \<Rightarrow> discovery \<Rightarrow> lookup_result \<times> discovery" where
  "tagsLookup now key d =
     (let started = (Started (length (vd_heap d)),
                     d\<lparr>vd_inflight := AList.update key (length (vd_heap d)) (vd_inflight d),
                       vd_heap := vd_heap d @ [\<lparr>inf_result = None\<rparr>]\<rparr>);
          miss = (case map_of (vd_inflight d) key of
                    Some p \<Rightarrow> (Pending p, d)
                  | None \<Rightarrow> started)
      in case map_of (vd_cache d) key of
           Some entry \<Rightarrow> if now < vce_expiresAt entry then (Cached (vce_tags entry), d) else miss
         | None \<Rightarrow> miss)"

definition tagsFinish :: "gotime \<Rightarrow> string \<Rightarrow> nat \<Rightarrow> string + string list \<Rightarrow> discovery \<Rightarrow> discovery" where
  "tagsFinish now key p result d =
     (let evicted = (if \<not> isl result \<and> length (vd_cache d) \<ge> 256 then tl (vd_cache d) else vd_cache d);
          cache = (case result of
                     Inl _ \<Rightarrow> evicted
                   | Inr tags \<Rightarrow> AList.update key \<lparr>vce_tags = tags, vce_expiresAt = now + vd_ttl d\<rparr> evicted)
      in d\<lparr>vd_cache := cache, vd_inflight := AList.delete key (vd_inflight d),
           vd_heap := (vd_heap d)[p := \<lparr>inf_result = Some result\<rparr>]\<rparr>)"

text \<open>
  \<open>tags\<close> as one call sees it: \<^verbatim>\<open>peer\<close> is what another goroutine's fetch delivers when the
  call joins it.
\<close>

definition discoveryTags ::
  "http_env \<Rightarrow> (nat \<Rightarrow> string + string list) \<Rightarrow> gotime \<Rightarrow> registryImageReference \<Rightarrow> discovery \<times> http_request list \<Rightarrow>
     (string + string list) \<times> discovery \<times> http_request list" where
  "discoveryTags env peer now ref st =
     (let (d, log) = st; key = repositoryKey ref in
      case tagsLookup now key d of
        (Cached ts, d1) \<Rightarrow> (Inr ts, d1, log)
      | (Pending p, d1) \<Rightarrow> (peer p, d1, log)
      | (Started p, d1) \<Rightarrow>
          let (result, log1) = RegistryTags env log ref
          in (result, tagsFinish now key p result d1, log1))"

text \<open>
  Concurrent callers of \<open>tags\<close>.  A call is fetching, waiting for another call's fetch, or
  has returned; the steps are the two locked sections, the closed channel seen by a waiting
  call, and the cancellation of its context.
\<close>

datatype tags_call =
  Fetching string nat gotime
| Waiting nat
| Returned "string + string list"

fun begin_call :: "gotime \<Rightarrow> string \<Rightarrow> lookup_result \<Rightarrow> tags_call" where
  "begin_call now key (Cached ts) = Returned (Inr ts)"
| "begin_call now key (Pending p) = Waiting p"
| "begin_call now key (Started p) = Fetching key p now"

record tag_system =
  ts_disc :: discovery
  ts_calls :: "tags_call list"

inductive tags_step :: "tag_system \<Rightarrow> tag_system \<Rightarrow> bool" where
  call: "tagsLookup now key d = (l, d') \<Longrightarrow>
     tags_step \<lparr>ts_disc = d, ts_calls = cs\<rparr> \<lparr>ts_disc = d', ts_calls = cs @ [begin_call now key l]\<rparr>"
| finish: "i < length cs \<Longrightarrow> cs ! i = Fetching key p now \<Longrightarrow>
     tags_step \<lparr>ts_disc = d, ts_calls = cs\<rparr> \<lparr>ts_disc = tagsFinish now key p r d, ts_calls = cs[i := Returned r]\<rparr>"
| wake: "i < length cs \<Longrightarrow> cs ! i = Waiting p \<Longrightarrow> p < length (vd_heap d) \<Longrightarrow> inf_result (vd_heap d ! p) = Some r \<Longrightarrow>
     tags_step \<lparr>ts_disc = d, ts_calls = cs\<rparr> \<lparr>ts_disc = d, ts_calls = cs[i := Returned r]\<rparr>"
| cancel: "i < length cs \<Longrightarrow> cs ! i = Waiting p \<Longrightarrow>
     tags_step \<lparr>ts_disc = d, ts_calls = cs\<rparr> \<lparr>ts_disc = d, ts_calls = cs[i := Returned (Inl e)]\<rparr>"

inductive_cases tags_stepE: "tags_step s s'"

fun fetch_of :: "tags_call \<Rightarrow> (string \<times> nat) multiset" where
  "fetch_of (Fetching k p n) = {#(k, p)#}"
| "fetch_of (Waiting p) = {#}"
| "fetch_of (Returned r) = {#}"

definition fetches :: "tags_call list \<Rightarrow> (string \<times> nat) multiset" where
  "fetches cs = (\<Sum>c \<leftarrow> cs. fetch_of c)"

definition waiting :: "tags_call list \<Rightarrow> nat set" where
  "waiting cs = {p. Waiting p \<in> set cs}"

text \<open>
  The invariant: the fetches in flight are exactly the running ones, one per repository and
  one per pending object, none of them delivered; and whoever waits does so for a delivered
  object or a running fetch.
\<close>

definition tags_inv :: "tag_system \<Rightarrow> bool" where
  "tags_inv s \<longleftrightarrow>
     (let d = ts_disc s; cs = ts_calls s in
      gomap_ok (vd_cache d) \<and> length (vd_cache d) \<le> 256 \<and>
      gomap_ok (vd_inflight d) \<and> distinct (map snd (vd_inflight d)) \<and>
      fetches cs = mset (vd_inflight d) \<and>
      (\<forall>p \<in> snd ` set (vd_inflight d). p < length (vd_heap d) \<and> inf_result (vd_heap d ! p) = None) \<and>
      (\<forall>p \<in> waiting cs. p < length (vd_heap d) \<and>
         (inf_result (vd_heap d ! p) \<noteq> None \<or> p \<in> snd ` set (vd_inflight d))))"

lemma fetches_append [simp]: "fetches (cs @ [c]) = fetches cs + fetch_of c"
  by (simp add: fetches_def)

lemma fetches_upd: "i < length cs \<Longrightarrow> fetches (cs[i := c]) + fetch_of (cs ! i) = fetches cs + fetch_of c"
  by (induction cs arbitrary: i) (auto simp: fetches_def nth_Cons ac_simps split: nat.splits)

lemma waiting_append: "waiting (cs @ [c]) = waiting cs \<union> {p. c = Waiting p}"
  by (auto simp: waiting_def)

lemma waiting_upd: "waiting (cs[i := Returned r]) \<subseteq> waiting cs"
  by (auto simp: waiting_def dest: set_update_subset_insert [THEN subsetD])

lemma mset_update_new: "map_of m k = None \<Longrightarrow> mset (AList.update k v m) = add_mset (k, v) (mset m)"
  by (induction m) auto

lemma mset_delete_present: "gomap_ok m \<Longrightarrow> (k, v) \<in> set m \<Longrightarrow> add_mset (k, v) (mset (AList.delete k m)) = mset m"
proof (induction m)
  case (Cons e m)
  have "AList.delete k m = m" if "fst e = k" using Cons.prems that
    by (intro delete_id) (auto simp: gomap_ok_def)
  with Cons show ?case by (cases e) (auto simp: gomap_ok_def rev_image_eqI)
qed simp

lemma tags_inv_call:
  assumes inv: "tags_inv \<lparr>ts_disc = d, ts_calls = cs\<rparr>" and l: "tagsLookup now key d = (l, d')"
  shows "tags_inv \<lparr>ts_disc = d', ts_calls = cs @ [begin_call now key l]\<rparr>"
proof (cases l)
  case (Cached ts)
  then have "d' = d" using l by (auto simp: tagsLookup_def Let_def split: option.splits if_splits)
  then show ?thesis using inv Cached by (simp add: tags_inv_def Let_def waiting_append)
next
  case (Pending p)
  then have "d' = d" "map_of (vd_inflight d) key = Some p"
    using l by (auto simp: tagsLookup_def Let_def split: option.splits if_splits)
  moreover from this have "p \<in> snd ` set (vd_inflight d)" by (force dest: map_of_SomeD)
  ultimately show ?thesis using inv Pending by (auto simp: tags_inv_def Let_def waiting_append)
next
  case (Started q)
  let ?p = "length (vd_heap d)"
  let ?m = "AList.update key ?p (vd_inflight d)"
  have q: "q = ?p" and none: "map_of (vd_inflight d) key = None"
    and d': "d' = d\<lparr>vd_inflight := ?m, vd_heap := vd_heap d @ [\<lparr>inf_result = None\<rparr>]\<rparr>"
    using l Started by (auto simp: tagsLookup_def Let_def split: option.splits if_splits)
  have m: "mset ?m = add_mset (key, ?p) (mset (vd_inflight d))" using none by (rule mset_update_new)
  then have set: "set ?m = insert (key, ?p) (set (vd_inflight d))" by (metis set_mset_add_mset_insert set_mset_mset)
  have "mset (map snd ?m) = mset (?p # map snd (vd_inflight d))" using m by (simp add: mset_map)
  then have "distinct (map snd ?m) \<longleftrightarrow> distinct (?p # map snd (vd_inflight d))" by (rule mset_eq_imp_distinct_iff)
  moreover have "?p \<notin> snd ` set (vd_inflight d)" using inv by (auto simp: tags_inv_def Let_def)
  ultimately show ?thesis using inv
    by (auto simp: d' q Started tags_inv_def Let_def waiting_append nth_append set m gm.ok_put)
qed

lemma tagsFinish_cache:
  assumes c: "gomap_ok (vd_cache d)" "length (vd_cache d) \<le> 256"
  shows "gomap_ok (vd_cache (tagsFinish now key p r d)) \<and> length (vd_cache (tagsFinish now key p r d)) \<le> 256"
proof -
  have t: "gomap_ok (tl (vd_cache d))" using c(1) by (cases "vd_cache d") (simp_all add: gomap_ok_def)
  have u: "length (AList.update key e m) \<le> Suc (length m)" for e :: versionCacheEntry and m
    by (simp add: gomap_len_put)
  show ?thesis
  proof (cases r)
    case (Inr ts)
    show ?thesis
    proof (cases "length (vd_cache d) \<ge> 256")
      case True
      then show ?thesis using c t u [of _ "tl (vd_cache d)"] Inr
        by (simp add: tagsFinish_def Let_def gm.ok_put)
    next
      case False
      have "length (AList.update key e (vd_cache d)) \<le> 256" for e
        using False u [of e "vd_cache d"] by linarith
      then show ?thesis using False c Inr by (simp add: tagsFinish_def Let_def gm.ok_put)
    qed
  qed (use c in \<open>simp add: tagsFinish_def\<close>)
qed

lemma tags_inv_finish:
  assumes inv: "tags_inv \<lparr>ts_disc = d, ts_calls = cs\<rparr>" and i: "i < length cs" "cs ! i = Fetching key p now"
  shows "tags_inv \<lparr>ts_disc = tagsFinish now key p r d, ts_calls = cs[i := Returned r]\<rparr>"
proof -
  let ?d = "tagsFinish now key p r d"
  define m where m: "m = AList.delete key (vd_inflight d)"
  have ok: "gomap_ok (vd_inflight d)" "distinct (map snd (vd_inflight d))" "fetches cs = mset (vd_inflight d)"
    using inv by (simp_all add: tags_inv_def Let_def)
  have f: "add_mset (key, p) (fetches (cs[i := Returned r])) = mset (vd_inflight d)"
    using fetches_upd [OF i(1), of "Returned r"] i(2) ok(3) by simp
  have "(key, p) \<in># add_mset (key, p) (fetches (cs[i := Returned r]))" by simp
  then have "(key, p) \<in> set (vd_inflight d)" unfolding f by simp
  then have del: "mset (vd_inflight d) = add_mset (key, p) (mset m)" using mset_delete_present [OF ok(1)] by (simp add: m)
  then have set: "set (vd_inflight d) = insert (key, p) (set m)" by (metis set_mset_add_mset_insert set_mset_mset)
  have "mset (map snd (vd_inflight d)) = mset (p # map snd m)" using del by (simp add: mset_map)
  from mset_eq_imp_distinct_iff [OF this] have "distinct (p # map snd m)" using ok(2) by simp
  then have p: "p \<notin> snd ` set m" "distinct (map snd m)" by auto
  have cache: "gomap_ok (vd_cache ?d) \<and> length (vd_cache ?d) \<le> 256"
    using inv by (intro tagsFinish_cache) (simp_all add: tags_inv_def Let_def)
  have fields: "vd_inflight ?d = m" "vd_heap ?d = (vd_heap d)[p := \<lparr>inf_result = Some r\<rparr>]"
    by (simp_all add: tagsFinish_def Let_def m)
  have h0: "\<forall>q \<in> snd ` set (vd_inflight d). q < length (vd_heap d) \<and> inf_result (vd_heap d ! q) = None"
    and w0: "\<forall>q \<in> waiting cs. q < length (vd_heap d) \<and>
      (inf_result (vd_heap d ! q) \<noteq> None \<or> q \<in> snd ` set (vd_inflight d))"
    using inv by (simp_all add: tags_inv_def Let_def)
  have h: "\<forall>q \<in> snd ` set m. q < length (vd_heap ?d) \<and> inf_result (vd_heap ?d ! q) = None"
    using h0 p(1) by (auto simp: set fields nth_list_update)
  have w: "\<forall>q \<in> waiting (cs[i := Returned r]). q < length (vd_heap ?d) \<and>
      (inf_result (vd_heap ?d ! q) \<noteq> None \<or> q \<in> snd ` set m)"
  proof
    fix q assume "q \<in> waiting (cs[i := Returned r])"
    then have "q \<in> waiting cs" using waiting_upd by blast
    then show "q < length (vd_heap ?d) \<and> (inf_result (vd_heap ?d ! q) \<noteq> None \<or> q \<in> snd ` set m)"
      using w0 by (cases "q = p") (auto simp: fields set)
  qed
  have "fetches (cs[i := Returned r]) = mset m" using f del by simp
  then show ?thesis using cache p(2) ok(1) h w gm.ok_del [OF ok(1), of key, folded m] by (simp add: tags_inv_def Let_def fields(1))
qed

lemma tags_inv_return:
  assumes "tags_inv \<lparr>ts_disc = d, ts_calls = cs\<rparr>" "i < length cs" "cs ! i = Waiting p"
  shows "tags_inv \<lparr>ts_disc = d, ts_calls = cs[i := Returned r]\<rparr>"
  using assms fetches_upd [of i cs "Returned r"] waiting_upd [of cs i r]
  by (auto simp: tags_inv_def Let_def)

lemma tags_inv_step: "tags_step s s' \<Longrightarrow> tags_inv s \<Longrightarrow> tags_inv s'"
  by (erule tags_stepE) (auto intro: tags_inv_call tags_inv_finish tags_inv_return)

lemma tags_inv_reachable:
  "tags_step\<^sup>*\<^sup>* \<lparr>ts_disc = NewRegistryVersionDiscovery ttl, ts_calls = []\<rparr> s \<Longrightarrow> tags_inv s"
proof (induction rule: rtranclp_induct)
  case base
  show ?case by (simp add: tags_inv_def NewRegistryVersionDiscovery_def fetches_def waiting_def)
qed (rule tags_inv_step)

lemma fetches_member: "(k, p) \<in># fetches cs \<longleftrightarrow> (\<exists>i n. i < length cs \<and> cs ! i = Fetching k p n)"
proof -
  have "(k, p) \<in># fetch_of c \<longleftrightarrow> (\<exists>n. c = Fetching k p n)" for c by (cases c) auto
  then have "(k, p) \<in># fetches cs \<longleftrightarrow> (\<exists>n. Fetching k p n \<in> set cs)"
    unfolding fetches_def by (induction cs) auto
  then show ?thesis by (metis in_set_conv_nth)
qed

lemma fetches_two:
  assumes "i < j" "j < length cs" "cs ! i = Fetching k p n" "cs ! j = Fetching k p' n'"
  shows "2 \<le> size (filter_mset (\<lambda>e. fst e = k) (fetches cs))"
proof -
  define a b c where "a = take i cs" "b = take (j - Suc i) (drop (Suc i) cs)" "c = drop (Suc j) cs"
  have "cs = take i cs @ cs ! i # drop (Suc i) cs" using assms(1,2) by (intro id_take_nth_drop) simp
  also have "drop (Suc i) cs = take (j - Suc i) (drop (Suc i) cs) @ cs ! j # drop (Suc j) cs"
    using assms id_take_nth_drop [of "j - Suc i" "drop (Suc i) cs"] by (simp add: add.commute)
  finally have "cs = a @ Fetching k p n # b @ Fetching k p' n' # c" using assms unfolding a_b_c_def by simp
  then show ?thesis by (simp add: fetches_def)
qed

text \<open>
  concurrent tag lookups share their work safely.  In every reachable state of any number
  of callers, at most one fetch runs per repository, the cache holds at most 256 repositories,
  and no caller is stuck: the result it waits for has been delivered or the fetch that will
  deliver it is running.
\<close>

theorem tags_shared_fetch:
  assumes "tags_step\<^sup>*\<^sup>* \<lparr>ts_disc = NewRegistryVersionDiscovery ttl, ts_calls = []\<rparr> \<lparr>ts_disc = d, ts_calls = cs\<rparr>"
  shows "length (vd_cache d) \<le> 256 \<and>
    (\<forall>i j k p n p' n'. i < length cs \<longrightarrow> j < length cs \<longrightarrow>
       cs ! i = Fetching k p n \<longrightarrow> cs ! j = Fetching k p' n' \<longrightarrow> i = j) \<and>
    (\<forall>i p. i < length cs \<longrightarrow> cs ! i = Waiting p \<longrightarrow>
       (\<exists>r. inf_result (vd_heap d ! p) = Some r) \<or> (\<exists>j k n. j < length cs \<and> cs ! j = Fetching k p n))"
proof (intro conjI allI impI)
  have inv: "tags_inv \<lparr>ts_disc = d, ts_calls = cs\<rparr>" using assms by (rule tags_inv_reachable)
  then show "length (vd_cache d) \<le> 256" by (simp add: tags_inv_def Let_def)
  have ok: "gomap_ok (vd_inflight d)" and f: "fetches cs = mset (vd_inflight d)"
    using inv by (simp_all add: tags_inv_def Let_def)
  fix i j k p n p' n'
  assume ij: "i < length cs" "j < length cs" "cs ! i = Fetching k p n" "cs ! j = Fetching k p' n'"
  have "length (filter (\<lambda>e. fst e = k) (vd_inflight d)) \<le> 1"
    using ok by (rule gomap_filter_key)
  then have "size (filter_mset (\<lambda>e. fst e = k) (fetches cs)) \<le> 1"
    unfolding f by (metis mset_filter size_mset)
  then show "i = j" using fetches_two [of i j cs k] fetches_two [of j i cs k] ij by (meson leD linorder_neqE_nat one_less_numeral_iff order_le_less_trans semiring_norm(76))
next
  have inv: "tags_inv \<lparr>ts_disc = d, ts_calls = cs\<rparr>" using assms by (rule tags_inv_reachable)
  fix i p assume i: "i < length cs" "cs ! i = Waiting p"
  then have "p \<in> waiting cs" using nth_mem [of i cs] by (simp add: waiting_def)
  then have "inf_result (vd_heap d ! p) \<noteq> None \<or> p \<in> snd ` set (vd_inflight d)"
    using inv by (simp add: tags_inv_def Let_def)
  moreover have "\<exists>k. (k, p) \<in># fetches cs" if "p \<in> snd ` set (vd_inflight d)"
    using that inv by (auto simp: tags_inv_def Let_def)
  ultimately show "(\<exists>r. inf_result (vd_heap d ! p) = Some r) \<or> (\<exists>j k n. j < length cs \<and> cs ! j = Fetching k p n)"
    unfolding fetches_member by blast
qed

theorem tags_shared_fetch_witness:
  "\<exists>d. tags_step\<^sup>*\<^sup>* \<lparr>ts_disc = NewRegistryVersionDiscovery 0, ts_calls = []\<rparr>
        \<lparr>ts_disc = d, ts_calls = [Fetching ''r/app'' 0 5, Waiting 0]\<rparr> \<and> length (vd_cache d) \<le> 256"
proof -
  let ?d0 = "NewRegistryVersionDiscovery 0"
  obtain d1 where l1: "tagsLookup 5 ''r/app'' ?d0 = (Started 0, d1)"
    and d1: "vd_inflight d1 = [(''r/app'', 0)]" "vd_cache d1 = []"
    by (simp add: tagsLookup_def NewRegistryVersionDiscovery_def)
  have l2: "tagsLookup 7 ''r/app'' d1 = (Pending 0, d1)" using d1 by (simp add: tagsLookup_def)
  have "tags_step \<lparr>ts_disc = ?d0, ts_calls = []\<rparr> \<lparr>ts_disc = d1, ts_calls = [Fetching ''r/app'' 0 5]\<rparr>"
    using tags_step.call [OF l1, of "[]"] by simp
  moreover have "tags_step \<lparr>ts_disc = d1, ts_calls = [Fetching ''r/app'' 0 5]\<rparr>
     \<lparr>ts_disc = d1, ts_calls = [Fetching ''r/app'' 0 5, Waiting 0]\<rparr>"
    using tags_step.call [OF l2, of "[Fetching ''r/app'' 0 5]"] by simp
  ultimately have r: "tags_step\<^sup>*\<^sup>* \<lparr>ts_disc = ?d0, ts_calls = []\<rparr>
      \<lparr>ts_disc = d1, ts_calls = [Fetching ''r/app'' 0 5, Waiting 0]\<rparr>"
    by (meson r_into_rtranclp rtranclp.rtrancl_into_rtrancl)
  from tags_shared_fetch [OF this] r show ?thesis by blast
qed

subsection \<open>Discovery\<close>

record VersionDiscoveryTarget =
  vt_ContainerID :: string
  vt_Image :: string
  vt_Policy :: string
  vt_AllowPrerelease :: bool

record VersionDiscoveryResult =
  vr_ContainerID :: string
  vr_CurrentTag :: string
  vr_LatestTag :: string
  vr_Policy :: string
  vr_Available :: bool
  vr_Reason :: string

text \<open>The catalogue lookup is the argument \<^verbatim>\<open>lookup\<close>, so the state it threads is opaque here.\<close>

definition discoverOne ::
  "(registryImageReference \<Rightarrow> 's \<Rightarrow> (string + string list) \<times> 's) \<Rightarrow> VersionDiscoveryTarget \<Rightarrow> 's \<Rightarrow> VersionDiscoveryResult \<times> 's" where
  "discoverOne lookup target st =
     (let result = \<lparr>vr_ContainerID = vt_ContainerID target, vr_CurrentTag = [], vr_LatestTag = [],
                    vr_Policy = vt_Policy target, vr_Available = False, vr_Reason = []\<rparr> in
      case parseRegistryImageReference (vt_Image target) of
        Inl e \<Rightarrow> (result\<lparr>vr_Reason := e\<rparr>, st)
      | Inr ref \<Rightarrow>
          (let result = result\<lparr>vr_CurrentTag := ref_tag ref\<rparr> in
           case parseVersionTag (ref_tag ref) of
            None \<Rightarrow> (result\<lparr>vr_Reason := ''current tag is not a comparable semantic version''\<rparr>, st)
          | Some current \<Rightarrow>
              (case lookup ref st of
                 (Inl e, st1) \<Rightarrow> (result\<lparr>vr_Reason := ''version catalog: '' @ e\<rparr>, st1)
               | (Inr ts, st1) \<Rightarrow>
                   (case newestAllowedTag current ts (vt_Policy target) (vt_AllowPrerelease target) of
                      None \<Rightarrow> (result\<lparr>vr_Reason := ''no newer matching version tag''\<rparr>, st1)
                    | Some latest \<Rightarrow>
                        (result\<lparr>vr_LatestTag := raw latest, vr_Available := True,
                                vr_Reason := ''newer '' @ vt_Policy target @ '' version tag available''\<rparr>, st1)))))"

text \<open>
  \<open>Discover\<close> writes result \<^verbatim>\<open>i\<close> from target \<^verbatim>\<open>i\<close>.  The workers take the targets from a
  channel in index order; the model runs them in that order, and \<^verbatim>\<open>lookup\<close> may answer each
  target differently, as it does when workers interleave.
\<close>

fun Discover ::
  "(registryImageReference \<Rightarrow> 's \<Rightarrow> (string + string list) \<times> 's) \<Rightarrow> VersionDiscoveryTarget list \<Rightarrow> 's \<Rightarrow>
     VersionDiscoveryResult list \<times> 's" where
  "Discover lookup [] st = ([], st)"
| "Discover lookup (t # ts) st =
     (let (r, st1) = discoverOne lookup t st; (rs, st2) = Discover lookup ts st1 in (r # rs, st2))"

lemma discoverOne_id: "vr_ContainerID (fst (discoverOne lookup t st)) = vt_ContainerID t"
  by (simp add: discoverOne_def Let_def split: sum.split option.split prod.split)

lemma Discover_results:
  "length (fst (Discover lookup ts st)) = length ts \<and>
   (\<forall>i < length ts. \<exists>st'. fst (Discover lookup ts st) ! i = fst (discoverOne lookup (ts ! i) st'))"
proof (induction ts arbitrary: st)
  case (Cons t ts)
  obtain r st1 where r: "discoverOne lookup t st = (r, st1)" by fastforce
  then show ?case using Cons [of st1]
    by (auto simp: Let_def nth_Cons split: prod.split nat.split) (metis fst_conv)
qed simp

lemma parseVersionTag_raw: "parseVersionTag v = Some t \<Longrightarrow> parseVersionTag (raw t) = Some t"
  by (auto simp: parseVersionTag_def split: option.splits prod.splits)

lemma discoverOne_available:
  assumes "vr_Available (fst (discoverOne lookup target st))"
  obtains ref current ts latest where
    "parseRegistryImageReference (vt_Image target) = Inr ref" "parseVersionTag (ref_tag ref) = Some current"
    "fst (lookup ref st) = Inr ts"
    "newestAllowedTag current ts (vt_Policy target) (vt_AllowPrerelease target) = Some latest"
    "vr_LatestTag (fst (discoverOne lookup target st)) = raw latest"
    "vr_CurrentTag (fst (discoverOne lookup target st)) = ref_tag ref"
  using assms
  by (auto simp: discoverOne_def Let_def split: sum.splits option.splits prod.splits)

lemma newestAllowedTag_eligible:
  assumes "newestAllowedTag current ts policy pre = Some t"
  shows "eligibleTag current policy pre t \<and> (\<exists>v \<in> set ts. parseVersionTag v = Some t)"
proof -
  have "t \<in> (\<Union>v \<in> set ts. set_option (eligible_parse current policy pre v))"
    using newestAllowedTag_is_max [of current ts policy pre] assms by (simp add: ver.is_max_def)
  then show ?thesis by (auto simp: eligible_parse_Some)
qed

text \<open>
  discovery answers every target in its place, and never reports a version update that is
  not one: an available update carries a tag that parses as a version strictly newer than the
  running tag, under one of the three version policies, and a pre-release only if the target
  allows it.  This holds for whatever the catalogue lookup answers.
\<close>

theorem Discover_sound:
  assumes "i < length targets" and "results = fst (Discover lookup targets st)"
  shows "length results = length targets \<and> vr_ContainerID (results ! i) = vt_ContainerID (targets ! i) \<and>
    (vr_Available (results ! i) \<longrightarrow>
      (\<exists>current latest. parseVersionTag (vr_CurrentTag (results ! i)) = Some current \<and>
         parseVersionTag (vr_LatestTag (results ! i)) = Some latest \<and>
         version_key current < version_key latest \<and>
         vt_Policy (targets ! i) \<in> {VersionPolicyPatch, VersionPolicyMinor, VersionPolicyMajor} \<and>
         (\<not> vt_AllowPrerelease (targets ! i) \<longrightarrow> prerelease latest = [])))"
proof -
  obtain st' where r: "results ! i = fst (discoverOne lookup (targets ! i) st')"
    using Discover_results [of lookup targets st] assms by blast
  have "\<exists>current latest. parseVersionTag (vr_CurrentTag (results ! i)) = Some current \<and>
         parseVersionTag (vr_LatestTag (results ! i)) = Some latest \<and>
         eligibleTag current (vt_Policy (targets ! i)) (vt_AllowPrerelease (targets ! i)) latest"
    if "vr_Available (results ! i)"
    using that unfolding r
    by (rule discoverOne_available) (use newestAllowedTag_eligible parseVersionTag_raw in fastforce)
  then show ?thesis using Discover_results [of lookup targets st] assms discoverOne_id
    by (fastforce simp: r eligibleTag_def ver.cmp_le not_le versionPolicyAllows_def split: if_splits)
qed

theorem Discover_sound_witness:
  "vr_Available (fst (Discover (\<lambda>_ st. (Inr [''1.1'', ''2.0''], st))
      [\<lparr>vt_ContainerID = ''c'', vt_Image = ''nginx:1.0'', vt_Policy = ''minor'', vt_AllowPrerelease = False\<rparr>] ()) ! 0) \<and>
   (\<exists>latest. parseVersionTag ''1.1'' = Some latest \<and> version_key (sampleTag ''1.0'') < version_key latest)"
proof -
  let ?targets = "[\<lparr>vt_ContainerID = ''c'', vt_Image = ''nginx:1.0'', vt_Policy = ''minor'', vt_AllowPrerelease = False\<rparr>]"
  let ?lookup = "\<lambda>_ st. (Inr [''1.1'', ''2.0''], st)"
  define rs where "rs = fst (Discover ?lookup ?targets ())"
  have a: "vr_Available (rs ! 0) \<and> vr_CurrentTag (rs ! 0) = ''1.0'' \<and> vr_LatestTag (rs ! 0) = ''1.1''"
    unfolding rs_def by code_simp
  have p: "parseVersionTag ''1.0'' = Some (sampleTag ''1.0'')" by code_simp
  have "\<exists>latest. parseVersionTag ''1.1'' = Some latest \<and> version_key (sampleTag ''1.0'') < version_key latest"
    using Discover_sound [of 0 ?targets rs ?lookup "()"] a p rs_def by auto
  then show ?thesis using a rs_def by simp
qed

end
