(* ===== verification/Update_Policy.thy ===== *)
theory Update_Policy
  imports Container_Labels Version_Discovery
begin

section \<open>Update policies and the inventory of enrolled containers\<close>

text \<open>
  Models \<open>core/internal/docker/updater/policy.go\<close> and \<open>NormalizeUpdateSchedule\<close> of
  \<open>automation.go\<close>: the table of policies, its validation, and \<open>Inventory\<close>, which decides for
  every container of a host whether Dockman may update it on its own and under which rules.

  The cron parser (a third-party package) is the argument \<^verbatim>\<open>cron\<close>: it gives, for an accepted
  expression, the function from a time to the next firing, with \<open>0\<close> for the zero time.
  A statement of the database may fail; the error is an argument, and inside a transaction it
  leaves the tables unchanged.
\<close>

subsection \<open>Schedules\<close>

type_synonym cron = "string \<Rightarrow> string + (gotime \<Rightarrow> gotime)"

definition DefaultUpdateSchedule :: string where "DefaultUpdateSchedule = ''0 4 * * *''"
definition minimumUpdateScanGap :: duration where "minimumUpdateScanGap = 15 * minute"

definition NormalizeUpdateSchedule :: "cron \<Rightarrow> gotime \<Rightarrow> string \<Rightarrow> string + string" where
  "NormalizeUpdateSchedule cron now s0 =
     (let s1 = TrimSpace s0;
          s = (if s1 = [] then DefaultUpdateSchedule else s1)
      in if length s > 120 \<or> ContainsAny s [CHR 0x0D, CHR 0x0A, CHR 0x00]
         then Inl ''schedule is multiline or too long''
         else case cron s of
           Inl e \<Rightarrow> Inl (''use a standard five-field cron expression: '' @ e)
         | Inr nextFiring \<Rightarrow>
             (let first = nextFiring now; later = nextFiring first in
              if first = 0 \<or> later = 0 \<or> time_sub later first < minimumUpdateScanGap
              then Inl ''automatic image checks cannot run more often than every 15m0s''
              else Inr (Join (Fields s) '' '')))"

subsection \<open>The policy table\<close>

definition UpdateTargetContainer :: string where "UpdateTargetContainer = ''container''"
definition UpdateTargetStack :: string where "UpdateTargetStack = ''stack''"
definition VersionPolicyOff :: string where "VersionPolicyOff = ''off''"

record UpdatePolicy =
  pol_ID :: nat
  pol_CreatedAt :: gotime
  pol_UpdatedAt :: gotime
  pol_Host :: string
  pol_TargetType :: string
  pol_TargetKey :: string
  pol_TargetName :: string
  pol_Enabled :: bool
  pol_Schedule :: string
  pol_RollbackEnabled :: bool
  pol_CleanupEnabled :: bool
  pol_CleanupKeep :: int
  pol_VersionPolicy :: string
  pol_VersionPrerelease :: bool

type_synonym policy_table = "UpdatePolicy list"

definition policy_target :: "UpdatePolicy \<Rightarrow> string \<times> string \<times> string" where
  "policy_target p = (pol_Host p, pol_TargetType p, pol_TargetKey p)"

text \<open>The rows are unique by target, as the index of the table enforces.\<close>

definition policies_ok :: "policy_table \<Rightarrow> bool" where
  "policies_ok ps \<longleftrightarrow> distinct (map policy_target ps) \<and> distinct (map pol_ID ps)"

definition policyList :: "string \<Rightarrow> policy_table \<Rightarrow> UpdatePolicy list" where
  "policyList host ps =
     sort_key (\<lambda>p. (pol_TargetType p, pol_TargetName p)) (filter (\<lambda>p. pol_Host p = host) ps)"

text \<open>
  \<open>INSERT ... ON CONFLICT (host, target_type, target_key) DO UPDATE\<close>: the row of the target
  keeps its id and creation time and takes the other columns of the new one.
\<close>

definition policyUpsert :: "gotime \<Rightarrow> UpdatePolicy \<Rightarrow> policy_table \<Rightarrow> policy_table" where
  "policyUpsert now p ps =
     (if policy_target p \<in> policy_target ` set ps
      then map (\<lambda>q. if policy_target q = policy_target p
                    then p\<lparr>pol_ID := pol_ID q, pol_CreatedAt := pol_CreatedAt q, pol_UpdatedAt := now\<rparr> else q) ps
      else ps @ [p\<lparr>pol_ID := Suc (foldr max (map pol_ID ps) 0), pol_CreatedAt := now, pol_UpdatedAt := now\<rparr>])"

definition policyDelete :: "string \<Rightarrow> string \<Rightarrow> string \<Rightarrow> policy_table \<Rightarrow> policy_table" where
  "policyDelete host targetType targetKey ps =
     filter (\<lambda>p. policy_target p \<noteq> (host, targetType, targetKey)) ps"

record PolicyTargetRef =
  ptr_TargetType :: string
  ptr_TargetKey :: string

definition policyApplyMany ::
  "string option \<Rightarrow> gotime \<Rightarrow> string \<Rightarrow> UpdatePolicy list \<Rightarrow> PolicyTargetRef list \<Rightarrow> policy_table \<Rightarrow> string option \<times> policy_table" where
  "policyApplyMany fault now host policies removals ps =
     (case fault of
        Some e \<Rightarrow> (Some e, ps)
      | None \<Rightarrow>
          let removed = foldl (\<lambda>t r. policyDelete host (ptr_TargetType r) (ptr_TargetKey r) t) ps removals
          in (None, foldl (\<lambda>t p. policyUpsert now p t) removed policies))"

subsection \<open>Validation\<close>

definition validVersionPolicy :: "string \<Rightarrow> bool" where
  "validVersionPolicy v \<longleftrightarrow>
     v = VersionPolicyOff \<or> v = VersionPolicyPatch \<or> v = VersionPolicyMinor \<or> v = VersionPolicyMajor"

text \<open>The validation trims and normalises the policy it is given.\<close>

definition validatePolicy :: "cron \<Rightarrow> gotime \<Rightarrow> UpdatePolicy \<Rightarrow> string + UpdatePolicy" where
  "validatePolicy cron now p0 =
     (let p = p0\<lparr>pol_Host := TrimSpace (pol_Host p0),
                 pol_TargetType := TrimSpace (ToLower (pol_TargetType p0)),
                 pol_TargetKey := TrimSpace (pol_TargetKey p0),
                 pol_TargetName := TrimSpace (pol_TargetName p0),
                 pol_Schedule := TrimSpace (pol_Schedule p0)\<rparr>
      in if pol_Host p = [] \<or> pol_TargetKey p = [] \<or> pol_TargetName p = []
         then Inl ''host, target key and target name are required''
         else if length (pol_TargetKey p) > 4096 \<or> length (pol_TargetName p) > 255 \<or> length (pol_Schedule p) > 255
         then Inl ''update policy fields exceed their allowed length''
         else if pol_TargetType p \<noteq> UpdateTargetContainer \<and> pol_TargetType p \<noteq> UpdateTargetStack
         then Inl (''unsupported update target type '' @ quoted (pol_TargetType p))
         else if pol_CleanupKeep p < 0 \<or> pol_CleanupKeep p > 10
         then Inl ''cleanup retention must be between 0 and 10 previous images''
         else
           let v = ToLower (TrimSpace (pol_VersionPolicy p));
               p = p\<lparr>pol_VersionPolicy := (if v = [] then VersionPolicyOff else v)\<rparr>
           in if \<not> validVersionPolicy (pol_VersionPolicy p)
              then Inl ''version discovery policy must be off, patch, minor or major''
              else if pol_Schedule p \<noteq> [] then
                (case NormalizeUpdateSchedule cron now (pol_Schedule p) of
                   Inl e \<Rightarrow> Inl (''invalid image check schedule: '' @ e)
                 | Inr normalized \<Rightarrow> Inr (p\<lparr>pol_Schedule := normalized\<rparr>))
              else Inr p)"

definition policySave ::
  "string option \<Rightarrow> cron \<Rightarrow> gotime \<Rightarrow> UpdatePolicy \<Rightarrow> policy_table \<Rightarrow> string option \<times> policy_table" where
  "policySave fault cron now p ps =
     (case validatePolicy cron now p of
        Inl e \<Rightarrow> (Some e, ps)
      | Inr v \<Rightarrow> (case fault of Some e \<Rightarrow> (Some e, ps) | None \<Rightarrow> (None, policyUpsert now v ps)))"

definition policyServiceDelete ::
  "string option \<Rightarrow> string \<Rightarrow> string \<Rightarrow> string \<Rightarrow> policy_table \<Rightarrow> string option \<times> policy_table" where
  "policyServiceDelete fault host targetType targetKey ps =
     (if host = [] \<or> targetKey = [] then (Some ''host and target key are required'', ps)
      else if targetType \<noteq> UpdateTargetContainer \<and> targetType \<noteq> UpdateTargetStack
      then (Some (''unsupported update target type '' @ quoted targetType), ps)
      else case fault of Some e \<Rightarrow> (Some e, ps) | None \<Rightarrow> (None, policyDelete host targetType targetKey ps))"

text \<open>The first loop of \<open>SaveMany\<close>: validates in order, one host, no duplicate target.\<close>

definition policyKey :: "UpdatePolicy \<Rightarrow> string" where
  "policyKey p = pol_Host p @ nul @ pol_TargetType p @ nul @ pol_TargetKey p"

fun validateMany ::
  "cron \<Rightarrow> gotime \<Rightarrow> nat \<Rightarrow> string \<Rightarrow> string list \<Rightarrow> UpdatePolicy list \<Rightarrow> string + (string \<times> UpdatePolicy list)" where
  "validateMany cron now index host seen [] = Inr (host, [])"
| "validateMany cron now index host seen (p0 # ps) =
     (case validatePolicy cron now p0 of
        Inl e \<Rightarrow> Inl (''policy '' @ Itoa (index + 1) @ '': '' @ e)
      | Inr p \<Rightarrow>
          let host' = (if index = 0 then pol_Host p else host) in
          if pol_Host p \<noteq> host' then Inl ''all bulk policy targets must belong to the same Docker host''
          else if policyKey p \<in> set seen
          then Inl (''policy '' @ Itoa (index + 1) @ '' duplicates target '' @ quoted (pol_TargetName p))
          else (case validateMany cron now (index + 1) host' (policyKey p # seen) ps of
                  Inl e \<Rightarrow> Inl e
                | Inr (h, vs) \<Rightarrow> Inr (h, p # vs)))"

fun validateRemovals :: "nat \<Rightarrow> PolicyTargetRef list \<Rightarrow> string + PolicyTargetRef list" where
  "validateRemovals index [] = Inr []"
| "validateRemovals index (r0 # rs) =
     (let r = \<lparr>ptr_TargetType = TrimSpace (ptr_TargetType r0), ptr_TargetKey = TrimSpace (ptr_TargetKey r0)\<rparr> in
      if ptr_TargetKey r = [] \<or> (ptr_TargetType r \<noteq> UpdateTargetContainer \<and> ptr_TargetType r \<noteq> UpdateTargetStack)
      then Inl (''removal '' @ Itoa (index + 1) @ '' is invalid'')
      else case validateRemovals (index + 1) rs of Inl e \<Rightarrow> Inl e | Inr vs \<Rightarrow> Inr (r # vs))"

definition policySaveMany ::
  "string option \<Rightarrow> cron \<Rightarrow> gotime \<Rightarrow> UpdatePolicy list \<Rightarrow> PolicyTargetRef list \<Rightarrow> policy_table \<Rightarrow> string option \<times> policy_table" where
  "policySaveMany fault cron now policies removals ps =
     (if policies = [] \<or> length policies > 500
      then (Some ''bulk policy update must contain between 1 and 500 targets'', ps)
      else case validateMany cron now 0 [] [] policies of
        Inl e \<Rightarrow> (Some e, ps)
      | Inr (host, vs) \<Rightarrow>
          if length removals > 500
          then (Some ''bulk policy update cannot remove more than 500 previous overrides'', ps)
          else (case validateRemovals 0 removals of
                  Inl e \<Rightarrow> (Some e, ps)
                | Inr rs \<Rightarrow> policyApplyMany fault now host vs rs ps))"

subsection \<open>The inventory\<close>

definition UpdateScheduleLabel :: string where "UpdateScheduleLabel = ''dockman.update.schedule''"
definition UpdateRollbackLabel :: string where "UpdateRollbackLabel = ''dockman.update.rollback''"
definition UpdateCleanupLabel :: string where "UpdateCleanupLabel = ''dockman.update.cleanup''"
definition UpdateCleanupKeepLabel :: string where "UpdateCleanupKeepLabel = ''dockman.update.cleanup.keep''"
definition UpdateVersionLabel :: string where "UpdateVersionLabel = ''dockman.update.version''"
definition UpdatePrereleaseLabel :: string where "UpdatePrereleaseLabel = ''dockman.update.version.prerelease''"
definition SourceProtectedInfrastructure :: string where "SourceProtectedInfrastructure = ''protected-infra''"

record UpdateEnrollment =
  enr_ContainerID :: string
  enr_ContainerName :: string
  enr_Image :: string
  enr_State :: string
  enr_StackName :: string
  enr_StackKey :: string
  enr_ServiceName :: string
  enr_DependsOn :: string
  enr_Enrolled :: bool
  enr_Source :: string
  enr_Reason :: string
  enr_Schedule :: string
  enr_ScheduleError :: string
  enr_Rollback :: bool
  enr_CleanupEnabled :: bool
  enr_CleanupKeep :: int
  enr_VersionPolicy :: string
  enr_VersionPrerelease :: bool
  enr_PolicyTarget :: string
  enr_PolicyTargetID :: string

definition schedule_error :: "cron \<Rightarrow> gotime \<Rightarrow> string \<Rightarrow> UpdateEnrollment \<Rightarrow> UpdateEnrollment" where
  "schedule_error cron now s row =
     (case NormalizeUpdateSchedule cron now s of Inl e \<Rightarrow> row\<lparr>enr_ScheduleError := e\<rparr> | Inr _ \<Rightarrow> row)"

definition applyPolicy :: "cron \<Rightarrow> gotime \<Rightarrow> UpdatePolicy \<Rightarrow> UpdateEnrollment \<Rightarrow> UpdateEnrollment" where
  "applyPolicy cron now p row0 =
     (let row1 = row0\<lparr>enr_Enrolled := pol_Enabled p, enr_Source := ''interface'', enr_Schedule := pol_Schedule p\<rparr>;
          row2 = schedule_error cron now (enr_Schedule row1) row1;
          row3 = row2\<lparr>enr_Rollback := pol_RollbackEnabled p, enr_CleanupEnabled := pol_CleanupEnabled p,
                      enr_CleanupKeep := pol_CleanupKeep p, enr_VersionPolicy := pol_VersionPolicy p,
                      enr_VersionPrerelease := pol_VersionPrerelease p, enr_PolicyTarget := pol_TargetType p,
                      enr_PolicyTargetID := pol_TargetKey p\<rparr>
      in if \<not> pol_Enabled p then row3\<lparr>enr_Reason := ''disabled by interface policy''\<rparr> else row3)"

text \<open>The four optional labels of a container that opted in, in the order of the source.\<close>

definition labelRollback :: "(string, string) gomap \<Rightarrow> UpdateEnrollment \<Rightarrow> UpdateEnrollment" where
  "labelRollback labels row =
     (let (rollback, present, valid) = parseBoolLabel labels UpdateRollbackLabel in
      if \<not> present then row
      else if valid then row\<lparr>enr_Rollback := rollback\<rparr>
      else row\<lparr>enr_Reason := invalidLabelReason labels UpdateRollbackLabel @ ''; rollback stays enabled''\<rparr>)"

definition labelCleanup :: "(string, string) gomap \<Rightarrow> UpdateEnrollment \<Rightarrow> UpdateEnrollment" where
  "labelCleanup labels row =
     (let (cleanup, present, valid) = parseBoolLabel labels UpdateCleanupLabel in
      if \<not> present then row
      else if valid then row\<lparr>enr_CleanupEnabled := cleanup\<rparr>
      else row\<lparr>enr_Reason := invalidLabelReason labels UpdateCleanupLabel @ ''; safe cleanup stays disabled''\<rparr>)"

definition labelKeep :: "(string, string) gomap \<Rightarrow> UpdateEnrollment \<Rightarrow> UpdateEnrollment" where
  "labelKeep labels row =
     (let keep = TrimSpace (str_at labels UpdateCleanupKeepLabel) in
      if enr_CleanupEnabled row \<and> keep \<noteq> [] then
        (let bad = row\<lparr>enr_CleanupEnabled := False,
                       enr_Reason := ''safe cleanup disabled: invalid '' @ UpdateCleanupKeepLabel @ '', use an integer between 0 and 10''\<rparr>
         in case Atoi keep of
              None \<Rightarrow> bad
            | Some n \<Rightarrow> if n < 0 \<or> n > 10 then bad else row\<lparr>enr_CleanupKeep := n\<rparr>)
      else row)"

definition labelVersion :: "(string, string) gomap \<Rightarrow> UpdateEnrollment \<Rightarrow> UpdateEnrollment" where
  "labelVersion labels row =
     (let policy = ToLower (TrimSpace (str_at labels UpdateVersionLabel));
          row1 = (if policy = [] then row
                  else if validVersionPolicy policy then row\<lparr>enr_VersionPolicy := policy\<rparr>
                  else row\<lparr>enr_Reason := ''version discovery disabled: invalid '' @ UpdateVersionLabel\<rparr>);
          (pre, present, valid) = parseBoolLabel labels UpdatePrereleaseLabel
      in if present \<and> valid then row1\<lparr>enr_VersionPrerelease := pre\<rparr> else row1)"

definition enrollByLabel :: "cron \<Rightarrow> gotime \<Rightarrow> (string, string) gomap \<Rightarrow> UpdateEnrollment \<Rightarrow> UpdateEnrollment" where
  "enrollByLabel cron now labels row0 =
     (let row1 = row0\<lparr>enr_Enrolled := True, enr_Source := ''label'',
                      enr_Schedule := TrimSpace (str_at labels UpdateScheduleLabel)\<rparr>;
          row2 = schedule_error cron now (enr_Schedule row1) row1
      in labelVersion labels (labelKeep labels (labelCleanup labels (labelRollback labels row2))))"

definition byTarget :: "UpdatePolicy list \<Rightarrow> (string, UpdatePolicy) gomap" where
  "byTarget policies = foldl (\<lambda>m p. AList.update (pol_TargetType p @ nul @ pol_TargetKey p) p m) [] policies"

definition baseRow :: "containerSummary \<Rightarrow> UpdateEnrollment" where
  "baseRow item =
     (let (stackName, stackKey) = stackIdentity (cs_Labels item) in
      \<lparr>enr_ContainerID = cs_ID item, enr_ContainerName = summaryName item, enr_Image = cs_Image item,
       enr_State = cs_State item, enr_StackName = stackName, enr_StackKey = stackKey,
       enr_ServiceName = TrimSpace (str_at (cs_Labels item) composeServiceLabel),
       enr_DependsOn = TrimSpace (str_at (cs_Labels item) composeDependsLabel),
       enr_Enrolled = False, enr_Source = ''none'', enr_Reason = [], enr_Schedule = [], enr_ScheduleError = [],
       enr_Rollback = True, enr_CleanupEnabled = False, enr_CleanupKeep = 1, enr_VersionPolicy = VersionPolicyOff,
       enr_VersionPrerelease = False, enr_PolicyTarget = [], enr_PolicyTargetID = []\<rparr>)"

definition enrollment ::
  "cron \<Rightarrow> gotime \<Rightarrow> (string, UpdatePolicy) gomap \<Rightarrow> containerSummary \<Rightarrow> UpdateEnrollment" where
  "enrollment cron now targets item =
     (let labels = cs_Labels item;
          row = baseRow item;
          (disabled, dpresent, dvalid) = parseBoolLabel labels DockmanUpdateDisableLabel;
          (enabled, epresent, evalid) = parseBoolLabel labels DockmanOptInUpdateLabel
      in if hasDockmanLabel item
         then row\<lparr>enr_Source := ''protected'', enr_Reason := ''Dockman uses its dedicated self-update action''\<rparr>
         else if dpresent \<and> (\<not> dvalid \<or> disabled)
         then row\<lparr>enr_Source := ''disabled-label'',
                  enr_Reason := (if \<not> dvalid then invalidLabelReason labels DockmanUpdateDisableLabel @ ''; treated as disabled''
                                 else DockmanUpdateDisableLabel @ ''=true'')\<rparr>
         else if epresent then
           (if \<not> evalid
            then row\<lparr>enr_Source := ''disabled-label'', enr_Reason := invalidLabelReason labels DockmanOptInUpdateLabel\<rparr>
            else if \<not> enabled
            then row\<lparr>enr_Source := ''disabled-label'', enr_Reason := DockmanOptInUpdateLabel @ ''=false''\<rparr>
            else enrollByLabel cron now labels row)
         else if ExposesDockerSocket item
         then row\<lparr>enr_Source := SourceProtectedInfrastructure,
                  enr_Reason := ''exposes the Docker socket; updating it through that socket would sever the connection mid-operation. Use the protected update, or set ''
                    @ DockmanOptInUpdateLabel @ ''=true to override''\<rparr>
         else case map_of targets (UpdateTargetContainer @ nul @ enr_ContainerName row) of
                Some p \<Rightarrow> applyPolicy cron now p row
              | None \<Rightarrow>
                  if enr_StackKey row \<noteq> [] then
                    (case map_of targets (UpdateTargetStack @ nul @ enr_StackKey row) of
                       Some p \<Rightarrow> applyPolicy cron now p row
                     | None \<Rightarrow> row)
                  else row)"

definition Inventory ::
  "string option \<Rightarrow> cron \<Rightarrow> gotime \<Rightarrow> string \<Rightarrow> policy_table \<Rightarrow> containerSummary list \<Rightarrow> string + UpdateEnrollment list" where
  "Inventory fault cron now host ps items =
     (case fault of
        Some e \<Rightarrow> Inl e
      | None \<Rightarrow>
          let targets = byTarget (policyList host ps)
          in Inr (sort_key (\<lambda>r. ToLower (enr_ContainerName r)) (map (enrollment cron now targets) items)))"

subsection \<open>Normal schedules\<close>

definition word_ok :: "string \<Rightarrow> bool" where
  "word_ok w \<longleftrightarrow> w \<noteq> [] \<and> list_all (\<lambda>c. \<not> is_space c) w"

lemma Fields_aux_words: "list_all (\<lambda>c. \<not> is_space c) acc \<Longrightarrow> list_all word_ok (Fields_aux acc s)"
  by (induction acc s rule: Fields_aux.induct) (simp_all add: word_ok_def)

lemma Fields_words: "w \<in> set (Fields s) \<Longrightarrow> w \<noteq> [] \<and> (\<forall>c \<in> set w. \<not> is_space c)"
  using Fields_aux_words [of "[]" s] by (auto simp: Fields_def word_ok_def list_all_iff)

lemma Fields_aux_word:
  "\<forall>c \<in> set w. \<not> is_space c \<Longrightarrow> Fields_aux acc (w @ s) = Fields_aux (rev w @ acc) s"
  by (induction w arbitrary: acc) auto

lemma Fields_Join:
  assumes "\<forall>w \<in> set ws. w \<noteq> [] \<and> (\<forall>c \<in> set w. \<not> is_space c)"
  shows "Fields (Join ws '' '') = ws"
  using assms
proof (induction ws)
  case (Cons w ws)
  have sp: "is_space (CHR '' '')" by (simp add: is_space_def)
  show ?case
  proof (cases ws)
    case Nil
    then show ?thesis using Cons.prems Fields_aux_word [of w "[]" "[]"] by (simp add: Fields_def)
  next
    case (Cons v vs)
    then have "Join (w # ws) '' '' = w @ CHR '' '' # Join ws '' ''" by simp
    then show ?thesis using Cons.IH Cons.prems Fields_aux_word [of w "[]" "CHR '' '' # Join ws '' ''"] sp
      by (simp add: Fields_def)
  qed
qed (simp add: Fields_def)

lemma trimmed_Join:
  assumes "ws \<noteq> []" "\<forall>w \<in> set ws. w \<noteq> [] \<and> (\<forall>c \<in> set w. \<not> is_space c)"
  shows "Join ws '' '' \<noteq> [] \<and> trimmed (Join ws '' '')"
proof -
  have "Join ws '' '' \<noteq> [] \<and> hd (Join ws '' '') = hd (hd ws) \<and> last (Join ws '' '') = last (last ws)"
    using assms by (induction ws) (auto simp: Join_Cons)
  moreover have "hd ws \<in> set ws" "last ws \<in> set ws" using assms(1) by simp_all
  ultimately show ?thesis using assms(2) by (simp add: trimmed_def)
qed

lemma length_Fields: "s \<noteq> [] \<Longrightarrow> length (Join (Fields_aux acc s) '' '') \<le> length acc + length s"
proof (induction acc s rule: Fields_aux.induct)
  case (2 acc c s)
  show ?case
  proof (cases "s = []")
    case True
    then show ?thesis by auto
  next
    case s: False
    have j: "length (Join (x # ws) '' '') \<le> Suc (length x + length (Join ws '' ''))" for x :: string and ws
      by (cases ws) auto
    show ?thesis
    proof (cases "is_space c \<and> acc \<noteq> []")
      case True
      then have "length (Join (Fields_aux [] s) '' '') \<le> length s" using 2(2) s by simp
      then show ?thesis using True j [of "rev acc" "Fields_aux [] s"] by simp
    next
      case False
      then show ?thesis using 2 s by (cases "is_space c") (auto simp: le_SucI)
    qed
  qed
qed simp

lemma set_Join: "set (Join ws sep) \<subseteq> set sep \<union> \<Union> (set ` set ws)"
proof (induction ws)
  case (Cons w ws)
  then show ?case by (cases ws) auto
qed simp

lemma set_Fields_aux: "w \<in> set (Fields_aux acc s) \<Longrightarrow> set w \<subseteq> set acc \<union> set s"
  by (induction acc s arbitrary: w rule: Fields_aux.induct) (fastforce split: if_splits)+

lemma set_Join_Fields: "set (Join (Fields s) '' '') \<subseteq> insert (CHR '' '') (set s)"
  using set_Join [of "Fields s" "'' ''"] set_Fields_aux [of _ "[]" s] by (fastforce simp: Fields_def)

text \<open>The cron parser splits its expression on blanks, so it does not see how many there are.\<close>

definition cron_ignores_blanks :: "cron \<Rightarrow> bool" where
  "cron_ignores_blanks cron \<longleftrightarrow> (\<forall>s. cron (Join (Fields s) '' '') = cron s)"

lemma Fields_nonempty: "TrimSpace s \<noteq> [] \<Longrightarrow> Fields s \<noteq> []"
proof -
  have "list_all is_space s" if "Fields_aux [] s = []" for s
    using that
  proof (induction "[] :: string" s rule: Fields_aux.induct)
    case (2 c s)
    have "Fields_aux acc t = [] \<Longrightarrow> acc = []" for acc t
      by (induction acc t rule: Fields_aux.induct) (auto split: if_splits)
    then show ?case using 2 by (auto split: if_splits)
  qed simp
  moreover have "TrimSpace s = []" if "list_all is_space s"
  proof -
    have "dropWhile is_space s = []" using that by (simp only: list_all_iff dropWhile_eq_Nil_conv)
    then show ?thesis by (simp only: TrimSpace_def rev.simps dropWhile.simps)
  qed
  ultimately show "TrimSpace s \<noteq> [] \<Longrightarrow> Fields s \<noteq> []" by (auto simp: Fields_def)
qed

lemma NormalizeUpdateSchedule_Inr:
  assumes "NormalizeUpdateSchedule cron now s0 = Inr t"
  obtains s where "s = (if TrimSpace s0 = [] then DefaultUpdateSchedule else TrimSpace s0)"
    "t = Join (Fields s) '' ''" "length s \<le> 120" "\<not> ContainsAny s [CHR 0x0D, CHR 0x0A, CHR 0x00]"
    "TrimSpace s = s" "s \<noteq> []"
proof -
  let ?s = "if TrimSpace s0 = [] then DefaultUpdateSchedule else TrimSpace s0"
  have "TrimSpace DefaultUpdateSchedule = DefaultUpdateSchedule \<and> DefaultUpdateSchedule \<noteq> []" by code_simp
  then have s: "TrimSpace ?s = ?s" "?s \<noteq> []" by simp_all
  have "t = Join (Fields ?s) '' '' \<and> length ?s \<le> 120 \<and> \<not> ContainsAny ?s [CHR 0x0D, CHR 0x0A, CHR 0x00]"
    using assms unfolding NormalizeUpdateSchedule_def Let_def
    by (auto split: if_splits sum.splits)
  then show thesis using that [of ?s] s by blast
qed

lemma NormalizeUpdateSchedule_fixpoint:
  assumes "NormalizeUpdateSchedule cron now s0 = Inr t" "cron_ignores_blanks cron"
  shows "NormalizeUpdateSchedule cron now t = Inr t \<and> t \<noteq> [] \<and> TrimSpace t = t \<and> length t \<le> 120"
proof -
  obtain s where s: "s = (if TrimSpace s0 = [] then DefaultUpdateSchedule else TrimSpace s0)"
    "t = Join (Fields s) '' ''" "length s \<le> 120" "\<not> ContainsAny s [CHR 0x0D, CHR 0x0A, CHR 0x00]"
    "TrimSpace s = s" "s \<noteq> []"
    using assms(1) by (rule NormalizeUpdateSchedule_Inr)
  have w: "Fields s \<noteq> []" "\<forall>w \<in> set (Fields s). w \<noteq> [] \<and> (\<forall>c \<in> set w. \<not> is_space c)"
    using Fields_nonempty [of s] s(5,6) Fields_words by auto
  have t: "t \<noteq> []" "TrimSpace t = t" using trimmed_Join [OF w] s(2) by (simp_all add: trimmed_TrimSpace_id)
  have f: "Join (Fields t) '' '' = t" using Fields_Join [OF w(2)] s(2) by simp
  have l: "length t \<le> 120" using length_Fields [OF s(6), of "[]"] s(2,3) by (simp add: Fields_def)
  have c: "\<not> ContainsAny t [CHR 0x0D, CHR 0x0A, CHR 0x00]"
    using s(4) set_Join_Fields [of s] s(2) by (auto simp: ContainsAny_def list_ex_iff)
  have "cron t = cron s" using assms(2) s(2) by (simp add: cron_ignores_blanks_def)
  moreover have "NormalizeUpdateSchedule cron now t =
     (case cron t of Inl e \<Rightarrow> Inl (''use a standard five-field cron expression: '' @ e)
      | Inr nf \<Rightarrow> if nf now = 0 \<or> nf (nf now) = 0 \<or> time_sub (nf (nf now)) (nf now) < minimumUpdateScanGap
          then Inl ''automatic image checks cannot run more often than every 15m0s'' else Inr t)"
    unfolding NormalizeUpdateSchedule_def Let_def t using t(1) l c by (cases "cron t") (simp_all add: f)
  moreover have "\<exists>nf. cron s = Inr nf \<and> \<not> (nf now = 0 \<or> nf (nf now) = 0 \<or> time_sub (nf (nf now)) (nf now) < minimumUpdateScanGap)"
    using assms(1) unfolding NormalizeUpdateSchedule_def Let_def s(1) [symmetric]
    by (auto split: sum.splits if_splits)
  ultimately show ?thesis using t l by auto
qed

subsection \<open>Well-formed policies\<close>

definition policy_wf :: "UpdatePolicy \<Rightarrow> bool" where
  "policy_wf p \<longleftrightarrow>
     pol_Host p \<noteq> [] \<and> trimmed (pol_Host p) \<and> pol_TargetKey p \<noteq> [] \<and> trimmed (pol_TargetKey p) \<and>
     pol_TargetName p \<noteq> [] \<and> trimmed (pol_TargetName p) \<and>
     length (pol_TargetKey p) \<le> 4096 \<and> length (pol_TargetName p) \<le> 255 \<and>
     pol_TargetType p \<in> {UpdateTargetContainer, UpdateTargetStack} \<and>
     0 \<le> pol_CleanupKeep p \<and> pol_CleanupKeep p \<le> 10 \<and> validVersionPolicy (pol_VersionPolicy p) \<and>
     length (pol_Schedule p) \<le> 255 \<and> trimmed (pol_Schedule p)"

lemma target_type_normal: "t \<in> {UpdateTargetContainer, UpdateTargetStack} \<Longrightarrow> TrimSpace (ToLower t) = t"
  by (auto simp: UpdateTargetContainer_def UpdateTargetStack_def) code_simp+

lemma version_policy_normal: "validVersionPolicy v \<Longrightarrow> ToLower (TrimSpace v) = v \<and> v \<noteq> []"
  unfolding validVersionPolicy_def VersionPolicyOff_def VersionPolicyPatch_def VersionPolicyMinor_def VersionPolicyMajor_def
  by (elim disjE) (hypsubst, code_simp)+

lemma validatePolicy_unfold:
  assumes "validatePolicy cron now p0 = Inr v"
  obtains s where "v = p0\<lparr>pol_Host := TrimSpace (pol_Host p0), pol_TargetType := TrimSpace (ToLower (pol_TargetType p0)),
      pol_TargetKey := TrimSpace (pol_TargetKey p0), pol_TargetName := TrimSpace (pol_TargetName p0),
      pol_VersionPolicy := pol_VersionPolicy v, pol_Schedule := s\<rparr>"
    "if TrimSpace (pol_Schedule p0) = [] then s = [] else NormalizeUpdateSchedule cron now (TrimSpace (pol_Schedule p0)) = Inr s"
    "pol_Host v \<noteq> []" "pol_TargetKey v \<noteq> []" "pol_TargetName v \<noteq> []" "length (pol_TargetKey v) \<le> 4096"
    "length (pol_TargetName v) \<le> 255" "pol_TargetType v \<in> {UpdateTargetContainer, UpdateTargetStack}"
    "0 \<le> pol_CleanupKeep v" "pol_CleanupKeep v \<le> 10" "validVersionPolicy (pol_VersionPolicy v)"
  using assms that [of "pol_Schedule v"] unfolding validatePolicy_def Let_def
  by (simp split: if_splits sum.splits) (auto simp: not_less not_le)

lemma validatePolicy_wf:
  assumes "validatePolicy cron now p0 = Inr v" "cron_ignores_blanks cron"
  shows "policy_wf v"
  using assms(1)
proof (rule validatePolicy_unfold)
  fix s
  assume v: "v = p0\<lparr>pol_Host := TrimSpace (pol_Host p0), pol_TargetType := TrimSpace (ToLower (pol_TargetType p0)),
      pol_TargetKey := TrimSpace (pol_TargetKey p0), pol_TargetName := TrimSpace (pol_TargetName p0),
      pol_VersionPolicy := pol_VersionPolicy v, pol_Schedule := s\<rparr>"
    and s: "if TrimSpace (pol_Schedule p0) = [] then s = [] else NormalizeUpdateSchedule cron now (TrimSpace (pol_Schedule p0)) = Inr s"
    and rest: "pol_Host v \<noteq> []" "pol_TargetKey v \<noteq> []" "pol_TargetName v \<noteq> []" "length (pol_TargetKey v) \<le> 4096"
    "length (pol_TargetName v) \<le> 255" "pol_TargetType v \<in> {UpdateTargetContainer, UpdateTargetStack}"
    "0 \<le> pol_CleanupKeep v" "pol_CleanupKeep v \<le> 10" "validVersionPolicy (pol_VersionPolicy v)"
  have "pol_Host v = TrimSpace (pol_Host p0)" "pol_TargetKey v = TrimSpace (pol_TargetKey p0)"
    "pol_TargetName v = TrimSpace (pol_TargetName p0)" "pol_Schedule v = s"
    by (subst v, simp)+
  moreover have "trimmed s \<and> length s \<le> 255"
  proof (cases "TrimSpace (pol_Schedule p0) = []")
    case False
    then have "TrimSpace s = s" "length s \<le> 120"
      using s NormalizeUpdateSchedule_fixpoint [OF _ assms(2)] by auto
    then show ?thesis using trimmed_TrimSpace [of s] by simp
  qed (use s in \<open>simp add: trimmed_def\<close>)
  ultimately show ?thesis using rest by (simp add: policy_wf_def)
qed

lemma validatePolicy_idem:
  assumes "validatePolicy cron now p0 = Inr v" "cron_ignores_blanks cron"
  shows "validatePolicy cron now v = Inr v"
  using assms(1)
proof (rule validatePolicy_unfold)
  fix s
  assume v: "v = p0\<lparr>pol_Host := TrimSpace (pol_Host p0), pol_TargetType := TrimSpace (ToLower (pol_TargetType p0)),
      pol_TargetKey := TrimSpace (pol_TargetKey p0), pol_TargetName := TrimSpace (pol_TargetName p0),
      pol_VersionPolicy := pol_VersionPolicy v, pol_Schedule := s\<rparr>"
    and s: "if TrimSpace (pol_Schedule p0) = [] then s = [] else NormalizeUpdateSchedule cron now (TrimSpace (pol_Schedule p0)) = Inr s"
  have wf: "policy_wf v" by (rule validatePolicy_wf [OF assms])
  have n: "TrimSpace (pol_Host v) = pol_Host v" "TrimSpace (pol_TargetKey v) = pol_TargetKey v"
    "TrimSpace (pol_TargetName v) = pol_TargetName v" "TrimSpace (pol_Schedule v) = pol_Schedule v"
    "TrimSpace (ToLower (pol_TargetType v)) = pol_TargetType v" "ToLower (TrimSpace (pol_VersionPolicy v)) = pol_VersionPolicy v"
    "pol_VersionPolicy v \<noteq> []"
    using wf target_type_normal version_policy_normal by (simp_all add: policy_wf_def trimmed_TrimSpace_id)
  have sv: "pol_Schedule v = s" by (subst v) simp
  have "pol_Schedule v = [] \<or> NormalizeUpdateSchedule cron now (pol_Schedule v) = Inr (pol_Schedule v)"
    using s NormalizeUpdateSchedule_fixpoint [OF _ assms(2)] unfolding sv by (auto split: if_splits)
  moreover have rv: "v\<lparr>pol_Host := TrimSpace (pol_Host v), pol_TargetType := TrimSpace (ToLower (pol_TargetType v)),
      pol_TargetKey := TrimSpace (pol_TargetKey v), pol_TargetName := TrimSpace (pol_TargetName v),
      pol_Schedule := TrimSpace (pol_Schedule v)\<rparr> = v" by (simp add: n)
  ultimately show ?thesis
    using wf unfolding validatePolicy_def Let_def rv n(6)
    by (simp add: n(7) policy_wf_def not_less) auto
qed

text \<open>
  validating a policy is a projection onto well-formed policies.  An accepted policy has its
  fields trimmed, not empty and within their limits, a known target type, a retention between
  0 and 10 and a known version policy, and validating it again changes nothing.
\<close>

theorem validatePolicy_projection:
  assumes "validatePolicy cron now p = Inr v" and "cron_ignores_blanks cron"
  shows "policy_wf v \<and> validatePolicy cron now v = Inr v"
  using validatePolicy_wf [OF assms] validatePolicy_idem [OF assms] by blast

definition sampleCron :: cron where
  "sampleCron s = (if length (Fields s) = 5 then Inr (\<lambda>t. t + hour) else Inl ''expected exactly 5 fields'')"

definition samplePolicy :: UpdatePolicy where
  "samplePolicy =
     \<lparr>pol_ID = 0, pol_CreatedAt = 0, pol_UpdatedAt = 0, pol_Host = '' local '', pol_TargetType = '' Container'',
      pol_TargetKey = ''web'', pol_TargetName = ''web '', pol_Enabled = True, pol_Schedule = '' 0   5 * * *'',
      pol_RollbackEnabled = True, pol_CleanupEnabled = False, pol_CleanupKeep = 1, pol_VersionPolicy = [],
      pol_VersionPrerelease = False\<rparr>"

definition savedPolicy :: UpdatePolicy where
  "savedPolicy = samplePolicy\<lparr>pol_Host := ''local'', pol_TargetType := ''container'', pol_TargetName := ''web'',
     pol_Schedule := ''0 5 * * *'', pol_VersionPolicy := ''off''\<rparr>"

lemma sampleCron_blanks: "cron_ignores_blanks sampleCron"
proof -
  have "Fields (Join (Fields s) '' '') = Fields s" for s using Fields_Join Fields_words by blast
  then show ?thesis by (simp add: cron_ignores_blanks_def sampleCron_def)
qed

lemma sample_saved: "validatePolicy sampleCron 1 samplePolicy = Inr savedPolicy"
  by code_simp

theorem validatePolicy_projection_witness:
  "validatePolicy sampleCron 1 samplePolicy = Inr savedPolicy \<and> policy_wf savedPolicy"
  using validatePolicy_projection [OF sample_saved sampleCron_blanks] sample_saved by blast

definition day :: duration where "day = 24 * hour"

definition twiceDaily :: "gotime \<Rightarrow> gotime" where
  "twiceDaily t =
     (let midnight = t div day * day; r = t - midnight in
      if r < 4 * hour then midnight + 4 * hour
      else if r < 4 * hour + minute then midnight + 4 * hour + minute
      else midnight + day + 4 * hour)"

text \<open>
  The minimum of fifteen minutes between automatic checks is tested on the next two firings
  only.  A schedule that fires at 04:00 and at 04:01 every day is refused at noon and accepted
  at half a minute past 04:00, and the accepted schedule then fires one minute apart.
\<close>

theorem NormalizeUpdateSchedule_gap_depends_on_time:
  "NormalizeUpdateSchedule (\<lambda>_. Inr twiceDaily) (12 * hour) ''0,1 4 * * *'' =
     Inl ''automatic image checks cannot run more often than every 15m0s'' \<and>
   NormalizeUpdateSchedule (\<lambda>_. Inr twiceDaily) (4 * hour + 30 * second) ''0,1 4 * * *'' = Inr ''0,1 4 * * *'' \<and>
   twiceDaily (3 * hour) = 4 * hour \<and> twiceDaily (4 * hour) = 4 * hour + minute"
  by code_simp

subsection \<open>The policy table\<close>

definition policies_inv :: "policy_table \<Rightarrow> bool" where
  "policies_inv ps \<longleftrightarrow> policies_ok ps \<and> (\<forall>p \<in> set ps. policy_wf p)"

text \<open>The row stored for a policy: the same columns, up to its id and its timestamps.\<close>

definition stored_as :: "UpdatePolicy \<Rightarrow> UpdatePolicy \<Rightarrow> bool" where
  "stored_as p q \<longleftrightarrow> (\<exists>i c u. q = p\<lparr>pol_ID := i, pol_CreatedAt := c, pol_UpdatedAt := u\<rparr>)"

lemma target_upd [simp]: "policy_target (p\<lparr>pol_ID := i, pol_CreatedAt := c, pol_UpdatedAt := u\<rparr>) = policy_target p"
  by (simp add: policy_target_def)

lemma wf_upd [simp]: "policy_wf (p\<lparr>pol_ID := i, pol_CreatedAt := c, pol_UpdatedAt := u\<rparr>) = policy_wf p"
  by (simp add: policy_wf_def)

lemma stored_as_target: "stored_as p q \<Longrightarrow> policy_target q = policy_target p \<and> policy_wf q = policy_wf p"
  by (auto simp: stored_as_def)

lemma fresh_id: "Suc (foldr max ids 0) \<notin> set (ids :: nat list)"
proof -
  have "\<forall>i \<in> set ids. i \<le> foldr max ids 0" by (induction ids) auto
  then show ?thesis by fastforce
qed

lemma policyUpsert_cases:
  obtains (update) "policy_target p \<in> policy_target ` set ps"
      "policyUpsert now p ps = map (\<lambda>q. if policy_target q = policy_target p
         then p\<lparr>pol_ID := pol_ID q, pol_CreatedAt := pol_CreatedAt q, pol_UpdatedAt := now\<rparr> else q) ps"
  | (insert) "policy_target p \<notin> policy_target ` set ps"
      "policyUpsert now p ps = ps @ [p\<lparr>pol_ID := Suc (foldr max (map pol_ID ps) 0), pol_CreatedAt := now, pol_UpdatedAt := now\<rparr>]"
proof (cases "policy_target p \<in> policy_target ` set ps")
  case True
  then show thesis by (intro update) (simp_all add: policyUpsert_def)
next
  case False
  then show thesis by (intro insert) (simp_all add: policyUpsert_def)
qed

lemma policyUpsert_ok: "policies_ok ps \<Longrightarrow> policies_ok (policyUpsert now p ps)"
proof (cases rule: policyUpsert_cases [of p ps now])
  case update
  let ?f = "\<lambda>q. if policy_target q = policy_target p
     then p\<lparr>pol_ID := pol_ID q, pol_CreatedAt := pol_CreatedAt q, pol_UpdatedAt := now\<rparr> else q"
  have "map policy_target (map ?f ps) = map policy_target ps" "map pol_ID (map ?f ps) = map pol_ID ps" by simp_all
  then show "policies_ok ps \<Longrightarrow> ?thesis" unfolding update(2) policies_ok_def by presburger
next
  case insert
  then show "policies_ok ps \<Longrightarrow> ?thesis"
    unfolding insert(2) policies_ok_def using fresh_id [of "map pol_ID ps"] by auto
qed

lemma policyUpsert_set:
  "q \<in> set (policyUpsert now p ps) \<Longrightarrow> q \<in> set ps \<and> policy_target q \<noteq> policy_target p \<or> stored_as p q"
  "q \<in> set ps \<Longrightarrow> policy_target q \<noteq> policy_target p \<Longrightarrow> q \<in> set (policyUpsert now p ps)"
  "\<exists>q \<in> set (policyUpsert now p ps). stored_as p q"
proof -
  have s: "stored_as p (p\<lparr>pol_ID := i, pol_CreatedAt := c, pol_UpdatedAt := u\<rparr>)" for i c u
    by (auto simp: stored_as_def)
  show "q \<in> set (policyUpsert now p ps) \<Longrightarrow> q \<in> set ps \<and> policy_target q \<noteq> policy_target p \<or> stored_as p q"
    by (cases rule: policyUpsert_cases [of p ps now]) (auto simp: s rev_image_eqI)
  show "q \<in> set ps \<Longrightarrow> policy_target q \<noteq> policy_target p \<Longrightarrow> q \<in> set (policyUpsert now p ps)"
  proof (cases rule: policyUpsert_cases [of p ps now])
    case update
    assume "q \<in> set ps" "policy_target q \<noteq> policy_target p"
    then show ?thesis unfolding update(2) set_map by (intro image_eqI [of _ _ q]) (simp_all only: if_False)
  next
    case insert
    assume "q \<in> set ps"
    then show ?thesis unfolding insert(2) by simp
  qed
  show "\<exists>q \<in> set (policyUpsert now p ps). stored_as p q"
  proof (cases rule: policyUpsert_cases [of p ps now])
    case update
    then obtain r where "r \<in> set ps" "policy_target r = policy_target p" by (metis imageE)
    then show ?thesis unfolding update(2) set_map
      by (intro bexI [OF _ imageI [of r]]) (simp_all add: s)
  next
    case insert
    show ?thesis unfolding insert(2) using s by simp
  qed
qed

lemma policyUpsert_inv: "policies_inv ps \<Longrightarrow> policy_wf p \<Longrightarrow> policies_inv (policyUpsert now p ps)"
  using policyUpsert_ok policyUpsert_set(1) stored_as_target unfolding policies_inv_def by blast

lemma policyDelete_inv: "policies_inv ps \<Longrightarrow> policies_inv (policyDelete host t k ps)"
  by (auto simp: policies_inv_def policies_ok_def policyDelete_def distinct_map inj_on_def)

lemma policyDelete_fold:
  "set (foldl (\<lambda>t r. policyDelete host (ptr_TargetType r) (ptr_TargetKey r) t) ps rs) =
     {q \<in> set ps. \<forall>r \<in> set rs. policy_target q \<noteq> (host, ptr_TargetType r, ptr_TargetKey r)} \<and>
   (policies_inv ps \<longrightarrow> policies_inv (foldl (\<lambda>t r. policyDelete host (ptr_TargetType r) (ptr_TargetKey r) t) ps rs))"
proof (induction rs arbitrary: ps)
  case (Cons r rs)
  show ?case using Cons [of "policyDelete host (ptr_TargetType r) (ptr_TargetKey r) ps"]
    policyDelete_inv [of ps host "ptr_TargetType r" "ptr_TargetKey r"]
    by (auto simp: policyDelete_def)
qed simp

lemma policyUpsert_fold:
  assumes "distinct (map policy_target vs)" "\<forall>v \<in> set vs. policy_wf v" "policies_inv ps"
  shows "policies_inv (foldl (\<lambda>t p. policyUpsert now p t) ps vs) \<and>
    (\<forall>v \<in> set vs. \<exists>q \<in> set (foldl (\<lambda>t p. policyUpsert now p t) ps vs). stored_as v q) \<and>
    (\<forall>q \<in> set ps. policy_target q \<notin> policy_target ` set vs \<longrightarrow> q \<in> set (foldl (\<lambda>t p. policyUpsert now p t) ps vs))"
  using assms
proof (induction vs arbitrary: ps)
  case (Cons v vs)
  let ?ps = "policyUpsert now v ps"
  have inv: "policies_inv ?ps" using Cons.prems by (intro policyUpsert_inv) auto
  note IH = Cons.IH [of ?ps] Cons.prems inv
  obtain q where q: "q \<in> set ?ps" "stored_as v q" using policyUpsert_set(3) by blast
  then have "policy_target q \<notin> policy_target ` set vs" using Cons.prems(1) stored_as_target by auto
  then have "\<exists>q \<in> set (foldl (\<lambda>t p. policyUpsert now p t) ?ps vs). stored_as v q" using IH q by auto
  moreover have "q \<in> set (foldl (\<lambda>t p. policyUpsert now p t) ?ps vs)"
    if "q \<in> set ps" "policy_target q \<notin> policy_target ` set (v # vs)" for q
    using that IH policyUpsert_set(2) [of q ps v now] by auto
  ultimately show ?case using IH by auto
qed simp

lemma validateMany_spec:
  "validateMany cron now i host seen ps = Inr (h, vs) \<Longrightarrow> cron_ignores_blanks cron \<Longrightarrow>
     distinct (map policyKey vs) \<and> set (map policyKey vs) \<inter> set seen = {} \<and>
     (\<forall>v \<in> set vs. policy_wf v \<and> (i \<noteq> 0 \<longrightarrow> pol_Host v = host)) \<and>
     (\<forall>v \<in> set vs. pol_Host v = h) \<and> (i \<noteq> 0 \<longrightarrow> h = host) \<and>
     list_all2 (\<lambda>p v. validatePolicy cron now p = Inr v) ps vs"
proof (induction cron now i host seen ps arbitrary: h vs rule: validateMany.induct)
  case (2 cron now i host seen p0 ps)
  obtain p where p: "validatePolicy cron now p0 = Inr p" using 2(2) by (auto split: sum.splits)
  let ?h = "if i = 0 then pol_Host p else host"
  have ok: "pol_Host p = ?h" "policyKey p \<notin> set seen" using 2(2) p by (auto simp: Let_def split: if_splits)
  then obtain ws where ws: "validateMany cron now (i + 1) ?h (policyKey p # seen) ps = Inr (h, ws)" "vs = p # ws"
    using 2(2) p by (auto simp: Let_def split: sum.splits if_splits)
  have wf: "policy_wf p" using validatePolicy_wf [OF p 2(3)] .
  have "distinct (map policyKey ws) \<and> set (map policyKey ws) \<inter> set (policyKey p # seen) = {} \<and>
     (\<forall>v \<in> set ws. policy_wf v \<and> pol_Host v = ?h) \<and> (\<forall>v \<in> set ws. pol_Host v = h) \<and> h = ?h \<and>
     list_all2 (\<lambda>p v. validatePolicy cron now p = Inr v) ps ws"
    using 2(1) [OF p refl _ ok(2) ws(1) 2(3)] ok(1) by simp
  then show ?case using ok wf p unfolding ws(2) by auto
qed simp

lemma policyKey_target: "policy_target p = policy_target q \<Longrightarrow> policyKey p = policyKey q"
  by (simp add: policy_target_def policyKey_def)

lemma distinct_targets: "distinct (map policyKey vs) \<Longrightarrow> distinct (map policy_target vs)"
  by (auto simp: distinct_map inj_on_def dest: policyKey_target)

text \<open>
  saving many policies is all or nothing.  Whatever fails, the validation of one policy, a
  duplicate, a second host, an invalid removal or the database, the table is unchanged; on
  success every submitted policy is stored in its validated form, and rows that were neither
  submitted nor named for removal are untouched.  The table stays well formed, with one row
  per target.
\<close>

theorem policySaveMany_atomic:
  assumes "policies_inv ps" and "cron_ignores_blanks cron"
    and "policySaveMany fault cron now policies removals ps = (err, ps')"
  shows "policies_inv ps' \<and> (err \<noteq> None \<longrightarrow> ps' = ps) \<and>
    (err = None \<longrightarrow>
      (\<exists>vs rs. list_all2 (\<lambda>p v. validatePolicy cron now p = Inr v) policies vs \<and> validateRemovals 0 removals = Inr rs \<and>
        (\<forall>v \<in> set vs. \<exists>q \<in> set ps'. stored_as v q) \<and>
        (\<forall>q \<in> set ps. policy_target q \<notin> policy_target ` set vs \<and>
           (\<forall>r \<in> set rs. (pol_TargetType q, pol_TargetKey q) \<noteq> (ptr_TargetType r, ptr_TargetKey r)) \<longrightarrow> q \<in> set ps')))"
proof (cases err)
  case (Some e)
  then have "ps' = ps" using assms(3)
    by (auto simp: policySaveMany_def policyApplyMany_def Let_def split: if_splits sum.splits prod.splits option.splits)
  then show ?thesis using Some assms(1) by simp
next
  case None
  then obtain host vs rs where v: "validateMany cron now 0 [] [] policies = Inr (host, vs)"
    and r: "validateRemovals 0 removals = Inr rs" and e: "policyApplyMany fault now host vs rs ps = (None, ps')"
    using assms(3) by (auto simp: policySaveMany_def split: if_splits sum.splits prod.splits)
  define removed where "removed = foldl (\<lambda>t r. policyDelete host (ptr_TargetType r) (ptr_TargetKey r) t) ps rs"
  have ps': "ps' = foldl (\<lambda>t p. policyUpsert now p t) removed vs"
    using e by (auto simp: policyApplyMany_def removed_def Let_def split: option.splits)
  have rm: "policies_inv removed" and sub: "set removed =
      {q \<in> set ps. \<forall>r \<in> set rs. policy_target q \<noteq> (host, ptr_TargetType r, ptr_TargetKey r)}"
    using policyDelete_fold [where host = host and ps = ps and rs = rs] assms(1)
    unfolding removed_def by auto
  have vs: "distinct (map policy_target vs)" "\<forall>v \<in> set vs. policy_wf v"
    "list_all2 (\<lambda>p v. validatePolicy cron now p = Inr v) policies vs"
    using validateMany_spec [OF v assms(2)] by (auto intro: distinct_targets)
  note up = policyUpsert_fold [OF vs(1,2) rm, of now, folded ps']
  have "q \<in> set ps'" if "q \<in> set ps" "policy_target q \<notin> policy_target ` set vs"
    "\<forall>r \<in> set rs. (pol_TargetType q, pol_TargetKey q) \<noteq> (ptr_TargetType r, ptr_TargetKey r)" for q
  proof -
    have "q \<in> set removed" using that(1,3) sub by (auto simp: policy_target_def)
    then show ?thesis using up that(2) by blast
  qed
  then show ?thesis using None up vs(3) r by blast
qed

theorem policySaveMany_atomic_witness:
  "\<exists>ps'. policySaveMany None sampleCron 1 [samplePolicy] [] [] = (None, ps') \<and> policies_inv ps' \<and>
     (\<exists>q \<in> set ps'. stored_as savedPolicy q)"
proof -
  obtain ps' where e: "policySaveMany None sampleCron 1 [samplePolicy] [] [] = (None, ps')"
    by (simp add: policySaveMany_def sample_saved policyApplyMany_def Let_def)
  have "policies_inv []" by (simp add: policies_inv_def policies_ok_def)
  from policySaveMany_atomic [OF this sampleCron_blanks e] e show ?thesis
    by (auto simp: list_all2_Cons1 sample_saved)
qed

subsection \<open>Who may be updated automatically\<close>

lemma byTarget_Some:
  assumes "map_of (byTarget policies) k = Some p"
  shows "p \<in> set policies \<and> k = pol_TargetType p @ nul @ pol_TargetKey p"
proof -
  have "map_of (foldl (\<lambda>m p. AList.update (pol_TargetType p @ nul @ pol_TargetKey p) p m) m0 policies) k = Some p \<Longrightarrow>
      map_of m0 k = Some p \<or> p \<in> set policies \<and> k = pol_TargetType p @ nul @ pol_TargetKey p" for m0
  proof (induction policies arbitrary: m0)
    case (Cons q qs)
    from Cons.IH [of "AList.update (pol_TargetType q @ nul @ pol_TargetKey q) q m0"] Cons.prems
    show ?case by (auto simp: gm.look_put split: if_splits)
  qed simp
  from this [of "[]"] show ?thesis using assms by (simp add: byTarget_def)
qed

lemma nul_append: "a @ nul @ b = c @ nul @ d \<Longrightarrow> CHR 0x00 \<notin> set a \<Longrightarrow> CHR 0x00 \<notin> set c \<Longrightarrow> a = c \<and> b = d"
  by (induction a arbitrary: c) (auto simp: nul_def Cons_eq_append_conv)

lemma target_types_no_nul: "CHR 0x00 \<notin> set UpdateTargetContainer" "CHR 0x00 \<notin> set UpdateTargetStack"
  by (simp_all add: UpdateTargetContainer_def UpdateTargetStack_def)

lemma byTarget_policy:
  assumes "map_of (byTarget (policyList host ps)) (t @ nul @ k) = Some p" "policies_inv ps"
    "t \<in> {UpdateTargetContainer, UpdateTargetStack}"
  shows "p \<in> set ps \<and> policy_target p = (host, t, k)"
proof -
  have "p \<in> set (policyList host ps)" "t @ nul @ k = pol_TargetType p @ nul @ pol_TargetKey p"
    using byTarget_Some [OF assms(1)] by auto
  then have p: "p \<in> set ps" "pol_Host p = host" by (auto simp: policyList_def)
  then have "pol_TargetType p \<in> {UpdateTargetContainer, UpdateTargetStack}"
    using assms(2) by (auto simp: policies_inv_def policy_wf_def)
  then have "t = pol_TargetType p \<and> k = pol_TargetKey p"
    using assms(3) target_types_no_nul \<open>t @ nul @ k = _\<close> by (intro nul_append) auto
  then show ?thesis using p by (simp add: policy_target_def)
qed

lemma byTarget_complete:
  assumes "p \<in> set policies"
  shows "map_of (byTarget policies) (pol_TargetType p @ nul @ pol_TargetKey p) \<noteq> None"
proof -
  have "map_of m0 k \<noteq> None \<or> (\<exists>q \<in> set policies. k = pol_TargetType q @ nul @ pol_TargetKey q) \<Longrightarrow>
      map_of (foldl (\<lambda>m p. AList.update (pol_TargetType p @ nul @ pol_TargetKey p) p m) m0 policies) k \<noteq> None" for m0 k
  proof (induction policies arbitrary: m0)
    case (Cons q qs)
    then show ?case unfolding foldl_Cons by (intro Cons.IH) (auto simp: gm.look_put)
  qed simp
  from this [of "[]" "pol_TargetType p @ nul @ pol_TargetKey p"] assms show ?thesis
    unfolding byTarget_def by blast
qed

text \<open>The row of a target in the table.\<close>

definition policy_at :: "policy_table \<Rightarrow> string \<times> string \<times> string \<Rightarrow> UpdatePolicy option" where
  "policy_at ps t = List.find (\<lambda>p. policy_target p = t) ps"

lemma find_distinct_key:
  "distinct (map f xs) \<Longrightarrow> List.find (\<lambda>x. f x = t) xs = Some x \<longleftrightarrow> x \<in> set xs \<and> f x = t"
  by (induction xs) (auto simp: rev_image_eqI)

lemma policy_at_Some: "policies_inv ps \<Longrightarrow> policy_at ps t = Some p \<longleftrightarrow> p \<in> set ps \<and> policy_target p = t"
  by (simp add: policy_at_def policies_inv_def policies_ok_def find_distinct_key)

lemma byTarget_policy_at:
  assumes "policies_inv ps" "t \<in> {UpdateTargetContainer, UpdateTargetStack}"
  shows "map_of (byTarget (policyList host ps)) (t @ nul @ k) = policy_at ps (host, t, k)"
proof (cases "map_of (byTarget (policyList host ps)) (t @ nul @ k)")
  case (Some p)
  then show ?thesis using byTarget_policy [OF Some assms] policy_at_Some [OF assms(1), of "(host, t, k)" p] by simp
next
  case None
  have "policy_at ps (host, t, k) = None"
  proof (rule ccontr)
    assume "policy_at ps (host, t, k) \<noteq> None"
    then obtain p where "p \<in> set ps" "policy_target p = (host, t, k)" using policy_at_Some [OF assms(1)] by auto
    then show False using None byTarget_complete [of p "policyList host ps"]
      by (simp add: policyList_def policy_target_def)
  qed
  then show ?thesis using None by simp
qed

text \<open>
  The rule an operator can read: Dockman and containers held back by label are never enrolled;
  an explicit \<open>dockman.update\<close> label decides alone; without it a container that holds the
  daemon socket is not enrolled, and otherwise the policy of the container, or else the one of
  its stack, decides.
\<close>

definition enrolledBy :: "policy_table \<Rightarrow> string \<Rightarrow> containerSummary \<Rightarrow> bool" where
  "enrolledBy ps host item \<longleftrightarrow>
     \<not> hasDockmanLabel item \<and> \<not> hasDisableUpdateLabel item \<and>
     (if map_of (cs_Labels item) DockmanOptInUpdateLabel \<noteq> None
      then parseBoolLabel (cs_Labels item) DockmanOptInUpdateLabel = (True, True, True)
      else \<not> ExposesDockerSocket item \<and>
        (case policy_at ps (host, UpdateTargetContainer, summaryName item) of
           Some p \<Rightarrow> pol_Enabled p
         | None \<Rightarrow>
             snd (stackIdentity (cs_Labels item)) \<noteq> [] \<and>
             (case policy_at ps (host, UpdateTargetStack, snd (stackIdentity (cs_Labels item))) of
                Some p \<Rightarrow> pol_Enabled p | None \<Rightarrow> False)))"

lemma applyPolicy_row [simp]:
  "enr_Enrolled (applyPolicy cron now p row) = pol_Enabled p"
  "enr_ContainerID (applyPolicy cron now p row) = enr_ContainerID row"
  by (simp_all add: applyPolicy_def schedule_error_def Let_def split: sum.split)

lemma labels_row [simp]:
  "enr_Enrolled (labelRollback ls row) = enr_Enrolled row" "enr_ContainerID (labelRollback ls row) = enr_ContainerID row"
  "enr_Enrolled (labelCleanup ls row) = enr_Enrolled row" "enr_ContainerID (labelCleanup ls row) = enr_ContainerID row"
  "enr_Enrolled (labelKeep ls row) = enr_Enrolled row" "enr_ContainerID (labelKeep ls row) = enr_ContainerID row"
  "enr_Enrolled (labelVersion ls row) = enr_Enrolled row" "enr_ContainerID (labelVersion ls row) = enr_ContainerID row"
  by (simp_all add: labelRollback_def labelCleanup_def labelKeep_def labelVersion_def Let_def split: prod.split option.split)

lemma enrollByLabel_row [simp]:
  "enr_Enrolled (enrollByLabel cron now ls row)" "enr_ContainerID (enrollByLabel cron now ls row) = enr_ContainerID row"
  by (simp_all add: enrollByLabel_def schedule_error_def Let_def split: sum.split)

lemma baseRow_fields [simp]:
  "enr_ContainerID (baseRow item) = cs_ID item" "enr_ContainerName (baseRow item) = summaryName item"
  "\<not> enr_Enrolled (baseRow item)" "enr_StackKey (baseRow item) = snd (stackIdentity (cs_Labels item))"
  by (simp_all add: baseRow_def split: prod.split)

lemma parseBoolLabel_present: "fst (snd (parseBoolLabel ls k)) = (map_of ls k \<noteq> None)"
  by (simp add: parseBoolLabel_absent)

lemma enrollment_ID: "enr_ContainerID (enrollment cron now targets item) = cs_ID item"
  by (simp add: enrollment_def Let_def split: prod.split option.split)

lemma enrollment_enrolledBy:
  assumes "policies_inv ps"
  shows "enr_Enrolled (enrollment cron now (byTarget (policyList host ps)) item) \<longleftrightarrow> enrolledBy ps host item"
proof -
  obtain en ep ev where e: "parseBoolLabel (cs_Labels item) DockmanOptInUpdateLabel = (en, ep, ev)" by (metis prod_cases3)
  obtain dn dp dv where d: "parseBoolLabel (cs_Labels item) DockmanUpdateDisableLabel = (dn, dp, dv)" by (metis prod_cases3)
  have ep: "ep \<longleftrightarrow> map_of (cs_Labels item) DockmanOptInUpdateLabel \<noteq> None"
    using parseBoolLabel_present [of "cs_Labels item" DockmanOptInUpdateLabel] e by simp
  note at = byTarget_policy_at [OF assms, where host = host]
  show ?thesis
    unfolding enrollment_def enrolledBy_def hasDisableUpdateLabel_def Let_def e d prod.case ep [symmetric]
    by (auto simp: at split: option.split)
qed

text \<open>
  C38: the inventory enrols a container for automatic updates exactly when the documented
  precedence allows it: never Dockman itself, never a container held back by a disable label
  (an unreadable one included), the explicit label before anything else, no container that
  holds the Docker socket without that label, and the container's own policy before its
  stack's.  Every container of the host appears exactly once.
\<close>

theorem Inventory_enrols_by_rule:
  assumes "policies_inv ps" and "Inventory fault cron now host ps items = Inr rows"
  shows "mset (map (\<lambda>r. (enr_ContainerID r, enr_Enrolled r)) rows) = mset (map (\<lambda>i. (cs_ID i, enrolledBy ps host i)) items) \<and>
    sorted (map (\<lambda>r. ToLower (enr_ContainerName r)) rows)"
proof -
  let ?row = "enrollment cron now (byTarget (policyList host ps))"
  have rows: "rows = sort_key (\<lambda>r. ToLower (enr_ContainerName r)) (map ?row items)"
    using assms(2) by (auto simp: Inventory_def Let_def split: option.splits)
  have "mset (map (\<lambda>r. (enr_ContainerID r, enr_Enrolled r)) rows) =
      mset (map (\<lambda>r. (enr_ContainerID r, enr_Enrolled r)) (map ?row items))"
    unfolding rows by (simp only: mset_map gs.mset_srt)
  also have "\<dots> = mset (map (\<lambda>i. (cs_ID i, enrolledBy ps host i)) items)"
    by (simp add: comp_def enrollment_ID enrollment_enrolledBy [OF assms(1)])
  finally show ?thesis unfolding rows using gs.sorted_srt by blast
qed

definition socketContainer :: "(string, string) gomap \<Rightarrow> containerSummary" where
  "socketContainer ls =
     \<lparr>cs_ID = ''p1'', cs_Names = [''/proxy''], cs_Image = ''proxy:1'', cs_ImageID = ''sha256:1'', cs_State = ''running'',
      cs_Labels = ls, cs_Mounts = [\<lparr>mnt_Source = ''/var/run/./docker.sock'', mnt_Destination = ''/sock''\<rparr>]\<rparr>"

theorem Inventory_enrols_by_rule_witness:
  "\<exists>r. Inventory None sampleCron 1 ''local'' [savedPolicy] [(sampleContainer ''web'' [])] = Inr [r] \<and> enr_Enrolled r \<and>
     enrolledBy [savedPolicy] ''local'' (sampleContainer ''web'' [])"
proof -
  have wf: "policies_inv [savedPolicy]"
    using validatePolicy_wf [OF sample_saved sampleCron_blanks] by (simp add: policies_inv_def policies_ok_def)
  obtain r where r: "Inventory None sampleCron 1 ''local'' [savedPolicy] [sampleContainer ''web'' []] = Inr [r]"
    by (simp add: Inventory_def Let_def)
  have "enrolledBy [savedPolicy] ''local'' (sampleContainer ''web'' [])" by code_simp
  then show ?thesis using Inventory_enrols_by_rule [OF wf r] r by simp
qed

text \<open>
  The guard of the manual update path reads the presence of the opt-in label, not its
  value.  A container that holds the Docker socket and says \<open>dockman.update=false\<close> is refused
  by the inventory and let through by the guard, so the manual path replaces it through the
  connection it carries.
\<close>

theorem guard_ignores_opt_in_value:
  "ExposesDockerSocket (socketContainer [(DockmanOptInUpdateLabel, ''false'')]) \<and>
   \<not> enrolledBy ps host (socketContainer [(DockmanOptInUpdateLabel, ''false'')]) \<and>
   guardProtectedInfrastructure (socketContainer [(DockmanOptInUpdateLabel, ''false'')]) = None \<and>
   guardProtectedInfrastructure (socketContainer []) \<noteq> None"
proof -
  have s: "ExposesDockerSocket (socketContainer ls)" for ls
  proof -
    have "path_clean ''/var/run/./docker.sock'' = ''/var/run/docker.sock''" by code_simp
    then show ?thesis by (simp add: ExposesDockerSocket_def socketContainer_def dockerSocketPaths_def)
  qed
  have d: "\<not> hasDockmanLabel (socketContainer [])" "\<not> hasDockmanLabel (socketContainer [(DockmanOptInUpdateLabel, ''false'')])"
    by code_simp+
  have "parseBoolLabel [(DockmanOptInUpdateLabel, ''false'')] DockmanOptInUpdateLabel = (False, True, True)" by code_simp
  then have "\<not> enrolledBy ps host (socketContainer [(DockmanOptInUpdateLabel, ''false'')])"
    by (simp add: enrolledBy_def socketContainer_def)
  then show ?thesis using s d by (simp add: guard_None_iff) (simp add: socketContainer_def)
qed

end
