(* ===== verification/Image_Scan.thy ===== *)
theory Image_Scan
  imports Container_Labels Version_Discovery
begin

section \<open>The read-only scan for image updates\<close>

text \<open>
  Models \<open>core/internal/docker/updater/scan.go\<close>.  The Docker daemon answers the container
  list and the image inspections, the registry the digest of an image reference; both are
  arguments (\<^verbatim>\<open>inspect\<close>, \<^verbatim>\<open>digestOf\<close>), so the lookups of the parallel workers may be answered in
  any order.  \<open>RegistryManifestDigest\<close> of \<open>Registry_Client\<close> is the instance the code uses.
\<close>

text \<open>\<open>ContainerUpdateUnset\<close> is the empty string, the zero value of the Go type.\<close>

datatype ContainerUpdateStatus =
  ContainerUpdateAvailable
| ContainerUpdateCurrent
| ContainerUpdateSkipped
| ContainerUpdateError
| ContainerUpdateUnset

record ContainerUpdateCheck =
  chk_ContainerID :: string
  chk_ContainerName :: string
  chk_Image :: string
  chk_Status :: ContainerUpdateStatus
  chk_CurrentDigest :: string
  chk_RemoteDigest :: string
  chk_Reason :: string
  chk_CurrentTag :: string
  chk_LatestTag :: string
  chk_VersionPolicy :: string
  chk_VersionAvailable :: bool
  chk_VersionReason :: string

record imageUpdateCheck =
  iuc_status :: ContainerUpdateStatus
  iuc_remoteDigest :: string
  iuc_reason :: string

record inspectedImage =
  ins_digests :: "string list"
  ins_err :: "string option"

fun addDigest :: "string \<Rightarrow> string list \<Rightarrow> string \<Rightarrow> string list" where
  "addDigest target result v =
     (case cut v ''@sha256:'' of
        None \<Rightarrow> result
      | Some (name, digest) \<Rightarrow>
          if digest = [] then result
          else case parseRegistryImageReference name of
            Inl _ \<Rightarrow> result
          | Inr ref \<Rightarrow>
              if repositoryKey ref \<noteq> target then result
              else if digest \<in> set result then result
              else result @ [digest])"

definition repositoryDigestsForImage :: "string list \<Rightarrow> string \<Rightarrow> string list" where
  "repositoryDigestsForImage repoDigests img =
     (case parseRegistryImageReference img of
        Inl _ \<Rightarrow> []
      | Inr target \<Rightarrow> foldl (addDigest (repositoryKey target)) [] repoDigests)"

definition checkRemoteImage :: "(string \<Rightarrow> string + string) \<Rightarrow> string \<Rightarrow> imageUpdateCheck" where
  "checkRemoteImage digestOf img =
     (let skipped = (\<lambda>r. \<lparr>iuc_status = ContainerUpdateSkipped, iuc_remoteDigest = [], iuc_reason = r\<rparr>);
          failed = (\<lambda>r. \<lparr>iuc_status = ContainerUpdateError, iuc_remoteDigest = [], iuc_reason = r\<rparr>)
      in if img = [] \<or> HasPrefix img ''sha256:'' then skipped ''image has no pullable repository tag''
         else if Contains img ''@sha256:'' then skipped ''image is pinned to a digest''
         else if HasPrefix img ''localhost/'' \<or> HasPrefix img ''localhost:'' \<or>
                 HasPrefix img ''127.0.0.1/'' \<or> HasPrefix img ''127.0.0.1:''
         then skipped ''local registry image''
         else case digestOf img of
           Inl e \<Rightarrow> failed (''registry check: '' @ e)
         | Inr remoteDigest \<Rightarrow>
             (let digest = TrimPrefix remoteDigest ''sha256:'' in
              if digest = [] then failed ''registry returned no digest''
              else \<lparr>iuc_status = ContainerUpdateCurrent, iuc_remoteDigest = digest, iuc_reason = []\<rparr>))"

definition emptyCheck :: "containerSummary \<Rightarrow> ContainerUpdateCheck" where
  "emptyCheck row =
     \<lparr>chk_ContainerID = cs_ID row, chk_ContainerName = summaryName row, chk_Image = cs_Image row,
      chk_Status = ContainerUpdateUnset, chk_CurrentDigest = [], chk_RemoteDigest = [], chk_Reason = [],
      chk_CurrentTag = [], chk_LatestTag = [], chk_VersionPolicy = [], chk_VersionAvailable = False, chk_VersionReason = []\<rparr>"

definition CheckContainerImageUpdate ::
  "(string \<Rightarrow> string + string list) \<Rightarrow> (string \<Rightarrow> string + string) \<Rightarrow> containerSummary \<Rightarrow> ContainerUpdateCheck" where
  "CheckContainerImageUpdate inspect digestOf row =
     (let result = emptyCheck row in
      if cs_ImageID row = []
      then result\<lparr>chk_Status := ContainerUpdateSkipped, chk_Reason := ''container has no resolved local image''\<rparr>
      else case inspect (cs_ImageID row) of
        Inl e \<Rightarrow> result\<lparr>chk_Status := ContainerUpdateError, chk_Reason := ''inspect running image: '' @ e\<rparr>
      | Inr repoDigests \<Rightarrow>
          (let localDigests = repositoryDigestsForImage repoDigests (cs_Image row) in
           if localDigests = []
           then result\<lparr>chk_Status := ContainerUpdateSkipped, chk_Reason := ''locally built image; no matching repository digest''\<rparr>
           else
             let remote = checkRemoteImage digestOf (cs_Image row);
                 result = result\<lparr>chk_CurrentDigest := hd localDigests, chk_Status := iuc_status remote,
                                 chk_RemoteDigest := iuc_remoteDigest remote, chk_Reason := iuc_reason remote\<rparr>
             in if chk_Status result = ContainerUpdateCurrent \<and> chk_RemoteDigest result \<notin> set localDigests
                then result\<lparr>chk_Status := ContainerUpdateAvailable\<rparr> else result))"

text \<open>Each distinct image is inspected once; the ids are those of the listed containers.\<close>

definition inspectIDs :: "containerSummary list \<Rightarrow> string list" where
  "inspectIDs items = sort (remdups (filter (\<lambda>i. i \<noteq> []) (map cs_ImageID items)))"

definition inspectImages ::
  "(string \<Rightarrow> string + string list) \<Rightarrow> containerSummary list \<Rightarrow> (string, inspectedImage) gomap" where
  "inspectImages inspect items =
     map (\<lambda>i. (i, case inspect i of
                    Inl e \<Rightarrow> \<lparr>ins_digests = [], ins_err = Some e\<rparr>
                  | Inr ds \<Rightarrow> \<lparr>ins_digests = ds, ins_err = None\<rparr>)) (inspectIDs items)"

definition inspected_at :: "(string, inspectedImage) gomap \<Rightarrow> string \<Rightarrow> inspectedImage" where
  "inspected_at m i = (case map_of m i of Some s \<Rightarrow> s | None \<Rightarrow> \<lparr>ins_digests = [], ins_err = None\<rparr>)"

text \<open>The images a registry is asked about: those with a matching local repository digest.\<close>

definition scanImages :: "(string, inspectedImage) gomap \<Rightarrow> containerSummary list \<Rightarrow> string list" where
  "scanImages inspected items =
     sort (remdups (map cs_Image
       (filter (\<lambda>row. let state = inspected_at inspected (cs_ImageID row)
                      in ins_err state = None \<and> repositoryDigestsForImage (ins_digests state) (cs_Image row) \<noteq> []) items)))"

definition scanRow ::
  "(string, inspectedImage) gomap \<Rightarrow> (string, imageUpdateCheck) gomap \<Rightarrow> containerSummary \<Rightarrow> ContainerUpdateCheck" where
  "scanRow inspected checks row =
     (let result = emptyCheck row in
      if hasDockmanLabel row
      then result\<lparr>chk_Status := ContainerUpdateSkipped, chk_Reason := ''Dockman uses its dedicated self-update action''\<rparr>
      else if hasDisableUpdateLabel row
      then result\<lparr>chk_Status := ContainerUpdateSkipped, chk_Reason := DockmanUpdateDisableLabel @ ''=true''\<rparr>
      else
        let state = inspected_at inspected (cs_ImageID row) in
        case ins_err state of
          Some e \<Rightarrow> result\<lparr>chk_Status := ContainerUpdateError, chk_Reason := ''inspect running image: '' @ e\<rparr>
        | None \<Rightarrow>
            (let localDigests = repositoryDigestsForImage (ins_digests state) (cs_Image row) in
             if localDigests = []
             then result\<lparr>chk_Status := ContainerUpdateSkipped, chk_Reason := ''locally built image; no matching repository digest''\<rparr>
             else
               let remote = (case map_of checks (cs_Image row) of
                               Some r \<Rightarrow> r
                             | None \<Rightarrow> \<lparr>iuc_status = ContainerUpdateUnset, iuc_remoteDigest = [], iuc_reason = []\<rparr>);
                   result = result\<lparr>chk_CurrentDigest := hd localDigests, chk_Status := iuc_status remote,
                                   chk_RemoteDigest := iuc_remoteDigest remote, chk_Reason := iuc_reason remote\<rparr>
               in if chk_Status result = ContainerUpdateSkipped then result
                  else if chk_Status result = ContainerUpdateError then result
                  else if chk_RemoteDigest result \<in> set localDigests
                  then result\<lparr>chk_Status := ContainerUpdateCurrent\<rparr>
                  else result\<lparr>chk_Status := ContainerUpdateAvailable\<rparr>))"

definition checkContainerUpdates ::
  "string + containerSummary list \<Rightarrow> (string \<Rightarrow> string + string list) \<Rightarrow> (string \<Rightarrow> string + string) \<Rightarrow>
     string list option \<Rightarrow> string + ContainerUpdateCheck list" where
  "checkContainerUpdates listed inspect digestOf selected =
     (case listed of
        Inl e \<Rightarrow> Inl (''list containers: '' @ e)
      | Inr all \<Rightarrow>
          let items = (case selected of None \<Rightarrow> all | Some ids \<Rightarrow> filter (\<lambda>c. cs_ID c \<in> set ids) all);
              inspected = inspectImages inspect items;
              checks = map (\<lambda>img. (img, checkRemoteImage digestOf img)) (scanImages inspected items)
          in Inr (sort_key (\<lambda>r. ToLower (chk_ContainerName r)) (map (scanRow inspected checks) items)))"

definition CheckContainerUpdates ::
  "string + containerSummary list \<Rightarrow> (string \<Rightarrow> string + string list) \<Rightarrow> (string \<Rightarrow> string + string) \<Rightarrow>
     string + ContainerUpdateCheck list" where
  "CheckContainerUpdates listed inspect digestOf = checkContainerUpdates listed inspect digestOf None"

definition CheckContainerUpdatesByID ::
  "string + containerSummary list \<Rightarrow> (string \<Rightarrow> string + string list) \<Rightarrow> (string \<Rightarrow> string + string) \<Rightarrow>
     string list \<Rightarrow> string + ContainerUpdateCheck list" where
  "CheckContainerUpdatesByID listed inspect digestOf ids =
     (if ids = [] then Inr [] else checkContainerUpdates listed inspect digestOf (Some ids))"

subsection \<open>Local digests\<close>

definition digest_of :: "string \<Rightarrow> string \<Rightarrow> string option" where
  "digest_of target v =
     (case cut v ''@sha256:'' of
        None \<Rightarrow> None
      | Some (name, digest) \<Rightarrow>
          if digest = [] then None
          else case parseRegistryImageReference name of
            Inl _ \<Rightarrow> None
          | Inr ref \<Rightarrow> if repositoryKey ref = target then Some digest else None)"

lemma addDigest_eq:
  "addDigest target result v =
     (case digest_of target v of None \<Rightarrow> result | Some d \<Rightarrow> if d \<in> set result then result else result @ [d])"
  by (cases "cut v ''@sha256:''"; cases "parseRegistryImageReference (fst (the (cut v ''@sha256:'')))")
    (auto simp: digest_of_def simp del: cut.simps)

lemma addDigest_fold:
  "distinct result \<Longrightarrow> distinct (foldl (addDigest target) result vs) \<and>
     set (foldl (addDigest target) result vs) = set result \<union> {d. \<exists>v \<in> set vs. digest_of target v = Some d}"
proof (induction vs arbitrary: result)
  case (Cons v vs)
  have "distinct (addDigest target result v) \<and>
      set (addDigest target result v) = set result \<union> {d. digest_of target v = Some d}"
    unfolding addDigest_eq using Cons.prems by (auto split: option.split)
  then show ?case using Cons.IH [of "addDigest target result v"] by (auto simp del: addDigest.simps)
qed simp

text \<open>
  The local digests compared with the registry are exactly those recorded for the same
  repository, whatever way the repository is written in the daemon's records, each listed once.
\<close>

theorem repositoryDigestsForImage_same_repository:
  assumes "parseRegistryImageReference img = Inr target"
  shows "distinct (repositoryDigestsForImage repoDigests img) \<and>
    (d \<in> set (repositoryDigestsForImage repoDigests img) \<longleftrightarrow>
       d \<noteq> [] \<and> (\<exists>v \<in> set repoDigests. \<exists>name ref. cut v ''@sha256:'' = Some (name, d) \<and>
         parseRegistryImageReference name = Inr ref \<and> repositoryKey ref = repositoryKey target))"
proof -
  have "digest_of (repositoryKey target) v = Some d \<longleftrightarrow>
      d \<noteq> [] \<and> (\<exists>name ref. cut v ''@sha256:'' = Some (name, d) \<and> parseRegistryImageReference name = Inr ref \<and>
        repositoryKey ref = repositoryKey target)" for v
    by (auto simp: digest_of_def split: option.splits sum.splits)
  then show ?thesis
    using addDigest_fold [of "[]" "repositoryKey target" repoDigests] assms
    by (auto simp: repositoryDigestsForImage_def)
qed

theorem repositoryDigestsForImage_same_repository_witness:
  "repositoryDigestsForImage [''nginx@sha256:aa'', ''docker.io/library/nginx@sha256:bb'', ''redis@sha256:cc'', ''nginx@sha256:aa''] ''nginx:1''
     = [''aa'', ''bb''] \<and>
   distinct (repositoryDigestsForImage [''nginx@sha256:aa'', ''docker.io/library/nginx@sha256:bb'', ''redis@sha256:cc'', ''nginx@sha256:aa''] ''nginx:1'')"
proof -
  define ds where "ds = [''nginx@sha256:aa'', ''docker.io/library/nginx@sha256:bb'', ''redis@sha256:cc'', ''nginx@sha256:aa'']"
  have p: "parseRegistryImageReference ''nginx:1'' =
      Inr \<lparr>ref_registry = ''registry-1.docker.io'', ref_repo = ''library/nginx'', ref_tag = ''1''\<rparr>" by code_simp
  have "repositoryDigestsForImage ds ''nginx:1'' = [''aa'', ''bb'']" unfolding ds_def by code_simp
  then show ?thesis using repositoryDigestsForImage_same_repository [OF p, of ds] unfolding ds_def by blast
qed

subsection \<open>The scan\<close>

lemma inspected_at_inspectImages:
  assumes "row \<in> set items"
  shows "inspected_at (inspectImages inspect items) (cs_ImageID row) =
    (if cs_ImageID row = [] then \<lparr>ins_digests = [], ins_err = None\<rparr>
     else case inspect (cs_ImageID row) of
        Inl e \<Rightarrow> \<lparr>ins_digests = [], ins_err = Some e\<rparr> | Inr ds \<Rightarrow> \<lparr>ins_digests = ds, ins_err = None\<rparr>)"
  using assms by (auto simp: inspected_at_def inspectImages_def map_of_map_restrict inspectIDs_def restrict_map_def)

lemma repositoryDigests_Nil [simp]: "repositoryDigestsForImage [] img = []"
  by (simp add: repositoryDigestsForImage_def split: sum.split)

lemma scanImages_member:
  assumes "row \<in> set items" "ins_err (inspected_at m (cs_ImageID row)) = None"
    "repositoryDigestsForImage (ins_digests (inspected_at m (cs_ImageID row))) (cs_Image row) \<noteq> []"
  shows "cs_Image row \<in> set (scanImages m items)"
  using assms by (auto simp: scanImages_def Let_def)

lemma map_of_checks: "img \<in> set imgs \<Longrightarrow> map_of (map (\<lambda>i. (i, f i)) imgs) img = Some (f img)"
  by (simp add: map_of_map_restrict)

text \<open>What a status means, for one container.\<close>

definition verdict_ok :: "(string \<Rightarrow> string + string list) \<Rightarrow> (string \<Rightarrow> string + string) \<Rightarrow> containerSummary \<Rightarrow> ContainerUpdateCheck \<Rightarrow> bool" where
  "verdict_ok inspect digestOf row c \<longleftrightarrow>
     chk_ContainerID c = cs_ID row \<and> chk_Status c \<noteq> ContainerUpdateUnset \<and>
     (chk_Status c \<in> {ContainerUpdateCurrent, ContainerUpdateAvailable} \<longrightarrow>
        (\<exists>ds remote. inspect (cs_ImageID row) = Inr ds \<and> digestOf (cs_Image row) = Inr remote \<and>
           chk_RemoteDigest c = TrimPrefix remote ''sha256:'' \<and> chk_RemoteDigest c \<noteq> [] \<and>
           (chk_Status c = ContainerUpdateCurrent \<longleftrightarrow>
              chk_RemoteDigest c \<in> set (repositoryDigestsForImage ds (cs_Image row)))))"

lemma checkRemoteImage_cases:
  "iuc_status (checkRemoteImage digestOf img) \<in> {ContainerUpdateSkipped, ContainerUpdateError} \<or>
   (\<exists>remote. digestOf img = Inr remote \<and> TrimPrefix remote ''sha256:'' \<noteq> [] \<and>
      checkRemoteImage digestOf img =
        \<lparr>iuc_status = ContainerUpdateCurrent, iuc_remoteDigest = TrimPrefix remote ''sha256:'', iuc_reason = []\<rparr>)"
  by (auto simp: checkRemoteImage_def Let_def split: sum.split)

lemma scanRow_verdict:
  assumes "row \<in> set items" and m_def: "m = inspectImages inspect items"
  shows "verdict_ok inspect digestOf row
    (scanRow m (map (\<lambda>img. (img, checkRemoteImage digestOf img)) (scanImages m items)) row)"
proof -
  let ?checks = "map (\<lambda>img. (img, checkRemoteImage digestOf img)) (scanImages m items)"
  define st where "st = inspected_at m (cs_ImageID row)"
  define ls where "ls = repositoryDigestsForImage (ins_digests st) (cs_Image row)"
  have st: "st = (if cs_ImageID row = [] then \<lparr>ins_digests = [], ins_err = None\<rparr>
     else case inspect (cs_ImageID row) of
        Inl e \<Rightarrow> \<lparr>ins_digests = [], ins_err = Some e\<rparr> | Inr ds \<Rightarrow> \<lparr>ins_digests = ds, ins_err = None\<rparr>)"
    unfolding st_def m_def by (rule inspected_at_inspectImages [OF assms(1)])
  have id: "chk_ContainerID (scanRow m ?checks row) = cs_ID row"
    unfolding scanRow_def Let_def by (simp add: emptyCheck_def split: option.split)
  show ?thesis
  proof (cases "hasDockmanLabel row \<or> hasDisableUpdateLabel row \<or> ins_err st \<noteq> None \<or> ls = []")
    case True
    then show ?thesis using id
      by (auto simp: verdict_ok_def scanRow_def Let_def st_def [symmetric] ls_def [symmetric] split: option.split)
  next
    case False
    then have mem: "cs_Image row \<in> set (scanImages m items)"
      using scanImages_member [OF assms(1), of m] by (simp add: st_def ls_def)
    have "cs_ImageID row \<noteq> []" using False st by (auto simp: ls_def)
    then obtain ds where ds: "inspect (cs_ImageID row) = Inr ds" "ins_digests st = ds"
      using False st by (auto split: sum.splits)
    have sel: "map_of ?checks (cs_Image row) = Some (checkRemoteImage digestOf (cs_Image row))"
      using mem by (rule map_of_checks)
    show ?thesis
      using False id ds checkRemoteImage_cases [of digestOf "cs_Image row"]
      unfolding verdict_ok_def scanRow_def Let_def sel st_def [symmetric]
      by (auto simp: ls_def)
  qed
qed

text \<open>
  a scan never presents an unavailable check as up to date.  Every selected container
  gets exactly one row; a row says current or available only when the running image could be
  inspected and the registry returned a digest, and then it says current if and only if that
  digest is one of the image's own repository digests.  A registry is only asked about images
  that have such a digest, each of them once.
\<close>

theorem checkContainerUpdates_verdicts:
  assumes "checkContainerUpdates (Inr all) inspect digestOf selected = Inr rows"
    and "items = filter (\<lambda>c. case selected of None \<Rightarrow> True | Some ids \<Rightarrow> cs_ID c \<in> set ids) all"
  shows "(\<exists>f. mset rows = mset (map f items) \<and> (\<forall>c \<in> set items. verdict_ok inspect digestOf c (f c))) \<and>
    distinct (scanImages (inspectImages inspect items) items) \<and>
    (\<forall>img \<in> set (scanImages (inspectImages inspect items) items). \<exists>c \<in> set items. \<exists>ds.
       cs_Image c = img \<and> inspect (cs_ImageID c) = Inr ds \<and> repositoryDigestsForImage ds img \<noteq> [])"
proof -
  let ?m = "inspectImages inspect items"
  let ?f = "scanRow ?m (map (\<lambda>img. (img, checkRemoteImage digestOf img)) (scanImages ?m items))"
  have "(case selected of None \<Rightarrow> all | Some ids \<Rightarrow> filter (\<lambda>c. cs_ID c \<in> set ids) all) = items"
    using assms(2) by (simp split: option.split)
  then have rows: "rows = sort_key (\<lambda>r. ToLower (chk_ContainerName r)) (map ?f items)"
    using assms(1) by (simp add: checkContainerUpdates_def Let_def)
  have "mset rows = mset (map ?f items)" unfolding rows by (rule gs.mset_srt)
  moreover have "\<forall>c \<in> set items. verdict_ok inspect digestOf c (?f c)" using scanRow_verdict [OF _ refl] by blast
  moreover have "distinct (scanImages ?m items)" by (simp add: scanImages_def)
  moreover have "\<exists>c \<in> set items. \<exists>ds. cs_Image c = img \<and> inspect (cs_ImageID c) = Inr ds \<and> repositoryDigestsForImage ds img \<noteq> []"
    if img: "img \<in> set (scanImages ?m items)" for img
  proof -
    obtain c where c: "c \<in> set items" "cs_Image c = img" "ins_err (inspected_at ?m (cs_ImageID c)) = None"
      "repositoryDigestsForImage (ins_digests (inspected_at ?m (cs_ImageID c))) img \<noteq> []"
      using img by (auto simp: scanImages_def Let_def)
    then show ?thesis
      using inspected_at_inspectImages [OF c(1), of inspect] by (auto split: if_splits sum.splits)
  qed
  ultimately show ?thesis by blast
qed

theorem checkContainerUpdates_verdicts_witness:
  "\<exists>r. checkContainerUpdates (Inr [sampleContainer ''web'' []]) (\<lambda>_. Inr [''app@sha256:aa'']) (\<lambda>_. Inr ''sha256:bb'') None = Inr [r] \<and>
     chk_Status r = ContainerUpdateAvailable \<and>
     verdict_ok (\<lambda>_. Inr [''app@sha256:aa'']) (\<lambda>_. Inr ''sha256:bb'') (sampleContainer ''web'' []) r"
proof -
  define c inspect digestOf where d: "c = sampleContainer ''web'' []" "inspect = (\<lambda>_ :: string. Inr [''app@sha256:aa''] :: string + string list)"
    "digestOf = (\<lambda>_ :: string. Inr ''sha256:bb'' :: string + string)"
  obtain r where r: "checkContainerUpdates (Inr [c]) inspect digestOf None = Inr [r]"
    by (simp add: checkContainerUpdates_def Let_def)
  have "map_sum id (map chk_Status) (checkContainerUpdates (Inr [c]) inspect digestOf None) = Inr [ContainerUpdateAvailable]"
    unfolding d by code_simp
  then have "chk_Status r = ContainerUpdateAvailable" using r by simp
  moreover have "verdict_ok inspect digestOf c r"
    using checkContainerUpdates_verdicts [OF r, of "[c]"] by auto
  ultimately show ?thesis using r unfolding d by blast
qed

end
