(* ===== verification/Container_Recreate.thy ===== *)
theory Container_Recreate
  imports Container_Labels
begin

section \<open>Replacing a container\<close>

text \<open>
  Models the replacement engine of \<open>core/internal/docker/updater/updater.go\<close>:
  \<open>ContainerRecreateWithOptions\<close> with its rollback, the health checks that decide whether the
  replacement may take over, the restoration of a previous image, the recovery of interrupted
  replacements and the forced update of one container or one stack.

  The Docker daemon is the argument \<^verbatim>\<open>env\<close>.  Its answer may depend on every call made before
  (the log), so the theorems hold for every behaviour of the daemon.  Each call says whether it
  runs on the caller's context or on the detached one of \<open>rollbackContext\<close>, and each log entry
  says whether the call reported success.
\<close>

subsection \<open>The daemon\<close>

datatype call_ctx = Caller | Detached

record containerState =
  st_Running :: bool
  st_Status :: string
  st_Health :: "string option"
  st_StartedAt :: string

record containerConfig =
  cfg_Image :: string
  cfg_Labels :: "(string, string) gomap"
  cfg_StartPeriod :: "duration option"
  cfg_Other :: string

record inspectResponse =
  ir_State :: "containerState option"
  ir_Config :: "containerConfig option"
  ir_HostConfig :: string
  ir_Networks :: "(string, string option) gomap option"

record createOptions =
  co_Name :: string
  co_Config :: containerConfig
  co_HostConfig :: string
  co_Networks :: "(string, string option) gomap option"

record imageSummary =
  img_ID :: string
  img_Created :: int

datatype docker_call =
  Inspect string
| Create createOptions string
| Start call_ctx string
| Stop string
| Remove call_ctx string bool
| Rename call_ctx string string
| ListContainers "(string \<times> string) list"
| ListImages string
| Pull string
| Ping string
| Verified string
| Report string string string

type_synonym docker_log = "(docker_call \<times> bool) list"

text \<open>
  The created id is part of the entry of a successful \<open>Create\<close>.  \<open>Verified\<close> and \<open>Report\<close> are
  not calls: they mark that the health check passed and that a stage was reported.
\<close>

datatype stimulus =
  ContextDone string
| StreamClosed
| ContainerEvent string string string

datatype ping_reply =
  PingFailed string
| PingRedirect string
| PingStatus nat string

record docker_env =
  dk_inspect :: "docker_log \<Rightarrow> string \<Rightarrow> string + inspectResponse"
  dk_create :: "docker_log \<Rightarrow> createOptions \<Rightarrow> string + string"
  dk_start :: "docker_log \<Rightarrow> call_ctx \<Rightarrow> string \<Rightarrow> string option"
  dk_stop :: "docker_log \<Rightarrow> string \<Rightarrow> string option"
  dk_remove :: "docker_log \<Rightarrow> call_ctx \<Rightarrow> string \<Rightarrow> bool \<Rightarrow> string option"
  dk_rename :: "docker_log \<Rightarrow> call_ctx \<Rightarrow> string \<Rightarrow> string \<Rightarrow> string option"
  dk_list :: "docker_log \<Rightarrow> (string \<times> string) list \<Rightarrow> string + containerSummary list"
  dk_images :: "docker_log \<Rightarrow> string \<Rightarrow> string + imageSummary list"
  dk_pull :: "docker_log \<Rightarrow> string \<Rightarrow> string option"
  dk_suffix :: "docker_log \<Rightarrow> string"
  dk_stimuli :: "docker_log \<Rightarrow> stimulus list"
  dk_uptimeDone :: "docker_log \<Rightarrow> string option"
  dk_pingDone :: "docker_log \<Rightarrow> string option"
  dk_ping :: "docker_log \<Rightarrow> string \<Rightarrow> ping_reply"
  dk_now :: "docker_log \<Rightarrow> gotime"
  dk_parseDuration :: "string \<Rightarrow> duration option"
  dk_parseTime :: "string \<Rightarrow> gotime option"
  dk_parseURL :: "string \<Rightarrow> (string \<times> string) option"
  dk_isLoopback :: "string \<Rightarrow> bool"

text \<open>An error value: its text, and whether a \<open>RolledBackError\<close> is in its chain.\<close>

record go_err =
  err_text :: string
  err_rolledBack :: bool

definition plain :: "string \<Rightarrow> go_err" where
  "plain s = \<lparr>err_text = s, err_rolledBack = False\<rparr>"

definition RolledBackError :: "string \<Rightarrow> go_err" where
  "RolledBackError s = \<lparr>err_text = ''update failed, rolled back to previous version: '' @ s, err_rolledBack = True\<rparr>"

definition wrap_err :: "string \<Rightarrow> go_err \<Rightarrow> go_err" where
  "wrap_err pre e = e\<lparr>err_text := pre @ err_text e\<rparr>"

definition IsRolledBack :: "go_err \<Rightarrow> bool" where
  "IsRolledBack e = err_rolledBack e"

type_synonym 'a docker_result = "'a \<times> docker_log"

text \<open>One call each: the answer, and the log with the call and its success.\<close>

definition callStart :: "docker_env \<Rightarrow> docker_log \<Rightarrow> call_ctx \<Rightarrow> string \<Rightarrow> string option docker_result" where
  "callStart env log ctx i = (let e = dk_start env log ctx i in (e, log @ [(Start ctx i, e = None)]))"

definition callStop :: "docker_env \<Rightarrow> docker_log \<Rightarrow> string \<Rightarrow> string option docker_result" where
  "callStop env log i = (let e = dk_stop env log i in (e, log @ [(Stop i, e = None)]))"

definition callRemove :: "docker_env \<Rightarrow> docker_log \<Rightarrow> call_ctx \<Rightarrow> string \<Rightarrow> bool \<Rightarrow> string option docker_result" where
  "callRemove env log ctx i force = (let e = dk_remove env log ctx i force in (e, log @ [(Remove ctx i force, e = None)]))"

definition callRename :: "docker_env \<Rightarrow> docker_log \<Rightarrow> call_ctx \<Rightarrow> string \<Rightarrow> string \<Rightarrow> string option docker_result" where
  "callRename env log ctx i name = (let e = dk_rename env log ctx i name in (e, log @ [(Rename ctx i name, e = None)]))"

definition callInspect :: "docker_env \<Rightarrow> docker_log \<Rightarrow> string \<Rightarrow> (string + inspectResponse) docker_result" where
  "callInspect env log i = (let r = dk_inspect env log i in (r, log @ [(Inspect i, \<not> isl r)]))"

definition callCreate :: "docker_env \<Rightarrow> docker_log \<Rightarrow> createOptions \<Rightarrow> (string + string) docker_result" where
  "callCreate env log opts =
     (let r = dk_create env log opts
      in (r, log @ [(Create opts (case r of Inl _ \<Rightarrow> [] | Inr i \<Rightarrow> i), \<not> isl r)]))"

definition callList :: "docker_env \<Rightarrow> docker_log \<Rightarrow> (string \<times> string) list \<Rightarrow> (string + containerSummary list) docker_result" where
  "callList env log filters = (let r = dk_list env log filters in (r, log @ [(ListContainers filters, \<not> isl r)]))"

subsection \<open>Health checks\<close>

definition updateStabilityWindow :: duration where "updateStabilityWindow = 10 * second"
definition updateHealthFloor :: duration where "updateHealthFloor = 2 * minute"
definition updateHealthCap :: duration where "updateHealthCap = 10 * minute"

definition healthDeadline :: "containerConfig option \<Rightarrow> duration" where
  "healthDeadline config =
     (let deadline = (case config of
             None \<Rightarrow> updateHealthFloor
           | Some c \<Rightarrow>
               (case cfg_StartPeriod c of
                  None \<Rightarrow> updateHealthFloor
                | Some p \<Rightarrow> if p > 0 \<and> p + minute > updateHealthFloor then p + minute else updateHealthFloor))
      in min deadline updateHealthCap)"

definition sameContainer :: "string \<Rightarrow> string \<Rightarrow> bool" where
  "sameContainer eventID containerID =
     (if eventID = [] \<or> length containerID < length eventID then False
      else take (length eventID) containerID = eventID)"

definition confirmStillRunningOnDeadline :: "docker_env \<Rightarrow> docker_log \<Rightarrow> string \<Rightarrow> string option docker_result" where
  "confirmStillRunningOnDeadline env log i =
     (case callInspect env log i of
        (Inl e, log1) \<Rightarrow> (Some (''confirm replacement container survived 10s: '' @ e), log1)
      | (Inr r, log1) \<Rightarrow>
          (case ir_State r of
             None \<Rightarrow> Some ''replacement container reports no state after 10s''
           | Some st \<Rightarrow>
               if \<not> st_Running st then Some (''replacement container is '' @ st_Status st @ '' after 10s of starting'') else None,
           log1))"

definition confirmHealthyOnDeadline :: "docker_env \<Rightarrow> docker_log \<Rightarrow> string \<Rightarrow> string option docker_result" where
  "confirmHealthyOnDeadline env log i =
     (case callInspect env log i of
        (Inl e, log1) \<Rightarrow> (Some (''replacement container did not report healthy within its deadline: '' @ e), log1)
      | (Inr r, log1) \<Rightarrow>
          (case ir_State r of
             None \<Rightarrow> Some ''replacement container did not report healthy within its deadline''
           | Some st \<Rightarrow>
               if st_Running st \<and> st_Health st = Some ''healthy'' then None
               else Some ''replacement container did not report healthy within its deadline'',
           log1))"

text \<open>
  The two \<open>select\<close> loops.  The list holds what the select receives before the timer fires, in
  order; when it is used up, the timer fires.
\<close>

fun waitForContainerStability ::
  "docker_env \<Rightarrow> docker_log \<Rightarrow> string \<Rightarrow> stimulus list \<Rightarrow> string option docker_result" where
  "waitForContainerStability env log i [] = confirmStillRunningOnDeadline env log i"
| "waitForContainerStability env log i (ContextDone e # ss) = (Some e, log)"
| "waitForContainerStability env log i (StreamClosed # ss) =
     (Some ''container event stream closed before the stability window elapsed'', log)"
| "waitForContainerStability env log i (ContainerEvent ev action status # ss) =
     (if \<not> sameContainer ev i then waitForContainerStability env log i ss
      else if action = ''die'' \<or> action = ''destroy''
      then (Some (''replacement container '' @ action @ '' within 10s of starting''), log)
      else waitForContainerStability env log i ss)"

fun waitForContainerHealthy ::
  "docker_env \<Rightarrow> docker_log \<Rightarrow> string \<Rightarrow> stimulus list \<Rightarrow> string option docker_result" where
  "waitForContainerHealthy env log i [] = confirmHealthyOnDeadline env log i"
| "waitForContainerHealthy env log i (ContextDone e # ss) = (Some e, log)"
| "waitForContainerHealthy env log i (StreamClosed # ss) =
     (Some ''container event stream closed before the container became healthy'', log)"
| "waitForContainerHealthy env log i (ContainerEvent ev action status # ss) =
     (if \<not> sameContainer ev i then waitForContainerHealthy env log i ss
      else if action = ''health_status'' then
        (if status = ''healthy'' then (None, log)
         else if status = ''unhealthy'' then (Some ''replacement container reported unhealthy'', log)
         else waitForContainerHealthy env log i ss)
      else if action = ''die'' \<or> action = ''destroy''
      then (Some (''replacement container '' @ action @ '' before reporting healthy''), log)
      else waitForContainerHealthy env log i ss)"

text \<open>
  The stimuli of the wait are read from \<open>env\<close> after the inspection.  The duration of the
  healthy wait is \<open>healthDeadline\<close>; it bounds which events arrive before the timer and is not
  otherwise visible.
\<close>

definition containerHealthCheckRuntime :: "docker_env \<Rightarrow> docker_log \<Rightarrow> string \<Rightarrow> string option docker_result" where
  "containerHealthCheckRuntime env log i =
     (case callInspect env log i of
        (Inl e, log1) \<Rightarrow> (Some (''inspect replacement container: '' @ e), log1)
      | (Inr r, log1) \<Rightarrow>
          (case ir_State r of
             None \<Rightarrow> (Some ''replacement container reports no state'', log1)
           | Some st \<Rightarrow>
               if \<not> st_Running st
               then (Some (''replacement container is '' @ st_Status st @ '' instead of running''), log1)
               else (case st_Health st of
                       None \<Rightarrow> waitForContainerStability env log1 i (dk_stimuli env log1)
                     | Some h \<Rightarrow>
                         if h = ''none'' then waitForContainerStability env log1 i (dk_stimuli env log1)
                         else if h = ''healthy'' then (None, log1)
                         else if h = ''unhealthy'' then (Some ''replacement container reported unhealthy'', log1)
                         else waitForContainerHealthy env log1 i (dk_stimuli env log1))))"

definition DockmanHealthCheckUptimeLabel :: string where
  "DockmanHealthCheckUptimeLabel = ''dockman.update.healthcheck.uptime''"
definition DockmanHealthCheckPingLabel :: string where
  "DockmanHealthCheckPingLabel = ''dockman.update.healthcheck.ping''"
definition DockmanHealthCheckPingTimeLabel :: string where
  "DockmanHealthCheckPingTimeLabel = ''dockman.update.healthcheck.time''"

text \<open>
  The opt-in check of the uptime.  \<^verbatim>\<open>dk_uptimeDone\<close> is the error of a context that ends before
  the timer.  The source reads \<open>state.Running\<close> without a nil test: a missing state is a
  run-time panic there, which the model returns as an error with the panic's text.
\<close>

definition containerHealthCheckUptime ::
  "docker_env \<Rightarrow> docker_log \<Rightarrow> string \<Rightarrow> inspectResponse \<Rightarrow> string option docker_result" where
  "containerHealthCheckUptime env log i c =
     (case ir_Config c of
        None \<Rightarrow> (None, log)
      | Some cfg \<Rightarrow>
          (let lab = TrimSpace (str_at (cfg_Labels cfg) DockmanHealthCheckUptimeLabel) in
           if lab = [] then (None, log)
           else case dk_parseDuration env lab of
             None \<Rightarrow> (None, log)
           | Some expected \<Rightarrow>
               if expected \<le> 0 \<or> expected > 10 * minute
               then (Some ''expected uptime must be greater than zero and at most 10m'', log)
               else (case dk_uptimeDone env log of
                       Some e \<Rightarrow> (Some e, log)
                     | None \<Rightarrow>
                         (case callInspect env log i of
                            (Inl e, log1) \<Rightarrow> (Some e, log1)
                          | (Inr r, log1) \<Rightarrow>
                              ((case ir_State r of
                                  None \<Rightarrow> Some ''panic: invalid memory address or nil pointer dereference''
                                | Some st \<Rightarrow>
                                    if \<not> st_Running st then Some ''container is not running''
                                    else (case dk_parseTime env (st_StartedAt st) of
                                            None \<Rightarrow> Some ''failed to parse started time''
                                          | Some started \<Rightarrow>
                                              if time_sub (dk_now env log1) started < expected
                                              then Some ''container did not reach expected uptime'' else None)),
                               log1)))))"

definition validateHealthcheckHost :: "docker_env \<Rightarrow> string \<Rightarrow> inspectResponse \<Rightarrow> string option" where
  "validateHealthcheckHost env host c =
     (let own = (case ir_Networks c of
                   None \<Rightarrow> []
                 | Some nets \<Rightarrow> concat (map (\<lambda>(_, ip). case ip of Some a \<Rightarrow> [a] | None \<Rightarrow> []) nets));
          permitted = [''localhost'', ''127.0.0.1'', ''::1''] @ own
      in if ToLower host \<in> set permitted then None
         else if dk_isLoopback env host then None
         else Some (''healthcheck endpoint host '' @ quoted host @ '' is refused; use loopback or one of the container IP addresses''))"

text \<open>\<open>pingClient.Do\<close>, with its \<open>CheckRedirect\<close>; \<^verbatim>\<open>via\<close> counts the requests already made.\<close>

function pingDo ::
  "docker_env \<Rightarrow> inspectResponse \<Rightarrow> nat \<Rightarrow> docker_log \<Rightarrow> string \<Rightarrow> (string + nat \<times> string) docker_result" where
  "pingDo env c via log host =
     (let log1 = log @ [(Ping host, True)] in
      case dk_ping env log host of
        PingFailed e \<Rightarrow> (Inl e, log1)
      | PingStatus n status \<Rightarrow> (Inr (n, status), log1)
      | PingRedirect h \<Rightarrow>
          (case validateHealthcheckHost env h c of
             Some e \<Rightarrow> (Inl e, log1)
           | None \<Rightarrow> if Suc via \<ge> 3 then (Inl ''too many healthcheck redirects'', log1)
                     else pingDo env c (Suc via) log1 h))"
  by pat_completeness auto
termination by (relation "measure (\<lambda>(env, c, via, log, host). 3 - via)") auto

declare pingDo.simps [simp del]

definition containerHealthCheckPing ::
  "docker_env \<Rightarrow> docker_log \<Rightarrow> inspectResponse \<Rightarrow> string option docker_result" where
  "containerHealthCheckPing env log c =
     (case ir_Config c of
        None \<Rightarrow> (None, log)
      | Some cfg \<Rightarrow>
          (let endpoint = str_at (cfg_Labels cfg) DockmanHealthCheckPingLabel;
               v = TrimSpace (str_at (cfg_Labels cfg) DockmanHealthCheckPingTimeLabel);
               delay = (if v = [] then Some 0 else dk_parseDuration env v)
           in if endpoint = [] then (None, log)
              else case delay of
                None \<Rightarrow> (None, log)
              | Some pingAfter \<Rightarrow>
                  if pingAfter < 0 \<or> pingAfter > 10 * minute then (Some ''ping delay must be between zero and 10m'', log)
                  else (case dk_parseURL env endpoint of
                          None \<Rightarrow> (Some ''healthcheck endpoint must be an absolute HTTP or HTTPS URL'', log)
                        | Some (scheme, host) \<Rightarrow>
                            if (scheme \<noteq> ''http'' \<and> scheme \<noteq> ''https'') \<or> host = []
                            then (Some ''healthcheck endpoint must be an absolute HTTP or HTTPS URL'', log)
                            else (case validateHealthcheckHost env host c of
                                    Some e \<Rightarrow> (Some e, log)
                                  | None \<Rightarrow>
                                      (case dk_pingDone env log of
                                         Some e \<Rightarrow> (Some e, log)
                                       | None \<Rightarrow>
                                           (case pingDo env c 0 log host of
                                              (Inl e, log1) \<Rightarrow> (Some (''failed to ping '' @ endpoint @ '': '' @ e), log1)
                                            | (Inr (n, status), log1) \<Rightarrow>
                                                (if n < 200 \<or> n \<ge> 300
                                                 then Some (''invalid http status code '' @ Itoa n @ '': '' @ status @ '', statusCode must be within 200 <= code < 300'')
                                                 else None, log1)))))))"

text \<open>
  \<open>ContainerHealthCheck\<close> runs the three checks in parallel and returns nil exactly when all
  of them do; otherwise it returns the error of one that failed.  The checks only read, so
  the model runs them one after another.
\<close>

definition ContainerHealthCheck ::
  "docker_env \<Rightarrow> docker_log \<Rightarrow> string \<Rightarrow> inspectResponse \<Rightarrow> string option docker_result" where
  "ContainerHealthCheck env log i c =
     (let (runtime, log1) = containerHealthCheckRuntime env log i;
          (uptime, log2) = containerHealthCheckUptime env log1 i c;
          (ping, log3) = containerHealthCheckPing env log2 c
      in (case runtime of
            Some e \<Rightarrow> Some (''runtime healthcheck failed: '' @ e)
          | None \<Rightarrow>
              (case uptime of
                 Some e \<Rightarrow> Some (''uptime healthcheck failed: '' @ e)
               | None \<Rightarrow> map_option (\<lambda>e. ''endpoint ping healthcheck failed: '' @ e) ping),
          log3))"

subsection \<open>The replacement\<close>

definition temporaryReplacementName :: "string \<Rightarrow> string \<Rightarrow> string" where
  "temporaryReplacementName suffix containerName = containerName @ ''.dockman-update-'' @ suffix"

definition containerRollbackToOldContainer ::
  "docker_env \<Rightarrow> docker_log \<Rightarrow> string \<Rightarrow> string \<Rightarrow> go_err docker_result" where
  "containerRollbackToOldContainer env log oldID originalErr =
     (case callStart env log Detached oldID of
        (Some e, log1) \<Rightarrow>
          (plain (''rollback failed - cannot restart old container: '' @ e @ '' (original error: '' @ originalErr @ '')''), log1)
      | (None, log1) \<Rightarrow> (RolledBackError originalErr, log1))"

definition containerCreate ::
  "docker_env \<Rightarrow> docker_log \<Rightarrow> string \<Rightarrow> string \<Rightarrow> inspectResponse \<Rightarrow> (string + string) docker_result" where
  "containerCreate env log imageTag name inspected =
     (let cfg = (case ir_Config inspected of
                   Some c \<Rightarrow> c
                 | None \<Rightarrow> \<lparr>cfg_Image = [], cfg_Labels = [], cfg_StartPeriod = None, cfg_Other = []\<rparr>);
          opts = \<lparr>co_Name = name, co_Config = cfg\<lparr>cfg_Image := imageTag\<rparr>,
                  co_HostConfig = ir_HostConfig inspected, co_Networks = ir_Networks inspected\<rparr>
      in case callCreate env log opts of
           (Inl e, log1) \<Rightarrow> (Inl (''failed to create new container for '' @ name @ '': '' @ e), log1)
         | (Inr i, log1) \<Rightarrow> (Inr i, log1))"

text \<open>The cleanup of a replacement that failed: its error text after the removal was tried.\<close>

definition removeReplacement ::
  "docker_env \<Rightarrow> docker_log \<Rightarrow> string \<Rightarrow> string \<Rightarrow> string \<Rightarrow> string docker_result" where
  "removeReplacement env log newID replacementName err =
     (case callRemove env log Detached newID True of
        (Some _, log1) \<Rightarrow>
          (err @ ''; the replacement container '' @ replacementName @ '' could not be removed and is still on the host'', log1)
      | (None, log1) \<Rightarrow> (err, log1))"

definition recreateStopped ::
  "docker_env \<Rightarrow> docker_log \<Rightarrow> string \<Rightarrow> string \<Rightarrow> string \<Rightarrow> string \<Rightarrow> inspectResponse \<Rightarrow> go_err option docker_result" where
  "recreateStopped env log imageTag oldID containerName replacementName inspected =
     (case containerCreate env log imageTag replacementName inspected of
        (Inl e, log1) \<Rightarrow>
          (Some (plain (''failed to create replacement for stopped container '' @ containerName @ ''; original container was preserved: '' @ e)), log1)
      | (Inr newID, log1) \<Rightarrow>
          (case callRemove env log1 Caller oldID False of
             (Some e, log2) \<Rightarrow>
               (case callRemove env log2 Detached newID True of
                  (Some _, log3) \<Rightarrow>
                    (Some (plain (''failed to remove old container '' @ containerName @ '', and the replacement container '' @
                       replacementName @ '' could not be removed and is still on the host: '' @ e)), log3)
                | (None, log3) \<Rightarrow> (Some (plain (''failed to remove old container '' @ containerName @ '': '' @ e)), log3))
           | (None, log2) \<Rightarrow>
               (case callRename env log2 Detached newID containerName of
                  (Some e, log3) \<Rightarrow>
                    (Some (plain (''replacement container '' @ containerName @ '' was created safely but could not take its final name (currently '' @
                       replacementName @ ''): '' @ e)), log3)
                | (None, log3) \<Rightarrow> (None, log3))))"

text \<open>The last part: the replacement is up and accepted, the old container goes.\<close>

definition takeOver ::
  "docker_env \<Rightarrow> docker_log \<Rightarrow> string \<Rightarrow> string \<Rightarrow> string \<Rightarrow> go_err option docker_result" where
  "takeOver env log oldID newID containerName =
     (case callRemove env log Caller oldID True of
        (Some e, log1) \<Rightarrow>
          (let (_, log2) = callRemove env log1 Detached newID True in
           case callStart env log2 Detached oldID of
             (Some restartErr, log3) \<Rightarrow>
               (Some (plain (''failed to remove old container '' @ containerName @ '' and rollback restart failed: '' @ restartErr @
                  '' (remove error: '' @ e @ '')'')), log3)
           | (None, log3) \<Rightarrow>
               (Some (plain (''failed to remove old container '' @ containerName @ ''; replacement removed and old container restarted: '' @ e)), log3))
      | (None, log1) \<Rightarrow>
          (case callRename env log1 Detached newID containerName of
             (Some e, log2) \<Rightarrow>
               (Some (plain (''container update completed but replacement '' @ newID @ '' could not take final name '' @ containerName @
                  ''; manual recovery is required: '' @ e)), log2)
           | (None, log2) \<Rightarrow> (None, log2)))"

definition recreateRunning ::
  "docker_env \<Rightarrow> docker_log \<Rightarrow> string \<Rightarrow> string \<Rightarrow> string \<Rightarrow> string \<Rightarrow> inspectResponse \<Rightarrow> bool \<Rightarrow> go_err option docker_result" where
  "recreateRunning env log imageTag oldID containerName replacementName inspected verifyHealth =
     (case callStop env log oldID of
        (Some e, log1) \<Rightarrow>
          (case callStart env log1 Detached oldID of
             (Some startErr, log2) \<Rightarrow>
               (Some (plain (''failed to stop container '' @ containerName @ '' and could not bring it back up: '' @ startErr @
                  '' (stop error: '' @ e @ '')'')), log2)
           | (None, log2) \<Rightarrow>
               (Some (plain (''failed to stop container '' @ containerName @ ''; it was left running: '' @ e)), log2))
      | (None, log1) \<Rightarrow>
          (case containerCreate env log1 imageTag replacementName inspected of
             (Inl e, log2) \<Rightarrow> map_prod Some id (containerRollbackToOldContainer env log2 oldID e)
           | (Inr newID, log2) \<Rightarrow>
               (case callStart env log2 Caller newID of
                  (Some e, log3) \<Rightarrow>
                    (let (err, log4) = removeReplacement env log3 newID replacementName e
                     in map_prod Some id (containerRollbackToOldContainer env log4 oldID err))
                | (None, log3) \<Rightarrow>
                    (let (health, log4) = (if verifyHealth then ContainerHealthCheck env log3 newID inspected else (None, log3)) in
                     case health of
                       Some e \<Rightarrow>
                         (let (err, log5) = removeReplacement env log4 newID replacementName e
                          in map_prod Some id (containerRollbackToOldContainer env log5 oldID err))
                     | None \<Rightarrow> takeOver env (log4 @ [(Verified newID, True)]) oldID newID containerName))))"

definition ContainerRecreateWithOptions ::
  "docker_env \<Rightarrow> docker_log \<Rightarrow> string \<Rightarrow> containerSummary \<Rightarrow> bool \<Rightarrow> go_err option docker_result" where
  "ContainerRecreateWithOptions env log imageTag old verifyHealth =
     (let containerName = (case cs_Names old of [] \<Rightarrow> ''untagged'' | n # _ \<Rightarrow> TrimPrefix n ''/'');
          replacementName = temporaryReplacementName (dk_suffix env log) containerName
      in case callInspect env log (cs_ID old) of
           (Inl e, log1) \<Rightarrow> (Some (plain (''failed to inspect container '' @ containerName @ '': '' @ e)), log1)
         | (Inr inspected, log1) \<Rightarrow>
             if (case ir_State inspected of None \<Rightarrow> False | Some st \<Rightarrow> st_Running st)
             then recreateRunning env log1 imageTag (cs_ID old) containerName replacementName inspected verifyHealth
             else recreateStopped env log1 imageTag (cs_ID old) containerName replacementName inspected)"

definition ContainerRecreate ::
  "docker_env \<Rightarrow> docker_log \<Rightarrow> string \<Rightarrow> containerSummary \<Rightarrow> go_err option docker_result" where
  "ContainerRecreate env log imageTag old = ContainerRecreateWithOptions env log imageTag old True"

subsection \<open>Restoring an image\<close>

definition QuoteMeta :: "string \<Rightarrow> string" where
  "QuoteMeta s = concat (map (\<lambda>c. if c \<in> set ([CHR 0x5C] @ ''.+*?()|[]{}^$'') then [CHR 0x5C, c] else [c]) s)"

definition RestoreContainerImage ::
  "docker_env \<Rightarrow> docker_log \<Rightarrow> string \<Rightarrow> string \<Rightarrow> bool \<Rightarrow> (go_err + string) docker_result" where
  "RestoreContainerImage env log name0 image0 verifyHealth =
     (let containerName = TrimSpace (TrimPrefix name0 ''/'');
          previousImageID = TrimSpace image0;
          filters = [(''name'', ''^/'' @ QuoteMeta containerName @ ''$'')]
      in if containerName = [] \<or> previousImageID = []
         then (Inl (plain ''container name and previous image id are required for rollback''), log)
         else case callList env log filters of
           (Inl e, log1) \<Rightarrow> (Inl (plain (''locate container '' @ containerName @ '' for rollback: '' @ e)), log1)
         | (Inr items, log1) \<Rightarrow>
             (case items of
                [item] \<Rightarrow>
                  (case ContainerRecreateWithOptions env log1 previousImageID item verifyHealth of
                     (Some e, log2) \<Rightarrow>
                       (Inl (wrap_err (''restore container '' @ containerName @ '' to '' @ previousImageID @ '': '') e), log2)
                   | (None, log2) \<Rightarrow>
                       (case callList env log2 filters of
                          (Inl e, log3) \<Rightarrow> (Inl (plain (''verify restored container '' @ containerName @ '': '' @ e)), log3)
                        | (Inr items2, log3) \<Rightarrow>
                            (case items2 of
                               [restored] \<Rightarrow> (Inr (cs_ID restored), log3)
                             | _ \<Rightarrow> (Inl (plain (''verify restored container '' @ containerName @
                                      '': expected one restored container, found '' @ Itoa (length items2))), log3))))
              | _ \<Rightarrow> (Inl (plain (''locate container '' @ containerName @
                       '' for rollback: expected one container, found '' @ Itoa (length items))), log1)))"

subsection \<open>Updating one container\<close>

fun newestImageFrom :: "string \<Rightarrow> int \<Rightarrow> imageSummary list \<Rightarrow> string" where
  "newestImageFrom best created [] = best"
| "newestImageFrom best created (item # items) =
     (if img_ID item = [] then newestImageFrom best created items
      else if best = [] \<or> img_Created item > created \<or> (img_Created item = created \<and> img_ID item > best)
      then newestImageFrom (img_ID item) (img_Created item) items
      else newestImageFrom best created items)"

definition newestImage :: "imageSummary list \<Rightarrow> string" where
  "newestImage items = newestImageFrom [] 0 items"

record ForceUpdateOptions =
  fo_VerifyHealth :: bool
  fo_ImagePrepared :: bool
  fo_ImageReference :: string

record ForceUpdateResult =
  fr_ContainerID :: string
  fr_ContainerName :: string
  fr_Image :: string
  fr_PreviousImage :: string
  fr_NewImage :: string
  fr_Updated :: bool

definition forceUpdateImageReference :: "containerSummary \<Rightarrow> ForceUpdateOptions \<Rightarrow> string" where
  "forceUpdateImageReference cur options =
     (let prepared = TrimSpace (fo_ImageReference options) in
      if fo_ImagePrepared options \<and> prepared \<noteq> [] then prepared else TrimSpace (cs_Image cur))"

definition reportStage :: "docker_log \<Rightarrow> containerSummary \<Rightarrow> string \<Rightarrow> string \<Rightarrow> docker_log" where
  "reportStage log cur stage detail = log @ [(Report (cs_ID cur) stage detail, True)]"

text \<open>
  \<open>forceUpdateContainer\<close>.  The progress lines written to \<open>out\<close> are left out; the structured
  stages are kept, except the announcement \<open>verifying\<close>, which the engine makes from inside the
  replacement and which changes nothing.
\<close>

definition forceUpdateContainer ::
  "docker_env \<Rightarrow> docker_log \<Rightarrow> containerSummary \<Rightarrow> ForceUpdateOptions \<Rightarrow> (ForceUpdateResult \<times> go_err option) docker_result" where
  "forceUpdateContainer env log cur options =
     (let name = summaryName cur;
          imgTag = forceUpdateImageReference cur options;
          result = \<lparr>fr_ContainerID = cs_ID cur, fr_ContainerName = name, fr_Image = imgTag,
                    fr_PreviousImage = cs_ImageID cur, fr_NewImage = [], fr_Updated = False\<rparr>
      in if imgTag = [] \<or> HasPrefix imgTag ''sha256:'' then
           (let e = name @ '': image '' @ quoted imgTag @ '' has no pullable tag''
            in ((result, Some (plain e)), reportStage log cur ''failed'' e))
         else
           let (pullErr, log1) =
                 (if fo_ImagePrepared options then (None, log)
                  else let logp = reportStage log cur ''pulling'' imgTag;
                           e = dk_pull env logp imgTag
                       in (e, logp @ [(Pull imgTag, e = None)]))
           in case pullErr of
                Some e \<Rightarrow> ((result, Some (plain (name @ '': pull '' @ imgTag @ '': '' @ e))), reportStage log1 cur ''failed'' e)
              | None \<Rightarrow>
                  (let imgs = dk_images env log1 imgTag;
                       log2 = log1 @ [(ListImages imgTag, \<not> isl imgs)]
                   in case imgs of
                        Inl e \<Rightarrow> ((result, Some (plain (name @ '': inspect '' @ imgTag @ '': '' @ e))), reportStage log2 cur ''failed'' e)
                      | Inr items \<Rightarrow>
                          (let result = result\<lparr>fr_NewImage := newestImage items\<rparr> in
                           if fr_NewImage result = [] \<or> fr_NewImage result = cs_ImageID cur
                           then ((result, None), reportStage log2 cur ''up-to-date'' [])
                           else
                             let log3 = reportStage log2 cur ''recreating'' imgTag in
                             case ContainerRecreateWithOptions env log3 imgTag cur (fo_VerifyHealth options) of
                               (Some e, log4) \<Rightarrow>
                                 ((result, Some (wrap_err (name @ '': recreate: '') e)),
                                  reportStage log4 cur (if IsRolledBack e then ''rolled-back'' else ''failed'') (err_text e))
                             | (None, log4) \<Rightarrow>
                                 ((result\<lparr>fr_Updated := True\<rparr>, None), reportStage log4 cur ''updated'' (fr_NewImage result)))))"

definition ContainerListByIDs :: "docker_env \<Rightarrow> docker_log \<Rightarrow> string list \<Rightarrow> (string + containerSummary list) docker_result" where
  "ContainerListByIDs env log ids =
     (case callList env log (map (\<lambda>i. (''id'', i)) ids) of
        (Inl e, log1) \<Rightarrow> (Inl (''unable to fetch container info: '' @ e), log1)
      | (Inr items, log1) \<Rightarrow> (Inr items, log1))"

definition ForceUpdateContainer ::
  "docker_env \<Rightarrow> docker_log \<Rightarrow> string \<Rightarrow> ForceUpdateOptions \<Rightarrow> (ForceUpdateResult option \<times> go_err option) docker_result" where
  "ForceUpdateContainer env log containerID options =
     (case ContainerListByIDs env log [containerID] of
        (Inl e, log1) \<Rightarrow> ((None, Some (plain e)), log1)
      | (Inr items, log1) \<Rightarrow>
          (case items of
             [item] \<Rightarrow>
               (let ((result, err), log2) = forceUpdateContainer env log1 item options in ((Some result, err), log2))
           | _ \<Rightarrow> ((None, Some (plain (''container '' @ quoted containerID @ '' was not found''))), log1)))"

subsection \<open>Updating stacks\<close>

definition stackOptions :: ForceUpdateOptions where
  "stackOptions = \<lparr>fo_VerifyHealth = True, fo_ImagePrepared = False, fo_ImageReference = []\<rparr>"

fun forceUpdateStack :: "docker_env \<Rightarrow> docker_log \<Rightarrow> containerSummary list \<Rightarrow> go_err list docker_result" where
  "forceUpdateStack env log [] = ([], log)"
| "forceUpdateStack env log (cur # rest) =
     (case guardProtectedInfrastructure cur of
        Some e \<Rightarrow>
          (let (errs, log1) = forceUpdateStack env (reportStage log cur ''failed'' e) rest in (plain e # errs, log1))
      | None \<Rightarrow>
          (let ((_, err), log1) = forceUpdateContainer env log cur stackOptions;
               (errs, log2) = forceUpdateStack env log1 rest
           in ((case err of Some e \<Rightarrow> e # errs | None \<Rightarrow> errs), log2)))"

subsection \<open>Finishing interrupted replacements\<close>

definition is_hex :: "char \<Rightarrow> bool" where
  "is_hex c \<longleftrightarrow> is_digit c \<or> (CHR ''a'' \<le> c \<and> c \<le> CHR ''f'')"

text \<open>The pattern \<^verbatim>\<open>^(.+)\.dockman-update-[0-9a-f]{8}$\<close>: its group, the name to take.\<close>

definition interruptedReplacementPattern :: "string \<Rightarrow> string option" where
  "interruptedReplacementPattern name =
     (let n = length name - 24; target = take n name; mark = take 16 (drop n name); suffix = drop (n + 16) name
      in if length name > 24 \<and> newline \<notin> set target \<and> mark = ''.dockman-update-'' \<and> list_all is_hex suffix
         then Some target else None)"

fun recoverNames ::
  "docker_env \<Rightarrow> docker_log \<Rightarrow> string list \<Rightarrow> nat \<Rightarrow> string \<Rightarrow> string list \<Rightarrow> string list \<times> nat \<times> docker_log" where
  "recoverNames env log taken n i [] = (taken, n, log)"
| "recoverNames env log taken n i (rawName # names) =
     (let name = TrimPrefix rawName ''/'' in
      case interruptedReplacementPattern name of
        None \<Rightarrow> recoverNames env log taken n i names
      | Some target \<Rightarrow>
          if target \<in> set taken then recoverNames env log taken n i names
          else (case callRename env log Caller i target of
                  (Some _, log1) \<Rightarrow> recoverNames env log1 taken n i names
                | (None, log1) \<Rightarrow> recoverNames env log1 (target # removeAll name taken) (n + 1) i names))"

fun recoverItems ::
  "docker_env \<Rightarrow> docker_log \<Rightarrow> string list \<Rightarrow> nat \<Rightarrow> containerSummary list \<Rightarrow> nat \<times> docker_log" where
  "recoverItems env log taken n [] = (n, log)"
| "recoverItems env log taken n (item # items) =
     (case recoverNames env log taken n (cs_ID item) (cs_Names item) of
        (taken1, n1, log1) \<Rightarrow> recoverItems env log1 taken1 n1 items)"

definition RecoverInterruptedReplacements :: "docker_env \<Rightarrow> docker_log \<Rightarrow> (string + nat) docker_result" where
  "RecoverInterruptedReplacements env log =
     (case callList env log [] of
        (Inl e, log1) \<Rightarrow> (Inl (''list containers to recover interrupted updates: '' @ e), log1)
      | (Inr items, log1) \<Rightarrow>
          (let taken = concat (map (\<lambda>item. map (\<lambda>n. TrimPrefix n ''/'') (cs_Names item)) items);
               (n, log2) = recoverItems env log1 taken 0 items
           in (Inr n, log2)))"

text \<open>
  \<open>ContainersForceUpdate\<close>: recover, list, announce, then one run per stack.  Stacks run in
  parallel in the source; they touch different containers, and the model runs them in order.
\<close>

fun forceUpdateGroups :: "docker_env \<Rightarrow> docker_log \<Rightarrow> (string \<times> containerSummary list) list \<Rightarrow> go_err list docker_result" where
  "forceUpdateGroups env log [] = ([], log)"
| "forceUpdateGroups env log ((k, cs) # groups) =
     (let (errs, log1) = forceUpdateStack env log cs;
          (more, log2) = forceUpdateGroups env log1 groups
      in (errs @ more, log2))"

definition ContainersForceUpdate :: "docker_env \<Rightarrow> docker_log \<Rightarrow> string list \<Rightarrow> go_err list docker_result" where
  "ContainersForceUpdate env log ids =
     (let (_, log1) = RecoverInterruptedReplacements env log in
      case ContainerListByIDs env log1 ids of
        (Inl e, log2) \<Rightarrow> ([plain e], log2)
      | (Inr items, log2) \<Rightarrow>
          if items = [] then ([plain ''no containers found for the given ids''], log2)
          else
            let groups = groupContainersByStack items;
                log3 = foldl (\<lambda>l cur. reportStage l cur ''queued'' []) log2 (concat (map snd groups))
            in forceUpdateGroups env log3 groups)"

subsection \<open>What the calls do to the daemon\<close>

text \<open>
  The part of the daemon's state the theorems speak about: which containers exist, which run,
  and which were accepted by the health check.  A call that reported success has its effect, a
  call that reported an error has none.
\<close>

record daemon =
  dm_exists :: "string set"
  dm_running :: "string set"
  dm_verified :: "string set"

fun effect :: "docker_call \<times> bool \<Rightarrow> daemon \<Rightarrow> daemon" where
  "effect (Create opts i, True) s = s\<lparr>dm_exists := insert i (dm_exists s)\<rparr>"
| "effect (Start ctx i, True) s = (if i \<in> dm_exists s then s\<lparr>dm_running := insert i (dm_running s)\<rparr> else s)"
| "effect (Stop i, True) s = s\<lparr>dm_running := dm_running s - {i}\<rparr>"
| "effect (Remove ctx i force, True) s = s\<lparr>dm_exists := dm_exists s - {i}, dm_running := dm_running s - {i}\<rparr>"
| "effect (Verified i, True) s = s\<lparr>dm_verified := insert i (dm_verified s)\<rparr>"
| "effect e s = s"

definition effects :: "docker_log \<Rightarrow> daemon \<Rightarrow> daemon" where
  "effects es s = foldl (\<lambda>s e. effect e s) s es"

lemma effects_simps [simp]:
  "effects [] s = s" "effects (e # es) s = effects es (effect e s)" "effects (a @ b) s = effects b (effects a s)"
  by (simp_all add: effects_def)

text \<open>An invariant of every state a run passes through, the point of a crash included.\<close>

fun throughout :: "(daemon \<Rightarrow> bool) \<Rightarrow> daemon \<Rightarrow> docker_log \<Rightarrow> bool" where
  "throughout I s [] = I s"
| "throughout I s (e # es) = (I s \<and> throughout I (effect e s) es)"

lemma throughout_append: "throughout I s (a @ b) \<longleftrightarrow> throughout I s a \<and> throughout I (effects a s) b"
proof (induction a arbitrary: s)
  case Nil
  have "throughout I s b \<Longrightarrow> I s" by (cases b) auto
  then show ?case by auto
qed simp

definition read_only :: "docker_call \<times> bool \<Rightarrow> bool" where
  "read_only e \<longleftrightarrow> (\<exists>i. fst e = Inspect i) \<or> (\<exists>h. fst e = Ping h)"

definition reads :: "docker_log \<Rightarrow> docker_log \<Rightarrow> bool" where
  "reads log log' \<longleftrightarrow> (\<exists>r. log' = log @ r \<and> list_all read_only r)"

lemma effect_read_only: "read_only e \<Longrightarrow> effect e s = s"
  by (cases e) (auto simp: read_only_def elim!: effect.elims)

lemma effects_read_only: "list_all read_only r \<Longrightarrow> effects r s = s \<and> throughout I s r = I s"
  by (induction r arbitrary: s) (auto simp: effect_read_only)

lemma reads_refl [simp]: "reads log log"
  by (simp add: reads_def)

lemma reads_trans: "reads a b \<Longrightarrow> reads b c \<Longrightarrow> reads a c"
  by (fastforce simp: reads_def)

lemma reads_inspect: "reads log (log @ [(Inspect i, ok)])"
  by (simp add: reads_def read_only_def)

lemma reads_callInspect: "reads log (snd (callInspect env log i))"
  by (simp add: callInspect_def Let_def reads_inspect)

lemma reads_confirm:
  "reads log (snd (confirmStillRunningOnDeadline env log i))" "reads log (snd (confirmHealthyOnDeadline env log i))"
  by (simp_all add: confirmStillRunningOnDeadline_def confirmHealthyOnDeadline_def callInspect_def Let_def reads_inspect split: sum.split)

lemma reads_stability: "reads log (snd (waitForContainerStability env log i ss))"
  by (induction env log i ss rule: waitForContainerStability.induct) (simp_all add: reads_confirm)

lemma reads_healthy: "reads log (snd (waitForContainerHealthy env log i ss))"
  by (induction env log i ss rule: waitForContainerHealthy.induct) (simp_all add: reads_confirm)

lemmas reads_wait = reads_stability reads_healthy

lemma reads_runtime: "reads log (snd (containerHealthCheckRuntime env log i))"
  using reads_callInspect [of log env i] reads_wait reads_trans
  by (fastforce simp: containerHealthCheckRuntime_def split: prod.split sum.split option.split)

lemma reads_uptime: "reads log (snd (containerHealthCheckUptime env log i c))"
  using reads_callInspect [of log env i]
  by (auto simp: containerHealthCheckUptime_def Let_def split: prod.split sum.split option.split)

lemma reads_pingDo: "reads log (snd (pingDo env c via log host))"
proof (induction env c via log host rule: pingDo.induct)
  case (1 env c via log host)
  have p: "reads log (log @ [(Ping host, True)])" by (simp add: reads_def read_only_def)
  show ?case unfolding pingDo.simps [of env c via log host] Let_def
    using p 1 [OF refl] reads_trans [OF p] by (auto split: ping_reply.split option.split)
qed

lemma reads_pingDo_result: "pingDo env c via log host = (r, log') \<Longrightarrow> reads log log'"
  using reads_pingDo [of log env c via host] by simp

lemma reads_ping: "reads log (snd (containerHealthCheckPing env log c))"
  unfolding containerHealthCheckPing_def Let_def
  by (simp split: prod.split sum.split option.split) (auto dest: reads_pingDo_result)

lemma reads_health: "reads log (snd (ContainerHealthCheck env log i c))"
  using reads_runtime [of log env i] reads_uptime reads_ping
  by (auto simp: ContainerHealthCheck_def Let_def split: prod.split) (metis reads_trans snd_conv)

subsection \<open>A replacement never loses the service\<close>

definition takenOver :: "daemon \<Rightarrow> bool" where
  "takenOver s \<longleftrightarrow> (\<exists>n. n \<in> dm_exists s \<and> n \<in> dm_running s \<and> n \<in> dm_verified s)"

definition service_safe :: "string \<Rightarrow> daemon \<Rightarrow> bool" where
  "service_safe old s \<longleftrightarrow> old \<in> dm_exists s \<or> takenOver s"

definition old_running :: "string \<Rightarrow> daemon \<Rightarrow> bool" where
  "old_running old s \<longleftrightarrow> old \<in> dm_exists s \<and> old \<in> dm_running s"

definition restarts :: "docker_env \<Rightarrow> string \<Rightarrow> bool" where
  "restarts env old \<longleftrightarrow> (\<forall>log. dk_start env log Detached old = None)"

text \<open>\<open>run I s log r Q\<close>: the calls of the run keep \<open>I\<close> throughout and end in a state with \<open>Q\<close>.\<close>

definition run :: "(daemon \<Rightarrow> bool) \<Rightarrow> daemon \<Rightarrow> docker_log \<Rightarrow> 'a docker_result \<Rightarrow> ('a \<Rightarrow> daemon \<Rightarrow> bool) \<Rightarrow> bool" where
  "run I s log r Q \<longleftrightarrow> (\<exists>new. snd r = log @ new \<and> throughout I s new \<and> Q (fst r) (effects new s))"

lemma run_here: "I s \<Longrightarrow> Q x s \<Longrightarrow> run I s log (x, log) Q"
  by (simp add: run_def)

lemma run_step:
  assumes "I s" "run I (effect e s) (log @ [e]) r Q"
  shows "run I s log r Q"
proof -
  obtain new where n: "snd r = log @ [e] @ new" "throughout I (effect e s) new" "Q (fst r) (effects new (effect e s))"
    using assms(2) by (auto simp: run_def)
  then show ?thesis unfolding run_def using assms(1) by (intro exI [of _ "e # new"]) simp
qed

lemma run_reads:
  assumes "reads log log1" "run I s log1 r Q"
  shows "run I s log r Q"
proof -
  obtain a where a: "log1 = log @ a" "list_all read_only a" using assms(1) by (auto simp: reads_def)
  obtain new where n: "snd r = log1 @ new" "throughout I s new" "Q (fst r) (effects new s)"
    using assms(2) by (auto simp: run_def)
  have "I s" using n(2) by (cases new) auto
  then show ?thesis unfolding run_def using n a(1) effects_read_only [OF a(2), of s I]
    by (intro exI [of _ "a @ new"]) (simp add: throughout_append)
qed

lemma run_mono: "run I s log r Q \<Longrightarrow> (\<And>x s'. Q x s' \<Longrightarrow> Q' x s') \<Longrightarrow> run I s log r Q'"
  by (auto simp: run_def)

lemma run_map: "run I s log r (\<lambda>x. Q (f x)) \<Longrightarrow> run I s log (map_prod f id r) Q"
  by (cases r) (auto simp: run_def)

lemma safe_step:
  assumes "run (service_safe old) (effect e s) (log @ [e]) r Q" "service_safe old s"
  shows "run (service_safe old) s log r Q"
  using run_step [where I = "service_safe old"] assms by blast

lemma safe_final:
  assumes "service_safe old s" "service_safe old (effect e s)" "Q x (effect e s)"
  shows "run (service_safe old) s log (x, log @ [e]) Q"
  by (rule safe_step [where e = e]) (simp_all add: run_here assms)

lemma safe_old [simp]: "old \<in> dm_exists s \<Longrightarrow> service_safe old s"
  by (simp add: service_safe_def)

lemma safe_new [simp]: "takenOver s \<Longrightarrow> service_safe old s"
  by (simp add: service_safe_def)

definition outcome_ok :: "docker_env \<Rightarrow> string \<Rightarrow> go_err option \<Rightarrow> daemon \<Rightarrow> bool" where
  "outcome_ok env old res s \<longleftrightarrow>
     (res = None \<longrightarrow> old \<notin> dm_exists s \<and> takenOver s) \<and>
     (\<forall>e. res = Some e \<longrightarrow> IsRolledBack e \<longrightarrow> old_running old s) \<and>
     (restarts env old \<longrightarrow> old_running old s \<or> takenOver s)"

lemma rollback_log:
  obtains e where "containerRollbackToOldContainer env log old err = (e, log @ [(Start Detached old, dk_start env log Detached old = None)])"
    "IsRolledBack e \<longleftrightarrow> dk_start env log Detached old = None"
proof (cases "dk_start env log Detached old")
  case None
  show thesis
    by (rule that [of "RolledBackError err"])
      (simp_all add: containerRollbackToOldContainer_def callStart_def None RolledBackError_def IsRolledBack_def)
next
  case (Some x)
  show thesis
    by (rule that [of "plain (''rollback failed - cannot restart old container: '' @ x @ '' (original error: '' @ err @ '')'')"])
      (simp_all add: containerRollbackToOldContainer_def callStart_def Some plain_def IsRolledBack_def)
qed

lemma run_rollback:
  assumes "old \<in> dm_exists s"
  shows "run (service_safe old) s log (map_prod Some id (containerRollbackToOldContainer env log old err)) (outcome_ok env old)"
proof -
  define c where "c = (dk_start env log Detached old = None)"
  obtain e where r: "containerRollbackToOldContainer env log old err = (e, log @ [(Start Detached old, c)])" "IsRolledBack e \<longleftrightarrow> c"
    unfolding c_def by (rule rollback_log)
  have "restarts env old \<longrightarrow> c" by (simp add: restarts_def c_def)
  then have "outcome_ok env old (Some e) (effect (Start Detached old, c) s)"
    using r(2) assms by (cases c) (simp_all add: outcome_ok_def old_running_def)
  moreover have "old \<in> dm_exists (effect (Start Detached old, c) s)" using assms by (cases c) simp_all
  ultimately show ?thesis unfolding r(1) using assms by (simp add: safe_final)
qed

lemma removeReplacement_log:
  obtains err' where "removeReplacement env log new name err =
    (err', log @ [(Remove Detached new True, dk_remove env log Detached new True = None)])"
proof (cases "dk_remove env log Detached new True")
  case None
  show thesis by (rule that) (simp only: removeReplacement_def callRemove_def Let_def None prod.case option.case)
next
  case (Some e)
  show thesis by (rule that) (simp only: removeReplacement_def callRemove_def Let_def Some prod.case option.case)
qed

lemma run_discard:
  assumes "old \<in> dm_exists s" "new \<noteq> old"
  shows "run (service_safe old) s log
    (let (err, log1) = removeReplacement env log new replacementName e
     in map_prod Some id (containerRollbackToOldContainer env log1 old err)) (outcome_ok env old)"
proof -
  let ?ok = "dk_remove env log Detached new True = None"
  let ?e = "(Remove Detached new True, ?ok)"
  obtain err where r: "removeReplacement env log new replacementName e = (err, log @ [?e])"
    by (rule removeReplacement_log)
  have "old \<in> dm_exists (effect ?e s)" using assms by (cases ?ok) auto
  then have "run (service_safe old) (effect ?e s) (log @ [?e])
      (map_prod Some id (containerRollbackToOldContainer env (log @ [?e]) old err)) (outcome_ok env old)"
    by (rule run_rollback)
  then show ?thesis unfolding r Let_def prod.case by (rule safe_step) (simp add: assms)
qed

lemma takeOver_removed:
  assumes "dk_remove env log Caller old True = None"
  obtains res where "takeOver env log old new name = (res, log @ [(Remove Caller old True, True)] @
      [(Rename Detached new name, dk_rename env (log @ [(Remove Caller old True, True)]) Detached new name = None)])"
    "\<forall>e. res = Some e \<longrightarrow> \<not> IsRolledBack e"
proof (cases "dk_rename env (log @ [(Remove Caller old True, True)]) Detached new name")
  case None
  show thesis by (rule that, simp only: takeOver_def callRemove_def callRename_def Let_def assms None prod.case
      option.case append.assoc simp_thms) simp
next
  case (Some e)
  show thesis by (rule that, simp only: takeOver_def callRemove_def callRename_def Let_def assms Some prod.case
      option.case append.assoc simp_thms option.distinct) (simp add: IsRolledBack_def plain_def)
qed

lemma takeOver_failed:
  assumes "dk_remove env log Caller old True = Some e"
    and log1_def: "log1 = log @ [(Remove Caller old True, False)]"
    and log2_def: "log2 = log1 @ [(Remove Detached new True, dk_remove env log1 Detached new True = None)]"
  obtains err where "takeOver env log old new name = (Some (plain err), log2 @ [(Start Detached old, dk_start env log2 Detached old = None)])"
proof (cases "dk_start env log2 Detached old")
  case None
  show thesis by (rule that) (simp only: takeOver_def callRemove_def callStart_def Let_def assms(1) log1_def [symmetric]
      log2_def [symmetric] None prod.case option.case option.distinct simp_thms)
next
  case (Some x)
  show thesis by (rule that) (simp only: takeOver_def callRemove_def callStart_def Let_def assms(1) log1_def [symmetric]
      log2_def [symmetric] Some prod.case option.case option.distinct simp_thms)
qed

lemma run_takeOver:
  assumes "old \<in> dm_exists s" "new \<noteq> old" "new \<in> dm_exists s" "new \<in> dm_running s" "new \<in> dm_verified s"
  shows "run (service_safe old) s log (takeOver env log old new name) (outcome_ok env old)"
proof (cases "dk_remove env log Caller old True")
  case None
  let ?e = "(Remove Caller old True, True)"
  let ?b = "dk_rename env (log @ [(Remove Caller old True, True)]) Detached new name = None"
  obtain res where r: "takeOver env log old new name = (res, log @ [?e] @ [(Rename Detached new name, ?b)])"
    and nr: "\<forall>e. res = Some e \<longrightarrow> \<not> IsRolledBack e"
    by (rule takeOver_removed [OF None])
  have t: "takenOver (effect ?e s)" using assms by (auto simp: takenOver_def)
  have "run (service_safe old) (effect ?e s) (log @ [?e]) (res, (log @ [?e]) @ [(Rename Detached new name, ?b)]) (outcome_ok env old)"
    using t nr by (intro safe_final) (simp_all add: outcome_ok_def)
  then show ?thesis unfolding r append.assoc by (rule safe_step) (simp add: assms)
next
  case (Some x)
  let ?e1 = "(Remove Caller old True, False)"
  define b where "b = (dk_remove env (log @ [?e1]) Detached new True = None)"
  define c where "c = (dk_start env ((log @ [?e1]) @ [(Remove Detached new True, b)]) Detached old = None)"
  obtain err where r: "takeOver env log old new name =
      (Some (plain err), ((log @ [?e1]) @ [(Remove Detached new True, b)]) @ [(Start Detached old, c)])"
    unfolding c_def b_def by (rule takeOver_failed [OF Some refl refl])
  have c: "restarts env old \<longrightarrow> c" by (simp add: restarts_def c_def)
  let ?s = "effect (Remove Detached new True, b) s"
  have ex: "old \<in> dm_exists ?s" using assms by (cases b) auto
  have "outcome_ok env old (Some (plain err)) (effect (Start Detached old, c) ?s)"
    using ex c by (cases c) (simp_all add: outcome_ok_def plain_def IsRolledBack_def old_running_def)
  then have "run (service_safe old) ?s ((log @ [?e1]) @ [(Remove Detached new True, b)])
      (Some (plain err), ((log @ [?e1]) @ [(Remove Detached new True, b)]) @ [(Start Detached old, c)]) (outcome_ok env old)"
    using ex by (intro safe_final) (simp_all, cases c, simp_all)
  then have "run (service_safe old) s (log @ [?e1])
      (Some (plain err), ((log @ [?e1]) @ [(Remove Detached new True, b)]) @ [(Start Detached old, c)]) (outcome_ok env old)"
    by (rule safe_step) (simp add: assms)
  then show ?thesis unfolding r by (rule_tac e = ?e1 in safe_step) (simp_all add: assms)
qed

definition fresh_ids :: "docker_env \<Rightarrow> string \<Rightarrow> bool" where
  "fresh_ids env old \<longleftrightarrow> (\<forall>log opts i. dk_create env log opts = Inr i \<longrightarrow> i \<noteq> old)"

lemma containerCreate_log:
  obtains (failed) e opts where "containerCreate env log img name insp = (Inl e, log @ [(Create opts [], False)])"
  | (created) i opts where "containerCreate env log img name insp = (Inr i, log @ [(Create opts i, True)])"
      "dk_create env log opts = Inr i" "co_Name opts = name" "cfg_Image (co_Config opts) = img"
      "co_HostConfig opts = ir_HostConfig insp" "co_Networks opts = ir_Networks insp"
proof -
  define cfg where "cfg = (case ir_Config insp of Some c \<Rightarrow> c
     | None \<Rightarrow> \<lparr>cfg_Image = [], cfg_Labels = [], cfg_StartPeriod = None, cfg_Other = []\<rparr>)"
  define opts where "opts = \<lparr>co_Name = name, co_Config = cfg\<lparr>cfg_Image := img\<rparr>,
     co_HostConfig = ir_HostConfig insp, co_Networks = ir_Networks insp\<rparr>"
  have eq: "containerCreate env log img name insp = (case callCreate env log opts of
      (Inl e, log1) \<Rightarrow> (Inl (''failed to create new container for '' @ name @ '': '' @ e), log1) | (Inr i, log1) \<Rightarrow> (Inr i, log1))"
    unfolding containerCreate_def Let_def cfg_def [symmetric] opts_def [symmetric] ..
  show thesis
  proof (cases "dk_create env log opts")
    case (Inl e)
    then show ?thesis using eq by (intro failed) (simp add: callCreate_def)
  next
    case (Inr i)
    then show ?thesis using eq by (intro created [of i opts]) (simp_all add: callCreate_def opts_def)
  qed
qed

lemma run_stop_failed:
  assumes "old \<in> dm_exists s" "dk_stop env log old = Some e"
  shows "run (service_safe old) s log (recreateRunning env log img old name rname insp verify) (outcome_ok env old)"
proof -
  let ?log = "log @ [(Stop old, False)]"
  define c where "c = (dk_start env ?log Detached old = None)"
  obtain err where r: "recreateRunning env log img old name rname insp verify = (Some (plain err), ?log @ [(Start Detached old, c)])"
    unfolding recreateRunning_def callStop_def callStart_def Let_def assms(2) c_def
    by (cases "dk_start env ?log Detached old") auto
  have "restarts env old \<longrightarrow> c" by (simp add: restarts_def c_def)
  then have "outcome_ok env old (Some (plain err)) (effect (Start Detached old, c) s)"
    using assms(1) by (cases c) (simp_all add: outcome_ok_def plain_def IsRolledBack_def old_running_def)
  then have "run (service_safe old) s ?log (Some (plain err), ?log @ [(Start Detached old, c)]) (outcome_ok env old)"
    using assms(1) by (intro safe_final) (simp_all, cases c, simp_all)
  then show ?thesis unfolding r by (rule_tac e = "(Stop old, False)" in safe_step) (simp_all add: assms)
qed

lemma run_started:
  assumes "old \<in> dm_exists s" "new \<noteq> old" "new \<in> dm_exists s" "new \<in> dm_running s"
  shows "run (service_safe old) s log
    (let (health, log4) = (if verify then ContainerHealthCheck env log new insp else (None, log)) in
     case health of
       Some e \<Rightarrow>
         (let (err, log5) = removeReplacement env log4 new rname e
          in map_prod Some id (containerRollbackToOldContainer env log5 old err))
     | None \<Rightarrow> takeOver env (log4 @ [(Verified new, True)]) old new name) (outcome_ok env old)"
proof -
  obtain health log4 where h: "(if verify then ContainerHealthCheck env log new insp else (None, log)) = (health, log4)" by fastforce
  have rd: "reads log log4" using h reads_health [of log env new insp] by (cases verify) auto
  show ?thesis
  proof (cases health)
    case None
    have "run (service_safe old) (effect (Verified new, True) s) (log4 @ [(Verified new, True)])
        (takeOver env (log4 @ [(Verified new, True)]) old new name) (outcome_ok env old)"
      using assms by (intro run_takeOver) simp_all
    then have "run (service_safe old) s log4 (takeOver env (log4 @ [(Verified new, True)]) old new name) (outcome_ok env old)"
      by (rule safe_step) (simp add: assms)
    then show ?thesis unfolding h Let_def prod.case None option.case by (rule run_reads [OF rd])
  next
    case (Some e)
    show ?thesis unfolding h Let_def prod.case Some option.case
      by (rule run_reads [OF rd], rule run_discard [OF assms(1,2), unfolded Let_def])
  qed
qed

lemma run_recreateRunning:
  assumes "old \<in> dm_exists s" "fresh_ids env old"
  shows "run (service_safe old) s log (recreateRunning env log img old name rname insp verify) (outcome_ok env old)"
proof (cases "dk_stop env log old")
  case (Some e)
  then show ?thesis by (rule run_stop_failed [OF assms(1)])
next
  case None
  let ?log1 = "log @ [(Stop old, True)]" and ?s1 = "effect (Stop old, True) s"
  have stop: "callStop env log old = (None, ?log1)" by (simp add: callStop_def None)
  have ex1: "old \<in> dm_exists ?s1" using assms(1) by simp
  have "run (service_safe old) ?s1 ?log1 (recreateRunning env log img old name rname insp verify) (outcome_ok env old)"
  proof (cases rule: containerCreate_log [of env ?log1 img rname insp])
    case (failed e opts)
    have "run (service_safe old) (effect (Create opts [], False) ?s1) (?log1 @ [(Create opts [], False)])
       (map_prod Some id (containerRollbackToOldContainer env (?log1 @ [(Create opts [], False)]) old e)) (outcome_ok env old)"
      using ex1 by (intro run_rollback) simp
    then show ?thesis unfolding recreateRunning_def stop prod.case option.case failed sum.case
      by (rule safe_step) (rule safe_old [OF ex1])
  next
    case (created new opts)
    let ?e2 = "(Create opts new, True)"
    let ?log2 = "?log1 @ [?e2]" and ?s2 = "effect (Create opts new, True) ?s1"
    have new: "new \<noteq> old" using created(2) assms(2) by (auto simp: fresh_ids_def)
    have ex2: "old \<in> dm_exists ?s2" "new \<in> dm_exists ?s2" using ex1 by simp_all
    have "run (service_safe old) ?s2 ?log2 (recreateRunning env log img old name rname insp verify) (outcome_ok env old)"
    proof (cases "dk_start env ?log2 Caller new")
      case st: None
      have start: "callStart env ?log2 Caller new = (None, ?log2 @ [(Start Caller new, True)])"
        by (simp only: callStart_def Let_def st option.distinct simp_thms)
      show ?thesis unfolding recreateRunning_def stop prod.case option.case created(1) sum.case start
        by (rule safe_step, rule run_started) (use ex2 new in simp_all)
    next
      case st: (Some e)
      have start: "callStart env ?log2 Caller new = (Some e, ?log2 @ [(Start Caller new, False)])"
        by (simp only: callStart_def Let_def st option.distinct simp_thms)
      show ?thesis unfolding recreateRunning_def stop prod.case option.case created(1) sum.case start
        by (rule safe_step, rule run_discard) (use ex2 new in simp_all)
    qed
    then show ?thesis by (rule safe_step) (rule safe_old [OF ex1])
  qed
  then show ?thesis by (rule safe_step) (rule safe_old [OF assms(1)])
qed

definition inspectedRunning :: "inspectResponse \<Rightarrow> bool" where
  "inspectedRunning insp \<longleftrightarrow> (case ir_State insp of None \<Rightarrow> False | Some st \<Rightarrow> st_Running st)"

lemma recreate_running_eq:
  assumes "dk_inspect env log (cs_ID old) = Inr insp" "inspectedRunning insp"
  obtains name rname where "ContainerRecreateWithOptions env log img old verify =
    recreateRunning env (log @ [(Inspect (cs_ID old), True)]) img (cs_ID old) name rname insp verify"
  using assms by (simp add: ContainerRecreateWithOptions_def callInspect_def Let_def inspectedRunning_def)


text \<open>A daemon whose health check finds the replacement gone: the update is rolled back.\<close>

definition sampleInspect :: "bool \<Rightarrow> inspectResponse" where
  "sampleInspect up =
     \<lparr>ir_State = Some \<lparr>st_Running = up, st_Status = ''exited'', st_Health = None, st_StartedAt = []\<rparr>,
      ir_Config = None, ir_HostConfig = [], ir_Networks = None\<rparr>"

definition crashingEnv :: docker_env where
  "crashingEnv =
     \<lparr>dk_inspect = (\<lambda>_ i. Inr (sampleInspect (i = ''old''))), dk_create = (\<lambda>_ _. Inr ''new''),
      dk_start = (\<lambda>_ _ _. None), dk_stop = (\<lambda>_ _. None), dk_remove = (\<lambda>_ _ _ _. None), dk_rename = (\<lambda>_ _ _ _. None),
      dk_list = (\<lambda>_ _. Inr []), dk_images = (\<lambda>_ _. Inr []), dk_pull = (\<lambda>_ _. None), dk_suffix = (\<lambda>_. ''0a1b2c3d''),
      dk_stimuli = (\<lambda>_. []), dk_uptimeDone = (\<lambda>_. None), dk_pingDone = (\<lambda>_. None), dk_ping = (\<lambda>_ _. PingFailed []),
      dk_now = (\<lambda>_. 0), dk_parseDuration = (\<lambda>_. None), dk_parseTime = (\<lambda>_. None), dk_parseURL = (\<lambda>_. None),
      dk_isLoopback = (\<lambda>_. False)\<rparr>"


subsection \<open>Which containers a run touches\<close>

fun touched :: "docker_call \<Rightarrow> string set" where
  "touched (Create opts i) = {i}"
| "touched (Start ctx i) = {i}"
| "touched (Stop i) = {i}"
| "touched (Remove ctx i force) = {i}"
| "touched (Rename ctx i name) = {i}"
| "touched c = {}"

text \<open>\<open>within A log log'\<close>: the calls added to the log change containers of \<open>A\<close> only.\<close>

definition within :: "string set \<Rightarrow> docker_log \<Rightarrow> docker_log \<Rightarrow> bool" where
  "within A log log' \<longleftrightarrow> (\<exists>new. log' = log @ new \<and> (\<forall>(c, ok) \<in> set new. ok \<longrightarrow> touched c \<subseteq> A))"

lemma within_refl [simp]: "within A log log"
  by (simp add: within_def)

lemma within_trans: "within A a b \<Longrightarrow> within A b c \<Longrightarrow> within A a c"
  by (fastforce simp: within_def)

lemma within_mono: "within A log log' \<Longrightarrow> A \<subseteq> B \<Longrightarrow> within B log log'"
  by (fastforce simp: within_def)

lemma within_subset: "within A log log' \<Longrightarrow> set log \<subseteq> set log'"
  by (auto simp: within_def)

lemma within_snoc: "within A log log1 \<Longrightarrow> (ok \<Longrightarrow> touched c \<subseteq> A) \<Longrightarrow> within A log (log1 @ [(c, ok)])"
  by (auto simp: within_def)

lemma within_bind:
  assumes "within A log (snd m)" "\<And>x l. m = (x, l) \<Longrightarrow> within A l (snd (k x l))"
  shows "within A log (snd (case m of (x, l) \<Rightarrow> k x l))"
  using assms by (cases m) (auto intro: within_trans)

lemma within_reads: "reads log log' \<Longrightarrow> within A log log'"
proof -
  assume "reads log log'"
  then obtain r where "log' = log @ r" "list_all read_only r" by (auto simp: reads_def)
  moreover have "touched c \<subseteq> A" if "read_only (c, ok)" for c ok using that by (auto simp: read_only_def)
  ultimately show ?thesis by (auto simp: within_def list_all_iff)
qed

lemma within_calls:
  "i \<in> A \<Longrightarrow> within A log (snd (callStart env log ctx i))"
  "i \<in> A \<Longrightarrow> within A log (snd (callStop env log i))"
  "i \<in> A \<Longrightarrow> within A log (snd (callRemove env log ctx i force))"
  "i \<in> A \<Longrightarrow> within A log (snd (callRename env log ctx i name))"
  "within A log (snd (callInspect env log i))"
  "within A log (snd (callList env log fs))"
  by (simp_all add: callStart_def callStop_def callRemove_def callRename_def callInspect_def callList_def Let_def within_snoc)

definition created_ids :: "docker_env \<Rightarrow> string set" where
  "created_ids env = {i. \<exists>log opts. dk_create env log opts = Inr i}"

lemma create_id: "containerCreate env log img name insp = (Inr i, log') \<Longrightarrow> i \<in> created_ids env"
  by (cases rule: containerCreate_log [of env log img name insp]) (auto simp: created_ids_def)

lemma within_create:
  assumes "created_ids env \<subseteq> A"
  shows "within A log (snd (containerCreate env log img name insp))"
proof (cases rule: containerCreate_log [of env log img name insp])
  case (created i opts)
  then have "i \<in> A" using create_id assms by blast
  with created show ?thesis by (auto intro!: within_snoc)
qed (auto intro!: within_snoc)

lemma within_rollback: "old \<in> A \<Longrightarrow> within A log (snd (containerRollbackToOldContainer env log old err))"
  unfolding containerRollbackToOldContainer_def
  by (rule within_bind) (simp_all add: within_calls split: option.split)

lemma within_removeReplacement: "new \<in> A \<Longrightarrow> within A log (snd (removeReplacement env log new name err))"
  unfolding removeReplacement_def by (rule within_bind) (simp_all add: within_calls split: option.split)

lemma within_takeOver:
  assumes "old \<in> A" "new \<in> A"
  shows "within A log (snd (takeOver env log old new name))"
  unfolding takeOver_def Let_def
proof (rule within_bind)
  show "within A log (snd (callRemove env log Caller old True))" by (simp add: within_calls assms)
next
  fix x l
  show "within A l (snd (case x of
      Some e \<Rightarrow> (case callRemove env l Detached new True of (_, log2) \<Rightarrow>
          (case callStart env log2 Detached old of
             (Some restartErr, log3) \<Rightarrow>
               (Some (plain (''failed to remove old container '' @ name @ '' and rollback restart failed: '' @ restartErr @
                  '' (remove error: '' @ e @ '')'')), log3)
           | (None, log3) \<Rightarrow>
               (Some (plain (''failed to remove old container '' @ name @ ''; replacement removed and old container restarted: '' @ e)), log3)))
    | None \<Rightarrow> (case callRename env l Detached new name of
             (Some e, log2) \<Rightarrow>
               (Some (plain (''container update completed but replacement '' @ new @ '' could not take final name '' @ name @
                  ''; manual recovery is required: '' @ e)), log2)
           | (None, log2) \<Rightarrow> (None, log2))))"
    by (cases x; simp only: option.case) (rule within_bind, simp add: within_calls assms, (rule within_bind)?,
        simp_all add: within_calls assms split: option.split)+
qed

lemma within_health:
  "within A log (snd (if verify then ContainerHealthCheck env log new insp else (None, log)))"
  using reads_health within_reads by simp

lemma within_discard:
  assumes "old \<in> A" "new \<in> A"
  shows "within A log (snd (case removeReplacement env log new name e of (err, log1) \<Rightarrow>
     map_prod Some id (containerRollbackToOldContainer env log1 old err)))"
  by (rule within_bind) (simp_all add: within_removeReplacement within_rollback assms)

lemma within_recreateRunning:
  assumes "old \<in> A" "created_ids env \<subseteq> A"
  shows "within A log (snd (recreateRunning env log img old name rname insp verify))"
  unfolding recreateRunning_def Let_def
  apply (rule within_bind, simp add: within_calls assms)
  subgoal for x l
    apply (cases x; simp only: option.case)
    subgoal
      apply (rule within_bind, simp add: within_create assms)
      subgoal for y l2
        apply (cases y; simp only: sum.case)
        subgoal by (simp add: within_rollback assms)
        subgoal for new
          apply (rule within_bind)
          subgoal by (meson assms(2) create_id subsetD within_calls(1))
          subgoal for z l3
            apply (cases z; simp only: option.case)
            subgoal
              apply (rule within_bind, rule within_health)
              subgoal for h l4
                apply (cases h; simp only: option.case)
                subgoal
                  apply (rule within_trans [of _ _ "l4 @ [(Verified new, True)]"])
                  subgoal by (simp add: within_snoc)
                  subgoal by (meson assms create_id subsetD within_takeOver)
                  done
                subgoal by (rule within_discard [OF assms(1) subsetD [OF assms(2) create_id]])
                done
              done
            subgoal by (rule within_discard [OF assms(1) subsetD [OF assms(2) create_id]])
            done
          done
        done
      done
    subgoal by (rule within_bind) (simp_all add: within_calls assms split: option.split)
    done
  done

lemma within_recreateStopped:
  assumes "old \<in> A" "created_ids env \<subseteq> A"
  shows "within A log (snd (recreateStopped env log img old name rname insp))"
  unfolding recreateStopped_def
  apply (rule within_bind, simp add: within_create assms)
  subgoal for y l2
    apply (cases y; simp only: sum.case)
    subgoal by simp
    subgoal for new
      apply (rule within_bind, simp add: within_calls assms)
      subgoal for z l3
        using create_id [of env log img rname insp new l2] assms
        by (cases z; simp only: option.case) (rule within_bind, auto simp: within_calls split: option.split)+
      done
    done
  done

lemma within_recreate:
  assumes "cs_ID old \<in> A" "created_ids env \<subseteq> A"
  shows "within A log (snd (ContainerRecreateWithOptions env log img old verify))"
  unfolding ContainerRecreateWithOptions_def Let_def
  by (rule within_bind)
    (simp_all add: within_calls within_recreateRunning within_recreateStopped assms split: sum.split)

lemma within_report: "within A log (reportStage log cur stage detail)"
  by (simp add: reportStage_def within_snoc)

lemma within_report_trans: "within A log log1 \<Longrightarrow> within A log (reportStage log1 cur stage detail)"
  using within_report within_trans by blast

lemma within_if:
  "(b \<Longrightarrow> within A l (snd x)) \<Longrightarrow> (\<not> b \<Longrightarrow> within A l (snd y)) \<Longrightarrow> within A l (snd (if b then x else y))"
  by simp

lemma within_sum:
  "(\<And>a. s = Inl a \<Longrightarrow> within A l (snd (f a))) \<Longrightarrow> (\<And>b. s = Inr b \<Longrightarrow> within A l (snd (g b))) \<Longrightarrow>
   within A l (snd (case s of Inl a \<Rightarrow> f a | Inr b \<Rightarrow> g b))"
  by (cases s) simp_all

lemma within_option:
  "(x = None \<Longrightarrow> within A l (snd y)) \<Longrightarrow> (\<And>a. x = Some a \<Longrightarrow> within A l (snd (f a))) \<Longrightarrow>
   within A l (snd (case x of None \<Rightarrow> y | Some a \<Rightarrow> f a))"
  by (cases x) simp_all

lemma within_done: "within A log log' \<Longrightarrow> within A log (snd (x, log'))"
  by simp

lemma within_forceUpdateContainer:
  assumes "cs_ID cur \<in> A" "created_ids env \<subseteq> A"
  shows "within A log (snd (forceUpdateContainer env log cur options))"
  unfolding forceUpdateContainer_def Let_def
  apply (rule within_if, rule within_done, rule within_report)
  apply (rule within_bind)
   apply (rule within_if, simp, rule within_done, rule within_snoc, rule within_report, simp)
  apply (rule within_option)
   apply (rule within_sum)
    apply (rule within_done, rule within_report_trans, rule within_snoc, simp, simp)
   apply (rule within_if)
    apply (rule within_done, rule within_report_trans, rule within_snoc, simp, simp)
   apply (rule within_bind)
    apply (rule within_trans [OF _ within_recreate [OF assms]], rule within_report_trans, rule within_snoc, simp, simp)
   apply (rule within_option; rule within_done; rule within_report)
  apply (rule within_done, rule within_report)
  done

text \<open>
  Updating a stack changes only what it may: every container that a run of
  \<open>forceUpdateStack\<close> starts, stops, removes or renames successfully is either one it created
  itself or one of the selected containers that is not protected infrastructure.  A protected
  member of the stack is reported as failed and never touched, and whatever the daemon answers,
  the run goes on with the other members: each protected member contributes its own error.
\<close>

theorem forceUpdateStack_spares_protected:
  assumes "forceUpdateStack env log cs = (errs, log')"
  shows "within ({cs_ID c |c. c \<in> set cs \<and> guardProtectedInfrastructure c = None} \<union> created_ids env) log log'
    \<and> (\<forall>c \<in> set cs. \<forall>e. guardProtectedInfrastructure c = Some e \<longrightarrow>
         plain e \<in> set errs \<and> (Report (cs_ID c) ''failed'' e, True) \<in> set log')"
  using assms
proof (induction cs arbitrary: log errs log')
  case (Cons cur rest)
  define A where "A = {cs_ID c |c. c \<in> set (cur # rest) \<and> guardProtectedInfrastructure c = None} \<union> created_ids env"
  obtain log1 errs1 where step: "within A log log1" "forceUpdateStack env log1 rest = (errs1, log')" "set errs1 \<subseteq> set errs"
    "\<And>e. guardProtectedInfrastructure cur = Some e \<Longrightarrow> plain e \<in> set errs \<and> (Report (cs_ID cur) ''failed'' e, True) \<in> set log1"
  proof (cases "guardProtectedInfrastructure cur")
    case None
    obtain res err log1 where f: "forceUpdateContainer env log cur stackOptions = ((res, err), log1)"
      by (metis prod.collapse)
    have "within A log log1" using within_forceUpdateContainer [of cur A env log stackOptions] None f by (auto simp: A_def)
    then show thesis using Cons.prems None f
      by (intro that [of log1 "fst (forceUpdateStack env log1 rest)"]) (auto split: prod.splits option.splits)
  next
    case (Some e)
    show thesis using Cons.prems Some
      by (intro that [of "reportStage log cur ''failed'' e" "fst (forceUpdateStack env (reportStage log cur ''failed'' e) rest)"])
        (auto simp: within_snoc reportStage_def split: prod.splits)
  qed
  note ih = Cons.IH [OF step(2)]
  have "within A log1 log'" by (rule within_mono [OF conjunct1 [OF ih]]) (auto simp: A_def)
  with step(1) have "within A log log'" by (rule within_trans)
  moreover have "plain e \<in> set errs \<and> (Report (cs_ID c) ''failed'' e, True) \<in> set log'"
    if "c \<in> set (cur # rest)" "guardProtectedInfrastructure c = Some e" for c e
    using that step(3,4) ih within_subset [of _ log1 log'] by auto
  ultimately show ?case unfolding A_def by blast
qed simp

definition dockmanContainer :: containerSummary where
  "dockmanContainer = (sampleContainer ''self'' ''p'')\<lparr>cs_Labels := [(DockmanContainerLabel, ''true'')]\<rparr>"

theorem forceUpdateStack_spares_protected_witness:
  "\<exists>errs log'. forceUpdateStack crashingEnv [] [dockmanContainer] = (errs, log') \<and>
     within (created_ids crashingEnv) [] log' \<and> errs \<noteq> []"
proof -
  obtain errs log' where run: "forceUpdateStack crashingEnv [] [dockmanContainer] = (errs, log')" by (metis prod.collapse)
  have "guardProtectedInfrastructure dockmanContainer \<noteq> None" by code_simp
  then show ?thesis using forceUpdateStack_spares_protected [OF run] run by auto
qed

subsection \<open>Where the health check connects\<close>

definition pings :: "docker_log \<Rightarrow> string list" where
  "pings log = concat (map (\<lambda>(c, _). case c of Ping h \<Rightarrow> [h] | _ \<Rightarrow> []) log)"

lemma pings_simps [simp]:
  "pings [] = []" "pings (a @ b) = pings a @ pings b" "pings [(Ping h, ok)] = [h]"
  by (simp_all add: pings_def)

lemma pingDo_contained:
  assumes "validateHealthcheckHost env host c = None" "via < 3"
  shows "\<exists>new. snd (pingDo env c via log host) = log @ new \<and> length (pings new) \<le> 3 - via \<and>
    (\<forall>h \<in> set (pings new). validateHealthcheckHost env h c = None)"
  using assms
proof (induction env c via log host rule: pingDo.induct)
  case (1 env c via log host)
  let ?log1 = "log @ [(Ping host, True)]"
  have stop: "\<exists>new. ?log1 = log @ new \<and> length (pings new) \<le> 3 - via \<and>
      (\<forall>h \<in> set (pings new). validateHealthcheckHost env h c = None)"
    using 1(2,3) by (intro exI [of _ "[(Ping host, True)]"]) auto
  have go: ?case if r: "dk_ping env log host = PingRedirect h" and v: "validateHealthcheckHost env h c = None" and
    n: "\<not> Suc via \<ge> 3" for h
  proof -
    obtain new where new: "snd (pingDo env c (Suc via) ?log1 h) = ?log1 @ new" "length (pings new) \<le> 3 - Suc via"
      "\<forall>h \<in> set (pings new). validateHealthcheckHost env h c = None"
      using 1(1) [OF refl r v n v] n by auto
    then show ?thesis unfolding pingDo.simps [of env c via log host] Let_def using r v n 1(2)
      by (intro exI [of _ "(Ping host, True) # new"]) (auto simp: pings_def)
  qed
  show ?case
  proof (cases "dk_ping env log host")
    case (PingRedirect h)
    then show ?thesis using stop go [OF PingRedirect]
      by (cases "validateHealthcheckHost env h c"; cases "Suc via \<ge> 3")
        (auto simp: pingDo.simps [of env c via log host] Let_def)
  qed (use stop in \<open>simp_all add: pingDo.simps [of env c via log host] Let_def\<close>)
qed

text \<open>
  The label that names a health endpoint cannot be used to reach other hosts.  Whatever
  the labels of a container say and wherever the endpoint redirects, the check sends at most
  three requests, each to a host that is loopback or an address of the container itself.
\<close>

theorem containerHealthCheckPing_contained:
  "\<exists>new. snd (containerHealthCheckPing env log c) = log @ new \<and> length (pings new) \<le> 3 \<and>
     (\<forall>h \<in> set (pings new). dk_isLoopback env h \<or> ToLower h \<in> {''localhost'', ''127.0.0.1'', ''::1''} \<or>
        (\<exists>nets n. ir_Networks c = Some nets \<and> (n, Some (ToLower h)) \<in> set nets))"
proof -
  have host: "dk_isLoopback env h \<or> ToLower h \<in> {''localhost'', ''127.0.0.1'', ''::1''} \<or>
      (\<exists>nets n. ir_Networks c = Some nets \<and> (n, Some (ToLower h)) \<in> set nets)"
    if "validateHealthcheckHost env h c = None" for h
    using that unfolding validateHealthcheckHost_def Let_def
    by (auto split: if_splits option.splits)
  have "\<exists>new. snd (containerHealthCheckPing env log c) = log @ new \<and> length (pings new) \<le> 3 \<and>
      (\<forall>h \<in> set (pings new). validateHealthcheckHost env h c = None)"
  proof -
    have r: "\<exists>new. log1 = log @ new \<and> length (pings new) \<le> 3 \<and> (\<forall>h \<in> set (pings new). validateHealthcheckHost env h c = None)"
      if "validateHealthcheckHost env host c = None" "pingDo env c 0 log host = (x, log1)" for host x log1
      using pingDo_contained [OF that(1), of 0 log] that(2) by simp
    show ?thesis unfolding containerHealthCheckPing_def Let_def
      by (auto split: option.split sum.split prod.split dest: r)
  qed
  then show ?thesis using host by blast
qed

definition pingedInspect :: inspectResponse where
  "pingedInspect =
     \<lparr>ir_State = None,
      ir_Config = Some \<lparr>cfg_Image = ''app:2'', cfg_Labels = [(DockmanHealthCheckPingLabel, ''http://10.0.0.5/'')], cfg_StartPeriod = None, cfg_Other = []\<rparr>,
      ir_HostConfig = [], ir_Networks = Some [(''web'', Some ''10.0.0.5'')]\<rparr>"

text \<open>An endpoint of the container that redirects to a host outside.\<close>

definition redirectingEnv :: docker_env where
  "redirectingEnv = crashingEnv\<lparr>dk_parseURL := \<lambda>_. Some (''http'', ''10.0.0.5''), dk_ping := \<lambda>_ _. PingRedirect ''example.com''\<rparr>"

theorem containerHealthCheckPing_contained_witness:
  "pings (snd (containerHealthCheckPing redirectingEnv [] pingedInspect)) = [''10.0.0.5''] \<and>
   length (pings (snd (containerHealthCheckPing redirectingEnv [] pingedInspect))) \<le> 3"
proof -
  have "pings (snd (containerHealthCheckPing redirectingEnv [] pingedInspect)) = [''10.0.0.5'']" by code_simp
  then show ?thesis using containerHealthCheckPing_contained [of redirectingEnv "[]" pingedInspect] by auto
qed

subsection \<open>Interrupted replacements are finished\<close>

text \<open>What one pass may add to the log: renames to the target of a listed interrupted name.\<close>

definition recovers :: "(string \<times> string) set \<Rightarrow> string set \<Rightarrow> docker_log \<Rightarrow> bool" where
  "recovers named listed new \<longleftrightarrow> (\<forall>(c, ok) \<in> set new. \<exists>i name t. c = Rename Caller i t \<and> (i, name) \<in> named \<and>
     interruptedReplacementPattern name = Some t \<and> (t \<in> listed \<longrightarrow> interruptedReplacementPattern t \<noteq> None))"

definition asked :: "string \<Rightarrow> docker_log \<Rightarrow> bool" where
  "asked t new \<longleftrightarrow> (\<exists>i ok. (Rename Caller i t, ok) \<in> set new)"

definition succeeded :: "docker_log \<Rightarrow> nat" where
  "succeeded new = length (filter snd new)"

lemma recovers_simps [simp]:
  "recovers named listed []" "recovers named listed (a @ b) \<longleftrightarrow> recovers named listed a \<and> recovers named listed b"
  "asked t [] = False" "asked t (a @ b) \<longleftrightarrow> asked t a \<or> asked t b" "succeeded [] = 0" "succeeded (a @ b) = succeeded a + succeeded b"
  "succeeded [(c, ok)] = (if ok then 1 else 0)"
  by (simp_all add: recovers_def asked_def succeeded_def ball_Un) blast

lemma recoversE:
  assumes "recovers named listed new" "(c, ok) \<in> set new"
  obtains i name t where "c = Rename Caller i t" "(i, name) \<in> named" "interruptedReplacementPattern name = Some t"
    "t \<in> listed \<longrightarrow> interruptedReplacementPattern t \<noteq> None"
  using bspec [OF assms(1) [unfolded recovers_def] assms(2)] by auto

text \<open>The names the pass holds for taken: listed ones, and the targets it has asked for.\<close>

definition taken_ok :: "string set \<Rightarrow> string list \<Rightarrow> docker_log \<Rightarrow> bool" where
  "taken_ok listed taken new \<longleftrightarrow>
     (\<forall>x \<in> listed. interruptedReplacementPattern x = None \<longrightarrow> x \<in> set taken) \<and>
     (\<forall>x \<in> set taken. x \<in> listed \<or> asked x new)"

lemma recoverNames_ok:
  assumes "taken_ok listed taken done" "\<forall>r \<in> set names. (i, TrimPrefix r ''/'') \<in> named"
    "recoverNames env (log @ done) taken n i names = (taken1, n1, log1)"
  shows "\<exists>new. log1 = log @ done @ new \<and> recovers named listed new \<and> n1 = n + succeeded new \<and> taken_ok listed taken1 (done @ new) \<and>
    (\<forall>r \<in> set names. \<forall>t. interruptedReplacementPattern (TrimPrefix r ''/'') = Some t \<longrightarrow> t \<in> listed \<or> asked t (done @ new))"
  using assms
proof (induction names arbitrary: "done" taken n)
  case (Cons raw names)
  let ?name = "TrimPrefix raw ''/''"
  show ?case
  proof (cases "interruptedReplacementPattern ?name")
    case None
    with Cons show ?thesis by auto
  next
    case (Some t)
    show ?thesis
    proof (cases "t \<in> set taken")
      case True
      with Cons.prems Some obtain new where "log1 = log @ done @ new" "recovers named listed new" "n1 = n + succeeded new"
        "taken_ok listed taken1 (done @ new)"
        "\<forall>r \<in> set names. \<forall>t. interruptedReplacementPattern (TrimPrefix r ''/'') = Some t \<longrightarrow> t \<in> listed \<or> asked t (done @ new)"
        using Cons.IH [of taken "done" n] by auto
      moreover have "t \<in> listed \<or> asked t (done @ new)" using True Cons.prems(1) by (auto simp: taken_ok_def)
      ultimately show ?thesis using Some by (intro exI [of _ new]) auto
    next
      case False
      define ok where "ok \<longleftrightarrow> dk_rename env (log @ done) Caller i t = None"
      define e where "e = (Rename Caller i t, ok)"
      define taken' where "taken' = (if ok then t # removeAll ?name taken else taken)"
      have r: "recovers named listed [e]"
        using Cons.prems(1,2) Some False by (auto simp: recovers_def e_def taken_ok_def)
      have a: "asked t [e]" "succeeded [e] = (if ok then 1 else 0)" by (auto simp: asked_def e_def)
      have tk: "taken_ok listed taken' (done @ [e])" using Cons.prems(1) Some a unfolding taken'_def taken_ok_def by auto
      have "recoverNames env (log @ (done @ [e])) taken' (n + (if ok then 1 else 0)) i names = (taken1, n1, log1)"
        using Cons.prems(3) Some False
        by (cases "dk_rename env (log @ done) Caller i t") (simp_all add: callRename_def Let_def ok_def e_def taken'_def)
      then obtain new where new: "log1 = log @ (done @ [e]) @ new" "recovers named listed new"
        "n1 = n + (if ok then 1 else 0) + succeeded new" "taken_ok listed taken1 ((done @ [e]) @ new)"
        "\<forall>r \<in> set names. \<forall>t. interruptedReplacementPattern (TrimPrefix r ''/'') = Some t \<longrightarrow> t \<in> listed \<or> asked t ((done @ [e]) @ new)"
        using Cons.IH [OF tk, of "n + (if ok then 1 else 0)"] Cons.prems(2) by force
      show ?thesis using new r a Some by (intro exI [of _ "[e] @ new"]) (auto simp del: append.simps)
    qed
  qed
qed (auto intro: exI [of _ "[]"])

lemma recoverItems_ok:
  assumes "taken_ok listed taken done" "\<forall>c \<in> set items. \<forall>r \<in> set (cs_Names c). (cs_ID c, TrimPrefix r ''/'') \<in> named"
    "recoverItems env (log @ done) taken n items = (n1, log1)"
  shows "\<exists>new. log1 = log @ done @ new \<and> recovers named listed new \<and> n1 = n + succeeded new \<and>
    (\<forall>c \<in> set items. \<forall>r \<in> set (cs_Names c). \<forall>t. interruptedReplacementPattern (TrimPrefix r ''/'') = Some t \<longrightarrow>
       t \<in> listed \<or> asked t (done @ new))"
  using assms
proof (induction items arbitrary: "done" taken n)
  case (Cons c items)
  obtain taken2 n2 log2 where r: "recoverNames env (log @ done) taken n (cs_ID c) (cs_Names c) = (taken2, n2, log2)"
    using prod_cases3 by blast
  obtain new where new: "log2 = log @ done @ new" "recovers named listed new" "n2 = n + succeeded new" "taken_ok listed taken2 (done @ new)"
    "\<forall>r \<in> set (cs_Names c). \<forall>t. interruptedReplacementPattern (TrimPrefix r ''/'') = Some t \<longrightarrow> t \<in> listed \<or> asked t (done @ new)"
    using recoverNames_ok [OF Cons.prems(1) _ r, of named] Cons.prems(2) by auto
  obtain new2 where new2: "log1 = log @ (done @ new) @ new2" "recovers named listed new2" "n1 = n2 + succeeded new2"
    "\<forall>c \<in> set items. \<forall>r \<in> set (cs_Names c). \<forall>t. interruptedReplacementPattern (TrimPrefix r ''/'') = Some t \<longrightarrow>
       t \<in> listed \<or> asked t ((done @ new) @ new2)"
    using Cons.IH [OF new(4), of n2] Cons.prems(2,3) r new(1) by auto
  show ?case using new new2 by (intro exI [of _ "new @ new2"]) auto
qed (auto intro: exI [of _ "[]"])

lemma interruptedReplacementPattern_temporary:
  assumes "name \<noteq> []" "newline \<notin> set name" "length sfx = 8" "list_all is_hex sfx"
  shows "interruptedReplacementPattern (temporaryReplacementName sfx name) = Some name"
  using assms by (simp add: interruptedReplacementPattern_def temporaryReplacementName_def Let_def)

definition listedNames :: "containerSummary list \<Rightarrow> string set" where
  "listedNames items = {TrimPrefix r ''/'' |r c. c \<in> set items \<and> r \<in> set (cs_Names c)}"

text \<open>
  C35: Recovery after an interruption finishes what was interrupted and nothing else.  Beside
  the listing, the pass only renames, and only a container whose listed name is a replacement's
  temporary name, to the name in front of the mark; a listed name outside this pattern is never
  taken over.  For every container listed under the temporary name that the engine gave it for
  the name \<open>name\<close>, either \<open>name\<close> was in use or some container was asked to take it, and the
  returned number counts the renames that succeeded.
\<close>

theorem RecoverInterruptedReplacements_finishes:
  assumes "dk_list env log [] = Inr items" "RecoverInterruptedReplacements env log = (Inr n, log')"
  shows "\<exists>new. log' = log @ (ListContainers [], True) # new \<and> n = succeeded new \<and>
    (\<forall>(c, ok) \<in> set new. \<exists>i r item t. c = Rename Caller i t \<and> item \<in> set items \<and> i = cs_ID item \<and> r \<in> set (cs_Names item) \<and>
       interruptedReplacementPattern (TrimPrefix r ''/'') = Some t \<and>
       (t \<in> listedNames items \<longrightarrow> interruptedReplacementPattern t \<noteq> None)) \<and>
    (\<forall>item sfx name. item \<in> set items \<and> ''/'' @ temporaryReplacementName sfx name \<in> set (cs_Names item) \<and>
       name \<noteq> [] \<and> newline \<notin> set name \<and> length sfx = 8 \<and> list_all is_hex sfx \<longrightarrow>
       name \<in> listedNames items \<or> asked name new)"
proof -
  define taken where "taken = concat (map (\<lambda>item. map (\<lambda>n. TrimPrefix n ''/'') (cs_Names item)) items)"
  have taken: "set taken = listedNames items" by (auto simp: taken_def listedNames_def)
  let ?log = "log @ [(ListContainers [], True)]"
  define named where "named = {(cs_ID c, TrimPrefix r ''/'') |c r. c \<in> set items \<and> r \<in> set (cs_Names c)}"
  have run: "recoverItems env (?log @ []) taken 0 items = (n, log')"
    using assms(2) unfolding RecoverInterruptedReplacements_def callList_def assms(1) taken_def Let_def
    by (simp split: prod.splits)
  have "taken_ok (listedNames items) taken []" by (simp add: taken_ok_def taken)
  moreover have "\<forall>c \<in> set items. \<forall>r \<in> set (cs_Names c). (cs_ID c, TrimPrefix r ''/'') \<in> named" unfolding named_def by blast
  ultimately obtain new where new: "log' = ?log @ [] @ new" "recovers named (listedNames items) new" "n = 0 + succeeded new"
    "\<forall>c \<in> set items. \<forall>r \<in> set (cs_Names c). \<forall>t. interruptedReplacementPattern (TrimPrefix r ''/'') = Some t \<longrightarrow>
       t \<in> listedNames items \<or> asked t ([] @ new)"
    using recoverItems_ok [OF _ _ run] by blast
  have target: "interruptedReplacementPattern (TrimPrefix (''/'' @ temporaryReplacementName sfx name) ''/'') = Some name"
    if "name \<noteq> []" "newline \<notin> set name" "length sfx = 8" "list_all is_hex sfx" for sfx name
    unfolding TrimPrefix_append by (rule interruptedReplacementPattern_temporary [OF that])
  show ?thesis
  proof (intro exI [of _ new] conjI)
    show "\<forall>(c, ok) \<in> set new. \<exists>i r item t. c = Rename Caller i t \<and> item \<in> set items \<and> i = cs_ID item \<and> r \<in> set (cs_Names item) \<and>
       interruptedReplacementPattern (TrimPrefix r ''/'') = Some t \<and>
       (t \<in> listedNames items \<longrightarrow> interruptedReplacementPattern t \<noteq> None)"
    proof (clarify)
      fix c ok assume "(c, ok) \<in> set new"
      from new(2) this obtain i name t where c: "c = Rename Caller i t" "(i, name) \<in> named" "interruptedReplacementPattern name = Some t"
        "t \<in> listedNames items \<longrightarrow> interruptedReplacementPattern t \<noteq> None"
        by (rule recoversE)
      then obtain item r where "i = cs_ID item" "name = TrimPrefix r ''/''" "item \<in> set items" "r \<in> set (cs_Names item)"
        unfolding named_def by blast
      with c show "\<exists>i r item t. c = Rename Caller i t \<and> item \<in> set items \<and> i = cs_ID item \<and> r \<in> set (cs_Names item) \<and>
         interruptedReplacementPattern (TrimPrefix r ''/'') = Some t \<and>
         (t \<in> listedNames items \<longrightarrow> interruptedReplacementPattern t \<noteq> None)" by blast
    qed
    show "\<forall>item sfx name. item \<in> set items \<and> ''/'' @ temporaryReplacementName sfx name \<in> set (cs_Names item) \<and>
       name \<noteq> [] \<and> newline \<notin> set name \<and> length sfx = 8 \<and> list_all is_hex sfx \<longrightarrow> name \<in> listedNames items \<or> asked name new"
      using new(4) target unfolding append_Nil by blast
  next
    show "log' = log @ (ListContainers [], True) # new" using new(1) by simp
    show "n = succeeded new" using new(3) by simp
  qed
qed

definition interruptedContainer :: containerSummary where
  "interruptedContainer = (sampleContainer ''new'' [])\<lparr>cs_Names := [''/web.dockman-update-0a1b2c3d'']\<rparr>"

theorem RecoverInterruptedReplacements_finishes_witness:
  "\<exists>new. snd (RecoverInterruptedReplacements (crashingEnv\<lparr>dk_list := \<lambda>_ _. Inr [interruptedContainer]\<rparr>) []) =
       (ListContainers [], True) # new \<and> succeeded new = 1 \<and> asked ''web'' new"
proof -
  define env where "env = crashingEnv\<lparr>dk_list := \<lambda>_ _. Inr [interruptedContainer]\<rparr>"
  have l: "dk_list env [] [] = Inr [interruptedContainer]" by (simp add: env_def)
  have run: "RecoverInterruptedReplacements env [] =
      (Inr 1, [(ListContainers [], True), (Rename Caller ''new'' ''web'', True)])"
    unfolding env_def by code_simp
  have "''/'' @ temporaryReplacementName ''0a1b2c3d'' ''web'' \<in> set (cs_Names interruptedContainer)"
    "newline \<notin> set ''web''" "length ''0a1b2c3d'' = 8" "list_all is_hex ''0a1b2c3d''" by code_simp+
  moreover have "''web'' \<notin> listedNames [interruptedContainer]"
    by (simp add: listedNames_def interruptedContainer_def TrimPrefix_def)
  moreover obtain new where new: "[(ListContainers [], True), (Rename Caller ''new'' ''web'', True)] = [] @ (ListContainers [], True) # new"
    "1 = succeeded new" "\<forall>item sfx name. item \<in> set [interruptedContainer] \<and> ''/'' @ temporaryReplacementName sfx name \<in> set (cs_Names item) \<and>
       name \<noteq> [] \<and> newline \<notin> set name \<and> length sfx = 8 \<and> list_all is_hex sfx \<longrightarrow>
       name \<in> listedNames [interruptedContainer] \<or> asked name new"
    using RecoverInterruptedReplacements_finishes [OF l run] by blast
  moreover have "interruptedContainer \<in> set [interruptedContainer]" "''web'' \<noteq> []" by simp_all
  ultimately have "asked ''web'' new" by blast
  then show ?thesis using run new(1,2) unfolding env_def [symmetric] by simp
qed

end
