(* ===== verification/Sql_Tables.thy ===== *)
theory Sql_Tables
  imports Go_Prelude
begin

section \<open>Tables\<close>

text \<open>
  The statements the stores issue through gorm, on tables as lists of rows in insertion order:
  \<open>Create\<close> with an \<open>OnConflict\<close> clause or \<open>FirstOrCreate\<close> on a unique index (\<open>upsert\<close>),
  conditional updates and deletes, and the deletion of all but the newest rows.  The locale
  \<open>unique_index\<close> states what a unique index promises to its clients.
\<close>

definition upsert :: "('r \<Rightarrow> 'k) \<Rightarrow> ('r \<Rightarrow> 'r \<Rightarrow> 'r) \<Rightarrow> 'r \<Rightarrow> 'r list \<Rightarrow> 'r list" where
  "upsert key merge row tbl =
     (if key row \<in> set (map key tbl) then map (\<lambda>r. if key r = key row then merge r row else r) tbl else tbl @ [row])"

definition first_row :: "('r \<Rightarrow> 'k) \<Rightarrow> 'k \<Rightarrow> 'r list \<Rightarrow> 'r option" where
  "first_row key k tbl = find (\<lambda>r. key r = k) tbl"

definition update_where :: "('r \<Rightarrow> bool) \<Rightarrow> ('r \<Rightarrow> 'r) \<Rightarrow> 'r list \<Rightarrow> 'r list" where
  "update_where P f tbl = map (\<lambda>r. if P r then f r else r) tbl"

definition delete_where :: "('r \<Rightarrow> bool) \<Rightarrow> 'r list \<Rightarrow> 'r list" where
  "delete_where P tbl = filter (\<lambda>r. \<not> P r) tbl"

text \<open>\<open>ORDER BY created_at DESC\<close>; rows of the same moment stay in table order.\<close>

definition newest_first :: "('r \<Rightarrow> gotime) \<Rightarrow> 'r list \<Rightarrow> 'r list" where
  "newest_first created tbl = sort_key (\<lambda>r. - created r) tbl"

text \<open>Gorm leaves a column alone when \<open>Assign\<close> or \<open>Updates\<close> gets a struct whose field is empty.\<close>

definition nonzero :: "string \<Rightarrow> string \<Rightarrow> string" where
  "nonzero old new = (if new = [] then old else new)"

lemma map_update_where [simp]: "(\<And>r. P r \<Longrightarrow> key (f r) = key r) \<Longrightarrow> map key (update_where P f tbl) = map key tbl"
  by (simp add: update_where_def)

lemma length_update_where [simp]: "length (update_where P f tbl) = length tbl"
  by (simp add: update_where_def)

lemma set_delete_where [simp]: "set (delete_where P tbl) = {r \<in> set tbl. \<not> P r}"
  by (simp add: delete_where_def)

lemma distinct_delete_where [intro]: "distinct (map key tbl) \<Longrightarrow> distinct (map key (delete_where P tbl))"
  by (simp add: delete_where_def distinct_map_filter)

lemma length_filter_delete_where: "length (filter Q (delete_where P tbl)) \<le> length (filter Q tbl)"
  by (induction tbl) (auto simp: delete_where_def le_SucI)

lemma set_newest_first [simp]: "set (newest_first created tbl) = set tbl"
  by (simp add: newest_first_def)

lemma length_newest_first [simp]: "length (newest_first created tbl) = length tbl"
  by (simp add: newest_first_def)

lemma distinct_newest_first: "distinct (map key tbl) \<Longrightarrow> distinct (map key (newest_first created tbl))"
  by (simp add: newest_first_def distinct_map)

lemma first_row_Some: "first_row key k tbl = Some r \<Longrightarrow> r \<in> set tbl \<and> key r = k"
  by (auto simp: first_row_def find_Some_iff)

lemma first_row_None: "first_row key k tbl = None \<longleftrightarrow> k \<notin> set (map key tbl)"
  by (auto simp: first_row_def find_None_iff)

lemma first_row_unique:
  assumes "distinct (map key tbl)"
  shows "first_row key k tbl = Some r \<longleftrightarrow> r \<in> set tbl \<and> key r = k"
proof
  assume "r \<in> set tbl \<and> key r = k"
  moreover from this obtain r' where "first_row key k tbl = Some r'"
    using first_row_None [of key k tbl] by (cases "first_row key k tbl") auto
  ultimately show "first_row key k tbl = Some r"
    using first_row_Some [of key k tbl r'] assms inj_onD [of key "set tbl" r r'] by (simp add: distinct_map)
qed (rule first_row_Some)

locale unique_index =
  fixes key :: "'r \<Rightarrow> 'k" and merge :: "'r \<Rightarrow> 'r \<Rightarrow> 'r"
  assumes merge_key: "key r = key row \<Longrightarrow> key (merge r row) = key row"
begin

lemma upsert_keys: "set (map key (upsert key merge row tbl)) = insert (key row) (set (map key tbl))"
proof (cases "key row \<in> set (map key tbl)")
  case True
  then have "map key (upsert key merge row tbl) = map key tbl" using merge_key by (simp add: upsert_def)
  with True show ?thesis by auto
qed (auto simp: upsert_def)

lemma upsert_distinct: "distinct (map key tbl) \<Longrightarrow> distinct (map key (upsert key merge row tbl))"
proof (cases "key row \<in> set (map key tbl)")
  case True
  assume "distinct (map key tbl)"
  moreover have "map key (upsert key merge row tbl) = map key tbl" using True merge_key by (simp add: upsert_def)
  ultimately show ?thesis by simp
qed (auto simp: upsert_def)

lemma upsert_same:
  assumes "distinct (map key tbl)"
  shows "first_row key (key row) (upsert key merge row tbl) =
    Some (case first_row key (key row) tbl of None \<Rightarrow> row | Some old \<Rightarrow> merge old row)"
proof (cases "first_row key (key row) tbl")
  case None
  then have "key row \<notin> set (map key tbl)" by (simp add: first_row_None)
  then show ?thesis using None upsert_distinct [OF assms] by (simp add: first_row_unique) (simp add: upsert_def)
next
  case (Some old)
  then have "old \<in> set tbl" "key old = key row" using first_row_Some by fast+
  then have "merge old row \<in> set (upsert key merge row tbl)" by (auto simp: upsert_def intro!: image_eqI [of _ _ old])
  then show ?thesis using Some upsert_distinct [OF assms] merge_key \<open>key old = key row\<close>
    by (simp add: first_row_unique)
qed

lemma upsert_other: "k \<noteq> key row \<Longrightarrow> first_row key k (upsert key merge row tbl) = first_row key k tbl"
proof -
  assume k: "k \<noteq> key row"
  have m: "find (\<lambda>r. key r = k) (map (\<lambda>r. if key r = key row then merge r row else r) tbl) = find (\<lambda>r. key r = k) tbl" for tbl
    using k merge_key by (induction tbl) auto
  have "find (\<lambda>r. key r = k) (tbl @ [row]) = find (\<lambda>r. key r = k) tbl" using k by (induction tbl) auto
  with m show ?thesis by (simp add: first_row_def upsert_def)
qed

end

subsection \<open>Keeping the newest rows\<close>

text \<open>\<open>Order("created_at DESC").Offset(n).Find(&stale)\<close> and the deletion of these rows by id.\<close>

definition stale_ids :: "('r \<Rightarrow> gotime) \<Rightarrow> ('r \<Rightarrow> nat) \<Rightarrow> nat \<Rightarrow> 'r list \<Rightarrow> nat list" where
  "stale_ids created rid n rows = map rid (drop n (newest_first created rows))"

lemma prune_bound:
  assumes "distinct (map rid tbl)"
  shows "length (filter P (delete_where (\<lambda>r. rid r \<in> set (stale_ids created rid n (filter P tbl))) tbl)) \<le> n"
proof -
  define srt where "srt = newest_first created (filter P tbl)"
  have d: "distinct (map rid srt)" unfolding srt_def
    by (rule distinct_newest_first) (simp add: assms distinct_map_filter)
  have st: "set srt = {r \<in> set tbl. P r}" by (simp add: srt_def)
  let ?left = "filter P (delete_where (\<lambda>r. rid r \<in> set (stale_ids created rid n (filter P tbl))) tbl)"
  have "set ?left \<subseteq> set (take n srt)"
  proof
    fix r assume r: "r \<in> set ?left"
    then have "r \<in> set srt" "rid r \<notin> rid ` set (drop n srt)" using st by (auto simp: stale_ids_def srt_def [symmetric])
    then have "r \<in> set (take n srt) \<union> set (drop n srt)" "r \<notin> set (drop n srt)" by (metis append_take_drop_id set_append, blast)
    then show "r \<in> set (take n srt)" by blast
  qed
  moreover have "distinct ?left" using assms by (auto simp: delete_where_def distinct_map)
  ultimately have "length ?left \<le> card (set (take n srt))" by (metis List.finite_set card_mono distinct_card)
  also have "\<dots> \<le> n" using card_length [of "take n srt"] by simp
  finally show ?thesis .
qed

lemma prune_others:
  assumes "distinct (map rid tbl)" "\<not> P r"
  shows "r \<in> set (delete_where (\<lambda>r. rid r \<in> set (stale_ids created rid n (filter P tbl))) tbl) \<longleftrightarrow> r \<in> set tbl"
proof -
  have "x = r" if "x \<in> set tbl" "r \<in> set tbl" "rid x = rid r" for x
    using that assms(1) by (simp add: distinct_map inj_on_def)
  moreover have "x \<in> set tbl \<and> P x" if "x \<in> set (drop n (newest_first created (filter P tbl)))" for x
    using in_set_dropD [OF that] by simp
  ultimately have "rid r \<notin> set (stale_ids created rid n (filter P tbl))" if "r \<in> set tbl"
    using that assms(2) unfolding stale_ids_def set_map by (metis imageE)
  then show ?thesis by auto
qed

lemma prune_nothing: "length (filter P tbl) \<le> n \<Longrightarrow> stale_ids created rid n (filter P tbl) = []"
  by (simp add: stale_ids_def)

lemma prune_newest:
  assumes "distinct (map rid tbl)" "r \<in> set tbl" "P r" "n > 0"
    "\<And>r'. r' \<in> set tbl \<Longrightarrow> P r' \<Longrightarrow> r' \<noteq> r \<Longrightarrow> created r' < created r"
  shows "r \<in> set (delete_where (\<lambda>r. rid r \<in> set (stale_ids created rid n (filter P tbl))) tbl)"
proof -
  define srt where "srt = newest_first created (filter P tbl)"
  have d: "distinct srt" unfolding srt_def newest_first_def using assms(1) by (simp add: distinct_map)
  have st: "set srt = {r \<in> set tbl. P r}" by (simp add: srt_def)
  have sorted: "sorted (map (\<lambda>r. - created r) srt)" by (simp add: srt_def newest_first_def)
  then obtain a b where srt: "srt = a @ r # b" using st assms(2,3) by (metis (mono_tags, lifting) mem_Collect_eq split_list)
  have "a = []"
  proof (rule ccontr)
    assume "a \<noteq> []"
    then obtain x where x: "x \<in> set a" by (cases a) auto
    then have "created r \<le> created x" using sorted srt by (auto simp: sorted_append)
    moreover have "x \<in> set tbl" "P x" "x \<noteq> r" using x srt st d by auto
    ultimately show False using assms(5) by fastforce
  qed
  then have "r \<notin> set (drop n srt)" using srt d \<open>n > 0\<close> by (cases n) (auto dest: in_set_dropD)
  moreover have "set (drop n srt) \<subseteq> set tbl" using st by (auto dest: in_set_dropD)
  ultimately have "rid r \<notin> rid ` set (drop n srt)" using assms(1,2) by (auto simp: distinct_map inj_on_def)
  then show ?thesis using assms(2) by (simp add: stale_ids_def srt_def)
qed

end
