(* ===== verification/Scan_Store.thy ===== *)
theory Scan_Store
  imports Sql_Tables Update_Policy Image_Scan
begin

section \<open>The store of scans and automatic updates\<close>

text \<open>
  Models \<open>ScanStore\<close>: the part of \<open>core/internal/docker/updater/automation.go\<close> that keeps scan
  runs, scan results and the control row of a host, and \<open>core/internal/docker/updater/execution.go\<close>
  with the execution runs, their results and the circuit breaker.

  \<^verbatim>\<open>fault\<close> stands for the database: \<open>None\<close> when every statement of the operation succeeds,
  \<open>Some e\<close> when one of them reports \<open>e\<close>; a transaction then changes nothing.  \<^verbatim>\<open>now\<close> is the
  clock.  The columns that no statement reads (row ids and timestamps of the result and block
  tables) are left out.
\<close>

subsection \<open>Rows\<close>

definition maxUpdateScanRuns :: nat where "maxUpdateScanRuns = 50"
definition maxExecutionRuns :: nat where "maxExecutionRuns = 50"
definition maxExecutionLogs :: int where "maxExecutionLogs = 32768"

definition ExecutionUpdated :: string where "ExecutionUpdated = ''updated''"
definition ExecutionCurrent :: string where "ExecutionCurrent = ''current''"
definition ExecutionRolledBack :: string where "ExecutionRolledBack = ''rolled_back''"
definition ExecutionFailed :: string where "ExecutionFailed = ''failed''"
definition ExecutionSkipped :: string where "ExecutionSkipped = ''skipped''"

record UpdateAutomationControl =
  ac_Host :: string
  ac_Paused :: bool
  ac_MaxGroupsPerRun :: int
  ac_UpdatedAt :: gotime

record UpdateScanResult =
  sr_Host :: string
  sr_ContainerID :: string
  sr_ContainerName :: string
  sr_Image :: string
  sr_Status :: ContainerUpdateStatus
  sr_CurrentDigest :: string
  sr_RemoteDigest :: string
  sr_Reason :: string
  sr_CurrentTag :: string
  sr_LatestTag :: string
  sr_VersionPolicy :: string
  sr_VersionAvailable :: bool
  sr_VersionReason :: string
  sr_CheckedAt :: gotime

record UpdateScanRun =
  su_ID :: nat
  su_CreatedAt :: gotime
  su_StartedAt :: gotime
  su_CompletedAt :: "gotime option"
  su_Host :: string
  su_Trigger :: string
  su_Schedule :: string
  su_Targets :: nat
  su_Available :: nat
  su_Current :: nat
  su_Skipped :: nat
  su_Errors :: nat
  su_Versions :: nat
  su_Error :: string

record UpdateExecutionTarget =
  tg_ContainerID :: string
  tg_ContainerName :: string
  tg_Image :: string
  tg_State :: string
  tg_RemoteDigest :: string
  tg_RollbackEnabled :: bool
  tg_TargetType :: string
  tg_StackName :: string
  tg_StackKey :: string
  tg_ServiceName :: string
  tg_DependsOn :: string
  tg_CleanupEnabled :: bool
  tg_CleanupKeep :: int

text \<open>The outcome embeds the target, as in the source.\<close>

record UpdateExecutionOutcome = UpdateExecutionTarget +
  oc_State :: string
  oc_Message :: string
  oc_Logs :: string
  oc_PreviousImage :: string

record UpdateExecutionRun =
  ex_ID :: nat
  ex_CreatedAt :: gotime
  ex_StartedAt :: gotime
  ex_CompletedAt :: "gotime option"
  ex_Host :: string
  ex_Schedule :: string
  ex_ScanRunID :: nat
  ex_Targets :: nat
  ex_Updated :: nat
  ex_Current :: nat
  ex_RolledBack :: nat
  ex_Failed :: nat
  ex_Skipped :: nat
  ex_Error :: string

record UpdateExecutionResult =
  er_CreatedAt :: gotime
  er_RunID :: nat
  er_Host :: string
  er_ContainerID :: string
  er_ContainerName :: string
  er_Image :: string
  er_RemoteDigest :: string
  er_RollbackEnabled :: bool
  er_TargetType :: string
  er_StackName :: string
  er_StackKey :: string
  er_State :: string
  er_Message :: string
  er_Logs :: string

record UpdateExecutionBlock =
  bl_Host :: string
  bl_ContainerID :: string
  bl_ContainerName :: string
  bl_Image :: string
  bl_RemoteDigest :: string
  bl_TargetType :: string
  bl_StackName :: string
  bl_StackKey :: string
  bl_Reason :: string

record scanDB =
  db_scanRuns :: "UpdateScanRun list"
  db_scanResults :: "UpdateScanResult list"
  db_execRuns :: "UpdateExecutionRun list"
  db_execResults :: "UpdateExecutionResult list"
  db_blocks :: "UpdateExecutionBlock list"
  db_controls :: "UpdateAutomationControl list"
  db_scanRunSeq :: nat
  db_execRunSeq :: nat

text \<open>The unique indexes, and what the conflict clauses write.\<close>

definition resultKey :: "UpdateScanResult \<Rightarrow> string \<times> string" where
  "resultKey r = (sr_Host r, sr_ContainerID r)"

definition resultMerge :: "UpdateScanResult \<Rightarrow> UpdateScanResult \<Rightarrow> UpdateScanResult" where
  "resultMerge old new = new\<lparr>sr_Host := sr_Host old, sr_ContainerID := sr_ContainerID old\<rparr>"

definition blockKey :: "UpdateExecutionBlock \<Rightarrow> string \<times> string" where
  "blockKey b = (bl_Host b, bl_ContainerID b)"

definition blockMerge :: "UpdateExecutionBlock \<Rightarrow> UpdateExecutionBlock \<Rightarrow> UpdateExecutionBlock" where
  "blockMerge old new =
     old\<lparr>bl_ContainerName := nonzero (bl_ContainerName old) (bl_ContainerName new), bl_Image := nonzero (bl_Image old) (bl_Image new),
         bl_RemoteDigest := nonzero (bl_RemoteDigest old) (bl_RemoteDigest new), bl_TargetType := nonzero (bl_TargetType old) (bl_TargetType new),
         bl_StackName := nonzero (bl_StackName old) (bl_StackName new), bl_StackKey := nonzero (bl_StackKey old) (bl_StackKey new),
         bl_Reason := nonzero (bl_Reason old) (bl_Reason new)\<rparr>"

definition controlMerge :: "UpdateAutomationControl \<Rightarrow> UpdateAutomationControl \<Rightarrow> UpdateAutomationControl" where
  "controlMerge old new = new\<lparr>ac_Host := ac_Host old\<rparr>"

interpretation result_index: unique_index resultKey resultMerge
  by unfold_locales (simp add: resultKey_def resultMerge_def)

interpretation block_index: unique_index blockKey blockMerge
  by unfold_locales (simp add: blockKey_def blockMerge_def)

interpretation control_index: unique_index ac_Host controlMerge
  by unfold_locales (simp add: controlMerge_def)

subsection \<open>Scans\<close>

definition saveCheck :: "UpdateScanRun \<Rightarrow> gotime \<Rightarrow> ContainerUpdateCheck \<Rightarrow> UpdateScanResult list \<Rightarrow> UpdateScanResult list" where
  "saveCheck run completed c tbl =
     upsert resultKey resultMerge
       \<lparr>sr_Host = su_Host run, sr_ContainerID = chk_ContainerID c, sr_ContainerName = chk_ContainerName c,
        sr_Image = chk_Image c, sr_Status = chk_Status c, sr_CurrentDigest = chk_CurrentDigest c,
        sr_RemoteDigest = chk_RemoteDigest c, sr_Reason = chk_Reason c, sr_CurrentTag = chk_CurrentTag c,
        sr_LatestTag = chk_LatestTag c, sr_VersionPolicy = chk_VersionPolicy c,
        sr_VersionAvailable = chk_VersionAvailable c, sr_VersionReason = chk_VersionReason c, sr_CheckedAt = completed\<rparr> tbl"

definition createScanRun :: "gotime \<Rightarrow> UpdateScanRun \<Rightarrow> scanDB \<Rightarrow> UpdateScanRun \<times> scanDB" where
  "createScanRun now run db =
     (let run' = run\<lparr>su_ID := Suc (db_scanRunSeq db), su_CreatedAt := now\<rparr>
      in (run', db\<lparr>db_scanRuns := db_scanRuns db @ [run'], db_scanRunSeq := Suc (db_scanRunSeq db)\<rparr>))"

definition pruneScanRuns :: "string \<Rightarrow> scanDB \<Rightarrow> scanDB" where
  "pruneScanRuns host db =
     (let stale = stale_ids su_CreatedAt su_ID maxUpdateScanRuns (filter (\<lambda>r. su_Host r = host) (db_scanRuns db))
      in db\<lparr>db_scanRuns := delete_where (\<lambda>r. su_ID r \<in> set stale) (db_scanRuns db)\<rparr>)"

text \<open>
  \<open>ScanStore.Save\<close>.  A check with a run that has no completion time panics in the source
  (\<^verbatim>\<open>*run.CompletedAt\<close>); the caller always sets it.
\<close>

definition scanSave ::
  "string option \<Rightarrow> gotime \<Rightarrow> UpdateScanRun \<Rightarrow> ContainerUpdateCheck list \<Rightarrow> scanDB \<Rightarrow> (string + UpdateScanRun) \<times> scanDB" where
  "scanSave fault now run checks db =
     (case fault of
        Some e \<Rightarrow> (Inl e, db)
      | None \<Rightarrow>
          (let (run1, db1) = createScanRun now run db in
           case (su_CompletedAt run, checks) of
             (None, _ # _) \<Rightarrow> (Inl ''panic: nil pointer dereference'', db)
           | (completed, _) \<Rightarrow>
               (let at = (case completed of Some t \<Rightarrow> t | None \<Rightarrow> 0);
                    db2 = db1\<lparr>db_scanResults := fold (saveCheck run1 at) checks (db_scanResults db1)\<rparr>
                in (Inr run1, pruneScanRuns (su_Host run) db2))))"

definition scanState :: "string \<Rightarrow> scanDB \<Rightarrow> UpdateScanResult list \<times> UpdateScanRun list" where
  "scanState host db =
     (sort_key sr_ContainerName (filter (\<lambda>r. sr_Host r = host) (db_scanResults db)),
      take maxUpdateScanRuns (newest_first su_CreatedAt (filter (\<lambda>r. su_Host r = host) (db_scanRuns db))))"

definition PruneResults :: "string option \<Rightarrow> string \<Rightarrow> string list \<Rightarrow> string list \<Rightarrow> scanDB \<Rightarrow> string option \<times> scanDB" where
  "PruneResults fault host active known db =
     (case fault of
        Some e \<Rightarrow> (Some e, db)
      | None \<Rightarrow>
          (let db1 = db\<lparr>db_scanResults := delete_where (\<lambda>r. sr_Host r = host \<and> (active \<noteq> [] \<longrightarrow> sr_ContainerID r \<notin> set active)) (db_scanResults db)\<rparr>
           in if known = [] then (None, db1)
              else (None, db1\<lparr>db_blocks := delete_where (\<lambda>b. bl_Host b = host \<and> bl_ContainerID b \<notin> set known) (db_blocks db1)\<rparr>)))"

subsection \<open>Controls\<close>

definition noControl :: UpdateAutomationControl where
  "noControl = \<lparr>ac_Host = [], ac_Paused = False, ac_MaxGroupsPerRun = 0, ac_UpdatedAt = 0\<rparr>"

definition controlRow :: "string \<Rightarrow> scanDB \<Rightarrow> UpdateAutomationControl" where
  "controlRow host db = (case first_row ac_Host host (db_controls db) of Some r \<Rightarrow> r | None \<Rightarrow> noControl)"

definition SaveControl ::
  "string option \<Rightarrow> gotime \<Rightarrow> string \<Rightarrow> bool \<Rightarrow> int \<Rightarrow> scanDB \<Rightarrow> string option \<times> scanDB" where
  "SaveControl fault now host paused maxGroups db =
     (if TrimSpace host = [] then (Some ''host is required'', db)
      else if maxGroups < 0 \<or> maxGroups > 1000
      then (Some ''maximum update groups per run must be between 0 and 1000'', db)
      else case fault of
        Some e \<Rightarrow> (Some e, db)
      | None \<Rightarrow>
          (None, db\<lparr>db_controls := upsert ac_Host controlMerge
             \<lparr>ac_Host = host, ac_Paused = paused, ac_MaxGroupsPerRun = maxGroups, ac_UpdatedAt = now\<rparr> (db_controls db)\<rparr>))"

subsection \<open>Executions and the circuit breaker\<close>

definition boundedExecutionText :: "string \<Rightarrow> string" where
  "boundedExecutionText s =
     (let v = TrimSpace s in
      if int (length v) \<le> maxExecutionLogs then v
      else LimitReader v maxExecutionLogs @ [CHR 0x0A] @ ''[output truncated by Dockman]'')"

text \<open>\<open>tx.Create(run)\<close>: the row gets the next id and its creation time.\<close>

definition createExecRun :: "gotime \<Rightarrow> UpdateExecutionRun \<Rightarrow> scanDB \<Rightarrow> UpdateExecutionRun \<times> scanDB" where
  "createExecRun now run db =
     (let run' = run\<lparr>ex_ID := Suc (db_execRunSeq db), ex_CreatedAt := now\<rparr>
      in (run', db\<lparr>db_execRuns := db_execRuns db @ [run'], db_execRunSeq := Suc (db_execRunSeq db)\<rparr>))"

definition BeginExecution :: "string option \<Rightarrow> gotime \<Rightarrow> UpdateExecutionRun \<Rightarrow> scanDB \<Rightarrow> (string + UpdateExecutionRun) \<times> scanDB" where
  "BeginExecution fault now run db =
     (case fault of Some e \<Rightarrow> (Inl e, db) | None \<Rightarrow> map_prod Inr id (createExecRun now run db))"

text \<open>Columns with a gorm default take it when the field is empty on creation.\<close>

definition targetTypeColumn :: "string \<Rightarrow> string" where
  "targetTypeColumn s = (if s = [] then ''container'' else s)"

definition resultRow :: "gotime \<Rightarrow> UpdateExecutionRun \<Rightarrow> UpdateExecutionOutcome \<Rightarrow> UpdateExecutionResult" where
  "resultRow now run o1 =
     \<lparr>er_CreatedAt = now, er_RunID = ex_ID run, er_Host = ex_Host run, er_ContainerID = tg_ContainerID o1,
      er_ContainerName = tg_ContainerName o1, er_Image = tg_Image o1, er_RemoteDigest = tg_RemoteDigest o1,
      er_RollbackEnabled = tg_RollbackEnabled o1, er_TargetType = targetTypeColumn (tg_TargetType o1),
      er_StackName = tg_StackName o1, er_StackKey = tg_StackKey o1, er_State = oc_State o1,
      er_Message = boundedExecutionText (oc_Message o1), er_Logs = boundedExecutionText (oc_Logs o1)\<rparr>"

definition blockRow :: "UpdateExecutionRun \<Rightarrow> UpdateExecutionOutcome \<Rightarrow> UpdateExecutionBlock" where
  "blockRow run o1 =
     \<lparr>bl_Host = ex_Host run, bl_ContainerID = tg_ContainerID o1, bl_ContainerName = tg_ContainerName o1, bl_Image = tg_Image o1,
      bl_RemoteDigest = tg_RemoteDigest o1, bl_TargetType = tg_TargetType o1, bl_StackName = tg_StackName o1,
      bl_StackKey = tg_StackKey o1, bl_Reason = boundedExecutionText (oc_Message o1)\<rparr>"

text \<open>\<open>Assign(block).FirstOrCreate(&block)\<close>: an existing row takes the fields that are not empty.\<close>

definition saveBlock :: "UpdateExecutionBlock \<Rightarrow> UpdateExecutionBlock list \<Rightarrow> UpdateExecutionBlock list" where
  "saveBlock b tbl =
     (if blockKey b \<in> set (map blockKey tbl) then upsert blockKey blockMerge b tbl
      else tbl @ [b\<lparr>bl_TargetType := targetTypeColumn (bl_TargetType b)\<rparr>])"

definition deleteBlocks :: "string \<Rightarrow> string \<Rightarrow> UpdateExecutionBlock list \<Rightarrow> UpdateExecutionBlock list" where
  "deleteBlocks host cid tbl = delete_where (\<lambda>b. bl_Host b = host \<and> bl_ContainerID b = cid) tbl"

definition recordOutcome :: "gotime \<Rightarrow> UpdateExecutionRun \<Rightarrow> UpdateExecutionOutcome \<Rightarrow> scanDB \<Rightarrow> scanDB" where
  "recordOutcome now run o1 db0 =
     (let host = ex_Host run; cid = tg_ContainerID o1;
          db = db0\<lparr>db_execResults := db_execResults db0 @ [resultRow now run o1]\<rparr>
      in if oc_State o1 = ExecutionFailed \<or> oc_State o1 = ExecutionRolledBack
         then db\<lparr>db_blocks := saveBlock (blockRow run o1) (db_blocks db)\<rparr>
         else if oc_State o1 = ExecutionUpdated
         then db\<lparr>db_scanResults := delete_where (\<lambda>r. sr_Host r = host \<and> sr_ContainerID r = cid) (db_scanResults db),
                 db_blocks := deleteBlocks host cid (db_blocks db)\<rparr>
         else if oc_State o1 = ExecutionCurrent
         then db\<lparr>db_scanResults := update_where (\<lambda>r. sr_Host r = host \<and> sr_ContainerID r = cid)
                   (\<lambda>r. r\<lparr>sr_Status := ContainerUpdateCurrent, sr_CurrentDigest := tg_RemoteDigest o1,
                          sr_Reason := ''image became current before automatic execution''\<rparr>) (db_scanResults db),
                 db_blocks := deleteBlocks host cid (db_blocks db)\<rparr>
         else db)"

definition pruneExecRuns :: "string \<Rightarrow> scanDB \<Rightarrow> scanDB" where
  "pruneExecRuns host db =
     (let stale = stale_ids ex_CreatedAt ex_ID maxExecutionRuns (filter (\<lambda>r. ex_Host r = host) (db_execRuns db))
      in db\<lparr>db_execResults := delete_where (\<lambda>r. er_RunID r \<in> set stale) (db_execResults db),
            db_execRuns := delete_where (\<lambda>r. ex_ID r \<in> set stale) (db_execRuns db)\<rparr>)"

definition SaveExecution ::
  "string option \<Rightarrow> gotime \<Rightarrow> UpdateExecutionRun \<Rightarrow> UpdateExecutionOutcome list \<Rightarrow> scanDB \<Rightarrow> (string + UpdateExecutionRun) \<times> scanDB" where
  "SaveExecution fault now run outcomes db =
     (case fault of
        Some e \<Rightarrow> (Inl e, db)
      | None \<Rightarrow>
          (let (run1, db1) = (if ex_ID run = 0 then createExecRun now run db
                              else (run, db\<lparr>db_execRuns := upsert ex_ID (\<lambda>_ new. new) run (db_execRuns db),
                                            db_execRunSeq := max (db_execRunSeq db) (ex_ID run)\<rparr>));
               db2 = fold (recordOutcome now run1) outcomes db1
           in (Inr run1, pruneExecRuns (ex_Host run) db2)))"

definition pauseHost :: "gotime \<Rightarrow> string \<Rightarrow> UpdateAutomationControl list \<Rightarrow> UpdateAutomationControl list" where
  "pauseHost now host tbl =
     (if host \<in> set (map ac_Host tbl)
      then update_where (\<lambda>r. ac_Host r = host) (\<lambda>r. r\<lparr>ac_Paused := True, ac_UpdatedAt := now\<rparr>) tbl
      else tbl @ [\<lparr>ac_Host = host, ac_Paused = True, ac_MaxGroupsPerRun = 0, ac_UpdatedAt = now\<rparr>])"

definition interruptedMessage :: string where
  "interruptedMessage = ''Dockman restarted before the automatic update outcome was recorded; automatic execution was paused for review''"

definition RecoverInterruptedExecutions :: "string option \<Rightarrow> gotime \<Rightarrow> scanDB \<Rightarrow> (string + nat) \<times> scanDB" where
  "RecoverInterruptedExecutions fault now db =
     (case fault of
        Some e \<Rightarrow> (Inl e, db)
      | None \<Rightarrow>
          (let interrupted = filter (\<lambda>r. ex_CompletedAt r = None) (db_execRuns db);
               ids = map ex_ID interrupted;
               hosts = remdups (map ex_Host interrupted)
           in if interrupted = [] then (Inr 0, db)
              else (Inr (length (filter (\<lambda>r. ex_ID r \<in> set ids) (db_execRuns db))),
                    db\<lparr>db_execRuns := update_where (\<lambda>r. ex_ID r \<in> set ids)
                         (\<lambda>r. r\<lparr>ex_CompletedAt := Some now, ex_Error := interruptedMessage\<rparr>) (db_execRuns db),
                       db_controls := fold (pauseHost now) hosts (db_controls db)\<rparr>)))"

definition ExecutionState ::
  "string \<Rightarrow> scanDB \<Rightarrow> UpdateExecutionRun list \<times> UpdateExecutionResult list \<times> UpdateExecutionBlock list" where
  "ExecutionState host db =
     (take maxExecutionRuns (newest_first ex_CreatedAt (filter (\<lambda>r. ex_Host r = host) (db_execRuns db))),
      take 250 (newest_first er_CreatedAt (filter (\<lambda>r. er_Host r = host) (db_execResults db))),
      sort_key bl_ContainerName (filter (\<lambda>b. bl_Host b = host) (db_blocks db)))"

text \<open>The answer: whether the row found blocks this digest; the row itself is only shown.\<close>

definition ExecutionBlock :: "string option \<Rightarrow> string \<Rightarrow> string \<Rightarrow> string \<Rightarrow> scanDB \<Rightarrow> string + bool" where
  "ExecutionBlock fault host cid digest db =
     (case fault of
        Some e \<Rightarrow> Inl e
      | None \<Rightarrow> (case first_row blockKey (host, cid) (db_blocks db) of
                   None \<Rightarrow> Inr False
                 | Some b \<Rightarrow> Inr (bl_RemoteDigest b = digest)))"

definition ClearExecutionBlock :: "string option \<Rightarrow> string \<Rightarrow> string \<Rightarrow> scanDB \<Rightarrow> string option \<times> scanDB" where
  "ClearExecutionBlock fault host cid db =
     (if TrimSpace host = [] \<or> TrimSpace cid = [] then (Some ''host and container id are required'', db)
      else case fault of
        Some e \<Rightarrow> (Some e, db)
      | None \<Rightarrow>
          (case first_row blockKey (host, cid) (db_blocks db) of
             None \<Rightarrow> (None, db)
           | Some b \<Rightarrow>
               if bl_TargetType b = UpdateTargetStack \<and> bl_StackKey b \<noteq> []
               then (None, db\<lparr>db_blocks := delete_where (\<lambda>r. bl_Host r = host \<and> bl_StackKey r = bl_StackKey b) (db_blocks db)\<rparr>)
               else (None, db\<lparr>db_blocks := deleteBlocks host cid (db_blocks db)\<rparr>)))"

subsection \<open>Well-formed stores\<close>

interpretation exec_index: unique_index ex_ID "\<lambda>_ new. new"
  by unfold_locales simp

definition store_ok :: "scanDB \<Rightarrow> bool" where
  "store_ok db \<longleftrightarrow>
     distinct (map su_ID (db_scanRuns db)) \<and> (\<forall>r \<in> set (db_scanRuns db). su_ID r \<le> db_scanRunSeq db) \<and>
     distinct (map ex_ID (db_execRuns db)) \<and> (\<forall>r \<in> set (db_execRuns db). ex_ID r \<le> db_execRunSeq db) \<and>
     distinct (map resultKey (db_scanResults db)) \<and> distinct (map blockKey (db_blocks db)) \<and>
     distinct (map ac_Host (db_controls db)) \<and>
     (\<forall>host. length (filter (\<lambda>r. su_Host r = host) (db_scanRuns db)) \<le> maxUpdateScanRuns)"

definition emptyDB :: scanDB where
  "emptyDB = \<lparr>db_scanRuns = [], db_scanResults = [], db_execRuns = [], db_execResults = [], db_blocks = [], db_controls = [],
     db_scanRunSeq = 0, db_execRunSeq = 0\<rparr>"

lemma store_ok_empty [simp]: "store_ok emptyDB"
  by (simp add: store_ok_def emptyDB_def)

lemma fold_keeps: "(\<And>x s. x \<in> set xs \<Longrightarrow> I s \<Longrightarrow> I (f x s)) \<Longrightarrow> I s \<Longrightarrow> I (fold f xs s)"
  by (induction xs arbitrary: s) auto

lemma saveCheck_distinct: "distinct (map resultKey tbl) \<Longrightarrow> distinct (map resultKey (saveCheck run t c tbl))"
  unfolding saveCheck_def by (rule result_index.upsert_distinct)

lemma saveBlock_eq:
  "saveBlock b tbl = upsert blockKey blockMerge
     (if blockKey b \<in> set (map blockKey tbl) then b else b\<lparr>bl_TargetType := targetTypeColumn (bl_TargetType b)\<rparr>) tbl"
  by (simp add: saveBlock_def upsert_def blockKey_def)

lemma saveBlock_distinct: "distinct (map blockKey tbl) \<Longrightarrow> distinct (map blockKey (saveBlock b tbl))"
  unfolding saveBlock_eq by (rule block_index.upsert_distinct)

lemma deleteBlocks_distinct: "distinct (map blockKey tbl) \<Longrightarrow> distinct (map blockKey (deleteBlocks host cid tbl))"
  unfolding deleteBlocks_def by (rule distinct_delete_where)

lemma pauseHost_distinct: "distinct (map ac_Host tbl) \<Longrightarrow> distinct (map ac_Host (pauseHost now host tbl))"
  by (simp add: pauseHost_def)

text \<open>Each operation keeps the store well formed.\<close>

lemma scanSave_ok:
  assumes ok: "store_ok db"
  shows "store_ok (snd (scanSave fault now run checks db))"
proof -
  define run1 where "run1 = run\<lparr>su_ID := Suc (db_scanRunSeq db), su_CreatedAt := now\<rparr>"
  define tbl where "tbl = db_scanRuns db @ [run1]"
  define P :: "UpdateScanRun \<Rightarrow> bool" where "P = (\<lambda>r. su_Host r = su_Host run)"
  define left where "left = delete_where (\<lambda>r. su_ID r \<in> set (stale_ids su_CreatedAt su_ID maxUpdateScanRuns (filter P tbl))) tbl"
  have d: "distinct (map su_ID tbl)" using ok by (auto simp: tbl_def run1_def store_ok_def)
  have ids: "\<forall>r \<in> set tbl. su_ID r \<le> Suc (db_scanRunSeq db)" using ok by (fastforce simp: tbl_def run1_def store_ok_def)
  have d': "distinct (map su_ID left)" unfolding left_def by (rule distinct_delete_where [OF d])
  have cap: "length (filter (\<lambda>r. su_Host r = host) left) \<le> maxUpdateScanRuns" for host
  proof (cases "host = su_Host run")
    case True
    then show ?thesis using prune_bound [OF d, of P su_CreatedAt maxUpdateScanRuns] by (simp add: left_def P_def)
  next
    case False
    then have "length (filter (\<lambda>r. su_Host r = host) left) \<le> length (filter (\<lambda>r. su_Host r = host) tbl)"
      unfolding left_def by (intro length_filter_delete_where)
    also have "\<dots> = length (filter (\<lambda>r. su_Host r = host) (db_scanRuns db))" using False by (simp add: tbl_def run1_def)
    also have "\<dots> \<le> maxUpdateScanRuns" using ok by (simp add: store_ok_def)
    finally show ?thesis .
  qed
  have "distinct (map resultKey (fold (saveCheck run1 t) checks (db_scanResults db)))" for t
    by (rule fold_keeps [where I = "\<lambda>tbl. distinct (map resultKey tbl)"]) (use ok in \<open>auto simp: saveCheck_distinct store_ok_def\<close>)
  then have "store_ok (pruneScanRuns (su_Host run) (db\<lparr>db_scanRuns := tbl, db_scanRunSeq := Suc (db_scanRunSeq db),
      db_scanResults := fold (saveCheck run1 t) checks (db_scanResults db)\<rparr>))" for t
    using ok d' cap ids by (simp add: store_ok_def pruneScanRuns_def left_def P_def)
  then show ?thesis using ok
    by (cases fault; cases "su_CompletedAt run"; cases checks)
      (simp_all add: scanSave_def createScanRun_def run1_def [symmetric] tbl_def Let_def)
qed

lemma PruneResults_ok: "store_ok db \<Longrightarrow> store_ok (snd (PruneResults fault host active known db))"
  by (cases fault) (simp_all add: PruneResults_def Let_def store_ok_def distinct_delete_where)

lemma SaveControl_ok: "store_ok db \<Longrightarrow> store_ok (snd (SaveControl fault now host paused n db))"
  by (cases fault) (simp_all add: SaveControl_def store_ok_def control_index.upsert_distinct)

lemma createExecRun_ok: "store_ok db \<Longrightarrow> store_ok (snd (createExecRun now run db))"
  by (fastforce simp: createExecRun_def Let_def store_ok_def)

lemma BeginExecution_ok: "store_ok db \<Longrightarrow> store_ok (snd (BeginExecution fault now run db))"
  using createExecRun_ok by (cases fault) (simp_all add: BeginExecution_def)

lemma recordOutcome_ok: "store_ok db \<Longrightarrow> store_ok (recordOutcome now run o1 db)"
proof -
  have "map resultKey (update_where P (\<lambda>r. r\<lparr>sr_Status := a, sr_CurrentDigest := b, sr_Reason := c\<rparr>) tbl) = map resultKey tbl"
    for P a b c tbl by (rule map_update_where) (simp add: resultKey_def)
  then show "store_ok db \<Longrightarrow> ?thesis"
    by (simp add: recordOutcome_def Let_def store_ok_def saveBlock_distinct deleteBlocks_distinct distinct_delete_where)
qed

lemma pruneExecRuns_ok: "store_ok db \<Longrightarrow> store_ok (pruneExecRuns host db)"
  by (simp add: pruneExecRuns_def Let_def store_ok_def distinct_delete_where)

definition execRunSaved :: "gotime \<Rightarrow> UpdateExecutionRun \<Rightarrow> scanDB \<Rightarrow> UpdateExecutionRun \<times> scanDB" where
  "execRunSaved now run db = (if ex_ID run = 0 then createExecRun now run db
     else (run, db\<lparr>db_execRuns := upsert ex_ID (\<lambda>_ new. new) run (db_execRuns db), db_execRunSeq := max (db_execRunSeq db) (ex_ID run)\<rparr>))"

lemma SaveExecution_None:
  "SaveExecution None now run outcomes db = (case execRunSaved now run db of (run1, db1) \<Rightarrow>
     (Inr run1, pruneExecRuns (ex_Host run) (fold (recordOutcome now run1) outcomes db1)))"
  by (simp add: SaveExecution_def execRunSaved_def Let_def split: prod.split)

lemma execRunSaved_ok: "store_ok db \<Longrightarrow> store_ok (snd (execRunSaved now run db))"
proof -
  assume ok: "store_ok db"
  have "ex_ID r \<le> max (db_execRunSeq db) (ex_ID run)" if "r \<in> set (upsert ex_ID (\<lambda>_ new. new) run (db_execRuns db))" for r
    using ok that by (fastforce simp: upsert_def store_ok_def split: if_splits)
  then have "store_ok (db\<lparr>db_execRuns := upsert ex_ID (\<lambda>_ new. new) run (db_execRuns db), db_execRunSeq := max (db_execRunSeq db) (ex_ID run)\<rparr>)"
    using ok exec_index.upsert_distinct [of "db_execRuns db" run] by (simp add: store_ok_def)
  then show ?thesis using ok createExecRun_ok by (simp add: execRunSaved_def)
qed

lemma SaveExecution_ok: "store_ok db \<Longrightarrow> store_ok (snd (SaveExecution fault now run outcomes db))"
proof (cases fault)
  case None
  assume "store_ok db"
  then have "store_ok (snd (execRunSaved now run db))" by (rule execRunSaved_ok)
  then show ?thesis unfolding None SaveExecution_None
    by (auto split: prod.split intro!: pruneExecRuns_ok fold_keeps [where I = store_ok] recordOutcome_ok)
qed (simp add: SaveExecution_def)

lemma Recover_ok: "store_ok db \<Longrightarrow> store_ok (snd (RecoverInterruptedExecutions fault now db))"
proof -
  assume ok: "store_ok db"
  have "map ex_ID (update_where P (\<lambda>r. r\<lparr>ex_CompletedAt := a, ex_Error := b\<rparr>) tbl) = map ex_ID tbl" for P a b tbl
    by (rule map_update_where) simp
  moreover have "\<forall>r \<in> set (update_where P (\<lambda>r. r\<lparr>ex_CompletedAt := a, ex_Error := b\<rparr>) (db_execRuns db)). ex_ID r \<le> db_execRunSeq db" for P a b
    using ok by (auto simp: update_where_def store_ok_def)
  moreover have "distinct (map ac_Host (fold (pauseHost now) hosts (db_controls db)))" for hosts
    by (rule fold_keeps [where I = "\<lambda>tbl. distinct (map ac_Host tbl)"]) (use ok in \<open>auto simp: pauseHost_distinct store_ok_def\<close>)
  ultimately show ?thesis using ok by (cases fault) (simp_all add: RecoverInterruptedExecutions_def Let_def store_ok_def)
qed

lemma Clear_ok: "store_ok db \<Longrightarrow> store_ok (snd (ClearExecutionBlock fault host cid db))"
  by (cases fault)
    (auto simp: ClearExecutionBlock_def store_ok_def distinct_delete_where deleteBlocks_distinct split: option.split)

lemmas store_ops_ok = scanSave_ok PruneResults_ok SaveControl_ok BeginExecution_ok SaveExecution_ok Recover_ok Clear_ok

text \<open>Histories: any sequence of the operations, each with its own fault and clock.\<close>

datatype store_op =
  OpSave "string option" gotime UpdateScanRun "ContainerUpdateCheck list"
| OpPrune "string option" string "string list" "string list"
| OpControl "string option" gotime string bool int
| OpBegin "string option" gotime UpdateExecutionRun
| OpSaveExecution "string option" gotime UpdateExecutionRun "UpdateExecutionOutcome list"
| OpRecover "string option" gotime
| OpClear "string option" string string

primrec store_step :: "store_op \<Rightarrow> scanDB \<Rightarrow> scanDB" where
  "store_step (OpSave fault now run checks) db = snd (scanSave fault now run checks db)"
| "store_step (OpPrune fault host active known) db = snd (PruneResults fault host active known db)"
| "store_step (OpControl fault now host paused n) db = snd (SaveControl fault now host paused n db)"
| "store_step (OpBegin fault now run) db = snd (BeginExecution fault now run db)"
| "store_step (OpSaveExecution fault now run outcomes) db = snd (SaveExecution fault now run outcomes db)"
| "store_step (OpRecover fault now) db = snd (RecoverInterruptedExecutions fault now db)"
| "store_step (OpClear fault host cid) db = snd (ClearExecutionBlock fault host cid db)"

primrec op_fault :: "store_op \<Rightarrow> string option" where
  "op_fault (OpSave fault now run checks) = fault"
| "op_fault (OpPrune fault host active known) = fault"
| "op_fault (OpControl fault now host paused n) = fault"
| "op_fault (OpBegin fault now run) = fault"
| "op_fault (OpSaveExecution fault now run outcomes) = fault"
| "op_fault (OpRecover fault now) = fault"
| "op_fault (OpClear fault host cid) = fault"

lemma store_step_ok: "store_ok db \<Longrightarrow> store_ok (store_step op db)"
  by (cases op) (simp_all add: store_ops_ok)

lemma store_history_ok: "store_ok db \<Longrightarrow> store_ok (fold store_step ops db)"
  by (rule fold_keeps [where I = store_ok]) (auto intro: store_step_ok)

text \<open>
  Over every history of store operations, in which any statement may fail, the store stays
  well formed: one scan result and one circuit breaker per container of a host, one control row
  per host, run ids never used twice, and at most fifty scan runs per host.  A failed operation
  leaves the store as it was.
\<close>

theorem store_history_wellformed:
  "store_ok (fold store_step ops emptyDB) \<and> (op_fault op = Some e \<longrightarrow> store_step op db = db)"
proof
  show "store_ok (fold store_step ops emptyDB)" by (rule store_history_ok) simp
  show "op_fault op = Some e \<longrightarrow> store_step op db = db"
    by (cases op) (simp_all add: scanSave_def PruneResults_def SaveControl_def BeginExecution_def SaveExecution_def
        RecoverInterruptedExecutions_def ClearExecutionBlock_def)
qed

theorem store_history_wellformed_witness:
  "op_fault (OpRecover (Some ''locked'') 5) = Some ''locked'' \<and> store_step (OpRecover (Some ''locked'') 5) emptyDB = emptyDB \<and>
   store_ok (fold store_step [OpControl None 1 ''h'' True 3, OpRecover None 2] emptyDB)"
  using store_history_wellformed [of "[OpControl None 1 ''h'' True 3, OpRecover None 2]" "OpRecover (Some ''locked'') 5" "''locked''" emptyDB]
  by simp

subsection \<open>The circuit breaker\<close>

definition blocked :: "string \<Rightarrow> string \<Rightarrow> string \<Rightarrow> UpdateExecutionBlock list \<Rightarrow> bool" where
  "blocked host cid digest tbl \<longleftrightarrow> (\<exists>b. first_row blockKey (host, cid) tbl = Some b \<and> bl_RemoteDigest b = digest)"

lemma ExecutionBlock_blocked: "ExecutionBlock None host cid digest db = Inr True \<longleftrightarrow> blocked host cid digest (db_blocks db)"
  by (auto simp: ExecutionBlock_def blocked_def split: option.split)

definition failing :: "UpdateExecutionOutcome \<Rightarrow> bool" where
  "failing o1 \<longleftrightarrow> oc_State o1 = ExecutionFailed \<or> oc_State o1 = ExecutionRolledBack"

definition lifting :: "string \<Rightarrow> string \<Rightarrow> UpdateExecutionOutcome \<Rightarrow> bool" where
  "lifting cid digest o1 \<longleftrightarrow> tg_ContainerID o1 = cid \<and>
     (oc_State o1 = ExecutionUpdated \<or> oc_State o1 = ExecutionCurrent \<or> failing o1 \<and> tg_RemoteDigest o1 \<notin> {[], digest})"

text \<open>The operations that may close the breaker of a container for a digest.\<close>

primrec lifts :: "string \<Rightarrow> string \<Rightarrow> string \<Rightarrow> store_op \<Rightarrow> bool" where
  "lifts host cid digest (OpSave fault now run checks) = False"
| "lifts host cid digest (OpPrune fault h active known) = (h = host \<and> known \<noteq> [] \<and> cid \<notin> set known)"
| "lifts host cid digest (OpControl fault now h paused n) = False"
| "lifts host cid digest (OpBegin fault now run) = False"
| "lifts host cid digest (OpSaveExecution fault now run outcomes) = (ex_Host run = host \<and> (\<exists>o1 \<in> set outcomes. lifting cid digest o1))"
| "lifts host cid digest (OpRecover fault now) = False"
| "lifts host cid digest (OpClear fault h c) = (h = host)"

lemma blocked_delete:
  assumes "\<And>b. blockKey b = (host, cid) \<Longrightarrow> \<not> P b"
  shows "blocked host cid digest (delete_where P tbl) \<longleftrightarrow> blocked host cid digest tbl"
proof -
  have "find (\<lambda>b. blockKey b = (host, cid)) (filter (\<lambda>b. \<not> P b) tbl) = find (\<lambda>b. blockKey b = (host, cid)) tbl"
    using assms by (induction tbl) auto
  then show ?thesis by (simp add: blocked_def first_row_def delete_where_def)
qed

lemma blocked_deleteI:
  "blocked host cid digest tbl \<Longrightarrow> (\<And>b. bl_Host b = host \<Longrightarrow> bl_ContainerID b = cid \<Longrightarrow> \<not> P b) \<Longrightarrow>
   blocked host cid digest (delete_where P tbl)"
  by (subst blocked_delete) (auto simp: blockKey_def)

lemma saveBlock_first:
  assumes "distinct (map blockKey tbl)"
  shows "first_row blockKey (blockKey b) (saveBlock b tbl) =
    Some (case first_row blockKey (blockKey b) tbl of None \<Rightarrow> b\<lparr>bl_TargetType := targetTypeColumn (bl_TargetType b)\<rparr> | Some old \<Rightarrow> blockMerge old b)"
proof (cases "blockKey b \<in> set (map blockKey tbl)")
  case True
  moreover from this have "first_row blockKey (blockKey b) tbl \<noteq> None" by (simp only: first_row_None) simp
  ultimately show ?thesis using block_index.upsert_same [OF assms, of b] by (auto simp: saveBlock_def)
next
  case False
  then have n: "first_row blockKey (blockKey b) tbl = None" by (simp only: first_row_None) simp
  let ?b = "b\<lparr>bl_TargetType := targetTypeColumn (bl_TargetType b)\<rparr>"
  have k: "blockKey ?b = blockKey b" by (simp add: blockKey_def)
  have "first_row blockKey (blockKey ?b) (upsert blockKey blockMerge ?b tbl) = Some ?b"
    using block_index.upsert_same [OF assms, of ?b] n k by simp
  then show ?thesis using False n k by (simp add: saveBlock_eq)
qed

lemma saveBlock_other: "k \<noteq> blockKey b \<Longrightarrow> first_row blockKey k (saveBlock b tbl) = first_row blockKey k tbl"
proof -
  assume "k \<noteq> blockKey b"
  moreover have "blockKey (b\<lparr>bl_TargetType := t\<rparr>) = blockKey b" for t by (simp add: blockKey_def)
  ultimately show ?thesis unfolding saveBlock_eq by (auto intro: block_index.upsert_other)
qed

lemma blocked_saveBlock:
  assumes "distinct (map blockKey tbl)" "blockKey b = (host, cid)" "bl_RemoteDigest b = digest \<or> bl_RemoteDigest b = [] \<and> blocked host cid digest tbl"
    "digest \<noteq> []"
  shows "blocked host cid digest (saveBlock b tbl)"
  using saveBlock_first [OF assms(1), of b] assms(2-)
  by (cases "first_row blockKey (host, cid) tbl") (auto simp: blocked_def blockMerge_def nonzero_def)

lemma recordOutcome_blocks:
  "db_blocks (recordOutcome now run o1 db) =
     (if failing o1 then saveBlock (blockRow run o1) (db_blocks db)
      else if oc_State o1 = ExecutionUpdated \<or> oc_State o1 = ExecutionCurrent then deleteBlocks (ex_Host run) (tg_ContainerID o1) (db_blocks db)
      else db_blocks db)"
  by (simp add: recordOutcome_def Let_def failing_def)

lemma blocked_recordOutcome:
  assumes "distinct (map blockKey (db_blocks db))" "digest \<noteq> []" "ex_Host run = host \<Longrightarrow> \<not> lifting cid digest o1"
    "blocked host cid digest (db_blocks db) \<or> ex_Host run = host \<and> failing o1 \<and> tg_ContainerID o1 = cid \<and> tg_RemoteDigest o1 = digest"
  shows "blocked host cid digest (db_blocks (recordOutcome now run o1 db))"
proof (cases "ex_Host run = host \<and> tg_ContainerID o1 = cid")
  case True
  show ?thesis
  proof (cases "failing o1")
    case f: True
    then have "tg_RemoteDigest o1 \<in> {[], digest}" using assms(3) True by (auto simp: lifting_def)
    then have "blocked host cid digest (saveBlock (blockRow run o1) (db_blocks db))"
      using assms(1,2,4) True by (intro blocked_saveBlock) (auto simp: blockKey_def blockRow_def)
    then show ?thesis using f by (simp add: recordOutcome_blocks)
  next
    case False
    then show ?thesis using assms(3,4) True by (auto simp: recordOutcome_blocks lifting_def)
  qed
next
  case False
  then have b: "blocked host cid digest (db_blocks db)" using assms(4) by auto
  have "first_row blockKey (host, cid) (saveBlock (blockRow run o1) (db_blocks db)) = first_row blockKey (host, cid) (db_blocks db)"
    by (rule saveBlock_other) (use False in \<open>auto simp: blockKey_def blockRow_def\<close>)
  moreover have "blocked host cid digest (deleteBlocks (ex_Host run) (tg_ContainerID o1) (db_blocks db))"
    using b False unfolding deleteBlocks_def by (subst blocked_delete) (auto simp: blockKey_def)
  ultimately show ?thesis using b by (auto simp: recordOutcome_blocks blocked_def)
qed

lemma blocked_fold:
  assumes "store_ok db" "digest \<noteq> []" "ex_Host run = host \<Longrightarrow> \<forall>o1 \<in> set outcomes. \<not> lifting cid digest o1"
    "blocked host cid digest (db_blocks db) \<or> ex_Host run = host \<and> (\<exists>o1 \<in> set outcomes. failing o1 \<and> tg_ContainerID o1 = cid \<and> tg_RemoteDigest o1 = digest)"
  shows "blocked host cid digest (db_blocks (fold (recordOutcome now run) outcomes db))"
  using assms
proof (induction outcomes arbitrary: db)
  case (Cons o1 outcomes)
  have d: "distinct (map blockKey (db_blocks db))" using Cons.prems(1) by (simp add: store_ok_def)
  have "blocked host cid digest (db_blocks (recordOutcome now run o1 db)) \<or> ex_Host run = host \<and>
      (\<exists>o1 \<in> set outcomes. failing o1 \<and> tg_ContainerID o1 = cid \<and> tg_RemoteDigest o1 = digest)"
    using blocked_recordOutcome [OF d Cons.prems(2), of run host cid o1] Cons.prems(3,4) by auto
  then show ?case using Cons.IH [OF recordOutcome_ok [OF Cons.prems(1)] Cons.prems(2)] Cons.prems(3) by simp
qed simp

lemma execRunSaved_frame:
  "ex_Host (fst (execRunSaved now run db)) = ex_Host run" "db_blocks (snd (execRunSaved now run db)) = db_blocks db"
  by (simp_all add: execRunSaved_def createExecRun_def Let_def)

lemma pruneExecRuns_blocks [simp]: "db_blocks (pruneExecRuns host db) = db_blocks db"
  by (simp add: pruneExecRuns_def Let_def)

lemma blocked_SaveExecution:
  assumes "store_ok db" "digest \<noteq> []" "\<not> lifts host cid digest (OpSaveExecution None now run outcomes)"
    "blocked host cid digest (db_blocks db) \<or> ex_Host run = host \<and> (\<exists>o1 \<in> set outcomes. failing o1 \<and> tg_ContainerID o1 = cid \<and> tg_RemoteDigest o1 = digest)"
  shows "blocked host cid digest (db_blocks (snd (SaveExecution None now run outcomes db)))"
proof -
  obtain run1 db1 where r: "execRunSaved now run db = (run1, db1)" by fastforce
  have "ex_Host run1 = ex_Host run" "db_blocks db1 = db_blocks db" "store_ok db1"
    using execRunSaved_frame [of now run db] execRunSaved_ok [OF assms(1), of now run] r by simp_all
  then show ?thesis using blocked_fold [of db1 digest run1 host outcomes cid now] assms(2-) r by (simp add: SaveExecution_None)
qed

lemma blocked_step:
  assumes "store_ok db" "digest \<noteq> []" "\<not> lifts host cid digest op" "blocked host cid digest (db_blocks db)"
  shows "blocked host cid digest (db_blocks (store_step op db))"
proof (cases op)
  case (OpSaveExecution fault now run outcomes)
  then show ?thesis using blocked_SaveExecution [OF assms(1,2), of host cid now run outcomes] assms(3,4)
    by (cases fault) (simp_all add: SaveExecution_def)
next
  case (OpPrune fault h active known)
  then show ?thesis using assms(3,4)
    by (cases fault) (auto simp: PruneResults_def Let_def intro!: blocked_deleteI)
next
  case (OpClear fault h c)
  then have "h \<noteq> host" using assms(3) by simp
  then show ?thesis using assms(4) OpClear
    by (cases fault) (auto simp: ClearExecutionBlock_def deleteBlocks_def intro!: blocked_deleteI split: option.split)
qed (use assms(4) in \<open>auto simp: scanSave_def createScanRun_def pruneScanRuns_def SaveControl_def BeginExecution_def createExecRun_def
      RecoverInterruptedExecutions_def Let_def split: option.split list.split\<close>)

lemma blocked_history:
  assumes "store_ok db" "digest \<noteq> []" "\<forall>op \<in> set ops. \<not> lifts host cid digest op" "blocked host cid digest (db_blocks db)"
  shows "blocked host cid digest (db_blocks (fold store_step ops db))"
  using assms by (induction ops arbitrary: db) (auto simp: blocked_step store_step_ok)

text \<open>
  C32: A digest that broke a container stays blocked.  When an execution that recorded a failed
  or rolled-back outcome for a digest is saved, the circuit breaker answers that this digest is
  blocked for this container, and it keeps answering so after any history of store operations
  that does not lift it: recording an update or a current image or a failure on another digest,
  clearing blocks on that host, or pruning with a listing that no longer holds the container.
  Scans, pauses, restarts, enrollment changes and failures of the database never lift it.
\<close>

theorem execution_breaker_holds:
  assumes "store_ok db" "o1 \<in> set outcomes" "failing o1" "tg_RemoteDigest o1 = digest" "digest \<noteq> []"
    "\<forall>op \<in> set (OpSaveExecution None now run outcomes # ops). \<not> lifts (ex_Host run) (tg_ContainerID o1) digest op"
  shows "ExecutionBlock None (ex_Host run) (tg_ContainerID o1) digest
    (fold store_step ops (snd (SaveExecution None now run outcomes db))) = Inr True"
  unfolding ExecutionBlock_blocked
proof (rule blocked_history)
  show "store_ok (snd (SaveExecution None now run outcomes db))" by (rule SaveExecution_ok [OF assms(1)])
  show "blocked (ex_Host run) (tg_ContainerID o1) digest (db_blocks (snd (SaveExecution None now run outcomes db)))"
    by (rule blocked_SaveExecution) (use assms in auto)
qed (use assms in auto)

definition sampleTarget :: "string \<Rightarrow> string \<Rightarrow> UpdateExecutionTarget" where
  "sampleTarget cid digest =
     \<lparr>tg_ContainerID = cid, tg_ContainerName = cid, tg_Image = ''app:1'', tg_State = ''running'', tg_RemoteDigest = digest,
      tg_RollbackEnabled = True, tg_TargetType = ''container'', tg_StackName = [], tg_StackKey = [], tg_ServiceName = [],
      tg_DependsOn = [], tg_CleanupEnabled = True, tg_CleanupKeep = 1\<rparr>"

definition sampleOutcome :: "string \<Rightarrow> string \<Rightarrow> string \<Rightarrow> UpdateExecutionOutcome" where
  "sampleOutcome cid digest state =
     UpdateExecutionTarget.extend (sampleTarget cid digest)
       (UpdateExecutionOutcome.fields state ''crashed'' [] ''sha256:old'')"

definition sampleRun :: UpdateExecutionRun where
  "sampleRun = \<lparr>ex_ID = 0, ex_CreatedAt = 0, ex_StartedAt = 0, ex_CompletedAt = None, ex_Host = ''h'', ex_Schedule = ''manual'',
     ex_ScanRunID = 1, ex_Targets = 1, ex_Updated = 0, ex_Current = 0, ex_RolledBack = 0, ex_Failed = 0, ex_Skipped = 0, ex_Error = []\<rparr>"

theorem execution_breaker_holds_witness:
  "ExecutionBlock None ''h'' ''c'' ''d1''
     (fold store_step [OpPrune None ''h'' [] [''c''], OpRecover None 9]
        (snd (SaveExecution None 7 sampleRun [sampleOutcome ''c'' ''d1'' ''failed''] emptyDB))) = Inr True"
proof -
  let ?o = "sampleOutcome ''c'' ''d1'' ''failed''"
  have h: "ex_Host sampleRun = ''h''" "tg_ContainerID ?o = ''c''" "tg_RemoteDigest ?o = ''d1''" "oc_State ?o = ''failed''"
    by (simp_all add: sampleRun_def sampleOutcome_def sampleTarget_def UpdateExecutionTarget.defs UpdateExecutionOutcome.defs)
  show ?thesis
    using execution_breaker_holds [of emptyDB ?o "[?o]" "''d1''" 7 sampleRun "[OpPrune None ''h'' [] [''c''], OpRecover None 9]"]
    by (simp add: h failing_def lifting_def ExecutionFailed_def ExecutionUpdated_def ExecutionCurrent_def)
qed

subsection \<open>Executions cut by a restart\<close>

text \<open>Pausing is an upsert that keeps the limit of an existing row.\<close>

definition pauseMerge :: "UpdateAutomationControl \<Rightarrow> UpdateAutomationControl \<Rightarrow> UpdateAutomationControl" where
  "pauseMerge old new = old\<lparr>ac_Paused := True, ac_UpdatedAt := ac_UpdatedAt new\<rparr>"

interpretation pause_index: unique_index ac_Host pauseMerge
  by unfold_locales (simp add: pauseMerge_def)

lemma pauseHost_upsert:
  "pauseHost now host tbl =
     upsert ac_Host pauseMerge \<lparr>ac_Host = host, ac_Paused = True, ac_MaxGroupsPerRun = 0, ac_UpdatedAt = now\<rparr> tbl"
  by (simp add: pauseHost_def upsert_def update_where_def pauseMerge_def)

lemma pauseHost_paused:
  "distinct (map ac_Host tbl) \<Longrightarrow>
   first_row ac_Host h (pauseHost now host tbl) =
     (if h = host then Some (case first_row ac_Host host tbl of Some r \<Rightarrow> r\<lparr>ac_Paused := True, ac_UpdatedAt := now\<rparr>
        | None \<Rightarrow> \<lparr>ac_Host = host, ac_Paused = True, ac_MaxGroupsPerRun = 0, ac_UpdatedAt = now\<rparr>)
      else first_row ac_Host h tbl)"
  using pause_index.upsert_same [of tbl "\<lparr>ac_Host = host, ac_Paused = True, ac_MaxGroupsPerRun = 0, ac_UpdatedAt = now\<rparr>"]
    pause_index.upsert_other [of h "\<lparr>ac_Host = host, ac_Paused = True, ac_MaxGroupsPerRun = 0, ac_UpdatedAt = now\<rparr>" tbl]
  unfolding pauseHost_upsert by (cases "first_row ac_Host host tbl") (simp_all add: pauseMerge_def)

definition paused :: "string \<Rightarrow> UpdateAutomationControl list \<Rightarrow> bool" where
  "paused host tbl = (case first_row ac_Host host tbl of Some r \<Rightarrow> ac_Paused r | None \<Rightarrow> False)"

lemma paused_controlRow: "ac_Paused (controlRow host db) = paused host (db_controls db)"
  by (simp add: controlRow_def paused_def noControl_def split: option.split)

lemma paused_fold:
  "distinct (map ac_Host tbl) \<Longrightarrow>
   paused h (fold (pauseHost now) hosts tbl) \<longleftrightarrow> h \<in> set hosts \<or> paused h tbl"
proof (induction hosts arbitrary: tbl)
  case (Cons host hosts)
  then show ?case by (auto simp: pauseHost_distinct) (auto simp: paused_def pauseHost_paused split: option.splits if_splits)
qed simp

text \<open>
  Recovery at startup closes every execution a restart cut short.  Afterwards no execution
  is open, every host that had an open one is paused for review, no other host's pause changes,
  executions that were already closed keep their row, the reported number is the number of
  executions closed, and a second recovery finds nothing to do.
\<close>

theorem RecoverInterruptedExecutions_closes:
  assumes "store_ok db" "RecoverInterruptedExecutions None now db = (Inr n, db')"
  shows "(\<forall>r \<in> set (db_execRuns db'). ex_CompletedAt r \<noteq> None) \<and>
    (\<forall>h. ac_Paused (controlRow h db') \<longleftrightarrow> (\<exists>r \<in> set (db_execRuns db). ex_Host r = h \<and> ex_CompletedAt r = None) \<or> ac_Paused (controlRow h db)) \<and>
    (\<forall>r \<in> set (db_execRuns db). ex_CompletedAt r \<noteq> None \<longrightarrow> r \<in> set (db_execRuns db')) \<and>
    n = length (filter (\<lambda>r. ex_CompletedAt r = None) (db_execRuns db)) \<and>
    RecoverInterruptedExecutions None later db' = (Inr 0, db')"
proof -
  define I where "I = filter (\<lambda>r. ex_CompletedAt r = None) (db_execRuns db)"
  have d: "distinct (map ex_ID (db_execRuns db))" "distinct (map ac_Host (db_controls db))" using assms(1) by (simp_all add: store_ok_def)
  have mem: "ex_ID r \<in> set (map ex_ID I) \<longleftrightarrow> ex_CompletedAt r = None" if "r \<in> set (db_execRuns db)" for r
    using that d(1) by (auto simp: I_def distinct_map inj_on_def)
  define db1 where "db1 = db\<lparr>db_execRuns := update_where (\<lambda>r. ex_CompletedAt r = None)
      (\<lambda>r. r\<lparr>ex_CompletedAt := Some now, ex_Error := interruptedMessage\<rparr>) (db_execRuns db),
    db_controls := fold (pauseHost now) (remdups (map ex_Host I)) (db_controls db)\<rparr>"
  have upd: "update_where (\<lambda>r. ex_ID r \<in> set (map ex_ID I)) f (db_execRuns db) = update_where (\<lambda>r. ex_CompletedAt r = None) f (db_execRuns db)" for f
    using mem by (auto simp: update_where_def)
  have flt: "filter (\<lambda>r. ex_ID r \<in> set (map ex_ID I)) (db_execRuns db) = I" unfolding I_def
    by (rule filter_cong) (use mem in \<open>auto simp: I_def\<close>)
  have res: "(Inr n :: string + nat, db') = (if I = [] then (Inr 0, db) else (Inr (length I), db1))"
    using assms(2) unfolding RecoverInterruptedExecutions_def option.case Let_def I_def [symmetric] upd flt db1_def by (rule sym)
  have open_: "I = [] \<Longrightarrow> db1 = db"
  proof -
    assume "I = []"
    moreover from this have "update_where (\<lambda>r. ex_CompletedAt r = None) f (db_execRuns db) = db_execRuns db" for f
      unfolding update_where_def by (intro map_idI) (auto simp: I_def filter_empty_conv)
    ultimately show "db1 = db" by (simp add: db1_def)
  qed
  have db': "db' = db1" "n = length I" using res open_ by (auto split: if_splits)
  have closed: "\<forall>r \<in> set (db_execRuns db1). ex_CompletedAt r \<noteq> None" by (auto simp: db1_def update_where_def)
  then have "filter (\<lambda>r. ex_CompletedAt r = None) (db_execRuns db1) = []" by (simp add: filter_empty_conv)
  then have "RecoverInterruptedExecutions None later db1 = (Inr 0, db1)" by (simp add: RecoverInterruptedExecutions_def)
  moreover have "ac_Paused (controlRow h db1) \<longleftrightarrow> (\<exists>r \<in> set (db_execRuns db). ex_Host r = h \<and> ex_CompletedAt r = None) \<or> ac_Paused (controlRow h db)" for h
    using paused_fold [OF d(2)] by (auto simp: paused_controlRow db1_def I_def)
  moreover have "r \<in> set (db_execRuns db1)" if "r \<in> set (db_execRuns db)" "ex_CompletedAt r \<noteq> None" for r
    using that by (force simp: db1_def update_where_def)
  ultimately show ?thesis using closed db' by (auto simp: I_def)
qed

theorem RecoverInterruptedExecutions_closes_witness:
  "\<exists>db'. RecoverInterruptedExecutions None 9 (snd (BeginExecution None 7 sampleRun emptyDB)) = (Inr 1, db') \<and>
     ac_Paused (controlRow ''h'' db') \<and> RecoverInterruptedExecutions None 10 db' = (Inr 0, db')"
proof -
  define db where "db = snd (BeginExecution None 7 sampleRun emptyDB)"
  have ok: "store_ok db" unfolding db_def by (rule BeginExecution_ok) simp
  have run: "RecoverInterruptedExecutions None 9 db = (Inr 1, snd (RecoverInterruptedExecutions None 9 db))"
    by (simp add: db_def BeginExecution_def createExecRun_def RecoverInterruptedExecutions_def emptyDB_def sampleRun_def Let_def)
  have "\<exists>r \<in> set (db_execRuns db). ex_Host r = ''h'' \<and> ex_CompletedAt r = None"
    by (simp add: db_def BeginExecution_def createExecRun_def emptyDB_def sampleRun_def Let_def)
  then show ?thesis using RecoverInterruptedExecutions_closes [OF ok run, of 10] run unfolding db_def [symmetric] by blast
qed

end
