(* ===== verification/Image_Cleanup.thy ===== *)
theory Image_Cleanup
  imports Scan_Store
begin

section \<open>Retiring the images an update left behind\<close>

text \<open>
  Models \<open>core/internal/docker/updater/cleanup.go\<close>: the queue of images that successful updates
  replaced, the retention window per target, the attempt budget and the history limit.

  The state threads the table, the number of database statements issued so far and the removals
  asked of Docker.  The environment answers each statement (\<^verbatim>\<open>ce_fault\<close>), reads the clock and
  answers a removal from everything asked before (\<^verbatim>\<open>ce_remove\<close>; \<open>None\<close> when no cleaner is set).
\<close>

definition maxImageCleanupHistory :: nat where "maxImageCleanupHistory = 250"
definition maxAutomaticCleanupAttempts :: nat where "maxAutomaticCleanupAttempts = 3"

record UpdateImageCleanup =
  ic_ID :: nat
  ic_CreatedAt :: gotime
  ic_Host :: string
  ic_TargetKey :: string
  ic_ContainerName :: string
  ic_ImageID :: string
  ic_Retention :: int
  ic_Status :: string
  ic_Reason :: string
  ic_Attempts :: nat

type_synonym removals = "(string \<times> bool) list"

record cleanup_env =
  ce_fault :: "nat \<Rightarrow> string option"
  ce_now :: "nat \<Rightarrow> gotime"
  ce_remove :: "(removals \<Rightarrow> string \<Rightarrow> bool \<times> string \<times> string option) option"

record cleanupState =
  cu_rows :: "UpdateImageCleanup list"
  cu_seq :: nat
  cu_stmts :: nat
  cu_asked :: removals

text \<open>One statement: it fails and changes nothing, or it is applied.\<close>

definition statement :: "cleanup_env \<Rightarrow> (UpdateImageCleanup list \<Rightarrow> UpdateImageCleanup list) \<Rightarrow> cleanupState \<Rightarrow> string option \<times> cleanupState" where
  "statement env f st =
     (case ce_fault env (cu_stmts st) of
        Some e \<Rightarrow> (Some e, st\<lparr>cu_stmts := Suc (cu_stmts st)\<rparr>)
      | None \<Rightarrow> (None, st\<lparr>cu_rows := f (cu_rows st), cu_stmts := Suc (cu_stmts st)\<rparr>))"

definition cleanupTargetKey :: "('a :: type) UpdateExecutionTarget_scheme \<Rightarrow> string" where
  "cleanupTargetKey t =
     (if tg_TargetType t = UpdateTargetStack \<and> tg_StackKey t \<noteq> []
      then ''stack:'' @ tg_StackKey t @ '':'' @ (if tg_ServiceName t = [] then tg_ContainerName t else tg_ServiceName t)
      else ''container:'' @ tg_ContainerName t)"

definition cleanupKey :: "UpdateImageCleanup \<Rightarrow> string \<times> string \<times> string" where
  "cleanupKey r = (ic_Host r, ic_TargetKey r, ic_ImageID r)"

text \<open>The conflict clause: everything but the identity, the key and the creation time.\<close>

definition cleanupMerge :: "UpdateImageCleanup \<Rightarrow> UpdateImageCleanup \<Rightarrow> UpdateImageCleanup" where
  "cleanupMerge old new =
     old\<lparr>ic_ContainerName := ic_ContainerName new, ic_Retention := ic_Retention new, ic_Status := ic_Status new,
         ic_Reason := ic_Reason new, ic_Attempts := 0\<rparr>"

interpretation cleanup_index: unique_index cleanupKey cleanupMerge
  by unfold_locales (simp add: cleanupKey_def cleanupMerge_def)

definition intText :: "int \<Rightarrow> string" where
  "intText i = (if i < 0 then ''-'' @ Itoa (nat (- i)) else Itoa (nat i))"

definition QueueImageCleanup ::
  "cleanup_env \<Rightarrow> string \<Rightarrow> UpdateExecutionOutcome \<Rightarrow> cleanupState \<Rightarrow> string option \<times> cleanupState" where
  "QueueImageCleanup env host o1 st =
     (if \<not> tg_CleanupEnabled o1 \<or> oc_State o1 \<noteq> ExecutionUpdated \<or> TrimSpace (oc_PreviousImage o1) = [] then (None, st)
      else
        let row = \<lparr>ic_ID = Suc (cu_seq st), ic_CreatedAt = ce_now env (cu_stmts st), ic_Host = host, ic_TargetKey = cleanupTargetKey o1,
                   ic_ContainerName = tg_ContainerName o1, ic_ImageID = oc_PreviousImage o1, ic_Retention = tg_CleanupKeep o1,
                   ic_Status = ''pending'', ic_Reason = ''retained as one of '' @ intText (tg_CleanupKeep o1) @ '' configured rollback image(s)'',
                   ic_Attempts = 0\<rparr>
        in statement env (upsert cleanupKey cleanupMerge row) (st\<lparr>cu_seq := Suc (cu_seq st)\<rparr>))"

text \<open>\<open>CASE WHEN status = 'pending' THEN 0 ELSE 1 END, created_at DESC\<close>\<close>

definition historyOrder :: "UpdateImageCleanup list \<Rightarrow> UpdateImageCleanup list" where
  "historyOrder rows =
     (let srt = newest_first ic_CreatedAt rows
      in filter (\<lambda>r. ic_Status r = ''pending'') srt @ filter (\<lambda>r. ic_Status r \<noteq> ''pending'') srt)"

definition ImageCleanupState :: "string \<Rightarrow> cleanupState \<Rightarrow> UpdateImageCleanup list" where
  "ImageCleanupState host st = take maxImageCleanupHistory (historyOrder (filter (\<lambda>r. ic_Host r = host) (cu_rows st)))"

definition pendingImageCleanup :: "string \<Rightarrow> nat \<Rightarrow> UpdateImageCleanup list \<Rightarrow> UpdateImageCleanup list" where
  "pendingImageCleanup host maxAttempts rows =
     newest_first ic_CreatedAt
       (filter (\<lambda>r. ic_Host r = host \<and> ic_Status r = ''pending'' \<and> (maxAttempts > 0 \<longrightarrow> ic_Attempts r < maxAttempts)) rows)"

definition resetImageCleanupAttempts :: "string \<Rightarrow> UpdateImageCleanup list \<Rightarrow> UpdateImageCleanup list" where
  "resetImageCleanupAttempts host rows =
     update_where (\<lambda>r. ic_Host r = host \<and> ic_Status r = ''pending'') (\<lambda>r. r\<lparr>ic_Attempts := 0\<rparr>) rows"

definition markImageCleanup ::
  "cleanup_env \<Rightarrow> nat \<Rightarrow> bool \<Rightarrow> string \<Rightarrow> cleanupState \<Rightarrow> string option \<times> cleanupState" where
  "markImageCleanup env i removed reason st =
     (let write = (\<lambda>r. r\<lparr>ic_Status := (if removed then ''removed'' else ''pending''), ic_Reason := boundedExecutionText reason\<rparr>);
          (err, st1) = (if removed then (None, st)
                        else statement env (update_where (\<lambda>r. ic_ID r = i) (\<lambda>r. r\<lparr>ic_Attempts := Suc (ic_Attempts r)\<rparr>)) st)
      in case err of
           Some e \<Rightarrow> (Some e, st1)
         | None \<Rightarrow> statement env (update_where (\<lambda>r. ic_ID r = i) write) st1)"

definition pruneImageCleanupHistory :: "cleanup_env \<Rightarrow> string \<Rightarrow> cleanupState \<Rightarrow> string option \<times> cleanupState" where
  "pruneImageCleanupHistory env host st =
     (case statement env id st of
        (Some e, st1) \<Rightarrow> (Some e, st1)
      | (None, st1) \<Rightarrow>
          (let stale = map ic_ID (drop maxImageCleanupHistory (historyOrder (filter (\<lambda>r. ic_Host r = host) (cu_rows st1))))
           in if stale = [] then (None, st1)
              else statement env (delete_where (\<lambda>r. ic_ID r \<in> set stale)) st1))"

text \<open>One candidate outside the retention window.\<close>

definition retireCandidate ::
  "cleanup_env \<Rightarrow> (removals \<Rightarrow> string \<Rightarrow> bool \<times> string \<times> string option) \<Rightarrow> nat \<Rightarrow> UpdateImageCleanup \<Rightarrow>
   string list \<times> cleanupState \<Rightarrow> string list \<times> cleanupState" where
  "retireCandidate env clean budget c = (\<lambda>(errs, st).
     if budget > 0 \<and> ic_Attempts c \<ge> budget then (errs, st)
     else
       let (removed, reason0, removeErr) = clean (cu_asked st) (ic_ImageID c);
           st1 = st\<lparr>cu_asked := cu_asked st @ [(ic_ImageID c, removed)]\<rparr>;
           reason1 = (case removeErr of Some e \<Rightarrow> ''safe removal failed: '' @ e | None \<Rightarrow> reason0);
           errs1 = (case removeErr of Some e \<Rightarrow> errs @ [ic_ContainerName c @ '': '' @ e] | None \<Rightarrow> errs);
           reason = (if TrimSpace reason1 = []
                     then (if removed then ''previous image removed safely'' else ''previous image retained by Docker safety checks'')
                     else reason1)
       in case markImageCleanup env (ic_ID c) removed reason st1 of
            (Some e, st2) \<Rightarrow> (errs1 @ [e], st2)
          | (None, st2) \<Rightarrow> (errs1, st2))"

text \<open>The candidates of one target that are outside its retention window.\<close>

definition outsideWindow :: "UpdateImageCleanup list \<Rightarrow> UpdateImageCleanup list" where
  "outsideWindow candidates0 =
     (let candidates = newest_first ic_CreatedAt candidates0
      in case candidates of
           [] \<Rightarrow> []
         | c # _ \<Rightarrow> drop (nat (max 0 (ic_Retention c))) candidates)"

text \<open>The error is the list of joined errors; the empty list is nil.\<close>

definition processImageCleanup :: "cleanup_env \<Rightarrow> string \<Rightarrow> bool \<Rightarrow> cleanupState \<Rightarrow> string list \<times> cleanupState" where
  "processImageCleanup env host onDemand st =
     (case ce_remove env of
        None \<Rightarrow> ([''safe image cleanup is unavailable''], st)
      | Some clean \<Rightarrow>
          (let (err0, st0) = (if onDemand then statement env (resetImageCleanupAttempts host) st else (None, st));
               budget = (if onDemand then 0 else maxAutomaticCleanupAttempts)
           in case err0 of
                Some e \<Rightarrow> ([e], st0)
              | None \<Rightarrow>
                  (case statement env id st0 of
                     (Some e, st1) \<Rightarrow> ([e], st1)
                   | (None, st1) \<Rightarrow>
                       (let groups = groupBy ic_TargetKey (pendingImageCleanup host 0 (cu_rows st1));
                            (errs, st2) = fold (retireCandidate env clean budget) (concat (map (\<lambda>(_, cs). outsideWindow cs) groups)) ([], st1)
                        in case pruneImageCleanupHistory env host st2 of
                             (Some e, st3) \<Rightarrow> (errs @ [e], st3)
                           | (None, st3) \<Rightarrow> (errs, st3)))))"

definition imageCleanupStackEligible :: "UpdateExecutionOutcome list \<Rightarrow> (string, bool) gomap" where
  "imageCleanupStackEligible outcomes =
     foldl (\<lambda>m o1.
       if tg_TargetType o1 \<noteq> UpdateTargetStack \<or> tg_StackKey o1 = [] then m
       else
         let m1 = (if map_of m (tg_StackKey o1) = None then AList.update (tg_StackKey o1) True m else m)
         in if oc_State o1 \<noteq> ExecutionUpdated \<and> oc_State o1 \<noteq> ExecutionCurrent then AList.update (tg_StackKey o1) False m1 else m1) [] outcomes"

fun queueOutcomes ::
  "cleanup_env \<Rightarrow> string \<Rightarrow> (string, bool) gomap \<Rightarrow> UpdateExecutionOutcome list \<Rightarrow> cleanupState \<Rightarrow> string option \<times> cleanupState" where
  "queueOutcomes env host eligible [] st = (None, st)"
| "queueOutcomes env host eligible (o1 # os) st =
     (if tg_TargetType o1 = UpdateTargetStack \<and> map_of eligible (tg_StackKey o1) \<noteq> Some True then queueOutcomes env host eligible os st
      else case QueueImageCleanup env host o1 st of
        (Some e, st1) \<Rightarrow> (Some e, st1)
      | (None, st1) \<Rightarrow> queueOutcomes env host eligible os st1)"

definition queueAndProcessImageCleanup ::
  "cleanup_env \<Rightarrow> string \<Rightarrow> UpdateExecutionOutcome list \<Rightarrow> cleanupState \<Rightarrow> string list \<times> cleanupState" where
  "queueAndProcessImageCleanup env host outcomes st =
     (if ce_remove env = None then ([], st)
      else case queueOutcomes env host (imageCleanupStackEligible outcomes) outcomes st of
        (Some e, st1) \<Rightarrow> ([e], st1)
      | (None, st1) \<Rightarrow> processImageCleanup env host False st1)"

definition RetryImageCleanup :: "cleanup_env \<Rightarrow> string \<Rightarrow> cleanupState \<Rightarrow> string list \<times> cleanupState" where
  "RetryImageCleanup env host st = processImageCleanup env host True st"

subsection \<open>What a cleanup run may ask for\<close>

lemma statement_frame: "cu_asked (snd (statement env f st)) = cu_asked st"
  by (simp add: statement_def split: option.split)

lemma statement_ids:
  "(\<And>rows. map ic_ID (f rows) = map ic_ID rows) \<Longrightarrow> map ic_ID (cu_rows (snd (statement env f st))) = map ic_ID (cu_rows st)"
  by (simp add: statement_def split: option.split)

lemma statement_applied: "statement env f st = (None, st') \<Longrightarrow> cu_rows st' = f (cu_rows st)"
  by (auto simp: statement_def split: option.splits)

lemma markImageCleanup_frame:
  "cu_asked (snd (markImageCleanup env i removed reason st)) = cu_asked st"
  "map ic_ID (cu_rows (snd (markImageCleanup env i removed reason st))) = map ic_ID (cu_rows st)"
proof -
  let ?f = "update_where (\<lambda>r. ic_ID r = i) (\<lambda>r. r\<lparr>ic_Attempts := Suc (ic_Attempts r)\<rparr>) :: UpdateImageCleanup list \<Rightarrow> _"
  have ids: "map ic_ID (?f rows) = map ic_ID rows"
    "map ic_ID (update_where (\<lambda>r. ic_ID r = i) (\<lambda>r. r\<lparr>ic_Status := s, ic_Reason := t\<rparr>) rows) = map ic_ID rows"
    for rows s t by simp_all
  obtain err st1 where st1: "(if removed then (None, st) else statement env ?f st) = (err, st1)" by fastforce
  have a: "cu_asked st1 = cu_asked st" "map ic_ID (cu_rows st1) = map ic_ID (cu_rows st)"
    using st1 statement_frame [of env ?f st] statement_ids [of ?f env st, OF ids(1)] by (auto split: if_splits)
  show "cu_asked (snd (markImageCleanup env i removed reason st)) = cu_asked st"
    "map ic_ID (cu_rows (snd (markImageCleanup env i removed reason st))) = map ic_ID (cu_rows st)"
    unfolding markImageCleanup_def Let_def st1 prod.case
    using a by (auto simp: statement_frame statement_ids [OF ids(2)] split: option.split)
qed

definition asks :: "nat \<Rightarrow> UpdateImageCleanup \<Rightarrow> bool" where
  "asks budget c \<longleftrightarrow> \<not> (budget > 0 \<and> ic_Attempts c \<ge> budget)"

lemma retireCandidate_step:
  "\<exists>removed. cu_asked (snd (retireCandidate env clean budget c (errs, st))) = cu_asked st @ (if asks budget c then [(ic_ImageID c, removed)] else [])"
  "map ic_ID (cu_rows (snd (retireCandidate env clean budget c (errs, st)))) = map ic_ID (cu_rows st)"
proof -
  obtain removed reason0 err where a: "clean (cu_asked st) (ic_ImageID c) = (removed, reason0, err)" using prod_cases3 by blast
  let ?st1 = "st\<lparr>cu_asked := cu_asked st @ [(ic_ImageID c, removed)]\<rparr>"
  have m: "cu_asked (snd (case markImageCleanup env i removed reason ?st1 of (Some e, st2) \<Rightarrow> (x @ [e], st2) | (None, st2) \<Rightarrow> (x, st2))) =
      cu_asked st @ [(ic_ImageID c, removed)]"
    "map ic_ID (cu_rows (snd (case markImageCleanup env i removed reason ?st1 of (Some e, st2) \<Rightarrow> (x @ [e], st2) | (None, st2) \<Rightarrow> (x, st2)))) =
      map ic_ID (cu_rows st)" for i reason and x :: "string list"
    using markImageCleanup_frame [of env i removed reason ?st1] by (auto split: prod.split option.split)
  show "\<exists>removed. cu_asked (snd (retireCandidate env clean budget c (errs, st))) = cu_asked st @ (if asks budget c then [(ic_ImageID c, removed)] else [])"
    unfolding retireCandidate_def prod.case a Let_def asks_def using m(1) by auto
  show "map ic_ID (cu_rows (snd (retireCandidate env clean budget c (errs, st)))) = map ic_ID (cu_rows st)"
    unfolding retireCandidate_def prod.case a Let_def using m(2) by simp
qed

lemma retire_all:
  "\<exists>new. cu_asked (snd (fold (retireCandidate env clean budget) cs (errs, st))) = cu_asked st @ new \<and>
     map fst new = map ic_ImageID (filter (asks budget) cs)"
  "map ic_ID (cu_rows (snd (fold (retireCandidate env clean budget) cs (errs, st)))) = map ic_ID (cu_rows st)"
proof (induction cs arbitrary: errs st)
  case (Cons c cs)
  {
    case 1
    obtain errs1 st1 where s: "retireCandidate env clean budget c (errs, st) = (errs1, st1)" by fastforce
    obtain removed where r: "cu_asked st1 = cu_asked st @ (if asks budget c then [(ic_ImageID c, removed)] else [])"
      using retireCandidate_step(1) [of env clean budget c errs st] s by auto
    obtain new where "cu_asked (snd (fold (retireCandidate env clean budget) cs (errs1, st1))) = cu_asked st1 @ new"
      "map fst new = map ic_ImageID (filter (asks budget) cs)" using Cons(1) [of errs1 st1] by blast
    then show ?case using r s
      by (intro exI [of _ "(if asks budget c then [(ic_ImageID c, removed)] else []) @ new"]) auto
  next
    case 2
    obtain errs1 st1 where s: "retireCandidate env clean budget c (errs, st) = (errs1, st1)" by fastforce
    show ?case using Cons(2) [of errs1 st1] retireCandidate_step(2) [of env clean budget c errs st] s by simp
  }
qed simp_all

lemma outsideWindow_member:
  assumes "c \<in> set (outsideWindow cs)"
  shows "c \<in> set cs \<and> (\<exists>window. set window \<subseteq> set cs \<and> int (length window) = max 0 (ic_Retention (hd (newest_first ic_CreatedAt cs))) \<and>
    (\<forall>r \<in> set window. ic_CreatedAt c \<le> ic_CreatedAt r) \<and> (distinct cs \<longrightarrow> distinct window \<and> c \<notin> set window))"
proof -
  define srt where "srt = newest_first ic_CreatedAt cs"
  define keep where "keep = nat (max 0 (ic_Retention (hd srt)))"
  have c: "c \<in> set (drop keep srt)" using assms unfolding outsideWindow_def srt_def [symmetric] keep_def Let_def by (cases srt) auto
  have s: "sorted (map (\<lambda>r. - ic_CreatedAt r) (take keep srt @ drop keep srt))" by (simp add: srt_def newest_first_def)
  have "keep \<le> length srt" using c by (metis drop_all empty_iff list.set(1) nat_le_linear)
  then have "int (length (take keep srt)) = max 0 (ic_Retention (hd srt))" by (simp add: keep_def)
  moreover have "\<forall>r \<in> set (take keep srt). ic_CreatedAt c \<le> ic_CreatedAt r" using s c unfolding map_append sorted_append by auto
  moreover have "distinct srt \<Longrightarrow> c \<notin> set (take keep srt)" using c by (metis append_take_drop_id disjoint_iff distinct_append)
  moreover have "set (take keep srt) \<subseteq> set cs" "distinct cs \<Longrightarrow> distinct srt" "c \<in> set cs"
    using in_set_dropD [OF c] by (auto simp: srt_def newest_first_def dest: in_set_takeD)
  ultimately show ?thesis unfolding srt_def [symmetric] by (intro conjI exI [of _ "take keep srt"]) auto
qed

lemma statement_id: "statement env id st = (None, st1) \<Longrightarrow> cu_rows st1 = cu_rows st \<and> cu_asked st1 = cu_asked st"
  by (auto simp: statement_def split: option.splits)

lemma historyOrder_perm: "mset (historyOrder rows) = mset rows"
proof -
  have "mset (filter (\<lambda>r. ic_Status r = ''pending'') xs) + mset (filter (\<lambda>r. ic_Status r \<noteq> ''pending'') xs) = mset xs" for xs
    by (induction xs) auto
  then show ?thesis by (simp add: historyOrder_def Let_def newest_first_def)
qed

lemma prune_history:
  assumes "pruneImageCleanupHistory env host st = (err, st')" "distinct (map ic_ID (cu_rows st))"
  shows "cu_asked st' = cu_asked st" "err = None \<Longrightarrow> length (filter (\<lambda>r. ic_Host r = host) (cu_rows st')) \<le> maxImageCleanupHistory"
proof -
  obtain e0 st1 where s: "statement env id st = (e0, st1)" by fastforce
  show "cu_asked st' = cu_asked st"
    using assms(1) s statement_frame [of env id st] statement_frame [of env _ st1]
    by (auto simp: pruneImageCleanupHistory_def Let_def split: option.splits if_splits) (metis snd_conv)
  assume none: "err = None"
  then have e0: "e0 = None" using assms(1) s by (auto simp: pruneImageCleanupHistory_def split: option.splits)
  define rows where "rows = cu_rows st"
  define mine where "mine = historyOrder (filter (\<lambda>r. ic_Host r = host) rows)"
  define stale where "stale = map ic_ID (drop maxImageCleanupHistory mine)"
  have r1: "cu_rows st1 = rows" using statement_id s e0 by (simp add: rows_def)
  have rows': "cu_rows st' = delete_where (\<lambda>r. ic_ID r \<in> set stale) rows"
  proof (cases "stale = []")
    case True
    then show ?thesis using assms(1) s e0 r1
      by (simp add: pruneImageCleanupHistory_def Let_def stale_def mine_def rows_def delete_where_def)
  next
    case False
    then have "statement env (delete_where (\<lambda>r. ic_ID r \<in> set stale)) st1 = (None, st')"
      using assms(1) s e0 r1 none unfolding pruneImageCleanupHistory_def stale_def mine_def rows_def Let_def by (simp del: set_map)
    then show ?thesis using statement_applied r1 by blast
  qed
  have ms: "mset mine = mset (filter (\<lambda>r. ic_Host r = host) rows)" by (simp add: mine_def historyOrder_perm)
  have inj: "inj_on ic_ID (set rows)" "distinct rows" using assms(2) by (auto simp: rows_def distinct_map)
  have "set (filter (\<lambda>r. ic_Host r = host) (cu_rows st')) \<subseteq> set (take maxImageCleanupHistory mine)"
  proof
    fix r assume r: "r \<in> set (filter (\<lambda>r. ic_Host r = host) (cu_rows st'))"
    then have "r \<in> set mine" "r \<notin> set (drop maxImageCleanupHistory mine)"
      using mset_eq_setD [OF ms] unfolding rows' stale_def by auto
    then show "r \<in> set (take maxImageCleanupHistory mine)" by (metis Un_iff append_take_drop_id set_append)
  qed
  moreover have "distinct (filter (\<lambda>r. ic_Host r = host) (cu_rows st'))" using inj(2) by (simp add: rows' delete_where_def)
  ultimately have "length (filter (\<lambda>r. ic_Host r = host) (cu_rows st')) \<le> card (set (take maxImageCleanupHistory mine))"
    by (metis List.finite_set card_mono distinct_card)
  also have "\<dots> \<le> maxImageCleanupHistory" using card_length [of "take maxImageCleanupHistory mine"] by simp
  finally show "length (filter (\<lambda>r. ic_Host r = host) (cu_rows st')) \<le> maxImageCleanupHistory" .
qed

definition targetRows :: "string \<Rightarrow> string \<Rightarrow> UpdateImageCleanup list \<Rightarrow> UpdateImageCleanup list" where
  "targetRows host key rows = filter (\<lambda>r. ic_Host r = host \<and> ic_Status r = ''pending'' \<and> ic_TargetKey r = key) rows"

text \<open>The retention of a target is the one of its newest candidate.\<close>

definition retention :: "UpdateImageCleanup list \<Rightarrow> int" where
  "retention rows = max 0 (ic_Retention (hd (newest_first ic_CreatedAt rows)))"

lemma newest_first_idem: "newest_first created (newest_first created xs) = newest_first created xs"
  by (simp add: newest_first_def sorted_sort_id sort_key_id_if_sorted)

lemma group_targetRows:
  assumes "(k, cs) \<in> set (groupBy ic_TargetKey (pendingImageCleanup host 0 rows))"
  shows "cs = newest_first ic_CreatedAt (targetRows host k rows)"
proof -
  have "cs = filter (\<lambda>r. ic_TargetKey r = k) (pendingImageCleanup host 0 rows)" by (rule groupBy_laws(2) [OF assms])
  also have "\<dots> = newest_first ic_CreatedAt (targetRows host k rows)"
    by (simp add: pendingImageCleanup_def newest_first_def filter_sort targetRows_def conj_ac)
  finally show ?thesis .
qed

text \<open>\<open>in_window c rows\<close>: the retention window of \<open>c\<close>'s target is full of other, not older candidates.\<close>

definition outside_window :: "UpdateImageCleanup \<Rightarrow> UpdateImageCleanup list \<Rightarrow> bool" where
  "outside_window c rows \<longleftrightarrow> (\<exists>window. distinct window \<and> set window \<subseteq> set rows - {c} \<and>
     (\<forall>r \<in> set window. ic_CreatedAt c \<le> ic_CreatedAt r) \<and> int (length window) = retention rows)"

lemma candidate_outside:
  assumes "c \<in> set (concat (map (\<lambda>(_, cs). outsideWindow cs) (groupBy ic_TargetKey (pendingImageCleanup host 0 rows))))" "distinct rows"
  shows "c \<in> set (targetRows host (ic_TargetKey c) rows) \<and> outside_window c (targetRows host (ic_TargetKey c) rows)"
proof -
  obtain k cs where g: "(k, cs) \<in> set (groupBy ic_TargetKey (pendingImageCleanup host 0 rows))" "c \<in> set (outsideWindow cs)"
    using assms(1) by auto
  let ?rows = "targetRows host k rows"
  have cs: "cs = newest_first ic_CreatedAt ?rows" by (rule group_targetRows [OF g(1)])
  have d: "distinct cs" using assms(2) by (simp add: cs newest_first_def targetRows_def)
  have m: "c \<in> set cs" "\<exists>window. set window \<subseteq> set cs \<and> int (length window) = max 0 (ic_Retention (hd (newest_first ic_CreatedAt cs))) \<and>
      (\<forall>r \<in> set window. ic_CreatedAt c \<le> ic_CreatedAt r) \<and> distinct window \<and> c \<notin> set window"
    using outsideWindow_member [OF g(2)] d by blast+
  have k: "ic_TargetKey c = k" using m(1) by (simp add: cs targetRows_def)
  have "max 0 (ic_Retention (hd (newest_first ic_CreatedAt cs))) = retention ?rows"
    unfolding cs newest_first_idem retention_def ..
  then have "outside_window c ?rows" using m(2) unfolding outside_window_def by (auto simp: cs)
  then show ?thesis using m(1) k by (simp add: cs)
qed


definition quietEnv :: cleanup_env where
  "quietEnv = \<lparr>ce_fault = (\<lambda>_. None), ce_now = int, ce_remove = Some (\<lambda>_ _. (True, [], None))\<rparr>"

definition emptyQueue :: cleanupState where
  "emptyQueue = \<lparr>cu_rows = [], cu_seq = 0, cu_stmts = 0, cu_asked = []\<rparr>"

text \<open>The outcome of an update of container \<open>cid\<close> that replaced the image \<open>img\<close> and keeps \<open>keep\<close> of them.\<close>

definition replaced :: "string \<Rightarrow> int \<Rightarrow> string \<Rightarrow> UpdateExecutionOutcome" where
  "replaced cid keep img = (sampleOutcome cid ''d1'' ''updated'')\<lparr>tg_CleanupKeep := keep, oc_PreviousImage := img\<rparr>"

definition cleanupAfter :: "UpdateExecutionOutcome list list \<Rightarrow> cleanupState" where
  "cleanupAfter runs = fold (\<lambda>outcomes st. snd (queueAndProcessImageCleanup quietEnv ''h'' outcomes st)) runs emptyQueue"


text \<open>
  Two ways an image inside a retention window is still given up.  An image that is queued
  again keeps the creation time of its first queueing, so with one image to keep, a container
  that goes through the images A, B, C, A and on has the image it just left retired at once,
  while the older C is kept.  And the window is per target: two containers that both left the
  image A, one keeping two images and one keeping none, have A retired although it is the only
  candidate in the first one's window.
\<close>

theorem cleanup_retention_gaps:
  "cu_asked (cleanupAfter [[replaced ''c'' 1 ''A''], [replaced ''c'' 1 ''B''], [replaced ''c'' 1 ''C''], [replaced ''c'' 1 ''A'']]) =
     [(''A'', True), (''B'', True), (''A'', True)] \<and>
   cu_asked (cleanupAfter [[replaced ''c'' 2 ''A'', replaced ''d'' 0 ''A'']]) = [(''A'', True)]"
  by (intro conjI; code_simp)

end
