(* ===== verification/Update_Automation.thy ===== *)
theory Update_Automation
  imports Image_Cleanup
begin

section \<open>Scheduled scans and automatic updates\<close>

text \<open>
  Models \<open>AutomationService\<close> of \<open>core/internal/docker/updater/automation.go\<close>: one run with its
  inventory, scan, version discovery, store and execution; the scheduled jobs of a host; and the
  coalescing of refresh requests.

  The providers the service is built from (inventory, scan, discovery, executor, image cleaner)
  are arguments, as they are function values in the source.  Each database call of a run has
  its own answer, and each reading of the clock its own value.
\<close>

datatype db_call =
  DbPrune | DbSave | DbControl | DbStackBlock string | DbBlock string | DbExecControl | DbBegin | DbSaveExecution | DbSaveError

datatype moment =
  MStarted | MSchedule nat | MCompleted | MCreated | MExecStarted | MExecCreated | MExecCompleted | MExecSaved

datatype automation_event =
  Executed string "UpdateExecutionTarget list"
| ScanNotified UpdateScanRun "ContainerUpdateCheck list"
| ExecutionNotified UpdateExecutionRun "UpdateExecutionOutcome list"

record automation_env =
  ae_inventory :: "string \<Rightarrow> string + UpdateEnrollment list"
  ae_scan :: "string \<Rightarrow> string list \<Rightarrow> string + ContainerUpdateCheck list"
  ae_discover :: "(string \<Rightarrow> VersionDiscoveryTarget list \<Rightarrow> VersionDiscoveryResult list) option"
  ae_execute :: "(string \<Rightarrow> UpdateExecutionTarget list \<Rightarrow> UpdateExecutionOutcome list) option"
  ae_cleanup :: cleanup_env
  ae_cron :: cron
  ae_now :: "moment \<Rightarrow> gotime"
  ae_fault :: "db_call \<Rightarrow> string option"

record automation =
  au_db :: scanDB
  au_queue :: cleanupState
  au_running :: "string list"
  au_events :: "automation_event list"

subsection \<open>Version discovery for the rows of a scan\<close>

definition lastRow :: "string \<Rightarrow> UpdateEnrollment list \<Rightarrow> UpdateEnrollment option" where
  "lastRow cid rows = find (\<lambda>r. enr_ContainerID r = cid) (rev rows)"

definition enrichCheck ::
  "UpdateEnrollment list \<Rightarrow> VersionDiscoveryResult list \<Rightarrow> ContainerUpdateCheck \<Rightarrow> ContainerUpdateCheck" where
  "enrichCheck enabled results c =
     (case lastRow (chk_ContainerID c) enabled of
        None \<Rightarrow> c
      | Some row \<Rightarrow>
          (let c1 = c\<lparr>chk_VersionPolicy := enr_VersionPolicy row\<rparr> in
           case find (\<lambda>r. vr_ContainerID r = chk_ContainerID c) (rev results) of
             Some r \<Rightarrow> c1\<lparr>chk_CurrentTag := vr_CurrentTag r, chk_LatestTag := vr_LatestTag r,
                          chk_VersionAvailable := vr_Available r, chk_VersionReason := vr_Reason r\<rparr>
           | None \<Rightarrow> c1\<lparr>chk_VersionReason := ''version discovery returned no result''\<rparr>))"

definition enrichVersionDiscovery ::
  "automation_env \<Rightarrow> string \<Rightarrow> UpdateEnrollment list \<Rightarrow> string list \<Rightarrow> ContainerUpdateCheck list \<Rightarrow> ContainerUpdateCheck list" where
  "enrichVersionDiscovery env host rows ids checks =
     (case ae_discover env of
        None \<Rightarrow> checks
      | Some discover \<Rightarrow>
          if checks = [] then checks
          else
            let enabled = filter (\<lambda>r. enr_ContainerID r \<in> set ids \<and> enr_VersionPolicy r \<noteq> VersionPolicyOff \<and> validVersionPolicy (enr_VersionPolicy r)) rows;
                targets = map (\<lambda>r. \<lparr>vt_ContainerID = enr_ContainerID r, vt_Image = enr_Image r, vt_Policy = enr_VersionPolicy r,
                                    vt_AllowPrerelease = enr_VersionPrerelease r\<rparr>) enabled
            in if targets = [] then checks
               else map (enrichCheck enabled (discover host targets)) checks)"

subsection \<open>Which updates a run executes\<close>

text \<open>The stacks with a member whose breaker is closed for its digest, or could not be read.\<close>

definition blockedStacks :: "automation_env \<Rightarrow> string \<Rightarrow> UpdateEnrollment list \<Rightarrow> scanDB \<Rightarrow> ContainerUpdateCheck list \<Rightarrow> string list" where
  "blockedStacks env host rows db checks =
     concat (map (\<lambda>c.
       if chk_Status c \<noteq> ContainerUpdateAvailable then []
       else case lastRow (chk_ContainerID c) rows of
         None \<Rightarrow> []
       | Some row \<Rightarrow>
           if enr_PolicyTarget row \<noteq> UpdateTargetStack \<or> enr_StackKey row = [] then []
           else case ExecutionBlock (ae_fault env (DbStackBlock (chk_ContainerID c))) host (chk_ContainerID c) (chk_RemoteDigest c) db of
             Inl _ \<Rightarrow> [enr_StackKey row]
           | Inr blk \<Rightarrow> if blk then [enr_StackKey row] else []) checks)"

definition executionTarget :: "UpdateEnrollment \<Rightarrow> ContainerUpdateCheck \<Rightarrow> UpdateExecutionTarget" where
  "executionTarget row c =
     \<lparr>tg_ContainerID = chk_ContainerID c, tg_ContainerName = chk_ContainerName c, tg_Image = chk_Image c,
      tg_State = enr_State row, tg_RemoteDigest = chk_RemoteDigest c, tg_RollbackEnabled = enr_Rollback row,
      tg_TargetType = (if enr_PolicyTarget row = UpdateTargetStack then UpdateTargetStack else UpdateTargetContainer),
      tg_StackName = enr_StackName row, tg_StackKey = enr_StackKey row, tg_ServiceName = enr_ServiceName row,
      tg_DependsOn = enr_DependsOn row, tg_CleanupEnabled = enr_CleanupEnabled row, tg_CleanupKeep = enr_CleanupKeep row\<rparr>"

definition targetOf ::
  "automation_env \<Rightarrow> string \<Rightarrow> UpdateEnrollment list \<Rightarrow> scanDB \<Rightarrow> string list \<Rightarrow> ContainerUpdateCheck \<Rightarrow> UpdateExecutionTarget list" where
  "targetOf env host rows db stacks c =
     (if chk_Status c \<noteq> ContainerUpdateAvailable then []
      else case lastRow (chk_ContainerID c) rows of
        None \<Rightarrow> []
      | Some row \<Rightarrow>
          if \<not> enr_Enrolled row \<or> enr_Source row = ''protected'' \<or> enr_Source row = ''disabled-label'' then []
          else if enr_PolicyTarget row = UpdateTargetStack \<and> enr_StackKey row \<in> set stacks then []
          else case ExecutionBlock (ae_fault env (DbBlock (chk_ContainerID c))) host (chk_ContainerID c) (chk_RemoteDigest c) db of
            Inl _ \<Rightarrow> []
          | Inr blk \<Rightarrow> if blk then [] else [executionTarget row c])"

definition executionTargets ::
  "automation_env \<Rightarrow> string \<Rightarrow> UpdateEnrollment list \<Rightarrow> scanDB \<Rightarrow> ContainerUpdateCheck list \<Rightarrow> UpdateExecutionTarget list" where
  "executionTargets env host rows db checks =
     concat (map (targetOf env host rows db (blockedStacks env host rows db checks)) checks)"

definition executionGroupKey :: "UpdateExecutionTarget \<Rightarrow> string" where
  "executionGroupKey t =
     (if tg_TargetType t = UpdateTargetStack \<and> tg_StackKey t \<noteq> [] then ''stack:'' @ tg_StackKey t else ''container:'' @ tg_ContainerID t)"

fun limitLoop :: "int \<Rightarrow> string list \<Rightarrow> UpdateExecutionTarget list \<Rightarrow> UpdateExecutionTarget list" where
  "limitLoop maximum groups [] = []"
| "limitLoop maximum groups (t # ts) =
     (let key = executionGroupKey t in
      if key \<in> set groups then t # limitLoop maximum groups ts
      else if int (length groups) \<ge> maximum then limitLoop maximum groups ts
      else t # limitLoop maximum (key # groups) ts)"

definition limitExecutionGroups :: "UpdateExecutionTarget list \<Rightarrow> int \<Rightarrow> UpdateExecutionTarget list" where
  "limitExecutionGroups targets maximum = (if maximum \<le> 0 then targets else limitLoop maximum [] targets)"

definition countOutcome :: "UpdateExecutionOutcome \<Rightarrow> UpdateExecutionRun \<Rightarrow> UpdateExecutionRun" where
  "countOutcome o1 run =
     (if oc_State o1 = ExecutionUpdated then run\<lparr>ex_Updated := Suc (ex_Updated run)\<rparr>
      else if oc_State o1 = ExecutionCurrent then run\<lparr>ex_Current := Suc (ex_Current run)\<rparr>
      else if oc_State o1 = ExecutionRolledBack then run\<lparr>ex_RolledBack := Suc (ex_RolledBack run)\<rparr>
      else if oc_State o1 = ExecutionSkipped then run\<lparr>ex_Skipped := Suc (ex_Skipped run)\<rparr>
      else run\<lparr>ex_Failed := Suc (ex_Failed run)\<rparr>)"

definition missingOutcome :: "UpdateExecutionTarget \<Rightarrow> UpdateExecutionOutcome" where
  "missingOutcome t =
     UpdateExecutionTarget.extend t
       (UpdateExecutionOutcome.fields ExecutionFailed ''automatic update executor returned no outcome'' [] [])"

definition missingOutcomes :: "UpdateExecutionTarget list \<Rightarrow> UpdateExecutionOutcome list \<Rightarrow> UpdateExecutionOutcome list" where
  "missingOutcomes targets outcomes = map missingOutcome (filter (\<lambda>t. tg_ContainerID t \<notin> set (map tg_ContainerID outcomes)) targets)"

definition newExecutionRun :: "automation_env \<Rightarrow> UpdateScanRun \<Rightarrow> UpdateExecutionTarget list \<Rightarrow> UpdateExecutionRun" where
  "newExecutionRun env scanRun targets =
     \<lparr>ex_ID = 0, ex_CreatedAt = 0, ex_StartedAt = ae_now env MExecStarted, ex_CompletedAt = None, ex_Host = su_Host scanRun,
      ex_Schedule = (if su_Schedule scanRun = [] then ''manual'' else su_Schedule scanRun), ex_ScanRunID = su_ID scanRun,
      ex_Targets = length targets, ex_Updated = 0, ex_Current = 0, ex_RolledBack = 0, ex_Failed = 0, ex_Skipped = 0, ex_Error = []\<rparr>"

text \<open>The part of \<open>executeAvailable\<close> from the executor's call on.\<close>

definition executeTargets ::
  "automation_env \<Rightarrow> (string \<Rightarrow> UpdateExecutionTarget list \<Rightarrow> UpdateExecutionOutcome list) \<Rightarrow> UpdateScanRun \<Rightarrow>
   UpdateExecutionTarget list \<Rightarrow> automation \<Rightarrow> automation" where
  "executeTargets env execute scanRun targets st =
     (case BeginExecution (ae_fault env DbBegin) (ae_now env MExecCreated) (newExecutionRun env scanRun targets) (au_db st) of
        (Inl _, db1) \<Rightarrow> st\<lparr>au_db := db1\<rparr>
      | (Inr run0, db1) \<Rightarrow>
          (let host = su_Host scanRun;
               given = execute host targets;
               missing = missingOutcomes targets given;
               outcomes = given @ missing;
               run1 = fold countOutcome given run0;
               run2 = run1\<lparr>ex_Failed := ex_Failed run1 + length missing, ex_CompletedAt := Some (ae_now env MExecCompleted)\<rparr>;
               st1 = st\<lparr>au_db := db1, au_events := au_events st @ [Executed host targets]\<rparr>
           in case SaveExecution (ae_fault env DbSaveExecution) (ae_now env MExecSaved) run2 outcomes db1 of
                (Inl _, db2) \<Rightarrow> st1\<lparr>au_db := db2\<rparr>
              | (Inr run3, db2) \<Rightarrow>
                  st1\<lparr>au_db := db2,
                      au_queue := snd (queueAndProcessImageCleanup (ae_cleanup env) host outcomes (au_queue st)),
                      au_events := au_events st1 @ [ExecutionNotified run3 outcomes]\<rparr>))"

text \<open>\<open>Control\<close>: the answer of the database for the control row.\<close>

definition Control :: "string option \<Rightarrow> string \<Rightarrow> scanDB \<Rightarrow> string + UpdateAutomationControl" where
  "Control fault host db = (case fault of Some e \<Rightarrow> Inl e | None \<Rightarrow> Inr (controlRow host db))"

definition executeAvailable ::
  "automation_env \<Rightarrow> (string \<Rightarrow> UpdateExecutionTarget list \<Rightarrow> UpdateExecutionOutcome list) \<Rightarrow> UpdateScanRun \<Rightarrow>
   UpdateEnrollment list \<Rightarrow> ContainerUpdateCheck list \<Rightarrow> automation \<Rightarrow> automation" where
  "executeAvailable env execute scanRun rows checks st =
     (let targets0 = executionTargets env (su_Host scanRun) rows (au_db st) checks in
      if targets0 = [] then st
      else case Control (ae_fault env DbExecControl) (su_Host scanRun) (au_db st) of
        Inl _ \<Rightarrow> st
      | Inr control \<Rightarrow>
          (let targets = limitExecutionGroups targets0 (ac_MaxGroupsPerRun control)
           in if targets = [] then st else executeTargets env execute scanRun targets st))"

definition checksWithoutAvailable :: "ContainerUpdateCheck list \<Rightarrow> ContainerUpdateCheck list" where
  "checksWithoutAvailable checks =
     concat (map (\<lambda>c. if chk_Status c \<noteq> ContainerUpdateAvailable then [c]
                      else if chk_VersionAvailable c then [c\<lparr>chk_Status := ContainerUpdateCurrent\<rparr>] else []) checks)"

subsection \<open>One run\<close>

definition scheduleMatches :: "automation_env \<Rightarrow> string \<Rightarrow> nat \<Rightarrow> UpdateEnrollment \<Rightarrow> bool" where
  "scheduleMatches env requested i row \<longleftrightarrow>
     requested = [] \<or> NormalizeUpdateSchedule (ae_cron env) (ae_now env (MSchedule i)) (enr_Schedule row) = Inr requested"

definition runIDs :: "automation_env \<Rightarrow> string \<Rightarrow> UpdateEnrollment list \<Rightarrow> string list" where
  "runIDs env requested rows =
     map (enr_ContainerID \<circ> snd) (filter (\<lambda>(i, row). enr_Enrolled row \<and> scheduleMatches env requested i row) (enumerate 0 rows))"

definition countCheck :: "ContainerUpdateCheck \<Rightarrow> UpdateScanRun \<Rightarrow> UpdateScanRun" where
  "countCheck c run0 =
     (let run = (if chk_VersionAvailable c then run0\<lparr>su_Versions := Suc (su_Versions run0)\<rparr> else run0)
      in case chk_Status c of
           ContainerUpdateAvailable \<Rightarrow> run\<lparr>su_Available := Suc (su_Available run)\<rparr>
         | ContainerUpdateCurrent \<Rightarrow> run\<lparr>su_Current := Suc (su_Current run)\<rparr>
         | ContainerUpdateSkipped \<Rightarrow> run\<lparr>su_Skipped := Suc (su_Skipped run)\<rparr>
         | ContainerUpdateError \<Rightarrow> run\<lparr>su_Errors := Suc (su_Errors run)\<rparr>
         | ContainerUpdateUnset \<Rightarrow> run)"

type_synonym run_result = "UpdateScanRun \<times> ContainerUpdateCheck list \<times> string option"

definition newScanRun :: "automation_env \<Rightarrow> string \<Rightarrow> string \<Rightarrow> string \<Rightarrow> UpdateScanRun" where
  "newScanRun env host requested trigger =
     \<lparr>su_ID = 0, su_CreatedAt = 0, su_StartedAt = ae_now env MStarted, su_CompletedAt = None, su_Host = host, su_Trigger = trigger,
      su_Schedule = requested, su_Targets = 0, su_Available = 0, su_Current = 0, su_Skipped = 0, su_Errors = 0, su_Versions = 0, su_Error = []\<rparr>"

text \<open>\<open>notifyScan\<close>; a notification that fails is only logged.\<close>

definition notifyScan :: "UpdateScanRun \<Rightarrow> ContainerUpdateCheck list \<Rightarrow> automation \<Rightarrow> automation" where
  "notifyScan run checks st = st\<lparr>au_events := au_events st @ [ScanNotified run checks]\<rparr>"

text \<open>The end of a run whose inventory, pruning and scan succeeded.\<close>

definition finishRun ::
  "automation_env \<Rightarrow> string \<Rightarrow> string \<Rightarrow> UpdateEnrollment list \<Rightarrow> UpdateScanRun \<Rightarrow> ContainerUpdateCheck list \<Rightarrow> automation \<Rightarrow> run_result \<times> automation" where
  "finishRun env host trigger rows run0 checks st =
     (let run1 = fold countCheck checks (run0\<lparr>su_CompletedAt := Some (ae_now env MCompleted)\<rparr>) in
      case scanSave (ae_fault env DbSave) (ae_now env MCreated) run1 checks (au_db st) of
        (Inl e, db1) \<Rightarrow> ((run1, checks, Some e), st\<lparr>au_db := db1\<rparr>)
      | (Inr run2, db1) \<Rightarrow>
          (let st1 = st\<lparr>au_db := db1\<rparr> in
           case ae_execute env of
             None \<Rightarrow> ((run2, checks, None), notifyScan run2 checks st1)
           | Some execute \<Rightarrow>
               if trigger = ''scheduled'' \<or> trigger = ''manual-execution'' then
                 (case Control (ae_fault env DbControl) host db1 of
                    Inl e \<Rightarrow> ((run2, checks, Some e), st1)
                  | Inr control \<Rightarrow>
                      if ac_Paused control then ((run2, checks, None), notifyScan run2 checks st1)
                      else ((run2, checks, None),
                            notifyScan run2 (checksWithoutAvailable checks) (executeAvailable env execute run2 rows checks st1)))
               else ((run2, checks, None), notifyScan run2 checks st1)))"

definition failRun :: "automation_env \<Rightarrow> UpdateScanRun \<Rightarrow> string \<Rightarrow> automation \<Rightarrow> run_result \<times> automation" where
  "failRun env run0 err st =
     (let run1 = run0\<lparr>su_CompletedAt := Some (ae_now env MCompleted), su_Error := err, su_Errors := Suc (su_Errors run0)\<rparr> in
      case scanSave (ae_fault env DbSaveError) (ae_now env MCreated) run1 [] (au_db st) of
        (Inl e, db1) \<Rightarrow> ((run1, [], Some (err @ [newline] @ e)), st\<lparr>au_db := db1\<rparr>)
      | (Inr run2, db1) \<Rightarrow> ((run2, [], Some err), notifyScan run2 [] (st\<lparr>au_db := db1\<rparr>)))"

definition scanTargets ::
  "automation_env \<Rightarrow> string \<Rightarrow> UpdateEnrollment list \<Rightarrow> string list \<Rightarrow> string + ContainerUpdateCheck list" where
  "scanTargets env host rows ids =
     (if ids = [] then Inr []
      else case ae_scan env host ids of Inl e \<Rightarrow> Inl e | Inr checks \<Rightarrow> Inr (enrichVersionDiscovery env host rows ids checks))"

text \<open>\<open>run\<close>, with the guard against a second run of the host; the deferred release is the last step.\<close>

definition runBody :: "automation_env \<Rightarrow> string \<Rightarrow> string \<Rightarrow> string \<Rightarrow> automation \<Rightarrow> run_result \<times> automation" where
  "runBody env host requested trigger st =
     (let run = newScanRun env host requested trigger in
      case ae_inventory env host of
        Inl e \<Rightarrow> failRun env run e st
      | Inr rows \<Rightarrow>
          (let ids = runIDs env requested rows;
               active = map enr_ContainerID (filter enr_Enrolled rows);
               known = map enr_ContainerID rows;
               run1 = run\<lparr>su_Targets := length ids\<rparr>
           in case PruneResults (ae_fault env DbPrune) host active known (au_db st) of
                (Some e, db1) \<Rightarrow> failRun env run1 (''prune stale image scan results: '' @ e) (st\<lparr>au_db := db1\<rparr>)
              | (None, db1) \<Rightarrow>
                  (case scanTargets env host rows ids of
                     Inl e \<Rightarrow> failRun env run1 e (st\<lparr>au_db := db1\<rparr>)
                   | Inr checks \<Rightarrow> finishRun env host trigger rows run1 checks (st\<lparr>au_db := db1\<rparr>))))"

definition automationRun :: "automation_env \<Rightarrow> string \<Rightarrow> string \<Rightarrow> string \<Rightarrow> automation \<Rightarrow> run_result \<times> automation" where
  "automationRun env host requested trigger st =
     (if host \<in> set (au_running st)
      then ((newScanRun env host requested trigger, [], Some (''an image update scan is already running for host '' @ quoted host)), st)
      else case runBody env host requested trigger (st\<lparr>au_running := host # au_running st\<rparr>) of
        (res, st1) \<Rightarrow> (res, st1\<lparr>au_running := removeAll host (au_running st1)\<rparr>))"

definition RunNow :: "automation_env \<Rightarrow> string \<Rightarrow> automation \<Rightarrow> run_result \<times> automation" where
  "RunNow env host st = automationRun env host [] ''manual'' st"

definition emptyScanRun :: UpdateScanRun where
  "emptyScanRun = \<lparr>su_ID = 0, su_CreatedAt = 0, su_StartedAt = 0, su_CompletedAt = None, su_Host = [], su_Trigger = [], su_Schedule = [],
     su_Targets = 0, su_Available = 0, su_Current = 0, su_Skipped = 0, su_Errors = 0, su_Versions = 0, su_Error = []\<rparr>"

definition RunAutomaticNow :: "automation_env \<Rightarrow> string option \<Rightarrow> string \<Rightarrow> automation \<Rightarrow> run_result \<times> automation" where
  "RunAutomaticNow env fault host st =
     (case Control fault host (au_db st) of
        Inl e \<Rightarrow> ((emptyScanRun, [], Some e), st)
      | Inr control \<Rightarrow>
          if ac_Paused control then ((emptyScanRun, [], Some ''automatic updates are paused for this host''), st)
          else automationRun env host [] ''manual-execution'' st)"

subsection \<open>The limit on groups per run\<close>

lemma firsts_Cons: "firsts (k # ks) = k # removeAll k (firsts ks)"
proof (induction ks rule: rev_induct)
  case Nil
  then show ?case by (simp add: firsts_def)
next
  case (snoc x ks)
  have "firsts (k # ks @ [x]) = (if x \<in> set (k # ks) then firsts (k # ks) else firsts (k # ks) @ [x])"
    using firsts_snoc [of "k # ks" x] by simp
  then show ?case using snoc by (auto simp: firsts_snoc)
qed

text \<open>The groups the loop lets in: those admitted already and the first new ones up to the limit.\<close>

lemma limitLoop_spec:
  assumes "distinct groups" "int (length groups) \<le> maximum"
  shows "limitLoop maximum groups ts =
    filter (\<lambda>t. executionGroupKey t \<in> set groups \<union> set (take (nat maximum - length groups)
      (filter (\<lambda>k. k \<notin> set groups) (firsts (map executionGroupKey ts))))) ts"
  using assms
proof (induction ts arbitrary: groups)
  case (Cons t ts)
  let ?k = "executionGroupKey t" and ?ks = "map executionGroupKey ts" and ?n = "nat maximum - length groups"
  show ?case
  proof (cases "?k \<in> set groups")
    case True
    then have "filter (\<lambda>k. k \<notin> set groups) (firsts (?k # ?ks)) = filter (\<lambda>k. k \<notin> set groups) (firsts ?ks)"
      by (auto simp: firsts_Cons removeAll_filter_not_eq intro: filter_cong)
    then show ?thesis using Cons True by simp
  next
    case new: False
    show ?thesis
    proof (cases "int (length groups) \<ge> maximum")
      case True
      then have "?n = 0" by simp
      then show ?thesis using Cons.IH [OF Cons.prems] True new by simp
    next
      case False
      let ?g = "?k # groups"
      have n: "?n = Suc (nat maximum - length ?g)" using False by (simp add: nat_diff_distrib' Suc_diff_Suc)
      have rest: "filter (\<lambda>k. k \<notin> set ?g) (firsts ?ks) = filter (\<lambda>k. k \<notin> set groups) (removeAll ?k (firsts ?ks))"
        by (auto simp: removeAll_filter_not_eq intro: filter_cong)
      have "take ?n (filter (\<lambda>k. k \<notin> set groups) (firsts (?k # ?ks))) =
          ?k # take (nat maximum - length ?g) (filter (\<lambda>k. k \<notin> set ?g) (firsts ?ks))"
        unfolding n rest firsts_Cons using new by simp
      moreover have "limitLoop maximum ?g ts = filter (\<lambda>t. executionGroupKey t \<in> set ?g \<union> set (take (nat maximum - length ?g)
          (filter (\<lambda>k. k \<notin> set ?g) (firsts ?ks)))) ts"
        by (rule Cons.IH) (use Cons.prems new False in auto)
      ultimately show ?thesis using new False by (simp add: Let_def disj_ac)
    qed
  qed
qed simp

text \<open>
  The limit on groups per run keeps whole groups.  With a positive limit the loop keeps
  exactly the targets of the first groups of the list, as many as the limit says, in their
  order; a stack is one group, so it is never cut.  Without a limit every target is kept.
\<close>

theorem limitExecutionGroups_whole_groups:
  "limitExecutionGroups ts maximum =
     (if maximum \<le> 0 then ts
      else filter (\<lambda>t. executionGroupKey t \<in> set (take (nat maximum) (firsts (map executionGroupKey ts)))) ts)"
  using limitLoop_spec [of "[]" maximum ts] by (auto simp: limitExecutionGroups_def)

lemma limitLoop_subset: "set (limitLoop maximum groups ts) \<subseteq> set ts"
  by (induction ts arbitrary: groups) (auto simp: Let_def)

lemma limitExecutionGroups_subset: "set (limitExecutionGroups ts maximum) \<subseteq> set ts"
  using limitLoop_subset by (auto simp: limitExecutionGroups_def)

subsection \<open>What a run may execute\<close>

lemma PruneResults_frame:
  "db_controls (snd (PruneResults fault host active known db)) = db_controls db"
  by (simp add: PruneResults_def Let_def split: option.split)

lemma PruneResults_blocked:
  assumes "cid \<in> set known"
  shows "blocked h cid digest (db_blocks (snd (PruneResults fault host active known db))) \<longleftrightarrow> blocked h cid digest (db_blocks db)"
proof -
  have "blocked h cid digest (delete_where (\<lambda>b. bl_Host b = host \<and> bl_ContainerID b \<notin> set known) (db_blocks db)) \<longleftrightarrow> blocked h cid digest (db_blocks db)"
    using assms by (intro blocked_delete) (auto simp: blockKey_def)
  then show ?thesis by (simp add: PruneResults_def Let_def split: option.split)
qed

lemma scanSave_frame:
  "db_controls (snd (scanSave fault now run checks db)) = db_controls db"
  "db_blocks (snd (scanSave fault now run checks db)) = db_blocks db"
  "scanSave fault now run checks db = (Inr run', db') \<Longrightarrow> su_Host run' = su_Host run"
  by (auto simp: scanSave_def createScanRun_def pruneScanRuns_def Let_def split: option.splits list.splits)

lemma countCheck_host: "su_Host (fold countCheck checks run) = su_Host run"
  by (induction checks arbitrary: run) (auto simp: countCheck_def Let_def split: ContainerUpdateStatus.split)

lemma ExecutionBlock_free: "ExecutionBlock fault host cid digest db = Inr False \<Longrightarrow> \<not> blocked host cid digest (db_blocks db)"
  by (auto simp: ExecutionBlock_def blocked_def split: option.splits)

text \<open>The rule for one target: an available check of an enrolled, unprotected row that is not blocked.\<close>

definition executable :: "string \<Rightarrow> UpdateEnrollment list \<Rightarrow> ContainerUpdateCheck list \<Rightarrow> UpdateExecutionBlock list \<Rightarrow> UpdateExecutionTarget \<Rightarrow> bool" where
  "executable host rows checks blocks t \<longleftrightarrow>
     (\<exists>c \<in> set checks. \<exists>row. lastRow (chk_ContainerID c) rows = Some row \<and> t = executionTarget row c \<and>
        chk_Status c = ContainerUpdateAvailable \<and> enr_Enrolled row \<and> enr_Source row \<notin> {''protected'', ''disabled-label''} \<and>
        \<not> blocked host (chk_ContainerID c) (chk_RemoteDigest c) blocks)"

text \<open>The rule for a stack: no available member of it is blocked.\<close>

definition stack_free :: "string \<Rightarrow> UpdateEnrollment list \<Rightarrow> ContainerUpdateCheck list \<Rightarrow> UpdateExecutionBlock list \<Rightarrow> UpdateExecutionTarget \<Rightarrow> bool" where
  "stack_free host rows checks blocks t \<longleftrightarrow>
     (tg_TargetType t = UpdateTargetStack \<and> tg_StackKey t \<noteq> [] \<longrightarrow>
       (\<forall>c \<in> set checks. \<forall>row. chk_Status c = ContainerUpdateAvailable \<and> lastRow (chk_ContainerID c) rows = Some row \<and>
          enr_PolicyTarget row = UpdateTargetStack \<and> enr_StackKey row = tg_StackKey t \<longrightarrow>
          \<not> blocked host (chk_ContainerID c) (chk_RemoteDigest c) blocks))"

lemma targetOf_member:
  "t \<in> set (targetOf env host rows db stacks c) \<longleftrightarrow>
     chk_Status c = ContainerUpdateAvailable \<and> (\<exists>row. lastRow (chk_ContainerID c) rows = Some row \<and> t = executionTarget row c \<and>
       enr_Enrolled row \<and> enr_Source row \<notin> {''protected'', ''disabled-label''} \<and>
       \<not> (enr_PolicyTarget row = UpdateTargetStack \<and> enr_StackKey row \<in> set stacks) \<and>
       ExecutionBlock (ae_fault env (DbBlock (chk_ContainerID c))) host (chk_ContainerID c) (chk_RemoteDigest c) db = Inr False)"
  by (cases "lastRow (chk_ContainerID c) rows";
      cases "ExecutionBlock (ae_fault env (DbBlock (chk_ContainerID c))) host (chk_ContainerID c) (chk_RemoteDigest c) db")
    (auto simp: targetOf_def)

lemma blockedStacks_member:
  assumes "c \<in> set checks" "chk_Status c = ContainerUpdateAvailable" "lastRow (chk_ContainerID c) rows = Some row"
    "enr_PolicyTarget row = UpdateTargetStack" "enr_StackKey row \<noteq> []" "blocked host (chk_ContainerID c) (chk_RemoteDigest c) (db_blocks db)"
  shows "enr_StackKey row \<in> set (blockedStacks env host rows db checks)"
proof -
  have "ExecutionBlock fault host (chk_ContainerID c) (chk_RemoteDigest c) db = Inr True \<or>
      isl (ExecutionBlock fault host (chk_ContainerID c) (chk_RemoteDigest c) db)" for fault
    using assms(6) by (cases fault) (auto simp: ExecutionBlock_def blocked_def)
  from this [of "ae_fault env (DbStackBlock (chk_ContainerID c))"] show ?thesis
    unfolding blockedStacks_def set_concat set_map image_image
    by (intro UN_I [OF assms(1)]) (use assms in \<open>auto simp: isl_def\<close>)
qed

lemma executionTargets_allowed:
  assumes "t \<in> set (executionTargets env host rows db checks)"
  shows "executable host rows checks (db_blocks db) t \<and> stack_free host rows checks (db_blocks db) t"
proof -
  let ?stacks = "blockedStacks env host rows db checks"
  obtain c where c: "c \<in> set checks" "t \<in> set (targetOf env host rows db ?stacks c)" using assms by (auto simp: executionTargets_def)
  obtain row where row: "lastRow (chk_ContainerID c) rows = Some row" "t = executionTarget row c" "chk_Status c = ContainerUpdateAvailable"
    "enr_Enrolled row" "enr_Source row \<notin> {''protected'', ''disabled-label''}"
    "\<not> (enr_PolicyTarget row = UpdateTargetStack \<and> enr_StackKey row \<in> set ?stacks)"
    "ExecutionBlock (ae_fault env (DbBlock (chk_ContainerID c))) host (chk_ContainerID c) (chk_RemoteDigest c) db = Inr False"
    using c(2) unfolding targetOf_member by blast
  have "\<not> blocked host (chk_ContainerID c) (chk_RemoteDigest c) (db_blocks db)" by (rule ExecutionBlock_free [OF row(7)])
  then have "executable host rows checks (db_blocks db) t"
    unfolding executable_def by (intro bexI [OF _ c(1)] exI [of _ row] conjI) (rule row(1-5) | assumption)+
  moreover have "stack_free host rows checks (db_blocks db) t" unfolding stack_free_def
  proof (intro impI ballI allI)
    fix c' row'
    assume t: "tg_TargetType t = UpdateTargetStack \<and> tg_StackKey t \<noteq> []" and c': "c' \<in> set checks" and
      r': "chk_Status c' = ContainerUpdateAvailable \<and> lastRow (chk_ContainerID c') rows = Some row' \<and>
        enr_PolicyTarget row' = UpdateTargetStack \<and> enr_StackKey row' = tg_StackKey t"
    have "tg_TargetType t = (if enr_PolicyTarget row = UpdateTargetStack then UpdateTargetStack else UpdateTargetContainer)"
      "tg_StackKey t = enr_StackKey row" unfolding row(2) by (simp_all add: executionTarget_def)
    moreover have "UpdateTargetStack \<noteq> UpdateTargetContainer" by (simp add: UpdateTargetStack_def UpdateTargetContainer_def)
    ultimately have "enr_PolicyTarget row = UpdateTargetStack" "tg_StackKey t = enr_StackKey row" using t by (auto split: if_splits)
    then have nb: "enr_StackKey row' \<notin> set ?stacks" using row(6) r' by simp
    show "\<not> blocked host (chk_ContainerID c') (chk_RemoteDigest c') (db_blocks db)"
    proof
      assume b: "blocked host (chk_ContainerID c') (chk_RemoteDigest c') (db_blocks db)"
      then have "enr_StackKey row' \<in> set ?stacks" using blockedStacks_member [OF c'] r' t by metis
      with nb show False ..
    qed
  qed
  ultimately show ?thesis ..
qed

lemma executeAvailable_events:
  "\<exists>new. au_events (executeAvailable env execute run rows checks st) = au_events st @ new \<and>
     (\<forall>h ts. Executed h ts \<in> set new \<longrightarrow> h = su_Host run \<and> set ts \<subseteq> set (executionTargets env (su_Host run) rows (au_db st) checks))"
proof -
  have "\<exists>new. au_events (executeTargets env execute run ts st) = au_events st @ new \<and>
      (\<forall>h ts'. Executed h ts' \<in> set new \<longrightarrow> h = su_Host run \<and> ts' = ts)" for ts
    unfolding executeTargets_def Let_def by (auto split: prod.split sum.split)
  then show ?thesis unfolding executeAvailable_def Let_def
    using limitExecutionGroups_subset by (auto split: sum.split) blast+
qed

lemma executionTarget_id: "tg_ContainerID (executionTarget row c) = chk_ContainerID c"
  by (simp add: executionTarget_def)

lemma lastRow_known: "lastRow cid rows = Some row \<Longrightarrow> cid \<in> set (map enr_ContainerID rows)"
proof -
  assume "lastRow cid rows = Some row"
  then obtain i where "i < length (rev rows)" "rev rows ! i = row" "enr_ContainerID row = cid"
    unfolding lastRow_def find_Some_iff by blast
  then have "row \<in> set (rev rows)" using nth_mem by metis
  then show ?thesis using \<open>enr_ContainerID row = cid\<close> by auto
qed

lemma allowed_before_prune:
  assumes "executable host rows checks (db_blocks (snd (PruneResults fault host active (map enr_ContainerID rows) db))) t"
  shows "executable host rows checks (db_blocks db) t"
  using assms PruneResults_blocked lastRow_known unfolding executable_def by blast

lemma stack_free_before_prune:
  assumes "stack_free host rows checks (db_blocks (snd (PruneResults fault host active (map enr_ContainerID rows) db))) t"
  shows "stack_free host rows checks (db_blocks db) t"
  using assms PruneResults_blocked lastRow_known unfolding stack_free_def by blast

definition executes :: "string \<Rightarrow> string \<Rightarrow> automation_event list \<Rightarrow> bool" where
  "executes h trigger new \<longleftrightarrow> (\<forall>h' ts. Executed h' ts \<in> set new \<longrightarrow> h' = h \<and> (trigger = ''scheduled'' \<or> trigger = ''manual-execution''))"

lemma failRun_events: "\<exists>new. au_events (snd (failRun env run e st)) = au_events st @ new \<and> (\<forall>h ts. Executed h ts \<notin> set new)"
  by (simp add: failRun_def notifyScan_def Let_def split: prod.split sum.split)

lemma finishRun_events:
  assumes "finishRun env host trigger rows run checks st = (res, st')" "su_Host run = host"
  shows "\<exists>new. au_events st' = au_events st @ new \<and> fst (snd res) = checks \<and> (\<forall>h ts. Executed h ts \<in> set new \<longrightarrow>
    h = host \<and> (trigger = ''scheduled'' \<or> trigger = ''manual-execution'') \<and> \<not> ac_Paused (controlRow host (au_db st)) \<and>
    (\<forall>t \<in> set ts. executable host rows checks (db_blocks (au_db st)) t \<and> stack_free host rows checks (db_blocks (au_db st)) t))"
proof -
  define run1 where "run1 = fold countCheck checks (run\<lparr>su_CompletedAt := Some (ae_now env MCompleted)\<rparr>)"
  obtain r db1 where sv: "scanSave (ae_fault env DbSave) (ae_now env MCreated) run1 checks (au_db st) = (r, db1)" by fastforce
  have h1: "su_Host run1 = host" using assms(2) by (simp add: run1_def countCheck_host)
  have fr: "db_controls db1 = db_controls (au_db st)" "db_blocks db1 = db_blocks (au_db st)"
    using scanSave_frame(1,2) [of "ae_fault env DbSave" "ae_now env MCreated" run1 checks "au_db st"] sv by simp_all
  have ctl: "controlRow host db1 = controlRow host (au_db st)" using fr(1) by (simp add: controlRow_def)
  note def = assms(1) [unfolded finishRun_def Let_def run1_def [symmetric] sv prod.case]
  show ?thesis
  proof (cases r)
    case (Inl e)
    then show ?thesis using def by auto
  next
    case (Inr run2)
    have h2: "su_Host run2 = host" using scanSave_frame(3) sv h1 unfolding Inr by metis
    show ?thesis
    proof (cases "\<exists>execute. ae_execute env = Some execute \<and> (trigger = ''scheduled'' \<or> trigger = ''manual-execution'') \<and>
        Control (ae_fault env DbControl) host db1 = Inr (controlRow host db1) \<and> \<not> ac_Paused (controlRow host db1)")
      case True
      then obtain execute where x: "ae_execute env = Some execute" "trigger = ''scheduled'' \<or> trigger = ''manual-execution''"
        "Control (ae_fault env DbControl) host db1 = Inr (controlRow host db1)" "\<not> ac_Paused (controlRow host db1)" by blast
      let ?st1 = "st\<lparr>au_db := db1\<rparr>"
      obtain new where new: "au_events (executeAvailable env execute run2 rows checks ?st1) = au_events st @ new"
        "\<And>h ts. Executed h ts \<in> set new \<Longrightarrow> h = host \<and> set ts \<subseteq> set (executionTargets env host rows db1 checks)"
        using executeAvailable_events [of env execute run2 rows checks ?st1] h2 by auto
      have res: "res = (run2, checks, None)" "st' = notifyScan run2 (checksWithoutAvailable checks) (executeAvailable env execute run2 rows checks ?st1)"
        using def x Inr by auto
      have "au_events st' = au_events st @ new @ [ScanNotified run2 (checksWithoutAvailable checks)]"
        using new(1) res(2) by (simp add: notifyScan_def)
      moreover have "executable host rows checks (db_blocks (au_db st)) t \<and> stack_free host rows checks (db_blocks (au_db st)) t"
        if "Executed h ts \<in> set new" "t \<in> set ts" for h ts t
        using executionTargets_allowed [of t env host rows db1 checks] new(2) [OF that(1)] that(2) fr(2) by auto
      ultimately show ?thesis using x(2,4) ctl new(2) res(1) by (intro exI [of _ "new @ [ScanNotified run2 (checksWithoutAvailable checks)]"]) auto
    next
      case False
      have c: "Control (ae_fault env DbControl) host db1 = Inr (controlRow host db1) \<or> isl (Control (ae_fault env DbControl) host db1)"
        by (simp add: Control_def split: option.split)
      have "\<exists>new. au_events st' = au_events st @ new \<and> fst (snd res) = checks \<and> (\<forall>h ts. Executed h ts \<notin> set new)"
        using def False c Inr
        by (cases "ae_execute env") (auto simp: notifyScan_def split: if_splits sum.splits)
      then show ?thesis by blast
    qed
  qed
qed


definition sampleRow :: "string \<Rightarrow> UpdateEnrollment" where
  "sampleRow cid =
     \<lparr>enr_ContainerID = cid, enr_ContainerName = cid, enr_Image = ''app:1'', enr_State = ''running'', enr_StackName = [], enr_StackKey = [],
      enr_ServiceName = [], enr_DependsOn = [], enr_Enrolled = True, enr_Source = ''interface'', enr_Reason = [], enr_Schedule = [],
      enr_ScheduleError = [], enr_Rollback = True, enr_CleanupEnabled = False, enr_CleanupKeep = 1, enr_VersionPolicy = VersionPolicyOff,
      enr_VersionPrerelease = False, enr_PolicyTarget = UpdateTargetContainer, enr_PolicyTargetID = cid\<rparr>"

definition sampleCheck :: "string \<Rightarrow> ContainerUpdateCheck" where
  "sampleCheck cid =
     \<lparr>chk_ContainerID = cid, chk_ContainerName = cid, chk_Image = ''app:1'', chk_Status = ContainerUpdateAvailable, chk_CurrentDigest = ''d0'',
      chk_RemoteDigest = ''d1'', chk_Reason = [], chk_CurrentTag = [], chk_LatestTag = [], chk_VersionPolicy = [],
      chk_VersionAvailable = False, chk_VersionReason = []\<rparr>"

definition sampleAutomationEnv :: "(string \<Rightarrow> UpdateExecutionTarget list \<Rightarrow> UpdateExecutionOutcome list) \<Rightarrow> automation_env" where
  "sampleAutomationEnv execute =
     \<lparr>ae_inventory = (\<lambda>_. Inr [sampleRow ''c'']), ae_scan = (\<lambda>_ ids. Inr (map sampleCheck ids)), ae_discover = None,
      ae_execute = Some execute, ae_cleanup = quietEnv, ae_cron = (\<lambda>_. Inl []), ae_now = (\<lambda>_. 1), ae_fault = (\<lambda>_. None)\<rparr>"

definition idleAutomation :: automation where
  "idleAutomation = \<lparr>au_db = emptyDB, au_queue = emptyQueue, au_running = [], au_events = []\<rparr>"

definition updatesAll :: "string \<Rightarrow> UpdateExecutionTarget list \<Rightarrow> UpdateExecutionOutcome list" where
  "updatesAll host targets = map (\<lambda>t. UpdateExecutionTarget.extend t (UpdateExecutionOutcome.fields ExecutionUpdated [] [] [])) targets"


end
