(* ===== verification/Update_Schedules.thy ===== *)
theory Update_Schedules
  imports Update_Automation
begin

section \<open>Scheduled jobs and refreshes\<close>

text \<open>
  Models the two parts of \<open>AutomationService\<close> that keep the scheduler in step with the inventory
  of a host: \<open>ReconcileInventory\<close> with the maps of jobs and targets, and \<open>RefreshHost\<close> with its
  coalescing of requests, as a step relation over the goroutines it starts.
\<close>

subsection \<open>Jobs\<close>

text \<open>
  \<^verbatim>\<open>js_active\<close> is what the cron library runs, by job id; \<^verbatim>\<open>js_jobs\<close> and \<^verbatim>\<open>js_targets\<close> are the maps of
  the service.  Keys are \<open>host\<close>, a zero byte and the schedule.
\<close>

record jobState =
  js_jobs :: "(string, nat) gomap"
  js_targets :: "(string, nat) gomap"
  js_active :: "(nat \<times> string) list"
  js_seq :: nat

definition jobPrefix :: "string \<Rightarrow> string" where
  "jobPrefix host = host @ nul"

definition scheduleOf :: "automation_env \<Rightarrow> nat \<times> UpdateEnrollment \<Rightarrow> string list" where
  "scheduleOf env = (\<lambda>(i, row).
     if \<not> enr_Enrolled row then []
     else case NormalizeUpdateSchedule (ae_cron env) (ae_now env (MSchedule i)) (enr_Schedule row) of Inl _ \<Rightarrow> [] | Inr s \<Rightarrow> [s])"

definition enrolledSchedules :: "automation_env \<Rightarrow> UpdateEnrollment list \<Rightarrow> string list" where
  "enrolledSchedules env rows = concat (map (scheduleOf env) (enumerate 0 rows))"

text \<open>The map \<open>targets\<close>: how many enrolled rows have each schedule.\<close>

definition scheduleTargets :: "string list \<Rightarrow> (string, nat) gomap" where
  "scheduleTargets schedules = map (\<lambda>s. (s, count_list schedules s)) (firsts schedules)"

definition obsoleteKey :: "string \<Rightarrow> (string, nat) gomap \<Rightarrow> string \<Rightarrow> bool" where
  "obsoleteKey prefix targets key \<longleftrightarrow> HasPrefix key prefix \<and> map_of targets (TrimPrefix key prefix) = None"

definition removeJobs :: "string \<Rightarrow> (string, nat) gomap \<Rightarrow> jobState \<Rightarrow> jobState" where
  "removeJobs prefix targets st =
     (let gone = map snd (filter (\<lambda>(key, _). obsoleteKey prefix targets key) (js_jobs st))
      in st\<lparr>js_jobs := filter (\<lambda>(key, _). \<not> obsoleteKey prefix targets key) (js_jobs st),
            js_targets := filter (\<lambda>(key, _). \<not> (obsoleteKey prefix targets key \<and> key \<in> set (map fst (js_jobs st)))) (js_targets st),
            js_active := filter (\<lambda>(i, _). i \<notin> set gone) (js_active st)\<rparr>)"

text \<open>\<^verbatim>\<open>newJob\<close> is the answer of the cron library to a new job: its error, if any.\<close>

fun addJobs :: "(string \<Rightarrow> string option) \<Rightarrow> string \<Rightarrow> (string, nat) gomap \<Rightarrow> jobState \<Rightarrow> string option \<times> jobState" where
  "addJobs newJob prefix [] st = (None, st)"
| "addJobs newJob prefix ((schedule, n) # rest) st =
     (let key = prefix @ schedule; st1 = st\<lparr>js_targets := AList.update key n (js_targets st)\<rparr>
      in if map_of (js_jobs st1) key \<noteq> None then addJobs newJob prefix rest st1
         else case newJob schedule of
           Some e \<Rightarrow> (Some e, st1)
         | None \<Rightarrow>
             (let i = Suc (js_seq st1)
              in addJobs newJob prefix rest
                   (st1\<lparr>js_seq := i, js_jobs := AList.update key i (js_jobs st1), js_active := js_active st1 @ [(i, key)]\<rparr>)))"

definition ReconcileInventory ::
  "automation_env \<Rightarrow> (string \<Rightarrow> string option) \<Rightarrow> string \<Rightarrow> UpdateEnrollment list \<Rightarrow> jobState \<Rightarrow> string option \<times> jobState" where
  "ReconcileInventory env newJob host rows st =
     (let targets = scheduleTargets (enrolledSchedules env rows); prefix = jobPrefix host
      in addJobs newJob prefix targets (removeJobs prefix targets st))"

definition ReconcileHost ::
  "automation_env \<Rightarrow> (string \<Rightarrow> string option) \<Rightarrow> string \<Rightarrow> jobState \<Rightarrow> string option \<times> jobState" where
  "ReconcileHost env newJob host st =
     (case ae_inventory env host of Inl e \<Rightarrow> (Some e, st) | Inr rows \<Rightarrow> ReconcileInventory env newJob host rows st)"

record ScheduledScan =
  ss_Schedule :: string
  ss_NextRun :: gotime
  ss_Targets :: nat

text \<open>The schedules of \<open>State\<close>; \<^verbatim>\<open>nextRun\<close> is what the cron library answers for a job.\<close>

definition scheduledScans :: "(nat \<Rightarrow> string + gotime) \<Rightarrow> string \<Rightarrow> jobState \<Rightarrow> ScheduledScan list" where
  "scheduledScans nextRun host st =
     sort_key ss_NextRun (concat (map (\<lambda>(key, i).
       if \<not> HasPrefix key (jobPrefix host) then []
       else case nextRun i of
         Inl _ \<Rightarrow> []
       | Inr t \<Rightarrow> [\<lparr>ss_Schedule = TrimPrefix key (jobPrefix host), ss_NextRun = t,
                    ss_Targets = (case map_of (js_targets st) key of Some n \<Rightarrow> n | None \<Rightarrow> 0)\<rparr>]) (js_jobs st)))"

subsection \<open>Jobs follow the inventory\<close>

text \<open>The service and the library agree: one active job per key, none beside.\<close>

definition jobs_ok :: "jobState \<Rightarrow> bool" where
  "jobs_ok st \<longleftrightarrow>
     distinct (map fst (js_jobs st)) \<and> distinct (map fst (js_active st)) \<and>
     (\<forall>key i. (key, i) \<in> set (js_jobs st) \<longleftrightarrow> (i, key) \<in> set (js_active st)) \<and>
     (\<forall>(i, _) \<in> set (js_active st). i \<le> js_seq st)"

lemma removeJobs_ok: "jobs_ok st \<Longrightarrow> jobs_ok (removeJobs prefix targets st)"
proof -
  assume ok: "jobs_ok st"
  define ob where "ob = obsoleteKey prefix targets"
  define gone where "gone = map snd (filter (\<lambda>(key, _). ob key) (js_jobs st))"
  have gone: "i \<in> set gone \<longleftrightarrow> ob key" if "(i, key) \<in> set (js_active st)" for i key
  proof -
    have "(key, i) \<in> set (js_jobs st)" using that ok by (simp add: jobs_ok_def)
    moreover have "key' = key" if "(key', i) \<in> set (js_jobs st)" for key'
    proof -
      have "(i, key') \<in> set (js_active st)" using that ok by (simp add: jobs_ok_def)
      then show ?thesis using \<open>(i, key) \<in> set (js_active st)\<close> ok unfolding jobs_ok_def by (metis eq_key_imp_eq_value)
    qed
    moreover have "i \<in> set gone \<longleftrightarrow> (\<exists>key'. (key', i) \<in> set (js_jobs st) \<and> ob key')" by (force simp: gone_def)
    ultimately show ?thesis by blast
  qed
  have "distinct (map fst (filter (\<lambda>(key, _). \<not> ob key) (js_jobs st)))" "distinct (map fst (filter (\<lambda>(i, _). i \<notin> set gone) (js_active st)))"
    using ok by (simp_all add: jobs_ok_def distinct_map_filter)
  moreover have "(key, i) \<in> set (filter (\<lambda>(key, _). \<not> ob key) (js_jobs st)) \<longleftrightarrow> (i, key) \<in> set (filter (\<lambda>(i, _). i \<notin> set gone) (js_active st))" for key i
  proof -
    have "(key, i) \<in> set (js_jobs st) \<longleftrightarrow> (i, key) \<in> set (js_active st)" using ok by (simp add: jobs_ok_def)
    then show ?thesis using gone [of i key] by auto
  qed
  moreover have "\<forall>(i, _) \<in> set (filter (\<lambda>(i, _). i \<notin> set gone) (js_active st)). i \<le> js_seq st"
    using ok unfolding jobs_ok_def by auto
  moreover have "js_jobs (removeJobs prefix targets st) = filter (\<lambda>(key, _). \<not> ob key) (js_jobs st)"
    "js_active (removeJobs prefix targets st) = filter (\<lambda>(i, _). i \<notin> set gone) (js_active st)"
    "js_seq (removeJobs prefix targets st) = js_seq st"
    unfolding removeJobs_def Let_def ob_def gone_def by simp_all
  ultimately show ?thesis unfolding jobs_ok_def by presburger
qed

lemma addJob_ok:
  assumes "jobs_ok st" "map_of (js_jobs st) key = None"
  shows "jobs_ok (st\<lparr>js_targets := tg, js_seq := Suc (js_seq st), js_jobs := AList.update key (Suc (js_seq st)) (js_jobs st),
    js_active := js_active st @ [(Suc (js_seq st), key)]\<rparr>)"
proof -
  have fresh: "key \<notin> fst ` set (js_jobs st)" "\<And>k. (Suc (js_seq st), k) \<notin> set (js_active st)"
    using assms by (auto simp: map_of_eq_None_iff jobs_ok_def)
  have "AList.update key v al = al @ [(key, v)]" if "key \<notin> fst ` set al" for v :: nat and al
    using that by (induction al) auto
  then have "AList.update key (Suc (js_seq st)) (js_jobs st) = js_jobs st @ [(key, Suc (js_seq st))]" using fresh(1) by blast
  then show ?thesis using assms(1) fresh unfolding jobs_ok_def by (auto simp: rev_image_eqI)
qed

lemma addJobs_ok:
  assumes "jobs_ok st" "distinct (map fst ts)" "addJobs newJob prefix ts st = (err, st')"
  shows "jobs_ok st' \<and> (\<forall>key. map_of (js_jobs st) key \<noteq> None \<longrightarrow> map_of (js_jobs st') key = map_of (js_jobs st) key) \<and>
    (\<forall>key. key \<notin> (\<lambda>s. prefix @ s) ` fst ` set ts \<longrightarrow> map_of (js_jobs st') key = map_of (js_jobs st) key \<and> map_of (js_targets st') key = map_of (js_targets st) key) \<and>
    (err = None \<longrightarrow> (\<forall>(s, n) \<in> set ts. map_of (js_jobs st') (prefix @ s) \<noteq> None \<and> map_of (js_targets st') (prefix @ s) = Some n))"
  using assms
proof (induction newJob prefix ts st arbitrary: err st' rule: addJobs.induct)
  case (2 newJob prefix schedule n rest st)
  let ?key = "prefix @ schedule"
  let ?st1 = "st\<lparr>js_targets := AList.update ?key n (js_targets st)\<rparr>"
  have d: "distinct (map fst rest)" "schedule \<notin> fst ` set rest" using 2(4) by auto
  have nk: "?key \<notin> (\<lambda>s. prefix @ s) ` fst ` set rest" using d(2) by auto
  have ok1: "jobs_ok ?st1" using 2(3) by (simp add: jobs_ok_def)
  consider (kept) "map_of (js_jobs ?st1) ?key \<noteq> None" | (failed) e where "map_of (js_jobs ?st1) ?key = None" "newJob schedule = Some e"
    | (new) "map_of (js_jobs ?st1) ?key = None" "newJob schedule = None" by fastforce
  then show ?case
  proof cases
    case kept
    have "addJobs newJob prefix rest ?st1 = (err, st')" using 2(5) kept by (simp add: Let_def)
    note ih = 2(1) [OF refl refl kept ok1 d(1) this]
    show ?thesis using ih kept nk by (auto simp: update_conv')
  next
    case failed
    then have "err = Some e" "st' = ?st1" using 2(5) by (simp_all add: Let_def)
    then show ?thesis using ok1 by (auto simp: update_conv')
  next
    case new
    let ?i = "Suc (js_seq ?st1)"
    let ?st2 = "?st1\<lparr>js_seq := ?i, js_jobs := AList.update ?key ?i (js_jobs ?st1), js_active := js_active ?st1 @ [(?i, ?key)]\<rparr>"
    have ok2: "jobs_ok ?st2" using addJob_ok [OF 2(3), of ?key "AList.update ?key n (js_targets st)"] new(1) by simp
    have "addJobs newJob prefix rest ?st2 = (err, st')" using 2(5) new by (simp add: Let_def)
    note ih = 2(2) [OF refl refl _ new(2) refl ok2 d(1) this]
    show ?thesis using ih new nk by (auto simp: update_conv')
  qed
qed simp

lemma scheduleTargets_keys: "fst ` set (scheduleTargets ss) = set ss" "distinct (map fst (scheduleTargets ss))"
  "map_of (scheduleTargets ss) s = (if s \<in> set ss then Some (count_list ss s) else None)"
  by (auto simp: scheduleTargets_def comp_def image_image map_of_map_restrict)

lemma map_of_filter_key: "map_of (filter (\<lambda>(k, _). P k) al) k = (if P k then map_of al k else None)"
  by (induction al) auto

lemma removeJobs_maps:
  "map_of (js_jobs (removeJobs prefix targets st)) key = (if obsoleteKey prefix targets key then None else map_of (js_jobs st) key)"
  "\<not> obsoleteKey prefix targets key \<Longrightarrow> map_of (js_targets (removeJobs prefix targets st)) key = map_of (js_targets st) key"
  by (simp_all add: removeJobs_def Let_def map_of_filter_key)

text \<open>
  After a reconciliation that reports no error, the jobs of the host are exactly the
  schedules of its enrolled containers, each with the number of containers that have it; a
  schedule that stays keeps its job, a schedule no container has any more loses it, the jobs of
  other hosts are untouched, and the cron library runs exactly the jobs the service knows.
\<close>

theorem ReconcileInventory_jobs_match:
  assumes "jobs_ok st" "ReconcileInventory env newJob host rows st = (None, st')"
  shows "jobs_ok st' \<and>
    (\<forall>s. map_of (js_jobs st') (jobPrefix host @ s) \<noteq> None \<longleftrightarrow> s \<in> set (enrolledSchedules env rows)) \<and>
    (\<forall>s \<in> set (enrolledSchedules env rows). map_of (js_targets st') (jobPrefix host @ s) = Some (count_list (enrolledSchedules env rows) s) \<and>
       (map_of (js_jobs st) (jobPrefix host @ s) \<noteq> None \<longrightarrow> map_of (js_jobs st') (jobPrefix host @ s) = map_of (js_jobs st) (jobPrefix host @ s))) \<and>
    (\<forall>key. \<not> HasPrefix key (jobPrefix host) \<longrightarrow>
       map_of (js_jobs st') key = map_of (js_jobs st) key \<and> map_of (js_targets st') key = map_of (js_targets st) key)"
proof -
  define ss where "ss = enrolledSchedules env rows"
  define prefix where "prefix = jobPrefix host"
  define ts where "ts = scheduleTargets ss"
  define st0 where "st0 = removeJobs prefix ts st"
  have ok0: "jobs_ok st0" unfolding st0_def by (rule removeJobs_ok [OF assms(1)])
  have run: "addJobs newJob prefix ts st0 = (None, st')"
    using assms(2) by (simp add: ReconcileInventory_def Let_def ss_def prefix_def ts_def st0_def)
  note add = addJobs_ok [OF ok0 _ run, unfolded ts_def, OF scheduleTargets_keys(2), folded ts_def, unfolded ts_def scheduleTargets_keys(1)]
  have obs: "obsoleteKey prefix ts (prefix @ s) \<longleftrightarrow> s \<notin> set ss" for s
    by (simp add: obsoleteKey_def ts_def scheduleTargets_keys(3))
  have jobs0: "map_of (js_jobs st0) (prefix @ s) = (if s \<in> set ss then map_of (js_jobs st) (prefix @ s) else None)" for s
    unfolding st0_def removeJobs_maps(1) obs by simp
  have pairs: "(s, count_list ss s) \<in> set (scheduleTargets ss)" if "s \<in> set ss" for s using that by (auto simp: scheduleTargets_def)
  have every: "\<forall>(s, n) \<in> set (scheduleTargets ss). map_of (js_jobs st') (prefix @ s) \<noteq> None \<and> map_of (js_targets st') (prefix @ s) = Some n"
    using add by simp
  have here: "map_of (js_jobs st') (prefix @ s) \<noteq> None \<and> map_of (js_targets st') (prefix @ s) = Some (count_list ss s)" if "s \<in> set ss" for s
    using bspec [OF every pairs [OF that]] by simp
  have "map_of (js_jobs st') (prefix @ s) \<noteq> None \<longleftrightarrow> s \<in> set ss" for s
  proof (cases "s \<in> set ss")
    case True
    then show ?thesis using here by blast
  next
    case False
    then have "map_of (js_jobs st') (prefix @ s) = map_of (js_jobs st0) (prefix @ s)" using add by auto
    then show ?thesis using jobs0 False by simp
  qed
  moreover have "map_of (js_targets st') (prefix @ s) = Some (count_list ss s)" if "s \<in> set ss" for s using here that by blast
  moreover have "map_of (js_jobs st') (prefix @ s) = map_of (js_jobs st) (prefix @ s)" if "s \<in> set ss" "map_of (js_jobs st) (prefix @ s) \<noteq> None" for s
    using add jobs0 that by metis
  moreover have "map_of (js_jobs st') key = map_of (js_jobs st) key \<and> map_of (js_targets st') key = map_of (js_targets st) key"
    if "\<not> HasPrefix key prefix" for key
  proof -
    have "\<not> obsoleteKey prefix ts key" "key \<notin> (\<lambda>s. prefix @ s) ` set ss" using that by (auto simp: obsoleteKey_def)
    then show ?thesis using add removeJobs_maps [of prefix ts] unfolding st0_def by auto
  qed
  ultimately show ?thesis using add unfolding ss_def prefix_def by blast
qed

definition noJobs :: jobState where
  "noJobs = \<lparr>js_jobs = [], js_targets = [], js_active = [], js_seq = 0\<rparr>"

definition hourlyEnv :: automation_env where
  "hourlyEnv = (sampleAutomationEnv updatesAll)\<lparr>ae_cron := sampleCron\<rparr>"

theorem ReconcileInventory_jobs_match_witness:
  "\<exists>st'. ReconcileInventory hourlyEnv (\<lambda>_. None) ''h'' [sampleRow ''c'', sampleRow ''d''] noJobs = (None, st') \<and> jobs_ok st' \<and>
     map_of (js_targets st') (jobPrefix ''h'' @ ''0 4 * * *'') = Some 2"
proof -
  let ?rows = "[sampleRow ''c'', sampleRow ''d'']"
  have ok: "jobs_ok noJobs" by (simp add: jobs_ok_def noJobs_def)
  have "fst (ReconcileInventory hourlyEnv (\<lambda>_. None) ''h'' ?rows noJobs) = None" by code_simp
  then obtain st' where run: "ReconcileInventory hourlyEnv (\<lambda>_. None) ''h'' ?rows noJobs = (None, st')" by (metis prod.collapse)
  have "enrolledSchedules hourlyEnv ?rows = [''0 4 * * *'', ''0 4 * * *'']" by code_simp
  then show ?thesis using ReconcileInventory_jobs_match [OF ok run] run by auto
qed

subsection \<open>Refresh requests\<close>

text \<open>
  One goroutine per entry of \<^verbatim>\<open>rf_loops\<close>: about to read the inventory, reconciling, or back for
  the lock.  \<^verbatim>\<open>rf_refreshing\<close> and \<^verbatim>\<open>rf_pending\<close> are the two maps under \<open>refreshMu\<close>.  \<^verbatim>\<open>rf_unserved\<close> is
  not in the source: it holds the hosts with a request that no inventory read has started after.
\<close>

datatype loopPhase = LStarting | LReading | LFinished

record refreshState =
  rf_refreshing :: "string list"
  rf_pending :: "string list"
  rf_loops :: "(string, loopPhase) gomap"
  rf_unserved :: "string list"

definition RefreshHost :: "string \<Rightarrow> refreshState \<Rightarrow> refreshState" where
  "RefreshHost name st =
     (let host = TrimSpace name in
      if host = [] then st
      else if host \<in> set (rf_refreshing st)
      then st\<lparr>rf_pending := List.insert host (rf_pending st), rf_unserved := List.insert host (rf_unserved st)\<rparr>
      else st\<lparr>rf_refreshing := host # rf_refreshing st, rf_loops := rf_loops st @ [(host, LStarting)],
              rf_unserved := List.insert host (rf_unserved st)\<rparr>)"

definition setPhase :: "string \<Rightarrow> loopPhase \<Rightarrow> (string, loopPhase) gomap \<Rightarrow> (string, loopPhase) gomap" where
  "setPhase host p loops = map (\<lambda>(h, q). (h, if h = host then p else q)) loops"

text \<open>The goroutine of a host comes back: another round when a request arrived meanwhile, or the end.\<close>

definition refreshAgain :: "string \<Rightarrow> refreshState \<Rightarrow> refreshState" where
  "refreshAgain host st =
     (if host \<in> set (rf_pending st)
      then st\<lparr>rf_pending := removeAll host (rf_pending st), rf_loops := setPhase host LStarting (rf_loops st)\<rparr>
      else st\<lparr>rf_refreshing := removeAll host (rf_refreshing st), rf_loops := filter (\<lambda>(h, _). h \<noteq> host) (rf_loops st)\<rparr>)"

inductive loop_step :: "refreshState \<Rightarrow> refreshState \<Rightarrow> bool" where
  begin_read: "(host, LStarting) \<in> set (rf_loops st) \<Longrightarrow>
    loop_step st (st\<lparr>rf_loops := setPhase host LReading (rf_loops st), rf_unserved := removeAll host (rf_unserved st)\<rparr>)"
| end_read: "(host, LReading) \<in> set (rf_loops st) \<Longrightarrow> loop_step st (st\<lparr>rf_loops := setPhase host LFinished (rf_loops st)\<rparr>)"
| come_back: "(host, LFinished) \<in> set (rf_loops st) \<Longrightarrow> loop_step st (refreshAgain host st)"

inductive refresh_reachable :: "refreshState \<Rightarrow> bool" where
  start: "refresh_reachable \<lparr>rf_refreshing = [], rf_pending = [], rf_loops = [], rf_unserved = []\<rparr>"
| request: "refresh_reachable st \<Longrightarrow> refresh_reachable (RefreshHost name st)"
| step: "refresh_reachable st \<Longrightarrow> loop_step st st' \<Longrightarrow> refresh_reachable st'"

lemma loop_step_cases [consumes 1, case_names begin_read end_read come_back]:
  assumes "loop_step st st'"
  obtains host where "st' = st\<lparr>rf_loops := setPhase host LReading (rf_loops st), rf_unserved := removeAll host (rf_unserved st)\<rparr>"
      "(host, LStarting) \<in> set (rf_loops st)"
    | host where "st' = st\<lparr>rf_loops := setPhase host LFinished (rf_loops st)\<rparr>" "(host, LReading) \<in> set (rf_loops st)"
    | host where "st' = refreshAgain host st" "(host, LFinished) \<in> set (rf_loops st)"
  using assms by (cases rule: loop_step.cases) blast+

definition refresh_inv :: "refreshState \<Rightarrow> bool" where
  "refresh_inv st \<longleftrightarrow>
     distinct (map fst (rf_loops st)) \<and> fst ` set (rf_loops st) = set (rf_refreshing st) \<and>
     set (rf_pending st) \<subseteq> set (rf_refreshing st) \<and> distinct (rf_pending st) \<and>
     (\<forall>h \<in> set (rf_unserved st). h \<in> set (rf_pending st) \<or> (h, LStarting) \<in> set (rf_loops st))"

primrec phase_work :: "loopPhase \<Rightarrow> nat" where
  "phase_work LStarting = 3"
| "phase_work LReading = 2"
| "phase_work LFinished = 1"

definition refresh_work :: "refreshState \<Rightarrow> nat" where
  "refresh_work st = (\<Sum>(_, p) \<leftarrow> rf_loops st. phase_work p) + 3 * length (rf_pending st)"

lemma setPhase_keys [simp]: "map fst (setPhase host p loops) = map fst loops" "fst ` set (setPhase host p loops) = fst ` set loops"
  by (simp_all add: setPhase_def comp_def case_prod_unfold image_image)

lemma setPhase_other: "(h, q) \<in> set loops \<Longrightarrow> h \<noteq> host \<Longrightarrow> (h, q) \<in> set (setPhase host p loops)"
  by (force simp: setPhase_def)

lemma setPhase_same: "(host, q) \<in> set loops \<Longrightarrow> (host, p) \<in> set (setPhase host p loops)"
  by (force simp: setPhase_def)

lemma setPhase_work:
  assumes "(host, q) \<in> set loops" "distinct (map fst loops)"
  shows "(\<Sum>(_, r) \<leftarrow> setPhase host p loops. phase_work r) + phase_work q = (\<Sum>(_, r) \<leftarrow> loops. phase_work r) + phase_work p"
  using assms
proof (induction loops)
  case (Cons x loops)
  obtain h r where x: "x = (h, r)" by (cases x)
  show ?case
  proof (cases "h = host")
    case True
    then have "host \<notin> fst ` set loops" using Cons.prems(2) x by auto
    then have "setPhase host p loops = loops" "(host, q) \<notin> set loops"
      unfolding setPhase_def by (auto intro!: map_idI simp: rev_image_eqI)
    then show ?thesis using Cons.prems(1) x True by (auto simp: setPhase_def)
  next
    case False
    then show ?thesis using Cons x by (auto simp: setPhase_def)
  qed
qed simp

lemma filter_work:
  assumes "(host, q) \<in> set loops"
  shows "(\<Sum>(_, r) \<leftarrow> filter (\<lambda>(h, _). h \<noteq> host) loops. phase_work r) + phase_work q \<le> (\<Sum>(_, r) \<leftarrow> loops. phase_work r)"
  using assms by (induction loops) (auto simp: sum_list_filter_le_nat add_le_mono trans_le_add2 case_prod_unfold)

lemma RefreshHost_inv:
  assumes "refresh_inv st"
  shows "refresh_inv (RefreshHost name st)"
proof -
  define host where "host = TrimSpace name"
  consider "host = []" | "host \<noteq> []" "host \<in> set (rf_refreshing st)" | "host \<noteq> []" "host \<notin> set (rf_refreshing st)" by blast
  then show ?thesis
  proof cases
    case 3
    then have "host \<notin> fst ` set (rf_loops st)" using assms by (simp add: refresh_inv_def)
    then show ?thesis using assms 3 unfolding RefreshHost_def host_def [symmetric] Let_def refresh_inv_def by auto
  qed (use assms in \<open>auto simp: RefreshHost_def host_def [symmetric] Let_def refresh_inv_def\<close>)
qed

lemma loop_step_inv:
  assumes "loop_step st st'" "refresh_inv st"
  shows "refresh_inv st'"
  using assms(1)
proof (cases rule: loop_step_cases)
  case (begin_read host)
  have "h \<in> set (rf_pending st) \<or> (h, LStarting) \<in> set (setPhase host LReading (rf_loops st))" if "h \<in> set (removeAll host (rf_unserved st))" for h
    using that assms(2) setPhase_other unfolding refresh_inv_def by auto
  then show ?thesis using begin_read assms(2) by (simp add: refresh_inv_def)
next
  case (end_read host)
  have "(h, LStarting) \<in> set (setPhase host LFinished (rf_loops st))" if "(h, LStarting) \<in> set (rf_loops st)" for h
  proof -
    have "h \<noteq> host"
      using that end_read(2) assms(2) unfolding refresh_inv_def by (metis eq_key_imp_eq_value loopPhase.distinct(1))
    then show ?thesis using setPhase_other that by blast
  qed
  then show ?thesis using end_read assms(2) by (auto simp: refresh_inv_def)
next
  case (come_back host)
  have other: "h \<noteq> host" if "(h, LStarting) \<in> set (rf_loops st)" for h
    using that come_back(2) assms(2) unfolding refresh_inv_def by (metis eq_key_imp_eq_value loopPhase.distinct(3))
  show ?thesis
  proof (cases "host \<in> set (rf_pending st)")
    case True
    have "h \<in> set (removeAll host (rf_pending st)) \<or> (h, LStarting) \<in> set (setPhase host LStarting (rf_loops st))" if "h \<in> set (rf_unserved st)" for h
      using that assms(2) setPhase_same [OF come_back(2)] setPhase_other unfolding refresh_inv_def by (cases "h = host") auto
    then show ?thesis using True come_back(1) assms(2) by (auto simp: refreshAgain_def refresh_inv_def distinct_removeAll)
  next
    case False
    have "h \<in> set (rf_pending st) \<or> (h, LStarting) \<in> set (filter (\<lambda>(h, _). h \<noteq> host) (rf_loops st))" if "h \<in> set (rf_unserved st)" for h
    proof -
      have "h \<in> set (rf_pending st) \<or> (h, LStarting) \<in> set (rf_loops st)" using that assms(2) by (simp add: refresh_inv_def)
      then show ?thesis using other [of h] by auto
    qed
    moreover have "fst ` set (filter (\<lambda>(h, _). h \<noteq> host) (rf_loops st)) = fst ` set (rf_loops st) - {host}" by force
    moreover have "distinct (map fst (filter (\<lambda>(h, _). h \<noteq> host) (rf_loops st)))" using assms(2) by (simp add: refresh_inv_def distinct_map_filter)
    ultimately show ?thesis using False come_back(1) assms(2) by (auto simp: refreshAgain_def refresh_inv_def distinct_removeAll)
  qed
qed

lemma refresh_reachable_inv: "refresh_reachable st \<Longrightarrow> refresh_inv st"
proof (induction rule: refresh_reachable.induct)
  case start
  show ?case by (simp add: refresh_inv_def)
qed (auto intro: RefreshHost_inv loop_step_inv)

lemma loop_step_work:
  assumes "loop_step st st'" "refresh_inv st"
  shows "refresh_work st' < refresh_work st"
  using assms(1)
proof (cases rule: loop_step_cases)
  case (begin_read host)
  then show ?thesis using setPhase_work [of host LStarting "rf_loops st" LReading] assms(2) by (simp add: refresh_work_def refresh_inv_def)
next
  case (end_read host)
  then show ?thesis using setPhase_work [of host LReading "rf_loops st" LFinished] assms(2) by (simp add: refresh_work_def refresh_inv_def)
next
  case (come_back host)
  show ?thesis
  proof (cases "host \<in> set (rf_pending st)")
    case True
    have "length (removeAll host (rf_pending st)) < length (rf_pending st)" by (rule length_removeAll_less [OF True])
    then show ?thesis using True come_back setPhase_work [of host LFinished "rf_loops st" LStarting] assms(2)
      by (simp add: refreshAgain_def refresh_work_def refresh_inv_def)
  next
    case False
    then show ?thesis using come_back filter_work [of host LFinished "rf_loops st"]
      by (simp add: refreshAgain_def refresh_work_def)
  qed
qed

lemma loop_step_enabled: "rf_loops st \<noteq> [] \<Longrightarrow> \<exists>st'. loop_step st st'"
proof -
  assume "rf_loops st \<noteq> []"
  then obtain h p where "(h, p) \<in> set (rf_loops st)" by (metis hd_in_set prod.collapse)
  then show ?thesis by (cases p) (blast intro: loop_step.intros)+
qed

text \<open>
  C33: Refresh requests are coalesced and none is lost.  In every state reachable by requests
  and by the goroutines they start, in any interleaving, a host has at most one goroutine; a
  host whose last request was not yet followed by an inventory read still has a goroutine, so
  when it is idle its schedules reflect an inventory read after its last request.  Without new
  requests the goroutines always have a step to take until none is left, and they take at most
  as many steps as three per goroutine and three per pending request.
\<close>

theorem RefreshHost_coalesces:
  assumes "refresh_reachable st"
  shows "distinct (map fst (rf_loops st)) \<and>
    (\<forall>h. h \<notin> fst ` set (rf_loops st) \<longrightarrow> h \<notin> set (rf_unserved st)) \<and>
    (rf_loops st \<noteq> [] \<longrightarrow> (\<exists>st'. loop_step st st')) \<and>
    (\<forall>st'. loop_step st st' \<longrightarrow> refresh_work st' < refresh_work st) \<and>
    refresh_work st \<le> 3 * length (rf_loops st) + 3 * length (rf_pending st)"
proof -
  have inv: "refresh_inv st" by (rule refresh_reachable_inv [OF assms])
  have "h \<in> fst ` set (rf_loops st)" if "h \<in> set (rf_unserved st)" for h
  proof -
    have "h \<in> set (rf_pending st) \<or> (h, LStarting) \<in> set (rf_loops st)" using inv that by (simp add: refresh_inv_def)
    then show ?thesis using inv unfolding refresh_inv_def by force
  qed
  moreover have "phase_work p \<le> 3" for p by (cases p) simp_all
  then have "(\<Sum>(_, p) \<leftarrow> loops. phase_work p) \<le> 3 * length loops" for loops :: "(string, loopPhase) gomap"
    by (induction loops) (auto simp: add_le_mono)
  ultimately show ?thesis using inv loop_step_enabled [of st] loop_step_work
    unfolding refresh_inv_def refresh_work_def by (auto simp: refresh_inv_def)
qed

theorem RefreshHost_coalesces_witness:
  "\<exists>st. refresh_reachable st \<and> rf_pending st = [''h''] \<and> distinct (map fst (rf_loops st)) \<and> (\<exists>st'. loop_step st st')"
proof -
  define st0 where "st0 = \<lparr>rf_refreshing = [], rf_pending = [], rf_loops = [], rf_unserved = []\<rparr>"
  define st where "st = RefreshHost ''h'' (RefreshHost ''h'' st0)"
  have r: "refresh_reachable st" unfolding st_def st0_def by (intro refresh_reachable.intros)
  have "rf_pending st = [''h'']" "rf_loops st = [(''h'', LStarting)]" unfolding st_def st0_def by code_simp+
  then show ?thesis using RefreshHost_coalesces [OF r] r by auto
qed

end
