(* ===== verification/Stack_Lock.thy ===== *)
theory Stack_Lock
  imports Go_Prelude
begin

section \<open>The lock of a stack\<close>

text \<open>
  Models \<open>core/internal/docker/compose/stack_lock.go\<close>: the table of counted locks that keeps two
  actions on the same stack apart.  \<open>TryLockStack\<close> and the unlock function it returns are split
  into their atomic parts (a critical section of the table's mutex, one operation on the lock's
  own mutex), and any number of calls take these steps in any interleaving.

  A lock object is a number, so that an entry that was deleted and made again is another lock.
  \<^verbatim>\<open>lk_calls\<close> is not in the source: it holds each call's key, its lock object and where it stands.
\<close>

datatype callPhase =
  Counted \<comment> \<open>in the table, before \<open>lock.mu.TryLock\<close>\<close>
| Refused \<comment> \<open>\<open>TryLock\<close> failed, before the count goes down\<close>
| Holding \<comment> \<open>the caller has the lock\<close>
| Unlocked \<comment> \<open>after \<open>lock.mu.Unlock\<close>, before the count goes down\<close>

record lockCall =
  lc_key :: string
  lc_lock :: nat
  lc_phase :: callPhase

record lockState =
  lk_entries :: "(string, nat) gomap"
  lk_users :: "nat \<Rightarrow> nat"
  lk_locked :: "nat list"
  lk_seq :: nat
  lk_calls :: "(nat, lockCall) gomap"

definition lockKey :: "string \<Rightarrow> string \<Rightarrow> string" where
  "lockKey host filename = host @ nul @ filename"

definition setCall :: "nat \<Rightarrow> callPhase \<Rightarrow> lockState \<Rightarrow> lockState" where
  "setCall c p st = st\<lparr>lk_calls := map (\<lambda>(d, k). (d, if d = c then k\<lparr>lc_phase := p\<rparr> else k)) (lk_calls st)\<rparr>"

text \<open>The first critical section: the entry is found or made, and counted.\<close>

definition enterLock :: "nat \<Rightarrow> string \<Rightarrow> lockState \<Rightarrow> lockState" where
  "enterLock c key st =
     (let (i, entries, nxt) = (case map_of (lk_entries st) key of
             Some i \<Rightarrow> (i, lk_entries st, lk_seq st)
           | None \<Rightarrow> (Suc (lk_seq st), (key, Suc (lk_seq st)) # lk_entries st, Suc (lk_seq st)))
      in st\<lparr>lk_entries := entries, lk_seq := nxt, lk_users := (lk_users st)(i := Suc (lk_users st i)),
            lk_calls := (c, \<lparr>lc_key = key, lc_lock = i, lc_phase = Counted\<rparr>) # lk_calls st\<rparr>)"

definition tryMutex :: "nat \<Rightarrow> nat \<Rightarrow> lockState \<Rightarrow> lockState" where
  "tryMutex c i st =
     (if i \<in> set (lk_locked st) then setCall c Refused st
      else (setCall c Holding st)\<lparr>lk_locked := i # lk_locked st\<rparr>)"

definition unlockMutex :: "nat \<Rightarrow> nat \<Rightarrow> lockState \<Rightarrow> lockState" where
  "unlockMutex c i st = (setCall c Unlocked st)\<lparr>lk_locked := removeAll i (lk_locked st)\<rparr>"

text \<open>The last critical section, after a refusal or an unlock.\<close>

definition leaveLock :: "nat \<Rightarrow> string \<Rightarrow> nat \<Rightarrow> lockState \<Rightarrow> lockState" where
  "leaveLock c key i st =
     (let n = lk_users st i - 1
      in st\<lparr>lk_users := (lk_users st)(i := n),
            lk_entries := (if n = 0 then filter (\<lambda>(k, _). k \<noteq> key) (lk_entries st) else lk_entries st),
            lk_calls := filter (\<lambda>(d, _). d \<noteq> c) (lk_calls st)\<rparr>)"

inductive lock_step :: "lockState \<Rightarrow> lockState \<Rightarrow> bool" where
  enter: "c \<notin> fst ` set (lk_calls st) \<Longrightarrow> lock_step st (enterLock c (lockKey host filename) st)"
| try_lock: "(c, k) \<in> set (lk_calls st) \<Longrightarrow> lc_phase k = Counted \<Longrightarrow> lock_step st (tryMutex c (lc_lock k) st)"
| unlock: "(c, k) \<in> set (lk_calls st) \<Longrightarrow> lc_phase k = Holding \<Longrightarrow> lock_step st (unlockMutex c (lc_lock k) st)"
| leave: "(c, k) \<in> set (lk_calls st) \<Longrightarrow> lc_phase k = Refused \<or> lc_phase k = Unlocked \<Longrightarrow>
    lock_step st (leaveLock c (lc_key k) (lc_lock k) st)"

definition noLocks :: lockState where
  "noLocks = \<lparr>lk_entries = [], lk_users = (\<lambda>_. 0), lk_locked = [], lk_seq = 0, lk_calls = []\<rparr>"

inductive lock_reachable :: "lockState \<Rightarrow> bool" where
  init: "lock_reachable noLocks"
| step: "lock_reachable st \<Longrightarrow> lock_step st st' \<Longrightarrow> lock_reachable st'"

subsection \<open>The invariant\<close>

definition calls_of :: "nat \<Rightarrow> lockState \<Rightarrow> (nat \<times> lockCall) list" where
  "calls_of i st = filter (\<lambda>(_, k). lc_lock k = i) (lk_calls st)"

definition holders :: "nat \<Rightarrow> lockState \<Rightarrow> (nat \<times> lockCall) list" where
  "holders i st = filter (\<lambda>(_, k). lc_lock k = i \<and> lc_phase k = Holding) (lk_calls st)"

definition lock_inv :: "lockState \<Rightarrow> bool" where
  "lock_inv st \<longleftrightarrow>
     distinct (map fst (lk_entries st)) \<and> distinct (map snd (lk_entries st)) \<and> distinct (map fst (lk_calls st)) \<and>
     (\<forall>(key, i) \<in> set (lk_entries st). i \<le> lk_seq st \<and> calls_of i st \<noteq> []) \<and>
     (\<forall>(c, k) \<in> set (lk_calls st). (lc_key k, lc_lock k) \<in> set (lk_entries st)) \<and>
     (\<forall>i. lk_users st i = length (calls_of i st)) \<and>
     (\<forall>i. length (holders i st) = (if i \<in> set (lk_locked st) then 1 else 0))"

lemma lock_inv_init: "lock_inv noLocks"
  by (simp add: lock_inv_def noLocks_def calls_of_def holders_def)

lemma enter_inv:
  assumes inv: "lock_inv st" and fresh: "c \<notin> fst ` set (lk_calls st)"
  shows "lock_inv (enterLock c key st)"
proof (cases "map_of (lk_entries st) key")
  case (Some i)
  then have "(key, i) \<in> set (lk_entries st)" by (rule map_of_SomeD)
  then show ?thesis using inv fresh Some
    by (auto simp: lock_inv_def enterLock_def calls_of_def holders_def)
next
  case None
  let ?i = "Suc (lk_seq st)"
  have k: "key \<notin> fst ` set (lk_entries st)" using None by (simp add: map_of_eq_None_iff)
  have old: "i \<noteq> ?i" if "(key', i) \<in> set (lk_entries st)" for key' i using inv that by (fastforce simp: lock_inv_def)
  then have none: "calls_of ?i st = []" using inv by (fastforce simp: lock_inv_def calls_of_def filter_empty_conv)
  then have "holders ?i st = []" by (auto simp: calls_of_def holders_def filter_empty_conv)
  then show ?thesis using inv fresh None k old none
    by (fastforce simp: lock_inv_def enterLock_def calls_of_def holders_def)
qed

text \<open>The call that takes a step, singled out of the list of calls.\<close>

lemma call_split:
  assumes "(c, k) \<in> set (lk_calls st)" "distinct (map fst (lk_calls st))"
  obtains a b where "lk_calls st = a @ (c, k) # b"
    "lk_calls (setCall c p st) = a @ (c, k\<lparr>lc_phase := p\<rparr>) # b" "filter (\<lambda>(d, _). d \<noteq> c) (lk_calls st) = a @ b"
proof -
  obtain a b where l: "lk_calls st = a @ (c, k) # b" using split_list [OF assms(1)] by blast
  then have "c \<notin> fst ` set a" "c \<notin> fst ` set b" using assms(2) by auto
  then have "map (\<lambda>(d, k). (d, if d = c then k\<lparr>lc_phase := p\<rparr> else k)) x = x" "filter (\<lambda>(d, _). d \<noteq> c) x = x"
    if "x = a \<or> x = b" for x
    using that by (auto intro!: map_idI simp: filter_id_conv rev_image_eqI)
  then show thesis using l by (intro that [of a b]) (auto simp: setCall_def)
qed

lemma setCall_frame [simp]:
  "lk_entries (setCall c p st) = lk_entries st" "lk_users (setCall c p st) = lk_users st" "lk_locked (setCall c p st) = lk_locked st"
  "lk_seq (setCall c p st) = lk_seq st"
  by (simp_all add: setCall_def)

definition phase_change :: "nat \<Rightarrow> lockCall \<Rightarrow> callPhase \<Rightarrow> nat list \<Rightarrow> lockState \<Rightarrow> bool" where
  "phase_change c k p locked st \<longleftrightarrow>
     (\<forall>i. (i \<in> set locked) = (if i = lc_lock k then p = Holding \<or> (lc_phase k \<noteq> Holding \<and> i \<in> set (lk_locked st)) else i \<in> set (lk_locked st)))"

lemma setCall_inv:
  assumes inv: "lock_inv st" and call: "(c, k) \<in> set (lk_calls st)"
    and ch: "phase_change c k p locked st" "p = Holding \<longrightarrow> lc_phase k \<noteq> Holding \<and> lc_lock k \<notin> set (lk_locked st)"
  shows "lock_inv ((setCall c p st)\<lparr>lk_locked := locked\<rparr>)"
proof -
  have "distinct (map fst (lk_calls st))" using inv by (simp add: lock_inv_def)
  from call_split [OF call this] obtain a b where l: "lk_calls st = a @ (c, k) # b"
    "lk_calls (setCall c p st) = a @ (c, k\<lparr>lc_phase := p\<rparr>) # b" by metis
  have h: "length (holders i ((setCall c p st)\<lparr>lk_locked := locked\<rparr>)) = (if i \<in> set locked then 1 else 0)" for i
  proof -
    have "length (holders i st) = (if i \<in> set (lk_locked st) then 1 else 0)" using inv by (simp add: lock_inv_def)
    then show ?thesis using ch l unfolding phase_change_def holders_def by (auto split: if_splits)
  qed
  have c: "length (calls_of i ((setCall c p st)\<lparr>lk_locked := locked\<rparr>)) = length (calls_of i st)" for i
    using l by (simp add: calls_of_def)
  then have e: "calls_of i ((setCall c p st)\<lparr>lk_locked := locked\<rparr>) = [] \<longleftrightarrow> calls_of i st = []" for i by (metis length_0_conv)
  have "distinct (map fst (lk_calls (setCall c p st)))" using inv l by (simp add: lock_inv_def)
  moreover have "\<forall>(d, k) \<in> set (lk_calls (setCall c p st)). (lc_key k, lc_lock k) \<in> set (lk_entries st)"
    using inv l by (auto simp: lock_inv_def)
  ultimately show ?thesis using inv h c e unfolding lock_inv_def by simp
qed

lemma try_inv:
  assumes "lock_inv st" "(c, k) \<in> set (lk_calls st)" "lc_phase k = Counted"
  shows "lock_inv (tryMutex c (lc_lock k) st)"
proof (cases "lc_lock k \<in> set (lk_locked st)")
  case True
  have "lock_inv ((setCall c Refused st)\<lparr>lk_locked := lk_locked st\<rparr>)"
    by (rule setCall_inv [OF assms(1,2)]) (simp_all add: phase_change_def assms(3))
  moreover have "(setCall c Refused st)\<lparr>lk_locked := lk_locked st\<rparr> = setCall c Refused st" by (simp add: setCall_def)
  ultimately show ?thesis using True by (simp add: tryMutex_def)
next
  case False
  then show ?thesis unfolding tryMutex_def using assms by (auto intro!: setCall_inv simp: phase_change_def)
qed

lemma unlock_inv:
  assumes "lock_inv st" "(c, k) \<in> set (lk_calls st)" "lc_phase k = Holding"
  shows "lock_inv (unlockMutex c (lc_lock k) st)"
  unfolding unlockMutex_def using assms by (auto intro!: setCall_inv simp: phase_change_def)

lemma leave_inv:
  assumes inv: "lock_inv st" and call: "(c, k) \<in> set (lk_calls st)" and ph: "lc_phase k = Refused \<or> lc_phase k = Unlocked"
  shows "lock_inv (leaveLock c (lc_key k) (lc_lock k) st)"
proof -
  have d: "distinct (map fst (lk_calls st))" using inv by (simp add: lock_inv_def)
  from call_split [OF call d] obtain a b where l: "lk_calls st = a @ (c, k) # b" "filter (\<lambda>(d, _). d \<noteq> c) (lk_calls st) = a @ b" by metis
  let ?i = "lc_lock k" and ?st = "leaveLock c (lc_key k) (lc_lock k) st"
  have ent: "(lc_key k, ?i) \<in> set (lk_entries st)" using inv call by (auto simp: lock_inv_def)
  have calls: "lk_calls ?st = a @ b" using l by (simp add: leaveLock_def Let_def)
  have users: "lk_users ?st j = length (calls_of j ?st)" for j
  proof -
    have "lk_users st j = length (calls_of j st)" using inv by (simp add: lock_inv_def)
    then show ?thesis using l calls by (auto simp: calls_of_def leaveLock_def Let_def)
  qed
  have hold: "length (holders j ?st) = (if j \<in> set (lk_locked ?st) then 1 else 0)" for j
  proof -
    have "length (holders j st) = (if j \<in> set (lk_locked st) then 1 else 0)" using inv by (simp add: lock_inv_def)
    moreover have "holders j ?st = holders j st" using l(1) calls ph by (auto simp: holders_def)
    ultimately show ?thesis by (simp add: leaveLock_def Let_def)
  qed
  have same: "key = lc_key k \<longleftrightarrow> j = ?i" if "(key, j) \<in> set (lk_entries st)" for key j
    using that ent inv unfolding lock_inv_def distinct_map inj_on_def by (metis fst_conv snd_conv)
  have mem: "(key, j) \<in> set (lk_entries ?st) \<longleftrightarrow> (key, j) \<in> set (lk_entries st) \<and> (j = ?i \<longrightarrow> lk_users ?st ?i \<noteq> 0)" for key j
    using same by (auto simp: leaveLock_def Let_def)
  have cj: "calls_of j ?st \<noteq> [] \<longleftrightarrow> lk_users ?st j \<noteq> 0" for j using users by simp
  have uj: "j \<noteq> ?i \<Longrightarrow> lk_users ?st j = lk_users st j" for j by (simp add: leaveLock_def Let_def)
  have used: "lk_users st j \<noteq> 0" if "(key, j) \<in> set (lk_entries st)" for key j using that inv by (fastforce simp: lock_inv_def)
  have "j \<le> lk_seq ?st \<and> calls_of j ?st \<noteq> []" if m: "(key, j) \<in> set (lk_entries ?st)" for key j
  proof -
    have "j \<le> lk_seq st" using m mem inv unfolding lock_inv_def by blast
    moreover have "lk_users ?st j \<noteq> 0" using m mem uj used by metis
    ultimately show ?thesis using cj by (simp add: leaveLock_def Let_def)
  qed
  then have "\<forall>(key, j) \<in> set (lk_entries ?st). j \<le> lk_seq ?st \<and> calls_of j ?st \<noteq> []" by blast
  moreover have "\<forall>(d, k') \<in> set (lk_calls ?st). (lc_key k', lc_lock k') \<in> set (lk_entries ?st)"
  proof clarify
    fix d k' assume m: "(d, k') \<in> set (lk_calls ?st)"
    then have "(lc_key k', lc_lock k') \<in> set (lk_entries st)" using inv l(1) calls unfolding lock_inv_def by auto
    moreover have "calls_of (lc_lock k') ?st \<noteq> []" using m by (auto simp: calls_of_def filter_empty_conv)
    ultimately show "(lc_key k', lc_lock k') \<in> set (lk_entries ?st)" using mem cj by metis
  qed
  moreover have "distinct (map fst (lk_entries ?st))" "distinct (map snd (lk_entries ?st))"
    using inv by (simp_all add: lock_inv_def leaveLock_def Let_def distinct_map_filter)
  moreover have "distinct (map fst (lk_calls ?st))" using d l(1) calls by simp
  ultimately show ?thesis using users hold unfolding lock_inv_def by blast
qed

lemma lock_reachable_inv: "lock_reachable st \<Longrightarrow> lock_inv st"
proof (induction rule: lock_reachable.induct)
  case init
  show ?case by (rule lock_inv_init)
next
  case (step st st')
  from step.hyps(2) step.IH show ?case
    by (cases rule: lock_step.cases) (auto intro: enter_inv try_inv unlock_inv leave_inv)
qed

text \<open>
  C9: At most one action holds the lock of a stack, whatever calls arrive and however their
  steps interleave: an entry that is deleted and made again never lets a second one in.  A call
  that finds the lock free gets it, one that finds it taken is refused because another call
  holds it at that moment, and when no call is in progress the table is empty.
\<close>

theorem TryLockStack_exclusive:
  assumes "lock_reachable st"
  shows "((c, k) \<in> set (lk_calls st) \<and> (d, l) \<in> set (lk_calls st) \<and> lc_phase k = Holding \<and> lc_phase l = Holding \<and> lc_key k = lc_key l \<longrightarrow> c = d) \<and>
    ((c, k) \<in> set (lk_calls st) \<and> lc_phase k = Counted \<longrightarrow>
       (lc_lock k \<in> set (lk_locked st) \<longleftrightarrow> (\<exists>d l. (d, l) \<in> set (lk_calls st) \<and> lc_phase l = Holding \<and> lc_key l = lc_key k))) \<and>
    (lk_calls st = [] \<longrightarrow> lk_entries st = [] \<and> lk_locked st = [])"
proof -
  have inv: "lock_inv st" by (rule lock_reachable_inv [OF assms])
  have keys: "lc_key k = lc_key l \<longleftrightarrow> lc_lock k = lc_lock l" if "(c, k) \<in> set (lk_calls st)" "(d, l) \<in> set (lk_calls st)" for c d k l
  proof -
    have "(lc_key k, lc_lock k) \<in> set (lk_entries st)" "(lc_key l, lc_lock l) \<in> set (lk_entries st)" using inv that by (auto simp: lock_inv_def)
    then show ?thesis using inv unfolding lock_inv_def distinct_map inj_on_def by (metis fst_conv snd_conv)
  qed
  have len: "length (holders i st) = (if i \<in> set (lk_locked st) then 1 else 0)" for i using inv by (simp add: lock_inv_def)
  have one: "c = d" if "(c, k) \<in> set (holders i st)" "(d, l) \<in> set (holders i st)" for c d k l i
    using len [of i] that by (cases "holders i st") (auto split: if_splits)
  have locked: "i \<in> set (lk_locked st) \<longleftrightarrow> holders i st \<noteq> []" for i using len [of i] by (cases "holders i st") (auto split: if_splits)
  have empty: "lk_entries st = [] \<and> lk_locked st = []" if "lk_calls st = []"
  proof -
    have "calls_of i st = []" "holders i st = []" for i using that by (simp_all add: calls_of_def holders_def)
    then show ?thesis using locked inv unfolding lock_inv_def by (cases "lk_entries st"; cases "lk_locked st") auto
  qed
  have first: "c = d" if "(c, k) \<in> set (lk_calls st)" "(d, l) \<in> set (lk_calls st)" "lc_phase k = Holding" "lc_phase l = Holding" "lc_key k = lc_key l"
  proof -
    have "(c, k) \<in> set (holders (lc_lock k) st)" "(d, l) \<in> set (holders (lc_lock k) st)" using that keys [OF that(1,2)] by (auto simp: holders_def)
    then show ?thesis by (rule one)
  qed
  have second: "lc_lock k \<in> set (lk_locked st) \<longleftrightarrow> (\<exists>d l. (d, l) \<in> set (lk_calls st) \<and> lc_phase l = Holding \<and> lc_key l = lc_key k)"
    if "(c, k) \<in> set (lk_calls st)"
  proof -
    have "holders (lc_lock k) st \<noteq> [] \<longleftrightarrow> (\<exists>d l. (d, l) \<in> set (lk_calls st) \<and> lc_phase l = Holding \<and> lc_lock l = lc_lock k)"
      by (auto simp: holders_def filter_empty_conv)
    then show ?thesis using locked keys [OF _ that] by metis
  qed
  show ?thesis using first second empty by blast
qed

theorem TryLockStack_exclusive_witness:
  "\<exists>st k l. lock_reachable st \<and> (1, k) \<in> set (lk_calls st) \<and> (2, l) \<in> set (lk_calls st) \<and> lc_phase k = Holding \<and>
     lc_phase l = Counted \<and> lc_lock l \<in> set (lk_locked st) \<and> (lc_phase l = Holding \<longrightarrow> (1 :: nat) = 2)"
proof -
  define key where "key = lockKey ''h'' ''web.yml''"
  define st1 where "st1 = enterLock 1 key noLocks"
  define st2 where "st2 = enterLock 2 key st1"
  let ?k = "\<lparr>lc_key = key, lc_lock = 1, lc_phase = Counted\<rparr>"
  define st3 where "st3 = tryMutex 1 1 st2"
  have c1: "lk_calls st1 = [(1, ?k)]" by (simp add: st1_def enterLock_def noLocks_def)
  have c2: "lk_calls st2 = [(2, ?k), (1, ?k)]" "lk_locked st2 = []" by (simp_all add: st2_def st1_def enterLock_def noLocks_def)
  have "lock_step noLocks st1" unfolding st1_def key_def by (rule lock_step.enter) (simp add: noLocks_def)
  moreover have "lock_step st1 st2" unfolding st2_def key_def by (rule lock_step.enter) (simp add: c1)
  moreover have "lock_step st2 st3" unfolding st3_def using lock_step.try_lock [of 1 ?k st2] c2 by simp
  ultimately have r: "lock_reachable st3" by (meson lock_reachable.intros)
  have "lk_calls st3 = [(2, ?k), (1, ?k\<lparr>lc_phase := Holding\<rparr>)]" "lk_locked st3 = [1]"
    using c2 by (simp_all add: st3_def tryMutex_def setCall_def)
  then show ?thesis using TryLockStack_exclusive [OF r, of 1 "?k\<lparr>lc_phase := Holding\<rparr>" 2 ?k] r
    by (intro exI [of _ st3] exI [of _ "?k\<lparr>lc_phase := Holding\<rparr>"] exI [of _ ?k]) auto
qed

end
