(* ===== verification/Stack_Update.thy ===== *)
theory Stack_Update
  imports Container_Recreate Update_Automation
begin

section \<open>Executing automatic updates\<close>

text \<open>
  Models \<open>core/internal/docker/update_automation.go\<close>, the executor the automation calls: units of
  one container or of one stack, the order of a stack, its preflight, its application and its
  rollback; and from \<open>handler_containers.go\<close> the locks a unit takes.

  The Docker daemon is the environment of \<open>Container_Recreate\<close>.  \<^verbatim>\<open>se_path\<close> is the resolution
  of a compose file to Dockman's path, \<^verbatim>\<open>se_locked\<close> tells which lock keys another action holds
  when they are asked for, and \<^verbatim>\<open>se_logs\<close> is the text the bounded writer collected.
\<close>

record stack_env =
  se_dk :: docker_env
  se_path :: "string \<Rightarrow> string"
  se_locked :: "docker_log \<Rightarrow> string \<Rightarrow> bool"
  se_logs :: "docker_log \<Rightarrow> string"

subsection \<open>The bounded log writer\<close>

definition automaticUpdateLogLimit :: int where "automaticUpdateLogLimit = 32768"

definition boundedWrite :: "string \<Rightarrow> string \<Rightarrow> string \<times> int" where
  "boundedWrite data p =
     (let remaining = automaticUpdateLogLimit - int (length data)
      in (if remaining > 0 then data @ LimitReader p remaining else data, int (length p)))"

definition boundedString :: "string \<Rightarrow> string" where
  "boundedString data =
     (let v = TrimSpace data
      in if int (length data) = automaticUpdateLogLimit then v @ [newline] @ ''[output truncated by Dockman]'' else v)"

subsection \<open>Locks\<close>

definition containerUpdateLockKey :: "(string \<Rightarrow> string) \<Rightarrow> containerSummary \<Rightarrow> string" where
  "containerUpdateLockKey path c =
     (let key = path (str_at (cs_Labels c) composeFilesLabel);
          project = TrimSpace (str_at (cs_Labels c) composeProjectLabel)
      in if key \<noteq> [] then key
         else if project \<noteq> [] then ''project:'' @ project
         else ''container:'' @ cs_ID c)"

text \<open>The action runs with every lock taken; its result is the unit's, with \<^verbatim>\<open>idle\<close> when it never ran.\<close>

definition withContainerUpdateLocks ::
  "stack_env \<Rightarrow> docker_log \<Rightarrow> string list \<Rightarrow> 'a \<Rightarrow> (docker_log \<Rightarrow> (go_err option \<times> 'a) docker_result) \<Rightarrow> (go_err option \<times> 'a) docker_result" where
  "withContainerUpdateLocks env log ids idle action =
     (case ContainerListByIDs (se_dk env) log ids of
        (Inl e, log1) \<Rightarrow> ((Some (plain e), idle), log1)
      | (Inr items, log1) \<Rightarrow>
          (let ordered = sort (remdups (map (containerUpdateLockKey (se_path env)) items)) in
           case find (se_locked env log1) ordered of
             Some key \<Rightarrow> ((Some (plain (''another action is already running for stack or container '' @ key)), idle), log1)
           | None \<Rightarrow> action log1))"

subsection \<open>Validation at execution time\<close>

text \<open>The answer: an error, or the reason the target is skipped (empty when it may be updated).\<close>

definition skipReason :: "containerSummary \<Rightarrow> string" where
  "skipReason c =
     (if MarksDockmanContainer c then ''Dockman self-update is protected and requires its dedicated action''
      else if hasDisableUpdateLabel c then ''automatic update was disabled after the scan''
      else if map_of (cs_Labels c) DockmanOptInUpdateLabel = None \<and> ExposesDockerSocket c
      then ''container exposes the Docker socket and is protected from automatic updates''
      else let state = ToLower (cs_State c)
           in if state \<in> set [''paused'', ''restarting'', ''removing'', ''dead''] then ''container state changed after the scan: '' @ state else [])"

definition validateAutomaticTarget :: "docker_env \<Rightarrow> docker_log \<Rightarrow> UpdateExecutionTarget \<Rightarrow> (string + string) docker_result" where
  "validateAutomaticTarget env log t =
     (case ContainerListByIDs env log [tg_ContainerID t] of
        (Inl e, log1) \<Rightarrow> (Inl e, log1)
      | (Inr items, log1) \<Rightarrow>
          (case items of
             [c] \<Rightarrow> (Inr (skipReason c), log1)
           | _ \<Rightarrow> (Inl (''container '' @ quoted (tg_ContainerName t) @ '' no longer exists''), log1)))"

subsection \<open>One container\<close>

definition outcomeOf :: "UpdateExecutionTarget \<Rightarrow> string \<Rightarrow> UpdateExecutionOutcome" where
  "outcomeOf t state = UpdateExecutionTarget.extend t (UpdateExecutionOutcome.fields state [] [] [])"

definition previousImageOf :: "ForceUpdateResult option \<Rightarrow> string" where
  "previousImageOf r = (case r of Some res \<Rightarrow> fr_PreviousImage res | None \<Rightarrow> [])"

definition wasUpdated :: "ForceUpdateResult option \<Rightarrow> bool" where
  "wasUpdated r = (case r of Some res \<Rightarrow> fr_Updated res | None \<Rightarrow> False)"

text \<open>The action of a container unit: its error, and the outcome with \<^verbatim>\<open>mutationAttempted\<close>.\<close>

definition updateOneContainer ::
  "stack_env \<Rightarrow> UpdateExecutionTarget \<Rightarrow> UpdateExecutionOutcome \<Rightarrow> docker_log \<Rightarrow> (go_err option \<times> UpdateExecutionOutcome \<times> bool) docker_result" where
  "updateOneContainer env t o1 log =
     (case validateAutomaticTarget (se_dk env) log t of
        (Inl e, log1) \<Rightarrow> ((Some (plain e), o1, False), log1)
      | (Inr reason, log1) \<Rightarrow>
          if reason \<noteq> [] then ((None, o1\<lparr>oc_State := ExecutionSkipped, oc_Message := reason\<rparr>, False), log1)
          else
            (case ForceUpdateContainer (se_dk env) log1 (tg_ContainerID t)
                    \<lparr>fo_VerifyHealth = tg_RollbackEnabled t, fo_ImagePrepared = False, fo_ImageReference = []\<rparr> of
               ((result, err), log2) \<Rightarrow>
                 (let o2 = o1\<lparr>oc_PreviousImage := previousImageOf result\<rparr>;
                      o3 = (if err = None
                            then (if wasUpdated result
                                  then o2\<lparr>oc_State := ExecutionUpdated, oc_Message := ''container updated successfully''\<rparr>
                                  else o2\<lparr>oc_State := ExecutionCurrent, oc_Message := ''image became current before execution''\<rparr>)
                            else o2)
                  in ((err, o3, True), log2))))"

definition executeAutomaticContainerUnit :: "stack_env \<Rightarrow> docker_log \<Rightarrow> UpdateExecutionTarget \<Rightarrow> UpdateExecutionOutcome docker_result" where
  "executeAutomaticContainerUnit env log t =
     (let o0 = outcomeOf t ExecutionFailed in
      case withContainerUpdateLocks env log [tg_ContainerID t] (o0, False) (updateOneContainer env t o0) of
        ((err, o1, attempted), log1) \<Rightarrow>
          (let o2 = (case err of
                 None \<Rightarrow> o1
               | Some e \<Rightarrow>
                   if IsRolledBack e then o1\<lparr>oc_Message := err_text e, oc_State := ExecutionRolledBack\<rparr>
                   else if \<not> attempted
                   then o1\<lparr>oc_Message := ''update not attempted, will be retried: '' @ err_text e, oc_State := ExecutionSkipped\<rparr>
                   else o1\<lparr>oc_Message := err_text e\<rparr>)
           in (o2\<lparr>oc_Logs := se_logs env log1\<rparr>, log1)))"

subsection \<open>The order of a stack\<close>

definition composeTargetDependencies :: "string \<Rightarrow> string set \<Rightarrow> string list" where
  "composeTargetDependencies v available =
     firsts (filter (\<lambda>s. s \<in> available) (map (\<lambda>item. TrimSpace (takeWhile (\<lambda>c. c \<noteq> CHR '':'') item)) (Split v (CHR '',''))))"

definition stackServices :: "UpdateExecutionTarget list \<Rightarrow> string set" where
  "stackServices ts = set (filter (\<lambda>s. s \<noteq> []) (map tg_ServiceName ts))"

text \<open>One pass: the targets that became ready, those that remain, and the services done.\<close>

fun readyPass ::
  "string set \<Rightarrow> string set \<Rightarrow> UpdateExecutionTarget list \<Rightarrow> UpdateExecutionTarget list \<times> UpdateExecutionTarget list \<times> string set" where
  "readyPass services finished [] = ([], [], finished)"
| "readyPass services finished (t # ts) =
     (if set (composeTargetDependencies (tg_DependsOn t) services) \<subseteq> finished
      then (let (ordered, remaining, f) = readyPass services (if tg_ServiceName t = [] then finished else insert (tg_ServiceName t) finished) ts
            in (t # ordered, remaining, f))
      else (let (ordered, remaining, f) = readyPass services finished ts in (ordered, t # remaining, f)))"

lemma readyPass_length:
  "readyPass services finished ts = (ordered, remaining, f) \<Longrightarrow> length ordered + length remaining = length ts"
  by (induction services finished ts arbitrary: ordered remaining f rule: readyPass.induct) (auto simp: Let_def split: if_splits prod.splits)

function orderLoop :: "string set \<Rightarrow> string set \<Rightarrow> UpdateExecutionTarget list \<Rightarrow> UpdateExecutionTarget list" where
  "orderLoop services finished ts =
     (case readyPass services finished ts of
        (ordered, remaining, f) \<Rightarrow>
          if ordered = [] \<or> remaining = [] then ordered @ remaining
          else ordered @ orderLoop services f remaining)"
  by pat_completeness auto
termination
  by (relation "measure (\<lambda>(_, _, ts). length ts)") (auto dest!: readyPass_length [OF sym] simp: neq_Nil_conv)

declare orderLoop.simps [simp del]

definition orderStackUpdateTargets :: "UpdateExecutionTarget list \<Rightarrow> UpdateExecutionTarget list" where
  "orderStackUpdateTargets targets =
     (let remaining = sort_key (\<lambda>t. ToLower (tg_ContainerName t)) targets
      in orderLoop (stackServices remaining) {} remaining)"

subsection \<open>One stack\<close>

definition markUnprocessedStackTargets :: "UpdateExecutionOutcome list \<Rightarrow> nat \<Rightarrow> string \<Rightarrow> UpdateExecutionOutcome list" where
  "markUnprocessedStackTargets outcomes start message =
     take start outcomes @
     map (\<lambda>o1. if oc_State o1 = ExecutionSkipped \<and> oc_Message o1 = [] then o1\<lparr>oc_Message := message\<rparr> else o1) (drop start outcomes)"

definition setOutcome :: "nat \<Rightarrow> string \<Rightarrow> string \<Rightarrow> UpdateExecutionOutcome list \<Rightarrow> UpdateExecutionOutcome list" where
  "setOutcome i state message outcomes = outcomes[i := (outcomes ! i)\<lparr>oc_State := state, oc_Message := message\<rparr>]"

text \<open>The preflight: every target is validated, in order; \<open>None\<close> when all of them may be updated.\<close>

fun stackPreflight ::
  "docker_env \<Rightarrow> docker_log \<Rightarrow> nat \<Rightarrow> UpdateExecutionTarget list \<Rightarrow> UpdateExecutionOutcome list \<Rightarrow> UpdateExecutionOutcome list option docker_result" where
  "stackPreflight env log i [] outcomes = (None, log)"
| "stackPreflight env log i (t # ts) outcomes =
     (case validateAutomaticTarget env log t of
        (Inl e, log1) \<Rightarrow>
          (Some (markUnprocessedStackTargets (setOutcome i ExecutionSkipped (''stack preflight validation failed, will be retried: '' @ e) outcomes) 0
             ''stack transaction cancelled during preflight validation''), log1)
      | (Inr reason, log1) \<Rightarrow>
          if reason \<noteq> []
          then (Some (markUnprocessedStackTargets (setOutcome i ExecutionSkipped reason outcomes) 0
             ''stack transaction cancelled because one member is no longer eligible''), log1)
          else stackPreflight env log1 (Suc i) ts outcomes)"

text \<open>The images are pulled once each, before any container is touched.\<close>

fun stackPreload ::
  "docker_env \<Rightarrow> docker_log \<Rightarrow> nat \<Rightarrow> string list \<Rightarrow> UpdateExecutionTarget list \<Rightarrow> UpdateExecutionOutcome list \<Rightarrow> UpdateExecutionOutcome list option docker_result" where
  "stackPreload env log i pulled [] outcomes = (None, log)"
| "stackPreload env log i pulled (t # ts) outcomes =
     (if tg_Image t \<in> set pulled then stackPreload env log (Suc i) pulled ts outcomes
      else
        let err = dk_pull env log (tg_Image t); log1 = log @ [(Pull (tg_Image t), err = None)]
        in case err of
             Some e \<Rightarrow>
               (Some (markUnprocessedStackTargets
                  (setOutcome i ExecutionSkipped (''stack image preflight failed for '' @ tg_Image t @ '', will be retried: '' @ e) outcomes) 0
                  ''stack transaction cancelled before changing any container''), log1)
           | None \<Rightarrow> stackPreload env log1 (Suc i) (tg_Image t # pulled) ts outcomes)"

text \<open>\<open>appliedStackUpdate\<close>: the index of an applied target, its container's name and previous image.\<close>

record appliedStackUpdate =
  ap_index :: nat
  ap_name :: string
  ap_image :: string

text \<open>The loop of \<open>rollbackAppliedStackTargets\<close>, over the applied targets in reverse order.\<close>

fun rollbackLoop ::
  "docker_env \<Rightarrow> docker_log \<Rightarrow> string \<Rightarrow> appliedStackUpdate list \<Rightarrow> UpdateExecutionOutcome list \<Rightarrow> UpdateExecutionOutcome list docker_result" where
  "rollbackLoop env log failedName [] outcomes = (outcomes, log)"
| "rollbackLoop env log failedName (a # as) outcomes =
     (case RestoreContainerImage env log (ap_name a) (ap_image a) True of
        (Inl e, log1) \<Rightarrow>
          rollbackLoop env log1 failedName as
            (setOutcome (ap_index a) ExecutionFailed (''stack rollback failed after '' @ failedName @ '' failed: '' @ err_text e) outcomes)
      | (Inr restoredID, log1) \<Rightarrow>
          rollbackLoop env log1 failedName as
            (setOutcome (ap_index a) ExecutionRolledBack (''stack transaction rolled back after '' @ failedName @ '' failed'')
               (outcomes[ap_index a := (outcomes ! ap_index a)\<lparr>tg_ContainerID := restoredID\<rparr>])))"

definition rollbackAppliedStackTargets ::
  "docker_env \<Rightarrow> docker_log \<Rightarrow> UpdateExecutionOutcome list \<Rightarrow> appliedStackUpdate list \<Rightarrow> nat \<Rightarrow> UpdateExecutionOutcome list docker_result" where
  "rollbackAppliedStackTargets env log outcomes applied failedIndex =
     rollbackLoop env log (tg_ContainerName (outcomes ! failedIndex)) (rev applied) outcomes"

definition resultName :: "ForceUpdateResult option \<Rightarrow> string" where
  "resultName r = (case r of Some res \<Rightarrow> fr_ContainerName res | None \<Rightarrow> [])"

text \<open>The application loop, from the target \<^verbatim>\<open>i\<close> on; \<^verbatim>\<open>applied\<close> holds the members updated so far.\<close>

fun stackApply ::
  "docker_env \<Rightarrow> docker_log \<Rightarrow> string \<Rightarrow> bool \<Rightarrow> nat \<Rightarrow> UpdateExecutionTarget list \<Rightarrow> appliedStackUpdate list \<Rightarrow>
   UpdateExecutionOutcome list \<Rightarrow> UpdateExecutionOutcome list docker_result" where
  "stackApply env log stackName rollbackEnabled i [] applied outcomes = (outcomes, log)"
| "stackApply env log stackName rollbackEnabled i (t # ts) applied outcomes =
     (case ForceUpdateContainer env log (tg_ContainerID t)
             \<lparr>fo_VerifyHealth = tg_RollbackEnabled t, fo_ImagePrepared = True, fo_ImageReference = tg_Image t\<rparr> of
        ((result, err), log1) \<Rightarrow>
          (let o1 = outcomes[i := (outcomes ! i)\<lparr>oc_PreviousImage := previousImageOf result\<rparr>] in
           case err of
             None \<Rightarrow>
               if wasUpdated result
               then stackApply env log1 stackName rollbackEnabled (Suc i) ts
                      (applied @ [\<lparr>ap_index = i, ap_name = resultName result, ap_image = previousImageOf result\<rparr>])
                      (setOutcome i ExecutionUpdated (''stack '' @ stackName @ '' updated coherently'') o1)
               else stackApply env log1 stackName rollbackEnabled (Suc i) ts applied
                      (setOutcome i ExecutionCurrent ''image became current during stack execution'' o1)
           | Some e \<Rightarrow>
               (let o2 = setOutcome i (if IsRolledBack e then ExecutionRolledBack else ExecutionFailed) (err_text e) o1;
                    o3 = markUnprocessedStackTargets o2 (Suc i) ''stack transaction stopped after a member failed''
                in if rollbackEnabled \<and> applied \<noteq> [] then rollbackAppliedStackTargets env log1 o3 applied i
                   else if applied = [] then (o3, log1)
                   else (o3[i := (o3 ! i)\<lparr>oc_Message := oc_Message (o3 ! i) @ ''; stack rollback is disabled, previously updated members were kept''\<rparr>], log1))))"

record automaticUpdateUnit =
  uu_key :: string
  uu_stackName :: string
  uu_transactional :: bool
  uu_targets :: "UpdateExecutionTarget list"

text \<open>The transaction a stack unit runs under its locks.\<close>

definition stackTransaction ::
  "stack_env \<Rightarrow> string \<Rightarrow> UpdateExecutionTarget list \<Rightarrow> UpdateExecutionOutcome list \<Rightarrow> docker_log \<Rightarrow> UpdateExecutionOutcome list docker_result" where
  "stackTransaction env stackName targets outcomes log =
     (case stackPreflight (se_dk env) log 0 targets outcomes of
        (Some o1, log1) \<Rightarrow> (o1, log1)
      | (None, log1) \<Rightarrow>
          (case stackPreload (se_dk env) log1 0 [] targets outcomes of
             (Some o2, log2) \<Rightarrow> (o2, log2)
           | (None, log2) \<Rightarrow>
               stackApply (se_dk env) log2 stackName (list_all tg_RollbackEnabled targets) 0 targets [] outcomes))"

definition lockRefused :: "string \<Rightarrow> UpdateExecutionOutcome list \<Rightarrow> UpdateExecutionOutcome list" where
  "lockRefused e outcomes =
     (let o1 = markUnprocessedStackTargets outcomes 0 (''stack transaction could not acquire its action lock: '' @ e)
      in if o1 = [] then [] else setOutcome 0 ExecutionSkipped (''stack action lock unavailable, will be retried: '' @ e) o1)"

definition executeAutomaticStackUnit :: "stack_env \<Rightarrow> docker_log \<Rightarrow> automaticUpdateUnit \<Rightarrow> UpdateExecutionOutcome list docker_result" where
  "executeAutomaticStackUnit env log unit =
     (let targets = orderStackUpdateTargets (uu_targets unit);
          outcomes = map (\<lambda>t. outcomeOf t ExecutionSkipped) targets
      in case withContainerUpdateLocks env log (map tg_ContainerID targets) outcomes
                (\<lambda>l. map_prod (Pair None) id (stackTransaction env (uu_stackName unit) targets outcomes l)) of
           ((err, o1), log1) \<Rightarrow>
             (let o2 = (case err of Some e \<Rightarrow> lockRefused (err_text e) o1 | None \<Rightarrow> o1)
              in (map (\<lambda>o1. o1\<lparr>oc_Logs := se_logs env log1\<rparr>) o2, log1)))"

subsection \<open>The units of a run\<close>

definition addUnit :: "automaticUpdateUnit list \<Rightarrow> UpdateExecutionTarget \<Rightarrow> automaticUpdateUnit list" where
  "addUnit units t =
     (if tg_TargetType t = UpdateTargetStack \<and> TrimSpace (tg_StackKey t) \<noteq> [] then
        let key = ''stack:'' @ tg_StackKey t in
        if \<exists>u \<in> set units. uu_transactional u \<and> uu_key u = key
        then map (\<lambda>u. if uu_transactional u \<and> uu_key u = key then u\<lparr>uu_targets := uu_targets u @ [t]\<rparr> else u) units
        else units @ [\<lparr>uu_key = key, uu_stackName = tg_StackName t, uu_transactional = True, uu_targets = [t]\<rparr>]
      else units @ [\<lparr>uu_key = ''container:'' @ tg_ContainerID t, uu_stackName = [], uu_transactional = False, uu_targets = [t]\<rparr>])"

definition groupAutomaticUpdateTargets :: "UpdateExecutionTarget list \<Rightarrow> automaticUpdateUnit list" where
  "groupAutomaticUpdateTargets targets = sort_key uu_key (foldl addUnit [] targets)"

definition executeUnit :: "stack_env \<Rightarrow> docker_log \<Rightarrow> automaticUpdateUnit \<Rightarrow> UpdateExecutionOutcome list docker_result" where
  "executeUnit env log u =
     (if uu_transactional u then executeAutomaticStackUnit env log u
      else map_prod (\<lambda>o1. [o1]) id (executeAutomaticContainerUnit env log (hd (uu_targets u))))"

fun executeUnits :: "stack_env \<Rightarrow> docker_log \<Rightarrow> automaticUpdateUnit list \<Rightarrow> UpdateExecutionOutcome list docker_result" where
  "executeUnits env log [] = ([], log)"
| "executeUnits env log (u # us) =
     (let (o1, log1) = executeUnit env log u; (o2, log2) = executeUnits env log1 us in (o1 @ o2, log2))"

definition ExecuteAutomaticContainerUpdates :: "stack_env \<Rightarrow> docker_log \<Rightarrow> UpdateExecutionTarget list \<Rightarrow> UpdateExecutionOutcome list docker_result" where
  "ExecuteAutomaticContainerUpdates env log targets = executeUnits env log (groupAutomaticUpdateTargets targets)"

subsection \<open>Removing the image an update left\<close>

text \<open>The daemon's answers: containers that use the image, its tags, and the removal without force.\<close>

datatype image_error = NotFoundError | ConflictError | OtherError string

record image_env =
  ie_users :: "string \<Rightarrow> string + nat"
  ie_tags :: "string \<Rightarrow> image_error + string list"
  ie_remove :: "string \<Rightarrow> image_error option"
  ie_text :: "image_error \<Rightarrow> string"

text \<open>Beside the answer, whether the removal was asked for.\<close>

definition RemovePreviousImageIfUnused :: "image_env \<Rightarrow> string \<Rightarrow> (bool \<times> string \<times> string option) \<times> bool" where
  "RemovePreviousImageIfUnused env imageID0 =
     (let imageID = TrimSpace imageID0 in
      if imageID = [] then ((False, ''empty previous image id'', None), False)
      else case ie_users env imageID of
        Inl e \<Rightarrow> ((False, [], Some (''inspect previous image usage: '' @ e)), False)
      | Inr n \<Rightarrow>
          if n > 0 then ((False, ''retained: still referenced by '' @ Itoa n @ '' running or stopped container(s)'', None), False)
          else case ie_tags env imageID of
            Inl NotFoundError \<Rightarrow> ((True, ''previous image was already absent'', None), False)
          | Inl e \<Rightarrow> ((False, [], Some (''inspect previous image: '' @ ie_text env e)), False)
          | Inr tags \<Rightarrow>
              (case filter (\<lambda>t. t \<noteq> [] \<and> t \<noteq> ''<none>:<none>'') (map TrimSpace tags) of
                 t # _ \<Rightarrow> ((False, ''retained: image still has repository tag '' @ t, None), False)
               | [] \<Rightarrow>
                   (case ie_remove env imageID of
                      None \<Rightarrow> ((True, ''previous image removed safely without force'', None), True)
                    | Some ConflictError \<Rightarrow>
                        ((False, ''retained by Docker because the image or one of its descendants is still referenced'', None), True)
                    | Some NotFoundError \<Rightarrow> ((True, ''previous image was already absent'', None), True)
                    | Some (OtherError e) \<Rightarrow> ((False, [], Some (''remove previous image without force: '' @ ie_text env (OtherError e))), True))))"

subsection \<open>A stack stays coherent\<close>

definition states :: "UpdateExecutionOutcome list \<Rightarrow> string list" where
  "states os = map oc_State os"

definition names :: "UpdateExecutionOutcome list \<Rightarrow> string list" where
  "names os = map tg_ContainerName os"

lemma execution_states_distinct:
  "ExecutionUpdated \<noteq> ExecutionFailed" "ExecutionUpdated \<noteq> ExecutionRolledBack" "ExecutionUpdated \<noteq> ExecutionSkipped"
  "ExecutionUpdated \<noteq> ExecutionCurrent"
  by (simp_all add: ExecutionCurrent_def ExecutionUpdated_def ExecutionFailed_def ExecutionRolledBack_def ExecutionSkipped_def)

lemma map_update_same: "f x = f (xs ! i) \<Longrightarrow> map f (xs[i := x]) = map f xs"
proof (cases "i < length xs")
  case True
  then have "(map f xs)[i := f (xs ! i)] = map f xs" by (metis list_update_id nth_map)
  then show "f x = f (xs ! i) \<Longrightarrow> ?thesis" by (simp add: map_update)
qed (simp add: list_update_beyond)

lemma setOutcome_view [simp]:
  "length (setOutcome i s m os) = length os" "states (setOutcome i s m os) = (states os)[i := s]" "names (setOutcome i s m os) = names os"
proof -
  show "names (setOutcome i s m os) = names os" unfolding setOutcome_def names_def by (rule map_update_same) simp
qed (simp_all add: setOutcome_def states_def map_update)

lemma mark_view [simp]:
  "length (markUnprocessedStackTargets os n m) = length os" "states (markUnprocessedStackTargets os n m) = states os"
  "names (markUnprocessedStackTargets os n m) = names os"
proof -
  have "map oc_State (map (\<lambda>o1. if P o1 then o1\<lparr>oc_Message := m\<rparr> else o1) xs) = map oc_State xs"
    "map tg_ContainerName (map (\<lambda>o1. if P o1 then o1\<lparr>oc_Message := m\<rparr> else o1) xs) = map tg_ContainerName xs" for xs and P :: "UpdateExecutionOutcome \<Rightarrow> bool"
    by (induction xs) auto
  then show "states (markUnprocessedStackTargets os n m) = states os" "names (markUnprocessedStackTargets os n m) = names os"
    unfolding markUnprocessedStackTargets_def states_def names_def by (simp_all only: map_append) (simp_all flip: map_append)
qed (simp add: markUnprocessedStackTargets_def)

lemma length_states [simp]: "length (states os) = length os"
  by (simp add: states_def)

lemma update_view [simp]:
  "states (os[i := (os ! i)\<lparr>oc_PreviousImage := p\<rparr>]) = states os" "names (os[i := (os ! i)\<lparr>oc_PreviousImage := p\<rparr>]) = names os"
  "states (os[i := (os ! i)\<lparr>oc_Message := m\<rparr>]) = states os" "names (os[i := (os ! i)\<lparr>oc_Message := m\<rparr>]) = names os"
  "states (os[i := (os ! i)\<lparr>tg_ContainerID := c\<rparr>]) = states os" "names (os[i := (os ! i)\<lparr>tg_ContainerID := c\<rparr>]) = names os"
  unfolding states_def names_def by (rule map_update_same; simp)+

definition undone :: "string set" where
  "undone = {ExecutionFailed, ExecutionRolledBack}"

lemma rollbackLoop_view:
  assumes "rollbackLoop env log name as os = (os', log')" "\<forall>a \<in> set as. ap_index a < length os"
  shows "length os' = length os \<and> names os' = names os \<and>
    (\<forall>j < length os. if j \<in> ap_index ` set as then states os' ! j \<in> undone else states os' ! j = states os ! j)"
  using assms
proof (induction as arbitrary: os log)
  case (Cons a as)
  obtain r log1 where r: "RestoreContainerImage env log (ap_name a) (ap_image a) True = (r, log1)" by fastforce
  obtain s m base where st: "rollbackLoop env log1 name as (setOutcome (ap_index a) s m base) = (os', log')" "s \<in> undone"
    "states base = states os" "names base = names os" "length base = length os"
  proof (cases r)
    case (Inl e)
    then show thesis using Cons.prems(1) r by (intro that [of ExecutionFailed _ os]) (auto simp: undone_def)
  next
    case (Inr i)
    then show thesis using Cons.prems(1) r
      by (intro that [of ExecutionRolledBack _ "os[ap_index a := (os ! ap_index a)\<lparr>tg_ContainerID := i\<rparr>]"]) (auto simp: undone_def)
  qed
  have ih: "length os' = length os" "names os' = names os"
    "\<And>j. j < length os \<Longrightarrow> if j \<in> ap_index ` set as then states os' ! j \<in> undone else states os' ! j = (states os)[ap_index a := s] ! j"
    using Cons.IH [OF st(1)] st(3-) Cons.prems(2) by auto
  have "if j \<in> ap_index ` set (a # as) then states os' ! j \<in> undone else states os' ! j = states os ! j" if "j < length os" for j
    using ih(3) [OF that] st(2) that by (cases "j = ap_index a") (auto split: if_splits)
  then show ?case using ih(1,2) by blast
qed simp

text \<open>What the application loop has done before the target \<open>i\<close>.\<close>

definition applied_ok :: "nat \<Rightarrow> appliedStackUpdate list \<Rightarrow> UpdateExecutionOutcome list \<Rightarrow> bool" where
  "applied_ok i applied os \<longleftrightarrow> (\<forall>a \<in> set applied. ap_index a < i) \<and>
     (\<forall>j < i. j < length os \<longrightarrow> (states os ! j = ExecutionUpdated \<and> j \<in> ap_index ` set applied) \<or> states os ! j = ExecutionCurrent) \<and>
     (\<forall>j \<ge> i. j < length os \<longrightarrow> states os ! j = ExecutionSkipped)"

definition coherent :: "UpdateExecutionOutcome list \<Rightarrow> bool" where
  "coherent os \<longleftrightarrow> (ExecutionUpdated \<in> set (states os) \<longrightarrow> set (states os) \<subseteq> {ExecutionUpdated, ExecutionCurrent})"

lemma stackApply_view:
  assumes "stackApply env log stack rollback i ts applied os = (os', log')" "length os = i + length ts" "applied_ok i applied os"
  shows "length os' = length os \<and> names os' = names os \<and> (rollback \<longrightarrow> coherent os')"
  using assms
proof (induction ts arbitrary: log i applied os)
  case Nil
  have "set (states os) \<subseteq> {ExecutionUpdated, ExecutionCurrent}"
    using Nil(2,3) by (fastforce simp: applied_ok_def in_set_conv_nth)
  then show ?case using Nil by (simp add: coherent_def)
next
  case (Cons t ts)
  obtain result err log1 where f: "ForceUpdateContainer env log (tg_ContainerID t)
      \<lparr>fo_VerifyHealth = tg_RollbackEnabled t, fo_ImagePrepared = True, fo_ImageReference = tg_Image t\<rparr> = ((result, err), log1)"
    by (metis prod.collapse)
  let ?o1 = "os[i := (os ! i)\<lparr>oc_PreviousImage := previousImageOf result\<rparr>]"
  have i: "i < length os" using Cons.prems(2) by simp
  note def = Cons.prems(1) [unfolded stackApply.simps f prod.case Let_def]
  show ?case
  proof (cases err)
    case None
    show ?thesis
    proof (cases "wasUpdated result")
      case True
      let ?a = "\<lparr>ap_index = i, ap_name = resultName result, ap_image = previousImageOf result\<rparr>"
      let ?o2 = "setOutcome i ExecutionUpdated (''stack '' @ stack @ '' updated coherently'') ?o1"
      have "applied_ok (Suc i) (applied @ [?a]) ?o2"
        using Cons.prems(3) i unfolding applied_ok_def by (auto simp: nth_list_update less_Suc_eq)
      then show ?thesis using Cons.IH [of log1 "Suc i" "applied @ [?a]" ?o2] def None True Cons.prems(2) by simp
    next
      case False
      let ?o2 = "setOutcome i ExecutionCurrent ''image became current during stack execution'' ?o1"
      have "ExecutionCurrent \<noteq> ExecutionUpdated" by (simp add: ExecutionCurrent_def ExecutionUpdated_def)
      then have "applied_ok (Suc i) applied ?o2"
        using Cons.prems(3) i unfolding applied_ok_def by (auto simp: nth_list_update less_Suc_eq)
      then show ?thesis using Cons.IH [of log1 "Suc i" applied ?o2] def None False Cons.prems(2) by simp
    qed
  next
    case (Some e)
    define s where "s = (if IsRolledBack e then ExecutionRolledBack else ExecutionFailed)"
    define o3 where "o3 = markUnprocessedStackTargets (setOutcome i s (err_text e) ?o1) (Suc i) ''stack transaction stopped after a member failed''"
    have s: "s \<in> undone" by (simp add: s_def undone_def)
    have o3: "length o3 = length os" "names o3 = names os" "states o3 = (states os)[i := s]" by (simp_all add: o3_def)
    have notup: "x \<noteq> ExecutionUpdated" if "x \<in> undone" for x using that execution_states_distinct by (auto simp: undone_def)
    have early: "states o3 ! j \<noteq> ExecutionUpdated" if "j < length os" "j \<notin> ap_index ` set applied" for j
      using that Cons.prems(3) i o3(3) s notup execution_states_distinct
      by (cases "j = i"; cases "j < i") (auto simp: applied_ok_def nth_list_update)
    consider (undo) "rollback" "applied \<noteq> []" | (none) "applied = []" | (kept) "\<not> rollback" "applied \<noteq> []" by blast
    then show ?thesis
    proof cases
      case undo
      then have run: "rollbackLoop env log1 (tg_ContainerName (o3 ! i)) (rev applied) o3 = (os', log')"
        using def Some unfolding o3_def s_def rollbackAppliedStackTargets_def by simp
      have v: "length os' = length os" "names os' = names os"
        "\<And>j. j < length os \<Longrightarrow> if j \<in> ap_index ` set applied then states os' ! j \<in> undone else states os' ! j = states o3 ! j"
      proof -
        have "\<forall>a \<in> set applied. ap_index a < length os" using Cons.prems(3) i by (auto simp: applied_ok_def)
        then show "length os' = length os" "names os' = names os"
          "\<And>j. j < length os \<Longrightarrow> if j \<in> ap_index ` set applied then states os' ! j \<in> undone else states os' ! j = states o3 ! j"
          using rollbackLoop_view [OF run] o3 by simp_all
      qed
      have "states os' ! j \<noteq> ExecutionUpdated" if "j < length os" for j
        using v(3) [OF that] early [OF that] notup by (auto split: if_splits)
      then show ?thesis using v(1,2) by (auto simp: coherent_def in_set_conv_nth)
    next
      case none
      then have "os' = o3" using def Some unfolding o3_def s_def by simp
      moreover have "ExecutionUpdated \<notin> set (states o3)" using early none o3(1) by (auto simp: in_set_conv_nth)
      ultimately show ?thesis using o3 by (simp add: coherent_def)
    next
      case kept
      then show ?thesis using def Some o3 unfolding o3_def [symmetric] s_def [symmetric] by auto
    qed
  qed
qed

lemma callList_within: "callList env log fs = (x, l) \<Longrightarrow> within A log l"
  using within_calls(6) [of A log env fs] by simp

lemma validateAutomaticTarget_reads: "within A log (snd (validateAutomaticTarget env log t))"
  unfolding validateAutomaticTarget_def ContainerListByIDs_def
  by (auto dest: callList_within split: sum.split prod.split list.split)

definition all_skipped :: "UpdateExecutionOutcome list \<Rightarrow> bool" where
  "all_skipped os \<longleftrightarrow> (\<forall>s \<in> set (states os). s = ExecutionSkipped)"

lemma all_skipped_set: "all_skipped os \<Longrightarrow> all_skipped (setOutcome i ExecutionSkipped m os)"
  by (auto simp: all_skipped_def dest!: set_update_subset_insert [THEN subsetD])

lemma all_skipped_mark [simp]: "all_skipped (markUnprocessedStackTargets os n m) = all_skipped os"
  by (simp add: all_skipped_def)

lemma stackPreflight_view:
  assumes "stackPreflight env log i ts os = (r, log')" "all_skipped os"
  shows "within {} log log' \<and> (\<forall>os'. r = Some os' \<longrightarrow> all_skipped os' \<and> names os' = names os)"
  using assms
proof (induction env log i ts os rule: stackPreflight.induct)
  case (2 env log i t ts os)
  obtain v log1 where v: "validateAutomaticTarget env log t = (v, log1)" by fastforce
  have w: "within {} log log1" using validateAutomaticTarget_reads [of "{}" log env t] v by simp
  show ?case
  proof (cases "\<exists>reason. v = Inr reason \<and> reason = []")
    case True
    then show ?thesis using 2 v w within_trans [OF w] by auto
  next
    case False
    then show ?thesis using 2(2,3) v w all_skipped_set by (cases v) (auto split: if_splits)
  qed
qed simp

lemma stackPreload_view:
  assumes "stackPreload env log i pulled ts os = (r, log')" "all_skipped os" "\<forall>img \<in> set pulled. (Pull img, True) \<in> set log"
  shows "within {} log log' \<and> (\<forall>os'. r = Some os' \<longrightarrow> all_skipped os' \<and> names os' = names os) \<and>
    (r = None \<longrightarrow> (\<forall>t \<in> set ts. (Pull (tg_Image t), True) \<in> set log'))"
  using assms
proof (induction env log i pulled ts os rule: stackPreload.induct)
  case (2 env log i pulled t ts os)
  let ?log1 = "log @ [(Pull (tg_Image t), dk_pull env log (tg_Image t) = None)]"
  have w: "within {} log ?log1" by (simp add: within_snoc)
  show ?case
  proof (cases "tg_Image t \<in> set pulled")
    case True
    then have "stackPreload env log (Suc i) pulled ts os = (r, log')" using 2(3) by simp
    from 2(1) [OF True this 2(4,5)] show ?thesis using True 2(5) by (auto dest!: within_subset)
  next
    case False
    show ?thesis
    proof (cases "dk_pull env log (tg_Image t)")
      case None
      then have "stackPreload env ?log1 (Suc i) (tg_Image t # pulled) ts os = (r, log')" using 2(3) False by simp
      from 2(2) [OF False refl refl None this 2(4)] show ?thesis
        using None 2(5) within_trans [OF w] by (auto dest: within_subset)
    next
      case (Some e)
      then show ?thesis using 2(3,4) False w all_skipped_set by auto
    qed
  qed
qed simp

lemma outcomeOf_view: "states (map (\<lambda>t. outcomeOf t s) ts) = map (\<lambda>_. s) ts" "names (map (\<lambda>t. outcomeOf t s) ts) = map tg_ContainerName ts"
  by (simp_all add: states_def names_def outcomeOf_def comp_def UpdateExecutionTarget.defs UpdateExecutionOutcome.defs)

text \<open>Every part of a transaction only adds to the log.\<close>

lemma ForceUpdateContainer_extends: "within UNIV log (snd (ForceUpdateContainer env log cid opts))"
  unfolding ForceUpdateContainer_def ContainerListByIDs_def Let_def
  by (rule within_bind, rule within_bind)
    (auto simp: within_calls split: sum.split list.split intro!: within_bind within_forceUpdateContainer)

lemma RestoreContainerImage_extends: "within UNIV log (snd (RestoreContainerImage env log name img v))"
  unfolding RestoreContainerImage_def Let_def
  by (auto intro!: within_bind within_recreate simp: within_calls split: sum.split list.split option.split)

lemma rollbackLoop_extends: "within UNIV log (snd (rollbackLoop env log name as os))"
proof (induction as arbitrary: log os)
  case (Cons a as)
  show ?case unfolding rollbackLoop.simps
    by (rule within_bind, rule RestoreContainerImage_extends) (auto simp: Cons split: sum.split)
qed simp

lemma stackApply_extends: "within UNIV log (snd (stackApply env log stack rollback i ts applied os))"
proof (induction ts arbitrary: log i applied os)
  case (Cons t ts)
  show ?case unfolding stackApply.simps Let_def
    by (rule within_bind, rule ForceUpdateContainer_extends)
      (auto simp: Cons rollbackAppliedStackTargets_def rollbackLoop_extends split: option.split)
qed simp

lemma stackTransaction_view:
  assumes "stackTransaction env stack ts (map (\<lambda>t. outcomeOf t ExecutionSkipped) ts) log = (os', log')"
  shows "names os' = map tg_ContainerName ts \<and> (list_all tg_RollbackEnabled ts \<longrightarrow> coherent os') \<and>
    (within {} log log' \<and> all_skipped os' \<or> (\<forall>t \<in> set ts. (Pull (tg_Image t), True) \<in> set log'))"
proof -
  let ?os = "map (\<lambda>t. outcomeOf t ExecutionSkipped) ts"
  have sk: "all_skipped ?os" by (simp add: all_skipped_def outcomeOf_view)
  have coh: "all_skipped os \<Longrightarrow> coherent os" for os using execution_states_distinct by (auto simp: all_skipped_def coherent_def)
  obtain r1 log1 where p1: "stackPreflight (se_dk env) log 0 ts ?os = (r1, log1)" by fastforce
  note v1 = stackPreflight_view [OF p1 sk]
  show ?thesis
  proof (cases r1)
    case (Some o1)
    then show ?thesis using assms p1 v1 coh by (auto simp: stackTransaction_def outcomeOf_view)
  next
    case None
    obtain r2 log2 where p2: "stackPreload (se_dk env) log1 0 [] ts ?os = (r2, log2)" by fastforce
    note v2 = stackPreload_view [OF p2 sk]
    show ?thesis
    proof (cases r2)
      case (Some o2)
      then show ?thesis using assms p1 p2 None v1 v2 coh within_trans by (auto simp: stackTransaction_def outcomeOf_view)
    next
      case none: None
      have run: "stackApply (se_dk env) log2 stack (list_all tg_RollbackEnabled ts) 0 ts [] ?os = (os', log')"
        using assms p1 p2 None none by (simp add: stackTransaction_def)
      have "applied_ok 0 [] ?os" by (simp add: applied_ok_def outcomeOf_view)
      from stackApply_view [OF run _ this] have v3: "names os' = map tg_ContainerName ts" "list_all tg_RollbackEnabled ts \<longrightarrow> coherent os'"
        by (simp_all add: outcomeOf_view)
      have "(Pull (tg_Image t), True) \<in> set log'" if "t \<in> set ts" for t
      proof -
        have "(Pull (tg_Image t), True) \<in> set log2" using v2 none that by auto
        moreover have "within UNIV log2 log'" using stackApply_extends run by (metis snd_conv)
        ultimately show ?thesis using within_subset by blast
      qed
      then show ?thesis using v3 by blast
    qed
  qed
qed

lemma lockRefused_set:
  "lockRefused e os = setOutcome 0 ExecutionSkipped (''stack action lock unavailable, will be retried: '' @ e)
     (markUnprocessedStackTargets os 0 (''stack transaction could not acquire its action lock: '' @ e))"
proof -
  have "setOutcome i s m [] = []" for i s m by (simp add: setOutcome_def)
  then show ?thesis unfolding lockRefused_def Let_def by metis
qed


subsection \<open>Dependencies come first\<close>

definition dependsOn :: "string set \<Rightarrow> UpdateExecutionTarget \<Rightarrow> string set" where
  "dependsOn services t = set (composeTargetDependencies (tg_DependsOn t) services)"

lemma dependsOn_services: "dependsOn services t \<subseteq> services"
  by (auto simp: dependsOn_def composeTargetDependencies_def)

text \<open>Every target of the list has its dependencies among the services finished before it.\<close>

fun in_order :: "string set \<Rightarrow> string set \<Rightarrow> UpdateExecutionTarget list \<Rightarrow> bool" where
  "in_order services finished [] = True"
| "in_order services finished (t # ts) = (dependsOn services t \<subseteq> finished \<and>
     in_order services (finished \<union> stackServices [t]) ts)"

lemma stackServices_simps [simp]:
  "stackServices [] = {}" "stackServices (a @ b) = stackServices a \<union> stackServices b"
  "stackServices (t # ts) = (if tg_ServiceName t = [] then {} else {tg_ServiceName t}) \<union> stackServices ts"
  by (auto simp: stackServices_def)

lemma in_order_append:
  "in_order services finished (a @ b) \<longleftrightarrow> in_order services finished a \<and> in_order services (finished \<union> stackServices a) b"
  by (induction a arbitrary: finished) (auto simp: Un_assoc)

lemma readyPass_spec:
  assumes "readyPass services finished ts = (ordered, remaining, f)"
  shows "mset ts = mset ordered + mset remaining \<and> f = finished \<union> stackServices ordered \<and> in_order services finished ordered \<and>
    (ordered = [] \<longrightarrow> (\<forall>t \<in> set remaining. \<not> dependsOn services t \<subseteq> finished))"
  using assms
proof (induction services finished ts arbitrary: ordered remaining f rule: readyPass.induct)
  case (2 services finished t ts)
  show ?case
  proof (cases "dependsOn services t \<subseteq> finished")
    case True
    then show ?thesis using 2(1,3) by (auto simp: dependsOn_def Let_def split: prod.splits if_splits)
  next
    case False
    then show ?thesis using 2(2,3) by (auto simp: dependsOn_def Let_def split: prod.splits)
  qed
qed auto

lemma orderLoop_spec:
  "\<exists>a b. orderLoop services finished ts = a @ b \<and> mset (a @ b) = mset ts \<and> in_order services finished a \<and>
     (\<forall>t \<in> set b. \<not> dependsOn services t \<subseteq> finished \<union> stackServices a)"
proof (induction services finished ts rule: orderLoop.induct)
  case (1 services finished ts)
  obtain ordered remaining f where r: "readyPass services finished ts = (ordered, remaining, f)" using prod_cases3 by blast
  note sp = readyPass_spec [OF r]
  show ?case
  proof (cases "ordered = [] \<or> remaining = []")
    case True
    then show ?thesis using r sp
      by (intro exI [of _ ordered] exI [of _ remaining]) (auto simp: orderLoop.simps [of services finished ts])
  next
    case False
    then obtain a b where ab: "orderLoop services f remaining = a @ b" "mset (a @ b) = mset remaining" "in_order services f a"
      "\<forall>t \<in> set b. \<not> dependsOn services t \<subseteq> f \<union> stackServices a" using 1 [OF r [symmetric] refl] by blast
    have "orderLoop services finished ts = (ordered @ a) @ b" using r False ab(1) by (simp add: orderLoop.simps [of services finished ts])
    then show ?thesis using ab sp
      by (intro exI [of _ "ordered @ a"] exI [of _ b]) (auto simp: in_order_append Un_assoc)
  qed
qed

text \<open>
  C10: A stack is updated in dependency order.  The order is a permutation of the targets: first
  a part in which every target comes after a target of each service it depends on, then the
  targets whose dependencies cannot be met, in a fixed order.  When the dependencies have no
  cycle the second part is empty.
\<close>

theorem orderStackUpdateTargets_dependencies:
  "\<exists>a b. orderStackUpdateTargets ts = a @ b \<and> mset (a @ b) = mset ts \<and> in_order (stackServices ts) {} a \<and>
     (\<forall>t \<in> set b. \<not> dependsOn (stackServices ts) t \<subseteq> stackServices a) \<and>
     ((\<exists>rank :: UpdateExecutionTarget \<Rightarrow> nat. \<forall>t \<in> set ts. \<forall>u \<in> set ts. tg_ServiceName u \<in> dependsOn (stackServices ts) t \<longrightarrow> rank u < rank t) \<longrightarrow> b = [])"
proof -
  define srt where "srt = sort_key (\<lambda>t. ToLower (tg_ContainerName t)) ts"
  have "stackServices srt = stackServices ts" by (simp add: stackServices_def srt_def)
  then obtain a b where ab: "orderStackUpdateTargets ts = a @ b" "mset (a @ b) = mset ts" "in_order (stackServices ts) {} a"
    "\<forall>t \<in> set b. \<not> dependsOn (stackServices ts) t \<subseteq> stackServices a"
    using orderLoop_spec [of "stackServices ts" "{}" srt] unfolding orderStackUpdateTargets_def Let_def srt_def [symmetric]
    by (auto simp: srt_def)
  have sets: "set ts = set a \<union> set b" using mset_eq_setD [OF ab(2)] by simp
  have "b = []" if rank: "\<forall>t \<in> set ts. \<forall>u \<in> set ts. tg_ServiceName u \<in> dependsOn (stackServices ts) t \<longrightarrow> rank u < rank t"
    for rank :: "UpdateExecutionTarget \<Rightarrow> nat"
  proof (rule ccontr)
    assume "b \<noteq> []"
    then obtain t where t: "t \<in> set b" "\<And>u. u \<in> set b \<Longrightarrow> rank t \<le> rank u"
      using ex_min_if_finite [of "rank ` set b"] by (metis arg_min_least finite_set set_empty arg_min_if_finite(1))
    then obtain d where d: "d \<in> dependsOn (stackServices ts) t" "d \<notin> stackServices a" using ab(4) by blast
    then have "d \<in> stackServices ts" using dependsOn_services by blast
    then obtain u where u: "u \<in> set ts" "tg_ServiceName u = d" "d \<noteq> []" by (auto simp: stackServices_def)
    then have "u \<in> set b" using d(2) sets by (auto simp: stackServices_def)
    moreover have "rank u < rank t" using rank u d(1) t(1) sets by auto
    ultimately show False using t(2) by fastforce
  qed
  then show ?thesis using ab by blast
qed

subsection \<open>Two runs\<close>

text \<open>
  A daemon with two stopped members: replacing \<open>a\<close> succeeds, the replacement of \<open>b\<close> cannot be
  created, and by its name \<open>a\<close> is found under its new id.
\<close>

definition stackDaemon :: docker_env where
  "stackDaemon = crashingEnv
     \<lparr>dk_list := \<lambda>_ fs. Inr (map (\<lambda>(k, v). if k = ''id'' then sampleContainer v ''p'' else (sampleContainer ''a2'' ''p'')\<lparr>cs_Names := [''/a'']\<rparr>) fs),
      dk_inspect := \<lambda>_ _. Inr (sampleInspect False),
      dk_create := \<lambda>_ opts. if HasPrefix (co_Name opts) ''a'' then Inr ''a2'' else Inl ''no space left on device'',
      dk_images := \<lambda>_ _. Inr [\<lparr>img_ID = ''sha256:2'', img_Created = 1\<rparr>]\<rparr>"

definition stackTarget :: "string \<Rightarrow> UpdateExecutionTarget" where
  "stackTarget cid = (sampleTarget cid ''d1'')\<lparr>tg_TargetType := UpdateTargetStack, tg_StackName := ''p'', tg_StackKey := ''p'', tg_ServiceName := cid\<rparr>"

definition stackUnit :: automaticUpdateUnit where
  "stackUnit = \<lparr>uu_key = ''stack:p'', uu_stackName = ''p'', uu_transactional = True, uu_targets = [stackTarget ''a'', stackTarget ''b'']\<rparr>"

definition stackEnv :: "docker_env \<Rightarrow> stack_env" where
  "stackEnv dk = \<lparr>se_dk = dk, se_path = (\<lambda>_. []), se_locked = (\<lambda>_ _. False), se_logs = (\<lambda>_. [])\<rparr>"


text \<open>
  A registry that cannot be reached takes a healthy container out of automatic updates.  The
  unit of one container counts the update as attempted before the pull that starts it, so when
  the pull fails, nothing was touched and yet the outcome is failed, and saving it arms the
  circuit breaker for the digest.
\<close>

theorem container_unit_pull_failure_blocks:
  "let (o1, log') = executeAutomaticContainerUnit (stackEnv (crashingEnv\<lparr>dk_list := \<lambda>_ fs. Inr (map (\<lambda>(_, v). sampleContainer v []) fs),
         dk_pull := \<lambda>_ _. Some ''dial tcp: i/o timeout''\<rparr>)) [] (sampleTarget ''c'' ''d1'')
   in oc_State o1 = ExecutionFailed \<and> list_all (\<lambda>(c, _). touched c = {}) (filter snd log') \<and>
      ExecutionBlock None ''h'' ''c'' ''d1'' (snd (SaveExecution None 7 sampleRun [o1] emptyDB)) = Inr True"
  by code_simp

text \<open>
  A stack rollback is recorded wrongly.  The rollback writes the restored container's new id
  into the outcome, so the run looks for an outcome of the old id, finds none and records a
  second, failed one for a container that no longer exists: two targets give three outcomes,
  one of them blamed on the executor.
\<close>

theorem stack_rollback_counted_twice:
  "let st = executeTargets (sampleAutomationEnv updatesAll) (\<lambda>_ ts. fst (ExecuteAutomaticContainerUpdates (stackEnv stackDaemon) [] ts))
         (emptyScanRun\<lparr>su_Host := ''h''\<rparr>) [stackTarget ''a'', stackTarget ''b''] idleAutomation
   in map (\<lambda>r. (ex_Targets r, ex_RolledBack r, ex_Failed r)) (db_execRuns (au_db st)) = [(2, 1, 2)] \<and>
      map (\<lambda>r. (er_ContainerID r, er_State r)) (db_execResults (au_db st)) = [(''a2'', ''rolled_back''), (''b'', ''failed''), (''a'', ''failed'')]"
  by code_simp

theorem orderStackUpdateTargets_dependencies_witness:
  "\<exists>a. orderStackUpdateTargets [(stackTarget ''a'')\<lparr>tg_DependsOn := ''b:service_started:true''\<rparr>, stackTarget ''b''] = a \<and> map tg_ContainerName a = [''b'', ''a''] \<and>
     in_order (stackServices [(stackTarget ''a'')\<lparr>tg_DependsOn := ''b:service_started:true''\<rparr>, stackTarget ''b'']) {} a"
proof -
  define ts where "ts = [(stackTarget ''a'')\<lparr>tg_DependsOn := ''b:service_started:true''\<rparr>, stackTarget ''b'']"
  define rank where "rank = (\<lambda>t :: UpdateExecutionTarget. if tg_ServiceName t = ''a'' then 1 else (0 :: nat))"
  have "stackServices ts = {''a'', ''b''}" unfolding ts_def by code_simp
  moreover have "map (\<lambda>t. composeTargetDependencies (tg_DependsOn t) {''a'', ''b''}) ts = [[''b''], []]" "map tg_ServiceName ts = [''a'', ''b'']"
    unfolding ts_def by code_simp+
  ultimately have "\<forall>t \<in> set ts. \<forall>u \<in> set ts. tg_ServiceName u \<in> dependsOn (stackServices ts) t \<longrightarrow> rank u < rank t"
    by (simp add: ts_def rank_def dependsOn_def)
  moreover have "map tg_ContainerName (orderStackUpdateTargets ts) = [''b'', ''a'']" unfolding ts_def by code_simp
  ultimately show ?thesis using orderStackUpdateTargets_dependencies [of ts] unfolding ts_def [symmetric] by (metis append_Nil2)
qed

end
