(* ===== verification/Go_Path.thy ===== *)
theory Go_Path
  imports Go_Prelude
begin

section \<open>Slash-separated paths\<close>

text \<open>
  The functions of Go's packages \<open>path\<close> and \<open>strings\<close> that the Git synchronisation uses on
  relative paths, with their laws on lists of components.  The program runs on Linux, where
  \<open>filepath\<close> agrees with \<open>path\<close> and \<open>ToSlash\<close>, \<open>FromSlash\<close> are the identity.
\<close>

definition HasSuffix :: "string \<Rightarrow> string \<Rightarrow> bool" where
  "HasSuffix s p = HasPrefix (rev s) (rev p)"

definition TrimSuffix :: "string \<Rightarrow> string \<Rightarrow> string" where
  "TrimSuffix s p = (if HasSuffix s p then take (length s - length p) s else s)"

text \<open>\<open>strings.Trim(s, "/")\<close>\<close>

definition trimSlash :: "string \<Rightarrow> string" where
  "trimSlash s = rev (dropWhile (\<lambda>c. c = CHR ''/'') (rev (dropWhile (\<lambda>c. c = CHR ''/'') s)))"

text \<open>\<open>path.Dir\<close>: everything up to the last slash, cleaned.\<close>

definition path_dir :: "string \<Rightarrow> string" where
  "path_dir p = path_clean (case LastIndexByte p (CHR ''/'') of None \<Rightarrow> [] | Some i \<Rightarrow> take (Suc i) p)"

text \<open>\<open>path.Base\<close>: the last component.\<close>

definition path_base :: "string \<Rightarrow> string" where
  "path_base p =
     (if p = [] then ''.''
      else let q = rev (dropWhile (\<lambda>c. c = CHR ''/'') (rev p))
           in if q = [] then ''/'' else (case LastIndexByte q (CHR ''/'') of None \<Rightarrow> q | Some i \<Rightarrow> drop (Suc i) q))"

definition path_join :: "string list \<Rightarrow> string" where
  "path_join ps = (let qs = filter (\<lambda>p. p \<noteq> []) ps in if qs = [] then [] else path_clean (Join qs ''/''))"

text \<open>The test \<open>p == d || strings.HasPrefix(p, d+"/")\<close>.\<close>

definition inside :: "string \<Rightarrow> string \<Rightarrow> bool" where
  "inside p d \<longleftrightarrow> p = d \<or> HasPrefix p (d @ ''/'')"

subsection \<open>Component lists\<close>

lemma Join_append: "ps \<noteq> [] \<Longrightarrow> qs \<noteq> [] \<Longrightarrow> Join (ps @ qs) sep = Join ps sep @ sep @ Join qs sep"
  by (induction ps sep rule: Join.induct) (auto simp: Join_Cons)

definition parts_ok :: "string list \<Rightarrow> bool" where
  "parts_ok ps \<longleftrightarrow> ps \<noteq> [] \<and> (\<forall>p \<in> set ps. p \<noteq> [] \<and> p \<noteq> ''.'' \<and> p \<noteq> ''..'' \<and> CHR ''/'' \<notin> set p)"

lemma parts_ok_clean_ok: "parts_ok ps \<Longrightarrow> clean_ok r (rev ps)"
proof -
  have "\<forall>p \<in> set qs. p \<noteq> [] \<and> p \<noteq> ''.'' \<and> p \<noteq> ''..'' \<and> CHR ''/'' \<notin> set p \<Longrightarrow> clean_ok r qs" for qs
    by (induction qs) auto
  then show "parts_ok ps \<Longrightarrow> clean_ok r (rev ps)" by (simp add: parts_ok_def)
qed

lemma parts_ok_split: "parts_ok ps \<Longrightarrow> Split (Join ps ''/'') (CHR ''/'') = ps"
  unfolding parts_ok_def by (rule Split_Join) auto

lemma Join_inj: "parts_ok ps \<Longrightarrow> parts_ok qs \<Longrightarrow> Join ps ''/'' = Join qs ''/'' \<Longrightarrow> ps = qs"
  by (metis parts_ok_split)

lemma parts_ok_hd: "parts_ok ps \<Longrightarrow> Join ps ''/'' \<noteq> [] \<and> \<not> HasPrefix (Join ps ''/'') ''/'' \<and> Join ps ''/'' \<noteq> ''.''"
proof -
  assume ok: "parts_ok ps"
  then obtain c w qs where ps: "ps = (c # w) # qs" "c \<noteq> CHR ''/''"
    unfolding parts_ok_def by (metis list.set_intros(1) neq_Nil_conv)
  have "Join ps ''/'' \<noteq> ''.''"
  proof
    assume "Join ps ''/'' = ''.''"
    then have "ps = Split ''.'' (CHR ''/'')" using parts_ok_split [OF ok] by simp
    then show False using ok by (auto simp: parts_ok_def)
  qed
  then show ?thesis using ps by (cases qs) auto
qed

lemma path_clean_parts: "parts_ok ps \<Longrightarrow> path_clean (Join ps ''/'') = Join ps ''/''"
  using parts_ok_hd [of ps] parts_ok_split [of ps] clean_parts_id [OF parts_ok_clean_ok [of ps False]]
  by (simp add: path_clean_def Let_def)

lemma HasPrefix_slash_iff:
  assumes "parts_ok ps" "parts_ok qs"
  shows "HasPrefix (Join ps ''/'') (Join qs ''/'' @ ''/'') \<longleftrightarrow> (\<exists>rs. rs \<noteq> [] \<and> ps = qs @ rs)"
proof
  assume "HasPrefix (Join ps ''/'') (Join qs ''/'' @ ''/'')"
  then obtain t where t: "Join ps ''/'' = Join qs ''/'' @ ''/'' @ t" by (auto simp: HasPrefix_exists)
  have "Split (Join qs ''/'' @ ''/'' @ t) (CHR ''/'') = qs @ Split t (CHR ''/'')"
  proof -
    have "Join qs ''/'' @ ''/'' @ t = Join (qs @ Split t (CHR ''/'')) ''/''"
      using assms(2) by (simp add: Join_append parts_ok_def)
    moreover have "\<forall>p \<in> set (qs @ Split t (CHR ''/'')). CHR ''/'' \<notin> set p"
      using assms(2) Split_no_sep by (auto simp: parts_ok_def)
    ultimately show ?thesis using assms(2) Split_Join [of "qs @ Split t (CHR ''/'')" "CHR ''/''"] by (simp add: parts_ok_def)
  qed
  then show "\<exists>rs. rs \<noteq> [] \<and> ps = qs @ rs" using t parts_ok_split [OF assms(1)] by (metis Split_nonempty)
next
  assume "\<exists>rs. rs \<noteq> [] \<and> ps = qs @ rs"
  then obtain rs where "rs \<noteq> []" "ps = qs @ rs" by blast
  then show "HasPrefix (Join ps ''/'') (Join qs ''/'' @ ''/'')"
    using assms(2) Join_append [of qs rs "''/''"] by (simp add: HasPrefix_exists parts_ok_def)
qed

lemma inside_iff:
  assumes "parts_ok ps" "parts_ok qs"
  shows "inside (Join ps ''/'') (Join qs ''/'') \<longleftrightarrow> (\<exists>rs. ps = qs @ rs)"
proof -
  have "Join ps ''/'' = Join qs ''/'' \<longleftrightarrow> ps = qs" using Join_inj [OF assms] by blast
  then show ?thesis unfolding inside_def HasPrefix_slash_iff [OF assms] by force
qed

lemma parts_ok_append: "ps \<noteq> [] \<Longrightarrow> parts_ok (ps @ rs) \<Longrightarrow> parts_ok ps"
  by (auto simp: parts_ok_def)

lemma dropWhile_both_ends:
  "s = [] \<or> (\<not> P (hd s) \<and> \<not> P (last s)) \<Longrightarrow> rev (dropWhile P (rev (dropWhile P s))) = s"
proof -
  assume h: "s = [] \<or> (\<not> P (hd s) \<and> \<not> P (last s))"
  then have "dropWhile P s = s" "dropWhile P (rev s) = rev s" by (auto simp: dropWhile_eq_self_iff hd_rev)
  then show ?thesis by simp
qed

lemma trimSlash_parts: "parts_ok ps \<Longrightarrow> trimSlash (Join ps ''/'') = Join ps ''/''"
proof -
  assume ok: "parts_ok ps"
  have hd: "hd (Join ps ''/'') \<noteq> CHR ''/''"
    using parts_ok_hd [OF ok] by (cases "Join ps ''/''") auto
  have "last (Join ps ''/'') \<noteq> CHR ''/''"
  proof -
    obtain qs l where q: "ps = qs @ [l]" "l \<noteq> []" "CHR ''/'' \<notin> set l"
      using ok unfolding parts_ok_def by (metis append_butlast_last_id last_in_set)
    then have "last (Join ps ''/'') = last l"
      by (cases "qs = []") (simp_all add: Join_append)
    then show ?thesis using q last_in_set by metis
  qed
  then show ?thesis using hd unfolding trimSlash_def by (intro dropWhile_both_ends) simp
qed

lemma LastIndexByte_Join:
  "parts_ok (ps @ [l]) \<Longrightarrow> LastIndexByte (Join (ps @ [l]) ''/'') (CHR ''/'') =
     (if ps = [] then None else Some (length (Join ps ''/'')))"
  by (auto simp: parts_ok_def Join_append LastIndexByte_split)

lemma path_clean_trailing: "parts_ok ps \<Longrightarrow> path_clean (Join ps ''/'' @ ''/'') = Join ps ''/''"
proof -
  assume ok: "parts_ok ps"
  have "Split (Join ps ''/'' @ ''/'') (CHR ''/'') = ps @ [[]]"
  proof -
    have "Join ps ''/'' @ ''/'' = Join (ps @ [[]]) ''/''" using ok by (simp add: Join_append parts_ok_def)
    moreover have "\<forall>p \<in> set (ps @ [[]]). CHR ''/'' \<notin> set p" using ok by (auto simp: parts_ok_def)
    ultimately show ?thesis using Split_Join [of "ps @ [[]]" "CHR ''/''"] by simp
  qed
  moreover have "clean_parts False (ps @ [[]]) = clean_parts False ps" by (simp add: clean_parts_def)
  moreover have "\<not> HasPrefix (Join ps ''/'' @ ''/'') ''/''"
    using parts_ok_hd [OF ok] by (cases "Join ps ''/''") auto
  ultimately show ?thesis using clean_parts_id [OF parts_ok_clean_ok [OF ok]] parts_ok_hd [OF ok]
    by (simp add: path_clean_def Let_def)
qed

lemma path_dir_parts:
  "parts_ok (ps @ [l]) \<Longrightarrow> path_dir (Join (ps @ [l]) ''/'') = (if ps = [] then ''.'' else Join ps ''/'')"
proof -
  assume ok: "parts_ok (ps @ [l])"
  show ?thesis
  proof (cases "ps = []")
    case True
    then have "LastIndexByte l (CHR ''/'') = None" using ok by (simp add: parts_ok_def)
    moreover have "path_clean [] = ''.''" by (simp add: path_clean_def clean_parts_def)
    ultimately show ?thesis using True by (simp add: path_dir_def del: LastIndexByte_None)
  next
    case False
    then have "take (Suc (length (Join ps ''/''))) (Join (ps @ [l]) ''/'') = Join ps ''/'' @ ''/''"
      by (simp add: Join_append)
    then show ?thesis using False LastIndexByte_Join [OF ok] path_clean_trailing [OF parts_ok_append [OF False ok]]
      by (simp add: path_dir_def)
  qed
qed

lemma path_base_parts: "parts_ok (ps @ [l]) \<Longrightarrow> path_base (Join (ps @ [l]) ''/'') = l"
proof -
  assume ok: "parts_ok (ps @ [l])"
  define J where "J = Join (ps @ [l]) ''/''"
  have ne: "J \<noteq> []" using parts_ok_hd [OF ok] by (simp add: J_def)
  have l1: "l \<noteq> []" "CHR ''/'' \<notin> set l" using ok by (simp_all add: parts_ok_def)
  then have l: "l \<noteq> []" "last l \<noteq> CHR ''/''" using last_in_set [of l] by metis+
  have "last J = last l" using l(1) by (cases "ps = []") (simp_all add: Join_append J_def)
  then have "dropWhile (\<lambda>c. c = CHR ''/'') (rev J) = rev J"
    using ne l by (simp add: dropWhile_eq_self_iff hd_rev)
  then have "path_base J = (case LastIndexByte J (CHR ''/'') of None \<Rightarrow> J | Some i \<Rightarrow> drop (Suc i) J)"
    using ne by (simp add: path_base_def)
  also have "\<dots> = l"
  proof (cases "ps = []")
    case True
    moreover have "LastIndexByte l (CHR ''/'') = None" using l1 by simp
    ultimately show ?thesis by (simp add: J_def del: LastIndexByte_None)
  next
    case False
    then have J: "J = Join ps ''/'' @ CHR ''/'' # l" by (simp add: J_def Join_append)
    show ?thesis unfolding J using LastIndexByte_split [OF l1(2)] by simp
  qed
  finally show ?thesis by (simp add: J_def)
qed

lemma path_join_parts: "parts_ok ps \<Longrightarrow> parts_ok qs \<Longrightarrow> path_join [Join ps ''/'', Join qs ''/''] = Join (ps @ qs) ''/''"
proof -
  assume ok: "parts_ok ps" "parts_ok qs"
  then have "parts_ok (ps @ qs)" by (auto simp: parts_ok_def)
  then show ?thesis using parts_ok_hd [OF ok(1)] parts_ok_hd [OF ok(2)] path_clean_parts [of "ps @ qs"] ok
    by (simp add: path_join_def Join_append parts_ok_def)
qed

text \<open>A path whose cleaned form neither is \<open>.\<close> nor leaves its root is a list of components.\<close>

lemma clean_relative_parts:
  assumes "\<not> HasPrefix v ''/''" "path_clean v \<noteq> ''.''" "path_clean v \<noteq> ''..''" "\<not> HasPrefix (path_clean v) ''../''"
  shows "\<exists>ps. parts_ok ps \<and> path_clean v = Join ps ''/''"
proof -
  define ps where "ps = clean_parts False (Split v (CHR ''/''))"
  have c: "path_clean v = (if Join ps ''/'' = [] then ''.'' else Join ps ''/'')"
    using assms(1) by (simp add: path_clean_def Let_def ps_def)
  have ok: "clean_ok False (rev ps)" by (simp add: ps_def clean_ok_parts)
  have eq: "path_clean v = Join ps ''/''" using c assms(2) by (simp split: if_splits)
  have ne: "ps \<noteq> []" using eq c assms(2) by auto
  have dots1: "clean_ok False qs \<Longrightarrow> qs \<noteq> [] \<Longrightarrow> hd qs = ''..'' \<Longrightarrow> last qs = ''..''" for qs
    by (induction qs) auto
  have dots: "clean_ok False qs \<Longrightarrow> ''..'' \<in> set qs \<Longrightarrow> last qs = ''..''" for qs
  proof (induction qs)
    case (Cons q qs)
    then show ?case using dots1 [of "q # qs"] by (cases "q = ''..''") auto
  qed simp
  have "''..'' \<notin> set ps"
  proof
    assume "''..'' \<in> set ps"
    then have "hd ps = ''..''" using dots [OF ok] ne by (simp add: last_rev)
    then obtain qs where "ps = ''..'' # qs" using ne by (cases ps) auto
    then show False using eq assms(3,4) by (cases qs) auto
  qed
  moreover have "\<forall>p \<in> set ps. p \<noteq> [] \<and> p \<noteq> ''.'' \<and> CHR ''/'' \<notin> set p"
  proof -
    have "clean_ok False qs \<Longrightarrow> \<forall>p \<in> set qs. p \<noteq> [] \<and> p \<noteq> ''.'' \<and> CHR ''/'' \<notin> set p" for qs by (induction qs) auto
    then show ?thesis using ok by force
  qed
  ultimately have "parts_ok ps" using ne by (auto simp: parts_ok_def)
  then show ?thesis using eq by blast
qed
subsection \<open>A parent directory is shorter\<close>

definition weight :: "string list \<Rightarrow> nat" where "weight ps = sum_list (map (\<lambda>p. Suc (length p)) ps)"

lemma weight_Join: "ps \<noteq> [] \<Longrightarrow> Suc (length (Join ps [c])) = weight ps"
  by (induction ps "[c]" rule: Join.induct) (auto simp: weight_def)

lemma weight_clean: "weight (foldl (clean_step r) acc ps) \<le> weight acc + weight ps"
proof (induction ps arbitrary: acc)
  case (Cons p ps)
  have "weight (clean_step r acc p) \<le> weight acc + Suc (length p)" by (cases acc) (auto simp: weight_def)
  then show ?case using Cons.IH [of "clean_step r acc p"] by (simp add: weight_def)
qed (simp add: weight_def)

lemma length_path_clean: "x \<noteq> [] \<Longrightarrow> path_clean (x @ ''/'') = ''.'' \<or> path_clean (x @ ''/'') = ''/'' \<or> length (path_clean (x @ ''/'')) \<le> length x"
proof -
  assume x: "x \<noteq> []"
  define r where "r = HasPrefix x ''/''"
  have r: "HasPrefix (x @ ''/'') ''/'' = r" using x by (cases x) (auto simp: r_def)
  define qs where "qs = clean_parts r (Split x (CHR ''/''))"
  have sp: "Split (x @ ''/'') (CHR ''/'') = Split x (CHR ''/'') @ [[]]"
    by (induction x) (auto split: list.splits)
  then have c: "path_clean (x @ ''/'') = (if r then CHR ''/'' # Join qs ''/'' else if Join qs ''/'' = [] then ''.'' else Join qs ''/'')"
    unfolding path_clean_def Let_def r qs_def clean_parts_def by simp
  have wx: "weight (Split x (CHR ''/'')) = Suc (length x)"
    using weight_Join [of "Split x (CHR ''/'')" "CHR ''/''"] by simp
  have w: "weight qs \<le> (if r then length x else Suc (length x))"
  proof (cases r)
    case True
    then obtain y where y: "x = CHR ''/'' # y" unfolding r_def by (cases x) auto
    have "weight qs \<le> weight (Split y (CHR ''/''))"
      using weight_clean [of r "[]" "Split y (CHR ''/'')"] by (simp add: qs_def clean_parts_def y weight_def sum_list_rev rev_map [symmetric])
    then show ?thesis using True weight_Join [of "Split y (CHR ''/'')" "CHR ''/''"] by (simp add: y)
  next
    case False
    then show ?thesis using weight_clean [of r "[]" "Split x (CHR ''/'')"] wx
      by (simp add: qs_def clean_parts_def weight_def sum_list_rev rev_map [symmetric])
  qed
  show ?thesis
  proof (cases "qs = []")
    case False
    then show ?thesis using c w weight_Join [of qs "CHR ''/''"] by (auto split: if_splits)
  qed (use c in auto)
qed

lemma path_dir_shorter:
  assumes "path_dir d \<noteq> ''.''" "path_dir d \<noteq> ''/''"
  shows "length (path_dir d) < length d"
proof (cases "LastIndexByte d (CHR ''/'')")
  case None
  have "path_clean [] = ''.''" by (simp add: path_clean_def clean_parts_def)
  then show ?thesis using None assms by (simp add: path_dir_def del: LastIndexByte_None)
next
  case (Some i)
  have i: "i < length d \<and> d ! i = CHR ''/''" using Some
    by (induction d arbitrary: i) (auto split: option.splits if_splits)
  then have t: "take (Suc i) d = take i d @ ''/''" by (simp add: take_Suc_conv_app_nth)
  then have pd: "path_dir d = path_clean (take i d @ ''/'')" using Some by (simp add: path_dir_def)
  show ?thesis
  proof (cases "take i d = []")
    case True
    then have "path_dir d = path_clean ''/''" using pd unfolding True by simp
    moreover have "path_clean ''/'' = ''/''" by (simp add: path_clean_def clean_parts_def)
    ultimately show ?thesis using assms by simp
  next
    case False
    then show ?thesis using length_path_clean [OF False] pd assms i by simp
  qed
qed

end
