(* ===== verification/Sync_Policy.thy ===== *)
theory Sync_Policy
  imports Go_Path
begin

section \<open>What a folder link synchronises\<close>

text \<open>
  Models the policy part of \<open>core/internal/gitsync/binding.go\<close>: pattern lines and their rules,
  the policy of a stack binding, and the predicates by which the two inventories decide whether
  a path is selected, included, excluded or protected.  Patterns are matched by the library
  \<open>doublestar\<close>, which is not part of the program: whether a pattern matches a path (without
  error) and whether a pattern is valid are the two fields of \<^verbatim>\<open>glob_env\<close>.
\<close>

record glob_env =
  gl_match :: "string \<Rightarrow> string \<Rightarrow> bool"
  gl_valid :: "string \<Rightarrow> bool"

definition maxIgnoreFileSize :: int where "maxIgnoreFileSize = 65536"
definition maxIgnoreRules :: int where "maxIgnoreRules = 1000"
definition syncProfileComposeOnly :: string where "syncProfileComposeOnly = ''compose_only''"
definition syncProfileComposeConfig :: string where "syncProfileComposeConfig = ''compose_config''"
definition syncProfileAllFiles :: string where "syncProfileAllFiles = ''all_files''"
definition composeSelectionAll :: string where "composeSelectionAll = ''all''"
definition composeSelectionSelected :: string where "composeSelectionSelected = ''selected''"

lemmas sync_profiles = syncProfileComposeOnly_def syncProfileComposeConfig_def syncProfileAllFiles_def
  composeSelectionAll_def composeSelectionSelected_def

text \<open>The columns of \<open>git_stack_bindings\<close>; \<^verbatim>\<open>sb_Deleted\<close> is the soft deletion of gorm.\<close>

record StackBinding =
  sb_UUID :: string
  sb_RepositoryUUID :: string
  sb_Host :: string
  sb_StackPath :: string
  sb_SubPath :: string
  sb_ComposePaths :: string
  sb_ComposeSelectionMode :: string
  sb_SelectedComposePaths :: string
  sb_SyncProfile :: string
  sb_IncludePatterns :: string
  sb_ExcludePatterns :: string
  sb_AutoExcludedPaths :: string
  sb_AutoSyncEnabled :: bool
  sb_AutoSyncPaused :: bool
  sb_AutoSyncSelectionMode :: string
  sb_AutoSyncComposePaths :: string
  sb_AutoSyncIntervalMinutes :: int
  sb_AutoSyncState :: string
  sb_AutoSyncError :: string
  sb_LastAutoSyncAt :: "gotime option"
  sb_LastAutoSyncSuccessAt :: "gotime option"
  sb_LastAutoSyncCommit :: string
  sb_AutoDeployEnabled :: bool
  sb_AutoDeployNewStacks :: bool
  sb_AutoDeployRollbackEnabled :: bool
  sb_AutoDeployComposePaths :: string
  sb_AutoDeployState :: string
  sb_AutoDeployError :: string
  sb_LastAutoDeployAt :: "gotime option"
  sb_InitialSyncState :: string
  sb_InitialSyncError :: string
  sb_AutoReconcileEnabled :: bool
  sb_CreatedAt :: gotime
  sb_Deleted :: bool

record ignoreRule =
  ir_pattern :: string
  ir_directory :: bool
  ir_basename :: bool

text \<open>Sets of paths are lists of keys; \<open>composeDirectories\<close> is \<^const>\<open>None\<close> before it is indexed.\<close>

record syncPolicy =
  sp_profile :: string
  sp_includes :: "ignoreRule list"
  sp_excludes :: "ignoreRule list"
  sp_repositoryExcludes :: "ignoreRule list"
  sp_repositorySubPath :: string
  sp_compose :: "string list"
  sp_composeDirectories :: "string list option"
  sp_selectedRoots :: "string list"
  sp_selectionEnabled :: bool
  sp_selectNewCompose :: bool
  sp_unreadable :: "string list"

subsection \<open>Paths and pattern lines\<close>

definition validateRelativePath :: "string \<Rightarrow> bool \<Rightarrow> string option" where
  "validateRelativePath value allowDot =
     (if value = [] \<or> int (length value) > 500 \<or> CHR 0x00 \<in> set value then Some ''path is empty or too long''
      else if HasPrefix value ''/'' then Some ''absolute paths are forbidden''
      else let clean = path_clean value in
        if clean = ''.'' \<and> allowDot then None
        else if clean = ''.'' \<or> clean = ''..'' \<or> HasPrefix clean ''../'' then Some ''path traversal is forbidden''
        else if ''.git'' \<in> set (Split clean (CHR ''/'')) then Some ''.git paths are forbidden''
        else None)"

definition splitPatternLines :: "string \<Rightarrow> string list" where
  "splitPatternLines value = (if TrimSpace value = [] then [] else Split value (CHR 0x0A))"

text \<open>The normalised form of a pattern line and the rule it stands for.\<close>

definition normalizedLine :: "string \<Rightarrow> string" where
  "normalizedLine line =
     (if HasPrefix line ''/'' then ''/'' else []) @ trimSlash line @ (if HasSuffix line ''/'' then ''/'' else [])"

definition patternRule :: "string \<Rightarrow> ignoreRule" where
  "patternRule line =
     \<lparr>ir_pattern = trimSlash line, ir_directory = HasSuffix line ''/'',
      ir_basename = \<not> HasPrefix line ''/'' \<and> \<not> Contains (trimSlash line) ''/''\<rparr>"

definition lineError :: "nat \<Rightarrow> string \<Rightarrow> string" where
  "lineError index e = ''line '' @ Itoa (Suc index) @ '': '' @ e"

text \<open>The loop of \<open>normalizePatterns\<close>: the line's index, the bytes so far, what was collected.\<close>

fun normalizeLoop ::
  "glob_env \<Rightarrow> nat \<Rightarrow> int \<Rightarrow> string list \<Rightarrow> string list \<Rightarrow> ignoreRule list \<Rightarrow> string + string list \<times> ignoreRule list" where
  "normalizeLoop g index used [] normalized rules = Inr (normalized, rules)"
| "normalizeLoop g index used (raw # values) normalized rules =
     (let line = TrimSpace (TrimSuffix raw [CHR 0x0D]) in
      if line = [] \<or> HasPrefix line ''#'' then normalizeLoop g (Suc index) used values normalized rules
      else if HasPrefix line ''!'' then Inl (lineError index ''negation rules are not supported'')
      else (case validateRelativePath (trimSlash line) False of
          Some e \<Rightarrow> Inl (lineError index e)
        | None \<Rightarrow>
            if \<not> gl_valid g (trimSlash line) then Inl (lineError index ''invalid glob pattern'')
            else if used + int (length (trimSlash line)) > maxIgnoreFileSize then Inl ''patterns exceed 64 KiB''
            else if int (length rules) + 1 > maxIgnoreRules then Inl ''more than 1000 rules''
            else normalizeLoop g (Suc index) (used + int (length (trimSlash line))) values
                   (normalized @ [normalizedLine line]) (rules @ [patternRule line])))"

definition normalizePatterns :: "glob_env \<Rightarrow> string list \<Rightarrow> string + string list \<times> ignoreRule list" where
  "normalizePatterns g values = normalizeLoop g 0 0 values [] []"

definition rulesFromPatterns :: "glob_env \<Rightarrow> string list \<Rightarrow> string + ignoreRule list" where
  "rulesFromPatterns g patterns = map_sum id snd (normalizePatterns g patterns)"

text \<open>A policy as the editor sends it, checked and normalised.\<close>

record BindingPolicyInput =
  pi_Profile :: string
  pi_IncludePatterns :: "string list"
  pi_ExcludePatterns :: "string list"

definition normalizeBindingPolicy :: "glob_env \<Rightarrow> BindingPolicyInput \<Rightarrow> string + string \<times> string list \<times> string list" where
  "normalizeBindingPolicy g input =
     (let trimmed = TrimSpace (pi_Profile input);
          profile = (if trimmed = [] then syncProfileComposeConfig else trimmed)
      in if profile \<notin> {syncProfileComposeOnly, syncProfileComposeConfig, syncProfileAllFiles}
         then Inl ''sync profile must be compose_only, compose_config or all_files''
         else (case normalizePatterns g (pi_IncludePatterns input) of
             Inl e \<Rightarrow> Inl (''invalid include patterns: '' @ e)
           | Inr (includes, _) \<Rightarrow>
               (case normalizePatterns g (pi_ExcludePatterns input) of
                  Inl e \<Rightarrow> Inl (''invalid exclude patterns: '' @ e)
                | Inr (excludes, _) \<Rightarrow> Inr (profile, includes, excludes))))"

definition normalizedComposeSelectionMode :: "string \<Rightarrow> string" where
  "normalizedComposeSelectionMode mode = (if mode = composeSelectionSelected then composeSelectionSelected else composeSelectionAll)"

definition selectedComposePaths :: "StackBinding \<Rightarrow> string list" where
  "selectedComposePaths b =
     (if normalizedComposeSelectionMode (sb_ComposeSelectionMode b) = composeSelectionAll
      then splitPatternLines (sb_ComposePaths b) else splitPatternLines (sb_SelectedComposePaths b))"

text \<open>\<open>deployment.go\<close>: trimmed, without blanks and repetitions, sorted.\<close>

definition uniqueSortedStrings :: "string list \<Rightarrow> string list" where
  "uniqueSortedStrings values = sort (remdups (filter (\<lambda>v. v \<noteq> []) (map TrimSpace values)))"

definition keepCataloguedPaths :: "string list \<Rightarrow> string list \<Rightarrow> string list" where
  "keepCataloguedPaths paths catalog = uniqueSortedStrings (filter (\<lambda>p. p \<in> set catalog) paths)"

definition autoSyncComposePaths :: "StackBinding \<Rightarrow> string list" where
  "autoSyncComposePaths b =
     (if normalizedComposeSelectionMode (sb_AutoSyncSelectionMode b) = composeSelectionAll then selectedComposePaths b
      else keepCataloguedPaths (splitPatternLines (sb_AutoSyncComposePaths b)) (selectedComposePaths b))"

text \<open>The policy of a stored binding; \<open>repository\<close> carries the exclusions of its repository, if any.\<close>

definition policyFromBinding :: "glob_env \<Rightarrow> StackBinding \<Rightarrow> string option \<Rightarrow> string + syncPolicy" where
  "policyFromBinding g b repository =
     (let profile = (if sb_SyncProfile b = [] then syncProfileComposeConfig else sb_SyncProfile b) in
      case normalizeBindingPolicy g \<lparr>pi_Profile = profile, pi_IncludePatterns = splitPatternLines (sb_IncludePatterns b),
             pi_ExcludePatterns = splitPatternLines (sb_ExcludePatterns b)\<rparr> of
        Inl e \<Rightarrow> Inl (''invalid stack link policy: '' @ e)
      | Inr (_, includes, excludes) \<Rightarrow>
          (case rulesFromPatterns g includes of
             Inl e \<Rightarrow> Inl e
           | Inr includeRules \<Rightarrow>
               (case rulesFromPatterns g excludes of
                  Inl e \<Rightarrow> Inl e
                | Inr excludeRules \<Rightarrow>
                    (let selected = (normalizedComposeSelectionMode (sb_ComposeSelectionMode b) = composeSelectionSelected);
                         policy = \<lparr>sp_profile = profile, sp_includes = includeRules, sp_excludes = excludeRules,
                           sp_repositoryExcludes = [], sp_repositorySubPath = sb_SubPath b,
                           sp_compose = remdups (map path_clean (splitPatternLines (sb_ComposePaths b))),
                           sp_composeDirectories = None,
                           sp_selectedRoots = (if selected then remdups (map path_dir (selectedComposePaths b)) else []),
                           sp_selectionEnabled = selected,
                           sp_selectNewCompose = (selected \<and> sb_AutoDeployEnabled b \<and> sb_AutoDeployNewStacks b),
                           sp_unreadable = splitPatternLines (sb_AutoExcludedPaths b)\<rparr>
                     in case repository of
                          None \<Rightarrow> Inr policy
                        | Some patterns \<Rightarrow>
                            (case rulesFromPatterns g (splitPatternLines patterns) of
                               Inl e \<Rightarrow> Inl (''invalid repository policy: '' @ e)
                             | Inr rules \<Rightarrow> Inr (policy\<lparr>sp_repositoryExcludes := rules\<rparr>))))))"

definition normalizeComposeSelection ::
  "string list \<Rightarrow> string \<Rightarrow> string list \<Rightarrow> string \<Rightarrow> string + string \<times> string list" where
  "normalizeComposeSelection availablePaths mode0 requestedPaths defaultMode =
     (let trimmed = TrimSpace mode0; mode = (if trimmed = [] then defaultMode else trimmed) in
      if mode \<noteq> composeSelectionAll \<and> mode \<noteq> composeSelectionSelected then Inl ''Compose selection mode must be all or selected''
      else if mode = composeSelectionAll then Inr (mode, [])
      else let available = map (\<lambda>raw. path_clean (TrimSpace raw)) availablePaths;
               bad = (\<lambda>raw. let relative = path_clean (TrimSpace raw) in
                 case validateRelativePath relative False of
                   Some e \<Rightarrow> Some (''invalid Compose selection '' @ quoted raw @ '': '' @ e)
                 | None \<Rightarrow> if relative \<notin> set available
                     then Some (''Compose file is no longer available in this folder link: '' @ relative) else None)
           in case List.map_filter bad requestedPaths of
                e # _ \<Rightarrow> Inl e
              | [] \<Rightarrow> Inr (mode, sort (remdups (map (\<lambda>raw. path_clean (TrimSpace raw)) requestedPaths))))"

subsection \<open>Matching\<close>

definition escapeGlobLiteral :: "string \<Rightarrow> string" where
  "escapeGlobLiteral relative = concat (map (\<lambda>c. if c \<in> set (CHR 0x5C # ''*?[]{}!'') then [CHR 0x5C, c] else [c]) relative)"

definition matchesRule :: "glob_env \<Rightarrow> string \<Rightarrow> bool \<Rightarrow> ignoreRule \<Rightarrow> bool" where
  "matchesRule g relative directory rule \<longleftrightarrow>
     (ir_directory rule \<and> ((directory \<and> relative = ir_pattern rule) \<or> HasPrefix relative (ir_pattern rule @ ''/''))) \<or>
     (directory \<and> HasSuffix (ir_pattern rule) ''/**'' \<and> relative = TrimSuffix (ir_pattern rule) ''/**'') \<or>
     (gl_match g (ir_pattern rule) (if ir_basename rule then path_base relative else relative) \<and> (\<not> ir_directory rule \<or> directory))"

definition matchesIgnoreRule :: "glob_env \<Rightarrow> ignoreRule list \<Rightarrow> string \<Rightarrow> bool \<Rightarrow> bool" where
  "matchesIgnoreRule g rules relative directory = list_ex (matchesRule g (TrimPrefix relative ''./'') directory) rules"

definition matchesExactPolicyRule :: "ignoreRule list \<Rightarrow> string \<Rightarrow> bool \<Rightarrow> bool" where
  "matchesExactPolicyRule rules relative directory =
     list_ex (\<lambda>rule. ir_pattern rule = escapeGlobLiteral (trimSlash relative) \<and> ir_directory rule = directory \<and> \<not> ir_basename rule) rules"

text \<open>
  The search of \<open>includeRuleCanMatchBelowDirectory\<close> with its table of visited states: the
  pattern components and the directory components still to be matched stand for the two indices.
\<close>

function belowSearch ::
  "glob_env \<Rightarrow> string list \<Rightarrow> string list \<Rightarrow> (string list \<times> string list) list \<Rightarrow> bool \<times> (string list \<times> string list) list" where
  "belowSearch g ps ds visited =
     (if (ps, ds) \<in> set visited then (False, visited)
      else let visited1 = (ps, ds) # visited in
        case ds of
          [] \<Rightarrow> (ps \<noteq> [], visited1)
        | d # ds' \<Rightarrow>
            (case ps of
               [] \<Rightarrow> (False, visited1)
             | p # ps' \<Rightarrow>
                 if p = ''**'' then
                   (case belowSearch g ps' ds visited1 of
                      (True, v) \<Rightarrow> (True, v)
                    | (False, v) \<Rightarrow> belowSearch g ps ds' v)
                 else if gl_match g p d then belowSearch g ps' ds' visited1 else (False, visited1)))"
  by pat_completeness auto
termination by (relation "measure (\<lambda>(_, ps, ds, _). length ps + length ds)") auto

definition includeRuleCanMatchBelowDirectory :: "glob_env \<Rightarrow> ignoreRule \<Rightarrow> string \<Rightarrow> bool" where
  "includeRuleCanMatchBelowDirectory g rule directory =
     fst (belowSearch g (Split (trimSlash (ir_pattern rule)) (CHR ''/'')) (Split (trimSlash directory) (CHR ''/'')) [])"

subsection \<open>Special names\<close>

definition composeNames :: "string set" where
  "composeNames = {''compose.yml'', ''compose.yaml'', ''docker-compose.yml'', ''docker-compose.yaml''}"

definition isComposePath :: "string \<Rightarrow> bool" where
  "isComposePath relative \<longleftrightarrow> ToLower (path_base relative) \<in> composeNames"

definition isProvisionControlPath :: "string \<Rightarrow> bool" where
  "isProvisionControlPath relative \<longleftrightarrow> ToLower (path_base relative) \<in> {''provision.yml'', ''provision.yaml''}"

definition shouldSkipPath :: "string \<Rightarrow> bool \<Rightarrow> bool" where
  "shouldSkipPath p directory \<longleftrightarrow>
     (let base = ToLower (path_base p) in
      base = ''.dockman-secrets-reconcile'' \<or>
      (directory \<and> (base = ''.git'' \<or> base = ''.secrets'' \<or> base = ''.dockman-backups'' \<or> HasPrefix base ''.dockman-provision-staging-'')))"

text \<open>The built-in rules; all of them are names without a slash.\<close>

definition nameRule :: "string \<Rightarrow> ignoreRule" where
  "nameRule p = \<lparr>ir_pattern = p, ir_directory = False, ir_basename = True\<rparr>"

definition composeConfigRules :: "ignoreRule list" where
  "composeConfigRules = map nameRule
     [''*.yml'', ''*.yaml'', ''*.json'', ''*.toml'', ''*.conf'', ''*.config'', ''*.cfg'', ''*.ini'',
      ''*.properties'', ''*.xml'', ''*.tmpl'', ''*.tpl'', ''*.j2'', ''*.sh'', ''*.bash'', ''*.sql'',
      ''*.txt'', ''*.md'', ''*.crt'', ''.env'', ''.env.*'', ''.gitignore'', ''.dockerignore'',
      ''.dockmanignore'', ''Dockerfile*'', ''Containerfile*'', ''Caddyfile'', ''Makefile'']"

definition composeOnlyRules :: "ignoreRule list" where
  "composeOnlyRules = map nameRule
     [''.env.example'', ''.env.*.example'', ''.env.sample'', ''.env.*.sample'',
      ''.env.template'', ''.env.*.template'', ''.env.dist'', ''.env.*.dist'',
      ''secrets.sops.yaml'', ''.dockman-sops-inline'', ''compose-sops.sh'']"

subsection \<open>The predicates of a policy\<close>

definition explicitlyIncludes :: "glob_env \<Rightarrow> syncPolicy \<Rightarrow> string \<Rightarrow> bool \<Rightarrow> bool" where
  "explicitlyIncludes g policy relative directory = matchesIgnoreRule g (sp_includes policy) relative directory"

definition exactlyIncludes :: "syncPolicy \<Rightarrow> string \<Rightarrow> bool \<Rightarrow> bool" where
  "exactlyIncludes policy relative directory = matchesExactPolicyRule (sp_includes policy) relative directory"

definition exactlyExcludes :: "syncPolicy \<Rightarrow> string \<Rightarrow> bool \<Rightarrow> bool" where
  "exactlyExcludes policy relative directory = matchesExactPolicyRule (sp_excludes policy) relative directory"

definition explicitIncludeCanMatchBelow :: "glob_env \<Rightarrow> syncPolicy \<Rightarrow> string \<Rightarrow> bool" where
  "explicitIncludeCanMatchBelow g policy directory =
     list_ex (\<lambda>rule. \<not> ir_basename rule \<and> includeRuleCanMatchBelowDirectory g rule directory) (sp_includes policy)"

text \<open>Whether a path is selected, and whether the walk must descend into it all the same.\<close>

definition rootSelects :: "string \<Rightarrow> bool \<Rightarrow> string \<Rightarrow> bool" where
  "rootSelects relative directory root0 =
     (let root = trimSlash root0 in
      if root = ''.'' then \<not> directory \<and> \<not> Contains relative ''/'' else inside relative root)"

definition selectsPath :: "glob_env \<Rightarrow> syncPolicy \<Rightarrow> string \<Rightarrow> bool \<Rightarrow> bool \<times> bool" where
  "selectsPath g policy relative0 directory =
     (if \<not> sp_selectionEnabled policy then (True, True)
      else let relative = trimSlash relative0 in
        if explicitlyIncludes g policy relative directory \<or> list_ex (rootSelects relative directory) (sp_selectedRoots policy) then (True, True)
        else (False, directory \<and>
          (explicitIncludeCanMatchBelow g policy relative \<or>
           list_ex (\<lambda>root. trimSlash root \<noteq> ''.'' \<and> HasPrefix (trimSlash root) (relative @ ''/'')) (sp_selectedRoots policy))))"

definition catalogsCompose :: "syncPolicy \<Rightarrow> string \<Rightarrow> bool" where
  "catalogsCompose policy relative \<longleftrightarrow> path_clean relative \<in> set (sp_compose policy)"

definition hasComposeInFileDirectory :: "syncPolicy \<Rightarrow> string \<Rightarrow> bool" where
  "hasComposeInFileDirectory policy relative =
     list_ex (\<lambda>compose. path_dir compose = path_dir (path_clean relative)) (sp_compose policy)"

definition includesFile :: "glob_env \<Rightarrow> syncPolicy \<Rightarrow> string \<Rightarrow> bool" where
  "includesFile g policy relative =
     (if explicitlyIncludes g policy relative False then True
      else if sp_profile policy = syncProfileComposeOnly then
        (if isComposePath relative then catalogsCompose policy relative
         else matchesIgnoreRule g composeOnlyRules relative False \<and> hasComposeInFileDirectory policy relative)
      else if sp_profile policy = syncProfileAllFiles then True
      else matchesIgnoreRule g composeConfigRules relative False)"

definition validateComposeOnlyCatalog :: "syncPolicy \<Rightarrow> string option" where
  "validateComposeOnlyCatalog policy =
     (if sp_profile policy = syncProfileComposeOnly \<and> sp_compose policy = []
      then Some ''no Compose stack is catalogued for this folder link; refresh the Compose catalog before synchronizing'' else None)"

definition holdsUnreadable :: "syncPolicy \<Rightarrow> string \<Rightarrow> bool" where
  "holdsUnreadable policy relative = list_ex (inside (trimSlash relative)) (sp_unreadable policy)"

definition excludesPath :: "glob_env \<Rightarrow> syncPolicy \<Rightarrow> string \<Rightarrow> bool \<Rightarrow> ignoreRule list \<Rightarrow> bool" where
  "excludesPath g policy relative directory localRules \<longleftrightarrow>
     matchesIgnoreRule g (sp_excludes policy) relative directory \<or> matchesIgnoreRule g localRules relative directory \<or>
     (let sub = trimSlash (sp_repositorySubPath policy);
          repositoryRelative = (if sub \<noteq> [] \<and> sub \<noteq> ''.'' then path_join [sub, relative] else relative)
      in matchesIgnoreRule g (sp_repositoryExcludes policy) repositoryRelative directory)"

definition exclusionApplies :: "glob_env \<Rightarrow> syncPolicy \<Rightarrow> string \<Rightarrow> bool \<Rightarrow> ignoreRule list \<Rightarrow> bool" where
  "exclusionApplies g policy relative directory localRules =
     (if holdsUnreadable policy relative then True
      else if \<not> excludesPath g policy relative directory localRules then False
      else \<not> explicitlyIncludes g policy relative directory \<or>
        (exactlyExcludes policy relative directory \<and> \<not> exactlyIncludes policy relative directory))"

definition protectsCompose :: "syncPolicy \<Rightarrow> string \<Rightarrow> bool" where
  "protectsCompose policy relative \<longleftrightarrow> isComposePath relative \<and> (sp_compose policy = [] \<or> relative \<in> set (sp_compose policy))"

definition protectsProvision :: "syncPolicy \<Rightarrow> string \<Rightarrow> bool" where
  "protectsProvision policy relative \<longleftrightarrow>
     isProvisionControlPath relative \<and> (sp_compose policy = [] \<or> list_ex (\<lambda>c. path_dir c = path_dir relative) (sp_compose policy))"

text \<open>The ancestors of a Compose file, as the loop of \<open>withComposeDirectoryIndex\<close> climbs them.\<close>

function climb :: "string \<Rightarrow> string list" where
  "climb directory =
     (if directory = ''.'' \<or> directory = [] \<or> directory = ''/'' then []
      else trimSlash directory # climb (path_dir directory))"
  by pat_completeness auto
termination
  by (relation "measure (\<lambda>d. if d = ''.'' \<or> d = [] \<or> d = ''/'' then 0 else Suc (length d))")
    (auto simp del: One_nat_def dest: path_dir_shorter)

definition withComposeDirectoryIndex :: "syncPolicy \<Rightarrow> syncPolicy" where
  "withComposeDirectoryIndex policy =
     policy\<lparr>sp_composeDirectories := Some (remdups (concat (map (\<lambda>c. climb (path_dir c)) (sp_compose policy))))\<rparr>"

definition containsCompose :: "syncPolicy \<Rightarrow> string \<Rightarrow> bool" where
  "containsCompose policy directory0 =
     (let directory = trimSlash directory0 in
      case sp_composeDirectories policy of
        Some dirs \<Rightarrow> directory \<in> set dirs
      | None \<Rightarrow> list_ex (\<lambda>c. HasPrefix c (directory @ ''/'')) (sp_compose policy))"

definition traversesComposeOnlyDirectory :: "glob_env \<Rightarrow> syncPolicy \<Rightarrow> string \<Rightarrow> bool" where
  "traversesComposeOnlyDirectory g policy directory \<longleftrightarrow>
     containsCompose policy directory \<or> explicitIncludeCanMatchBelow g policy (trimSlash directory)"
declare belowSearch.simps [simp del] climb.simps [simp del]

section \<open>Laws of policies\<close>

subsection \<open>Accepted paths\<close>

lemma validateRelativePath_parts:
  assumes "validateRelativePath v False = None"
  shows "\<exists>ps. parts_ok ps \<and> path_clean v = Join ps ''/'' \<and> ''.git'' \<notin> set ps"
proof -
  have v: "\<not> HasPrefix v ''/''" "path_clean v \<noteq> ''.''" "path_clean v \<noteq> ''..''" "\<not> HasPrefix (path_clean v) ''../''"
    "''.git'' \<notin> set (Split (path_clean v) (CHR ''/''))"
    using assms by (auto simp: validateRelativePath_def Let_def split: if_splits)
  then obtain ps where "parts_ok ps" "path_clean v = Join ps ''/''" using clean_relative_parts by blast
  then show ?thesis using v(5) parts_ok_split [of ps] by auto
qed

lemma validateRelativePath_nonempty: "validateRelativePath v False = None \<Longrightarrow> v \<noteq> []"
  by (auto simp: validateRelativePath_def)

subsection \<open>Where an include rule can match\<close>

fun belowSpec :: "glob_env \<Rightarrow> string list \<Rightarrow> string list \<Rightarrow> bool" where
  "belowSpec g ps [] = (ps \<noteq> [])"
| "belowSpec g [] (d # ds) = False"
| "belowSpec g (p # ps) (d # ds) =
     (if p = ''**'' then belowSpec g ps (d # ds) \<or> belowSpec g (p # ps) ds else gl_match g p d \<and> belowSpec g ps ds)"

lemma belowSearch_step:
  "(ps, ds) \<in> set visited \<Longrightarrow> belowSearch g ps ds visited = (False, visited)"
  "(ps, []) \<notin> set visited \<Longrightarrow> belowSearch g ps [] visited = (ps \<noteq> [], (ps, []) # visited)"
  "([], d # ds') \<notin> set visited \<Longrightarrow> belowSearch g [] (d # ds') visited = (False, ([], d # ds') # visited)"
  "(''**'' # ps', d # ds') \<notin> set visited \<Longrightarrow> belowSearch g (''**'' # ps') (d # ds') visited =
     (case belowSearch g ps' (d # ds') ((''**'' # ps', d # ds') # visited) of
        (True, v) \<Rightarrow> (True, v) | (False, v) \<Rightarrow> belowSearch g (''**'' # ps') ds' v)"
  "p \<noteq> ''**'' \<Longrightarrow> (p # ps', d # ds') \<notin> set visited \<Longrightarrow> belowSearch g (p # ps') (d # ds') visited =
     (if gl_match g p d then belowSearch g ps' ds' ((p # ps', d # ds') # visited) else (False, (p # ps', d # ds') # visited))"
  by (subst belowSearch.simps; simp)+

definition settled :: "glob_env \<Rightarrow> nat \<Rightarrow> (string list \<times> string list) list \<Rightarrow> bool" where
  "settled g k visited \<longleftrightarrow> (\<forall>(a, b) \<in> set visited. \<not> belowSpec g a b \<or> length a + length b > k)"

lemma settled_mono: "settled g k v \<Longrightarrow> k' \<le> k \<Longrightarrow> settled g k' v"
  by (fastforce simp: settled_def)

lemma settled_enter: "settled g (length ps + length ds) v \<Longrightarrow> k < length ps + length ds \<Longrightarrow> settled g k ((ps, ds) # v)"
  by (fastforce simp: settled_def)

definition refuted :: "glob_env \<Rightarrow> (string list \<times> string list) list \<Rightarrow> (string list \<times> string list) list \<Rightarrow> bool" where
  "refuted g u v \<longleftrightarrow> (\<forall>(a, b) \<in> set v. (a, b) \<in> set u \<or> \<not> belowSpec g a b)"

lemma refuted_trans: "refuted g u v \<Longrightarrow> refuted g v w \<Longrightarrow> refuted g u w"
  by (fastforce simp: refuted_def)

lemma refuted_leave: "refuted g ((ps, ds) # u) v \<Longrightarrow> \<not> belowSpec g ps ds \<Longrightarrow> refuted g u v"
  by (fastforce simp: refuted_def)

lemma refuted_settled: "settled g k u \<Longrightarrow> refuted g u v \<Longrightarrow> settled g k v"
  by (fastforce simp: refuted_def settled_def)

lemma refuted_refl [simp]: "refuted g u u"
  by (auto simp: refuted_def)

lemma belowSearch_spec:
  assumes "belowSearch g ps ds visited = (r, v)" "settled g (length ps + length ds) visited"
  shows "r = belowSpec g ps ds \<and> (\<not> r \<longrightarrow> refuted g visited v)"
  using assms
proof (induction "length ps + length ds" arbitrary: ps ds visited r v rule: less_induct)
  case less
  let ?k = "length ps + length ds"
  show ?case
  proof (cases "(ps, ds) \<in> set visited")
    case True
    then have "\<not> belowSpec g ps ds" using less.prems(2) by (fastforce simp: settled_def)
    then show ?thesis using less.prems True by (simp add: belowSearch_step(1))
  next
    case new: False
    show ?thesis
    proof (cases ds)
      case Nil
      then show ?thesis using less.prems new by (auto simp: belowSearch_step(2) refuted_def)
    next
      case ds: (Cons d ds')
      show ?thesis
      proof (cases ps)
        case Nil
        then show ?thesis using less.prems new ds by (auto simp: belowSearch_step(3) refuted_def)
      next
        case ps: (Cons p ps')
        let ?w = "(ps, ds) # visited"
        have enter: "settled g k ?w" if "k < ?k" for k using settled_enter [OF less.prems(2) that] .
        show ?thesis
        proof (cases "p = ''**''")
          case True
          obtain r1 v1 where r1: "belowSearch g ps' ds ?w = (r1, v1)" by fastforce
          have a: "r1 = belowSpec g ps' ds" "\<not> r1 \<Longrightarrow> refuted g ?w v1"
            using less.hyps [OF _ r1] enter [of "length ps' + length ds"] ps by auto
          show ?thesis
          proof (cases r1)
            case True
            then show ?thesis using a(1) r1 less.prems(1) new \<open>p = _\<close> ds ps by (auto simp: belowSearch_step(4))
          next
            case r1F: False
            obtain r2 v2 where r2: "belowSearch g ps ds' v1 = (r2, v2)" by fastforce
            have b: "r2 = belowSpec g ps ds'" "\<not> r2 \<Longrightarrow> refuted g v1 v2"
              using less.hyps [OF _ r2] refuted_settled [OF enter a(2) [OF r1F]] ds by auto
            have "r = r2" "v = v2" using r1 r2 r1F less.prems(1) new True ds ps by (simp_all add: belowSearch_step(4))
            moreover have "belowSpec g ps ds = (belowSpec g ps' ds \<or> belowSpec g ps ds')" using True ds ps by simp
            ultimately show ?thesis using a b r1F refuted_trans refuted_leave by metis
          qed
        next
          case False
          show ?thesis
          proof (cases "gl_match g p d")
            case True
            then have eq: "belowSearch g ps' ds' ?w = (r, v)" using less.prems(1) new False ds ps by (simp add: belowSearch_step(5))
            have "r = belowSpec g ps' ds' \<and> (\<not> r \<longrightarrow> refuted g ?w v)"
              using less.hyps [OF _ eq] enter [of "length ps' + length ds'"] ds ps by auto
            moreover have "belowSpec g ps ds = belowSpec g ps' ds'" using True False ds ps by simp
            ultimately show ?thesis using refuted_leave by metis
          next
            case nm: False
            then have "r = False" "v = ?w" using less.prems(1) new False ds ps by (auto simp: belowSearch_step(5))
            moreover have "\<not> belowSpec g ps ds" using nm False ds ps by simp
            ultimately show ?thesis by (auto simp: refuted_def)
          qed
        qed
      qed
    qed
  qed
qed

text \<open>How a pattern with \<open>**\<close> matches a path component by component.\<close>

fun segsMatch :: "glob_env \<Rightarrow> string list \<Rightarrow> string list \<Rightarrow> bool" where
  "segsMatch g [] xs = (xs = [])"
| "segsMatch g (p # ps) [] = (p = ''**'' \<and> segsMatch g ps [])"
| "segsMatch g (p # ps) (x # xs) =
     (if p = ''**'' then segsMatch g ps (x # xs) \<or> segsMatch g (p # ps) xs else gl_match g p x \<and> segsMatch g ps xs)"

lemma segsMatch_below: "segsMatch g ps (ds @ rest) \<Longrightarrow> rest \<noteq> [] \<Longrightarrow> belowSpec g ps ds"
  by (induction g ps ds rule: belowSpec.induct) (auto split: if_splits)

lemma segsMatch_some:
  "ps \<noteq> [] \<Longrightarrow> \<forall>p \<in> set ps. p = ''**'' \<or> (\<exists>x. gl_match g p x) \<Longrightarrow> \<exists>rest. rest \<noteq> [] \<and> segsMatch g ps rest"
proof (induction ps)
  case (Cons p ps)
  show ?case
  proof (cases "ps = []")
    case True
    then show ?thesis using Cons.prems(2) by (cases "p = ''**''") (force intro: exI [of _ "[x]" for x])+
  next
    case False
    then obtain rest where rest: "rest \<noteq> []" "segsMatch g ps rest" using Cons by auto
    then show ?thesis
    proof (cases "p = ''**''")
      case True
      then have "segsMatch g (p # ps) rest" using rest by (cases rest) auto
      then show ?thesis using rest by blast
    next
      case False
      then obtain x where "gl_match g p x" using Cons.prems(2) by auto
      then have "segsMatch g (p # ps) (x # rest)" using rest False by simp
      then show ?thesis by blast
    qed
  qed
qed simp

lemma belowSpec_segs:
  "belowSpec g ps ds \<Longrightarrow> \<forall>p \<in> set ps. p = ''**'' \<or> (\<exists>x. gl_match g p x) \<Longrightarrow> \<exists>rest. rest \<noteq> [] \<and> segsMatch g ps (ds @ rest)"
proof (induction g ps ds rule: belowSpec.induct)
  case (1 g ps)
  then show ?case using segsMatch_some by simp
next
  case (3 g p ps d ds)
  show ?case
  proof (cases "p = ''**''")
    case True
    then consider "belowSpec g ps (d # ds)" | "belowSpec g (p # ps) ds" using 3 by auto
    then show ?thesis
    proof cases
      case 1
      then obtain rest where "rest \<noteq> [] \<and> segsMatch g ps ((d # ds) @ rest)" using "3.IH"(1) [OF True] "3.prems"(2) by auto
      then show ?thesis using True by auto
    next
      case 2
      then obtain rest where "rest \<noteq> [] \<and> segsMatch g (p # ps) (ds @ rest)" using "3.IH"(2) [OF True] "3.prems"(2) by auto
      then show ?thesis using True by auto
    qed
  next
    case False
    then show ?thesis using "3.IH"(3) [OF False] "3.prems" by auto
  qed
qed simp

lemma includeRuleCanMatchBelowDirectory_spec:
  "includeRuleCanMatchBelowDirectory g rule directory =
     belowSpec g (Split (trimSlash (ir_pattern rule)) (CHR ''/'')) (Split (trimSlash directory) (CHR ''/''))"
proof -
  define ps where "ps = Split (trimSlash (ir_pattern rule)) (CHR ''/'')"
  define ds where "ds = Split (trimSlash directory) (CHR ''/'')"
  obtain r v where rv: "belowSearch g ps ds [] = (r, v)" by fastforce
  then have "r = belowSpec g ps ds" using belowSearch_spec [OF rv] by (simp add: settled_def)
  then show ?thesis using rv unfolding includeRuleCanMatchBelowDirectory_def ps_def [symmetric] ds_def [symmetric] by simp
qed

text \<open>
  An include rule makes the walk descend into a directory exactly when a path below the
  directory can match it: the search with its table of visited states answers whether some
  continuation of the directory's components matches the pattern, provided every component of the
  pattern matches some name.
\<close>

theorem includeRuleCanMatchBelowDirectory_exact:
  assumes "\<forall>p \<in> set (Split (trimSlash (ir_pattern rule)) (CHR ''/'')). p = ''**'' \<or> (\<exists>x. gl_match g p x)"
  shows "includeRuleCanMatchBelowDirectory g rule directory \<longleftrightarrow>
    (\<exists>rest. rest \<noteq> [] \<and> segsMatch g (Split (trimSlash (ir_pattern rule)) (CHR ''/'')) (Split (trimSlash directory) (CHR ''/'') @ rest))"
  using belowSpec_segs [OF _ assms] segsMatch_below unfolding includeRuleCanMatchBelowDirectory_spec by blast

definition literalGlob :: glob_env where
  "literalGlob = \<lparr>gl_match = (\<lambda>p s. p = s \<or> p = ''*''), gl_valid = (\<lambda>_. True)\<rparr>"

theorem includeRuleCanMatchBelowDirectory_exact_witness:
  "\<exists>rest. rest \<noteq> [] \<and> segsMatch literalGlob [''app'', ''**'', ''conf''] ([''app'', ''x''] @ rest)"
proof -
  let ?r = "\<lparr>ir_pattern = ''app/**/conf'', ir_directory = False, ir_basename = False\<rparr>"
  have sp: "Split (trimSlash (ir_pattern ?r)) (CHR ''/'') = [''app'', ''**'', ''conf'']" "Split (trimSlash ''app/x'') (CHR ''/'') = [''app'', ''x'']"
    by code_simp+
  have "includeRuleCanMatchBelowDirectory literalGlob ?r ''app/x''" by code_simp
  moreover have "\<forall>p \<in> set (Split (trimSlash (ir_pattern ?r)) (CHR ''/'')). p = ''**'' \<or> (\<exists>x. gl_match literalGlob p x)"
    by (auto simp: literalGlob_def)
  ultimately show ?thesis using includeRuleCanMatchBelowDirectory_exact [of ?r literalGlob "''app/x''"] unfolding sp by simp
qed
subsection \<open>Saved patterns\<close>

lemma trimSlash_decomp:
  "\<exists>a b. s = replicate a (CHR ''/'') @ trimSlash s @ replicate b (CHR ''/'')"
proof -
  have pre: "\<exists>a. u = replicate a (CHR ''/'') @ dropWhile (\<lambda>c. c = CHR ''/'') u" for u :: string
  proof (induction u)
    case (Cons c u)
    then obtain a where "u = replicate a (CHR ''/'') @ dropWhile (\<lambda>c. c = CHR ''/'') u" by blast
    then show ?case by (cases "c = CHR ''/''") (auto intro: exI [of _ "Suc a"] exI [of _ 0])
  qed simp
  obtain a where a: "s = replicate a (CHR ''/'') @ dropWhile (\<lambda>c. c = CHR ''/'') s" using pre by blast
  obtain b where "rev (dropWhile (\<lambda>c. c = CHR ''/'') s) = replicate b (CHR ''/'') @ dropWhile (\<lambda>c. c = CHR ''/'') (rev (dropWhile (\<lambda>c. c = CHR ''/'') s))"
    using pre by blast
  then have "dropWhile (\<lambda>c. c = CHR ''/'') s = trimSlash s @ replicate b (CHR ''/'')"
    unfolding trimSlash_def by (metis rev_append rev_replicate rev_rev_ident)
  then show ?thesis using a by metis
qed

lemma trimSlash_ends: "trimSlash s \<noteq> [] \<Longrightarrow> hd (trimSlash s) \<noteq> CHR ''/'' \<and> last (trimSlash s) \<noteq> CHR ''/''"
proof -
  assume ne: "trimSlash s \<noteq> []"
  define t where "t = dropWhile (\<lambda>c. c = CHR ''/'') s"
  have ts: "trimSlash s = rev (dropWhile (\<lambda>c. c = CHR ''/'') (rev t))" by (simp add: trimSlash_def t_def)
  have "dropWhile (\<lambda>c. c = CHR ''/'') (rev t) \<noteq> []" using ne unfolding ts by simp
  then have "last (trimSlash s) \<noteq> CHR ''/''" using hd_dropWhile [of "\<lambda>c. c = CHR ''/''" "rev t"] unfolding ts by (simp add: last_rev)
  moreover have "hd (trimSlash s) = hd t"
  proof -
    have "rev t = takeWhile (\<lambda>c. c = CHR ''/'') (rev t) @ dropWhile (\<lambda>c. c = CHR ''/'') (rev t)" by simp
    then have "t = trimSlash s @ rev (takeWhile (\<lambda>c. c = CHR ''/'') (rev t))" unfolding ts by (metis rev_append rev_rev_ident)
    then show ?thesis using ne by (metis hd_append2)
  qed
  moreover have "t \<noteq> []" using ne unfolding ts by auto
  then have "hd t \<noteq> CHR ''/''" unfolding t_def by (rule hd_dropWhile)
  ultimately show ?thesis by simp
qed

lemma trimSlash_fence:
  "p \<noteq> [] \<Longrightarrow> hd p \<noteq> CHR ''/'' \<Longrightarrow> last p \<noteq> CHR ''/'' \<Longrightarrow> trimSlash (replicate a (CHR ''/'') @ p @ replicate b (CHR ''/'')) = p"
proof -
  assume p: "p \<noteq> []" "hd p \<noteq> CHR ''/''" "last p \<noteq> CHR ''/''"
  have "dropWhile (\<lambda>c. c = CHR ''/'') (replicate k (CHR ''/'') @ q) = q" if "q = [] \<or> hd q \<noteq> CHR ''/''" for q :: string and k
    using that by (induction k) (auto simp: dropWhile_eq_self_iff)
  from this [of "p @ replicate b (CHR ''/'')" a] this [of "rev p" b] show ?thesis
    using p by (simp add: trimSlash_def hd_rev rev_replicate)
qed

lemma fence_prefix:
  "p \<noteq> [] \<Longrightarrow> hd p \<noteq> CHR ''/'' \<Longrightarrow> HasPrefix (replicate a (CHR ''/'') @ p @ s) ''/'' \<longleftrightarrow> a \<noteq> 0"
  by (cases a; cases p) auto

lemma fence_suffix:
  "p \<noteq> [] \<Longrightarrow> last p \<noteq> CHR ''/'' \<Longrightarrow> HasSuffix (s @ p @ replicate b (CHR ''/'')) ''/'' \<longleftrightarrow> b \<noteq> 0"
  using fence_prefix [of "rev p" b "rev s"] by (simp add: HasSuffix_def hd_rev rev_replicate)

lemma normalizedLine_stable:
  assumes "trimSlash line \<noteq> []"
  shows "trimSlash (normalizedLine line) = trimSlash line \<and> normalizedLine (normalizedLine line) = normalizedLine line \<and>
    patternRule (normalizedLine line) = patternRule line"
proof -
  define p where "p = trimSlash line"
  have p: "p \<noteq> []" "hd p \<noteq> CHR ''/''" "last p \<noteq> CHR ''/''" using assms trimSlash_ends [of line] by (simp_all add: p_def)
  define a where "a = (if HasPrefix line ''/'' then 1 else (0 :: nat))"
  define b where "b = (if HasSuffix line ''/'' then 1 else (0 :: nat))"
  have n: "normalizedLine line = replicate a (CHR ''/'') @ p @ replicate b (CHR ''/'')"
    by (simp add: normalizedLine_def a_def b_def p_def)
  have t: "trimSlash (normalizedLine line) = p" unfolding n by (rule trimSlash_fence [OF p])
  have x: "HasPrefix (normalizedLine line) ''/'' = HasPrefix line ''/''"
    unfolding n using fence_prefix [OF p(1,2)] by (simp add: a_def)
  have y: "HasSuffix (normalizedLine line) ''/'' = HasSuffix line ''/''"
    unfolding n using fence_suffix [OF p(1,3), of "replicate a (CHR ''/'')" b] by (simp add: b_def)
  show ?thesis using t x y by (simp add: patternRule_def normalizedLine_def [of "normalizedLine line"] p_def [symmetric])
    (simp add: normalizedLine_def p_def)
qed

text \<open>What normalisation keeps of a trimmed line: its ends.\<close>

lemma normalizedLine_ends:
  assumes "line \<noteq> []" "trimSlash line \<noteq> []"
  shows "normalizedLine line \<noteq> [] \<and> hd (normalizedLine line) = hd line \<and> last (normalizedLine line) = last line"
proof -
  define p where "p = trimSlash line"
  obtain a b where l: "line = replicate a (CHR ''/'') @ p @ replicate b (CHR ''/'')" using trimSlash_decomp [of line] by (auto simp: p_def)
  have p: "p \<noteq> []" "hd p \<noteq> CHR ''/''" "last p \<noteq> CHR ''/''" using assms(2) trimSlash_ends [of line] by (simp_all add: p_def)
  have x: "HasPrefix line ''/'' \<longleftrightarrow> a \<noteq> 0" "HasSuffix line ''/'' \<longleftrightarrow> b \<noteq> 0"
    using fence_prefix [OF p(1,2)] fence_suffix [OF p(1,3), of "replicate a (CHR ''/'')" b] by (simp_all add: l)
  have n: "normalizedLine line = (if a \<noteq> 0 then ''/'' else []) @ p @ (if b \<noteq> 0 then ''/'' else [])"
    unfolding normalizedLine_def x p_def by simp
  have "hd (normalizedLine line) = hd line" using n p arg_cong [OF l, of hd] by (cases a) auto
  moreover have "last (normalizedLine line) = last line"
    using n p arg_cong [OF l, of last] by (cases b) (auto simp: last_append)
  ultimately show ?thesis using n p by simp
qed
lemma set_trimSlash: "set (trimSlash s) \<subseteq> set s"
  unfolding trimSlash_def by (metis set_dropWhileD set_rev subsetI)

lemma TrimSpace_nonblank: "c \<in> set s \<Longrightarrow> \<not> is_space c \<Longrightarrow> TrimSpace s \<noteq> []"
  by (auto simp: TrimSpace_def dropWhile_eq_Nil_conv) (metis set_dropWhileD dropWhile_eq_Nil_conv in_set_conv_decomp rev_is_Nil_conv
    set_rev dropWhile_append3 append_is_Nil_conv list.distinct(1) Un_iff set_append)

lemma normalizedLine_line:
  assumes "line = TrimSpace u" "line \<noteq> []" "trimSlash line \<noteq> []"
  shows "TrimSpace (TrimSuffix (normalizedLine line) [CHR 0x0D]) = normalizedLine line"
    "HasPrefix (normalizedLine line) [c] = HasPrefix line [c]" "normalizedLine line \<noteq> []"
    "set (normalizedLine line) \<subseteq> insert (CHR ''/'') (set u)" "\<exists>c \<in> set (normalizedLine line). \<not> is_space c"
proof -
  note e = normalizedLine_ends [OF assms(2,3)]
  have "trimmed line" using assms(1) by simp
  then have sp: "\<not> is_space (hd line)" "\<not> is_space (last line)" using assms(2) by (simp_all add: trimmed_def)
  then have tn: "trimmed (normalizedLine line)" using e by (simp add: trimmed_def)
  have "last (normalizedLine line) \<noteq> CHR 0x0D" using e sp(2) by (auto simp: is_space_def)
  then have "\<not> HasSuffix (normalizedLine line) [CHR 0x0D]" using e
    by (cases "rev (normalizedLine line)") (auto simp: HasSuffix_def hd_rev [symmetric])
  then show "TrimSpace (TrimSuffix (normalizedLine line) [CHR 0x0D]) = normalizedLine line"
    using trimmed_TrimSpace_id [OF tn] by (simp add: TrimSuffix_def)
  show "HasPrefix (normalizedLine line) [c] = HasPrefix line [c]"
    using e assms(2) by (cases "normalizedLine line"; cases line) auto
  show "normalizedLine line \<noteq> []" using e by simp
  show "set (normalizedLine line) \<subseteq> insert (CHR ''/'') (set u)"
    using set_trimSlash [of line] set_TrimSpace [of u] assms(1) by (auto simp: normalizedLine_def)
  show "\<exists>c \<in> set (normalizedLine line). \<not> is_space c" using e sp(1) hd_in_set by metis
qed

text \<open>Normalised lines normalise to themselves, with the same rules.\<close>

lemma normalizeLoop_stable:
  assumes "normalizeLoop g index used vals n0 r0 = Inr (n, r)"
  shows "\<exists>n1 r1. n = n0 @ n1 \<and> r = r0 @ r1 \<and>
    (\<forall>index' used' n0' r0'. used' \<le> used \<longrightarrow> length r0' \<le> length r0 \<longrightarrow> normalizeLoop g index' used' n1 n0' r0' = Inr (n0' @ n1, r0' @ r1)) \<and>
    (\<forall>l \<in> set n1. (\<exists>c \<in> set l. \<not> is_space c) \<and> set l \<subseteq> insert (CHR ''/'') (\<Union> (set ` set vals)))"
  using assms
proof (induction vals arbitrary: index used n0 r0)
  case (Cons raw vals)
  define line where "line = TrimSpace (TrimSuffix raw [CHR 0x0D])"
  show ?case
  proof (cases "line = [] \<or> HasPrefix line ''#''")
    case True
    then have "normalizeLoop g (Suc index) used vals n0 r0 = Inr (n, r)" using Cons.prems by (simp add: line_def [symmetric])
    from Cons.IH [OF this] obtain n1 r1 where ih: "n = n0 @ n1" "r = r0 @ r1"
      "\<forall>index' used' n0' r0'. used' \<le> used \<longrightarrow> length r0' \<le> length r0 \<longrightarrow> normalizeLoop g index' used' n1 n0' r0' = Inr (n0' @ n1, r0' @ r1)"
      "\<forall>l \<in> set n1. (\<exists>c \<in> set l. \<not> is_space c) \<and> set l \<subseteq> insert (CHR ''/'') (\<Union> (set ` set vals))" by blast
    have "\<forall>l \<in> set n1. (\<exists>c \<in> set l. \<not> is_space c) \<and> set l \<subseteq> insert (CHR ''/'') (\<Union> (set ` set (raw # vals)))"
      using ih(4) by fastforce
    then show ?thesis using ih(1,2,3) by blast
  next
    case False
    have neg: "\<not> HasPrefix line ''!''" using Cons.prems False by (auto simp: line_def [symmetric])
    have val: "validateRelativePath (trimSlash line) False = None"
      using Cons.prems False neg by (cases "validateRelativePath (trimSlash line) False") (auto simp: line_def [symmetric])
    have lim: "gl_valid g (trimSlash line)" "used + int (length (trimSlash line)) \<le> maxIgnoreFileSize" "int (length r0) + 1 \<le> maxIgnoreRules"
      and rest: "normalizeLoop g (Suc index) (used + int (length (trimSlash line))) vals (n0 @ [normalizedLine line]) (r0 @ [patternRule line]) = Inr (n, r)"
      using Cons.prems False neg val by (auto simp: line_def [symmetric] Let_def split: if_splits)
    from Cons.IH [OF rest] obtain n1 r1 where ih: "n = (n0 @ [normalizedLine line]) @ n1" "r = (r0 @ [patternRule line]) @ r1"
      "\<And>index' used' n0' r0'. used' \<le> used + int (length (trimSlash line)) \<Longrightarrow> length r0' \<le> length (r0 @ [patternRule line]) \<Longrightarrow>
         normalizeLoop g index' used' n1 n0' r0' = Inr (n0' @ n1, r0' @ r1)"
      "\<forall>l \<in> set n1. (\<exists>c \<in> set l. \<not> is_space c) \<and> set l \<subseteq> insert (CHR ''/'') (\<Union> (set ` set vals))" by blast
    have ne: "trimSlash line \<noteq> []" using val validateRelativePath_nonempty by blast
    note nl = normalizedLine_line [OF line_def _ ne] and st = normalizedLine_stable [OF ne]
    have "normalizeLoop g index' used' (normalizedLine line # n1) n0' r0' = Inr (n0' @ normalizedLine line # n1, r0' @ patternRule line # r1)"
      if "used' \<le> used" "length r0' \<le> length r0" for index' used' n0' r0'
    proof -
      have "normalizeLoop g index' used' (normalizedLine line # n1) n0' r0' =
          normalizeLoop g (Suc index') (used' + int (length (trimSlash line))) n1 (n0' @ [normalizedLine line]) (r0' @ [patternRule line])"
        using False neg val lim that st nl by (simp add: Let_def)
      then show ?thesis using ih(3) [of "used' + int (length (trimSlash line))" "r0' @ [patternRule line]"] that by simp
    qed
    note eq = this
    have "set (TrimSuffix raw [CHR 0x0D]) \<subseteq> set raw" unfolding TrimSuffix_def by (simp add: set_take_subset)
    then have nls: "(\<exists>c \<in> set (normalizedLine line). \<not> is_space c) \<and> set (normalizedLine line) \<subseteq> insert (CHR ''/'') (set raw)"
      using nl(4,5) False by blast
    have "(\<exists>c \<in> set l. \<not> is_space c) \<and> set l \<subseteq> insert (CHR ''/'') (\<Union> (set ` set (raw # vals)))" if "l \<in> set (normalizedLine line # n1)" for l
    proof (cases "l = normalizedLine line")
      case True
      then show ?thesis using nls by auto
    next
      case False
      then have "l \<in> set n1" using that by simp
      then show ?thesis using ih(4) by fastforce
    qed
    moreover have "n = n0 @ normalizedLine line # n1" "r = r0 @ patternRule line # r1" using ih(1,2) by simp_all
    ultimately show ?thesis using eq
      by (intro exI [of _ "normalizedLine line # n1"] exI [of _ "patternRule line # r1"]) blast
  qed
qed simp

lemma normalizePatterns_saved:
  assumes "normalizePatterns g vals = Inr (n, r)" "\<forall>v \<in> set vals. CHR 0x0A \<notin> set v"
  shows "splitPatternLines (Join n [CHR 0x0A]) = n \<and> normalizePatterns g n = Inr (n, r)"
proof -
  from normalizeLoop_stable [OF assms(1) [unfolded normalizePatterns_def]]
  have st: "normalizePatterns g n = Inr (n, r)" and ls: "\<forall>l \<in> set n. (\<exists>c \<in> set l. \<not> is_space c) \<and> set l \<subseteq> insert (CHR ''/'') (\<Union> (set ` set vals))"
    by (auto simp: normalizePatterns_def)
  have nonl: "\<forall>l \<in> set n. CHR 0x0A \<notin> set l" using ls assms(2) by fastforce
  have "splitPatternLines (Join n [CHR 0x0A]) = n"
  proof (cases n)
    case (Cons l ls')
    obtain c where "c \<in> set l" "\<not> is_space c" using ls Cons by auto
    then have "TrimSpace (Join n [CHR 0x0A]) \<noteq> []" using TrimSpace_nonblank [of c "Join n [CHR 0x0A]"] Cons by (cases ls') auto
    then show ?thesis using Split_Join [of n "CHR 0x0A"] Cons nonl by (simp add: splitPatternLines_def)
  qed (simp add: splitPatternLines_def)
  then show ?thesis using st by simp
qed

text \<open>
  A saved policy means what was entered.  When the editor's patterns are accepted and none
  contains a line break, the stored columns give back exactly the accepted profile, patterns and
  rules: reading a binding cannot fail on its own policy.
\<close>

theorem policyFromBinding_saved_roundtrip:
  assumes "normalizeBindingPolicy g input = Inr (profile, includes, excludes)"
    and "\<forall>v \<in> set (pi_IncludePatterns input) \<union> set (pi_ExcludePatterns input). CHR 0x0A \<notin> set v"
    and "sb_SyncProfile b = profile" "sb_IncludePatterns b = Join includes [CHR 0x0A]" "sb_ExcludePatterns b = Join excludes [CHR 0x0A]"
  shows "\<exists>policy. policyFromBinding g b None = Inr policy \<and> sp_profile policy = profile \<and>
    normalizePatterns g (pi_IncludePatterns input) = Inr (includes, sp_includes policy) \<and>
    normalizePatterns g (pi_ExcludePatterns input) = Inr (excludes, sp_excludes policy)"
proof -
  obtain r1 r2 where n: "normalizePatterns g (pi_IncludePatterns input) = Inr (includes, r1)"
    "normalizePatterns g (pi_ExcludePatterns input) = Inr (excludes, r2)"
    and prof: "profile \<in> {syncProfileComposeOnly, syncProfileComposeConfig, syncProfileAllFiles}"
    using assms(1) by (auto simp: normalizeBindingPolicy_def Let_def split: if_splits sum.splits)
  have s: "splitPatternLines (sb_IncludePatterns b) = includes" "normalizePatterns g includes = Inr (includes, r1)"
    "splitPatternLines (sb_ExcludePatterns b) = excludes" "normalizePatterns g excludes = Inr (excludes, r2)"
    using normalizePatterns_saved [OF n(1)] normalizePatterns_saved [OF n(2)] assms(2,4,5) by auto
  have p: "profile \<noteq> []" "TrimSpace profile = profile" using prof
    by (auto simp: sync_profiles intro!: trimmed_TrimSpace_id simp: trimmed_def is_space_def)
  have "normalizeBindingPolicy g \<lparr>pi_Profile = profile, pi_IncludePatterns = includes, pi_ExcludePatterns = excludes\<rparr> = Inr (profile, includes, excludes)"
    using s p prof by (simp add: normalizeBindingPolicy_def Let_def)
  then show ?thesis using s p(1) assms(3) n by (simp add: policyFromBinding_def rulesFromPatterns_def Let_def)
qed

definition sampleBinding :: StackBinding where
  "sampleBinding = \<lparr>sb_UUID = ''b1'', sb_RepositoryUUID = ''r1'', sb_Host = ''local'', sb_StackPath = ''compose'', sb_SubPath = ''stacks'',
     sb_ComposePaths = ''app/compose.yml'', sb_ComposeSelectionMode = ''all'', sb_SelectedComposePaths = [], sb_SyncProfile = ''compose_config'',
     sb_IncludePatterns = [], sb_ExcludePatterns = [], sb_AutoExcludedPaths = [], sb_AutoSyncEnabled = False, sb_AutoSyncPaused = False,
     sb_AutoSyncSelectionMode = ''all'', sb_AutoSyncComposePaths = [], sb_AutoSyncIntervalMinutes = 15, sb_AutoSyncState = ''disabled'',
     sb_AutoSyncError = [], sb_LastAutoSyncAt = None, sb_LastAutoSyncSuccessAt = None, sb_LastAutoSyncCommit = [],
     sb_AutoDeployEnabled = False, sb_AutoDeployNewStacks = False, sb_AutoDeployRollbackEnabled = False, sb_AutoDeployComposePaths = [],
     sb_AutoDeployState = ''disabled'', sb_AutoDeployError = [], sb_LastAutoDeployAt = None, sb_InitialSyncState = ''pending'',
     sb_InitialSyncError = [], sb_AutoReconcileEnabled = False, sb_CreatedAt = 0, sb_Deleted = False\<rparr>"

theorem policyFromBinding_saved_roundtrip_witness:
  "\<exists>policy. policyFromBinding literalGlob (sampleBinding\<lparr>sb_IncludePatterns := ''/app/conf/'', sb_ExcludePatterns := ''*.log''\<rparr>) None = Inr policy \<and>
     sp_profile policy = ''compose_config''"
proof -
  define input where "input = \<lparr>pi_Profile = [], pi_IncludePatterns = ['' //app/conf// '', ''# note''], pi_ExcludePatterns = [''*.log'']\<rparr>"
  have n: "normalizeBindingPolicy literalGlob input = Inr (''compose_config'', [''/app/conf/''], [''*.log''])" unfolding input_def by code_simp
  have "list_all (\<lambda>v. CHR 0x0A \<notin> set v) (pi_IncludePatterns input @ pi_ExcludePatterns input)" unfolding input_def by code_simp
  then have nl: "\<forall>v \<in> set (pi_IncludePatterns input) \<union> set (pi_ExcludePatterns input). CHR 0x0A \<notin> set v" by (auto simp: list_all_iff)
  show ?thesis using policyFromBinding_saved_roundtrip [OF n nl, of "sampleBinding\<lparr>sb_IncludePatterns := ''/app/conf/'', sb_ExcludePatterns := ''*.log''\<rparr>"]
    by (auto simp: sampleBinding_def)
qed

text \<open>
  A pattern with a line break inside is accepted and stored, and afterwards the binding cannot
  be read: its second half is a pattern line of its own, here one that is refused.
\<close>

theorem policy_line_break_breaks_binding:
  "normalizeBindingPolicy literalGlob \<lparr>pi_Profile = [], pi_IncludePatterns = [''a'' @ [CHR 0x0A] @ ''!b''], pi_ExcludePatterns = []\<rparr> =
     Inr (''compose_config'', [''a'' @ [CHR 0x0A] @ ''!b''], []) \<and>
   policyFromBinding literalGlob (sampleBinding\<lparr>sb_IncludePatterns := Join [''a'' @ [CHR 0x0A] @ ''!b''] [CHR 0x0A]\<rparr>) None =
     Inl ''invalid stack link policy: invalid include patterns: line 2: negation rules are not supported''"
  by (rule conjI; code_simp)
subsection \<open>The directory index\<close>

definition ancestors :: "string list \<Rightarrow> string list set" where
  "ancestors ps = {qs. qs \<noteq> [] \<and> (\<exists>rs. ps = qs @ rs)}"

lemma ancestors_snoc: "ancestors (ps @ [l]) = insert (ps @ [l]) (ancestors ps)"
proof -
  have "(\<exists>rs. ps @ [l] = qs @ rs) \<longleftrightarrow> qs = ps @ [l] \<or> (\<exists>rs. ps = qs @ rs)" for qs
  proof
    assume "\<exists>rs. ps @ [l] = qs @ rs"
    then obtain rs where "ps @ [l] = qs @ rs" by blast
    then show "qs = ps @ [l] \<or> (\<exists>rs. ps = qs @ rs)" by (cases rs rule: rev_cases) auto
  qed auto
  then show ?thesis by (auto simp: ancestors_def)
qed

lemma ancestors_Nil [simp]: "ancestors [] = {}"
  by (simp add: ancestors_def)

lemma climb_parts: "parts_ok ps \<Longrightarrow> set (climb (Join ps ''/'')) = (\<lambda>qs. Join qs ''/'') ` ancestors ps"
proof (induction ps rule: rev_induct)
  case Nil
  then show ?case by (simp add: parts_ok_def)
next
  case (snoc l ps)
  define J where "J = Join (ps @ [l]) ''/''"
  have "J \<noteq> ''.''" "J \<noteq> []" "J \<noteq> ''/''" "trimSlash J = J"
    using parts_ok_hd [OF snoc.prems] trimSlash_parts [OF snoc.prems] by (auto simp: J_def)
  then have c: "set (climb J) = insert J (set (climb (path_dir J)))" by (simp add: climb.simps [of J])
  have "set (climb (path_dir J)) = (\<lambda>qs. Join qs ''/'') ` ancestors ps"
  proof (cases "ps = []")
    case True
    then show ?thesis using path_dir_parts [OF snoc.prems] by (simp add: J_def climb.simps [of "''.''"])
  next
    case False
    then show ?thesis using path_dir_parts [OF snoc.prems] snoc.IH parts_ok_append snoc.prems by (simp add: J_def)
  qed
  then show ?case using c by (simp add: ancestors_snoc J_def)
qed

text \<open>
  The directory index answers what the search of the whole catalogue answers: a directory
  is indexed exactly when some catalogued Compose file lies below it.
\<close>

theorem withComposeDirectoryIndex_exact:
  assumes "\<forall>c \<in> set (sp_compose policy). validateRelativePath c False = None \<and> path_clean c = c"
    and "validateRelativePath directory False = None" "path_clean directory = directory"
  shows "containsCompose (withComposeDirectoryIndex policy) directory = containsCompose (policy\<lparr>sp_composeDirectories := None\<rparr>) directory"
proof -
  obtain ds where ds: "parts_ok ds" "directory = Join ds ''/''" using validateRelativePath_parts [OF assms(2)] assms(3) by auto
  have one: "directory \<in> set (climb (path_dir c)) \<longleftrightarrow> HasPrefix c (directory @ ''/'')" if c: "c \<in> set (sp_compose policy)" for c
  proof -
    have "validateRelativePath c False = None" "path_clean c = c" using assms(1) c by auto
    then obtain cs where cs: "parts_ok cs" "c = Join cs ''/''" using validateRelativePath_parts [of c] by auto
    obtain ps l where pl: "cs = ps @ [l]" using cs(1) by (metis parts_ok_def rev_exhaust)
    have "HasPrefix c (directory @ ''/'') \<longleftrightarrow> (\<exists>rs. rs \<noteq> [] \<and> ps @ [l] = ds @ rs)"
      using HasPrefix_slash_iff [OF cs(1) ds(1)] unfolding cs(2) ds(2) pl .
    also have "\<dots> \<longleftrightarrow> (\<exists>rs. ps = ds @ rs)"
    proof
      assume "\<exists>rs. rs \<noteq> [] \<and> ps @ [l] = ds @ rs"
      then obtain rs where "rs \<noteq> []" "ps @ [l] = ds @ rs" by blast
      then have "ps = ds @ butlast rs" by (metis butlast_append butlast_snoc)
      then show "\<exists>rs. ps = ds @ rs" by blast
    qed auto
    also have "\<dots> \<longleftrightarrow> directory \<in> set (climb (path_dir c))"
    proof (cases "ps = []")
      case True
      then have "climb (path_dir c) = []" using path_dir_parts [of ps l] cs pl by (simp add: climb.simps [of "''.''"])
      then show ?thesis using True ds(1) by (simp add: parts_ok_def)
    next
      case False
      then have ok: "parts_ok ps" using cs(1) parts_ok_append unfolding pl by blast
      have "set (climb (path_dir c)) = (\<lambda>qs. Join qs ''/'') ` ancestors ps"
        using path_dir_parts [of ps l] cs pl False climb_parts [OF ok] by simp
      moreover have "Join ds ''/'' = Join qs ''/'' \<longleftrightarrow> ds = qs" if "qs \<in> ancestors ps" for qs
        using Join_inj [OF ds(1)] parts_ok_append [of qs] ok that by (auto simp: ancestors_def)
      moreover have "ds \<in> ancestors ps \<longleftrightarrow> (\<exists>rs. ps = ds @ rs)" using ds(1) by (simp add: ancestors_def parts_ok_def)
      ultimately show ?thesis unfolding ds(2) by (metis (mono_tags, lifting) imageE image_eqI)
    qed
    finally show ?thesis by blast
  qed
  have "trimSlash directory = directory" using trimSlash_parts [OF ds(1)] by (simp add: ds(2))
  then show ?thesis using one by (auto simp: containsCompose_def withComposeDirectoryIndex_def list_ex_iff Let_def)
qed

theorem withComposeDirectoryIndex_exact_witness:
  "containsCompose (withComposeDirectoryIndex \<lparr>sp_profile = syncProfileComposeOnly, sp_includes = [], sp_excludes = [], sp_repositoryExcludes = [],
     sp_repositorySubPath = [], sp_compose = [''media/jelly/compose.yml''], sp_composeDirectories = None, sp_selectedRoots = [],
     sp_selectionEnabled = False, sp_selectNewCompose = False, sp_unreadable = []\<rparr>) ''media'' \<and>
   validateRelativePath ''media'' False = None"
proof -
  let ?p = "\<lparr>sp_profile = syncProfileComposeOnly, sp_includes = [], sp_excludes = [], sp_repositoryExcludes = [],
     sp_repositorySubPath = [], sp_compose = [''media/jelly/compose.yml''], sp_composeDirectories = None, sp_selectedRoots = [],
     sp_selectionEnabled = False, sp_selectNewCompose = False, sp_unreadable = []\<rparr>"
  have v: "validateRelativePath ''media'' False = None" "path_clean ''media'' = ''media''"
    "validateRelativePath ''media/jelly/compose.yml'' False = None" "path_clean ''media/jelly/compose.yml'' = ''media/jelly/compose.yml''"
    by code_simp+
  have "containsCompose ?p ''media''" by code_simp
  then show ?thesis using withComposeDirectoryIndex_exact [of ?p "''media''"] v by simp
qed

end
