(* ===== verification/Binding_Ownership.thy ===== *)
theory Binding_Ownership
  imports Sync_Policy
begin

section \<open>Which files a folder link owns\<close>

text \<open>
  Models the ownership checks of \<open>core/internal/gitsync/binding.go\<close>: two links may share a host
  or a repository only when the files they select are disjoint.  \<^verbatim>\<open>listed\<close> is the answer of
  \<open>ListBindings\<close>.
\<close>

record bindingOwnership =
  ow_path :: string
  ow_recursive :: bool

definition cleanRoot :: "string \<Rightarrow> string" where
  "cleanRoot p = trimSlash (path_clean p)"

definition pathsOverlap :: "string \<Rightarrow> string \<Rightarrow> bool" where
  "pathsOverlap left right =
     (let l = cleanRoot left; r = cleanRoot right in
      if l = ''.'' \<or> r = ''.'' then True
      else l = r \<or> HasPrefix l (r @ ''/'') \<or> HasPrefix r (l @ ''/''))"

definition composeOwnership :: "string \<Rightarrow> string \<Rightarrow> bindingOwnership" where
  "composeOwnership root composePath =
     (let directory = path_dir composePath in
      if directory \<noteq> ''.'' \<and> directory \<noteq> [] then \<lparr>ow_path = trimSlash (path_join [root, directory]), ow_recursive = True\<rparr>
      else \<lparr>ow_path = root, ow_recursive = False\<rparr>)"

definition bindingOwnerships :: "StackBinding \<Rightarrow> bindingOwnership list" where
  "bindingOwnerships b =
     (let root = cleanRoot (sb_StackPath b) in
      if normalizedComposeSelectionMode (sb_ComposeSelectionMode b) = composeSelectionAll then [\<lparr>ow_path = root, ow_recursive = True\<rparr>]
      else foldl (\<lambda>result p. let o1 = composeOwnership root p in if o1 \<in> set result then result else result @ [o1]) [] (selectedComposePaths b))"

definition ownershipsOverlap :: "bindingOwnership \<Rightarrow> bindingOwnership \<Rightarrow> bool" where
  "ownershipsOverlap left right =
     (if ow_path left = ow_path right then True
      else (ow_recursive left \<and> HasPrefix (ow_path right) (ow_path left @ ''/'')) \<or>
           (ow_recursive right \<and> HasPrefix (ow_path left) (ow_path right @ ''/'')))"

definition bindingOwnershipsOverlap :: "StackBinding \<Rightarrow> StackBinding \<Rightarrow> bool" where
  "bindingOwnershipsOverlap left right = list_ex (\<lambda>l. list_ex (ownershipsOverlap l) (bindingOwnerships right)) (bindingOwnerships left)"

definition bindingIncludeMayReach :: "glob_env \<Rightarrow> StackBinding \<Rightarrow> string \<Rightarrow> bool" where
  "bindingIncludeMayReach g b targetRoot0 =
     (let bindingRoot = cleanRoot (sb_StackPath b); targetRoot = cleanRoot targetRoot0 in
      if targetRoot = bindingRoot \<or> \<not> HasPrefix targetRoot (bindingRoot @ ''/'') then False
      else let relative = TrimPrefix targetRoot (bindingRoot @ ''/'') in
        (case rulesFromPatterns g (splitPatternLines (sb_IncludePatterns b)) of
           Inl _ \<Rightarrow> True
         | Inr rules \<Rightarrow> list_ex (\<lambda>rule. \<not> ir_basename rule \<and>
             (matchesIgnoreRule g [rule] relative False \<or> includeRuleCanMatchBelowDirectory g rule relative)) rules))"

definition repositoryOwnershipBinding :: "StackBinding \<Rightarrow> StackBinding" where
  "repositoryOwnershipBinding b =
     b\<lparr>sb_StackPath := (if TrimSpace (sb_SubPath b) = [] then ''.'' else sb_SubPath b)\<rparr>"

definition repositoryConflict :: "glob_env \<Rightarrow> StackBinding \<Rightarrow> string \<Rightarrow> StackBinding \<Rightarrow> bool" where
  "repositoryConflict g candidate ignoreID existing \<longleftrightarrow>
     \<not> (sb_UUID existing = ignoreID \<or> sb_RepositoryUUID existing \<noteq> sb_RepositoryUUID candidate \<or> \<not> pathsOverlap (sb_SubPath existing) (sb_SubPath candidate)) \<and>
     (let er = repositoryOwnershipBinding existing; cr = repositoryOwnershipBinding candidate in
      bindingOwnershipsOverlap er cr \<or> bindingIncludeMayReach g er (sb_StackPath cr) \<or> bindingIncludeMayReach g cr (sb_StackPath er))"

definition validateBindingRepositoryOwnership :: "glob_env \<Rightarrow> string + StackBinding list \<Rightarrow> StackBinding \<Rightarrow> string \<Rightarrow> string option" where
  "validateBindingRepositoryOwnership g listed candidate ignoreID =
     (case listed of
        Inl e \<Rightarrow> Some e
      | Inr rows \<Rightarrow>
          (case find (repositoryConflict g candidate ignoreID) rows of
             None \<Rightarrow> None
           | Some existing \<Rightarrow> Some (''repository path overlaps files selected by existing link '' @ sb_StackPath existing @
               '' on host '' @ sb_Host existing @ ''; choose unlinked Git stacks or deselect them from the other link first'')))"

definition localConflict :: "glob_env \<Rightarrow> StackBinding \<Rightarrow> string \<Rightarrow> StackBinding \<Rightarrow> bool" where
  "localConflict g candidate ignoreID existing \<longleftrightarrow>
     \<not> (sb_UUID existing = ignoreID \<or> sb_Host existing \<noteq> sb_Host candidate \<or> \<not> pathsOverlap (sb_StackPath existing) (sb_StackPath candidate)) \<and>
     (bindingOwnershipsOverlap existing candidate \<or> bindingIncludeMayReach g existing (sb_StackPath candidate) \<or>
      bindingIncludeMayReach g candidate (sb_StackPath existing))"

definition validateBindingLocalOwnership :: "glob_env \<Rightarrow> string + StackBinding list \<Rightarrow> StackBinding \<Rightarrow> string \<Rightarrow> string option" where
  "validateBindingLocalOwnership g listed candidate ignoreID =
     (case listed of
        Inl e \<Rightarrow> Some e
      | Inr rows \<Rightarrow>
          (case find (localConflict g candidate ignoreID) rows of
             None \<Rightarrow> None
           | Some existing \<Rightarrow> Some (''source folder overlaps files selected by existing link '' @ sb_StackPath existing @
               '' on host '' @ sb_Host existing @ ''; choose a disjoint subfolder or deselect those stacks first'')))"

definition validateBindingOwnership :: "glob_env \<Rightarrow> string + StackBinding list \<Rightarrow> StackBinding \<Rightarrow> string \<Rightarrow> string option" where
  "validateBindingOwnership g listed candidate ignoreID =
     (case validateBindingRepositoryOwnership g listed candidate ignoreID of
        Some e \<Rightarrow> Some e
      | None \<Rightarrow> validateBindingLocalOwnership g listed candidate ignoreID)"

section \<open>Ownership is disjoint\<close>

text \<open>
  A link owns a file when the file lies below a recursive ownership, or directly in a directory
  that is owned without its subdirectories.
\<close>

definition ownsFile :: "StackBinding \<Rightarrow> string \<Rightarrow> bool" where
  "ownsFile b f \<longleftrightarrow> (\<exists>o1 \<in> set (bindingOwnerships b).
     if ow_recursive o1 then HasPrefix f (ow_path o1 @ ''/'') else path_dir f = ow_path o1)"

text \<open>The stored paths of a link, as the checks on creation leave them; the root is not \<open>.\<close>\<close>

definition well_rooted :: "StackBinding \<Rightarrow> bool" where
  "well_rooted b \<longleftrightarrow> validateRelativePath (sb_StackPath b) False = None \<and>
     (normalizedComposeSelectionMode (sb_ComposeSelectionMode b) \<noteq> composeSelectionAll \<longrightarrow>
       (\<forall>c \<in> set (selectedComposePaths b). validateRelativePath c False = None \<and> path_clean c = c))"

lemma set_bindingOwnerships:
  "normalizedComposeSelectionMode (sb_ComposeSelectionMode b) \<noteq> composeSelectionAll \<Longrightarrow>
     set (bindingOwnerships b) = composeOwnership (cleanRoot (sb_StackPath b)) ` set (selectedComposePaths b)"
proof -
  have "set (foldl (\<lambda>result p. let o1 = f p in if o1 \<in> set result then result else result @ [o1]) acc ps) = set acc \<union> f ` set ps"
    for f :: "string \<Rightarrow> bindingOwnership" and acc ps
    by (induction ps arbitrary: acc) (auto simp: Let_def)
  then show "normalizedComposeSelectionMode (sb_ComposeSelectionMode b) \<noteq> composeSelectionAll \<Longrightarrow> ?thesis"
    by (simp add: bindingOwnerships_def Let_def)
qed

text \<open>Every ownership of a well-rooted link is its root or lies below it, and is a list of components.\<close>

lemma ownership_parts:
  assumes "well_rooted b" "o1 \<in> set (bindingOwnerships b)"
  shows "\<exists>rs ds. parts_ok rs \<and> cleanRoot (sb_StackPath b) = Join rs ''/'' \<and> parts_ok (rs @ ds) \<and> ow_path o1 = Join (rs @ ds) ''/''"
proof -
  obtain rs where rs: "parts_ok rs" "path_clean (sb_StackPath b) = Join rs ''/''"
    using assms(1) validateRelativePath_parts by (auto simp: well_rooted_def)
  then have root: "cleanRoot (sb_StackPath b) = Join rs ''/''" by (simp add: cleanRoot_def trimSlash_parts)
  show ?thesis
  proof (cases "normalizedComposeSelectionMode (sb_ComposeSelectionMode b) = composeSelectionAll")
    case True
    then have "ow_path o1 = Join (rs @ []) ''/''" using assms(2) root by (simp add: bindingOwnerships_def Let_def)
    then show ?thesis using root rs(1) by (metis append_Nil2)
  next
    case False
    then obtain c where c: "c \<in> set (selectedComposePaths b)" "o1 = composeOwnership (Join rs ''/'') c"
      using assms(2) set_bindingOwnerships root by auto
    then have "validateRelativePath c False = None" "path_clean c = c" using assms(1) False by (auto simp: well_rooted_def)
    then obtain cs where cs: "parts_ok cs" "c = Join cs ''/''" using validateRelativePath_parts by metis
    obtain ps l where pl: "cs = ps @ [l]" using cs(1) by (metis parts_ok_def rev_exhaust)
    show ?thesis
    proof (cases "ps = []")
      case True
      then have "o1 = \<lparr>ow_path = Join (rs @ []) ''/'', ow_recursive = False\<rparr>"
        using path_dir_parts [of ps l] cs pl c(2) by (simp add: composeOwnership_def)
      then show ?thesis using root rs(1) by (metis append_Nil2 bindingOwnership.select_convs(1))
    next
      case False
      then have ok: "parts_ok ps" "parts_ok (rs @ ps)" using cs(1) rs(1) unfolding pl by (auto simp: parts_ok_def)
      have "path_dir c = Join ps ''/''" using path_dir_parts [of ps l] cs pl False by simp
      moreover have "Join ps ''/'' \<noteq> []" "Join ps ''/'' \<noteq> ''.''" using parts_ok_hd [OF ok(1)] by auto
      ultimately have "ow_path o1 = Join (rs @ ps) ''/''"
        using c(2) path_join_parts [OF rs(1) ok(1)] trimSlash_parts [OF ok(2)] by (simp add: composeOwnership_def)
      then show ?thesis using root rs(1) ok(2) by metis
    qed
  qed
qed
lemma ownsFile_parts:
  assumes "well_rooted b" "parts_ok fs" "ownsFile b (Join fs ''/'')"
  shows "\<exists>o1 rs ds x. o1 \<in> set (bindingOwnerships b) \<and> parts_ok rs \<and> cleanRoot (sb_StackPath b) = Join rs ''/'' \<and> parts_ok (rs @ ds) \<and>
    ow_path o1 = Join (rs @ ds) ''/'' \<and> fs = (rs @ ds) @ x \<and> x \<noteq> [] \<and> (\<not> ow_recursive o1 \<longrightarrow> length x = 1)"
proof -
  obtain o1 where o1: "o1 \<in> set (bindingOwnerships b)"
    "if ow_recursive o1 then HasPrefix (Join fs ''/'') (ow_path o1 @ ''/'') else path_dir (Join fs ''/'') = ow_path o1"
    using assms(3) by (auto simp: ownsFile_def)
  from ownership_parts [OF assms(1) o1(1)] obtain rs ds where r: "parts_ok rs" "cleanRoot (sb_StackPath b) = Join rs ''/''"
    "parts_ok (rs @ ds)" "ow_path o1 = Join (rs @ ds) ''/''" by blast
  have "\<exists>x. fs = (rs @ ds) @ x \<and> x \<noteq> [] \<and> (\<not> ow_recursive o1 \<longrightarrow> length x = 1)"
  proof (cases "ow_recursive o1")
    case True
    then show ?thesis using o1(2) HasPrefix_slash_iff [OF assms(2) r(3)] r(4) by auto
  next
    case False
    obtain ps l where pl: "fs = ps @ [l]" using assms(2) by (metis parts_ok_def rev_exhaust)
    have d: "path_dir (Join fs ''/'') = Join (rs @ ds) ''/''" using o1(2) False r(4) by simp
    have "ps \<noteq> []" using d path_dir_parts [of ps l] assms(2) parts_ok_hd [OF r(3)] unfolding pl by auto
    then have "parts_ok ps" "Join ps ''/'' = Join (rs @ ds) ''/''"
      using d path_dir_parts [of ps l] assms(2) parts_ok_append unfolding pl by auto
    then have "ps = rs @ ds" using Join_inj r(3) by blast
    then show ?thesis using pl False by simp
  qed
  then show ?thesis using o1(1) r by blast
qed

lemma owners_conflict:
  assumes "well_rooted a" "well_rooted b" "parts_ok fs" "ownsFile a (Join fs ''/'')" "ownsFile b (Join fs ''/'')"
  shows "pathsOverlap (sb_StackPath a) (sb_StackPath b) \<and> bindingOwnershipsOverlap a b"
proof -
  from ownsFile_parts [OF assms(1,3,4)] obtain o1 r1 d1 x1 where a: "o1 \<in> set (bindingOwnerships a)" "parts_ok r1"
    "cleanRoot (sb_StackPath a) = Join r1 ''/''" "parts_ok (r1 @ d1)" "ow_path o1 = Join (r1 @ d1) ''/''" "fs = (r1 @ d1) @ x1"
    "x1 \<noteq> []" "\<not> ow_recursive o1 \<longrightarrow> length x1 = 1" by blast
  from ownsFile_parts [OF assms(2,3,5)] obtain o2 r2 d2 x2 where b: "o2 \<in> set (bindingOwnerships b)" "parts_ok r2"
    "cleanRoot (sb_StackPath b) = Join r2 ''/''" "parts_ok (r2 @ d2)" "ow_path o2 = Join (r2 @ d2) ''/''" "fs = (r2 @ d2) @ x2"
    "x2 \<noteq> []" "\<not> ow_recursive o2 \<longrightarrow> length x2 = 1" by blast
  have roots: "inside (Join r1 ''/'') (Join r2 ''/'') \<or> inside (Join r2 ''/'') (Join r1 ''/'')"
  proof -
    have "r1 @ (d1 @ x1) = r2 @ (d2 @ x2)" using a(6) b(6) by simp
    then have "(\<exists>rs. r1 = r2 @ rs) \<or> (\<exists>rs. r2 = r1 @ rs)" by (auto simp: append_eq_append_conv2)
    then show ?thesis using inside_iff [OF a(2) b(2)] inside_iff [OF b(2) a(2)] by blast
  qed
  have ov: "ownershipsOverlap o1 o2"
  proof -
    define p q where "p = r1 @ d1" and "q = r2 @ d2"
    have eq: "p @ x1 = q @ x2" using a(6) b(6) by (simp add: p_def q_def)
    have ok: "parts_ok p" "parts_ok q" "ow_path o1 = Join p ''/''" "ow_path o2 = Join q ''/''" using a b by (simp_all add: p_def q_def)
    consider "p = q" | u where "u \<noteq> []" "p = q @ u" | u where "u \<noteq> []" "q = p @ u"
      using eq by (auto simp: append_eq_append_conv2)
    then show ?thesis
    proof cases
      case 1
      then show ?thesis using ok by (simp add: ownershipsOverlap_def)
    next
      case 2
      then have "x2 = u @ x1" using eq by simp
      then have "ow_recursive o2" using b(8) 2(1) a(7) by (cases u; cases x1) auto
      then show ?thesis using HasPrefix_slash_iff [OF ok(1,2)] 2 ok by (auto simp: ownershipsOverlap_def)
    next
      case 3
      then have "x1 = u @ x2" using eq by simp
      then have "ow_recursive o1" using a(8) 3(1) b(7) by (cases u; cases x2) auto
      then show ?thesis using HasPrefix_slash_iff [OF ok(2,1)] 3 ok by (auto simp: ownershipsOverlap_def)
    qed
  qed
  have "bindingOwnershipsOverlap a b" using a(1) b(1) ov by (auto simp: bindingOwnershipsOverlap_def list_ex_iff)
  moreover have "pathsOverlap (sb_StackPath a) (sb_StackPath b)"
    using roots a(3) b(3) by (auto simp: pathsOverlap_def inside_def Let_def)
  ultimately show ?thesis by simp
qed

subsection \<open>The links of a server\<close>

text \<open>The links that accepted creations and updates leave; a row replaces the one of the same id.\<close>

inductive linked :: "glob_env \<Rightarrow> StackBinding list \<Rightarrow> bool" for g where
  none: "linked g []"
| save: "linked g rows \<Longrightarrow> validateBindingOwnership g (Inr rows) b (sb_UUID b) = None \<Longrightarrow> well_rooted b \<Longrightarrow>
    linked g (filter (\<lambda>r. sb_UUID r \<noteq> sb_UUID b) rows @ [b])"

definition share_no_file :: "StackBinding \<Rightarrow> StackBinding \<Rightarrow> bool" where
  "share_no_file a b \<longleftrightarrow> (\<forall>f. validateRelativePath f False = None \<and> path_clean f = f \<longrightarrow> \<not> (ownsFile a f \<and> ownsFile b f))"

lemma share_no_file_sym: "share_no_file a b = share_no_file b a"
  by (auto simp: share_no_file_def)

lemma share_no_file_parts: "(\<And>fs. parts_ok fs \<Longrightarrow> \<not> (ownsFile a (Join fs ''/'') \<and> ownsFile b (Join fs ''/''))) \<Longrightarrow> share_no_file a b"
  unfolding share_no_file_def using validateRelativePath_parts by metis

lemma accepted_disjoint:
  assumes "validateBindingOwnership g (Inr rows) b ignoreID = None" "a \<in> set rows" "sb_UUID a \<noteq> ignoreID"
  shows "sb_Host a = sb_Host b \<Longrightarrow> well_rooted a \<Longrightarrow> well_rooted b \<Longrightarrow> share_no_file a b"
    "sb_RepositoryUUID a = sb_RepositoryUUID b \<Longrightarrow> well_rooted (repositoryOwnershipBinding a) \<Longrightarrow>
       well_rooted (repositoryOwnershipBinding b) \<Longrightarrow> share_no_file (repositoryOwnershipBinding a) (repositoryOwnershipBinding b)"
proof -
  have "\<not> repositoryConflict g b ignoreID a" "\<not> localConflict g b ignoreID a"
    using assms by (auto simp: validateBindingOwnership_def validateBindingRepositoryOwnership_def validateBindingLocalOwnership_def
        find_None_iff split: option.splits)
  note c = this
  show "share_no_file a b" if "sb_Host a = sb_Host b" "well_rooted a" "well_rooted b"
  proof (rule share_no_file_parts)
    fix fs assume "parts_ok fs"
    then show "\<not> (ownsFile a (Join fs ''/'') \<and> ownsFile b (Join fs ''/''))"
      using owners_conflict [OF that(2,3)] c(2) that(1) assms(3) by (auto simp: localConflict_def)
  qed
  show "share_no_file (repositoryOwnershipBinding a) (repositoryOwnershipBinding b)"
    if r: "sb_RepositoryUUID a = sb_RepositoryUUID b" "well_rooted (repositoryOwnershipBinding a)" "well_rooted (repositoryOwnershipBinding b)"
  proof (rule share_no_file_parts)
    have sp: "sb_StackPath (repositoryOwnershipBinding x) = sb_SubPath x" if "well_rooted (repositoryOwnershipBinding x)" for x
    proof -
      have "validateRelativePath ''.'' False \<noteq> None" by code_simp
      then show ?thesis using that by (auto simp: repositoryOwnershipBinding_def well_rooted_def split: if_splits)
    qed
    fix fs assume "parts_ok fs"
    then show "\<not> (ownsFile (repositoryOwnershipBinding a) (Join fs ''/'') \<and> ownsFile (repositoryOwnershipBinding b) (Join fs ''/''))"
      using owners_conflict [OF r(2,3)] c(1) r(1) assms(3) sp [OF r(2)] sp [OF r(3)]
      by (auto simp: repositoryConflict_def Let_def)
  qed
qed



definition childLink :: StackBinding where
  "childLink = sampleBinding\<lparr>sb_UUID := ''b2'', sb_RepositoryUUID := ''r2'', sb_StackPath := ''compose/group/beta''\<rparr>"

definition parentLink :: StackBinding where
  "parentLink = sampleBinding\<lparr>sb_StackPath := ''compose/group'', sb_ComposePaths := ''alpha/compose.yml'', sb_ComposeSelectionMode := ''selected'',
     sb_SelectedComposePaths := ''alpha/compose.yml'', sb_IncludePatterns := ''/beta/''\<rparr>"

text \<open>
  Two gaps of the check.  A link of a whole repository in mode all and a link of one of its
  folders are both accepted although the folders overlap; and a parent link that selects one stack
  but includes the directory \<open>beta/\<close> is accepted beside the link of that directory, whose files
  it then selects and includes.
\<close>

theorem ownership_gaps:
  "(let root = sampleBinding\<lparr>sb_UUID := ''b1'', sb_Host := ''h1'', sb_SubPath := ''.''\<rparr>;
        folder = sampleBinding\<lparr>sb_UUID := ''b2'', sb_Host := ''h2'', sb_SubPath := ''media''\<rparr>
    in validateBindingOwnership literalGlob (Inr [root]) folder [] = None \<and> pathsOverlap (sb_SubPath root) (sb_SubPath folder)) \<and>
   validateBindingOwnership literalGlob (Inr [childLink]) parentLink (sb_UUID parentLink) = None \<and>
   ownsFile childLink ''compose/group/beta/app.yml'' \<and>
   map_sum id (\<lambda>p. (selectsPath literalGlob p ''beta/app.yml'' False, includesFile literalGlob p ''beta/app.yml'')) (policyFromBinding literalGlob parentLink None) =
     Inr ((True, True), True)"
  by (intro conjI; code_simp)

end
