(* ===== verification/Sync_Sensitive.thy ===== *)
theory Sync_Sensitive
  imports Sync_Policy
begin

section \<open>Files that must not leave the host\<close>

text \<open>
  Models the sensitive-file tests of \<open>core/internal/gitsync/binding.go\<close>: by the file's name, by
  the head of its content, and for an encrypted SOPS source by its values.  Reading a file gives
  its content or an error; YAML decoding is a library and an argument.
\<close>

datatype fs_error = Permission | NotExist | OtherFs string

text \<open>What the YAML library makes of a document, as far as the code looks at it.\<close>

datatype yaml = YString string | YMap "(string \<times> yaml) list" | YOther

type_synonym opener = "(fs_error + string) option"

definition ageIdentityMarker :: string where "ageIdentityMarker = ''AGE-SECRET-KEY-1''"
definition maxAgeIdentityScan :: int where "maxAgeIdentityScan = 8192"
definition maxKeyMaterialScan :: int where "maxKeyMaterialScan = 4096"
definition maxSOPSSourceSize :: int where "maxSOPSSourceSize = 4194304"

definition upper_char :: "char \<Rightarrow> char" where
  "upper_char c = (if CHR ''a'' \<le> c \<and> c \<le> CHR ''z'' then char_of ((of_char c :: nat) - 32) else c)"

definition ToUpper :: "string \<Rightarrow> string" where
  "ToUpper s = map upper_char s"

definition isAgeIdentity :: "int \<Rightarrow> opener \<Rightarrow> bool" where
  "isAgeIdentity sz open =
     (if sz \<le> 0 \<or> sz > maxAgeIdentityScan then False
      else (case open of
          None \<Rightarrow> False
        | Some (Inl _) \<Rightarrow> False
        | Some (Inr contents) \<Rightarrow> Contains (ToUpper (LimitReader contents maxAgeIdentityScan)) ageIdentityMarker))"

definition isPrivateKeyMaterial :: "int \<Rightarrow> opener \<Rightarrow> bool" where
  "isPrivateKeyMaterial sz open =
     (if sz \<le> 0 \<or> sz > maxKeyMaterialScan then False
      else (case open of
          None \<Rightarrow> False
        | Some (Inl _) \<Rightarrow> False
        | Some (Inr contents) \<Rightarrow>
            (let head = ToUpper (LimitReader contents maxKeyMaterialScan);
                 line = TrimSpace (case cut head [CHR 0x0A] of Some (first, _) \<Rightarrow> first | None \<Rightarrow> head)
             in if HasPrefix line ''PUTTY-USER-KEY-FILE-'' then True
                else HasPrefix line ''-----BEGIN '' \<and> Contains line ''PRIVATE KEY'')))"

definition sensitiveNames :: "string list" where
  "sensitiveNames =
     [''id_rsa'', ''id_dsa'', ''id_ecdsa'', ''id_ed25519'', ''id_ecdsa_sk'', ''id_ed25519_sk'',
      ''.envrc'', ''.netrc'', ''_netrc'', ''.pgpass'', ''.npmrc'', ''.htpasswd'', ''.dockercfg'', ''kubeconfig'']"

definition sensitiveExtensions :: "string list" where
  "sensitiveExtensions =
     [''.pem'', ''.key'', ''.p12'', ''.pfx'', ''.ppk'', ''.jks'', ''.keystore'', ''.asc'', ''.gpg'', ''.tfstate'']"

definition sensitiveWords :: "string list" where
  "sensitiveWords = [''token'', ''password'', ''passwords'', ''passwd'', ''apikey'', ''api_key'']"

definition isEnvironmentTemplate :: "string \<Rightarrow> bool" where
  "isEnvironmentTemplate base =
     (if \<not> HasPrefix base ''.env.'' then False
      else (case LastIndexByte base (CHR ''.'') of
          None \<Rightarrow> base
        | Some i \<Rightarrow> drop (Suc i) base) \<in> {''example'', ''sample'', ''template'', ''dist''})"

definition isNameLetter :: "string \<Rightarrow> int \<Rightarrow> bool" where
  "isNameLetter value index =
     (if index < 0 \<or> index \<ge> int (length value) then False
      else let c = value ! nat index in (CHR ''a'' \<le> c \<and> c \<le> CHR ''z'') \<or> (CHR ''0'' \<le> c \<and> c \<le> CHR ''9''))"

text \<open>\<open>strings.Index\<close>\<close>

fun str_index :: "string \<Rightarrow> string \<Rightarrow> nat option" where
  "str_index [] word = (if word = [] then Some 0 else None)"
| "str_index (c # s) word = (if HasPrefix (c # s) word then Some 0 else map_option Suc (str_index s word))"

lemma str_index_Some: "str_index s w = Some i \<Longrightarrow> i \<le> length s \<and> HasPrefix (drop i s) w"
  by (induction s arbitrary: i) (auto split: if_splits)

text \<open>The search of \<open>containsNameComponent\<close> from an offset on; every word looked for is not empty.\<close>

function componentFrom :: "string \<Rightarrow> string \<Rightarrow> nat \<Rightarrow> bool" where
  "componentFrom base word offset =
     (if word = [] then False
      else case str_index (drop offset base) word of
        None \<Rightarrow> False
      | Some i \<Rightarrow>
          let start = offset + i; stop = start + length word in
          if \<not> isNameLetter base (int start - 1) \<and> \<not> isNameLetter base (int stop) then True
          else componentFrom base word (start + 1))"
  by pat_completeness auto
termination
proof (relation "measure (\<lambda>(base, _, offset). length base - offset)")
  fix base word :: string and offset i start stop :: nat
  assume a: "word \<noteq> []" "str_index (drop offset base) word = Some i" "start = offset + i"
  from str_index_Some [OF a(2)] have "HasPrefix (drop (offset + i) base) word" by (simp add: add.commute)
  then have "drop (offset + i) base \<noteq> []" using a(1) by (cases word; cases "drop (offset + i) base") auto
  then show "((base, word, start + 1), base, word, offset) \<in> measure (\<lambda>(base, _, offset). length base - offset)"
    using a(3) by auto
qed simp

declare componentFrom.simps [simp del]

definition containsNameComponent :: "string \<Rightarrow> string \<Rightarrow> bool" where
  "containsNameComponent base word = componentFrom base word 0"

definition isSensitivePath :: "string \<Rightarrow> bool" where
  "isSensitivePath p =
     (let base = ToLower (path_base p) in
      ((base = ''.env'' \<or> HasPrefix base ''.env.'') \<and> \<not> isEnvironmentTemplate base) \<or>
      base \<in> set sensitiveNames \<or>
      (case cut base ''.'' of Some (root, _) \<Rightarrow> root \<in> set sensitiveNames | None \<Rightarrow> False) \<or>
      list_ex (\<lambda>name. HasSuffix base name \<or> Contains base (name @ ''.'')) sensitiveExtensions \<or>
      Contains base ''secret'' \<or> Contains base ''credential'' \<or>
      list_ex (containsNameComponent base) sensitiveWords)"

text \<open>
  A SOPS source is transferable when it is a document of encrypted values with an encrypted MAC.
  \<^verbatim>\<open>yaml_map\<close> is the library's decoding into a map, \<^const>\<open>None\<close> on an error.
\<close>

definition encryptedValue :: "yaml \<Rightarrow> bool" where
  "encryptedValue v = (case v of YString s \<Rightarrow> HasPrefix s ''ENC['' | _ \<Rightarrow> False)"

definition sopsUnsafe :: "(string \<times> yaml) list \<Rightarrow> bool" where
  "sopsUnsafe document =
     (if length document < 2 then True
      else (case map_of document ''sops'' of
          Some (YMap metadata) \<Rightarrow>
            (case map_of metadata ''mac'' of
               Some mac \<Rightarrow>
                 if \<not> encryptedValue mac then True
                 else let values = filter (\<lambda>(name, _). name \<noteq> ''sops'') document
                   in \<not> list_all (\<lambda>(_, raw). encryptedValue raw) values \<or> values = []
             | None \<Rightarrow> True)
        | _ \<Rightarrow> True))"

definition isSensitiveTransferPath :: "(string \<Rightarrow> (string \<times> yaml) list option) \<Rightarrow> string \<Rightarrow> int \<Rightarrow> opener \<Rightarrow> bool" where
  "isSensitiveTransferPath yaml_map relative sz open =
     (if ToLower (path_base relative) \<noteq> ''secrets.sops.yaml'' then isSensitivePath relative \<or> isPrivateKeyMaterial sz open
      else if sz \<le> 0 \<or> sz > maxSOPSSourceSize then True
      else (case open of
          Some (Inr contents) \<Rightarrow>
            (if int (length contents) > maxSOPSSourceSize then True
             else (case yaml_map contents of None \<Rightarrow> True | Some document \<Rightarrow> sopsUnsafe document))
        | _ \<Rightarrow> True))"

section \<open>What the tests recognise\<close>

text \<open>A word is found when it occurs between characters that are no letters or digits.\<close>

definition name_char :: "char \<Rightarrow> bool" where
  "name_char c \<longleftrightarrow> (CHR ''a'' \<le> c \<and> c \<le> CHR ''z'') \<or> (CHR ''0'' \<le> c \<and> c \<le> CHR ''9'')"

definition word_at :: "string \<Rightarrow> string \<Rightarrow> nat \<Rightarrow> bool" where
  "word_at base word i \<longleftrightarrow> HasPrefix (drop i base) word \<and> \<not> isNameLetter base (int i - 1) \<and> \<not> isNameLetter base (int (i + length word))"

lemma str_index_first: "str_index s w = Some i \<Longrightarrow> j < i \<Longrightarrow> \<not> HasPrefix (drop j s) w"
proof (induction s arbitrary: i j)
  case (Cons c s)
  then show ?case by (cases j) (auto split: if_splits)
qed (auto split: if_splits)

lemma str_index_None: "str_index s w = None \<Longrightarrow> \<not> HasPrefix (drop j s) w"
proof (induction s arbitrary: j)
  case (Cons c s)
  then show ?case by (cases j) (auto split: if_splits)
next
  case Nil
  then show ?case by (cases w) (auto split: if_splits)
qed

lemma componentFrom_iff: "word \<noteq> [] \<Longrightarrow> componentFrom base word offset \<longleftrightarrow> (\<exists>i \<ge> offset. word_at base word i)"
proof (induction base word offset rule: componentFrom.induct)
  case (1 base word offset)
  show ?case
  proof (cases "str_index (drop offset base) word")
    case None
    have "\<not> word_at base word i" if "i \<ge> offset" for i
      using str_index_None [OF None, of "i - offset"] that by (simp add: word_at_def)
    then show ?thesis using None 1(2) by (auto simp: componentFrom.simps [of base word offset])
  next
    case (Some i)
    have at: "word_at base word (offset + i) \<longleftrightarrow> \<not> isNameLetter base (int (offset + i) - 1) \<and> \<not> isNameLetter base (int (offset + i + length word))"
      using str_index_Some [OF Some] by (simp add: word_at_def add.commute)
    have no: "\<not> word_at base word j" if "offset \<le> j" "j < offset + i" for j
      using str_index_first [OF Some, of "j - offset"] that by (simp add: word_at_def)
    show ?thesis
    proof (cases "word_at base word (offset + i)")
      case True
      then show ?thesis using at Some 1(2) by (auto simp: componentFrom.simps [of base word offset] Let_def intro: exI [of _ "offset + i"])
    next
      case False
      have hyp: "\<not> (\<not> isNameLetter base (int (offset + i) - 1) \<and> \<not> isNameLetter base (int (offset + i + length word)))"
        using at False by blast
      then have "componentFrom base word offset = componentFrom base word (offset + i + 1)"
        using Some 1(2) by (auto simp: componentFrom.simps [of base word offset] Let_def)
      also have "\<dots> \<longleftrightarrow> (\<exists>j \<ge> offset + i + 1. word_at base word j)" using 1(1) [OF 1(2) Some refl refl hyp 1(2)] .
      also have "\<dots> \<longleftrightarrow> (\<exists>j \<ge> offset. word_at base word j)"
      proof -
        have "j \<ge> offset + i + 1" if "j \<ge> offset" "word_at base word j" for j
          using no [OF that(1)] False that(2) by (metis Suc_eq_plus1 Suc_leI antisym_conv3)
        then show ?thesis by (meson le_trans le_add1 add_leD1)
      qed
      finally show ?thesis .
    qed
  qed
qed

lemma containsNameComponent_iff:
  assumes "word \<noteq> []"
  shows "containsNameComponent base word \<longleftrightarrow>
    (\<exists>a b. base = a @ word @ b \<and> (a = [] \<or> \<not> name_char (last a)) \<and> (b = [] \<or> \<not> name_char (hd b)))"
proof -
  have "word_at base word i \<longleftrightarrow> (\<exists>a b. base = a @ word @ b \<and> length a = i \<and> (a = [] \<or> \<not> name_char (last a)) \<and> (b = [] \<or> \<not> name_char (hd b)))" for i
  proof -
    have "HasPrefix (drop i base) word \<longleftrightarrow> (\<exists>a b. base = a @ word @ b \<and> length a = i)"
    proof
      assume h: "HasPrefix (drop i base) word"
      then obtain b where b: "drop i base = word @ b" by (auto simp: HasPrefix_exists)
      then have "i \<le> length base" using assms by (metis append_is_Nil_conv drop_all linear)
      then show "\<exists>a b. base = a @ word @ b \<and> length a = i"
        using b by (metis append_take_drop_id length_take min.absorb2)
    qed auto
    moreover have "(\<not> isNameLetter base (int i - 1) \<and> \<not> isNameLetter base (int (i + length word))) \<longleftrightarrow>
        (a = [] \<or> \<not> name_char (last a)) \<and> (b = [] \<or> \<not> name_char (hd b))"
      if base: "base = a @ word @ b" "length a = i" for a b
    proof -
      have "isNameLetter base (int i - 1) \<longleftrightarrow> a \<noteq> [] \<and> name_char (last a)"
      proof (cases "a = []")
        case False
        then have "nat (int i - 1) = length a - 1" "base ! (length a - 1) = last a" using base
          by (auto simp: nth_append last_conv_nth)
        then show ?thesis using base False by (cases a) (auto simp: isNameLetter_def name_char_def Let_def)
      qed (use base in \<open>auto simp: isNameLetter_def\<close>)
      moreover have "isNameLetter base (int (i + length word)) \<longleftrightarrow> b \<noteq> [] \<and> name_char (hd b)"
        using base by (cases b) (auto simp: isNameLetter_def name_char_def nth_append Let_def nat_add_distrib)
      ultimately show ?thesis by blast
    qed
    ultimately show ?thesis unfolding word_at_def by metis
  qed
  then show ?thesis using componentFrom_iff [OF assms, of base 0] by (auto simp: containsNameComponent_def)
qed

end
