(* ===== verification/Sync_Inventory.thy ===== *)
theory Sync_Inventory
  imports Sync_Sensitive
begin

section \<open>The two inventories of a folder link\<close>

text \<open>
  Models \<open>collectStackFiles\<close> and \<open>collectRepositoryTreeFiles\<close> of
  \<open>core/internal/gitsync/binding.go\<close> with their helpers.  A host directory and a Git tree are
  values of a nested datatype; what reading a node gives, an error included, is stored in it.  The
  state of a walk is the inventory (Go's map \<open>result\<close>) and the bytes collected so far; when a walk
  fails the state is kept, since the caller uses it after an error of kind \<open>ErrNotExist\<close>.
\<close>

record transferFile =
  tf_path :: string
  tf_mode :: int
  tf_size :: int
  tf_sha :: string
  tf_sensitive :: bool
  tf_skipReason :: string
  tf_directory :: bool
  tf_open :: opener

record fileInfo =
  fi_Size :: int
  fi_Regular :: bool
  fi_Perm :: int

datatype fs_node =
  FsDir "(string \<times> fs_node) list"
| FsDenied fs_error
| FsLink
| FsFile "fs_error + fileInfo" "fs_error + string"

datatype git_node =
  GitTree "(string \<times> git_node) list"
| GitMissing string
| GitLink
| GitBlob bool "string + string"

text \<open>The libraries: patterns, SHA-256 in hexadecimal, YAML.\<close>

record sync_env =
  se_glob :: glob_env
  se_sha :: "string \<Rightarrow> string"
  se_yaml :: "string \<Rightarrow> (string \<times> yaml) list option"

type_synonym inventory = "(string, transferFile) gomap"
type_synonym inv_state = "inventory \<times> int"
type_synonym walk_result = "(fs_error option \<times> int) \<times> inv_state"

definition maxBindingFiles :: int where "maxBindingFiles = 20000"
definition maxAutoDirectoryFiles :: int where "maxAutoDirectoryFiles = 2000"
definition maxBindingFileSize :: int where "maxBindingFileSize = 104857600"
definition maxBindingTotalSize :: int where "maxBindingTotalSize = 2147483648"

definition skippedFile :: "string \<Rightarrow> string \<Rightarrow> transferFile" where
  "skippedFile p reason = \<lparr>tf_path = p, tf_mode = 0, tf_size = 0, tf_sha = [], tf_sensitive = False, tf_skipReason = reason,
     tf_directory = False, tf_open = None\<rparr>"

definition put :: "transferFile \<Rightarrow> inv_state \<Rightarrow> inv_state" where
  "put f st = (AList.update (tf_path f) f (fst st), snd st)"

subsection \<open>Helpers\<close>

definition hashTransferFile :: "(string \<Rightarrow> string) \<Rightarrow> transferFile \<Rightarrow> fs_error + string" where
  "hashTransferFile sha file =
     (case tf_open file of
        None \<Rightarrow> Inr []
      | Some (Inl e) \<Rightarrow> Inl e
      | Some (Inr contents) \<Rightarrow>
          if int (length (LimitReader contents (tf_size file + 1))) \<noteq> tf_size file
          then Inl (OtherFs (''file '' @ tf_path file @ '' changed while it was being hashed; retry the preview''))
          else Inr (sha (LimitReader contents (tf_size file + 1))))"

definition checkTransferLimit :: "int \<Rightarrow> int \<Rightarrow> int \<Rightarrow> string option" where
  "checkTransferLimit files fileSize totalSize =
     (if files > maxBindingFiles then Some ''stack contains more than 20000 files''
      else if fileSize > maxBindingFileSize then Some ''a stack file exceeds the 100 MiB limit''
      else if totalSize > maxBindingTotalSize then Some ''stack files exceed the 2048 MiB total limit''
      else None)"

text \<open>\<open>stack_status.go\<close>: the Compose files that own a path, those of the deepest directory above it.\<close>

definition ownerRoot :: "string \<Rightarrow> string" where
  "ownerRoot composePath = (let root = trimSlash (path_dir composePath) in if root = ''.'' then [] else root)"

definition ownerDepth :: "string \<Rightarrow> nat" where
  "ownerDepth root = length (filter (\<lambda>c. c = CHR ''/'') root) + (if root \<noteq> [] then 1 else 0)"

definition ownerStep :: "string \<Rightarrow> int \<times> string list \<Rightarrow> string \<Rightarrow> int \<times> string list" where
  "ownerStep filePath acc composePath =
     (let (bestDepth, result) = acc; root = ownerRoot composePath in
      if root = [] \<or> inside filePath root then
        (let depth = int (ownerDepth root);
             (best1, result1) = (if depth > bestDepth then (depth, []) else (bestDepth, result))
         in (best1, if depth = best1 then result1 @ [composePath] else result1))
      else (bestDepth, result))"

definition composePathsForFile :: "string list \<Rightarrow> string \<Rightarrow> string list" where
  "composePathsForFile composePaths filePath = snd (foldl (ownerStep (trimSlash filePath)) (- 1, []) composePaths)"

definition stackInventoryOwner :: "syncPolicy \<Rightarrow> string \<Rightarrow> string" where
  "stackInventoryOwner policy relative =
     (let owners = composePathsForFile (sp_compose policy) relative
      in if owners = [] then ''folder link'' else ''stack '' @ Join owners '', '')"

definition autoExcludeLargeDirectory :: "inv_state \<Rightarrow> syncPolicy \<Rightarrow> string \<Rightarrow> int \<Rightarrow> bool \<times> inv_state" where
  "autoExcludeLargeDirectory st policy relative observed =
     (if relative = [] \<or> observed \<le> maxAutoDirectoryFiles \<or> containsCompose policy relative then (False, st)
      else let prefix = TrimSuffix relative ''/'' @ ''/'';
               kept = filter (\<lambda>(k, _). \<not> (k = relative \<or> HasPrefix k prefix)) (fst st)
           in (True, put ((skippedFile relative ''large_directory'')\<lparr>tf_directory := True\<rparr>) (kept, snd st)))"

definition parseIgnoreRules :: "glob_env \<Rightarrow> fs_error + string \<Rightarrow> fs_error + ignoreRule list" where
  "parseIgnoreRules g contents =
     (case contents of
        Inl e \<Rightarrow> Inl e
      | Inr text \<Rightarrow>
          if int (length (LimitReader text (maxIgnoreFileSize + 1))) > maxIgnoreFileSize then Inl (OtherFs ''.dockmanignore exceeds 64 KiB'')
          else (case normalizePatterns g (Split text (CHR 0x0A)) of
              Inl e \<Rightarrow> Inl (OtherFs (''invalid .dockmanignore: '' @ e))
            | Inr (_, rules) \<Rightarrow> Inr rules))"

text \<open>The file \<open>.dockmanignore\<close> at the root, followed as \<open>Stat\<close> follows it, or a link's target.\<close>

definition loadStackIgnoreRules :: "glob_env \<Rightarrow> fs_node \<Rightarrow> fs_error + ignoreRule list" where
  "loadStackIgnoreRules g root =
     (case root of
        FsDir entries \<Rightarrow>
          (case map_of entries ''.dockmanignore'' of
             None \<Rightarrow> Inr []
           | Some (FsFile (Inl NotExist) _) \<Rightarrow> Inr []
           | Some (FsFile (Inl e) _) \<Rightarrow> Inl e
           | Some (FsFile (Inr info) contents) \<Rightarrow>
               if \<not> fi_Regular info then Inl (OtherFs ''.dockmanignore must be a regular file'') else parseIgnoreRules g contents
           | Some _ \<Rightarrow> Inl (OtherFs ''.dockmanignore must be a regular file''))
      | _ \<Rightarrow> Inr [])"

definition loadRepositoryTreeIgnoreRules :: "glob_env \<Rightarrow> git_node \<Rightarrow> fs_error + ignoreRule list" where
  "loadRepositoryTreeIgnoreRules g root =
     (case root of
        GitTree entries \<Rightarrow>
          (case map_of entries ''.dockmanignore'' of
             Some (GitBlob _ (Inr contents)) \<Rightarrow> parseIgnoreRules g (Inr contents)
           | Some (GitBlob _ (Inl e)) \<Rightarrow> Inl (OtherFs (''open .dockmanignore from Git tree: '' @ e))
           | _ \<Rightarrow> Inr [])
      | _ \<Rightarrow> Inr [])"

subsection \<open>The host directory\<close>

datatype entry_action = Ignore | DescendOnly | Descend | MarkExcluded | Collect

text \<open>What the loop of \<open>walk\<close> does with an entry, before anything of the entry is opened.\<close>

definition stackAction :: "glob_env \<Rightarrow> syncPolicy \<Rightarrow> ignoreRule list \<Rightarrow> string \<Rightarrow> bool \<Rightarrow> bool \<Rightarrow> entry_action" where
  "stackAction g policy rules childRel isDir isLink =
     (if \<not> isDir \<and> isProvisionControlPath childRel then Ignore
      else let (selected, traverse) = selectsPath g policy childRel isDir in
        if \<not> selected then (if isDir \<and> traverse then DescendOnly else Ignore)
        else if shouldSkipPath childRel isDir then Ignore
        else if exclusionApplies g policy childRel isDir rules \<and> \<not> protectsCompose policy childRel \<and> \<not> protectsProvision policy childRel
          then (if isDir \<and> containsCompose policy childRel then DescendOnly else MarkExcluded)
        else if isLink then Ignore
        else if isDir then
          (if sp_profile policy = syncProfileComposeOnly \<and> \<not> traversesComposeOnlyDirectory g policy childRel then Ignore else Descend)
        else if sp_profile policy = syncProfileComposeOnly \<and> \<not> includesFile g policy childRel then Ignore
        else Collect)"

text \<open>
  One regular file.  The answer carries an error, the count of files seen in the directory and
  whether the directory was given up as too large.
\<close>

definition collectFile ::
  "sync_env \<Rightarrow> bool \<Rightarrow> syncPolicy \<Rightarrow> string \<Rightarrow> string \<Rightarrow> fs_error + fileInfo \<Rightarrow> fs_error + string \<Rightarrow> int \<Rightarrow> inv_state \<Rightarrow>
   (fs_error option \<times> int \<times> bool) \<times> inv_state" where
  "collectFile env includeSensitive policy rel childRel stat content observed st =
     (case stat of
        Inl Permission \<Rightarrow> ((None, observed, False), put (skippedFile childRel ''permission'') st)
      | Inl e \<Rightarrow> ((Some e, 0, False), st)
      | Inr info \<Rightarrow>
          if \<not> fi_Regular info then ((None, observed, False), st)
          else let observed1 = observed + 1; (large, st1) = autoExcludeLargeDirectory st policy rel observed1;
                   n = fi_Size info; owner = stackInventoryOwner policy childRel in
            if large then ((None, observed1, True), st1)
            else if int (length (fst st)) + 1 > maxBindingFiles
              then ((Some (OtherFs (owner @ '' exceeds the 20000-item synchronization inventory while scanning '' @ childRel)), 0, False), st)
            else if isAgeIdentity n (Some content)
              then ((None, observed1, False), put ((skippedFile childRel ''age_identity'')\<lparr>tf_size := n, tf_sensitive := True\<rparr>) st)
            else let sensitive = isSensitiveTransferPath (se_yaml env) childRel n (Some content) in
              if sensitive \<and> \<not> includeSensitive
                then ((None, observed1, False), put ((skippedFile childRel ''sensitive'')\<lparr>tf_size := n, tf_sensitive := True\<rparr>) st)
              else if n > maxBindingFileSize then ((None, observed1, False), put ((skippedFile childRel ''oversized'')\<lparr>tf_size := n\<rparr>) st)
              else if \<not> includesFile (se_glob env) policy childRel \<and> \<not> protectsProvision policy childRel
                then ((None, observed1, False), put ((skippedFile childRel ''type'')\<lparr>tf_size := n\<rparr>) st)
              else if snd st + n > maxBindingTotalSize
                then ((Some (OtherFs (owner @ '' files exceed the 2048 MiB total limit while scanning '' @ childRel)), 0, False), st)
              else (case checkTransferLimit (int (length (fst st)) + 1) n (snd st + n) of
                  Some e \<Rightarrow> ((Some (OtherFs (owner @ '' at '' @ childRel @ '': '' @ e)), 0, False), st)
                | None \<Rightarrow>
                    let st2 = (fst st, snd st + n);
                        file = \<lparr>tf_path = childRel, tf_mode = fi_Perm info, tf_size = n, tf_sha = [], tf_sensitive = sensitive,
                                tf_skipReason = [], tf_directory = False, tf_open = Some content\<rparr>
                    in case hashTransferFile (se_sha env) file of
                         Inl Permission \<Rightarrow> ((None, observed1, False), put ((skippedFile childRel ''permission'')\<lparr>tf_size := n, tf_mode := fi_Perm info\<rparr>) st2)
                       | Inl e \<Rightarrow> ((Some e, 0, False), st2)
                       | Inr h \<Rightarrow> ((None, observed1, False), put (file\<lparr>tf_sha := h\<rparr>) st2)))"

definition isFsDir :: "fs_node \<Rightarrow> bool" where
  "isFsDir node = (case node of FsDir _ \<Rightarrow> True | FsDenied _ \<Rightarrow> True | _ \<Rightarrow> False)"

text \<open>What a walk does after an entry: go on with the files seen, or return.\<close>

fun walkDir :: "sync_env \<Rightarrow> bool \<Rightarrow> syncPolicy \<Rightarrow> ignoreRule list \<Rightarrow> fs_node \<Rightarrow> string \<Rightarrow> inv_state \<Rightarrow> walk_result"
and walkEntries :: "sync_env \<Rightarrow> bool \<Rightarrow> syncPolicy \<Rightarrow> ignoreRule list \<Rightarrow> (string \<times> fs_node) list \<Rightarrow> string \<Rightarrow> int \<Rightarrow> inv_state \<Rightarrow> walk_result" where
  "walkDir env incl policy rules (FsDir entries) rel st = walkEntries env incl policy rules entries rel 0 st"
| "walkDir env incl policy rules (FsDenied e) rel st =
     (if rel \<noteq> [] \<and> e = Permission then ((None, 0), put ((skippedFile rel ''permission'')\<lparr>tf_directory := True\<rparr>) st)
      else ((Some e, 0), st))"
| "walkDir env incl policy rules _ rel st = ((Some (OtherFs ''not a directory''), 0), st)"
| "walkEntries env incl policy rules [] rel observed st = ((None, observed), st)"
| "walkEntries env incl policy rules ((name, node) # rest) rel observed st =
     (let childRel = path_join [rel, name] in
      case stackAction (se_glob env) policy rules childRel (isFsDir node) (node = FsLink) of
        Ignore \<Rightarrow> walkEntries env incl policy rules rest rel observed st
      | MarkExcluded \<Rightarrow>
          walkEntries env incl policy rules rest rel observed (put ((skippedFile childRel ''excluded'')\<lparr>tf_directory := isFsDir node\<rparr>) st)
      | DescendOnly \<Rightarrow>
          (case walkDir env incl policy rules node childRel st of
             ((Some e, _), st1) \<Rightarrow> ((Some e, 0), st1)
           | ((None, n), st1) \<Rightarrow> walkEntries env incl policy rules rest rel (observed + n) st1)
      | Descend \<Rightarrow>
          (case walkDir env incl policy rules node childRel st of
             ((Some e, _), st1) \<Rightarrow> ((Some e, 0), st1)
           | ((None, n), st1) \<Rightarrow>
               (case autoExcludeLargeDirectory st1 policy rel (observed + n) of
                  (True, st2) \<Rightarrow> ((None, observed + n), st2)
                | (False, st2) \<Rightarrow> walkEntries env incl policy rules rest rel (observed + n) st2))
      | Collect \<Rightarrow>
          (case (case node of FsFile stat content \<Rightarrow> collectFile env incl policy rel childRel stat content observed st
                 | _ \<Rightarrow> ((Some (OtherFs ''not a file''), 0, False), st)) of
             ((Some e, _, _), st1) \<Rightarrow> ((Some e, 0), st1)
           | ((None, n, True), st1) \<Rightarrow> ((None, n), st1)
           | ((None, n, False), st1) \<Rightarrow> walkEntries env incl policy rules rest rel n st1))"

definition collectStackFiles :: "sync_env \<Rightarrow> fs_node \<Rightarrow> bool \<Rightarrow> syncPolicy \<Rightarrow> fs_error option \<times> inventory" where
  "collectStackFiles env root incl policy0 =
     (case validateComposeOnlyCatalog policy0 of
        Some e \<Rightarrow> (Some (OtherFs e), [])
      | None \<Rightarrow>
          let policy = withComposeDirectoryIndex policy0 in
          (case loadStackIgnoreRules (se_glob env) root of
             Inl e \<Rightarrow> (Some e, [])
           | Inr rules \<Rightarrow>
               (let ((err, _), st) = walkDir env incl policy rules root [] ([], 0) in (err, fst st))))"
subsection \<open>The Git tree\<close>

definition isGitDir :: "git_node \<Rightarrow> bool" where
  "isGitDir node = (case node of GitTree _ \<Rightarrow> True | GitMissing _ \<Rightarrow> True | _ \<Rightarrow> False)"

text \<open>
  \<open>discoverRepositoryComposeFiles\<close>: the Compose files of a tree, at most eight levels deep,
  visiting at most 1000 trees and stopping after 500 files.
\<close>

fun discoverTree :: "git_node \<Rightarrow> string \<Rightarrow> nat \<Rightarrow> int \<times> string list \<Rightarrow> int \<times> string list"
and discoverEntries :: "(string \<times> git_node) list \<Rightarrow> string \<Rightarrow> nat \<Rightarrow> int \<times> string list \<Rightarrow> int \<times> string list" where
  "discoverTree (GitTree entries) parent depth st =
     (if depth > 8 \<or> fst st \<ge> 1000 \<or> int (length (snd st)) \<ge> 500 then st
      else discoverEntries entries parent depth (fst st + 1, snd st))"
| "discoverTree _ parent depth st = st"
| "discoverEntries [] parent depth st = st"
| "discoverEntries ((name, node) # rest) parent depth st =
     (let relative = path_join [parent, name] in
      discoverEntries rest parent depth
        (if isGitDir node then discoverTree node relative (Suc depth) st
         else if isComposePath relative then (fst st, snd st @ [relative]) else st))"

definition discoverRepositoryComposeFiles :: "git_node \<Rightarrow> string list" where
  "discoverRepositoryComposeFiles tree = sort (snd (discoverTree tree [] 0 (0, [])))"

definition repositoryAction :: "glob_env \<Rightarrow> syncPolicy \<Rightarrow> ignoreRule list \<Rightarrow> string \<Rightarrow> bool \<Rightarrow> bool \<Rightarrow> entry_action" where
  "repositoryAction g policy rules rel isDir isFile =
     (let (selected, traverse) = selectsPath g policy rel isDir in
      if \<not> selected then (if isDir \<and> traverse then DescendOnly else Ignore)
      else if shouldSkipPath rel isDir then Ignore
      else if exclusionApplies g policy rel isDir rules \<and> \<not> protectsCompose policy rel \<and> \<not> protectsProvision policy rel
        then (if isDir \<and> containsCompose policy rel then DescendOnly else MarkExcluded)
      else if isDir then
        (if sp_profile policy = syncProfileComposeOnly \<and> \<not> traversesComposeOnlyDirectory g policy rel then Ignore else Descend)
      else if \<not> isFile then Ignore
      else if sp_profile policy = syncProfileComposeOnly \<and> \<not> includesFile g policy rel \<and> \<not> protectsProvision policy rel then Ignore
      else Collect)"

definition collectBlob ::
  "sync_env \<Rightarrow> bool \<Rightarrow> syncPolicy \<Rightarrow> string \<Rightarrow> string \<Rightarrow> bool \<Rightarrow> string + string \<Rightarrow> int \<Rightarrow> inv_state \<Rightarrow>
   (fs_error option \<times> int \<times> bool) \<times> inv_state" where
  "collectBlob env includeSensitive policy parent rel executable blob observed st =
     (case blob of
        Inl e \<Rightarrow> ((Some (OtherFs e), 0, False), st)
      | Inr contents \<Rightarrow>
          let n = int (length contents); observed1 = observed + 1; (large, st1) = autoExcludeLargeDirectory st policy parent observed1;
              owner = stackInventoryOwner policy rel in
          if large then ((None, observed1, True), st1)
          else if int (length (fst st)) + 1 > maxBindingFiles
            then ((Some (OtherFs (owner @ '' exceeds the 20000-item synchronization inventory while scanning '' @ rel)), 0, False), st)
          else let sensitive = isSensitiveTransferPath (se_yaml env) rel n (Some (Inr contents)) in
            if sensitive \<and> \<not> includeSensitive
              then ((None, observed1, False), put ((skippedFile rel ''sensitive'')\<lparr>tf_size := n, tf_sensitive := True\<rparr>) st)
            else if n > maxBindingFileSize then ((None, observed1, False), put ((skippedFile rel ''oversized'')\<lparr>tf_size := n\<rparr>) st)
            else if \<not> includesFile (se_glob env) policy rel \<and> \<not> protectsProvision policy rel
              then ((None, observed1, False), put ((skippedFile rel ''type'')\<lparr>tf_size := n\<rparr>) st)
            else if snd st + n > maxBindingTotalSize
              then ((Some (OtherFs (owner @ '' repository files exceed the 2048 MiB total limit while scanning '' @ rel)), 0, False), st)
            else (case checkTransferLimit (int (length (fst st)) + 1) n (snd st + n) of
                Some e \<Rightarrow> ((Some (OtherFs (owner @ '' at '' @ rel @ '': '' @ e)), 0, False), st)
              | None \<Rightarrow>
                  let st2 = (fst st, snd st + n);
                      file = \<lparr>tf_path = rel, tf_mode = (if executable then 493 else 420), tf_size = n, tf_sha = [], tf_sensitive = sensitive,
                              tf_skipReason = [], tf_directory = False, tf_open = Some (Inr contents)\<rparr>
                  in case hashTransferFile (se_sha env) file of
                       Inl e \<Rightarrow> ((Some e, 0, False), st2)
                     | Inr h \<Rightarrow> ((None, observed1, False), put (file\<lparr>tf_sha := h\<rparr>) st2)))"

definition unsafeTreeName :: "string \<Rightarrow> bool" where
  "unsafeTreeName name \<longleftrightarrow> name = [] \<or> name = ''.'' \<or> name = ''..'' \<or> ContainsAny name (CHR ''/'' # [CHR 0x5C])"

fun walkTree :: "sync_env \<Rightarrow> bool \<Rightarrow> syncPolicy \<Rightarrow> ignoreRule list \<Rightarrow> git_node \<Rightarrow> string \<Rightarrow> inv_state \<Rightarrow> walk_result"
and walkTreeEntries :: "sync_env \<Rightarrow> bool \<Rightarrow> syncPolicy \<Rightarrow> ignoreRule list \<Rightarrow> (string \<times> git_node) list \<Rightarrow> string \<Rightarrow> int \<Rightarrow> inv_state \<Rightarrow> walk_result" where
  "walkTree env incl policy rules (GitTree entries) rel st = walkTreeEntries env incl policy rules entries rel 0 st"
| "walkTree env incl policy rules (GitMissing e) rel st = ((Some (OtherFs e), 0), st)"
| "walkTree env incl policy rules _ rel st = ((Some (OtherFs ''not a tree''), 0), st)"
| "walkTreeEntries env incl policy rules [] parent observed st = ((None, observed), st)"
| "walkTreeEntries env incl policy rules ((name, node) # rest) parent observed st =
     (let rel = path_join [parent, name] in
      if unsafeTreeName name then ((Some (OtherFs (''repository contains unsafe Git tree entry '' @ quoted name)), 0), st)
      else (case validateRelativePath rel False of
        Some e \<Rightarrow> ((Some (OtherFs (''repository contains unsafe Git tree path '' @ quoted rel @ '': '' @ e)), 0), st)
      | None \<Rightarrow>
      (case repositoryAction (se_glob env) policy rules rel (isGitDir node) (node \<noteq> GitLink) of
        Ignore \<Rightarrow> walkTreeEntries env incl policy rules rest parent observed st
      | MarkExcluded \<Rightarrow>
          walkTreeEntries env incl policy rules rest parent observed (put ((skippedFile rel ''excluded'')\<lparr>tf_directory := isGitDir node\<rparr>) st)
      | DescendOnly \<Rightarrow>
          (case walkTree env incl policy rules node rel st of
             ((Some e, _), st1) \<Rightarrow> ((Some e, 0), st1)
           | ((None, n), st1) \<Rightarrow> walkTreeEntries env incl policy rules rest parent (observed + n) st1)
      | Descend \<Rightarrow>
          (case walkTree env incl policy rules node rel st of
             ((Some e, _), st1) \<Rightarrow> ((Some e, 0), st1)
           | ((None, n), st1) \<Rightarrow>
               (case autoExcludeLargeDirectory st1 policy parent (observed + n) of
                  (True, st2) \<Rightarrow> ((None, observed + n), st2)
                | (False, st2) \<Rightarrow> walkTreeEntries env incl policy rules rest parent (observed + n) st2))
      | Collect \<Rightarrow>
          (case (case node of GitBlob executable blob \<Rightarrow> collectBlob env incl policy parent rel executable blob observed st
                 | _ \<Rightarrow> ((Some (OtherFs ''not a blob''), 0, False), st)) of
             ((Some e, _, _), st1) \<Rightarrow> ((Some e, 0), st1)
           | ((None, n, True), st1) \<Rightarrow> ((None, n), st1)
           | ((None, n, False), st1) \<Rightarrow> walkTreeEntries env incl policy rules rest parent n st1))))"

text \<open>\<^verbatim>\<open>subtree\<close> is the tree at the link's folder in the repository, or the error of looking it up.\<close>

definition selectNewRoots :: "git_node \<Rightarrow> syncPolicy \<Rightarrow> syncPolicy" where
  "selectNewRoots tree policy =
     (if sp_selectionEnabled policy \<and> sp_selectNewCompose policy then
        foldl (\<lambda>p relative. if relative \<in> set (sp_compose p) then p
                 else p\<lparr>sp_compose := sp_compose p @ [relative],
                        sp_selectedRoots := (if path_dir relative \<in> set (sp_selectedRoots p) then sp_selectedRoots p
                          else sp_selectedRoots p @ [path_dir relative])\<rparr>)
          policy (discoverRepositoryComposeFiles tree)
      else policy)"

definition collectRepositoryTreeFiles :: "sync_env \<Rightarrow> fs_error + git_node \<Rightarrow> bool \<Rightarrow> syncPolicy \<Rightarrow> fs_error option \<times> inventory" where
  "collectRepositoryTreeFiles env subtree incl policy0 =
     (case subtree of
        Inl e \<Rightarrow> (Some e, [])
      | Inr tree \<Rightarrow>
          let policy1 = selectNewRoots tree policy0 in
          (case validateComposeOnlyCatalog policy1 of
             Some e \<Rightarrow> (Some (OtherFs e), [])
           | None \<Rightarrow>
               let policy = withComposeDirectoryIndex policy1 in
               (case loadRepositoryTreeIgnoreRules (se_glob env) tree of
                  Inl e \<Rightarrow> (Some e, [])
                | Inr rules \<Rightarrow>
                    (let ((err, _), st) = walkTree env incl policy rules tree [] ([], 0) in (err, fst st)))))"

end
