(* ===== verification/Sync_Inventory_Laws.thy ===== *)
theory Sync_Inventory_Laws
  imports Sync_Inventory
begin

section \<open>What an inventory may hold\<close>

text \<open>
  The invariant of both walks: every entry is stored under its own path, every file that can be
  opened satisfies a predicate, and the bytes of the openable files are bounded by the walk's
  counter, which never passes the limit.  It is proved once for the operations on the state and
  carried through the two walks by induction.
\<close>

definition file_bytes :: "transferFile \<Rightarrow> int" where
  "file_bytes f = (if tf_open f = None then 0 else tf_size f)"

definition openBytes :: "inventory \<Rightarrow> int" where
  "openBytes iv = sum_list (map (\<lambda>(_, f). file_bytes f) iv)"

definition inv_ok :: "(transferFile \<Rightarrow> bool) \<Rightarrow> inv_state \<Rightarrow> bool" where
  "inv_ok P st \<longleftrightarrow> distinct (map fst (fst st)) \<and>
     (\<forall>(k, f) \<in> set (fst st). tf_path f = k \<and> 0 \<le> file_bytes f \<and> (tf_open f \<noteq> None \<longrightarrow> P f)) \<and>
     openBytes (fst st) \<le> snd st \<and> snd st \<le> maxBindingTotalSize"

lemma inv_ok_empty [simp]: "inv_ok P ([], 0)"
  by (simp add: inv_ok_def openBytes_def maxBindingTotalSize_def)

lemma openBytes_update:
  "\<forall>(k, f) \<in> set iv. 0 \<le> file_bytes f \<Longrightarrow> openBytes (AList.update k f iv) \<le> openBytes iv + file_bytes f"
  by (induction iv) (auto simp: openBytes_def)

lemma openBytes_filter: "\<forall>(k, f) \<in> set iv. 0 \<le> file_bytes f \<Longrightarrow> openBytes (filter Q iv) \<le> openBytes iv"
  by (induction iv) (auto simp: openBytes_def)

lemma openBytes_nonneg: "\<forall>(k, f) \<in> set iv. 0 \<le> file_bytes f \<Longrightarrow> 0 \<le> openBytes iv"
  by (induction iv) (auto simp: openBytes_def)

lemma set_AList_update: "set (AList.update k v m) \<subseteq> insert (k, v) (set m)"
  by (induction m) auto

lemma inv_ok_put_skip:
  assumes "inv_ok P st" "tf_open f = None"
  shows "inv_ok P (put f st)"
proof -
  have "openBytes (AList.update (tf_path f) f (fst st)) \<le> openBytes (fst st) + file_bytes f"
    using assms(1) by (intro openBytes_update) (auto simp: inv_ok_def)
  then show ?thesis using assms set_AList_update [of "tf_path f" f "fst st"]
    by (fastforce simp: inv_ok_def put_def file_bytes_def distinct_update)
qed

lemma inv_ok_put_file:
  assumes "inv_ok P st" "P f" "0 \<le> tf_size f" "snd st + tf_size f \<le> maxBindingTotalSize"
  shows "inv_ok P (put f (fst st, snd st + tf_size f))"
proof -
  have b: "0 \<le> file_bytes f" "file_bytes f \<le> tf_size f" using assms(3) by (simp_all add: file_bytes_def)
  have "openBytes (AList.update (tf_path f) f (fst st)) \<le> openBytes (fst st) + file_bytes f"
    using assms(1) by (intro openBytes_update) (auto simp: inv_ok_def)
  then have "openBytes (AList.update (tf_path f) f (fst st)) \<le> snd st + tf_size f"
    using b assms(1) by (simp add: inv_ok_def)
  then show ?thesis using assms b set_AList_update [of "tf_path f" f "fst st"]
    by (fastforce simp: inv_ok_def put_def distinct_update)
qed

lemma inv_ok_charge: "inv_ok P st \<Longrightarrow> 0 \<le> n \<Longrightarrow> snd st + n \<le> maxBindingTotalSize \<Longrightarrow> inv_ok P (fst st, snd st + n)"
  by (auto simp: inv_ok_def)

lemma skippedFile_simps [simp]: "tf_open (skippedFile p r) = None" "tf_path (skippedFile p r) = p"
  by (simp_all add: skippedFile_def)

lemma inv_ok_exclude:
  assumes "inv_ok P st" "autoExcludeLargeDirectory st policy relative observed = (b, st')"
  shows "inv_ok P st'"
proof (cases "relative = [] \<or> observed \<le> maxAutoDirectoryFiles \<or> containsCompose policy relative")
  case True
  then show ?thesis using assms by (simp add: autoExcludeLargeDirectory_def)
next
  case False
  define kept where "kept = filter (\<lambda>(k, _). \<not> (k = relative \<or> HasPrefix k (TrimSuffix relative ''/'' @ ''/''))) (fst st)"
  have "openBytes kept \<le> openBytes (fst st)" unfolding kept_def using assms(1) by (intro openBytes_filter) (auto simp: inv_ok_def)
  then have "inv_ok P (kept, snd st)" using assms(1) by (auto simp: inv_ok_def kept_def distinct_map_filter)
  moreover have "st' = put ((skippedFile relative ''large_directory'')\<lparr>tf_directory := True\<rparr>) (kept, snd st)"
    using False assms(2) by (simp add: autoExcludeLargeDirectory_def kept_def Let_def)
  ultimately show ?thesis using inv_ok_put_skip [of P "(kept, snd st)"] by simp
qed

lemma autoExclude_small: "autoExcludeLargeDirectory st policy relative observed = (False, st') \<Longrightarrow> st' = st"
  by (auto simp: autoExcludeLargeDirectory_def Let_def split: if_splits)

lemma hash_size: "hashTransferFile sha f = Inr h \<Longrightarrow> tf_open f \<noteq> None \<Longrightarrow>
  0 \<le> tf_size f \<and> (\<exists>c. tf_open f = Some (Inr c) \<and> h = sha (LimitReader c (tf_size f + 1)) \<and> int (length (LimitReader c (tf_size f + 1))) = tf_size f)"
  by (auto simp: hashTransferFile_def split: option.splits sum.splits if_splits)

subsection \<open>Files of the host\<close>

text \<open>What holds of every file of the host inventory whose content may be transferred.\<close>

definition stackFile_ok :: "sync_env \<Rightarrow> bool \<Rightarrow> syncPolicy \<Rightarrow> ignoreRule list \<Rightarrow> transferFile \<Rightarrow> bool" where
  "stackFile_ok env incl policy rules f \<longleftrightarrow>
     (\<exists>c. tf_open f = Some (Inr c) \<and> tf_sha f = se_sha env c \<and> int (length c) = tf_size f) \<and>
     tf_size f \<le> maxBindingFileSize \<and>
     \<not> isAgeIdentity (tf_size f) (tf_open f) \<and>
     (isSensitiveTransferPath (se_yaml env) (tf_path f) (tf_size f) (tf_open f) \<longrightarrow> incl) \<and>
     \<not> isProvisionControlPath (tf_path f) \<and>
     fst (selectsPath (se_glob env) policy (tf_path f) False) \<and>
     (exclusionApplies (se_glob env) policy (tf_path f) False rules \<longrightarrow> protectsCompose policy (tf_path f)) \<and>
     includesFile (se_glob env) policy (tf_path f)"

lemma LimitReader_exact: "int (length (LimitReader c (n + 1))) = n \<Longrightarrow> LimitReader c (n + 1) = c"
  by (auto simp: LimitReader_def)

lemma collectFile_ok:
  assumes "inv_ok P st" "stackAction (se_glob env) policy rules childRel False False = Collect"
    "collectFile env incl policy rel childRel stat content observed st = (r, st')"
    "\<And>f. tf_path f = childRel \<Longrightarrow> stackFile_ok env incl policy rules f \<Longrightarrow> P f"
    "\<And>info. stat = Inr info \<Longrightarrow> 0 \<le> fi_Size info"
  shows "inv_ok P st'"
proof -
  have act: "\<not> isProvisionControlPath childRel" "fst (selectsPath (se_glob env) policy childRel False)"
    "exclusionApplies (se_glob env) policy childRel False rules \<longrightarrow> protectsCompose policy childRel"
    using assms(2) by (auto simp: stackAction_def protectsProvision_def split: if_splits prod.splits)
  show ?thesis
  proof (cases stat)
    case (Inl e)
    then show ?thesis using assms(1,3) by (cases e) (auto simp: collectFile_def intro!: inv_ok_put_skip)
  next
    case (Inr info)
    define n where "n = fi_Size info"
    define tfile where "tfile = \<lparr>tf_path = childRel, tf_mode = fi_Perm info, tf_size = n, tf_sha = [],
      tf_sensitive = isSensitiveTransferPath (se_yaml env) childRel n (Some content), tf_skipReason = [], tf_directory = False, tf_open = Some content\<rparr>"
    obtain large st1 where ex: "autoExcludeLargeDirectory st policy rel (observed + 1) = (large, st1)"
      by (cases "autoExcludeLargeDirectory st policy rel (observed + 1)")
    note e1 = inv_ok_exclude [OF assms(1) ex]
    show ?thesis
    proof (cases "fi_Regular info \<and> \<not> large \<and> int (length (fst st)) + 1 \<le> maxBindingFiles \<and> \<not> isAgeIdentity n (Some content) \<and>
        (isSensitiveTransferPath (se_yaml env) childRel n (Some content) \<longrightarrow> incl) \<and> n \<le> maxBindingFileSize \<and>
        includesFile (se_glob env) policy childRel \<and> snd st + n \<le> maxBindingTotalSize")
      case False
      then consider "r = (None, observed, False)" "st' = st" | "large" "st' = st1" | "st' = st"
        | f where "st' = put f st" "tf_open f = None"
        using assms(3) Inr ex act(1)
        by (auto simp: collectFile_def n_def [symmetric] protectsProvision_def checkTransferLimit_def Let_def split: if_splits)
      then show ?thesis using assms(1) e1 inv_ok_put_skip by cases auto
    next
      case True
      then have lim: "checkTransferLimit (int (length (fst st)) + 1) n (snd st + n) = None" by (simp add: checkTransferLimit_def)
      have ns: "(isSensitiveTransferPath (se_yaml env) childRel n (Some content) \<and> \<not> incl) = False" using True by blast
      have run: "collectFile env incl policy rel childRel stat content observed st =
          (case hashTransferFile (se_sha env) tfile of
             Inl Permission \<Rightarrow> ((None, observed + 1, False), put ((skippedFile childRel ''permission'')\<lparr>tf_size := n, tf_mode := fi_Perm info\<rparr>) (fst st, snd st + n))
           | Inl e \<Rightarrow> ((Some e, 0, False), (fst st, snd st + n))
           | Inr h \<Rightarrow> ((None, observed + 1, False), put (tfile\<lparr>tf_sha := h\<rparr>) (fst st, snd st + n)))"
        using True lim ex Inr by (simp add: collectFile_def ns n_def [symmetric] tfile_def [symmetric] Let_def)
      show ?thesis
      proof (cases "hashTransferFile (se_sha env) tfile")
        case hash: (Inr h)
        from hash_size [OF hash] obtain c where c: "content = Inr c" "h = se_sha env (LimitReader c (n + 1))" "int (length (LimitReader c (n + 1))) = n" "0 \<le> n"
          by (auto simp: tfile_def)
        then have "LimitReader c (n + 1) = c" by (intro LimitReader_exact) simp
        then have "P (tfile\<lparr>tf_sha := h\<rparr>)" using c True act by (intro assms(4)) (auto simp: stackFile_ok_def tfile_def)
        then have "inv_ok P (put (tfile\<lparr>tf_sha := h\<rparr>) (fst st, snd st + tf_size (tfile\<lparr>tf_sha := h\<rparr>)))"
          using assms(1) True c(4) by (intro inv_ok_put_file) (auto simp: tfile_def)
        then show ?thesis using assms(3) run hash by (simp add: tfile_def)
      next
        case (Inl e)
        have "0 \<le> n" using assms(5) Inr by (simp add: n_def)
        then have ch: "inv_ok P (fst st, snd st + n)" using inv_ok_charge [OF assms(1)] True by simp
        then show ?thesis using assms(3) run Inl inv_ok_put_skip [OF ch] by (cases e) auto
      qed
    qed
  qed
qed
text \<open>Names and sizes as a file system gives them.\<close>

fun node_ok :: "fs_node \<Rightarrow> bool" and entries_ok :: "(string \<times> fs_node) list \<Rightarrow> bool" where
  "node_ok (FsDir entries) = entries_ok entries"
| "node_ok (FsFile (Inr info) _) = (0 \<le> fi_Size info)"
| "node_ok _ = True"
| "entries_ok [] = True"
| "entries_ok ((name, node) # rest) = (parts_ok [name] \<and> node_ok node \<and> entries_ok rest)"

definition rel_parts :: "string \<Rightarrow> string list \<Rightarrow> bool" where
  "rel_parts rel ps \<longleftrightarrow> (ps = [] \<and> rel = []) \<or> (parts_ok ps \<and> rel = Join ps ''/'')"

lemma path_join_child:
  assumes "rel_parts rel ps" "parts_ok [name]"
  shows "path_join [rel, name] = Join (ps @ [name]) ''/'' \<and> parts_ok (ps @ [name])"
proof (cases "ps = []")
  case True
  then show ?thesis using assms path_clean_parts [OF assms(2)] by (simp add: rel_parts_def path_join_def parts_ok_def)
next
  case False
  then show ?thesis using assms path_join_parts [of ps "[name]"] by (auto simp: rel_parts_def parts_ok_def)
qed

text \<open>No directory above the path is one the synchronisation keeps out of.\<close>

definition no_private_dir :: "string list \<Rightarrow> bool" where
  "no_private_dir ps \<longleftrightarrow> (\<forall>qs \<in> ancestors ps. \<not> shouldSkipPath (Join qs ''/'') True)"

definition hostFile_ok :: "sync_env \<Rightarrow> bool \<Rightarrow> syncPolicy \<Rightarrow> ignoreRule list \<Rightarrow> transferFile \<Rightarrow> bool" where
  "hostFile_ok env incl policy rules f \<longleftrightarrow> stackFile_ok env incl policy rules f \<and>
     (\<exists>ps l. parts_ok (ps @ [l]) \<and> tf_path f = Join (ps @ [l]) ''/'' \<and> (\<not> sp_selectionEnabled policy \<longrightarrow> no_private_dir ps))"

lemma stackAction_dir:
  "stackAction g policy rules p d l = Descend \<or> stackAction g policy rules p d l = DescendOnly \<Longrightarrow>
     d \<and> (\<not> sp_selectionEnabled policy \<longrightarrow> \<not> shouldSkipPath p True)"
  by (cases d) (auto simp: stackAction_def selectsPath_def Let_def split: if_splits prod.splits)

lemma stackAction_collect: "stackAction g policy rules p d l = Collect \<Longrightarrow> \<not> d \<and> \<not> l"
  by (auto simp: stackAction_def Let_def split: if_splits prod.splits)

lemma walk_child:
  assumes "rel_parts rel ps" "parts_ok [name]" "\<not> sp_selectionEnabled policy \<longrightarrow> no_private_dir ps"
    "stackAction g policy rules (path_join [rel, name]) d l = Descend \<or> stackAction g policy rules (path_join [rel, name]) d l = DescendOnly"
  shows "rel_parts (path_join [rel, name]) (ps @ [name]) \<and> (\<not> sp_selectionEnabled policy \<longrightarrow> no_private_dir (ps @ [name]))"
proof -
  note c = path_join_child [OF assms(1,2)]
  have "\<not> sp_selectionEnabled policy \<longrightarrow> \<not> shouldSkipPath (Join (ps @ [name]) ''/'') True"
    using stackAction_dir [OF assms(4)] c by simp
  then show ?thesis using c assms(3) by (simp add: rel_parts_def no_private_dir_def ancestors_snoc)
qed

definition walk_safe :: "sync_env \<Rightarrow> bool \<Rightarrow> syncPolicy \<Rightarrow> ignoreRule list \<Rightarrow> fs_node \<Rightarrow> bool" where
  "walk_safe env incl policy rules node \<longleftrightarrow> (\<forall>rel st r st' ps. walkDir env incl policy rules node rel st = (r, st') \<longrightarrow>
     node_ok node \<and> rel_parts rel ps \<and> (\<not> sp_selectionEnabled policy \<longrightarrow> no_private_dir ps) \<and> inv_ok (hostFile_ok env incl policy rules) st \<longrightarrow>
     inv_ok (hostFile_ok env incl policy rules) st')"

lemma walk_safeD:
  "walk_safe env incl policy rules node \<Longrightarrow> walkDir env incl policy rules node rel st = (r, st') \<Longrightarrow> node_ok node \<Longrightarrow> rel_parts rel ps \<Longrightarrow>
     (\<not> sp_selectionEnabled policy \<longrightarrow> no_private_dir ps) \<Longrightarrow> inv_ok (hostFile_ok env incl policy rules) st \<Longrightarrow>
     inv_ok (hostFile_ok env incl policy rules) st'"
  unfolding walk_safe_def by metis

lemma walk_safeI:
  "(\<And>rel st r st' ps. walkDir env incl policy rules node rel st = (r, st') \<Longrightarrow> node_ok node \<Longrightarrow> rel_parts rel ps \<Longrightarrow>
     (\<not> sp_selectionEnabled policy \<longrightarrow> no_private_dir ps) \<Longrightarrow> inv_ok (hostFile_ok env incl policy rules) st \<Longrightarrow>
     inv_ok (hostFile_ok env incl policy rules) st') \<Longrightarrow> walk_safe env incl policy rules node"
  unfolding walk_safe_def by metis

lemma walkEntries_ok:
  assumes "\<forall>(name, node) \<in> set entries. walk_safe env incl policy rules node"
    and "walkEntries env incl policy rules entries rel observed st = (r, st')" "entries_ok entries" "rel_parts rel ps"
      "\<not> sp_selectionEnabled policy \<longrightarrow> no_private_dir ps" "inv_ok (hostFile_ok env incl policy rules) st"
  shows "inv_ok (hostFile_ok env incl policy rules) st'"
  using assms
proof (induction entries arbitrary: observed st)
  case (Cons e rest)
  obtain name node where e: "e = (name, node)" by (cases e)
  let ?P = "hostFile_ok env incl policy rules"
  define child where "child = path_join [rel, name]"
  define act where "act = stackAction (se_glob env) policy rules child (isFsDir node) (node = FsLink)"
  have ok: "parts_ok [name]" "node_ok node" "entries_ok rest" using Cons.prems(3) e by simp_all
  note pj = path_join_child [OF Cons.prems(4) ok(1)]
  have step: "inv_ok ?P st'" if "walkEntries env incl policy rules rest rel n st1 = (r, st')" "inv_ok ?P st1" for n st1
    using Cons.IH [OF _ that(1) ok(3) Cons.prems(4,5) that(2)] Cons.prems(1) by simp
  have safe: "walk_safe env incl policy rules node" using Cons.prems(1) e by auto
  have down: "inv_ok ?P st1" if d: "act = Descend \<or> act = DescendOnly" "walkDir env incl policy rules node child st = (r1, st1)" for r1 st1
  proof -
    from walk_child [OF Cons.prems(4) ok(1) Cons.prems(5) d(1) [unfolded act_def child_def]]
    have "rel_parts child (ps @ [name])" "\<not> sp_selectionEnabled policy \<longrightarrow> no_private_dir (ps @ [name])" by (simp_all add: child_def)
    then show ?thesis using walk_safeD [OF safe d(2) ok(2) _ _ Cons.prems(6)] by blast
  qed
  note run = Cons.prems(2) [unfolded e walkEntries.simps Let_def child_def [symmetric] act_def [symmetric]]
  show ?case
  proof (cases act)
    case Ignore
    then show ?thesis using run step Cons.prems(6) by simp
  next
    case MarkExcluded
    then show ?thesis using run step inv_ok_put_skip [OF Cons.prems(6), of "(skippedFile child ''excluded'')\<lparr>tf_directory := isFsDir node\<rparr>"] by simp
  next
    case DescendOnly
    obtain err n st1 where w: "walkDir env incl policy rules node child st = ((err, n), st1)" by (metis surj_pair)
    then have i1: "inv_ok ?P st1" using down DescendOnly by blast
    then show ?thesis using run w DescendOnly step by (cases err) auto
  next
    case Descend
    obtain err n st1 where w: "walkDir env incl policy rules node child st = ((err, n), st1)" by (metis surj_pair)
    then have i1: "inv_ok ?P st1" using down Descend by blast
    obtain large st2 where ex: "autoExcludeLargeDirectory st1 policy rel (observed + n) = (large, st2)" by (metis surj_pair)
    have i2: "inv_ok ?P st2" by (rule inv_ok_exclude [OF i1 ex])
    show ?thesis
    proof (cases err)
      case None
      then show ?thesis using run w ex Descend step [OF _ i2] i2 by (cases large) auto
    next
      case (Some x)
      then show ?thesis using run w Descend i1 by auto
    qed
  next
    case Collect
    then have nd: "\<not> isFsDir node" "node \<noteq> FsLink" using stackAction_collect unfolding act_def by blast+
    then obtain stat content where node: "node = FsFile stat content" by (cases node) (auto simp: isFsDir_def)
    obtain err n large st1 where c: "collectFile env incl policy rel child stat content observed st = ((err, n, large), st1)"
      by (metis surj_pair)
    have sa: "stackAction (se_glob env) policy rules child False False = Collect" using Collect nd by (simp add: act_def)
    have "inv_ok ?P st1"
    proof (rule collectFile_ok [OF Cons.prems(6) sa c])
      show "?P f" if "tf_path f = child" "stackFile_ok env incl policy rules f" for f
        using that pj Cons.prems(5) unfolding hostFile_ok_def child_def by metis
      show "0 \<le> fi_Size info" if "stat = Inr info" for info using ok(2) node that by simp
    qed
    then show ?thesis using run c Collect node step by (cases err; cases large) auto
  qed
qed simp

lemma walkDir_ok: "walk_safe env incl policy rules node"
proof (induction node)
  case (FsDir entries)
  then have all: "\<forall>(name, node) \<in> set entries. walk_safe env incl policy rules node" by force
  show ?case
  proof (rule walk_safeI)
    fix rel st r st' ps
    assume "walkDir env incl policy rules (FsDir entries) rel st = (r, st')" "node_ok (FsDir entries)" "rel_parts rel ps"
      "\<not> sp_selectionEnabled policy \<longrightarrow> no_private_dir ps" "inv_ok (hostFile_ok env incl policy rules) st"
    then show "inv_ok (hostFile_ok env incl policy rules) st'" using walkEntries_ok [OF all] by simp
  qed
next
  case (FsDenied e)
  show ?case by (rule walk_safeI) (auto split: if_splits intro: inv_ok_put_skip)
qed (rule walk_safeI; simp)+

subsection \<open>Two walks\<close>

definition starGlob :: glob_env where
  "starGlob = \<lparr>gl_match = (\<lambda>p s. segsMatch literalGlob (Split p (CHR ''/'')) (Split s (CHR ''/''))), gl_valid = (\<lambda>_. True)\<rparr>"

definition sampleSync :: sync_env where
  "sampleSync = \<lparr>se_glob = starGlob, se_sha = (\<lambda>s. ''sha:'' @ s), se_yaml = (\<lambda>_. None)\<rparr>"

definition plainFile :: "string \<Rightarrow> fs_node" where
  "plainFile content = FsFile (Inr \<lparr>fi_Size = int (length content), fi_Regular = True, fi_Perm = 420\<rparr>) (Inr content)"

definition allFilesPolicy :: syncPolicy where
  "allFilesPolicy = \<lparr>sp_profile = syncProfileAllFiles, sp_includes = [], sp_excludes = [], sp_repositoryExcludes = [], sp_repositorySubPath = [],
     sp_compose = [''app/compose.yml''], sp_composeDirectories = None, sp_selectedRoots = [], sp_selectionEnabled = False, sp_selectNewCompose = False,
     sp_unreadable = []\<rparr>"


text \<open>
  A private directory is entered all the same.  In a link limited to selected stacks, an include
  rule that can match below \<open>.secrets\<close> makes the walk descend into it before the test that keeps
  the synchronisation out of it, and a plain secret inside is offered for transfer although
  sensitive files were not asked for.
\<close>

theorem private_directory_entered:
  "(case policyFromBinding starGlob (sampleBinding\<lparr>sb_ComposePaths := ''web/compose.yml'', sb_ComposeSelectionMode := ''selected'',
       sb_SelectedComposePaths := ''web/compose.yml'', sb_IncludePatterns := ''app/**/db.txt''\<rparr>) None of
      Inr policy \<Rightarrow>
        map (\<lambda>(k, f). (k, tf_sensitive f, tf_open f))
          (snd (collectStackFiles sampleSync (FsDir [(''app'', FsDir [(''.secrets'', FsDir [(''db.txt'', plainFile ''hunter2'')])])]) False policy))
        = [(''app/.secrets/db.txt'', False, Some (Inr ''hunter2''))]
    | Inl _ \<Rightarrow> False)"
  by code_simp

end
