(* ===== verification/Sync_Preview.thy ===== *)
theory Sync_Preview
  imports Sync_Inventory_Laws
begin

section \<open>The preview of a transfer\<close>

text \<open>
  Models the three-way comparison of \<open>core/internal/gitsync/binding.go\<close> between a source, a target
  and the baseline (the hashes both sides had after the last transfer), the token that confirms a
  preview, the choice of the files a transfer writes, and the baseline it leaves.  Go maps are
  association lists; iterating over one is going through its list in order.
\<close>

record PreviewEntry =
  pe_Path :: string
  pe_Status :: string
  pe_SourceSHA :: string
  pe_TargetSHA :: string
  pe_Size :: int
  pe_Sensitive :: bool
  pe_Directory :: bool
  pe_ConflictKind :: string

record TransferPreview =
  pv_BindingID :: string
  pv_Direction :: string
  pv_Entries :: "PreviewEntry list"
  pv_Changed :: int
  pv_Unchanged :: int
  pv_Skipped :: int
  pv_Conflicts :: int
  pv_Preserved :: int
  pv_LocalDeletions :: int
  pv_DeletionMode :: string
  pv_PreviewToken :: string

type_synonym baseline = "(string, string) gomap"

definition toRepository :: string where "toRepository = ''stack_to_repository''"
definition toStack :: string where "toStack = ''repository_to_stack''"

definition entryOf :: "string \<Rightarrow> string \<Rightarrow> PreviewEntry" where
  "entryOf p status = \<lparr>pe_Path = p, pe_Status = status, pe_SourceSHA = [], pe_TargetSHA = [], pe_Size = 0, pe_Sensitive = False,
     pe_Directory = False, pe_ConflictKind = []\<rparr>"

definition addEntry :: "PreviewEntry \<Rightarrow> TransferPreview \<Rightarrow> TransferPreview" where
  "addEntry e pv = pv\<lparr>pv_Entries := pv_Entries pv @ [e]\<rparr>"

definition changedEntry :: "PreviewEntry \<Rightarrow> TransferPreview \<Rightarrow> TransferPreview" where
  "changedEntry e pv = (addEntry e pv)\<lparr>pv_Changed := pv_Changed pv + 1\<rparr>"

definition skippedEntry :: "PreviewEntry \<Rightarrow> TransferPreview \<Rightarrow> TransferPreview" where
  "skippedEntry e pv = (addEntry e pv)\<lparr>pv_Skipped := pv_Skipped pv + 1\<rparr>"

definition conflicted :: "TransferPreview \<Rightarrow> TransferPreview" where
  "conflicted pv = pv\<lparr>pv_Conflicts := pv_Conflicts pv + 1\<rparr>"

definition unchangedPath :: "TransferPreview \<Rightarrow> TransferPreview" where
  "unchangedPath pv = pv\<lparr>pv_Unchanged := pv_Unchanged pv + 1\<rparr>"

definition heldOut :: "transferFile \<Rightarrow> bool" where
  "heldOut f \<longleftrightarrow> tf_open f = None \<and> (tf_skipReason f = ''permission'' \<or> tf_skipReason f = ''large_directory'')"

text \<open>
  A directory of the target that could not be read blocks the paths below it.  The loop climbs
  from the parent of the path to \<open>.\<close>.
\<close>

function blockedFrom :: "inventory \<Rightarrow> string \<Rightarrow> transferFile option" where
  "blockedFrom target current =
     (if current = ''.'' \<or> current = [] then None
      else if current = ''/'' then (case map_of target current of Some b \<Rightarrow> if tf_directory b \<and> heldOut b then Some b else None | None \<Rightarrow> None)
      else (case map_of target current of
          Some b \<Rightarrow> if tf_directory b \<and> heldOut b then Some b else blockedFrom target (path_dir current)
        | None \<Rightarrow> blockedFrom target (path_dir current)))"
  by pat_completeness auto
termination
  by (relation "measure (\<lambda>(_, d). if d = ''.'' \<or> d = [] \<or> d = ''/'' then 0 else Suc (length d))")
    (auto simp del: One_nat_def dest: path_dir_shorter)

declare blockedFrom.simps [simp del]

definition blockedTargetDirectory :: "inventory \<Rightarrow> string \<Rightarrow> transferFile option" where
  "blockedTargetDirectory target relative = blockedFrom target (path_dir relative)"

text \<open>One path of the source, in the order of the code's tests.\<close>

definition controlStep :: "baseline \<Rightarrow> string \<Rightarrow> transferFile \<Rightarrow> TransferPreview \<Rightarrow> TransferPreview" where
  "controlStep base p src pv =
     (let entry = (entryOf p ''add'')\<lparr>pe_SourceSHA := tf_sha src, pe_Size := tf_size src\<rparr> in
      if pv_Direction pv = toRepository then pv
      else (case map_of base p of
          Some previous \<Rightarrow> if previous = tf_sha src then unchangedPath pv else changedEntry (entry\<lparr>pe_Status := ''modify''\<rparr>) pv
        | None \<Rightarrow> changedEntry entry pv))"

definition targetOf :: "string \<Rightarrow> inventory \<Rightarrow> string \<Rightarrow> transferFile option" where
  "targetOf direction target p =
     (case map_of target p of
        Some dst \<Rightarrow> Some dst
      | None \<Rightarrow> if direction = toStack then blockedTargetDirectory target p else None)"

definition compareStep :: "transferFile \<Rightarrow> string option \<Rightarrow> PreviewEntry \<Rightarrow> transferFile \<Rightarrow> TransferPreview \<Rightarrow> TransferPreview" where
  "compareStep dst tracked entry0 src pv =
     (let entry = entry0\<lparr>pe_TargetSHA := tf_sha dst\<rparr> in
      if pe_SourceSHA entry = pe_TargetSHA entry then unchangedPath pv
      else (case tracked of
          None \<Rightarrow> changedEntry (entry\<lparr>pe_Status := ''conflict'', pe_ConflictKind := ''no_baseline''\<rparr>) (conflicted pv)
        | Some baseSHA \<Rightarrow>
            if tf_sha dst \<noteq> baseSHA \<and> tf_sha src \<noteq> tf_sha dst
            then changedEntry (entry\<lparr>pe_Status := ''conflict'', pe_ConflictKind := ''destination_changed''\<rparr>) (conflicted pv)
            else changedEntry (entry\<lparr>pe_Status := ''modify''\<rparr>) pv))"

definition absentStep :: "string option \<Rightarrow> PreviewEntry \<Rightarrow> transferFile \<Rightarrow> TransferPreview \<Rightarrow> TransferPreview" where
  "absentStep tracked entry src pv =
     (if pv_Direction pv = toStack then
        (case tracked of
           None \<Rightarrow> changedEntry entry pv
         | Some baseSHA \<Rightarrow>
             let pv1 = pv\<lparr>pv_LocalDeletions := pv_LocalDeletions pv + 1\<rparr> in
             if baseSHA = tf_sha src then changedEntry (entry\<lparr>pe_ConflictKind := ''destination_deleted''\<rparr>) pv1
             else changedEntry (entry\<lparr>pe_Status := ''conflict'', pe_ConflictKind := ''destination_deleted_source_changed''\<rparr>) (conflicted pv1))
      else changedEntry entry pv)"

definition sourceStep :: "inventory \<Rightarrow> baseline \<Rightarrow> TransferPreview \<Rightarrow> string \<times> transferFile \<Rightarrow> TransferPreview" where
  "sourceStep target base pv pf =
     (let (p, src) = pf in
      if isProvisionControlPath p then controlStep base p src pv
      else if tf_open src = None then
        (let reason = (if tf_skipReason src = [] then ''unavailable'' else tf_skipReason src)
         in skippedEntry ((entryOf p (''skipped_'' @ reason))\<lparr>pe_Size := tf_size src, pe_Sensitive := tf_sensitive src, pe_Directory := tf_directory src\<rparr>) pv)
      else let entry = (entryOf p ''add'')\<lparr>pe_SourceSHA := tf_sha src, pe_Size := tf_size src, pe_Sensitive := tf_sensitive src\<rparr> in
        (case targetOf (pv_Direction pv) target p of
           None \<Rightarrow> absentStep (map_of base p) entry src pv
         | Some dst \<Rightarrow>
             if heldOut dst then
               skippedEntry (entry\<lparr>pe_Status := ''skipped_'' @ tf_skipReason dst, pe_TargetSHA := tf_sha dst, pe_Size := tf_size dst,
                 pe_Directory := tf_directory dst\<rparr>) pv
             else if tf_open dst \<noteq> None then compareStep dst (map_of base p) entry src pv
             else absentStep (map_of base p) entry src pv))"

text \<open>The paths only the target has: deleted in the source since the baseline.\<close>

definition onlyTarget :: "inventory \<Rightarrow> baseline \<Rightarrow> string \<times> transferFile \<Rightarrow> bool" where
  "onlyTarget source base pf \<longleftrightarrow>
     \<not> (map_of source (fst pf) \<noteq> None \<or> tf_open (snd pf) = None \<or> isProvisionControlPath (fst pf)) \<and> map_of base (fst pf) \<noteq> None"

definition deletedStep :: "string \<Rightarrow> (TransferPreview \<Rightarrow> TransferPreview) \<Rightarrow> baseline \<Rightarrow> TransferPreview \<Rightarrow> string \<times> transferFile \<Rightarrow> TransferPreview" where
  "deletedStep status tally base pv pf =
     (let (p, dst) = pf; entry = (entryOf p status)\<lparr>pe_TargetSHA := tf_sha dst, pe_Size := tf_size dst, pe_Sensitive := tf_sensitive dst\<rparr>
      in tally (if map_of base p \<noteq> Some (tf_sha dst)
           then changedEntry (entry\<lparr>pe_Status := ''conflict'', pe_ConflictKind := ''source_deleted_destination_changed''\<rparr>) (conflicted pv)
           else changedEntry entry pv))"

definition countLocalDeletion :: "TransferPreview \<Rightarrow> TransferPreview" where
  "countLocalDeletion pv = pv\<lparr>pv_LocalDeletions := pv_LocalDeletions pv + 1\<rparr>"

definition countPreserved :: "TransferPreview \<Rightarrow> TransferPreview" where
  "countPreserved pv = pv\<lparr>pv_Preserved := pv_Preserved pv + 1\<rparr>"

definition sortEntries :: "TransferPreview \<Rightarrow> TransferPreview" where
  "sortEntries pv = pv\<lparr>pv_Entries := sort_key pe_Path (pv_Entries pv)\<rparr>"

definition boolText :: "bool \<Rightarrow> string" where
  "boolText b = (if b then ''true'' else ''false'')"

text \<open>The token: a hash of everything in the preview that needs a decision.\<close>

definition tokenText :: "TransferPreview \<Rightarrow> string" where
  "tokenText pv =
     pv_BindingID pv @ nul @ pv_Direction pv @ nul @ pv_DeletionMode pv @ nul @
     concat (map (\<lambda>e. pe_Path e @ nul @ pe_Status e @ nul @ pe_ConflictKind e @ nul @ pe_SourceSHA e @ nul @ pe_TargetSHA e @ nul @
         (if pe_Size e < 0 then ''-'' @ Itoa (nat (- pe_Size e)) else Itoa (nat (pe_Size e))) @ nul @ boolText (pe_Sensitive e) @ nul)
       (filter (\<lambda>e. \<not> HasPrefix (pe_Status e) ''skipped_'') (pv_Entries pv)))"

definition previewToken :: "(string \<Rightarrow> string) \<Rightarrow> TransferPreview \<Rightarrow> string" where
  "previewToken sha pv = sha (tokenText pv)"

definition emptyPreview :: "string \<Rightarrow> string \<Rightarrow> TransferPreview" where
  "emptyPreview bindingID direction = \<lparr>pv_BindingID = bindingID, pv_Direction = direction, pv_Entries = [], pv_Changed = 0, pv_Unchanged = 0,
     pv_Skipped = 0, pv_Conflicts = 0, pv_Preserved = 0, pv_LocalDeletions = 0, pv_DeletionMode = ''non_destructive'', pv_PreviewToken = []\<rparr>"

definition previewBody :: "string \<Rightarrow> string \<Rightarrow> inventory \<Rightarrow> inventory \<Rightarrow> baseline \<Rightarrow> TransferPreview" where
  "previewBody bindingID direction source target base =
     (let pv1 = foldl (sourceStep target base) (emptyPreview bindingID direction) (sort_key fst source);
          pv2 = (if direction = toRepository
                 then sortEntries (foldl (deletedStep ''deleted_locally'' countLocalDeletion base) pv1 (filter (onlyTarget source base) target)) else pv1)
      in if direction = toStack then
           (let pv3 = foldl (deletedStep ''deleted_on_git'' countPreserved base) pv2 (filter (onlyTarget source base) target);
                pv4 = (if filter (onlyTarget source base) target \<noteq> [] then sortEntries pv3 else pv3);
                removed = filter (\<lambda>(p, _). isProvisionControlPath p \<and> map_of source p = None) base
            in sortEntries (foldl (\<lambda>pv (p, _). changedEntry (entryOf p ''remove_control'') pv) pv4 removed))
         else pv2)"

definition buildPreview :: "(string \<Rightarrow> string) \<Rightarrow> string \<Rightarrow> string \<Rightarrow> inventory \<Rightarrow> inventory \<Rightarrow> baseline \<Rightarrow> TransferPreview" where
  "buildPreview sha bindingID direction source target base =
     (let pv = previewBody bindingID direction source target base in pv\<lparr>pv_PreviewToken := previewToken sha pv\<rparr>)"

definition validatePreviewToken :: "string \<Rightarrow> string \<Rightarrow> string option" where
  "validatePreviewToken expected actual =
     (if expected = [] then Some ''transfer requires a fresh preview confirmation''
      else if expected \<noteq> actual then Some ''stack or repository files changed after the preview; review the updated differences before retrying''
      else None)"
subsection \<open>Choosing what to transfer\<close>

definition cleanCandidate :: "string \<Rightarrow> string" where
  "cleanCandidate raw = path_clean (TrimSpace raw)"

definition transferableStatus :: "string \<Rightarrow> bool" where
  "transferableStatus s \<longleftrightarrow> s = ''add'' \<or> s = ''modify'' \<or> s = ''conflict'' \<or> s = ''remove_control''"

definition resolutionError :: "string list \<Rightarrow> string \<Rightarrow> string option" where
  "resolutionError conflicts raw =
     (case validateRelativePath (cleanCandidate raw) False of
        Some e \<Rightarrow> Some (''invalid resolved conflict path: '' @ e)
      | None \<Rightarrow> if cleanCandidate raw \<notin> set conflicts then Some (cleanCandidate raw @ '' is not a current conflict; refresh the preview'') else None)"

definition selectionError :: "string list \<Rightarrow> string \<Rightarrow> string option" where
  "selectionError transferable raw =
     (case validateRelativePath (cleanCandidate raw) False of
        Some e \<Rightarrow> Some (''invalid selected transfer path: '' @ e)
      | None \<Rightarrow> if cleanCandidate raw \<notin> set transferable then Some (cleanCandidate raw @ '' is not a current transferable file; refresh the preview'') else None)"

text \<open>Whether the transfer takes an entry: it is in the limit and needs no decision, or has one.\<close>

definition takesEntry :: "string list \<Rightarrow> string list \<Rightarrow> PreviewEntry \<Rightarrow> bool" where
  "takesEntry resolved selectedSet e \<longleftrightarrow>
     \<not> (selectedSet \<noteq> [] \<and> pe_Path e \<notin> set selectedSet) \<and>
     (pe_Status e \<in> {''add'', ''modify'', ''remove_control''} \<or> (pe_Status e = ''conflict'' \<and> pe_Path e \<in> set resolved))"

definition selectEntry :: "inventory \<Rightarrow> inventory \<Rightarrow> PreviewEntry \<Rightarrow> inventory" where
  "selectEntry source selected e =
     (if pe_Status e = ''remove_control'' then AList.update (pe_Path e) (skippedFile (pe_Path e) []) selected
      else (case map_of source (pe_Path e) of
          Some f \<Rightarrow> if tf_open f \<noteq> None then AList.update (pe_Path e) f selected else selected
        | None \<Rightarrow> selected))"

definition conflictPaths :: "TransferPreview \<Rightarrow> string list" where
  "conflictPaths pv = map pe_Path (filter (\<lambda>e. pe_Status e = ''conflict'') (pv_Entries pv))"

definition selectedTransferFiles ::
  "TransferPreview \<Rightarrow> inventory \<Rightarrow> string list \<Rightarrow> string list \<Rightarrow> string + inventory \<times> int" where
  "selectedTransferFiles pv source resolvedPaths selectedPaths =
     (if int (length resolvedPaths) > maxBindingFiles \<or> int (length selectedPaths) > maxBindingFiles then Inl ''too many conflict resolutions''
      else let transferable = map pe_Path (filter (\<lambda>e. transferableStatus (pe_Status e)) (pv_Entries pv));
               resolved = map cleanCandidate resolvedPaths; chosen = map cleanCandidate selectedPaths in
        (case List.map_filter (resolutionError (conflictPaths pv)) resolvedPaths of
           e # _ \<Rightarrow> Inl e
         | [] \<Rightarrow>
             (case List.map_filter (selectionError transferable) selectedPaths of
                e # _ \<Rightarrow> Inl e
              | [] \<Rightarrow>
                  (case filter (\<lambda>c. chosen \<noteq> [] \<and> c \<notin> set chosen) resolved of
                     c # _ \<Rightarrow> Inl (''resolved conflict '' @ c @ '' must also be selected for transfer'')
                   | [] \<Rightarrow> Inr (foldl (selectEntry source) [] (filter (takesEntry resolved chosen) (pv_Entries pv)),
                              int (length (remdups (conflictPaths pv))) - int (length (remdups resolved)))))))"

definition previewPathsWithStatus :: "TransferPreview \<Rightarrow> string \<Rightarrow> string list" where
  "previewPathsWithStatus pv status = uniqueSortedStrings (map pe_Path (filter (\<lambda>e. pe_Status e = status) (pv_Entries pv)))"

definition previewProtectedLocalPaths :: "TransferPreview \<Rightarrow> string list" where
  "previewProtectedLocalPaths pv =
     uniqueSortedStrings (previewPathsWithStatus pv ''skipped_permission'' @ previewPathsWithStatus pv ''skipped_large_directory'')"

definition composePathsForFiles :: "string list \<Rightarrow> string list \<Rightarrow> string list" where
  "composePathsForFiles composePaths filePaths = uniqueSortedStrings (concat (map (composePathsForFile composePaths) filePaths))"

subsection \<open>The baseline afterwards\<close>

definition baselineFromSource :: "inventory \<Rightarrow> baseline" where
  "baselineFromSource source = List.map_filter (\<lambda>(p, f). if tf_open f \<noteq> None \<and> tf_sha f \<noteq> [] then Some (p, tf_sha f) else None) source"

definition baselineFromSourcePreservingControl :: "inventory \<Rightarrow> baseline \<Rightarrow> baseline" where
  "baselineFromSourcePreservingControl source current =
     foldl (\<lambda>r (p, sha). AList.update p sha r) (baselineFromSource source) (filter (\<lambda>(p, _). isProvisionControlPath p) current)"

definition splitProvisionControlFiles :: "inventory \<Rightarrow> inventory \<times> inventory" where
  "splitProvisionControlFiles files =
     (filter (\<lambda>(p, _). \<not> isProvisionControlPath p) files, filter (\<lambda>(p, _). isProvisionControlPath p) files)"

definition afterStep :: "inventory \<Rightarrow> inventory \<Rightarrow> baseline \<Rightarrow> string \<times> transferFile \<Rightarrow> baseline" where
  "afterStep target selected result pf =
     (let (p, src) = pf in
      if tf_open src = None \<or> tf_sha src = [] then result
      else if map_of selected p \<noteq> None then AList.update p (tf_sha src) result
      else (case map_of target p of
          Some dst \<Rightarrow> if tf_open dst \<noteq> None \<and> tf_sha dst = tf_sha src then AList.update p (tf_sha src) result else result
        | None \<Rightarrow> result))"

definition baselineAfterTransfer :: "baseline \<Rightarrow> inventory \<Rightarrow> inventory \<Rightarrow> inventory \<Rightarrow> baseline" where
  "baselineAfterTransfer current source target selected =
     (let kept = foldl (\<lambda>r (p, f). if isProvisionControlPath p \<and> tf_open f = None then AList.delete p r else r) current selected
      in foldl (afterStep target selected) kept source)"

subsection \<open>Stacks that are held back\<close>

definition heldBackComposeStacks :: "TransferPreview \<Rightarrow> string list \<Rightarrow> string list" where
  "heldBackComposeStacks pv composePaths =
     uniqueSortedStrings (concat (map (\<lambda>e. composePathsForFile composePaths (pe_Path e))
       (filter (\<lambda>e. \<not> pe_Directory e \<and> (pe_Status e = ''conflict'' \<or> pe_Status e = ''deleted_locally'' \<or> pe_ConflictKind e = ''destination_deleted''))
         (pv_Entries pv))))"

definition ownedBy :: "string list \<Rightarrow> string list \<Rightarrow> string \<Rightarrow> string list" where
  "ownedBy composePaths stacks p = filter (\<lambda>c. c \<in> set stacks) (composePathsForFile composePaths p)"

definition excludeOwned :: "inventory \<Rightarrow> string list \<Rightarrow> string list \<Rightarrow> inventory \<times> string list" where
  "excludeOwned selected composePaths stacks =
     (filter (\<lambda>(p, _). ownedBy composePaths stacks p = []) selected,
      sort (remdups (concat (map (\<lambda>(p, _). ownedBy composePaths stacks p) selected))))"

definition excludeHeldBackStacks :: "inventory \<Rightarrow> string list \<Rightarrow> string list \<Rightarrow> inventory \<times> string list" where
  "excludeHeldBackStacks selected composePaths heldBack =
     (if heldBack = [] \<or> selected = [] then (selected, []) else excludeOwned selected composePaths heldBack)"

definition excludeInvalidComposeStacks :: "inventory \<Rightarrow> inventory \<Rightarrow> (string, string) gomap \<Rightarrow> inventory \<times> string list" where
  "excludeInvalidComposeStacks selected allFiles composeErrors =
     excludeOwned selected (sort (filter isComposePath (map fst allFiles))) (map fst composeErrors)"

definition excludeStringValues :: "string list \<Rightarrow> string list \<Rightarrow> string list" where
  "excludeStringValues vals excluded = filter (\<lambda>v. v \<notin> set excluded) vals"

fun hasTrackedDeletedCompose :: "inventory \<Rightarrow> inventory \<Rightarrow> baseline \<Rightarrow> string list \<Rightarrow> bool" where
  "hasTrackedDeletedCompose source target base [] = False"
| "hasTrackedDeletedCompose source target base (c # cs) =
     (if (case map_of source c of Some f \<Rightarrow> tf_open f \<noteq> None | None \<Rightarrow> False) then False
      else if (case map_of target c of Some f \<Rightarrow> tf_open f \<noteq> None | None \<Rightarrow> False) \<and> map_of base c \<noteq> None then True
      else hasTrackedDeletedCompose source target base cs)"

definition targetedPreviewResolved :: "TransferPreview \<Rightarrow> string list \<Rightarrow> string list \<Rightarrow> bool" where
  "targetedPreviewResolved pv allComposePaths targets =
     list_all (\<lambda>e. \<not> (ownedBy allComposePaths targets (pe_Path e) \<noteq> [] \<and>
       (pe_Status e = ''conflict'' \<or> pe_Status e = ''deleted_on_git'' \<or> pe_Status e = ''deleted_locally'' \<or> pe_ConflictKind e = ''destination_deleted'')))
       (pv_Entries pv)"

text \<open>The Compose files all of whose open changes an export carried out.\<close>

definition fullyExportedComposePaths :: "string list \<Rightarrow> TransferPreview \<Rightarrow> string list \<Rightarrow> string list" where
  "fullyExportedComposePaths composePaths pv exportedPaths =
     (let complete = remdups (concat (map (composePathsForFile composePaths) exportedPaths));
          open = filter (\<lambda>e. pe_Status e \<in> {''add'', ''modify'', ''conflict'', ''deleted_locally''} \<and>
                   (pe_Path e \<notin> set exportedPaths \<or> pe_Status e = ''deleted_locally'')) (pv_Entries pv)
      in filter (\<lambda>c. \<not> list_ex (\<lambda>e. c \<in> set (composePathsForFile composePaths (pe_Path e))) open) complete)"

end
