(* ===== verification/Sync_Preview_Laws.thy ===== *)
theory Sync_Preview_Laws
  imports Sync_Preview
begin

section \<open>What a transfer may overwrite, and where it comes to rest\<close>

text \<open>
  The entries of a preview are the concatenation of what each path contributes; the laws below are
  stated on that contribution.
\<close>

definition stepEntries :: "string \<Rightarrow> inventory \<Rightarrow> baseline \<Rightarrow> string \<times> transferFile \<Rightarrow> PreviewEntry list" where
  "stepEntries direction target base pf = pv_Entries (sourceStep target base (emptyPreview [] direction) pf)"

definition deletedEntry :: "string \<Rightarrow> baseline \<Rightarrow> string \<times> transferFile \<Rightarrow> PreviewEntry" where
  "deletedEntry status base pf =
     (let entry = (entryOf (fst pf) status)\<lparr>pe_TargetSHA := tf_sha (snd pf), pe_Size := tf_size (snd pf), pe_Sensitive := tf_sensitive (snd pf)\<rparr>
      in if map_of base (fst pf) \<noteq> Some (tf_sha (snd pf))
         then entry\<lparr>pe_Status := ''conflict'', pe_ConflictKind := ''source_deleted_destination_changed''\<rparr> else entry)"

lemmas step_defs = controlStep_def compareStep_def absentStep_def changedEntry_def skippedEntry_def addEntry_def conflicted_def
  unchangedPath_def Let_def

definition fresh :: "TransferPreview \<Rightarrow> TransferPreview" where
  "fresh pv = emptyPreview [] (pv_Direction pv)"

definition appends :: "(TransferPreview \<Rightarrow> TransferPreview) \<Rightarrow> bool" where
  "appends step \<longleftrightarrow> (\<forall>pv. pv_Direction (step pv) = pv_Direction pv \<and> pv_Entries (step pv) = pv_Entries pv @ pv_Entries (step (fresh pv)))"

lemma appendsI:
  assumes "\<And>pv. pv_Direction (step pv) = pv_Direction pv" "\<And>pv. pv_Entries (step pv) = pv_Entries pv @ pv_Entries (step (fresh pv))"
  shows "appends step"
  unfolding appends_def using assms by blast

lemma fresh_simps [simp]: "pv_Entries (fresh pv) = []" "pv_Direction (fresh pv) = pv_Direction pv"
  by (simp_all add: fresh_def emptyPreview_def)

lemma appends_basic: "appends (changedEntry e)" "appends (skippedEntry e)" "appends unchangedPath" "appends (\<lambda>pv. pv)"
  "appends (\<lambda>pv. changedEntry e (conflicted pv))" "appends (\<lambda>pv. changedEntry e (pv\<lparr>pv_LocalDeletions := pv_LocalDeletions pv + 1\<rparr>))"
  "appends (\<lambda>pv. changedEntry e (conflicted (pv\<lparr>pv_LocalDeletions := pv_LocalDeletions pv + 1\<rparr>)))"
  by (rule appendsI; simp add: step_defs)+

lemma appends_option: "appends g \<Longrightarrow> (\<And>x. appends (h x)) \<Longrightarrow> appends (\<lambda>pv. case c of None \<Rightarrow> g pv | Some x \<Rightarrow> h x pv)"
  by (cases c) simp_all

lemma appends_if: "appends g \<Longrightarrow> appends h \<Longrightarrow> appends (\<lambda>pv. if b then g pv else h pv)"
  by (cases b) simp_all

lemma appends_direction:
  assumes "\<And>d. appends (g d)"
  shows "appends (\<lambda>pv. g (pv_Direction pv) pv)"
  unfolding appends_def fresh_simps using assms[unfolded appends_def] by blast

lemma appends_controlStep: "appends (controlStep base p src)"
  unfolding controlStep_def Let_def
  by (rule appends_direction[where g = "\<lambda>d pv. if d = toRepository then pv else _ pv"]) (intro appends_if appends_option appends_basic)

lemma appends_compareStep: "appends (compareStep dst tracked entry src)"
  unfolding compareStep_def Let_def by (intro appends_if appends_option appends_basic)

lemma appends_absentStep: "appends (absentStep tracked entry src)"
  unfolding absentStep_def Let_def
  by (rule appends_direction[where g = "\<lambda>d pv. if d = toStack then _ pv else _ pv"]) (intro appends_if appends_option appends_basic)

lemma appends_sourceStep: "appends (\<lambda>pv. sourceStep target base pv pf)"
proof (cases pf)
  case (Pair p src)
  show ?thesis
    unfolding Pair sourceStep_def Let_def prod.case
    by (rule appends_direction[where g = "\<lambda>d pv. if isProvisionControlPath p then controlStep base p src pv else if tf_open src = None then _ pv
          else case targetOf d target p of None \<Rightarrow> _ pv | Some dst \<Rightarrow> _ dst pv"])
      (intro appends_if appends_option appends_basic appends_controlStep appends_compareStep appends_absentStep)
qed

lemma sourceStep_shape:
  "pv_Entries (sourceStep target base pv pf) = pv_Entries pv @ stepEntries (pv_Direction pv) target base pf"
  "pv_Direction (sourceStep target base pv pf) = pv_Direction pv"
  unfolding stepEntries_def fresh_def[symmetric] using appends_sourceStep[of target base pf, unfolded appends_def] by blast+

lemma sources_shape:
  "pv_Direction (foldl (sourceStep target base) pv xs) = pv_Direction pv \<and>
   pv_Entries (foldl (sourceStep target base) pv xs) = pv_Entries pv @ concat (map (stepEntries (pv_Direction pv) target base) xs)"
  by (induction xs arbitrary: pv) (simp_all add: sourceStep_shape)

lemma deletions_shape:
  assumes "\<And>pv. pv_Entries (tally pv) = pv_Entries pv"
  shows "pv_Entries (foldl (deletedStep status tally base) pv xs) = pv_Entries pv @ map (deletedEntry status base) xs"
proof (induction xs arbitrary: pv)
  case (Cons pf xs)
  have "pv_Entries (deletedStep status tally base pv pf) = pv_Entries pv @ [deletedEntry status base pf]"
    by (cases pf) (simp add: deletedStep_def deletedEntry_def assms step_defs)
  then show ?case using Cons by simp
qed simp

lemma controls_shape:
  "pv_Entries (foldl (\<lambda>pv p. changedEntry (entryOf (fst p) ''remove_control'') pv) pv xs) =
   pv_Entries pv @ map (\<lambda>p. entryOf (fst p) ''remove_control'') xs"
  by (induction xs arbitrary: pv) (auto simp: step_defs)

lemma tallies [simp]:
  "pv_Entries (countLocalDeletion pv) = pv_Entries pv" "pv_Entries (countPreserved pv) = pv_Entries pv"
  "set (pv_Entries (sortEntries pv)) = set (pv_Entries pv)"
  by (simp_all add: countLocalDeletion_def countPreserved_def sortEntries_def)

definition removedControls :: "inventory \<Rightarrow> baseline \<Rightarrow> baseline" where
  "removedControls source base = filter (\<lambda>(p, _). isProvisionControlPath p \<and> map_of source p = None) base"

definition previewEntries :: "string \<Rightarrow> inventory \<Rightarrow> inventory \<Rightarrow> baseline \<Rightarrow> PreviewEntry set" where
  "previewEntries direction source target base =
     (\<Union>pf\<in>set source. set (stepEntries direction target base pf)) \<union>
     (if direction = toRepository then deletedEntry ''deleted_locally'' base ` set (filter (onlyTarget source base) target)
      else if direction = toStack then deletedEntry ''deleted_on_git'' base ` set (filter (onlyTarget source base) target) \<union>
        (\<lambda>p. entryOf p ''remove_control'') ` fst ` set (removedControls source base)
      else {})"

lemma directions_differ [simp]: "toStack \<noteq> toRepository" "toRepository \<noteq> toStack"
  by (simp_all add: toStack_def toRepository_def)

lemma buildPreview_entries:
  "set (pv_Entries (buildPreview sha bindingID direction source target base)) = previewEntries direction source target base"
proof -
  have start: "pv_Entries (emptyPreview bindingID d) = []" "pv_Direction (emptyPreview bindingID d) = d" for d
    by (simp_all add: emptyPreview_def)
  have none: "filter (onlyTarget source base) target = [] \<Longrightarrow> {x \<in> set target. onlyTarget source base x} = {}"
    by (simp add: filter_empty_conv)
  show ?thesis
    by (cases "direction = toRepository"; cases "direction = toStack";
        simp add: start none buildPreview_def previewBody_def previewEntries_def removedControls_def Let_def sources_shape deletions_shape
          controls_shape image_image split_def Un_assoc)
qed

text \<open>What a source path contributes.\<close>

lemma stepEntries_path: "e \<in> set (stepEntries direction target base (p, src)) \<Longrightarrow> pe_Path e = p"
  by (simp add: stepEntries_def sourceStep_def emptyPreview_def step_defs entryOf_def split: if_splits option.splits)

definition takeable :: "PreviewEntry \<Rightarrow> bool" where
  "takeable e \<longleftrightarrow> pe_Status e \<in> {''add'', ''modify''}"

text \<open>The condition under which the content of the source may replace what the target has.\<close>

definition mayReplace :: "string \<Rightarrow> inventory \<Rightarrow> baseline \<Rightarrow> string \<Rightarrow> transferFile \<Rightarrow> bool" where
  "mayReplace direction target base p src \<longleftrightarrow>
     (case targetOf direction target p of
        Some dst \<Rightarrow>
          if tf_open dst \<noteq> None then map_of base p = Some (tf_sha dst) \<and> tf_sha src \<noteq> tf_sha dst
          else \<not> heldOut dst \<and> (direction = toStack \<longrightarrow> map_of base p \<in> {None, Some (tf_sha src)})
      | None \<Rightarrow> direction = toStack \<longrightarrow> map_of base p \<in> {None, Some (tf_sha src)})"

lemma stepEntries_takeable:
  assumes "e \<in> set (stepEntries direction target base (p, src))" "takeable e" "\<not> isProvisionControlPath p"
  shows "tf_open src \<noteq> None \<and> mayReplace direction target base p src"
  using assms
  by (auto simp: stepEntries_def sourceStep_def emptyPreview_def step_defs entryOf_def takeable_def mayReplace_def heldOut_def split: if_splits option.splits)

lemma deletedEntry_not_takeable: "status \<in> {''deleted_locally'', ''deleted_on_git''} \<Longrightarrow> \<not> takeable (deletedEntry status base pf) \<and> pe_Status (deletedEntry status base pf) \<noteq> ''remove_control''"
  by (auto simp: deletedEntry_def takeable_def entryOf_def Let_def)

lemma preview_takeable:
  assumes "e \<in> previewEntries direction source target base" "takeable e" "\<not> isProvisionControlPath (pe_Path e)"
  shows "\<exists>src. (pe_Path e, src) \<in> set source \<and> tf_open src \<noteq> None \<and> mayReplace direction target base (pe_Path e) src"
proof -
  have "\<not> takeable (entryOf p ''remove_control'')" for p by (simp add: takeable_def entryOf_def)
  then obtain p src where "(p, src) \<in> set source" "e \<in> set (stepEntries direction target base (p, src))"
    using assms(1,2) deletedEntry_not_takeable by (fastforce simp: previewEntries_def split: if_splits)
  then show ?thesis using stepEntries_takeable[of e direction target base p src] stepEntries_path[of e direction target base p src] assms(2,3) by auto
qed

lemma preview_remove_control:
  assumes "e \<in> previewEntries direction source target base" "pe_Status e = ''remove_control''"
  shows "isProvisionControlPath (pe_Path e) \<and> map_of source (pe_Path e) = None \<and> direction = toStack"
proof -
  have "pe_Status e' \<noteq> ''remove_control''" if "e' \<in> set (stepEntries direction target base pf)" for e' pf
    using that by (cases pf) (auto simp: stepEntries_def sourceStep_def emptyPreview_def step_defs entryOf_def split: if_splits option.splits)
  then show ?thesis
    using assms deletedEntry_not_takeable by (fastforce simp: previewEntries_def removedControls_def entryOf_def split: if_splits)
qed

lemma blockedFrom_held: "blockedFrom target d = Some b \<Longrightarrow> heldOut b"
proof (induction target d rule: blockedFrom.induct)
  case (1 target d)
  then show ?case
    by (cases "map_of target d") (auto simp: blockedFrom.simps[of target d] split: if_splits)
qed

lemma blockedTargetDirectory_held: "blockedTargetDirectory target p = Some b \<Longrightarrow> heldOut b"
  unfolding blockedTargetDirectory_def by (rule blockedFrom_held)

text \<open>What the selection holds.\<close>

lemma selectEntry_one:
  "map_of (selectEntry source acc e) p = Some f \<Longrightarrow> map_of acc p = Some f \<or> (pe_Path e = p \<and>
     (if pe_Status e = ''remove_control'' then f = skippedFile p [] else map_of source p = Some f \<and> tf_open f \<noteq> None))"
  by (auto simp: selectEntry_def update_conv' split: if_splits option.splits)

lemma selectEntry_origin:
  "map_of (foldl (selectEntry source) acc es) p = Some f \<Longrightarrow>
   map_of acc p = Some f \<or> (\<exists>e\<in>set es. pe_Path e = p \<and>
     (if pe_Status e = ''remove_control'' then f = skippedFile p [] else map_of source p = Some f \<and> tf_open f \<noteq> None))"
proof (induction es arbitrary: acc)
  case (Cons e es)
  show ?case
    using Cons.IH[of "selectEntry source acc e"] Cons.prems selectEntry_one[of source acc e p f] by auto
qed simp

lemma selectedTransferFiles_origin:
  assumes "selectedTransferFiles pv source resolved chosen = Inr (selected, n)" "map_of selected p = Some f"
  obtains e where "e \<in> set (pv_Entries pv)" "takesEntry (map cleanCandidate resolved) (map cleanCandidate chosen) e" "pe_Path e = p"
    "if pe_Status e = ''remove_control'' then f = skippedFile p [] else map_of source p = Some f \<and> tf_open f \<noteq> None"
proof -
  let ?es = "filter (takesEntry (map cleanCandidate resolved) (map cleanCandidate chosen)) (pv_Entries pv)"
  have "selected = foldl (selectEntry source) [] ?es"
    using assms(1) by (simp add: selectedTransferFiles_def Let_def split: if_splits list.splits)
  then have "\<exists>e\<in>set ?es. pe_Path e = p \<and>
     (if pe_Status e = ''remove_control'' then f = skippedFile p [] else map_of source p = Some f \<and> tf_open f \<noteq> None)"
    using selectEntry_origin[of source "[]" ?es p f] assms(2) by simp
  then show thesis using that by auto
qed


definition textFile :: "string \<Rightarrow> string \<Rightarrow> transferFile" where
  "textFile p contents = \<lparr>tf_path = p, tf_mode = 420, tf_size = int (length contents), tf_sha = contents, tf_sensitive = False, tf_skipReason = [],
     tf_directory = False, tf_open = Some (Inr contents)\<rparr>"


subsection \<open>The baseline a transfer leaves\<close>

definition settles :: "inventory \<Rightarrow> inventory \<Rightarrow> string \<Rightarrow> transferFile \<Rightarrow> bool" where
  "settles target selected p src \<longleftrightarrow> tf_open src \<noteq> None \<and> tf_sha src \<noteq> [] \<and>
     (map_of selected p \<noteq> None \<or> (\<exists>dst. map_of target p = Some dst \<and> tf_open dst \<noteq> None \<and> tf_sha dst = tf_sha src))"

lemma afterStep_settles:
  "afterStep target selected result (p, src) = (if settles target selected p src then AList.update p (tf_sha src) result else result)"
  by (auto simp: afterStep_def settles_def split: option.splits)

lemma afterSteps_map:
  "distinct (map fst source) \<Longrightarrow>
   map_of (foldl (afterStep target selected) result source) p =
     (case map_of source p of Some src \<Rightarrow> if settles target selected p src then Some (tf_sha src) else map_of result p | None \<Rightarrow> map_of result p)"
proof (induction source arbitrary: result)
  case (Cons pf source)
  obtain q src where pf: "pf = (q, src)" by (metis surj_pair)
  have "map_of source q = None" using Cons.prems pf by (simp add: map_of_eq_None_iff)
  then show ?case
    using Cons by (auto simp: pf afterStep_settles update_conv' split: option.splits)
qed simp

definition dropsControl :: "string \<times> transferFile \<Rightarrow> bool" where
  "dropsControl pf \<longleftrightarrow> isProvisionControlPath (fst pf) \<and> tf_open (snd pf) = None"

lemma droppedControls_map:
  "map_of (foldl (\<lambda>r (q, f). if isProvisionControlPath q \<and> tf_open f = None then AList.delete q r else r) current selected) p =
   (if \<exists>f. (p, f) \<in> set selected \<and> dropsControl (p, f) then None else map_of current p)"
proof (induction selected arbitrary: current)
  case (Cons pf selected)
  obtain q f where pf: "pf = (q, f)" by (metis surj_pair)
  show ?case
    unfolding foldl_Cons Cons.IH by (auto simp: pf dropsControl_def delete_conv')
qed simp

definition nextBaseline :: "baseline \<Rightarrow> inventory \<Rightarrow> inventory \<Rightarrow> inventory \<Rightarrow> string \<Rightarrow> string option" where
  "nextBaseline current source target selected p =
     (let kept = (if \<exists>f. map_of selected p = Some f \<and> dropsControl (p, f) then None else map_of current p) in
      case map_of source p of
        Some src \<Rightarrow> if settles target selected p src then Some (tf_sha src) else kept
      | None \<Rightarrow> kept)"

lemma baselineAfterTransfer_map:
  assumes "distinct (map fst source)" "distinct (map fst selected)"
  shows "map_of (baselineAfterTransfer current source target selected) p = nextBaseline current source target selected p"
proof -
  have eq: "(\<exists>f. (p, f) \<in> set selected \<and> dropsControl (p, f)) \<longleftrightarrow> (\<exists>f. map_of selected p = Some f \<and> dropsControl (p, f))"
    using assms(2) by (metis map_of_SomeD map_of_is_SomeI)
  show ?thesis
    unfolding baselineAfterTransfer_def Let_def afterSteps_map[OF assms(1)] droppedControls_map eq nextBaseline_def ..
qed

text \<open>
  the baseline after a transfer holds exactly what both sides now have in common.  A path of the source
  whose file was transferred, or whose target file already was the same, gets the hash of the source; a
  control path whose removal was selected is forgotten; every other path keeps its old entry, so that
  undecided conflicts, deletions and skipped files are seen again by the next preview.
\<close>

theorem baselineAfterTransfer_exact:
  assumes "distinct (map fst source)" "distinct (map fst selected)"
  shows "map_of (baselineAfterTransfer current source target selected) p = nextBaseline current source target selected p"
  by (rule baselineAfterTransfer_map[OF assms])

theorem baselineAfterTransfer_exact_witness:
  "map_of (baselineAfterTransfer [(''a'', ''x''), (''b'', ''y'')] [(''a'', textFile ''a'' ''z''), (''b'', textFile ''b'' ''w'')] [] [(''a'', textFile ''a'' ''z'')]) ''b'' = Some ''y''"
  by (subst baselineAfterTransfer_exact) (simp_all add: nextBaseline_def settles_def dropsControl_def textFile_def)

subsection \<open>Coming to rest\<close>

lemma selectEntry_distinct: "distinct (map fst acc) \<Longrightarrow> distinct (map fst (foldl (selectEntry source) acc es))"
  by (induction es arbitrary: acc) (auto simp: selectEntry_def distinct_update split: option.splits)

lemma selectedTransferFiles_distinct:
  "selectedTransferFiles pv source resolved chosen = Inr (selected, n) \<Longrightarrow> distinct (map fst selected)"
  by (auto simp: selectedTransferFiles_def Let_def selectEntry_distinct split: if_splits list.splits)

definition written :: "inventory \<Rightarrow> inventory \<Rightarrow> bool" where
  "written selected target' \<longleftrightarrow> (\<forall>p f. map_of selected p = Some f \<and> \<not> isProvisionControlPath p \<longrightarrow>
     (\<exists>g. map_of target' p = Some g \<and> tf_open g \<noteq> None \<and> tf_sha g = tf_sha f))"

lemma preview_entry_cases:
  assumes "e \<in> previewEntries direction source target base"
  obtains (Source) src where "(pe_Path e, src) \<in> set source" "e \<in> set (stepEntries direction target base (pe_Path e, src))"
  | (Target) "map_of source (pe_Path e) = None" "\<not> isProvisionControlPath (pe_Path e)"
  | (Control) "map_of source (pe_Path e) = None" "isProvisionControlPath (pe_Path e)" "map_of base (pe_Path e) \<noteq> None" "pe_Status e = ''remove_control''"
proof -
  have path: "pe_Path (deletedEntry status base pf) = fst pf" for status pf by (simp add: deletedEntry_def entryOf_def Let_def)
  have control: "pe_Path (entryOf p status) = p" "pe_Status (entryOf p status) = status" for p status by (simp_all add: entryOf_def)
  have "e \<in> (\<Union>pf\<in>set source. set (stepEntries direction target base pf)) \<or>
      (\<exists>status. e \<in> deletedEntry status base ` set (filter (onlyTarget source base) target)) \<or>
      e \<in> (\<lambda>p. entryOf p ''remove_control'') ` fst ` set (removedControls source base)"
    using assms unfolding previewEntries_def by (cases "direction = toRepository"; cases "direction = toStack") (simp_all, blast+)
  then consider (1) p src where "(p, src) \<in> set source" "e \<in> set (stepEntries direction target base (p, src))"
    | (2) status pf where "e = deletedEntry status base pf" "onlyTarget source base pf"
    | (3) p v where "e = entryOf p ''remove_control''" "(p, v) \<in> set (removedControls source base)"
    by auto
  then show thesis
  proof cases
    case 1
    then show ?thesis using Source stepEntries_path[OF 1(2)] by simp
  next
    case 2
    then show ?thesis using Target by (simp add: path onlyTarget_def)
  next
    case 3
    then have "(p, v) \<in> set base" "isProvisionControlPath p" "map_of source p = None" by (simp_all add: removedControls_def)
    moreover from this(1) have "map_of base p \<noteq> None" by (auto dest: weak_map_of_SomeI)
    ultimately show ?thesis using Control 3(1) control by simp
  qed
qed

lemma stepEntries_settled:
  assumes "tf_open src \<noteq> None" "isProvisionControlPath p \<Longrightarrow> map_of base p = Some (tf_sha src)"
    "\<not> isProvisionControlPath p \<Longrightarrow> \<exists>g. map_of target p = Some g \<and> tf_open g \<noteq> None \<and> tf_sha g = tf_sha src"
  shows "stepEntries direction target base (p, src) = []"
proof (cases "isProvisionControlPath p")
  case True
  then show ?thesis using assms(2) by (simp add: stepEntries_def sourceStep_def controlStep_def unchangedPath_def emptyPreview_def Let_def)
next
  case False
  then obtain g where g: "map_of target p = Some g" "tf_open g \<noteq> None" "tf_sha g = tf_sha src" using assms(3) by blast
  have "\<not> heldOut g" using g(2) by (simp add: heldOut_def)
  then show ?thesis using False g assms(1)
    by (simp add: stepEntries_def sourceStep_def compareStep_def unchangedPath_def emptyPreview_def targetOf_def Let_def del: not_None_eq)
qed

text \<open>
  C13: a transfer comes to rest.  Once the selected files have been written to the target and the baseline has been
  updated, a new preview of the same source shows no entry at all for any path of the selection, whatever else
  changed in the target meanwhile: conflicts that were resolved, control files that were added, changed
  or removed, and plain additions alike.
\<close>

theorem transfer_converges:
  assumes "distinct (map fst source)"
    and "selectedTransferFiles (buildPreview sha bindingID direction source target base) source resolved chosen = Inr (selected, n)"
    and "\<And>p f. map_of source p = Some f \<Longrightarrow> tf_open f \<noteq> None \<Longrightarrow> tf_sha f \<noteq> []"
    and "written selected target'"
    and "e \<in> set (pv_Entries (buildPreview sha bindingID direction source target' (baselineAfterTransfer base source target selected)))"
  shows "map_of selected (pe_Path e) = None"
proof (rule ccontr)
  assume "map_of selected (pe_Path e) \<noteq> None"
  then obtain f where f: "map_of selected (pe_Path e) = Some f" by auto
  obtain e0 where e0: "e0 \<in> previewEntries direction source target base" "pe_Path e0 = pe_Path e"
    and origin: "if pe_Status e0 = ''remove_control'' then f = skippedFile (pe_Path e) [] else map_of source (pe_Path e) = Some f \<and> tf_open f \<noteq> None"
    using selectedTransferFiles_origin[OF assms(2) f] by (metis buildPreview_entries)
  note base' = baselineAfterTransfer_map[OF assms(1) selectedTransferFiles_distinct[OF assms(2)], of base target "pe_Path e"]
  have removed: "pe_Status e0 = ''remove_control'' \<Longrightarrow> map_of source (pe_Path e) = None \<and> isProvisionControlPath (pe_Path e)"
    using preview_remove_control[OF e0(1)] e0(2) by simp
  have e: "e \<in> previewEntries direction source target' (baselineAfterTransfer base source target selected)"
    using assms(5) by (simp add: buildPreview_entries)
  show False
  proof (cases rule: preview_entry_cases[OF e])
    case (1 src)
    then have src: "map_of source (pe_Path e) = Some src" using assms(1) by simp
    then have "f = src" "tf_open src \<noteq> None" using origin removed by (auto split: if_splits)
    then have "stepEntries direction target' (baselineAfterTransfer base source target selected) (pe_Path e, src) = []"
      using f src assms(3)[OF src] assms(4) base'
      by (intro stepEntries_settled) (auto simp: nextBaseline_def settles_def written_def)
    then show ?thesis using 1(2) by simp
  next
    case 2
    then show ?thesis using origin removed by (auto split: if_splits)
  next
    case 3
    then have "dropsControl (pe_Path e, f)" using origin by (auto simp: dropsControl_def skippedFile_def split: if_splits)
    then show ?thesis using 3 f base' by (auto simp: nextBaseline_def)
  qed
qed

theorem transfer_converges_witness:
  "''a'' \<notin> pe_Path ` set (pv_Entries (buildPreview (\<lambda>s. s) ''b'' toStack [(''a'', textFile ''a'' ''new'')] [(''a'', textFile ''a'' ''new'')]
     (baselineAfterTransfer [(''a'', ''old'')] [(''a'', textFile ''a'' ''new'')] [(''a'', textFile ''a'' ''old'')] [(''a'', textFile ''a'' ''new'')])))"
proof -
  let ?source = "[(''a'', textFile ''a'' ''new'')]" and ?target = "[(''a'', textFile ''a'' ''old'')]" and ?base = "[(''a'', ''old'')]"
  have run: "selectedTransferFiles (buildPreview (\<lambda>s. s) ''b'' toStack ?source ?target ?base) ?source [] [] = Inr (?source, 0)"
    by code_simp
  have "written ?source ?source" by (auto simp: written_def textFile_def)
  then show ?thesis
    using transfer_converges[OF _ run, of ?source] by (fastforce simp: textFile_def split: if_splits)
qed
subsection \<open>The order of iteration\<close>

text \<open>
  Go iterates over maps in a random order.  The source is sorted first; the deletions are found in map
  order and sorted afterwards.  Permuting the lists that stand for the maps must therefore not change
  the preview, and with it the token a user confirms.
\<close>

definition stale :: "baseline \<Rightarrow> string \<times> transferFile \<Rightarrow> bool" where
  "stale base pf \<longleftrightarrow> map_of base (fst pf) \<noteq> Some (tf_sha (snd pf))"

definition addDeleted :: "string \<Rightarrow> baseline \<Rightarrow> (string \<times> transferFile) list \<Rightarrow> TransferPreview \<Rightarrow> TransferPreview" where
  "addDeleted status base xs pv =
     pv\<lparr>pv_Entries := pv_Entries pv @ map (deletedEntry status base) xs, pv_Changed := pv_Changed pv + int (length xs),
        pv_Conflicts := pv_Conflicts pv + int (length (filter (stale base) xs))\<rparr>"

lemma deletedStep_addDeleted: "deletedStep status tally base pv pf = tally (addDeleted status base [pf] pv)"
  by (cases pf; cases pv) (simp add: deletedStep_def addDeleted_def deletedEntry_def stale_def step_defs)

lemma deletions_closed:
  "foldl (deletedStep status countLocalDeletion base) pv xs =
     (addDeleted status base xs pv)\<lparr>pv_LocalDeletions := pv_LocalDeletions pv + int (length xs)\<rparr>"
  "foldl (deletedStep status countPreserved base) pv xs =
     (addDeleted status base xs pv)\<lparr>pv_Preserved := pv_Preserved pv + int (length xs)\<rparr>"
  by (induction xs arbitrary: pv)
    (simp_all add: deletedStep_addDeleted addDeleted_def countLocalDeletion_def countPreserved_def)

lemma controls_closed:
  "foldl (\<lambda>pv (p, _). changedEntry (entryOf p ''remove_control'') pv) pv xs =
     pv\<lparr>pv_Entries := pv_Entries pv @ map (\<lambda>p. entryOf (fst p) ''remove_control'') xs, pv_Changed := pv_Changed pv + int (length xs)\<rparr>"
  by (induction xs arbitrary: pv) (auto simp: step_defs)

lemma distinct_map_mset: "mset xs = mset ys \<Longrightarrow> distinct (map f xs) \<longleftrightarrow> distinct (map f ys)"
  by (rule mset_eq_imp_distinct_iff) simp

lemma distinct_sort_key: "distinct (map f (sort_key g xs)) \<longleftrightarrow> distinct (map f xs)"
  by (rule distinct_map_mset) simp

lemma sort_key_unique:
  assumes "mset xs = mset ys" "distinct (map f xs)"
  shows "sort_key f xs = sort_key f ys"
proof (rule map_sorted_distinct_set_unique[where f = f])
  have same: "set xs = set ys" by (rule mset_eq_setD[OF assms(1)])
  show "distinct (map f (sort_key f ys))" "distinct (map f (sort_key f xs))"
    using assms(2) distinct_map_mset[OF assms(1), of f] by (simp_all only: distinct_sort_key)
  show "inj_on f (set (sort_key f xs) \<union> set (sort_key f ys))" using assms(2) same by (simp add: distinct_map)
  show "set (sort_key f xs) = set (sort_key f ys)" using same by simp
qed simp_all

lemma map_of_mset:
  assumes "mset xs = mset ys" "distinct (map fst xs)"
  shows "map_of xs = map_of ys"
proof -
  have "distinct (map fst ys)" using assms distinct_map_mset by blast
  then show ?thesis using assms map_of_inject_set[of xs ys] mset_eq_setD[of xs ys] by simp
qed

definition short :: "(TransferPreview \<Rightarrow> TransferPreview) \<Rightarrow> bool" where
  "short step \<longleftrightarrow> (\<forall>pv. length (pv_Entries (step pv)) \<le> length (pv_Entries pv) + 1)"

lemma short_basic: "short (changedEntry e)" "short (skippedEntry e)" "short unchangedPath" "short (\<lambda>pv. pv)"
  "short (\<lambda>pv. changedEntry e (conflicted pv))" "short (\<lambda>pv. changedEntry e (pv\<lparr>pv_LocalDeletions := pv_LocalDeletions pv + 1\<rparr>))"
  "short (\<lambda>pv. changedEntry e (conflicted (pv\<lparr>pv_LocalDeletions := pv_LocalDeletions pv + 1\<rparr>)))"
  by (simp_all add: short_def step_defs)

lemma short_option: "short g \<Longrightarrow> (\<And>x. short (h x)) \<Longrightarrow> short (\<lambda>pv. case c of None \<Rightarrow> g pv | Some x \<Rightarrow> h x pv)"
  by (cases c) simp_all

lemma short_if: "short g \<Longrightarrow> short h \<Longrightarrow> short (\<lambda>pv. if b then g pv else h pv)"
  by (cases b) simp_all

lemma short_direction: "(\<And>d. short (g d)) \<Longrightarrow> short (\<lambda>pv. g (pv_Direction pv) pv)"
  by (simp add: short_def)

lemma short_controlStep: "short (controlStep base p src)"
  unfolding controlStep_def Let_def
  by (rule short_direction[where g = "\<lambda>d pv. if d = toRepository then pv else _ pv"]) (intro short_if short_option short_basic)

lemma short_compareStep: "short (compareStep dst tracked entry src)"
  unfolding compareStep_def Let_def by (intro short_if short_option short_basic)

lemma short_absentStep: "short (absentStep tracked entry src)"
  unfolding absentStep_def Let_def
  by (rule short_direction[where g = "\<lambda>d pv. if d = toStack then _ pv else _ pv"]) (intro short_if short_option short_basic)

lemma short_sourceStep: "short (\<lambda>pv. sourceStep target base pv (p, src))"
  unfolding sourceStep_def Let_def prod.case
  by (rule short_direction[where g = "\<lambda>d pv. if isProvisionControlPath p then controlStep base p src pv else if tf_open src = None then _ pv
        else case targetOf d target p of None \<Rightarrow> _ pv | Some dst \<Rightarrow> _ dst pv"])
    (intro short_if short_option short_basic short_controlStep short_compareStep short_absentStep)

lemma stepEntries_single: "length (stepEntries direction target base (p, src)) \<le> 1"
  using short_sourceStep[of target base p src, unfolded short_def, rule_format, of "emptyPreview [] direction"]
  by (simp add: stepEntries_def emptyPreview_def)

lemma source_entries_distinct:
  "distinct (map fst xs) \<Longrightarrow>
   distinct (map pe_Path (concat (map (stepEntries direction target base) xs))) \<and>
   pe_Path ` set (concat (map (stepEntries direction target base) xs)) \<subseteq> fst ` set xs"
proof (induction xs)
  case (Cons pf xs)
  obtain p src where pf: "pf = (p, src)" by (metis surj_pair)
  have one: "distinct (map pe_Path (stepEntries direction target base pf))"
    using stepEntries_single[of direction target base p src] pf
    by (cases "stepEntries direction target base (p, src)") simp_all
  have "pe_Path e = p" if "e \<in> set (stepEntries direction target base pf)" for e using that stepEntries_path pf by blast
  then show ?case using Cons one pf by (auto 0 3 simp: image_subset_iff)
qed simp

lemma previewBody_entries_distinct:
  assumes "distinct (map fst source)" "distinct (map fst target)"
  shows "distinct (map pe_Path (pv_Entries (foldl (sourceStep target base) (emptyPreview b direction) (sort_key fst source)) @
    map (deletedEntry status base) (filter (onlyTarget source base) target)))"
proof -
  have path: "pe_Path (deletedEntry status base pf) = fst pf" for pf by (simp add: deletedEntry_def entryOf_def Let_def)
  have "distinct (map fst (sort_key fst source))" using assms(1) by (simp add: distinct_sort_key)
  note src = source_entries_distinct[OF this, of direction target base]
  have start: "pv_Entries (emptyPreview b direction) = []" "pv_Direction (emptyPreview b direction) = direction"
    by (simp_all add: emptyPreview_def)
  have apart: "fst pf \<notin> fst ` set source" if "onlyTarget source base pf" for pf
    using that by (simp add: onlyTarget_def map_of_eq_None_iff)
  have "pv_Entries (foldl (sourceStep target base) (emptyPreview b direction) (sort_key fst source)) =
      concat (map (stepEntries direction target base) (sort_key fst source))"
    by (simp only: sources_shape start append_Nil)
  moreover have "map pe_Path (map (deletedEntry status base) ys) = map fst ys" for ys
    by (simp add: path)
  moreover have "fst ` set source \<inter> set (map fst (filter (onlyTarget source base) target)) = {}"
    using apart by (force simp del: split_paired_All)
  moreover have "distinct (map fst (filter (onlyTarget source base) target))" using assms(2) by (rule distinct_map_filter)
  ultimately show ?thesis
    unfolding map_append distinct_append using src by (simp only: set_map set_sort) blast
qed

lemma addDeleted_mset:
  assumes "mset xs = mset ys" "distinct (map pe_Path (pv_Entries pv @ map (deletedEntry status base) xs))"
  shows "sortEntries (addDeleted status base xs pv) = sortEntries (addDeleted status base ys pv)"
proof -
  have "sort_key pe_Path (pv_Entries pv @ map (deletedEntry status base) xs) = sort_key pe_Path (pv_Entries pv @ map (deletedEntry status base) ys)"
    by (rule sort_key_unique) (use assms in simp_all)
  moreover have "length xs = length ys" "length (filter (stale base) xs) = length (filter (stale base) ys)"
    using assms(1) by (metis size_mset, metis mset_filter size_mset)
  ultimately show ?thesis by (simp add: sortEntries_def addDeleted_def)
qed

lemma sortEntries_cong:
  assumes "sortEntries (addDeleted status base xs pv) = sortEntries (addDeleted status base ys pv)" "mset xs = mset ys"
  shows "sortEntries (foldl (deletedStep status countLocalDeletion base) pv xs) = sortEntries (foldl (deletedStep status countLocalDeletion base) pv ys)"
    "sortEntries (foldl (deletedStep status countPreserved base) pv xs) = sortEntries (foldl (deletedStep status countPreserved base) pv ys)"
proof -
  have "length xs = length ys" using assms(2) by (metis size_mset)
  moreover have "(sortEntries pv1)\<lparr>pv_LocalDeletions := n\<rparr> = sortEntries (pv1\<lparr>pv_LocalDeletions := n\<rparr>)"
    "(sortEntries pv1)\<lparr>pv_Preserved := n\<rparr> = sortEntries (pv1\<lparr>pv_Preserved := n\<rparr>)" for pv1 n
    by (simp_all add: sortEntries_def)
  ultimately show "sortEntries (foldl (deletedStep status countLocalDeletion base) pv xs) = sortEntries (foldl (deletedStep status countLocalDeletion base) pv ys)"
    "sortEntries (foldl (deletedStep status countPreserved base) pv xs) = sortEntries (foldl (deletedStep status countPreserved base) pv ys)"
    using assms(1) by (simp_all add: deletions_closed) metis+
qed

lemma deletedEntry_path: "pe_Path (deletedEntry status base pf) = fst pf"
  by (simp add: deletedEntry_def entryOf_def Let_def)

lemma blockedFrom_maps:
  assumes "map_of target = map_of target'"
  shows "blockedFrom target d = blockedFrom target' d"
  using assms
proof (induction target d rule: blockedFrom.induct)
  case (1 t d)
  then show ?case
    by (cases "map_of target' d") (simp_all add: blockedFrom.simps[of _ d])
qed

definition withDeletions :: "inventory \<Rightarrow> inventory \<Rightarrow> baseline \<Rightarrow> TransferPreview \<Rightarrow> TransferPreview" where
  "withDeletions source target base pv =
     (let pv3 = foldl (deletedStep ''deleted_on_git'' countPreserved base) pv (filter (onlyTarget source base) target)
      in if filter (onlyTarget source base) target \<noteq> [] then sortEntries pv3 else pv3)"

definition withControls :: "inventory \<Rightarrow> baseline \<Rightarrow> TransferPreview \<Rightarrow> TransferPreview" where
  "withControls source base pv = sortEntries (foldl (\<lambda>pv (p, _). changedEntry (entryOf p ''remove_control'') pv) pv (removedControls source base))"

lemma withControls_mset:
  assumes "mset base = mset base'" "distinct (map pe_Path (pv_Entries pv) @ map fst (removedControls source base))"
  shows "withControls source base pv = withControls source base' pv"
proof -
  have rem: "mset (removedControls source base) = mset (removedControls source base')" using assms(1) by (simp add: removedControls_def)
  have "pe_Path (entryOf p st) = p" for p st by (simp add: entryOf_def)
  then have "sort_key pe_Path (pv_Entries pv @ map (\<lambda>p. entryOf (fst p) ''remove_control'') (removedControls source base)) =
      sort_key pe_Path (pv_Entries pv @ map (\<lambda>p. entryOf (fst p) ''remove_control'') (removedControls source base'))"
    by (intro sort_key_unique) (use assms(2) rem in \<open>simp_all add: comp_def\<close>)
  moreover have "length (removedControls source base) = length (removedControls source base')" using rem by (metis size_mset)
  ultimately show ?thesis by (simp add: withControls_def controls_closed sortEntries_def)
qed

lemma withDeletions_paths:
  "mset (map pe_Path (pv_Entries (withDeletions source target base pv))) =
   mset (map pe_Path (pv_Entries pv)) + mset (map fst (filter (onlyTarget source base) target))"
  by (cases "filter (onlyTarget source base) target = []")
    (simp_all add: withDeletions_def Let_def deletions_closed addDeleted_def sortEntries_def image_mset.compositionality comp_def deletedEntry_path)

lemma previewBody_toStack:
  "previewBody b toStack source target base = withControls source base (withDeletions source target base
     (foldl (sourceStep target base) (emptyPreview b toStack) (sort_key fst source)))"
  by (simp add: previewBody_def withControls_def withDeletions_def removedControls_def Let_def)

lemma preview_paths_distinct:
  fixes b direction and source target :: inventory and base :: baseline
  defines "pv \<equiv> foldl (sourceStep target base) (emptyPreview b direction) (sort_key fst source)"
  assumes "distinct (map fst source)" "distinct (map fst target)" "distinct (map fst base)"
  shows "distinct (map pe_Path (pv_Entries (withDeletions source target base pv)) @ map fst (removedControls source base))"
proof -
  let ?E = "map pe_Path (pv_Entries (withDeletions source target base pv))" and ?D = "map fst (filter (onlyTarget source base) target)"
  have start: "pv_Entries (emptyPreview b direction) = []" "pv_Direction (emptyPreview b direction) = direction"
    by (simp_all add: emptyPreview_def)
  have entries: "pv_Entries pv = concat (map (stepEntries direction target base) (sort_key fst source))"
    unfolding pv_def by (simp only: sources_shape start append_Nil)
  have "distinct (map fst (sort_key fst source))" using assms(2) by (simp add: distinct_sort_key)
  then have fromSource: "pe_Path ` set (pv_Entries pv) \<subseteq> fst ` set source"
    unfolding entries using source_entries_distinct[of "sort_key fst source" direction target base] by (simp only: set_sort)
  have eq: "mset ?E = mset (map pe_Path (pv_Entries pv) @ ?D)" by (simp only: withDeletions_paths mset_append)
  have "distinct (map pe_Path (pv_Entries pv) @ ?D)"
    using previewBody_entries_distinct[OF assms(2,3), of base b direction "[]"]
    unfolding pv_def[symmetric] map_append map_map comp_def deletedEntry_path .
  then have "distinct ?E" using mset_eq_imp_distinct_iff[OF eq] by simp
  moreover have "p \<in> fst ` set source \<or> \<not> isProvisionControlPath p" if "p \<in> set ?E" for p
    using that fromSource unfolding mset_eq_setD[OF eq] by (auto simp: onlyTarget_def)
  then have "set ?E \<inter> set (map fst (removedControls source base)) = {}"
    by (fastforce simp: removedControls_def map_of_eq_None_iff)
  moreover have "distinct (map fst (removedControls source base))"
    using assms(4) by (simp add: removedControls_def distinct_map_filter)
  ultimately show ?thesis by simp
qed

lemma withDeletions_cong:
  "onlyTarget source base = onlyTarget source' base' \<Longrightarrow> (\<And>status tally. deletedStep status tally base = deletedStep status tally base') \<Longrightarrow>
   withDeletions source target base = withDeletions source' target base'"
  by (intro ext) (simp add: withDeletions_def)

lemma withControls_cong: "map_of source = map_of source' \<Longrightarrow> withControls source = withControls source'"
  by (intro ext) (simp add: withControls_def removedControls_def)

text \<open>
  C14: the preview, its counters and its token are functions of the three maps and not of the order in which they
  are visited: any permutation of the lists that stand for the source, the target and the baseline gives the same
  preview, so that a token a user confirms is found again when nothing changed.
\<close>

theorem buildPreview_order_independent:
  assumes "mset source = mset source'" "mset target = mset target'" "mset base = mset base'"
    and "distinct (map fst source)" "distinct (map fst target)" "distinct (map fst base)"
  shows "buildPreview sha b direction source target base = buildPreview sha b direction source' target' base'"
proof -
  have maps: "map_of source = map_of source'" "map_of target = map_of target'" "map_of base = map_of base'"
    using assms map_of_mset by blast+
  have "blockedTargetDirectory target = blockedTargetDirectory target'"
    unfolding blockedTargetDirectory_def using blockedFrom_maps[OF maps(2)] by (intro ext) blast
  then have targets: "targetOf d target = targetOf d target'" for d
    by (intro ext) (simp add: targetOf_def maps split: option.split)
  have step: "sourceStep target base = sourceStep target' base'"
    unfolding sourceStep_def[abs_def] controlStep_def[abs_def] maps(3) targets ..
  have deleted: "deletedStep status tally base = deletedStep status tally base'" for status tally
    by (intro ext) (simp add: deletedStep_def maps split: prod.split)
  have only: "onlyTarget source base = onlyTarget source' base'" by (intro ext) (simp add: onlyTarget_def maps)
  have start: "foldl (sourceStep target base) (emptyPreview b direction) (sort_key fst source) =
      foldl (sourceStep target' base') (emptyPreview b direction) (sort_key fst source')"
    using sort_key_unique[OF assms(1,4)] step by simp
  have sub: "mset (filter (onlyTarget source base) target) = mset (filter (onlyTarget source base) target')"
    using assms(2) by simp
  note moved = sortEntries_cong[OF addDeleted_mset[OF sub previewBody_entries_distinct[OF assms(4,5)]] sub]
  show ?thesis
  proof (cases "direction = toStack")
    case True
    let ?pv = "foldl (sourceStep target base) (emptyPreview b direction) (sort_key fst source)"
    have "filter (onlyTarget source base) target = [] \<longleftrightarrow> filter (onlyTarget source base) target' = []"
      using sub by (metis mset_zero_iff)
    then have dels: "withDeletions source target base ?pv = withDeletions source target' base ?pv"
      using moved(2) by (cases "filter (onlyTarget source base) target = []") (simp_all add: withDeletions_def Let_def)
    have "withControls source base (withDeletions source target base ?pv) = withControls source base' (withDeletions source target base ?pv)"
      by (rule withControls_mset[OF assms(3) preview_paths_distinct[OF assms(4,5,6)]])
    also have "\<dots> = withControls source' base' (withDeletions source' target' base' ?pv)"
      using dels by (simp only: withControls_cong[OF maps(1)] withDeletions_cong[OF only deleted])
    finally show ?thesis
      unfolding buildPreview_def True previewBody_toStack start[unfolded True] by simp
  next
    case False
    have mv: "sortEntries (foldl (deletedStep ''deleted_locally'' countLocalDeletion base') (foldl (sourceStep target' base') (emptyPreview b direction) (sort_key fst source')) (filter (onlyTarget source' base') target)) =
        sortEntries (foldl (deletedStep ''deleted_locally'' countLocalDeletion base') (foldl (sourceStep target' base') (emptyPreview b direction) (sort_key fst source')) (filter (onlyTarget source' base') target'))"
      using moved(1)[of "''deleted_locally''" b direction] unfolding start deleted only .
    have "previewBody b direction source target base = previewBody b direction source' target' base'"
      using False unfolding previewBody_def Let_def start deleted only mv by simp
    then show ?thesis by (simp add: buildPreview_def)
  qed
qed

theorem buildPreview_order_independent_witness:
  "buildPreview (\<lambda>s. s) ''b'' toStack [(''a'', textFile ''a'' ''x''), (''c'', textFile ''c'' ''y'')] [(''d'', textFile ''d'' ''z''), (''e'', textFile ''e'' ''z'')] [(''d'', ''z''), (''e'', ''w'')] =
   buildPreview (\<lambda>s. s) ''b'' toStack [(''c'', textFile ''c'' ''y''), (''a'', textFile ''a'' ''x'')] [(''e'', textFile ''e'' ''z''), (''d'', textFile ''d'' ''z'')] [(''e'', ''w''), (''d'', ''z'')]"
  by (rule buildPreview_order_independent) simp_all

end
