(* ===== verification/Sync_Transfer.thy ===== *)
theory Sync_Transfer
  imports Sync_Preview_Laws
begin

section \<open>Writing files\<close>

text \<open>
  Models the writing of \<open>core/internal/gitsync/binding.go\<close>: \<open>streamTransferFile\<close>, \<open>writeRepositoryFiles\<close>,
  \<open>writeStackFiles\<close> and its in-place fallback.  A directory of the host is a map from paths relative to
  its root to files; a temporary file has a fresh name next to its destination and is a value until it is
  renamed.  Every call of the file system may fail, as the environment says.
\<close>

record hostFile =
  hf_contents :: string
  hf_mode :: int

type_synonym host_fs = "(string, hostFile) gomap"

record write_env =
  we_sha :: "string \<Rightarrow> string"
  we_mkdir :: "string \<Rightarrow> fs_error option"
  we_create :: "string \<Rightarrow> fs_error option"
  we_write :: "string \<Rightarrow> fs_error option"
  we_rename :: "string \<Rightarrow> fs_error option"
  we_special :: "string \<Rightarrow> bool"
  we_truncate :: "string \<Rightarrow> fs_error option"

definition safeFileMode :: "int \<Rightarrow> int" where
  "safeFileMode mode = (let m = mode mod 512 in if m = 0 then 420 else m)"

definition sortedTransferFiles :: "inventory \<Rightarrow> transferFile list" where
  "sortedTransferFiles files = sort_key tf_path (map snd files)"

text \<open>What reaches the destination, and the error the caller sees.\<close>

definition streamTransferFile :: "(string \<Rightarrow> string) \<Rightarrow> transferFile \<Rightarrow> string \<times> fs_error option" where
  "streamTransferFile sha file =
     (case tf_open file of
        None \<Rightarrow> ([], Some (OtherFs ''nil reader''))
      | Some (Inl e) \<Rightarrow> ([], Some e)
      | Some (Inr contents) \<Rightarrow>
          let written = LimitReader contents (tf_size file + 1) in
          (written,
           if int (length written) \<noteq> tf_size file then Some (OtherFs (''file '' @ tf_path file @ '' changed during transfer; retry from a new preview''))
           else if sha written \<noteq> tf_sha file then Some (OtherFs (''file '' @ tf_path file @ '' changed after the preview; retry from a new preview''))
           else None))"

text \<open>
  \<open>writeExistingStackFile\<close>: the file is truncated before its new content is streamed into it, so a failure
  leaves what was written so far.
\<close>

definition writeExistingStackFile :: "write_env \<Rightarrow> transferFile \<Rightarrow> host_fs \<Rightarrow> fs_error option \<times> host_fs" where
  "writeExistingStackFile env file fs =
     (let p = tf_path file in
      case map_of fs p of
        None \<Rightarrow>
          (if we_special env p then (Some (OtherFs (''cannot replace '' @ p @ '' atomically and refusing an in-place update of a non-regular file'')), fs)
           else (Some (OtherFs (''cannot replace '' @ p @ '' atomically and no writable regular file is available for an in-place update'')), fs))
      | Some old \<Rightarrow>
          (case we_truncate env p of
             Some _ \<Rightarrow> (Some (OtherFs (''cannot replace '' @ p @ '' atomically or update the existing file directly'')), fs)
           | None \<Rightarrow>
               let (written, err) = streamTransferFile (we_sha env) file; fs1 = AList.update p (old\<lparr>hf_contents := written\<rparr>) fs in
               (case err of
                  Some _ \<Rightarrow> (Some (OtherFs (''update existing file '' @ p @ '' after atomic replacement was denied'')), fs1)
                | None \<Rightarrow> (case we_write env p of
                      Some _ \<Rightarrow> (Some (OtherFs (''close existing file '' @ p @ '' after atomic replacement was denied'')), fs1)
                    | None \<Rightarrow> (None, fs1)))))"

definition replaceFile :: "write_env \<Rightarrow> (transferFile \<Rightarrow> host_fs \<Rightarrow> fs_error \<Rightarrow> string \<Rightarrow> fs_error option \<times> host_fs) \<Rightarrow> transferFile \<Rightarrow> host_fs \<Rightarrow> fs_error option \<times> host_fs" where
  "replaceFile env denied file fs =
     (let p = tf_path file in
      case we_mkdir env (path_dir p) of
        Some e \<Rightarrow> (Some e, fs)
      | None \<Rightarrow>
          (case we_create env p of
             Some e \<Rightarrow> denied file fs e ''create temporary replacement for ''
           | None \<Rightarrow>
               let (written, err) = streamTransferFile (we_sha env) file in
               (case err of
                  Some e \<Rightarrow> (Some e, fs)
                | None \<Rightarrow>
                    (case we_write env p of
                       Some e \<Rightarrow> (Some e, fs)
                     | None \<Rightarrow>
                         (case we_rename env p of
                            Some e \<Rightarrow> denied file fs e ''replace ''
                          | None \<Rightarrow> (None, AList.update p \<lparr>hf_contents = written, hf_mode = safeFileMode (tf_mode file)\<rparr> fs))))))"

definition stackDenied :: "write_env \<Rightarrow> transferFile \<Rightarrow> host_fs \<Rightarrow> fs_error \<Rightarrow> string \<Rightarrow> fs_error option \<times> host_fs" where
  "stackDenied env file fs e what =
     (if e = Permission then writeExistingStackFile env file fs else (Some (OtherFs (what @ tf_path file)), fs))"

definition repositoryDenied :: "transferFile \<Rightarrow> host_fs \<Rightarrow> fs_error \<Rightarrow> string \<Rightarrow> fs_error option \<times> host_fs" where
  "repositoryDenied file fs e what = (if what = ''replace '' then (Some (OtherFs (what @ tf_path file)), fs) else (Some e, fs))"

text \<open>The loop over the sorted files; it stops at the first error, with what was written so far.\<close>

fun writeFiles :: "(transferFile \<Rightarrow> host_fs \<Rightarrow> fs_error option \<times> host_fs) \<Rightarrow> transferFile list \<Rightarrow> host_fs \<Rightarrow> fs_error option \<times> host_fs" where
  "writeFiles write [] fs = (None, fs)"
| "writeFiles write (f # files) fs =
     (if tf_open f = None then writeFiles write files fs
      else (case write f fs of
          (Some e, fs1) \<Rightarrow> (Some e, fs1)
        | (None, fs1) \<Rightarrow> writeFiles write files fs1))"

definition writeStackFiles :: "write_env \<Rightarrow> host_fs \<Rightarrow> inventory \<Rightarrow> fs_error option \<times> host_fs" where
  "writeStackFiles env fs files = writeFiles (replaceFile env (stackDenied env)) (sortedTransferFiles files) fs"

definition writeRepositoryFiles :: "write_env \<Rightarrow> host_fs \<Rightarrow> inventory \<Rightarrow> fs_error option \<times> host_fs" where
  "writeRepositoryFiles env fs files = writeFiles (replaceFile env repositoryDenied) (sortedTransferFiles files) fs"

subsection \<open>Atomicity\<close>

text \<open>The content a file of the transfer has when it was streamed without error.\<close>

definition streamed :: "write_env \<Rightarrow> transferFile \<Rightarrow> string \<Rightarrow> bool" where
  "streamed env f contents \<longleftrightarrow> tf_open f = Some (Inr contents) \<and> int (length contents) = tf_size f \<and> we_sha env contents = tf_sha f"

lemma streamTransferFile_ok:
  "streamTransferFile sha f = (w, None) \<Longrightarrow> tf_open f = Some (Inr w) \<and> int (length w) = tf_size f \<and> sha w = tf_sha f"
  by (auto simp: streamTransferFile_def Let_def LimitReader_def split: option.splits sum.splits if_splits)

definition grantsAtomic :: "write_env \<Rightarrow> string \<Rightarrow> bool" where
  "grantsAtomic env p \<longleftrightarrow> we_create env p \<noteq> Some Permission \<and> we_rename env p \<noteq> Some Permission"

text \<open>One write touches its own path only; it succeeds with the streamed content, or leaves the old file.\<close>

definition writesOne :: "write_env \<Rightarrow> bool \<Rightarrow> transferFile \<Rightarrow> host_fs \<Rightarrow> fs_error option \<times> host_fs \<Rightarrow> bool" where
  "writesOne env atomic f fs r \<longleftrightarrow>
     (\<forall>q. q \<noteq> tf_path f \<longrightarrow> map_of (snd r) q = map_of fs q) \<and>
     (fst r = None \<longrightarrow> (\<exists>c m. streamed env f c \<and> map_of (snd r) (tf_path f) = Some \<lparr>hf_contents = c, hf_mode = m\<rparr>)) \<and>
     (fst r \<noteq> None \<and> atomic \<longrightarrow> map_of (snd r) (tf_path f) = map_of fs (tf_path f))"

lemma writesOne_fail: "writesOne env atomic f fs (Some e, fs)"
  by (simp add: writesOne_def)

lemma writeExistingStackFile_writes: "writesOne env False f fs (writeExistingStackFile env f fs)"
proof -
  obtain w e where w: "streamTransferFile (we_sha env) f = (w, e)" by (metis surj_pair)
  have "\<exists>m. old\<lparr>hf_contents := w\<rparr> = \<lparr>hf_contents = w, hf_mode = m\<rparr>" for old :: hostFile by (cases old) simp
  then show ?thesis
    using w streamTransferFile_ok[of "we_sha env" f w]
    by (cases e) (auto simp: writeExistingStackFile_def writesOne_def update_conv' streamed_def Let_def split: option.splits)
qed

lemma replaceFile_writes:
  assumes "\<And>e what. we_create env (tf_path f) = Some e \<or> we_rename env (tf_path f) = Some e \<Longrightarrow> writesOne env atomic f fs (denied f fs e what)"
  shows "writesOne env atomic f fs (replaceFile env denied f fs)"
proof -
  obtain w e where w: "streamTransferFile (we_sha env) f = (w, e)" by (metis surj_pair)
  have fine: "e = None \<Longrightarrow> writesOne env atomic f fs (None, AList.update (tf_path f) \<lparr>hf_contents = w, hf_mode = safeFileMode (tf_mode f)\<rparr> fs)"
    using w streamTransferFile_ok[of "we_sha env" f w] by (auto simp: writesOne_def update_conv' streamed_def)
  show ?thesis
    using assms fine by (simp add: replaceFile_def Let_def w writesOne_fail split: option.split)
qed

lemma stackDenied_writes:
  assumes "atomic \<Longrightarrow> e \<noteq> Permission"
  shows "writesOne env atomic f fs (stackDenied env f fs e what)"
  using assms writeExistingStackFile_writes[of env f fs] writesOne_fail by (auto simp: stackDenied_def writesOne_def)

lemma repositoryDenied_writes: "writesOne env atomic f fs (repositoryDenied f fs e what)"
  by (simp add: repositoryDenied_def writesOne_fail)

text \<open>A loop of such writes over distinct paths.\<close>

definition settledFile :: "write_env \<Rightarrow> host_fs \<Rightarrow> transferFile \<Rightarrow> bool" where
  "settledFile env fs f \<longleftrightarrow> (\<exists>c m. streamed env f c \<and> map_of fs (tf_path f) = Some \<lparr>hf_contents = c, hf_mode = m\<rparr>)"

lemma writeFiles_spec:
  assumes "\<And>f fs. f \<in> set files \<Longrightarrow> writesOne env (atomic (tf_path f)) f fs (write f fs)" "distinct (map tf_path files)"
    and "writeFiles write files fs = (err, fs1)"
  shows "(\<forall>q. q \<notin> tf_path ` set (filter (\<lambda>f. tf_open f \<noteq> None) files) \<longrightarrow> map_of fs1 q = map_of fs q) \<and>
    (err = None \<longrightarrow> (\<forall>f\<in>set files. tf_open f \<noteq> None \<longrightarrow> settledFile env fs1 f)) \<and>
    (\<forall>f\<in>set files. atomic (tf_path f) \<longrightarrow> settledFile env fs1 f \<or> map_of fs1 (tf_path f) = map_of fs (tf_path f))"
  using assms
proof (induction files arbitrary: fs)
  case (Cons f files)
  have later: "\<And>g gs. g \<in> set files \<Longrightarrow> writesOne env (atomic (tf_path g)) g gs (write g gs)" "distinct (map tf_path files)"
    and apart: "tf_path f \<notin> tf_path ` set files" using Cons.prems(1,2) by auto
  show ?case
  proof (cases "tf_open f = None")
    case True
    then have "writeFiles write files fs = (err, fs1)" using Cons.prems(3) by simp
    note ih = Cons.IH[OF later this]
    then have "map_of fs1 (tf_path f) = map_of fs (tf_path f)" using apart by auto
    then show ?thesis using ih True by auto
  next
    case False
    obtain e fs2 where w: "write f fs = (e, fs2)" by (metis surj_pair)
    have one: "writesOne env (atomic (tf_path f)) f fs (e, fs2)" using Cons.prems(1)[of f fs] w by simp
    show ?thesis
    proof (cases e)
      case None
      then have "writeFiles write files fs2 = (err, fs1)" using Cons.prems(3) False w by simp
      note ih = Cons.IH[OF later this]
      have kept: "map_of fs1 (tf_path f) = map_of fs2 (tf_path f)" using ih apart by auto
      then have "settledFile env fs1 f" using one None by (auto simp: writesOne_def settledFile_def)
      moreover have "map_of fs2 q = map_of fs q" if "q \<noteq> tf_path f" for q using one that by (simp add: writesOne_def)
      ultimately show ?thesis using ih False apart by (auto simp: settledFile_def) (metis (no_types, lifting) image_eqI)+
    next
      case (Some e')
      then have "err = Some e'" "fs1 = fs2" using Cons.prems(3) False w by simp_all
      moreover have "tf_path g \<noteq> tf_path f" if "g \<in> set files" for g using that apart by (metis image_eqI)
      ultimately show ?thesis using one Some False by (auto simp: writesOne_def)
    qed
  qed
qed simp

lemma sortedTransferFiles_set: "set (sortedTransferFiles files) = snd ` set files"
  by (simp add: sortedTransferFiles_def)

definition keyed :: "inventory \<Rightarrow> bool" where
  "keyed files \<longleftrightarrow> distinct (map fst files) \<and> (\<forall>(p, f)\<in>set files. tf_path f = p)"

lemma keyed_paths: "keyed files \<Longrightarrow> map tf_path (map snd files) = map fst files"
  by (auto simp: keyed_def)

lemma sortedTransferFiles_distinct: "keyed files \<Longrightarrow> distinct (map tf_path (sortedTransferFiles files))"
  unfolding sortedTransferFiles_def distinct_sort_key by (subst keyed_paths) (simp_all add: keyed_def)

lemma keyed_member: "keyed files \<Longrightarrow> (p, f) \<in> set files \<Longrightarrow> tf_path f = p"
  unfolding keyed_def by blast

lemma keyed_distinct: "keyed files \<Longrightarrow> distinct (map fst files)"
  unfolding keyed_def by blast

lemma keyed_found: "keyed files \<Longrightarrow> map_of files p = Some f \<Longrightarrow> tf_path f = p"
  by (rule keyed_member[OF _ map_of_SomeD])

lemma keyed_lookup:
  assumes "keyed files"
  shows "f \<in> snd ` set files \<longleftrightarrow> map_of files (tf_path f) = Some f"
proof
  assume "f \<in> snd ` set files"
  then obtain p where p: "(p, f) \<in> set files" by auto
  have "map_of files p = Some f" by (rule map_of_is_SomeI[OF keyed_distinct[OF assms] p])
  then show "map_of files (tf_path f) = Some f" unfolding keyed_member[OF assms p] .
next
  assume "map_of files (tf_path f) = Some f"
  then have "(tf_path f, f) \<in> set files" by (rule map_of_SomeD)
  then show "f \<in> snd ` set files" by (rule rev_image_eqI) simp
qed

lemma writeStackFiles_spec:
  assumes "keyed files" "writeStackFiles env fs files = (err, fs1)"
  shows "(\<forall>p. (\<forall>f. map_of files p = Some f \<longrightarrow> tf_open f = None) \<longrightarrow> map_of fs1 p = map_of fs p) \<and>
    (err = None \<longrightarrow> (\<forall>p f. map_of files p = Some f \<and> tf_open f \<noteq> None \<longrightarrow> settledFile env fs1 f)) \<and>
    (\<forall>p f. map_of files p = Some f \<and> grantsAtomic env p \<longrightarrow> settledFile env fs1 f \<or> map_of fs1 p = map_of fs p)"
proof -
  have "writesOne env (grantsAtomic env (tf_path f)) f fs (replaceFile env (stackDenied env) f fs)" for f fs
    by (intro replaceFile_writes stackDenied_writes) (auto simp: grantsAtomic_def)
  note spec = writeFiles_spec[of "sortedTransferFiles files" env "grantsAtomic env" "replaceFile env (stackDenied env)", OF this
      sortedTransferFiles_distinct[OF assms(1)] assms(2)[unfolded writeStackFiles_def]]
  have found: "f \<in> set (sortedTransferFiles files) \<and> tf_path f = p" if m: "map_of files p = Some f" for p f
  proof -
    have "tf_path f = p" by (rule keyed_found[OF assms(1) m])
    then show ?thesis using keyed_lookup[OF assms(1), of f] m by (simp add: sortedTransferFiles_set)
  qed
  have open_only: "p \<notin> tf_path ` set (filter (\<lambda>f. tf_open f \<noteq> None) (sortedTransferFiles files))"
    if closed: "\<forall>f. map_of files p = Some f \<longrightarrow> tf_open f = None" for p
  proof
    assume "p \<in> tf_path ` set (filter (\<lambda>f. tf_open f \<noteq> None) (sortedTransferFiles files))"
    then obtain f where "f \<in> snd ` set files" "tf_open f \<noteq> None" "p = tf_path f" by (auto simp: sortedTransferFiles_set)
    then show False using closed keyed_lookup[OF assms(1), of f] by simp
  qed
  show ?thesis
  proof (intro conjI allI impI)
    fix p assume "\<forall>f. map_of files p = Some f \<longrightarrow> tf_open f = None"
    from open_only[OF this] show "map_of fs1 p = map_of fs p" using spec by blast
  next
    fix p f assume "err = None" "map_of files p = Some f \<and> tf_open f \<noteq> None"
    then show "settledFile env fs1 f" using spec found[of p f] by blast
  next
    fix p f assume "map_of files p = Some f \<and> grantsAtomic env p"
    then show "settledFile env fs1 f \<or> map_of fs1 p = map_of fs p" using spec found[of p f] by metis
  qed
qed


definition plainWrites :: write_env where
  "plainWrites = \<lparr>we_sha = (\<lambda>s. s), we_mkdir = (\<lambda>_. None), we_create = (\<lambda>_. None), we_write = (\<lambda>_. None), we_rename = (\<lambda>_. None),
     we_special = (\<lambda>_. False), we_truncate = (\<lambda>_. None)\<rparr>"


end
