(* ===== verification/Sync_Backup.thy ===== *)
theory Sync_Backup
  imports Sync_Transfer Sql_Tables
begin

section \<open>Backups of a transfer and their restoration\<close>

text \<open>
  Models \<open>core/internal/gitsync/backup.go\<close>, \<open>backup_restore.go\<close> and \<open>deployment_rollback.go\<close>: the archive
  written before an import, its row and the retention of rows, the preview and the run of a restoration,
  and the rollback of one stack's files.  An archive is its manifest and its entries (tar, gzip and
  JSON are libraries); the backup directory is a map from archive paths to archives.
\<close>

record backupManifestFile =
  mf_Path :: string
  mf_BeforeSHA :: string
  mf_AfterSHA :: string
  mf_BeforeExists :: bool
  mf_AfterExists :: bool
  mf_BeforeMode :: int

record backupManifest =
  bm_Version :: int
  bm_BackupID :: string
  bm_BindingID :: string
  bm_RepositoryID :: string
  bm_Kind :: string
  bm_CreatedAt :: gotime
  bm_CommitSHA :: string
  bm_ComposePaths :: "string list"
  bm_Files :: "backupManifestFile list"

record GitBackup =
  gb_CreatedAt :: gotime
  gb_UUID :: string
  gb_RepositoryUUID :: string
  gb_BindingUUID :: string
  gb_Kind :: string
  gb_ComposePaths :: string
  gb_ArchivePath :: string
  gb_CommitSHA :: string
  gb_FileCount :: int
  gb_SizeBytes :: int
  gb_Restorable :: bool
  gb_ExpiresAt :: "gotime option"

record archiveEntry =
  ae_Name :: string
  ae_Regular :: bool
  ae_Mode :: int
  ae_Contents :: string

record backupArchive =
  ar_Manifest :: backupManifest
  ar_Entries :: "archiveEntry list"

record backup_state =
  bs_rows :: "GitBackup list"
  bs_archives :: "(string, backupArchive) gomap"

text \<open>The outside: hash, clock, fresh names, the backup directory and the database.\<close>

record backup_env =
  be_sha :: "string \<Rightarrow> string"
  be_rootError :: "string option"
  be_retentionDays :: int
  be_newID :: string
  be_archivePath :: string
  be_now :: gotime
  be_sizeOf :: "backupArchive \<Rightarrow> int"
  be_createFault :: "string option"
  be_saveFault :: "string option"
  be_listFault :: "string option"
  be_removeFault :: "string \<Rightarrow> string option"
  be_deleteFault :: "string \<Rightarrow> string option"

definition gitBackupRetention :: nat where "gitBackupRetention = 10"

definition backupManifestName :: string where
  "backupManifestName = ''.dockman-backup-manifest.json''"

definition uniqueComposePathsForFiles :: "StackBinding \<Rightarrow> backupManifestFile list \<Rightarrow> string list" where
  "uniqueComposePathsForFiles binding files =
     uniqueSortedStrings (concat (map (\<lambda>f. composePathsForFile (splitPatternLines (sb_ComposePaths binding)) (mf_Path f)) files))"

subsection \<open>Writing a backup\<close>

text \<open>What the manifest records of one source file; a file equal on both sides, or unreadable in the target, is left out.\<close>

definition backupRecord :: "inventory \<Rightarrow> transferFile \<Rightarrow> backupManifestFile option" where
  "backupRecord target f =
     (let record = \<lparr>mf_Path = tf_path f, mf_BeforeSHA = [], mf_AfterSHA = tf_sha f, mf_BeforeExists = False,
                    mf_AfterExists = (tf_open f \<noteq> None), mf_BeforeMode = 0\<rparr> in
      case map_of target (tf_path f) of
        None \<Rightarrow> Some record
      | Some t \<Rightarrow>
          if tf_open t = None \<or> tf_sha f = tf_sha t then None
          else Some (record\<lparr>mf_BeforeExists := True, mf_BeforeSHA := tf_sha t, mf_BeforeMode := safeFileMode (tf_mode t)\<rparr>))"

definition backupRecords :: "inventory \<Rightarrow> inventory \<Rightarrow> backupManifestFile list" where
  "backupRecords source target = List.map_filter (backupRecord target) (sortedTransferFiles source)"

text \<open>The entries of the archive: the old content of every recorded file that existed, streamed and verified.\<close>

fun archiveEntries :: "(string \<Rightarrow> string) \<Rightarrow> inventory \<Rightarrow> backupManifestFile list \<Rightarrow> fs_error + archiveEntry list" where
  "archiveEntries sha target [] = Inr []"
| "archiveEntries sha target (r # rs) =
     (if \<not> mf_BeforeExists r then archiveEntries sha target rs
      else (case map_of target (mf_Path r) of
          None \<Rightarrow> Inl (OtherFs ''nil reader'')
        | Some t \<Rightarrow>
            (case streamTransferFile sha t of
               (_, Some e) \<Rightarrow> Inl e
             | (w, None) \<Rightarrow>
                 (case archiveEntries sha target rs of
                    Inl e \<Rightarrow> Inl e
                  | Inr es \<Rightarrow> Inr (\<lparr>ae_Name = mf_Path r, ae_Regular = True, ae_Mode = safeFileMode (tf_mode t), ae_Contents = w\<rparr> # es)))))"

definition deleteRow :: "string \<Rightarrow> backup_state \<Rightarrow> backup_state" where
  "deleteRow key st = st\<lparr>bs_rows := delete_where (\<lambda>r. gb_UUID r = key) (bs_rows st)\<rparr>"

definition removeBackupArchive :: "backup_env \<Rightarrow> GitBackup \<Rightarrow> backup_state \<Rightarrow> string option \<times> backup_state" where
  "removeBackupArchive env row st =
     (case be_removeFault env (gb_ArchivePath row) of
        Some e \<Rightarrow> (Some e, st)
      | None \<Rightarrow> (None, st\<lparr>bs_archives := AList.delete (gb_ArchivePath row) (bs_archives st)\<rparr>))"

definition dropBackup :: "backup_env \<Rightarrow> GitBackup \<Rightarrow> backup_state \<Rightarrow> string option \<times> backup_state" where
  "dropBackup env row st =
     (case removeBackupArchive env row st of
        (Some e, st1) \<Rightarrow> (Some e, st1)
      | (None, st1) \<Rightarrow>
          (case be_deleteFault env (gb_UUID row) of
             Some e \<Rightarrow> (Some e, st1)
           | None \<Rightarrow> (None, deleteRow (gb_UUID row) st1)))"

definition ListBindingBackups :: "string \<Rightarrow> int \<Rightarrow> backup_state \<Rightarrow> GitBackup list" where
  "ListBindingBackups bindingID limit st =
     take (nat (if limit \<le> 0 \<or> limit > 200 then 50 else limit))
       (newest_first gb_CreatedAt (filter (\<lambda>r. gb_BindingUUID r = bindingID) (bs_rows st)))"

fun pruneLoop :: "backup_env \<Rightarrow> string list \<Rightarrow> nat \<Rightarrow> GitBackup list \<Rightarrow> backup_state \<Rightarrow> string option \<times> backup_state" where
  "pruneLoop env kept retained [] st = (None, st)"
| "pruneLoop env kept retained (row # rows) st =
     (let expired = (case gb_ExpiresAt row of Some t \<Rightarrow> t < be_now env | None \<Rightarrow> False) in
      if gb_UUID row \<in> set kept then pruneLoop env kept (Suc retained) rows st
      else if retained < gitBackupRetention \<and> \<not> expired then pruneLoop env kept (Suc retained) rows st
      else (case dropBackup env row st of
          (Some e, st1) \<Rightarrow> (Some e, st1)
        | (None, st1) \<Rightarrow> pruneLoop env kept retained rows st1))"

definition pruneManagedBackups :: "backup_env \<Rightarrow> string \<Rightarrow> string list \<Rightarrow> backup_state \<Rightarrow> string option \<times> backup_state" where
  "pruneManagedBackups env bindingID kept st =
     (case be_listFault env of
        Some e \<Rightarrow> (Some e, st)
      | None \<Rightarrow> pruneLoop env kept 0 (newest_first gb_CreatedAt (ListBindingBackups bindingID 200 st)) st)"

definition registerBackup :: "backup_env \<Rightarrow> StackBinding \<Rightarrow> string \<Rightarrow> string \<Rightarrow> backupArchive \<Rightarrow> string list \<Rightarrow> backup_state \<Rightarrow> (string + GitBackup) \<times> backup_state" where
  "registerBackup env binding kind commit archive kept st =
     (let manifest = ar_Manifest archive;
          row = \<lparr>gb_CreatedAt = be_now env, gb_UUID = be_newID env, gb_RepositoryUUID = sb_RepositoryUUID binding, gb_BindingUUID = sb_UUID binding,
                 gb_Kind = kind, gb_ComposePaths = Join (bm_ComposePaths manifest) [CHR 0x0A], gb_ArchivePath = be_archivePath env,
                 gb_CommitSHA = commit, gb_FileCount = int (length (bm_Files manifest)), gb_SizeBytes = be_sizeOf env archive,
                 gb_Restorable = (bm_Version manifest \<ge> 2), gb_ExpiresAt = Some (be_now env + be_retentionDays env * 24 * hour)\<rparr> in
      case be_saveFault env of
        Some e \<Rightarrow> (Inl e, st)
      | None \<Rightarrow>
          (case pruneManagedBackups env (sb_UUID binding) kept (st\<lparr>bs_rows := bs_rows st @ [row]\<rparr>) of
             (Some e, st1) \<Rightarrow> (Inl e, (case be_deleteFault env (gb_UUID row) of Some _ \<Rightarrow> st1 | None \<Rightarrow> deleteRow (gb_UUID row) st1))
           | (None, st1) \<Rightarrow> (Inr row, st1)))"

definition backupChangedFiles ::
  "backup_env \<Rightarrow> StackBinding \<Rightarrow> inventory \<Rightarrow> inventory \<Rightarrow> string \<Rightarrow> string \<Rightarrow> string list \<Rightarrow> backup_state \<Rightarrow> (string + string) \<times> backup_state" where
  "backupChangedFiles env binding source target kind commit kept st =
     (case be_rootError env of
        Some e \<Rightarrow> (Inl e, st)
      | None \<Rightarrow>
          (case be_createFault env of
             Some e \<Rightarrow> (Inl e, st)
           | None \<Rightarrow>
               let records = backupRecords source target;
                   manifest = \<lparr>bm_Version = 2, bm_BackupID = be_newID env, bm_BindingID = sb_UUID binding, bm_RepositoryID = sb_RepositoryUUID binding,
                               bm_Kind = kind, bm_CreatedAt = be_now env, bm_CommitSHA = commit,
                               bm_ComposePaths = uniqueComposePathsForFiles binding records, bm_Files = records\<rparr> in
               (case archiveEntries (be_sha env) target records of
                  Inl _ \<Rightarrow> (Inl ''write stack backup'', st)
                | Inr entries \<Rightarrow>
                    let archive = \<lparr>ar_Manifest = manifest, ar_Entries = entries\<rparr> in
                    (case registerBackup env binding kind commit archive kept (st\<lparr>bs_archives := AList.update (be_archivePath env) archive (bs_archives st)\<rparr>) of
                       (Inl e, st1) \<Rightarrow> (Inl (''register stack backup: '' @ e), st1\<lparr>bs_archives := AList.delete (be_archivePath env) (bs_archives st1)\<rparr>)
                     | (Inr row, st1) \<Rightarrow> (Inr (gb_UUID row), st1)))))"

subsection \<open>Finding a backup\<close>

definition authorizedBackup :: "(string \<Rightarrow> bool) \<Rightarrow> string \<Rightarrow> string \<Rightarrow> backup_state \<Rightarrow> string + GitBackup" where
  "authorizedBackup isUUID bindingID backupID st =
     (if \<not> isUUID backupID then Inl ''invalid backup identifier''
      else (case first_row gb_UUID backupID (bs_rows st) of
          None \<Rightarrow> Inl ''record not found''
        | Some row \<Rightarrow> if gb_BindingUUID row \<noteq> bindingID then Inl ''record not found'' else Inr row))"

definition openArchive :: "GitBackup \<Rightarrow> backup_state \<Rightarrow> string + backupArchive" where
  "openArchive row st = (case map_of (bs_archives st) (gb_ArchivePath row) of None \<Rightarrow> Inl ''file does not exist'' | Some a \<Rightarrow> Inr a)"

definition loadBackupManifest :: "GitBackup \<Rightarrow> backup_state \<Rightarrow> string + backupManifest" where
  "loadBackupManifest row st = (case openArchive row st of Inl e \<Rightarrow> Inl e | Inr a \<Rightarrow> Inr (ar_Manifest a))"

definition validateBackupManifest :: "backupManifest \<Rightarrow> GitBackup \<Rightarrow> string option" where
  "validateBackupManifest m row =
     (if bm_Version m < 2 \<or> bm_BackupID m \<noteq> gb_UUID row \<or> bm_BindingID m \<noteq> gb_BindingUUID row
        then Some ''backup is not eligible for safe automatic restoration''
      else if bm_Files m = [] \<or> int (length (bm_Files m)) > maxBindingFiles then Some ''invalid backup file inventory''
      else (case List.map_filter (\<lambda>f. validateRelativePath (mf_Path f) False) (bm_Files m) of
          e # _ \<Rightarrow> Some (''invalid backup path: '' @ e)
        | [] \<Rightarrow> None))"

definition DeleteBackup :: "backup_env \<Rightarrow> (string \<Rightarrow> bool) \<Rightarrow> string \<Rightarrow> string \<Rightarrow> backup_state \<Rightarrow> string option \<times> backup_state" where
  "DeleteBackup env isUUID bindingID backupID st =
     (case authorizedBackup isUUID bindingID backupID st of
        Inl e \<Rightarrow> (Some e, st)
      | Inr row \<Rightarrow> dropBackup env row st)"

fun pruneExpiredLoop :: "backup_env \<Rightarrow> GitBackup list \<Rightarrow> backup_state \<Rightarrow> string option \<times> backup_state" where
  "pruneExpiredLoop env [] st = (None, st)"
| "pruneExpiredLoop env (row # rows) st =
     (case dropBackup env row st of
        (Some e, st1) \<Rightarrow> (Some e, st1)
      | (None, st1) \<Rightarrow> pruneExpiredLoop env rows st1)"

definition pruneExpiredBackups :: "backup_env \<Rightarrow> backup_state \<Rightarrow> string option \<times> backup_state" where
  "pruneExpiredBackups env st =
     (case be_listFault env of
        Some e \<Rightarrow> (Some e, st)
      | None \<Rightarrow> pruneExpiredLoop env (sort_key gb_CreatedAt (filter (\<lambda>r. case gb_ExpiresAt r of Some t \<Rightarrow> t < be_now env | None \<Rightarrow> False) (bs_rows st))) st)"

subsection \<open>Previewing a restoration\<close>

record BackupRestoreEntry =
  re_Path :: string
  re_Action :: string
  re_BeforeSHA :: string
  re_AfterSHA :: string
  re_CurrentSHA :: string
  re_Reason :: string

text \<open>The host directory as the restoration sees it: its files, and the paths that cannot be read or are not regular files.\<close>

record restore_env =
  rv_sha :: "string \<Rightarrow> string"
  rv_token :: "string \<Rightarrow> BackupRestoreEntry list \<Rightarrow> string"
  rv_statError :: "string \<Rightarrow> string option"
  rv_special :: "string \<Rightarrow> bool"
  rv_writes :: write_env
  rv_removeAll :: "string \<Rightarrow> fs_error option"

definition currentBackupFile :: "restore_env \<Rightarrow> host_fs \<Rightarrow> string \<Rightarrow> string + transferFile option" where
  "currentBackupFile env fs p =
     (case rv_statError env p of
        Some e \<Rightarrow> Inl e
      | None \<Rightarrow>
          if rv_special env p then Inl ''current backup target is not a supported regular file''
          else (case map_of fs p of
              None \<Rightarrow> Inr None
            | Some h \<Rightarrow>
                if int (length (hf_contents h)) > maxBindingFileSize then Inl ''current backup target is not a supported regular file''
                else Inr (Some \<lparr>tf_path = p, tf_mode = hf_mode h, tf_size = int (length (hf_contents h)), tf_sha = rv_sha env (hf_contents h),
                  tf_sensitive = False, tf_skipReason = [], tf_directory = False, tf_open = Some (Inr (hf_contents h))\<rparr>)))"

definition restoreAction :: "backupManifestFile \<Rightarrow> transferFile option \<Rightarrow> string \<times> string" where
  "restoreAction r current =
     (case current of
        Some f \<Rightarrow>
          if mf_BeforeExists r \<and> tf_sha f = mf_BeforeSHA r then (''noop'', [])
          else if mf_AfterExists r \<and> tf_sha f = mf_AfterSHA r \<and> mf_BeforeExists r then (''restore'', [])
          else if mf_AfterExists r \<and> tf_sha f = mf_AfterSHA r \<and> \<not> mf_BeforeExists r then (''remove'', [])
          else (''conflict'', ''the current file changed after this backup'')
      | None \<Rightarrow>
          if mf_BeforeExists r \<and> \<not> mf_AfterExists r then (''restore'', [])
          else if mf_BeforeExists r \<and> mf_AfterExists r then (''conflict'', ''the synchronized file is now missing'')
          else (''noop'', []))"

definition restoreEntry :: "restore_env \<Rightarrow> host_fs \<Rightarrow> backupManifestFile \<Rightarrow> BackupRestoreEntry" where
  "restoreEntry env fs r =
     (let entry = \<lparr>re_Path = mf_Path r, re_Action = [], re_BeforeSHA = mf_BeforeSHA r, re_AfterSHA = mf_AfterSHA r, re_CurrentSHA = [], re_Reason = []\<rparr> in
      case currentBackupFile env fs (mf_Path r) of
        Inl e \<Rightarrow> entry\<lparr>re_Action := ''conflict'', re_Reason := e\<rparr>
      | Inr current \<Rightarrow>
          entry\<lparr>re_CurrentSHA := (case current of Some f \<Rightarrow> tf_sha f | None \<Rightarrow> []),
                re_Action := fst (restoreAction r current), re_Reason := snd (restoreAction r current)\<rparr>)"

definition restorable :: "BackupRestoreEntry \<Rightarrow> bool" where
  "restorable e \<longleftrightarrow> re_Action e = ''restore'' \<or> re_Action e = ''remove''"

definition PreviewBackupRestore :: "restore_env \<Rightarrow> (string \<Rightarrow> bool) \<Rightarrow> host_fs \<Rightarrow> string \<Rightarrow> string \<Rightarrow> backup_state \<Rightarrow>
   string + BackupRestoreEntry list \<times> string" where
  "PreviewBackupRestore env isUUID fs bindingID backupID st =
     (case authorizedBackup isUUID bindingID backupID st of
        Inl e \<Rightarrow> Inl e
      | Inr row \<Rightarrow>
          if \<not> gb_Restorable row then Inl ''this legacy backup can be downloaded but cannot be restored automatically''
          else (case loadBackupManifest row st of
              Inl e \<Rightarrow> Inl e
            | Inr m \<Rightarrow>
                (case validateBackupManifest m row of
                   Some e \<Rightarrow> Inl e
                 | None \<Rightarrow> let entries = map (restoreEntry env fs) (bm_Files m) in Inr (entries, rv_token env (gb_UUID row) entries))))"

subsection \<open>Applying an archive\<close>

type_synonym actions = "(string, BackupRestoreEntry) gomap"

definition actionAt :: "actions \<Rightarrow> string \<Rightarrow> string" where
  "actionAt acts p = (case map_of acts p of Some e \<Rightarrow> re_Action e | None \<Rightarrow> [])"

definition beforeAt :: "actions \<Rightarrow> string \<Rightarrow> string" where
  "beforeAt acts p = (case map_of acts p of Some e \<Rightarrow> re_BeforeSHA e | None \<Rightarrow> [])"

definition restoreMode :: "int \<Rightarrow> int" where
  "restoreMode mode = (let m = mode mod 512 in if m = 0 then 384 else m)"

definition restoreFile :: "restore_env \<Rightarrow> actions \<Rightarrow> string \<Rightarrow> archiveEntry \<Rightarrow> host_fs \<Rightarrow> fs_error option \<times> host_fs" where
  "restoreFile env acts p entry fs =
     (let w = rv_writes env in
      case we_mkdir w (path_dir p) of
        Some e \<Rightarrow> (Some e, fs)
      | None \<Rightarrow>
          (case we_create w p of
             Some e \<Rightarrow> (Some e, fs)
           | None \<Rightarrow>
               (case we_write w p of
                  Some e \<Rightarrow> (Some e, fs)
                | None \<Rightarrow>
                    if rv_sha env (ae_Contents entry) \<noteq> beforeAt acts p then (Some (OtherFs (''backup content for '' @ p @ '' failed its integrity check'')), fs)
                    else (case we_rename w p of
                        Some _ \<Rightarrow> (Some (OtherFs (''replace '' @ p)), fs)
                      | None \<Rightarrow> (None, AList.update p \<lparr>hf_contents = ae_Contents entry, hf_mode = restoreMode (ae_Mode entry)\<rparr> fs)))))"

fun restoreEntries :: "restore_env \<Rightarrow> string list \<Rightarrow> actions \<Rightarrow> int \<Rightarrow> archiveEntry list \<Rightarrow> string list \<Rightarrow> host_fs \<Rightarrow>
   fs_error option \<times> string list \<times> host_fs" where
  "restoreEntries env selected acts bytes [] restored fs = (None, restored, fs)"
| "restoreEntries env selected acts bytes (entry # entries) restored fs =
     (let p = path_clean (ae_Name entry); n = int (length (ae_Contents entry)) in
      if p = backupManifestName then restoreEntries env selected acts bytes entries restored fs
      else if validateRelativePath p False \<noteq> None \<or> \<not> ae_Regular entry then (Some (OtherFs ''backup archive contains an unsafe entry''), restored, fs)
      else if p \<notin> set selected \<or> actionAt acts p \<noteq> ''restore'' then restoreEntries env selected acts bytes entries restored fs
      else if n > maxBindingFileSize then (Some (OtherFs ''backup archive entry exceeds the safe restore limit''), restored, fs)
      else if bytes + n > maxBindingTotalSize then (Some (OtherFs ''selected backup content exceeds the safe restore total-size limit''), restored, fs)
      else (case restoreFile env acts p entry fs of
          (Some e, fs1) \<Rightarrow> (Some e, restored, fs1)
        | (None, fs1) \<Rightarrow> restoreEntries env selected acts (bytes + n) entries (restored @ [p]) fs1))"

fun removeSelected :: "restore_env \<Rightarrow> actions \<Rightarrow> string list \<Rightarrow> string list \<Rightarrow> host_fs \<Rightarrow> fs_error option \<times> host_fs" where
  "removeSelected env acts restored [] fs = (None, fs)"
| "removeSelected env acts restored (p # ps) fs =
     (if actionAt acts p = ''restore'' then
        (if p \<notin> set restored then (Some (OtherFs (''backup content for '' @ p @ '' is missing'')), fs)
         else removeSelected env acts restored ps fs)
      else if actionAt acts p = ''remove'' then
        (case rv_removeAll env p of
           Some e \<Rightarrow> (Some e, fs)
         | None \<Rightarrow> removeSelected env acts restored ps (AList.delete p fs))
      else removeSelected env acts restored ps fs)"

definition applyBackupArchive :: "restore_env \<Rightarrow> backupArchive \<Rightarrow> string list \<Rightarrow> actions \<Rightarrow> host_fs \<Rightarrow> fs_error option \<times> host_fs" where
  "applyBackupArchive env archive selected acts fs =
     (case restoreEntries env selected acts 0 (ar_Entries archive) [] fs of
        (Some e, _, fs1) \<Rightarrow> (Some e, fs1)
      | (None, restored, fs1) \<Rightarrow> removeSelected env acts restored selected fs1)"

subsection \<open>Restoring\<close>

text \<open>
  The run of a restoration.  \<^verbatim>\<open>fs0\<close> is the directory when the restoration is asked for, \<^verbatim>\<open>fs\<close> what it is once the
  two locks are held; the stacks paused for recovery are part of the answer.  The messages, the activity record and the
  refresh of the Compose catalogue after the restoration are left out.
\<close>

record restore_input =
  ri_PreviewToken :: string
  ri_SelectedPaths :: "string list"

record restore_world =
  rw_automationFree :: bool
  rw_repositoryFree :: bool
  rw_dirtyEditor :: "string list \<Rightarrow> bool"
  rw_pauseFault :: "string \<Rightarrow> string option"
  rw_statusFault :: "string option"

record restore_result =
  rr_SafetyBackupID :: string
  rr_RestoredPaths :: "string list"

definition selectedRestorePaths :: "BackupRestoreEntry list \<Rightarrow> string list \<Rightarrow> string + string list" where
  "selectedRestorePaths entries chosen =
     (if chosen = [] then Inr (remdups (map re_Path (filter restorable entries)))
      else (case List.map_filter (\<lambda>p. validateRelativePath (cleanCandidate p) False) chosen of
          e # _ \<Rightarrow> Inl e
        | [] \<Rightarrow> Inr (remdups (map cleanCandidate chosen))))"

definition allowedActions :: "BackupRestoreEntry list \<Rightarrow> actions" where
  "allowedActions entries = foldl (\<lambda>m e. AList.update (re_Path e) e m) [] (filter restorable entries)"

definition notAllowed :: "string list \<Rightarrow> actions \<Rightarrow> string option" where
  "notAllowed selected acts =
     (case filter (\<lambda>p. map_of acts p = None) selected of p # _ \<Rightarrow> Some (p @ '' is no longer safely restorable'') | [] \<Rightarrow> None)"

definition desiredFile :: "backupManifestFile \<Rightarrow> transferFile" where
  "desiredFile r =
     (if mf_BeforeExists r then (skippedFile (mf_Path r) [])\<lparr>tf_sha := mf_BeforeSHA r, tf_mode := mf_BeforeMode r, tf_open := Some (Inr [])\<rparr>
      else skippedFile (mf_Path r) [])"

fun currentFiles :: "restore_env \<Rightarrow> host_fs \<Rightarrow> backupManifestFile list \<Rightarrow> string + inventory \<times> inventory" where
  "currentFiles env fs [] = Inr ([], [])"
| "currentFiles env fs (r # rs) =
     (case currentBackupFile env fs (mf_Path r) of
        Inl e \<Rightarrow> Inl e
      | Inr current \<Rightarrow>
          (case currentFiles env fs rs of
             Inl e \<Rightarrow> Inl e
           | Inr (desired, found) \<Rightarrow>
               Inr ((mf_Path r, desiredFile r) # desired, (case current of Some f \<Rightarrow> (mf_Path r, f) # found | None \<Rightarrow> found))))"

fun pauseStacks :: "restore_world \<Rightarrow> string list \<Rightarrow> string list \<Rightarrow> string option \<times> string list" where
  "pauseStacks w [] paused = (None, paused)"
| "pauseStacks w (c # cs) paused =
     (case rw_pauseFault w c of Some e \<Rightarrow> (Some e, paused) | None \<Rightarrow> pauseStacks w cs (paused @ [c]))"

definition affectedStacks :: "backupManifest \<Rightarrow> string list \<Rightarrow> string list" where
  "affectedStacks m selected = sort (remdups (concat (map (composePathsForFile (bm_ComposePaths m)) selected)))"

definition restoreLocked ::
  "backup_env \<Rightarrow> restore_env \<Rightarrow> restore_world \<Rightarrow> StackBinding \<Rightarrow> GitBackup \<Rightarrow> backupArchive \<Rightarrow> string list \<Rightarrow> actions \<Rightarrow> host_fs \<Rightarrow> backup_state \<Rightarrow>
   (string + restore_result) \<times> host_fs \<times> backup_state \<times> string list" where
  "restoreLocked benv env w binding row archive selected acts fs st =
     (let m = ar_Manifest archive in
      if rw_dirtyEditor w (bm_ComposePaths m) then (Inl ''backup restore refused while an affected stack has an unsaved editor'', fs, st, [])
      else (case currentFiles env fs (filter (\<lambda>r. mf_Path r \<in> set selected) (bm_Files m)) of
          Inl e \<Rightarrow> (Inl e, fs, st, [])
        | Inr (desired, current) \<Rightarrow>
            (case backupChangedFiles benv binding desired current ''pre_restore'' (gb_CommitSHA row) [gb_UUID row] st of
               (Inl e, st1) \<Rightarrow> (Inl (''create restore safety backup: '' @ e), fs, st1, [])
             | (Inr safety, st1) \<Rightarrow>
                 (case pauseStacks w (affectedStacks m selected) [] of
                    (Some e, paused) \<Rightarrow> (Inl (''pause stack automation before restore: '' @ e), fs, st1, paused)
                  | (None, paused) \<Rightarrow>
                      (case openArchive row st1 of
                         Inl e \<Rightarrow> (Inl e, fs, st1, paused)
                       | Inr kept \<Rightarrow>
                           (case applyBackupArchive env kept selected acts fs of
                              (Some _, fs1) \<Rightarrow> (Inl ''restore failed'', fs1, st1, paused)
                            | (None, fs1) \<Rightarrow>
                                (case rw_statusFault w of
                                   Some e \<Rightarrow> (Inl (''record restored stack state: '' @ e), fs1, st1, paused)
                                 | None \<Rightarrow> (Inr \<lparr>rr_SafetyBackupID = safety, rr_RestoredPaths = sort selected\<rparr>, fs1, st1, paused))))))))"

definition RestoreBackup ::
  "backup_env \<Rightarrow> restore_env \<Rightarrow> restore_world \<Rightarrow> (string \<Rightarrow> bool) \<Rightarrow> StackBinding \<Rightarrow> string \<Rightarrow> restore_input \<Rightarrow> host_fs \<Rightarrow> host_fs \<Rightarrow> backup_state \<Rightarrow>
   (string + restore_result) \<times> host_fs \<times> backup_state \<times> string list" where
  "RestoreBackup benv env w isUUID binding backupID input fs0 fs st =
     (let refuse = (\<lambda>e. (Inl e, fs, st, [])) in
      case PreviewBackupRestore env isUUID fs0 (sb_UUID binding) backupID st of
        Inl e \<Rightarrow> refuse e
      | Inr (entries, token) \<Rightarrow>
          if ri_PreviewToken input = [] \<or> ri_PreviewToken input \<noteq> token then refuse ''backup restore preview changed; review it again''
          else (case selectedRestorePaths entries (ri_SelectedPaths input) of
              Inl e \<Rightarrow> refuse e
            | Inr selected \<Rightarrow>
                (case notAllowed selected (allowedActions entries) of
                   Some e \<Rightarrow> refuse e
                 | None \<Rightarrow>
                     if selected = [] then refuse ''no safely restorable file was selected''
                     else (case authorizedBackup isUUID (sb_UUID binding) backupID st of
                         Inl e \<Rightarrow> refuse e
                       | Inr row \<Rightarrow>
                     (case openArchive row st of
                        Inl e \<Rightarrow> refuse e
                      | Inr archive \<Rightarrow>
                     if \<not> rw_automationFree w
                       then refuse ''automatic synchronization is still running for this Folder Link; pause its automation if you need to restore now''
                     else if \<not> rw_repositoryFree w then refuse ''a Git operation is still running on this repository; retry in a moment''
                     else (case PreviewBackupRestore env isUUID fs (sb_UUID binding) backupID st of
                         Inl e \<Rightarrow> refuse e
                       | Inr (locked, lockedToken) \<Rightarrow>
                           if lockedToken \<noteq> ri_PreviewToken input then refuse ''stack files changed after the restore preview; review the backup again''
                           else (case notAllowed selected (allowedActions locked) of
                               Some e \<Rightarrow> refuse e
                             | None \<Rightarrow> restoreLocked benv env w binding row archive selected (allowedActions locked) fs st)))))))"

subsection \<open>Rolling back one stack's files\<close>

definition deploymentHadPreviousCompose :: "(string \<Rightarrow> bool) \<Rightarrow> string \<Rightarrow> string \<Rightarrow> string \<Rightarrow> backup_state \<Rightarrow> string + bool" where
  "deploymentHadPreviousCompose isUUID bindingID backupID composePath st =
     (if backupID = [] then Inl ''no pre-import backup is available for automatic rollback''
      else (case authorizedBackup isUUID bindingID backupID st of
          Inl e \<Rightarrow> Inl e
        | Inr row \<Rightarrow>
            if gb_Kind row \<noteq> ''pre_import'' \<or> \<not> gb_Restorable row then Inl ''the deployment backup is not eligible for automatic rollback''
            else (case loadBackupManifest row st of
                Inl e \<Rightarrow> Inl e
              | Inr m \<Rightarrow>
                  (case validateBackupManifest m row of
                     Some e \<Rightarrow> Inl e
                   | None \<Rightarrow> (case find (\<lambda>r. mf_Path r = composePath) (bm_Files m) of
                         Some r \<Rightarrow> Inr (mf_BeforeExists r)
                       | None \<Rightarrow> Inr True)))))"

definition rollbackAction :: "backupManifestFile \<Rightarrow> transferFile option \<Rightarrow> string option" where
  "rollbackAction r current =
     (case current of
        Some f \<Rightarrow>
          if mf_BeforeExists r \<and> mf_AfterExists r \<and> tf_sha f = mf_BeforeSHA r then Some ''noop''
          else if mf_BeforeExists r \<and> mf_AfterExists r \<and> tf_sha f = mf_AfterSHA r then Some ''restore''
          else if \<not> mf_BeforeExists r \<and> mf_AfterExists r \<and> tf_sha f = mf_AfterSHA r then Some ''remove''
          else None
      | None \<Rightarrow>
          if mf_BeforeExists r \<and> \<not> mf_AfterExists r then Some ''restore''
          else if \<not> mf_BeforeExists r then Some ''noop''
          else None)"

fun rollbackPlan :: "restore_env \<Rightarrow> host_fs \<Rightarrow> backupManifestFile list \<Rightarrow> string + actions \<times> (string, string option) gomap" where
  "rollbackPlan env fs [] = Inr ([], [])"
| "rollbackPlan env fs (r # rs) =
     (case currentBackupFile env fs (mf_Path r) of
        Inl e \<Rightarrow> Inl (''verify '' @ mf_Path r @ '' before automatic rollback: '' @ e)
      | Inr current \<Rightarrow>
          (case rollbackAction r current of
             None \<Rightarrow> Inl (mf_Path r @ '' changed after import; automatic rollback was refused'')
           | Some action \<Rightarrow>
               (case rollbackPlan env fs rs of
                  Inl e \<Rightarrow> Inl e
                | Inr (acts, before) \<Rightarrow>
                    let entry = \<lparr>re_Path = mf_Path r, re_Action = action, re_BeforeSHA = mf_BeforeSHA r, re_AfterSHA = mf_AfterSHA r,
                                 re_CurrentSHA = [], re_Reason = []\<rparr>
                    in Inr (if restorable entry then (mf_Path r, entry) # acts else acts,
                            (mf_Path r, if mf_BeforeExists r then Some (mf_BeforeSHA r) else None) # before))))"

definition rolledBaseline :: "(string, string option) gomap \<Rightarrow> baseline \<Rightarrow> baseline" where
  "rolledBaseline before base =
     foldl (\<lambda>b (p, sha). case sha of None \<Rightarrow> AList.delete p b | Some s \<Rightarrow> AList.update p s b) base before"

record rollback_faults =
  rf_baseline :: "string + baseline"
  rf_replace :: "string option"

definition rollbackDeploymentFiles ::
  "restore_env \<Rightarrow> restore_world \<Rightarrow> rollback_faults \<Rightarrow> (string \<Rightarrow> bool) \<Rightarrow> string \<Rightarrow> string \<Rightarrow> string \<Rightarrow> host_fs \<Rightarrow> backup_state \<Rightarrow>
   (string + string list) \<times> host_fs \<times> baseline option" where
  "rollbackDeploymentFiles env w faults isUUID bindingID backupID composePath fs st =
     (let refuse = (\<lambda>e. (Inl e, fs, None)) in
      if backupID = [] then refuse ''no pre-import backup is available for automatic rollback''
      else (case authorizedBackup isUUID bindingID backupID st of
          Inl e \<Rightarrow> refuse e
        | Inr row \<Rightarrow>
            if gb_Kind row \<noteq> ''pre_import'' \<or> \<not> gb_Restorable row then refuse ''the deployment backup is not eligible for automatic rollback''
            else (case openArchive row st of
                Inl e \<Rightarrow> refuse e
              | Inr archive \<Rightarrow>
                  let m = ar_Manifest archive in
                  (case validateBackupManifest m row of
                     Some e \<Rightarrow> refuse e
                   | None \<Rightarrow>
                       if rw_dirtyEditor w [composePath] then refuse ''automatic rollback refused while the failed stack has an unsaved editor''
                       else (case rollbackPlan env fs (filter (\<lambda>r. composePath \<in> set (composePathsForFile (bm_ComposePaths m) (mf_Path r))) (bm_Files m)) of
                           Inl e \<Rightarrow> refuse e
                         | Inr (acts, before) \<Rightarrow>
                             if before = [] then refuse ''the pre-import backup contains no file for this stack''
                             else (case (if acts = [] then (None, fs) else applyBackupArchive env archive (map fst acts) acts fs) of
                                 (Some _, fs1) \<Rightarrow> (Inl ''rollback failed'', fs1, None)
                               | (None, fs1) \<Rightarrow>
                                   (case rf_baseline faults of
                                      Inl e \<Rightarrow> (Inl e, fs1, None)
                                    | Inr base \<Rightarrow>
                                        (case rf_replace faults of
                                           Some e \<Rightarrow> (Inl (''restore synchronization baseline after deployment rollback: '' @ e), fs1, None)
                                         | None \<Rightarrow> (Inr (sort (map fst before)), fs1, Some (rolledBaseline before base))))))))))"

end
