(* ===== verification/Sync_Backup_Laws.thy ===== *)
theory Sync_Backup_Laws
  imports Sync_Backup
begin

section \<open>A restoration undoes an import\<close>

definition contentsAt :: "host_fs \<Rightarrow> string \<Rightarrow> string option" where
  "contentsAt fs p = map_option hf_contents (map_of fs p)"

text \<open>A host on which no call fails, and the paths and sizes a transfer deals with.\<close>

definition quietHost :: "restore_env \<Rightarrow> bool" where
  "quietHost env \<longleftrightarrow> (\<forall>p. rv_statError env p = None \<and> \<not> rv_special env p \<and> rv_removeAll env p = None \<and>
     we_mkdir (rv_writes env) p = None \<and> we_create (rv_writes env) p = None \<and> we_write (rv_writes env) p = None \<and> we_rename (rv_writes env) p = None)"

definition transferPath :: "string \<Rightarrow> bool" where
  "transferPath p \<longleftrightarrow> validateRelativePath p False = None \<and> path_clean p = p \<and> p \<noteq> backupManifestName"

text \<open>The inventory of the target shows what the host has at the paths of the transfer.\<close>

definition sees :: "(string \<Rightarrow> string) \<Rightarrow> host_fs \<Rightarrow> inventory \<Rightarrow> string \<Rightarrow> bool" where
  "sees sha fs target p \<longleftrightarrow>
     (case map_of target p of
        None \<Rightarrow> map_of fs p = None
      | Some t \<Rightarrow> (\<exists>h. map_of fs p = Some h \<and> tf_path t = p \<and> tf_open t = Some (Inr (hf_contents h)) \<and> tf_size t = int (length (hf_contents h)) \<and>
          tf_sha t = sha (hf_contents h)))"

subsection \<open>Entries and actions\<close>

lemma restoreFile_quiet:
  "quietHost env \<Longrightarrow> rv_sha env (ae_Contents entry) = beforeAt acts p \<Longrightarrow>
   restoreFile env acts p entry fs = (None, AList.update p \<lparr>hf_contents = ae_Contents entry, hf_mode = restoreMode (ae_Mode entry)\<rparr> fs)"
  by (simp add: restoreFile_def quietHost_def Let_def)

definition readyEntry :: "restore_env \<Rightarrow> string list \<Rightarrow> actions \<Rightarrow> archiveEntry \<Rightarrow> bool" where
  "readyEntry env selected acts en \<longleftrightarrow> transferPath (ae_Name en) \<and> ae_Regular en \<and> ae_Name en \<in> set selected \<and> actionAt acts (ae_Name en) = ''restore'' \<and>
     int (length (ae_Contents en)) \<le> maxBindingFileSize \<and> beforeAt acts (ae_Name en) = rv_sha env (ae_Contents en)"

definition entryBytes :: "archiveEntry list \<Rightarrow> int" where
  "entryBytes entries = (\<Sum>en\<leftarrow>entries. int (length (ae_Contents en)))"

lemma entryBytes_simps [simp]: "entryBytes [] = 0" "entryBytes (en # es) = int (length (ae_Contents en)) + entryBytes es"
  by (simp_all add: entryBytes_def)

lemma entryBytes_nonneg: "entryBytes es \<ge> 0"
  by (induction es) simp_all

lemma restoreEntries_quiet:
  assumes "quietHost env" "\<And>en. en \<in> set entries \<Longrightarrow> readyEntry env selected acts en" "bytes + entryBytes entries \<le> maxBindingTotalSize"
    "distinct (map ae_Name entries)"
  shows "\<exists>fs1. restoreEntries env selected acts bytes entries restored fs = (None, restored @ map ae_Name entries, fs1) \<and>
    (\<forall>q. contentsAt fs1 q = (case map_of (map (\<lambda>en. (ae_Name en, ae_Contents en)) entries) q of Some c \<Rightarrow> Some c | None \<Rightarrow> contentsAt fs q))"
  using assms
proof (induction entries arbitrary: bytes restored fs)
  case (Cons en entries)
  let ?fs = "AList.update (ae_Name en) \<lparr>hf_contents = ae_Contents en, hf_mode = restoreMode (ae_Mode en)\<rparr> fs"
  have r: "readyEntry env selected acts en" using Cons.prems(2) by simp
  then have clean: "path_clean (ae_Name en) = ae_Name en" by (simp add: readyEntry_def transferPath_def)
  have room: "bytes + int (length (ae_Contents en)) \<le> maxBindingTotalSize"
    using Cons.prems(3) entryBytes_nonneg[of entries] by simp
  have wr: "restoreFile env acts (ae_Name en) en fs = (None, ?fs)"
    using r Cons.prems(1) by (intro restoreFile_quiet) (simp_all add: readyEntry_def)
  have here: "restoreEntries env selected acts bytes (en # entries) restored fs =
      restoreEntries env selected acts (bytes + int (length (ae_Contents en))) entries (restored @ [ae_Name en]) ?fs"
    using r room wr by (simp add: Let_def clean readyEntry_def transferPath_def)
  obtain fs1 where ih: "restoreEntries env selected acts (bytes + int (length (ae_Contents en))) entries (restored @ [ae_Name en]) ?fs =
        (None, (restored @ [ae_Name en]) @ map ae_Name entries, fs1)"
      "\<And>q. contentsAt fs1 q = (case map_of (map (\<lambda>en. (ae_Name en, ae_Contents en)) entries) q of Some c \<Rightarrow> Some c | None \<Rightarrow> contentsAt ?fs q)"
    using Cons.IH[of "bytes + int (length (ae_Contents en))" "restored @ [ae_Name en]" ?fs] Cons.prems by (auto simp: add.assoc)
  have "map_of (map (\<lambda>en. (ae_Name en, ae_Contents en)) entries) (ae_Name en) = None"
    using Cons.prems(4) by (simp add: map_of_eq_None_iff image_image)
  then show ?case using here ih by (auto simp: contentsAt_def update_conv' split: option.splits)
qed simp

lemma removeSelected_quiet:
  assumes "quietHost env" "\<And>p. p \<in> set ps \<Longrightarrow> actionAt acts p = ''restore'' \<Longrightarrow> p \<in> set restored"
  shows "\<exists>fs1. removeSelected env acts restored ps fs = (None, fs1) \<and>
    (\<forall>q. map_of fs1 q = (if q \<in> set ps \<and> actionAt acts q = ''remove'' then None else map_of fs q))"
  using assms
proof (induction ps arbitrary: fs)
  case (Cons p ps)
  have later: "\<And>q. q \<in> set ps \<Longrightarrow> actionAt acts q = ''restore'' \<Longrightarrow> q \<in> set restored" using Cons.prems(2) by simp
  consider (restore) "actionAt acts p = ''restore''" | (remove) "actionAt acts p = ''remove''" | (other) "actionAt acts p \<noteq> ''restore''" "actionAt acts p \<noteq> ''remove''"
    by blast
  then show ?case
  proof cases
    case restore
    then show ?thesis using Cons.IH[OF Cons.prems(1) later, of fs] Cons.prems(2)[of p] by auto
  next
    case remove
    then have "removeSelected env acts restored (p # ps) fs = removeSelected env acts restored ps (AList.delete p fs)"
      using Cons.prems(1) by (simp add: quietHost_def)
    then show ?thesis using Cons.IH[OF Cons.prems(1) later, of "AList.delete p fs"] remove by (auto simp: delete_conv')
  next
    case other
    then show ?thesis using Cons.IH[OF Cons.prems(1) later, of fs] by auto
  qed
qed simp

lemma find_member: "find P xs = Some x \<Longrightarrow> x \<in> set xs \<and> P x"
  by (induction xs) (auto split: if_splits)

lemma allowedActions_fold:
  "distinct (map re_Path es) \<Longrightarrow> map_of (foldl (\<lambda>m e. AList.update (re_Path e) e m) acc es) p =
    (case find (\<lambda>e. re_Path e = p) es of Some e \<Rightarrow> Some e | None \<Rightarrow> map_of acc p)"
proof (induction es arbitrary: acc)
  case (Cons e es)
  have "re_Path e = p \<Longrightarrow> find (\<lambda>e. re_Path e = p) es = None" using Cons.prems by (auto simp: find_None_iff) (metis image_eqI)
  then show ?case using Cons by (auto simp: update_conv' split: option.splits)
qed simp

lemma allowedActions_member:
  assumes "distinct (map re_Path es)" "e \<in> set es" "restorable e"
  shows "map_of (allowedActions es) (re_Path e) = Some e"
proof -
  have d: "distinct (map re_Path (filter restorable es))" using assms(1) by (rule distinct_map_filter)
  obtain e' where "find (\<lambda>x. re_Path x = re_Path e) (filter restorable es) = Some e'"
    using assms(2,3) by (cases "find (\<lambda>x. re_Path x = re_Path e) (filter restorable es)") (auto simp: find_None_iff)
  moreover from this have "e' \<in> set (filter restorable es)" "re_Path e' = re_Path e" by (auto dest: find_member)
  then have "e' = e" using assms(1,2) by (simp add: distinct_map inj_on_def)
  ultimately show ?thesis using allowedActions_fold[OF d, of "[]"] by (simp add: allowedActions_def)
qed

subsection \<open>What the backup of an import holds\<close>

lemma backupRecord_path: "backupRecord target f = Some r \<Longrightarrow> mf_Path r = tf_path f"
  by (auto simp: backupRecord_def Let_def split: option.splits if_splits)

lemma backupRecord_fields:
  assumes "backupRecord target f = Some r"
  shows "mf_AfterExists r = (tf_open f \<noteq> None)" "mf_AfterSHA r = tf_sha f"
    "case map_of target (tf_path f) of None \<Rightarrow> \<not> mf_BeforeExists r
     | Some t \<Rightarrow> mf_BeforeExists r \<and> mf_BeforeSHA r = tf_sha t \<and> tf_open t \<noteq> None \<and> tf_sha f \<noteq> tf_sha t"
  using assms by (auto simp: backupRecord_def Let_def split: option.splits if_splits)

lemma backupRecords_member:
  "r \<in> set (backupRecords files target) \<longleftrightarrow> (\<exists>f\<in>set (sortedTransferFiles files). backupRecord target f = Some r)"
  by (force simp: backupRecords_def map_filter_def)

lemma map_filter_distinct:
  assumes "distinct (map g xs)" "\<And>x y. f x = Some y \<Longrightarrow> h y = g x"
  shows "distinct (map h (List.map_filter f xs))"
  using assms
proof (induction xs)
  case (Cons x xs)
  show ?case
  proof (cases "f x")
    case None
    then show ?thesis using Cons by simp
  next
    case (Some y)
    have "h y \<notin> set (map h (List.map_filter f xs))"
    proof
      assume "h y \<in> set (map h (List.map_filter f xs))"
      then obtain z w where z: "z \<in> set xs" "f z = Some w" "h w = h y" by (auto simp: map_filter_def)
      then have "g z = g x" using Cons.prems(2) Some by metis
      then show False using Cons.prems(1) z(1) by (metis distinct.simps(2) image_eqI list.simps(9) set_map)
    qed
    then show ?thesis using Cons Some by simp
  qed
qed simp

lemma backupRecords_distinct: "keyed files \<Longrightarrow> distinct (map mf_Path (backupRecords files target))"
  unfolding backupRecords_def by (rule map_filter_distinct[OF sortedTransferFiles_distinct]) (auto dest: backupRecord_path)

text \<open>The archive of records whose targets stream: one entry for each file that existed.\<close>

definition archiveEntryOf :: "inventory \<Rightarrow> backupManifestFile \<Rightarrow> archiveEntry" where
  "archiveEntryOf target r =
     (let t = the (map_of target (mf_Path r)) in
      \<lparr>ae_Name = mf_Path r, ae_Regular = True, ae_Mode = safeFileMode (tf_mode t),
       ae_Contents = (case tf_open t of Some (Inr c) \<Rightarrow> c | _ \<Rightarrow> [])\<rparr>)"

lemma archiveEntries_sees:
  assumes "\<And>r. r \<in> set rs \<Longrightarrow> mf_BeforeExists r \<Longrightarrow> sees sha fs target (mf_Path r) \<and> map_of target (mf_Path r) \<noteq> None"
  shows "archiveEntries sha target rs = Inr (map (archiveEntryOf target) (filter mf_BeforeExists rs))"
  using assms
proof (induction rs)
  case (Cons r rs)
  show ?case
  proof (cases "mf_BeforeExists r")
    case True
    then have seen: "sees sha fs target (mf_Path r)" "map_of target (mf_Path r) \<noteq> None" using Cons.prems[of r] by auto
    then obtain t where t0: "map_of target (mf_Path r) = Some t" by blast
    then obtain c where t: "map_of target (mf_Path r) = Some t" "tf_open t = Some (Inr c)" "tf_size t = int (length c)" "tf_sha t = sha c"
      using seen(1) by (auto simp: sees_def)
    then have "streamTransferFile sha t = (c, None)"
      by (simp add: streamTransferFile_def LimitReader_def)
    then show ?thesis using Cons True t by (simp add: archiveEntryOf_def)
  qed (use Cons in simp)
qed simp

subsection \<open>The round trip\<close>

lemma currentBackupFile_quiet:
  assumes "quietHost env" "\<And>h. map_of fs p = Some h \<Longrightarrow> int (length (hf_contents h)) \<le> maxBindingFileSize"
  shows "\<exists>current. currentBackupFile env fs p = Inr current \<and>
    (case current of None \<Rightarrow> map_of fs p = None | Some f \<Rightarrow> \<exists>h. map_of fs p = Some h \<and> tf_sha f = rv_sha env (hf_contents h))"
  using assms by (auto simp: currentBackupFile_def quietHost_def split: option.split)

text \<open>
  The situation after an import: the host has the new contents, the inventory of the target had shown it as
  it was, no call fails any more, and SHA-256 tells the contents apart.
\<close>

definition imported :: "restore_env \<Rightarrow> write_env \<Rightarrow> inventory \<Rightarrow> inventory \<Rightarrow> host_fs \<Rightarrow> host_fs \<Rightarrow> bool" where
  "imported env wenv files target fs fs1 \<longleftrightarrow>
     rv_sha env = we_sha wenv \<and> inj (rv_sha env) \<and> quietHost env \<and> keyed files \<and> writeStackFiles wenv fs files = (None, fs1) \<and>
     (\<forall>p f. map_of files p = Some f \<longrightarrow> tf_open f \<noteq> None \<and> transferPath p \<and> tf_size f \<le> maxBindingFileSize \<and>
        sees (rv_sha env) fs target p \<and> (\<forall>h. map_of fs p = Some h \<longrightarrow> int (length (hf_contents h)) \<le> maxBindingFileSize))"

lemma importedD:
  assumes "imported env wenv files target fs fs1"
  shows "rv_sha env = we_sha wenv" "inj (rv_sha env)" "quietHost env" "keyed files" "writeStackFiles wenv fs files = (None, fs1)"
    "map_of files p = Some f \<Longrightarrow> tf_open f \<noteq> None" "map_of files p = Some f \<Longrightarrow> transferPath p" "map_of files p = Some f \<Longrightarrow> tf_size f \<le> maxBindingFileSize"
    "map_of files p = Some f \<Longrightarrow> sees (rv_sha env) fs target p"
    "map_of files p = Some f \<Longrightarrow> map_of fs p = Some h \<Longrightarrow> int (length (hf_contents h)) \<le> maxBindingFileSize"
  using assms unfolding imported_def by blast+

lemma imported_elsewhere:
  assumes imp: "imported env wenv files target fs fs1" and "map_of files p = None"
  shows "map_of fs1 p = map_of fs p"
  using writeStackFiles_spec[OF importedD(4,5)[OF imp]] assms(2) by simp

lemma imported_here:
  assumes imp: "imported env wenv files target fs fs1" and here: "map_of files p = Some f"
  obtains h where "map_of fs1 p = Some h" "rv_sha env (hf_contents h) = tf_sha f" "int (length (hf_contents h)) \<le> maxBindingFileSize"
proof -
  have "settledFile wenv fs1 f"
    using writeStackFiles_spec[OF importedD(4,5)[OF imp]] importedD(6)[OF imp here] here by blast
  then obtain c m where c: "streamed wenv f c" "map_of fs1 (tf_path f) = Some \<lparr>hf_contents = c, hf_mode = m\<rparr>"
    by (auto simp: settledFile_def)
  then show thesis
    using that[of "\<lparr>hf_contents = c, hf_mode = m\<rparr>"] importedD(8)[OF imp here] keyed_found[OF importedD(4)[OF imp] here] importedD(1)[OF imp]
    by (simp add: streamed_def)
qed

lemma imported_record:
  assumes imp: "imported env wenv files target fs fs1" and "r \<in> set (backupRecords files target)"
  obtains f where "map_of files (mf_Path r) = Some f" "backupRecord target f = Some r" "mf_AfterExists r" "mf_AfterSHA r = tf_sha f" "tf_path f = mf_Path r"
proof -
  obtain f where f: "f \<in> snd ` set files" "backupRecord target f = Some r"
    using assms(2) by (auto simp: backupRecords_member sortedTransferFiles_set)
  then have here: "map_of files (mf_Path r) = Some f"
    using keyed_lookup[OF importedD(4)[OF imp], of f] backupRecord_path[OF f(2)] by simp
  show thesis
    using that[OF here f(2)] backupRecord_fields(1,2)[OF f(2)] backupRecord_path[OF f(2)] importedD(6)[OF imp here] by simp
qed

lemma imported_before:
  assumes imp: "imported env wenv files target fs fs1" and "r \<in> set (backupRecords files target)"
  shows "if mf_BeforeExists r then (\<exists>h. map_of fs (mf_Path r) = Some h \<and> mf_BeforeSHA r = rv_sha env (hf_contents h) \<and> mf_BeforeSHA r \<noteq> mf_AfterSHA r)
    else map_of fs (mf_Path r) = None"
proof -
  obtain f where f: "map_of files (mf_Path r) = Some f" "backupRecord target f = Some r" "mf_AfterSHA r = tf_sha f" "tf_path f = mf_Path r"
    by (rule imported_record[OF assms])
  show ?thesis
    using backupRecord_fields(3)[OF f(2)] f(3,4) importedD(9)[OF imp f(1)] by (auto simp: sees_def split: option.splits)
qed

lemma imported_action:
  assumes imp: "imported env wenv files target fs fs1" and "r \<in> set (backupRecords files target)"
  shows "re_Action (restoreEntry env fs1 r) = (if mf_BeforeExists r then ''restore'' else ''remove'')" "re_Path (restoreEntry env fs1 r) = mf_Path r"
    "re_BeforeSHA (restoreEntry env fs1 r) = mf_BeforeSHA r"
proof -
  obtain f where f: "map_of files (mf_Path r) = Some f" "mf_AfterExists r" "mf_AfterSHA r = tf_sha f" by (rule imported_record[OF assms])
  obtain h where h: "map_of fs1 (mf_Path r) = Some h" "rv_sha env (hf_contents h) = tf_sha f" "int (length (hf_contents h)) \<le> maxBindingFileSize"
    by (rule imported_here[OF imp f(1)])
  obtain current where c: "currentBackupFile env fs1 (mf_Path r) = Inr (Some current)" "tf_sha current = mf_AfterSHA r"
    using currentBackupFile_quiet[OF importedD(3)[OF imp], of fs1 "mf_Path r"] h f(3) by (auto split: option.splits)
  show "re_Action (restoreEntry env fs1 r) = (if mf_BeforeExists r then ''restore'' else ''remove'')" "re_Path (restoreEntry env fs1 r) = mf_Path r"
    "re_BeforeSHA (restoreEntry env fs1 r) = mf_BeforeSHA r"
    using imported_before[OF assms] c f(2) by (auto simp: restoreEntry_def restoreAction_def Let_def split: if_splits)
qed

lemma imported_unrecorded:
  assumes imp: "imported env wenv files target fs fs1" and here: "map_of files p = Some f" and "p \<notin> mf_Path ` set (backupRecords files target)"
  shows "contentsAt fs1 p = contentsAt fs p"
proof -
  obtain h where h: "map_of fs1 p = Some h" "rv_sha env (hf_contents h) = tf_sha f" by (rule imported_here[OF imp here])
  have path: "tf_path f = p" by (rule keyed_found[OF importedD(4)[OF imp] here])
  have "f \<in> set (sortedTransferFiles files)"
    unfolding sortedTransferFiles_set using keyed_lookup[OF importedD(4)[OF imp], of f] here path by simp
  then have "backupRecord target f = None"
    using assms(3) backupRecord_path[of target f] path by (metis backupRecords_member image_eqI not_None_eq)
  then obtain t where t: "map_of target p = Some t" "tf_open t = None \<or> tf_sha f = tf_sha t"
    by (auto simp: backupRecord_def path Let_def split: option.splits if_splits)
  then obtain g where "map_of fs p = Some g" "tf_sha f = rv_sha env (hf_contents g)"
    using importedD(9)[OF imp here] by (auto simp: sees_def)
  then show ?thesis using h importedD(2)[OF imp] by (simp add: contentsAt_def inj_eq)
qed

lemma imported_archived:
  assumes imp: "imported env wenv files target fs fs1" and r: "r \<in> set (backupRecords files target)" and "mf_BeforeExists r"
  shows "ae_Name (archiveEntryOf target r) = mf_Path r \<and> ae_Regular (archiveEntryOf target r) \<and> transferPath (mf_Path r) \<and>
    contentsAt fs (mf_Path r) = Some (ae_Contents (archiveEntryOf target r)) \<and> mf_BeforeSHA r = rv_sha env (ae_Contents (archiveEntryOf target r)) \<and>
    int (length (ae_Contents (archiveEntryOf target r))) \<le> maxBindingFileSize \<and> sees (rv_sha env) fs target (mf_Path r) \<and> map_of target (mf_Path r) \<noteq> None"
proof -
  obtain f where f: "map_of files (mf_Path r) = Some f" "backupRecord target f = Some r" "tf_path f = mf_Path r" by (rule imported_record[OF imp r])
  obtain h where h: "map_of fs (mf_Path r) = Some h" "mf_BeforeSHA r = rv_sha env (hf_contents h)"
    using imported_before[OF imp r] assms(3) by auto
  obtain t where t: "map_of target (mf_Path r) = Some t" using backupRecord_fields(3)[OF f(2)] f(3) assms(3) by (cases "map_of target (mf_Path r)") auto
  then have "tf_open t = Some (Inr (hf_contents h))" using importedD(9)[OF imp f(1)] h(1) by (auto simp: sees_def)
  then show ?thesis
    using t h importedD(7,9)[OF imp f(1)] importedD(10)[OF imp f(1) h(1)] by (simp add: archiveEntryOf_def contentsAt_def)
qed

lemma imported_actions:
  assumes imp: "imported env wenv files target fs fs1"
  defines "es \<equiv> map (restoreEntry env fs1) (backupRecords files target)"
  shows "map re_Path (filter restorable es) = map mf_Path (backupRecords files target)"
    "r \<in> set (backupRecords files target) \<Longrightarrow> map_of (allowedActions es) (mf_Path r) = Some (restoreEntry env fs1 r)"
proof -
  have all: "restorable e" if "e \<in> set es" for e
    using that imported_action(1)[OF imp] by (auto simp: es_def restorable_def split: if_splits)
  then have "filter restorable es = es" by (simp add: filter_id_conv)
  then show paths: "map re_Path (filter restorable es) = map mf_Path (backupRecords files target)"
    using imported_action(2)[OF imp] by (simp add: es_def)
  have "distinct (map re_Path es)"
    using paths \<open>filter restorable es = es\<close> backupRecords_distinct[OF importedD(4)[OF imp], of target] by simp
  then show "map_of (allowedActions es) (mf_Path r) = Some (restoreEntry env fs1 r)" if r: "r \<in> set (backupRecords files target)"
    using allowedActions_member[of es "restoreEntry env fs1 r"] all r imported_action(2)[OF imp r] by (simp add: es_def)
qed

lemma named_contents:
  "distinct (map ae_Name es) \<Longrightarrow> en \<in> set es \<Longrightarrow> map_of (map (\<lambda>en. (ae_Name en, ae_Contents en)) es) (ae_Name en) = Some (ae_Contents en)"
  by (rule map_of_is_SomeI) (simp_all add: comp_def)


definition quietRestore :: restore_env where
  "quietRestore = \<lparr>rv_sha = (\<lambda>s. s), rv_token = (\<lambda>_ _. ''token''), rv_statError = (\<lambda>_. None), rv_special = (\<lambda>_. False), rv_writes = plainWrites,
     rv_removeAll = (\<lambda>_. None)\<rparr>"


subsection \<open>A file the inventory holds out\<close>

definition keyHost :: fs_node where
  "keyHost = FsDir [(''compose.yml'', plainFile ''services: {}''), (''keys.txt'', plainFile ''AGE-SECRET-KEY-1ABC'')]"

definition keyTree :: git_node where
  "keyTree = GitTree [(''compose.yml'', GitBlob False (Inr ''services: {}'')), (''keys.txt'', GitBlob False (Inr ''age1public''))]"

definition keySource :: inventory where
  "keySource = snd (collectRepositoryTreeFiles sampleSync (Inr keyTree) False allFilesPolicy)"

definition keyTarget :: inventory where
  "keyTarget = snd (collectStackFiles sampleSync keyHost False allFilesPolicy)"

definition keyPreview :: TransferPreview where
  "keyPreview = buildPreview (se_sha sampleSync) ''b'' toStack keySource keyTarget [(''compose.yml'', se_sha sampleSync ''services: {}'')]"

definition keyFiles :: host_fs where
  "keyFiles = [(''compose.yml'', \<lparr>hf_contents = ''services: {}'', hf_mode = 420\<rparr>), (''keys.txt'', \<lparr>hf_contents = ''AGE-SECRET-KEY-1ABC'', hf_mode = 384\<rparr>)]"

definition keyWrites :: write_env where
  "keyWrites = plainWrites\<lparr>we_sha := se_sha sampleSync\<rparr>"

text \<open>
  An import overwrites a private key it has held out.  The host's \<^verbatim>\<open>keys.txt\<close> is an age identity, so its inventory
  entry has no reader; Git has another file of that name.  The preview calls it an addition, without a conflict; the
  regular selection takes it; the backup made before the import records nothing for it; and writing replaces the key.
\<close>

lemma import_overwrites_held_out_key:
  "map (\<lambda>e. (pe_Path e, pe_Status e)) (pv_Entries keyPreview) = [(''keys.txt'', ''add'')]" "pv_Conflicts keyPreview = 0"
  "map_option tf_skipReason (map_of keyTarget ''keys.txt'') = Some ''age_identity''"
  "(case selectedTransferFiles keyPreview keySource [] [] of
      Inr (selected, n) \<Rightarrow> map fst selected = [''keys.txt''] \<and> n = 0 \<and> backupRecords selected keyTarget = [] \<and>
        contentsAt (snd (writeStackFiles keyWrites keyFiles selected)) ''keys.txt'' = Some ''age1public''
    | Inl _ \<Rightarrow> False)"
  by code_simp+

subsection \<open>Which backups are kept\<close>

definition lapsed :: "gotime \<Rightarrow> GitBackup \<Rightarrow> bool" where
  "lapsed now row \<longleftrightarrow> (\<exists>t. gb_ExpiresAt row = Some t \<and> t < now)"

fun dropped :: "gotime \<Rightarrow> string list \<Rightarrow> nat \<Rightarrow> GitBackup list \<Rightarrow> GitBackup list" where
  "dropped now kept n [] = []"
| "dropped now kept n (row # rows) =
     (if gb_UUID row \<in> set kept \<or> (n < gitBackupRetention \<and> \<not> lapsed now row) then dropped now kept (Suc n) rows
      else row # dropped now kept n rows)"

lemma dropped_subset: "set (dropped now kept n rows) \<subseteq> {r \<in> set rows. gb_UUID r \<notin> set kept}"
  by (induction rows arbitrary: n) auto

lemma dropped_retains:
  "length (filter (\<lambda>r. gb_UUID r \<notin> set kept \<and> r \<notin> set (dropped now kept n rows)) rows) \<le> gitBackupRetention - n"
  if "distinct (map gb_UUID rows)"
  using that
proof (induction rows arbitrary: n)
  case (Cons row rows)
  have apart: "row \<notin> set rows" using Cons.prems by auto
  have sub: "row \<notin> set (dropped now kept m rows)" for m using dropped_subset[of now kept m rows] apart by blast
  have d: "distinct (map gb_UUID rows)" using Cons.prems by simp
  have same: "filter (\<lambda>r. gb_UUID r \<notin> set kept \<and> r \<noteq> row \<and> r \<notin> set (dropped now kept n rows)) rows =
      filter (\<lambda>r. gb_UUID r \<notin> set kept \<and> r \<notin> set (dropped now kept n rows)) rows"
    by (rule filter_cong) (use apart in auto)
  show ?case using Cons.IH[OF d, of n] Cons.IH[OF d, of "Suc n"] sub[of n] sub[of "Suc n"] same by auto
qed simp

lemma dropped_lapsed: "r \<in> set rows \<Longrightarrow> lapsed now r \<Longrightarrow> gb_UUID r \<notin> set kept \<Longrightarrow> r \<in> set (dropped now kept n rows)"
  by (induction rows arbitrary: n) auto

lemma dropBackup_None:
  "dropBackup env row st = (None, st1) \<Longrightarrow>
   st1 = deleteRow (gb_UUID row) (st\<lparr>bs_archives := AList.delete (gb_ArchivePath row) (bs_archives st)\<rparr>)"
  by (auto simp: dropBackup_def removeBackupArchive_def split: option.splits)

lemma pruneLoop_dropped:
  "pruneLoop env kept n rows st = (None, st1) \<Longrightarrow>
   bs_rows st1 = filter (\<lambda>r. gb_UUID r \<notin> gb_UUID ` set (dropped (be_now env) kept n rows)) (bs_rows st) \<and>
   (\<forall>p. p \<notin> gb_ArchivePath ` set (dropped (be_now env) kept n rows) \<longrightarrow> map_of (bs_archives st1) p = map_of (bs_archives st) p)"
proof (induction rows arbitrary: n st)
  case (Cons row rows)
  have expired: "(case gb_ExpiresAt row of Some t \<Rightarrow> t < be_now env | None \<Rightarrow> False) = lapsed (be_now env) row"
    by (simp add: lapsed_def split: option.splits)
  show ?case
  proof (cases "gb_UUID row \<in> set kept \<or> (n < gitBackupRetention \<and> \<not> lapsed (be_now env) row)")
    case True
    then have "pruneLoop env kept (Suc n) rows st = (None, st1)" using Cons.prems by (auto simp: Let_def expired split: if_splits)
    then show ?thesis using Cons.IH True by simp
  next
    case False
    then obtain st2 where st2: "dropBackup env row st = (None, st2)" "pruneLoop env kept n rows st2 = (None, st1)"
      using Cons.prems by (auto simp: Let_def expired split: prod.splits option.splits if_splits)
    note ih = Cons.IH[OF st2(2)]
    have "bs_rows st2 = filter (\<lambda>r. gb_UUID r \<noteq> gb_UUID row) (bs_rows st)"
      "p \<noteq> gb_ArchivePath row \<Longrightarrow> map_of (bs_archives st2) p = map_of (bs_archives st) p" for p
      by (simp_all add: dropBackup_None[OF st2(1)] deleteRow_def delete_where_def delete_conv')
    then show ?thesis using ih False by (auto intro!: filter_cong)
  qed
qed simp

lemma hd_newest:
  assumes "row \<in> set xs" "\<And>y. y \<in> set xs \<Longrightarrow> y \<noteq> row \<Longrightarrow> gb_CreatedAt y < gb_CreatedAt row"
  shows "\<exists>rest. newest_first gb_CreatedAt xs = row # rest"
proof -
  have "newest_first gb_CreatedAt xs \<noteq> []" using assms(1) by (metis empty_iff list.set(1) set_newest_first)
  then obtain h rest where l: "newest_first gb_CreatedAt xs = h # rest" by (cases "newest_first gb_CreatedAt xs") auto
  have "sorted (map (\<lambda>r. - gb_CreatedAt r) (h # rest))" using l by (metis newest_first_def sorted_sort_key)
  moreover have sets: "set (h # rest) = set xs" using l by (metis set_newest_first)
  ultimately have least: "gb_CreatedAt row \<le> gb_CreatedAt h" using assms(1) by (cases "row = h") auto
  have "h = row"
  proof (rule ccontr)
    assume "h \<noteq> row"
    moreover have "h \<in> set xs" using sets by auto
    ultimately show False using assms(2)[of h] least by simp
  qed
  then show ?thesis using l by blast
qed

text \<open>The rows pruning looks at after a registration.\<close>

definition bindingRows :: "StackBinding \<Rightarrow> GitBackup list \<Rightarrow> GitBackup list" where
  "bindingRows binding rows = filter (\<lambda>r. gb_BindingUUID r = sb_UUID binding) rows"

definition prunedRows :: "StackBinding \<Rightarrow> GitBackup list \<Rightarrow> GitBackup list" where
  "prunedRows binding rows = newest_first gb_CreatedAt (take 200 (newest_first gb_CreatedAt (bindingRows binding rows)))"

lemma prunedRows_subset: "set (prunedRows binding rows) \<subseteq> set (bindingRows binding rows)"
  using set_take_subset[of 200 "newest_first gb_CreatedAt (bindingRows binding rows)"] by (simp add: prunedRows_def)

lemma prunedRows_distinct: "distinct (map gb_UUID rows) \<Longrightarrow> distinct (map gb_UUID (prunedRows binding rows))"
  unfolding prunedRows_def bindingRows_def
  by (intro distinct_newest_first) (metis distinct_map_filter distinct_newest_first distinct_take take_map)

lemma prunedRows_newest:
  assumes "row \<in> set (bindingRows binding rows)" "\<And>y. y \<in> set (bindingRows binding rows) \<Longrightarrow> y \<noteq> row \<Longrightarrow> gb_CreatedAt y < gb_CreatedAt row"
  shows "\<exists>rest. prunedRows binding rows = row # rest"
proof -
  obtain rest where "newest_first gb_CreatedAt (bindingRows binding rows) = row # rest" using hd_newest[OF assms] by blast
  then have "row \<in> set (take 200 (newest_first gb_CreatedAt (bindingRows binding rows)))" by simp
  moreover have "set (take 200 (newest_first gb_CreatedAt (bindingRows binding rows))) \<subseteq> set (bindingRows binding rows)"
    using set_take_subset[of 200 "newest_first gb_CreatedAt (bindingRows binding rows)"] by simp
  ultimately show ?thesis unfolding prunedRows_def using hd_newest assms(2) by blast
qed

lemma prunedRows_all: "length (bindingRows binding rows) \<le> 200 \<Longrightarrow> set (prunedRows binding rows) = set (bindingRows binding rows)"
  by (simp add: prunedRows_def)

definition backupRow :: "backup_env \<Rightarrow> StackBinding \<Rightarrow> string \<Rightarrow> string \<Rightarrow> backupArchive \<Rightarrow> GitBackup" where
  "backupRow env binding kind commit archive =
     \<lparr>gb_CreatedAt = be_now env, gb_UUID = be_newID env, gb_RepositoryUUID = sb_RepositoryUUID binding, gb_BindingUUID = sb_UUID binding,
      gb_Kind = kind, gb_ComposePaths = Join (bm_ComposePaths (ar_Manifest archive)) [CHR 0x0A], gb_ArchivePath = be_archivePath env,
      gb_CommitSHA = commit, gb_FileCount = int (length (bm_Files (ar_Manifest archive))), gb_SizeBytes = be_sizeOf env archive,
      gb_Restorable = (bm_Version (ar_Manifest archive) \<ge> 2), gb_ExpiresAt = Some (be_now env + be_retentionDays env * 24 * hour)\<rparr>"

lemma registerBackup_Inr:
  assumes "registerBackup env binding kind commit archive kept st = (Inr row, st1)"
  shows "row = backupRow env binding kind commit archive \<and>
    pruneLoop env kept 0 (prunedRows binding (bs_rows st @ [row])) (st\<lparr>bs_rows := bs_rows st @ [row]\<rparr>) = (None, st1)"
  using assms
  by (auto simp: registerBackup_def backupRow_def pruneManagedBackups_def ListBindingBackups_def prunedRows_def bindingRows_def Let_def
      split: option.splits prod.splits)

lemma backupChangedFiles_Inr:
  assumes "backupChangedFiles env binding source target kind commit kept st = (Inr bid, st1)"
  shows "\<exists>archive row. archiveEntries (be_sha env) target (backupRecords source target) = Inr (ar_Entries archive) \<and>
    bm_Files (ar_Manifest archive) = backupRecords source target \<and> bm_Version (ar_Manifest archive) = 2 \<and> bid = gb_UUID row \<and>
    registerBackup env binding kind commit archive kept (st\<lparr>bs_archives := AList.update (be_archivePath env) archive (bs_archives st)\<rparr>) = (Inr row, st1)"
proof -
  obtain entries where entries: "archiveEntries (be_sha env) target (backupRecords source target) = Inr entries"
    using assms by (auto simp: backupChangedFiles_def Let_def split: option.splits sum.splits)
  define archive where "archive = \<lparr>ar_Manifest = \<lparr>bm_Version = 2, bm_BackupID = be_newID env, bm_BindingID = sb_UUID binding,
      bm_RepositoryID = sb_RepositoryUUID binding, bm_Kind = kind, bm_CreatedAt = be_now env, bm_CommitSHA = commit,
      bm_ComposePaths = uniqueComposePathsForFiles binding (backupRecords source target), bm_Files = backupRecords source target\<rparr>, ar_Entries = entries\<rparr>"
  have "ar_Entries archive = entries" "bm_Files (ar_Manifest archive) = backupRecords source target" "bm_Version (ar_Manifest archive) = 2"
    by (simp_all add: archive_def)
  moreover have "\<exists>row. bid = gb_UUID row \<and>
      registerBackup env binding kind commit archive kept (st\<lparr>bs_archives := AList.update (be_archivePath env) archive (bs_archives st)\<rparr>) = (Inr row, st1)"
    using assms entries by (auto simp: backupChangedFiles_def Let_def archive_def split: option.splits sum.splits prod.splits)
  ultimately show ?thesis using entries by blast
qed

text \<open>The tables a registration starts from: unique names, all older than the new row.\<close>

definition backups_ok :: "backup_env \<Rightarrow> StackBinding \<Rightarrow> backup_state \<Rightarrow> bool" where
  "backups_ok env binding st \<longleftrightarrow>
     distinct (map gb_UUID (bs_rows st)) \<and> distinct (map gb_ArchivePath (bs_rows st)) \<and> be_newID env \<notin> gb_UUID ` set (bs_rows st) \<and>
     be_archivePath env \<notin> gb_ArchivePath ` set (bs_rows st) \<and> (\<forall>r\<in>set (bs_rows st). gb_CreatedAt r < be_now env) \<and> be_retentionDays env \<ge> 0"

lemma inj_on_distinct: "distinct (map f xs) \<Longrightarrow> x \<in> set xs \<Longrightarrow> y \<in> set xs \<Longrightarrow> f x = f y \<Longrightarrow> x = y"
  by (auto simp: distinct_map inj_on_def)

lemma registered:
  assumes ok: "backups_ok env binding st" and run: "registerBackup env binding kind commit archive kept (st\<lparr>bs_archives := arch\<rparr>) = (Inr row, st1)"
  defines "gone \<equiv> dropped (be_now env) kept 0 (prunedRows binding (bs_rows st @ [row]))"
  shows "row = backupRow env binding kind commit archive" "bs_rows st1 = filter (\<lambda>r. r \<notin> set gone) (bs_rows st @ [row])" "row \<notin> set gone"
    "r \<in> set (bs_rows st @ [row]) \<Longrightarrow> r \<notin> set gone \<Longrightarrow> map_of (bs_archives st1) (gb_ArchivePath r) = map_of arch (gb_ArchivePath r)"
    "distinct (map gb_UUID (bs_rows st @ [row]))"
proof -
  show row: "row = backupRow env binding kind commit archive" using registerBackup_Inr[OF run] by simp
  have prune: "bs_rows st1 = filter (\<lambda>r. gb_UUID r \<notin> gb_UUID ` set gone) (bs_rows st @ [row])"
    "\<And>p. p \<notin> gb_ArchivePath ` set gone \<Longrightarrow> map_of (bs_archives st1) p = map_of arch p"
    using pruneLoop_dropped[OF conjunct2[OF registerBackup_Inr[OF run]]] unfolding gone_def by simp_all
  show ids: "distinct (map gb_UUID (bs_rows st @ [row]))"
    using ok by (simp add: backups_ok_def row backupRow_def)
  have paths: "distinct (map gb_ArchivePath (bs_rows st @ [row]))"
    using ok by (simp add: backups_ok_def row backupRow_def)
  have "set (bindingRows binding (bs_rows st @ [row])) \<subseteq> set (bs_rows st @ [row])" unfolding bindingRows_def by (rule filter_is_subset)
  then have sub: "set gone \<subseteq> set (bs_rows st @ [row])"
    using dropped_subset[of "be_now env" kept 0 "prunedRows binding (bs_rows st @ [row])"] prunedRows_subset[of binding "bs_rows st @ [row]"]
    unfolding gone_def by blast
  have ids_gone: "gb_UUID r \<in> gb_UUID ` set gone \<longleftrightarrow> r \<in> set gone" if "r \<in> set (bs_rows st @ [row])" for r
    using inj_on_distinct[OF ids that] sub by (metis (no_types, lifting) image_iff subsetD)
  show "bs_rows st1 = filter (\<lambda>r. r \<notin> set gone) (bs_rows st @ [row])"
    unfolding prune(1) by (rule filter_cong) (use ids_gone in auto)
  show "map_of (bs_archives st1) (gb_ArchivePath r) = map_of arch (gb_ArchivePath r)" if "r \<in> set (bs_rows st @ [row])" "r \<notin> set gone"
  proof -
    have "gb_ArchivePath r \<notin> gb_ArchivePath ` set gone"
      using inj_on_distinct[OF paths that(1)] sub that(2) by (metis (no_types, lifting) image_iff subsetD)
    then show ?thesis by (rule prune(2))
  qed
  have "\<exists>rest. prunedRows binding (bs_rows st @ [row]) = row # rest"
    using ok by (intro prunedRows_newest) (auto simp: bindingRows_def backups_ok_def row backupRow_def)
  then obtain rest where rest: "prunedRows binding (bs_rows st @ [row]) = row # rest" by blast
  have "row \<notin> set rest" using prunedRows_distinct[OF ids, of binding] rest by auto
  moreover have "\<not> lapsed (be_now env) row" using ok by (simp add: lapsed_def backups_ok_def row backupRow_def time_units)
  ultimately show "row \<notin> set gone"
    using dropped_subset[of "be_now env" kept "Suc 0" rest] by (auto simp: gone_def rest gitBackupRetention_def)
qed

lemma distinct_length_filter_eq:
  assumes "distinct xs" "distinct ys" "set xs = set ys"
  shows "length (filter P xs) = length (filter P ys)"
  using assms by (metis distinct_card distinct_filter set_filter)

text \<open>
  C30: a backup that is reported has been kept.  After a successful backup its row and its archive exist, the archive
  holds the old content of every file the records name, the rows of other links and the protected backups are
  untouched with their archives, and as long as the link has at most two hundred backups no more than ten unprotected
  ones are left, none of them expired.
\<close>

theorem backupChangedFiles_kept:
  assumes "backups_ok env binding st" "backupChangedFiles env binding source target kind commit kept st = (Inr bid, st1)"
  shows "(\<exists>row archive. row \<in> set (bs_rows st1) \<and> gb_UUID row = bid \<and> gb_BindingUUID row = sb_UUID binding \<and> gb_Restorable row \<and>
      openArchive row st1 = Inr archive \<and> bm_Files (ar_Manifest archive) = backupRecords source target \<and>
      archiveEntries (be_sha env) target (backupRecords source target) = Inr (ar_Entries archive)) \<and>
    (\<forall>r. r \<in> set (bs_rows st) \<and> (gb_UUID r \<in> set kept \<or> gb_BindingUUID r \<noteq> sb_UUID binding) \<longrightarrow>
      r \<in> set (bs_rows st1) \<and> openArchive r st1 = openArchive r st) \<and>
    (length (bindingRows binding (bs_rows st)) < 200 \<longrightarrow>
      length (filter (\<lambda>r. gb_UUID r \<notin> set kept) (bindingRows binding (bs_rows st1))) \<le> gitBackupRetention \<and>
      (\<forall>r. r \<in> set (bindingRows binding (bs_rows st1)) \<and> gb_UUID r \<notin> set kept \<longrightarrow> \<not> lapsed (be_now env) r))"
proof -
  obtain archive row where a: "archiveEntries (be_sha env) target (backupRecords source target) = Inr (ar_Entries archive)"
    "bm_Files (ar_Manifest archive) = backupRecords source target" "bm_Version (ar_Manifest archive) = 2" "bid = gb_UUID row"
    and reg: "registerBackup env binding kind commit archive kept (st\<lparr>bs_archives := AList.update (be_archivePath env) archive (bs_archives st)\<rparr>) = (Inr row, st1)"
    using backupChangedFiles_Inr[OF assms(2)] by blast
  define gone where "gone = dropped (be_now env) kept 0 (prunedRows binding (bs_rows st @ [row]))"
  note reg = registered[OF assms(1) reg, folded gone_def]
  have row: "gb_BindingUUID row = sb_UUID binding" "gb_Restorable row" "gb_ArchivePath row = be_archivePath env"
    using reg(1) a(3) by (simp_all add: backupRow_def)
  have new: "row \<in> set (bs_rows st1)" "openArchive row st1 = Inr archive"
    using reg(2,3) reg(4)[of row] row(3) by (simp_all add: openArchive_def update_conv')
  have spared: "r \<notin> set gone" if "gb_UUID r \<in> set kept \<or> gb_BindingUUID r \<noteq> sb_UUID binding" for r
    using that dropped_subset[of "be_now env" kept 0 "prunedRows binding (bs_rows st @ [row])"] prunedRows_subset[of binding "bs_rows st @ [row]"]
    unfolding gone_def bindingRows_def set_filter by blast
  have others: "r \<in> set (bs_rows st1) \<and> openArchive r st1 = openArchive r st"
    if "r \<in> set (bs_rows st)" "gb_UUID r \<in> set kept \<or> gb_BindingUUID r \<noteq> sb_UUID binding" for r
  proof -
    have "gb_ArchivePath r \<noteq> be_archivePath env" using assms(1) that(1) unfolding backups_ok_def by (metis image_eqI)
    then show ?thesis using that(1) spared[OF that(2)] reg(2) reg(4)[of r] by (simp add: openArchive_def update_conv')
  qed
  have bound: "length (filter (\<lambda>r. gb_UUID r \<notin> set kept) (bindingRows binding (bs_rows st1))) \<le> gitBackupRetention \<and>
      (\<forall>r. r \<in> set (bindingRows binding (bs_rows st1)) \<and> gb_UUID r \<notin> set kept \<longrightarrow> \<not> lapsed (be_now env) r)"
    if few: "length (bindingRows binding (bs_rows st)) < 200"
  proof -
    let ?L = "prunedRows binding (bs_rows st @ [row])"
    have "length (bindingRows binding (bs_rows st @ [row])) \<le> 200" using few row(1) by (simp add: bindingRows_def)
    then have all: "set ?L = set (bindingRows binding (bs_rows st @ [row]))" by (rule prunedRows_all)
    have left: "filter (\<lambda>r. gb_UUID r \<notin> set kept) (bindingRows binding (bs_rows st1)) =
        filter (\<lambda>r. gb_UUID r \<notin> set kept \<and> r \<notin> set gone) (bindingRows binding (bs_rows st @ [row]))"
      unfolding bindingRows_def reg(2) filter_filter by (rule filter_cong) auto
    have "length (filter (\<lambda>r. gb_UUID r \<notin> set kept \<and> r \<notin> set gone) (bindingRows binding (bs_rows st @ [row]))) =
        length (filter (\<lambda>r. gb_UUID r \<notin> set kept \<and> r \<notin> set gone) ?L)"
    proof (rule distinct_length_filter_eq)
      show "distinct (bindingRows binding (bs_rows st @ [row]))"
        unfolding bindingRows_def using reg(5) by (metis distinct_filter distinct_map)
      show "distinct ?L" using prunedRows_distinct[OF reg(5), of binding] unfolding distinct_map by blast
      show "set (bindingRows binding (bs_rows st @ [row])) = set ?L" using all by simp
    qed
    also have "\<dots> \<le> gitBackupRetention"
      using dropped_retains[OF prunedRows_distinct[OF reg(5)], of kept "be_now env" 0 binding] by (simp add: gone_def)
    finally have few: "length (filter (\<lambda>r. gb_UUID r \<notin> set kept) (bindingRows binding (bs_rows st1))) \<le> gitBackupRetention"
      unfolding left .
    have "\<not> lapsed (be_now env) r" if r: "r \<in> set (bindingRows binding (bs_rows st1))" "gb_UUID r \<notin> set kept" for r
    proof
      assume "lapsed (be_now env) r"
      moreover have "r \<notin> set gone" "r \<in> set (bindingRows binding (bs_rows st @ [row]))"
        using r(1) unfolding bindingRows_def reg(2) set_filter by blast+
      ultimately show False using dropped_lapsed[of r ?L "be_now env" kept 0] r(2) all unfolding gone_def by blast
    qed
    then show ?thesis using few by blast
  qed
  show ?thesis using a new row(1,2) others bound by blast
qed

definition sampleBackups :: backup_env where
  "sampleBackups = \<lparr>be_sha = (\<lambda>s. s), be_rootError = None, be_retentionDays = 30, be_newID = ''n'', be_archivePath = ''l/new.tar.gz'', be_now = 100,
     be_sizeOf = (\<lambda>_. 1), be_createFault = None, be_saveFault = None, be_listFault = None, be_removeFault = (\<lambda>_. None), be_deleteFault = (\<lambda>_. None)\<rparr>"

definition expiredBackup :: GitBackup where
  "expiredBackup = \<lparr>gb_CreatedAt = 5, gb_UUID = ''o'', gb_RepositoryUUID = ''r'', gb_BindingUUID = sb_UUID sampleBinding, gb_Kind = ''pre_import'',
     gb_ComposePaths = [], gb_ArchivePath = ''l/old.tar.gz'', gb_CommitSHA = [], gb_FileCount = 0, gb_SizeBytes = 1, gb_Restorable = True,
     gb_ExpiresAt = Some 50\<rparr>"

theorem backupChangedFiles_kept_witness:
  "\<exists>bid st1. backupChangedFiles sampleBackups sampleBinding [(''a'', textFile ''a'' ''new'')] [(''a'', textFile ''a'' ''old'')] ''pre_import'' [] [] 
     \<lparr>bs_rows = [expiredBackup], bs_archives = []\<rparr> = (Inr bid, st1) \<and> (\<exists>row \<in> set (bs_rows st1). gb_UUID row = bid) \<and>
     length (bindingRows sampleBinding (bs_rows st1)) \<le> gitBackupRetention"
proof -
  let ?st = "\<lparr>bs_rows = [expiredBackup], bs_archives = []\<rparr>"
  let ?run = "backupChangedFiles sampleBackups sampleBinding [(''a'', textFile ''a'' ''new'')] [(''a'', textFile ''a'' ''old'')] ''pre_import'' [] [] ?st"
  have ok: "backups_ok sampleBackups sampleBinding ?st" by code_simp
  have "(case fst ?run of Inr bid \<Rightarrow> bid = ''n'' | Inl _ \<Rightarrow> False)" by code_simp
  then have run: "?run = (Inr ''n'', snd ?run)" by (cases ?run) (auto split: sum.splits)
  have "length (bindingRows sampleBinding (bs_rows ?st)) < 200" by code_simp
  with backupChangedFiles_kept[OF ok run] show ?thesis
    by (intro exI[of _ "''n''"] exI[of _ "snd ?run"]) (auto simp: run[symmetric] intro: run)
qed

end
