(* ===== verification/Sync_Status.thy ===== *)
theory Sync_Status
  imports Sync_Backup_Laws
begin

section \<open>Links, stacks and their recorded states\<close>

text \<open>
  Models the tables of \<open>core/internal/gitsync/store.go\<close> the synchronisation works on (folder links, one status
  row per stack, deployments) and the operations of \<open>stack_status.go\<close> and \<open>binding.go\<close> that keep the rows: what
  a preview records, what the browser is shown, pauses and the catalogue of stacks.  A database statement has a
  \<open>fault\<close> argument; with a fault it changes nothing.
\<close>

record GitStackStatus =
  gs_BindingUUID :: string
  gs_ComposePath :: string
  gs_State :: string
  gs_ErrorMessage :: string
  gs_ConflictCount :: int
  gs_AutomationPaused :: bool
  gs_PauseReason :: string
  gs_LastCheckedAt :: "gotime option"
  gs_LastSuccessAt :: "gotime option"
  gs_LastCommit :: string
  gs_DeployState :: string
  gs_DeployError :: string
  gs_LastDeployAt :: "gotime option"

record Deployment =
  dp_CreatedAt :: gotime
  dp_UUID :: string
  dp_RepositoryUUID :: string
  dp_BindingUUID :: string
  dp_CommitSHA :: string
  dp_ComposeHash :: string
  dp_State :: string
  dp_Result :: string
  dp_Logs :: string

record sync_db =
  db_bindings :: "StackBinding list"
  db_statuses :: "GitStackStatus list"
  db_deployments :: "Deployment list"
  db_baselines :: "(string, baseline) gomap"

definition stackSyncPending :: string where "stackSyncPending = ''pending''"
definition stackSyncUnselected :: string where "stackSyncUnselected = ''unselected''"
definition stackSyncUpToDate :: string where "stackSyncUpToDate = ''up_to_date''"
definition stackSyncChecking :: string where "stackSyncChecking = ''checking''"
definition stackSyncLocalChanges :: string where "stackSyncLocalChanges = ''local_changes''"
definition stackSyncLocalDeleted :: string where "stackSyncLocalDeleted = ''locally_deleted''"
definition stackSyncRemoteChanges :: string where "stackSyncRemoteChanges = ''remote_changes''"
definition stackSyncOrphaned :: string where "stackSyncOrphaned = ''orphaned''"
definition stackSyncConflict :: string where "stackSyncConflict = ''conflict''"
definition stackSyncError :: string where "stackSyncError = ''error''"
definition stackPauseManual :: string where "stackPauseManual = ''manual''"
definition stackPauseRecovery :: string where "stackPauseRecovery = ''recovery''"

lemmas stack_states = stackSyncPending_def stackSyncUnselected_def stackSyncUpToDate_def stackSyncChecking_def stackSyncLocalChanges_def
  stackSyncLocalDeleted_def stackSyncRemoteChanges_def stackSyncOrphaned_def stackSyncConflict_def stackSyncError_def

type_synonym fault = "string option"

subsection \<open>Folder links\<close>

definition GetBinding :: "string \<Rightarrow> sync_db \<Rightarrow> StackBinding option" where
  "GetBinding key db = find (\<lambda>b. sb_UUID b = key \<and> \<not> sb_Deleted b) (db_bindings db)"

definition sameEndpoints :: "StackBinding \<Rightarrow> StackBinding \<Rightarrow> bool" where
  "sameEndpoints a b \<longleftrightarrow> sb_RepositoryUUID a = sb_RepositoryUUID b \<and> sb_Host a = sb_Host b \<and> sb_StackPath a = sb_StackPath b \<and> sb_SubPath a = sb_SubPath b"

definition SaveBinding :: "fault \<Rightarrow> StackBinding \<Rightarrow> sync_db \<Rightarrow> string option \<times> sync_db" where
  "SaveBinding fault row db =
     (if TrimSpace (sb_UUID row) = [] then (Some ''folder link UUID is required'', db)
      else (case first_row sb_UUID (sb_UUID row) (db_bindings db) of
          Some existing \<Rightarrow>
            if \<not> sameEndpoints existing row then (Some ''folder link target is immutable'', db)
            else if sb_Deleted existing then (Some ''folder link was unlinked; its state can no longer be saved'', db)
            else (case fault of Some e \<Rightarrow> (Some e, db) | None \<Rightarrow> (None, db\<lparr>db_bindings := upsert sb_UUID (\<lambda>_ r. r) row (db_bindings db)\<rparr>))
        | None \<Rightarrow> (case fault of Some e \<Rightarrow> (Some e, db) | None \<Rightarrow> (None, db\<lparr>db_bindings := upsert sb_UUID (\<lambda>_ r. r) row (db_bindings db)\<rparr>))))"

text \<open>The updates of single columns apply to rows that are not deleted.\<close>

definition updateBinding :: "string \<Rightarrow> (StackBinding \<Rightarrow> StackBinding) \<Rightarrow> sync_db \<Rightarrow> sync_db" where
  "updateBinding key f db = db\<lparr>db_bindings := update_where (\<lambda>b. sb_UUID b = key \<and> \<not> sb_Deleted b) f (db_bindings db)\<rparr>"

definition UpdateBindingAutoDeployState :: "fault \<Rightarrow> string \<Rightarrow> string \<Rightarrow> string \<Rightarrow> gotime option \<Rightarrow> sync_db \<Rightarrow> string option \<times> sync_db" where
  "UpdateBindingAutoDeployState fault key state message at db =
     (case fault of
        Some e \<Rightarrow> (Some e, db)
      | None \<Rightarrow> (None, updateBinding key (\<lambda>b. b\<lparr>sb_AutoDeployState := state, sb_AutoDeployError := message,
          sb_LastAutoDeployAt := (case at of None \<Rightarrow> sb_LastAutoDeployAt b | Some _ \<Rightarrow> at)\<rparr>) db))"

definition UpdateBindingAutoSyncState ::
  "fault \<Rightarrow> string \<Rightarrow> string \<Rightarrow> string \<Rightarrow> string \<Rightarrow> gotime option \<Rightarrow> gotime option \<Rightarrow> sync_db \<Rightarrow> string option \<times> sync_db" where
  "UpdateBindingAutoSyncState fault key state message commit attemptedAt succeededAt db =
     (case fault of
        Some e \<Rightarrow> (Some e, db)
      | None \<Rightarrow> (None, updateBinding key (\<lambda>b. b\<lparr>sb_AutoSyncState := state, sb_AutoSyncError := message,
          sb_LastAutoSyncAt := (case attemptedAt of None \<Rightarrow> sb_LastAutoSyncAt b | Some _ \<Rightarrow> attemptedAt),
          sb_LastAutoSyncSuccessAt := (case succeededAt of None \<Rightarrow> sb_LastAutoSyncSuccessAt b | Some _ \<Rightarrow> succeededAt),
          sb_LastAutoSyncCommit := (if commit = [] then sb_LastAutoSyncCommit b else commit)\<rparr>) db))"

definition ClearStaleAutoSyncBlocks :: "sync_db \<Rightarrow> sync_db" where
  "ClearStaleAutoSyncBlocks db = db\<lparr>db_bindings := update_where
     (\<lambda>b. \<not> sb_Deleted b \<and> (sb_AutoSyncState b = ''blocked'' \<or> sb_AutoSyncState b = ''conflict'') \<and> sb_LastAutoSyncCommit b \<noteq> [] \<and>
       \<not> Contains (ToLower (sb_AutoSyncError b)) ''git deletion'') (\<lambda>b. b\<lparr>sb_LastAutoSyncCommit := []\<rparr>) (db_bindings db)\<rparr>"

definition RenameBindingHost :: "fault \<Rightarrow> string \<Rightarrow> string \<Rightarrow> sync_db \<Rightarrow> (string + int) \<times> sync_db" where
  "RenameBindingHost fault previousName newName db =
     (let old = TrimSpace previousName; new = TrimSpace newName; hit = (\<lambda>b. sb_Host b = old \<and> \<not> sb_Deleted b) in
      if old = [] \<or> new = [] then (Inl ''both the previous and the new host name are required'', db)
      else if old = new then (Inr 0, db)
      else (case fault of
          Some e \<Rightarrow> (Inl e, db)
        | None \<Rightarrow> (Inr (int (length (filter hit (db_bindings db)))), db\<lparr>db_bindings := update_where hit (\<lambda>b. b\<lparr>sb_Host := new\<rparr>) (db_bindings db)\<rparr>)))"

text \<open>Unlinking; \<open>forget\<close> removes the row and what belongs to it, else the row is only marked.\<close>

definition DeleteBinding :: "fault \<Rightarrow> string \<Rightarrow> bool \<Rightarrow> sync_db \<Rightarrow> string option \<times> sync_db" where
  "DeleteBinding fault key forget db =
     (case fault of
        Some e \<Rightarrow> (Some e, db)
      | None \<Rightarrow>
          if forget then
            (if key \<notin> set (map sb_UUID (db_bindings db)) then (Some ''record not found'', db)
             else (None, db\<lparr>db_bindings := delete_where (\<lambda>b. sb_UUID b = key) (db_bindings db),
                            db_statuses := delete_where (\<lambda>r. gs_BindingUUID r = key) (db_statuses db),
                            db_baselines := AList.delete key (db_baselines db)\<rparr>))
          else (case GetBinding key db of
              None \<Rightarrow> (Some ''record not found'', db)
            | Some _ \<Rightarrow> (None, updateBinding key (\<lambda>b. b\<lparr>sb_Deleted := True\<rparr>) db)))"

definition ListBindingsForHost :: "string \<Rightarrow> sync_db \<Rightarrow> StackBinding list" where
  "ListBindingsForHost host db =
     (let live = filter (\<lambda>b. \<not> sb_Deleted b) (db_bindings db); byPath = sort_key (\<lambda>b. ToLower (sb_StackPath b)) in
      if host = [] then sort_key (\<lambda>b. ToLower (sb_Host b)) (byPath live) else byPath (filter (\<lambda>b. sb_Host b = host) live))"

definition BindingBaselineOf :: "string \<Rightarrow> sync_db \<Rightarrow> baseline" where
  "BindingBaselineOf key db = (case map_of (db_baselines db) key of None \<Rightarrow> [] | Some b \<Rightarrow> b)"

definition ReplaceBindingBaseline :: "fault \<Rightarrow> string \<Rightarrow> baseline \<Rightarrow> sync_db \<Rightarrow> string option \<times> sync_db" where
  "ReplaceBindingBaseline fault key base db =
     (case fault of Some e \<Rightarrow> (Some e, db) | None \<Rightarrow> (None, db\<lparr>db_baselines := AList.update key base (db_baselines db)\<rparr>))"

text \<open>Rows without a time come first, as SQLite orders them.\<close>

definition ListAutoSyncBindings :: "sync_db \<Rightarrow> StackBinding list" where
  "ListAutoSyncBindings db =
     (let due = sort_key sb_CreatedAt (filter (\<lambda>b. \<not> sb_Deleted b \<and> sb_AutoSyncEnabled b \<and> \<not> sb_AutoSyncPaused b) (db_bindings db)) in
      filter (\<lambda>b. sb_LastAutoSyncAt b = None) due @
      sort_key (\<lambda>b. case sb_LastAutoSyncAt b of Some t \<Rightarrow> t | None \<Rightarrow> 0) (filter (\<lambda>b. sb_LastAutoSyncAt b \<noteq> None) due))"

subsection \<open>Status rows\<close>

definition statusKey :: "GitStackStatus \<Rightarrow> string \<times> string" where
  "statusKey r = (gs_BindingUUID r, gs_ComposePath r)"

definition newStatus :: "string \<Rightarrow> string \<Rightarrow> string \<Rightarrow> GitStackStatus" where
  "newStatus key composePath state = \<lparr>gs_BindingUUID = key, gs_ComposePath = composePath, gs_State = state, gs_ErrorMessage = [], gs_ConflictCount = 0,
     gs_AutomationPaused = False, gs_PauseReason = [], gs_LastCheckedAt = None, gs_LastSuccessAt = None, gs_LastCommit = [],
     gs_DeployState = ''disabled'', gs_DeployError = [], gs_LastDeployAt = None\<rparr>"

definition ReconcileGitStackStatuses :: "fault \<Rightarrow> StackBinding \<Rightarrow> string list \<Rightarrow> string \<Rightarrow> sync_db \<Rightarrow> string option \<times> sync_db" where
  "ReconcileGitStackStatuses fault binding composePaths initialState db =
     (let key = sb_UUID binding; existing = filter (\<lambda>r. gs_BindingUUID r = key) (db_statuses db);
          known = map gs_ComposePath existing; missing = filter (\<lambda>p. p \<notin> set known) composePaths;
          remove = filter (\<lambda>p. p \<notin> set composePaths) known in
      case fault of
        Some e \<Rightarrow> (Some e, db)
      | None \<Rightarrow>
          if \<not> distinct missing then (Some ''UNIQUE constraint failed'', db)
          else (None, db\<lparr>db_statuses := delete_where (\<lambda>r. gs_BindingUUID r = key \<and> gs_ComposePath r \<in> set remove)
             (db_statuses db @ map (\<lambda>p. newStatus key p initialState) missing)\<rparr>))"

definition GitStackStatuses :: "string \<Rightarrow> sync_db \<Rightarrow> GitStackStatus list" where
  "GitStackStatuses key db = sort_key gs_ComposePath (filter (\<lambda>r. gs_BindingUUID r = key) (db_statuses db))"

definition GitStackStatusOf :: "string \<Rightarrow> string \<Rightarrow> sync_db \<Rightarrow> GitStackStatus option" where
  "GitStackStatusOf key composePath db = first_row statusKey (key, composePath) (db_statuses db)"

definition PausedComposePaths :: "string \<Rightarrow> sync_db \<Rightarrow> string list" where
  "PausedComposePaths key db = sort (map gs_ComposePath (filter (\<lambda>r. gs_BindingUUID r = key \<and> gs_AutomationPaused r) (db_statuses db)))"

definition updateStatuses :: "(GitStackStatus \<Rightarrow> bool) \<Rightarrow> (GitStackStatus \<Rightarrow> GitStackStatus) \<Rightarrow> sync_db \<Rightarrow> sync_db" where
  "updateStatuses P f db = db\<lparr>db_statuses := update_where P f (db_statuses db)\<rparr>"

definition SetGitStackPauseReason :: "fault \<Rightarrow> string \<Rightarrow> string \<Rightarrow> bool \<Rightarrow> string \<Rightarrow> sync_db \<Rightarrow> string option \<times> sync_db" where
  "SetGitStackPauseReason fault key composePath paused reason db =
     (if paused \<and> reason \<noteq> stackPauseManual \<and> reason \<noteq> stackPauseRecovery then (Some ''invalid Git stack pause reason'', db)
      else (case fault of
          Some e \<Rightarrow> (Some e, db)
        | None \<Rightarrow>
            if (key, composePath) \<notin> set (map statusKey (db_statuses db)) then (Some ''record not found'', db)
            else (None, updateStatuses (\<lambda>r. statusKey r = (key, composePath))
              (\<lambda>r. r\<lparr>gs_AutomationPaused := paused, gs_PauseReason := (if paused then reason else [])\<rparr>) db)))"

definition SetGitStackPause :: "fault \<Rightarrow> string \<Rightarrow> string \<Rightarrow> bool \<Rightarrow> sync_db \<Rightarrow> string option \<times> sync_db" where
  "SetGitStackPause fault key composePath paused db = SetGitStackPauseReason fault key composePath paused (if paused then stackPauseManual else []) db"

text \<open>An absent selection means every stack of the link, an empty one none.\<close>

definition UpdateGitStackStatuses :: "fault \<Rightarrow> string \<Rightarrow> string list option \<Rightarrow> (GitStackStatus \<Rightarrow> GitStackStatus) \<Rightarrow> sync_db \<Rightarrow> string option \<times> sync_db" where
  "UpdateGitStackStatuses fault key composePaths f db =
     (if composePaths = Some [] then (None, db)
      else (case fault of
          Some e \<Rightarrow> (Some e, db)
        | None \<Rightarrow> (None, updateStatuses (\<lambda>r. gs_BindingUUID r = key \<and> (case composePaths of None \<Rightarrow> True | Some ps \<Rightarrow> gs_ComposePath r \<in> set ps)) f db)))"

definition UpdateGitStackStatusesExcept ::
  "fault \<Rightarrow> string \<Rightarrow> string list option \<Rightarrow> string list \<Rightarrow> (GitStackStatus \<Rightarrow> GitStackStatus) \<Rightarrow> sync_db \<Rightarrow> string option \<times> sync_db" where
  "UpdateGitStackStatusesExcept fault key composePaths excludedStates f db =
     (if composePaths = Some [] then (None, db)
      else (case fault of
          Some e \<Rightarrow> (Some e, db)
        | None \<Rightarrow> (None, updateStatuses (\<lambda>r. gs_BindingUUID r = key \<and> (case composePaths of None \<Rightarrow> True | Some ps \<Rightarrow> gs_ComposePath r \<in> set ps) \<and>
            gs_State r \<notin> set excludedStates) f db)))"

text \<open>The repairs made when the program starts.\<close>

definition terminalDeploymentStates :: "string list" where
  "terminalDeploymentStates = [''success'', ''failed'', ''rolled_back'', ''rollback_failed'']"

definition terminalStackDeployStates :: "string list" where
  "terminalStackDeployStates = [[], ''idle'', ''disabled'', ''success'', ''failed'', ''rolled_back'', ''rollback_failed'']"

definition MarkInterruptedDeployments :: "sync_db \<Rightarrow> int \<times> sync_db" where
  "MarkInterruptedDeployments db =
     (let restoring = (\<lambda>d. dp_State d = ''rolling_back'');
          unfinished = (\<lambda>d. dp_State d \<notin> set terminalDeploymentStates);
          ds = update_where restoring (\<lambda>d. d\<lparr>dp_State := ''rollback_failed'',
                 dp_Result := ''Dockman stopped while restoring the previous version; verify this stack manually''\<rparr>) (db_deployments db)
      in (int (length (filter restoring (db_deployments db))) + int (length (filter unfinished ds)),
          db\<lparr>db_deployments := update_where unfinished (\<lambda>d. d\<lparr>dp_State := ''failed'',
                 dp_Result := ''Dockman stopped before the controlled deployment completed''\<rparr>) ds\<rparr>))"

definition MarkInterruptedInitialSyncs :: "sync_db \<Rightarrow> sync_db" where
  "MarkInterruptedInitialSyncs db = db\<lparr>db_bindings := update_where (\<lambda>b. \<not> sb_Deleted b \<and> sb_InitialSyncState b = ''checking'')
     (\<lambda>b. b\<lparr>sb_InitialSyncState := ''error'', sb_InitialSyncError :=
       ''Dockman stopped before this Folder Link finished initializing; preview a direction to establish its baseline''\<rparr>) (db_bindings db)\<rparr>"

definition ClearInterruptedStackDeployStates :: "sync_db \<Rightarrow> sync_db" where
  "ClearInterruptedStackDeployStates db = updateStatuses (\<lambda>r. gs_DeployState r \<notin> set terminalStackDeployStates)
     (\<lambda>r. r\<lparr>gs_DeployState := ''failed'', gs_DeployError := ''Dockman stopped before this controlled deployment completed''\<rparr>) db"

subsection \<open>Which stacks are selected\<close>

definition initialStackSyncState :: "StackBinding \<Rightarrow> string" where
  "initialStackSyncState b =
     (if sb_InitialSyncState b \<in> {''reconciled'', ''imported'', ''exported''} then stackSyncUpToDate else stackSyncPending)"

definition reconcileGitStackStatuses :: "fault \<Rightarrow> StackBinding \<Rightarrow> sync_db \<Rightarrow> string option \<times> sync_db" where
  "reconcileGitStackStatuses fault b db = ReconcileGitStackStatuses fault b (selectedComposePaths b) (initialStackSyncState b) db"

fun reconcileAll :: "fault \<Rightarrow> StackBinding list \<Rightarrow> sync_db \<Rightarrow> string option \<times> sync_db" where
  "reconcileAll fault [] db = (None, db)"
| "reconcileAll fault (b # bs) db =
     (case reconcileGitStackStatuses fault b db of
        (Some e, db1) \<Rightarrow> (Some e, db1)
      | (None, db1) \<Rightarrow> reconcileAll fault bs db1)"

definition InitializeGitStackStatuses :: "bool \<Rightarrow> fault \<Rightarrow> sync_db \<Rightarrow> string option \<times> sync_db" where
  "InitializeGitStackStatuses enabled fault db = (if \<not> enabled then (None, db) else reconcileAll fault (ListBindingsForHost [] db) db)"

text \<open>\<open>listFault\<close>: the paused stacks could not be read.\<close>

definition activeAutomationComposePaths :: "bool \<Rightarrow> StackBinding \<Rightarrow> sync_db \<Rightarrow> string list" where
  "activeAutomationComposePaths listFault b db =
     (let selected = autoSyncComposePaths b; paused = PausedComposePaths (sb_UUID b) db in
      if listFault \<or> paused = [] then selected else filter (\<lambda>p. p \<notin> set paused) selected)"

definition bindingHasActiveStackState :: "bool \<Rightarrow> StackBinding \<Rightarrow> string \<Rightarrow> sync_db \<Rightarrow> bool" where
  "bindingHasActiveStackState listFault b state db =
     (\<not> listFault \<and> list_ex (\<lambda>r. gs_State r = state \<and> gs_ComposePath r \<in> set (activeAutomationComposePaths listFault b db)) (GitStackStatuses (sb_UUID b) db))"

definition activeUpdate :: "gotime \<Rightarrow> string \<Rightarrow> string \<Rightarrow> string \<Rightarrow> bool \<Rightarrow> GitStackStatus \<Rightarrow> GitStackStatus" where
  "activeUpdate now state message commit success r =
     (let r1 = r\<lparr>gs_State := state, gs_ErrorMessage := message, gs_LastCheckedAt := Some now,
                 gs_ConflictCount := (if state \<noteq> stackSyncConflict then 0 else gs_ConflictCount r)\<rparr>
      in if success then r1\<lparr>gs_LastSuccessAt := Some now, gs_LastCommit := commit\<rparr> else r1)"

definition updateActiveStackStatuses :: "bool \<Rightarrow> fault \<Rightarrow> gotime \<Rightarrow> StackBinding \<Rightarrow> string \<Rightarrow> string \<Rightarrow> string \<Rightarrow> bool \<Rightarrow> sync_db \<Rightarrow> sync_db" where
  "updateActiveStackStatuses listFault fault now b state message commit success db =
     snd (UpdateGitStackStatuses fault (sb_UUID b) (Some (activeAutomationComposePaths listFault b db)) (activeUpdate now state message commit success) db)"

definition updateActiveStackStatusesPreservingLocal ::
  "bool \<Rightarrow> fault \<Rightarrow> gotime \<Rightarrow> StackBinding \<Rightarrow> string \<Rightarrow> string \<Rightarrow> string \<Rightarrow> bool \<Rightarrow> string list \<Rightarrow> sync_db \<Rightarrow> sync_db" where
  "updateActiveStackStatusesPreservingLocal listFault fault now b state message commit success preserved db =
     snd (UpdateGitStackStatusesExcept fault (sb_UUID b) (Some (activeAutomationComposePaths listFault b db))
       ([stackSyncLocalChanges, stackSyncLocalDeleted, stackSyncOrphaned, stackSyncConflict] @ preserved)
       (activeUpdate now state message commit success) db)"

subsection \<open>What a preview records\<close>

record stack_aggregate =
  sa_state :: string
  sa_conflicts :: int
  sa_message :: string

definition aggregateEntry :: "TransferPreview \<Rightarrow> string list \<Rightarrow> string \<Rightarrow> PreviewEntry \<Rightarrow> stack_aggregate \<Rightarrow> stack_aggregate" where
  "aggregateEntry pv orphans composePath e a =
     (if pe_Status e = ''skipped_large_directory'' then
        (if sa_state a \<noteq> stackSyncConflict then a\<lparr>sa_state := stackSyncError,
           sa_message := ''A large local data directory was automatically skipped while other stacks continued: '' @ pe_Path e\<rparr> else a)
      else if pe_Status e = ''skipped_permission'' then
        (if sa_state a \<noteq> stackSyncConflict then a\<lparr>sa_state := stackSyncError,
           sa_message := ''A local stack item cannot be read; it was skipped while other stacks continued: '' @ pe_Path e\<rparr> else a)
      else if pe_Status e = ''conflict'' then a\<lparr>sa_state := stackSyncConflict, sa_conflicts := sa_conflicts a + 1\<rparr>
      else if pe_Status e = ''deleted_on_git'' then
        (if sa_state a \<noteq> stackSyncConflict then a\<lparr>sa_state := (if composePath \<in> set orphans then stackSyncOrphaned else stackSyncLocalChanges)\<rparr> else a)
      else if pe_Status e = ''add'' \<or> pe_Status e = ''modify'' then
        (if sa_state a = stackSyncConflict \<or> sa_state a = stackSyncOrphaned \<or> sa_state a = stackSyncLocalDeleted then a
         else a\<lparr>sa_state := (if pv_Direction pv = toStack \<and> pe_ConflictKind e = ''destination_deleted'' then stackSyncLocalDeleted
                else if pv_Direction pv = toRepository then stackSyncLocalChanges else stackSyncRemoteChanges)\<rparr>)
      else if pe_Status e = ''deleted_locally'' then
        (if sa_state a \<noteq> stackSyncConflict then a\<lparr>sa_state := stackSyncLocalDeleted\<rparr> else a)
      else a)"

text \<open>One stack sees the entries it owns, in the order of the preview.\<close>

definition ownEntries :: "TransferPreview \<Rightarrow> string list \<Rightarrow> string \<Rightarrow> PreviewEntry list" where
  "ownEntries pv paths composePath =
     map snd (filter (\<lambda>ce. fst ce = composePath) (concat (map (\<lambda>e. map (\<lambda>c. (c, e)) (composePathsForFile paths (pe_Path e))) (pv_Entries pv))))"

definition stackAggregate :: "TransferPreview \<Rightarrow> string list \<Rightarrow> string list \<Rightarrow> string \<Rightarrow> stack_aggregate" where
  "stackAggregate pv orphans paths composePath =
     foldl (\<lambda>a e. aggregateEntry pv orphans composePath e a) \<lparr>sa_state = stackSyncUpToDate, sa_conflicts = 0, sa_message = []\<rparr>
       (ownEntries pv paths composePath)"

definition recordAggregate :: "gotime \<Rightarrow> stack_aggregate \<Rightarrow> GitStackStatus \<Rightarrow> GitStackStatus" where
  "recordAggregate now a r =
     (let r1 = r\<lparr>gs_State := sa_state a, gs_ErrorMessage := sa_message a, gs_ConflictCount := sa_conflicts a, gs_LastCheckedAt := Some now\<rparr>
      in if sa_state a = stackSyncUpToDate then r1\<lparr>gs_LastSuccessAt := Some now\<rparr> else r1)"

definition recordPreviewStackStatuses :: "bool \<Rightarrow> fault \<Rightarrow> gotime \<Rightarrow> StackBinding \<Rightarrow> bool \<Rightarrow> string list \<Rightarrow> TransferPreview \<Rightarrow> sync_db \<Rightarrow> sync_db" where
  "recordPreviewStackStatuses listFault fault now b automation orphans pv db =
     (let paths = (if automation then activeAutomationComposePaths listFault b db else selectedComposePaths b) in
      foldl (\<lambda>db p. snd (UpdateGitStackStatuses fault (sb_UUID b) (Some [p]) (recordAggregate now (stackAggregate pv orphans paths p)) db)) db paths)"

definition stackTransferPaths :: "TransferPreview \<Rightarrow> string list \<Rightarrow> string \<Rightarrow> string list \<times> int" where
  "stackTransferPaths pv composePaths target =
     (let own = filter (\<lambda>e. target \<in> set (composePathsForFile composePaths (pe_Path e))) (pv_Entries pv) in
      (sort (map pe_Path (filter (\<lambda>e. pe_Status e \<in> {''add'', ''modify''}) own)), int (length (filter (\<lambda>e. pe_Status e = ''conflict'') own))))"

definition stackImportPaths :: "TransferPreview \<Rightarrow> string list \<Rightarrow> string \<Rightarrow> string list \<times> int \<times> bool" where
  "stackImportPaths pv composePaths target =
     (let own = filter (\<lambda>e. target \<in> set (composePathsForFile composePaths (pe_Path e))) (pv_Entries pv);
          offered = (\<lambda>e. pe_Status e \<in> {''add'', ''modify'', ''remove_control''}) in
      (sort (map pe_Path (filter (\<lambda>e. offered e \<and> pe_ConflictKind e \<noteq> ''destination_deleted'') own)),
       int (length (filter (\<lambda>e. (offered e \<and> pe_ConflictKind e = ''destination_deleted'') \<or> pe_Status e \<in> {''conflict'', ''deleted_locally''}) own)),
       list_ex (\<lambda>e. pe_Status e = ''deleted_on_git'') own))"

subsection \<open>What the browser is shown\<close>

record Repository =
  rp_UUID :: string
  rp_Name :: string
  rp_DefaultBranch :: string
  rp_ExcludePatterns :: string

record GitStackStatusView =
  sv_BindingID :: string
  sv_Host :: string
  sv_StackPath :: string
  sv_ComposePath :: string
  sv_FullComposePath :: string
  sv_RepositoryID :: string
  sv_RepositoryName :: string
  sv_RepositoryBranch :: string
  sv_RepositorySubPath :: string
  sv_State :: string
  sv_Selected :: bool
  sv_Error :: string
  sv_ConflictCount :: int
  sv_AutoSyncEnabled :: bool
  sv_StackAutoSyncEnabled :: bool
  sv_BindingAutomationPaused :: bool
  sv_BindingSyncState :: string
  sv_BindingSyncError :: string
  sv_AutomationPaused :: bool
  sv_PauseReason :: string
  sv_AutoDeployEnabled :: bool
  sv_AutoDeployRollbackEnabled :: bool
  sv_AutoSyncInterval :: int
  sv_LastCheckedAt :: "gotime option"
  sv_LastSuccessAt :: "gotime option"
  sv_NextCheckAt :: "gotime option"
  sv_LastCommit :: string
  sv_DeployState :: string
  sv_DeployError :: string
  sv_LastDeployAt :: "gotime option"

definition defaultAutoSyncIntervalMinutes :: int where "defaultAutoSyncIntervalMinutes = 15"
definition minAutoSyncIntervalMinutes :: int where "minAutoSyncIntervalMinutes = 5"
definition maxAutoSyncIntervalMinutes :: int where "maxAutoSyncIntervalMinutes = 24 * 60"

definition normalizedAutoSyncInterval :: "int \<Rightarrow> int" where
  "normalizedAutoSyncInterval interval =
     (if interval < minAutoSyncIntervalMinutes \<or> interval > maxAutoSyncIntervalMinutes then defaultAutoSyncIntervalMinutes else interval)"

text \<open>A repository failure that an old release copied into the row is not shown as the stack's own.\<close>

definition copiedFailure :: "StackBinding \<Rightarrow> GitStackStatus \<Rightarrow> bool" where
  "copiedFailure b r \<longleftrightarrow> sb_AutoSyncState b = ''error'' \<and> gs_State r = stackSyncError \<and> gs_ErrorMessage r \<noteq> [] \<and> gs_ErrorMessage r = sb_AutoSyncError b"

definition shownState :: "StackBinding \<Rightarrow> GitStackStatus \<Rightarrow> string" where
  "shownState b r =
     (let s1 = (if copiedFailure b r then (if gs_LastSuccessAt r \<noteq> None then stackSyncUpToDate else stackSyncPending) else gs_State r);
          s2 = (if gs_AutomationPaused r \<and> s1 = stackSyncChecking then stackSyncPending else s1)
      in if sb_AutoSyncState b = ''syncing'' \<and> gs_ComposePath r \<in> set (autoSyncComposePaths b) \<and> \<not> sb_AutoSyncPaused b \<and> \<not> gs_AutomationPaused r \<and>
            s2 \<in> {stackSyncPending, stackSyncUpToDate, stackSyncRemoteChanges} then stackSyncChecking else s2)"

definition shownDeployState :: "StackBinding \<Rightarrow> GitStackStatus \<Rightarrow> string" where
  "shownDeployState b r =
     (if \<not> (sb_AutoDeployEnabled b \<and> gs_ComposePath r \<in> set (splitPatternLines (sb_AutoDeployComposePaths b))) then ''disabled''
      else if gs_DeployState r = [] \<or> gs_DeployState r = ''disabled'' then ''idle'' else gs_DeployState r)"

definition shownNextCheck :: "gotime \<Rightarrow> StackBinding \<Rightarrow> GitStackStatus \<Rightarrow> gotime option" where
  "shownNextCheck now b r =
     (if sb_AutoSyncEnabled b \<and> gs_ComposePath r \<in> set (autoSyncComposePaths b) \<and> \<not> sb_AutoSyncPaused b \<and> \<not> gs_AutomationPaused r
      then Some ((case sb_LastAutoSyncAt b of Some t \<Rightarrow> t | None \<Rightarrow> now) + normalizedAutoSyncInterval (sb_AutoSyncIntervalMinutes b) * minute)
      else None)"

definition noRepository :: Repository where
  "noRepository = \<lparr>rp_UUID = [], rp_Name = [], rp_DefaultBranch = [], rp_ExcludePatterns = []\<rparr>"

definition repositoryOf :: "Repository list \<Rightarrow> StackBinding \<Rightarrow> Repository" where
  "repositoryOf repositories b = (case first_row rp_UUID (sb_RepositoryUUID b) repositories of Some r \<Rightarrow> r | None \<Rightarrow> noRepository)"

definition statusView :: "gotime \<Rightarrow> Repository list \<Rightarrow> StackBinding \<Rightarrow> GitStackStatus \<Rightarrow> GitStackStatusView" where
  "statusView now repositories b r =
     (let repo = repositoryOf repositories b; deploys = (sb_AutoDeployEnabled b \<and> gs_ComposePath r \<in> set (splitPatternLines (sb_AutoDeployComposePaths b))) in
      \<lparr>sv_BindingID = sb_UUID b, sv_Host = sb_Host b, sv_StackPath = sb_StackPath b, sv_ComposePath = gs_ComposePath r,
       sv_FullComposePath = path_join [sb_StackPath b, gs_ComposePath r], sv_RepositoryID = rp_UUID repo, sv_RepositoryName = rp_Name repo,
       sv_RepositoryBranch = rp_DefaultBranch repo, sv_RepositorySubPath = path_join [sb_SubPath b, gs_ComposePath r],
       sv_State = shownState b r, sv_Selected = True, sv_Error = (if copiedFailure b r then [] else gs_ErrorMessage r),
       sv_ConflictCount = gs_ConflictCount r, sv_AutoSyncEnabled = sb_AutoSyncEnabled b,
       sv_StackAutoSyncEnabled = (gs_ComposePath r \<in> set (autoSyncComposePaths b)), sv_BindingAutomationPaused = sb_AutoSyncPaused b,
       sv_BindingSyncState = sb_AutoSyncState b, sv_BindingSyncError = sb_AutoSyncError b, sv_AutomationPaused = gs_AutomationPaused r,
       sv_PauseReason = gs_PauseReason r, sv_AutoDeployEnabled = deploys, sv_AutoDeployRollbackEnabled = (deploys \<and> sb_AutoDeployRollbackEnabled b),
       sv_AutoSyncInterval = normalizedAutoSyncInterval (sb_AutoSyncIntervalMinutes b), sv_LastCheckedAt = gs_LastCheckedAt r,
       sv_LastSuccessAt = gs_LastSuccessAt r, sv_NextCheckAt = shownNextCheck now b r, sv_LastCommit = gs_LastCommit r,
       sv_DeployState = shownDeployState b r, sv_DeployError = gs_DeployError r, sv_LastDeployAt = gs_LastDeployAt r\<rparr>)"

definition unselectedView :: "Repository list \<Rightarrow> StackBinding \<Rightarrow> string \<Rightarrow> GitStackStatusView" where
  "unselectedView repositories b composePath =
     (let repo = repositoryOf repositories b in
      \<lparr>sv_BindingID = sb_UUID b, sv_Host = sb_Host b, sv_StackPath = sb_StackPath b, sv_ComposePath = composePath,
       sv_FullComposePath = path_join [sb_StackPath b, composePath], sv_RepositoryID = rp_UUID repo, sv_RepositoryName = rp_Name repo,
       sv_RepositoryBranch = rp_DefaultBranch repo, sv_RepositorySubPath = path_join [sb_SubPath b, composePath],
       sv_State = stackSyncUnselected, sv_Selected = False, sv_Error = [], sv_ConflictCount = 0, sv_AutoSyncEnabled = sb_AutoSyncEnabled b,
       sv_StackAutoSyncEnabled = False, sv_BindingAutomationPaused = sb_AutoSyncPaused b, sv_BindingSyncState = sb_AutoSyncState b,
       sv_BindingSyncError = [], sv_AutomationPaused = False, sv_PauseReason = [], sv_AutoDeployEnabled = False, sv_AutoDeployRollbackEnabled = False,
       sv_AutoSyncInterval = 0, sv_LastCheckedAt = None, sv_LastSuccessAt = None, sv_NextCheckAt = None, sv_LastCommit = [],
       sv_DeployState = ''disabled'', sv_DeployError = [], sv_LastDeployAt = None\<rparr>)"

text \<open>The rows of live links, then the catalogued stacks that are not selected, sorted by host and path.\<close>

definition ListGitStackStatuses :: "string \<Rightarrow> sync_db \<Rightarrow> GitStackStatus list" where
  "ListGitStackStatuses host db =
     sort_key gs_BindingUUID (sort_key gs_ComposePath
       (filter (\<lambda>r. case GetBinding (gs_BindingUUID r) db of None \<Rightarrow> False | Some b \<Rightarrow> host = [] \<or> sb_Host b = host) (db_statuses db)))"

definition ListGitStackStatusViews :: "gotime \<Rightarrow> Repository list \<Rightarrow> string \<Rightarrow> sync_db \<Rightarrow> GitStackStatusView list" where
  "ListGitStackStatusViews now repositories rawHost db =
     (let host = TrimSpace rawHost; bindings = ListBindingsForHost host db;
          shown = List.map_filter (\<lambda>r. map_option (\<lambda>b. statusView now repositories b r) (first_row sb_UUID (gs_BindingUUID r) bindings)) (ListGitStackStatuses host db);
          present = map (\<lambda>v. (sv_BindingID v, sv_ComposePath v)) shown;
          rest = concat (map (\<lambda>b. map (unselectedView repositories b)
            (filter (\<lambda>p. p \<notin> set (selectedComposePaths b) \<and> (sb_UUID b, p) \<notin> set present) (splitPatternLines (sb_ComposePaths b)))) bindings)
      in sort_key sv_Host (sort_key sv_FullComposePath (shown @ rest)))"

definition gitStackStatusView :: "gotime \<Rightarrow> Repository list \<Rightarrow> string \<Rightarrow> string \<Rightarrow> string \<Rightarrow> sync_db \<Rightarrow> GitStackStatusView option" where
  "gitStackStatusView now repositories host bindingID composePath db =
     find (\<lambda>v. sv_BindingID v = bindingID \<and> sv_ComposePath v = composePath) (ListGitStackStatusViews now repositories host db)"

end
