(* ===== verification/Sync_Status_Laws.thy ===== *)
theory Sync_Status_Laws
  imports Sync_Status
begin

section \<open>Laws of the recorded states\<close>

text \<open>
  What the rows of the synchronisation promise: links keep their endpoints and stay unlinked, every selected
  stack has one row, a preview is recorded exactly, restarts leave no unfinished run, and the browser is shown
  every decision that is waiting.
\<close>

interpretation binding_index: unique_index sb_UUID "\<lambda>_ r. r"
  by unfold_locales simp

subsection \<open>Links\<close>

text \<open>Every statement the synchronisation issues, but for the deletion of a forgotten link and the renaming of a host.\<close>

definition keepsKey :: "(GitStackStatus \<Rightarrow> GitStackStatus) \<Rightarrow> bool" where
  "keepsKey f \<longleftrightarrow> (\<forall>r. statusKey (f r) = statusKey r)"

inductive link_step :: "sync_db \<Rightarrow> sync_db \<Rightarrow> bool" where
  save: "link_step db (snd (SaveBinding fault row db))"
| deployState: "link_step db (snd (UpdateBindingAutoDeployState fault key state message at db))"
| syncState: "link_step db (snd (UpdateBindingAutoSyncState fault key state message commit at1 at2 db))"
| unlink: "link_step db (snd (DeleteBinding fault key False db))"
| clearBlocks: "link_step db (ClearStaleAutoSyncBlocks db)"
| interruptedSyncs: "link_step db (MarkInterruptedInitialSyncs db)"
| interruptedDeployments: "link_step db (snd (MarkInterruptedDeployments db))"
| interruptedStacks: "link_step db (ClearInterruptedStackDeployStates db)"
| reconcile: "link_step db (snd (reconcileGitStackStatuses fault b db))"
| pause: "link_step db (snd (SetGitStackPauseReason fault key composePath paused reason db))"
| statuses: "keepsKey f \<Longrightarrow> link_step db (snd (UpdateGitStackStatuses fault key ps f db))"
| baseline: "link_step db (snd (ReplaceBindingBaseline fault key base db))"

definition succeeds :: "StackBinding \<Rightarrow> StackBinding \<Rightarrow> bool" where
  "succeeds b b' \<longleftrightarrow> sb_UUID b' = sb_UUID b \<and> sameEndpoints b b' \<and> (sb_Deleted b \<longrightarrow> sb_Deleted b')"

definition linksKept :: "StackBinding list \<Rightarrow> StackBinding list \<Rightarrow> bool" where
  "linksKept bs bs' \<longleftrightarrow> distinct (map sb_UUID bs') \<and> (\<forall>b\<in>set bs. \<exists>b'\<in>set bs'. succeeds b b')"

lemma succeeds_refl [simp]: "succeeds b b" by (simp add: succeeds_def sameEndpoints_def)

lemma succeeds_trans: "succeeds a b \<Longrightarrow> succeeds b c \<Longrightarrow> succeeds a c" by (auto simp: succeeds_def sameEndpoints_def)

lemma linksKept_refl: "distinct (map sb_UUID bs) \<Longrightarrow> linksKept bs bs"
  unfolding linksKept_def using succeeds_refl by blast

lemma linksKept_update:
  assumes "distinct (map sb_UUID bs)" "\<And>b. b \<in> set bs \<Longrightarrow> P b \<Longrightarrow> succeeds b (f b)"
  shows "linksKept bs (update_where P f bs)"
proof -
  have "map sb_UUID (update_where P f bs) = map sb_UUID bs"
    unfolding update_where_def using assms(2) by (auto simp: succeeds_def)
  moreover have "\<exists>b'\<in>set (update_where P f bs). succeeds b b'" if "b \<in> set bs" for b
    using that assms(2)[of b] by (intro bexI[of _ "if P b then f b else b"]) (auto simp: update_where_def)
  ultimately show ?thesis using assms(1) by (simp add: linksKept_def)
qed

lemma linksKept_save:
  assumes "distinct (map sb_UUID (db_bindings db))"
  shows "linksKept (db_bindings db) (db_bindings (snd (SaveBinding fault row db)))"
proof (cases "snd (SaveBinding fault row db) = db")
  case True
  then show ?thesis using linksKept_refl assms by simp
next
  case False
  then have stored: "db_bindings (snd (SaveBinding fault row db)) = upsert sb_UUID (\<lambda>_ r. r) row (db_bindings db)"
    and free: "\<And>b. first_row sb_UUID (sb_UUID row) (db_bindings db) = Some b \<Longrightarrow> sameEndpoints b row \<and> \<not> sb_Deleted b"
    by (auto simp: SaveBinding_def split: if_splits option.splits)
  have "\<exists>b'\<in>set (upsert sb_UUID (\<lambda>_ r. r) row (db_bindings db)). succeeds b b'" if b: "b \<in> set (db_bindings db)" for b
  proof (cases "sb_UUID b = sb_UUID row")
    case True
    then have "first_row sb_UUID (sb_UUID row) (db_bindings db) = Some b" using b first_row_unique[OF assms] by blast
    then have "succeeds b row" using free True by (simp add: succeeds_def)
    moreover have "row \<in> set (upsert sb_UUID (\<lambda>_ r. r) row (db_bindings db))" using b True by (force simp: upsert_def)
    ultimately show ?thesis by blast
  next
    case False
    then have "b \<in> set (upsert sb_UUID (\<lambda>_ r. r) row (db_bindings db))" using b by (auto simp: upsert_def)
    then show ?thesis by (rule bexI[rotated]) simp
  qed
  then show ?thesis using binding_index.upsert_distinct[OF assms] stored by (simp add: linksKept_def)
qed

lemma db_bindings_statuses [simp]: "db_bindings (updateStatuses P f db) = db_bindings db" by (simp add: updateStatuses_def)

lemma link_step_kept:
  assumes "link_step db db'" "distinct (map sb_UUID (db_bindings db))"
  shows "linksKept (db_bindings db) (db_bindings db')"
  using assms
proof (cases rule: link_step.cases)
  case (save fault row)
  then show ?thesis using linksKept_save assms(2) by simp
next
  case (deployState fault key state message at)
  then show ?thesis using assms(2)
    by (cases fault) (auto simp: UpdateBindingAutoDeployState_def updateBinding_def linksKept_refl succeeds_def sameEndpoints_def intro!: linksKept_update)
next
  case (syncState fault key state message commit at1 at2)
  then show ?thesis using assms(2)
    by (cases fault) (auto simp: UpdateBindingAutoSyncState_def updateBinding_def linksKept_refl succeeds_def sameEndpoints_def intro!: linksKept_update)
next
  case (unlink fault key)
  then show ?thesis using assms(2)
    by (cases fault; cases "GetBinding key db") (auto simp: DeleteBinding_def updateBinding_def linksKept_refl succeeds_def sameEndpoints_def intro!: linksKept_update)
next
  case clearBlocks
  then show ?thesis using assms(2) by (auto simp: ClearStaleAutoSyncBlocks_def succeeds_def sameEndpoints_def intro!: linksKept_update)
next
  case interruptedSyncs
  then show ?thesis using assms(2) by (auto simp: MarkInterruptedInitialSyncs_def succeeds_def sameEndpoints_def intro!: linksKept_update)
next
  case interruptedDeployments
  then show ?thesis using assms(2) by (simp add: MarkInterruptedDeployments_def Let_def linksKept_refl)
next
  case interruptedStacks
  then show ?thesis using assms(2) by (simp add: ClearInterruptedStackDeployStates_def linksKept_refl)
next
  case (reconcile fault b)
  then show ?thesis using assms(2)
    by (cases fault) (simp_all add: reconcileGitStackStatuses_def ReconcileGitStackStatuses_def Let_def linksKept_refl)
next
  case (pause fault key composePath paused reason)
  then show ?thesis using assms(2) by (cases fault) (simp_all add: SetGitStackPauseReason_def linksKept_refl)
next
  case (statuses f fault key ps)
  then show ?thesis using assms(2) by (cases fault) (simp_all add: UpdateGitStackStatuses_def linksKept_refl)
next
  case (baseline fault key base)
  then show ?thesis using assms(2) by (cases fault) (simp_all add: ReplaceBindingBaseline_def linksKept_refl)
qed

lemma link_steps_kept:
  assumes "link_step\<^sup>*\<^sup>* db db'" "distinct (map sb_UUID (db_bindings db))"
  shows "linksKept (db_bindings db) (db_bindings db')"
  using assms
proof (induction rule: rtranclp_induct)
  case base
  then show ?case by (simp add: linksKept_refl)
next
  case (step db1 db2)
  then have a: "linksKept (db_bindings db) (db_bindings db1)" by simp
  then have b: "linksKept (db_bindings db1) (db_bindings db2)" using link_step_kept[OF step.hyps(2)] by (simp add: linksKept_def)
  show ?case using a b unfolding linksKept_def by (metis succeeds_trans)
qed


definition sampleDb :: sync_db where
  "sampleDb = \<lparr>db_bindings = [sampleBinding], db_statuses = [], db_deployments = [], db_baselines = []\<rparr>"


subsection \<open>One row per selected stack\<close>

text \<open>
  C26: after the rows of a link were reconciled with its selection, it has exactly one row for each selected stack and
  none besides; rows that were there keep everything that was recorded, the rows of other links are untouched, and a
  new row claims neither a success nor a deployment.
\<close>

theorem reconcile_one_row_per_stack:
  assumes "distinct (map statusKey (db_statuses db))" "reconcileGitStackStatuses None b db = (None, db1)"
  shows "distinct (map statusKey (db_statuses db1)) \<and>
    gs_ComposePath ` {r \<in> set (db_statuses db1). gs_BindingUUID r = sb_UUID b} = set (selectedComposePaths b) \<and>
    (\<forall>r\<in>set (db_statuses db). gs_BindingUUID r \<noteq> sb_UUID b \<or> gs_ComposePath r \<in> set (selectedComposePaths b) \<longrightarrow> r \<in> set (db_statuses db1)) \<and>
    (\<forall>r\<in>set (db_statuses db1). r \<notin> set (db_statuses db) \<longrightarrow>
       gs_BindingUUID r = sb_UUID b \<and> gs_State r = initialStackSyncState b \<and> gs_LastSuccessAt r = None \<and> gs_DeployState r = ''disabled'')"
proof -
  let ?mine = "filter (\<lambda>r. gs_BindingUUID r = sb_UUID b) (db_statuses db)"
  let ?known = "map gs_ComposePath ?mine" and ?sel = "selectedComposePaths b"
  let ?missing = "filter (\<lambda>p. p \<notin> set ?known) ?sel" and ?gone = "filter (\<lambda>p. p \<notin> set ?sel) ?known"
  let ?new = "map (\<lambda>p. newStatus (sb_UUID b) p (initialStackSyncState b)) ?missing"
  have d: "distinct ?missing" and db1: "db_statuses db1 = delete_where (\<lambda>r. gs_BindingUUID r = sb_UUID b \<and> gs_ComposePath r \<in> set ?gone) (db_statuses db @ ?new)"
    using assms(2) by (auto simp: reconcileGitStackStatuses_def ReconcileGitStackStatuses_def Let_def split: if_splits)
  have fields: "gs_BindingUUID (newStatus key p st) = key" "gs_ComposePath (newStatus key p st) = p" for key p st by (simp_all add: newStatus_def)
  have keys: "map statusKey ?new = map (Pair (sb_UUID b)) ?missing" by (simp add: statusKey_def fields)
  have "distinct (map statusKey ?new)" unfolding keys using d by (simp add: distinct_map inj_on_def)
  moreover have "set (map statusKey (db_statuses db)) \<inter> set (map statusKey ?new) = {}"
    unfolding keys by (auto simp: statusKey_def)
  ultimately have "distinct (map statusKey (db_statuses db @ ?new))" unfolding map_append distinct_append using assms(1) by blast
  then have "distinct (map statusKey (db_statuses db1))" unfolding db1 by (rule distinct_delete_where)
  moreover have "gs_ComposePath ` {r \<in> set (db_statuses db1). gs_BindingUUID r = sb_UUID b} = set ?sel" (is "?l = _")
  proof
    show "?l \<subseteq> set ?sel" unfolding db1 by (auto simp: fields)
    show "set ?sel \<subseteq> ?l"
    proof
      fix p assume p: "p \<in> set ?sel"
      show "p \<in> ?l"
      proof (cases "p \<in> set ?known")
        case True
        then obtain r where "r \<in> set (db_statuses db)" "gs_BindingUUID r = sb_UUID b" "gs_ComposePath r = p" by auto
        then show ?thesis using p unfolding db1 by (intro image_eqI[of _ _ r]) auto
      next
        case False
        then have "newStatus (sb_UUID b) p (initialStackSyncState b) \<in> set ?new" using p by simp
        then show ?thesis using p unfolding db1 by (intro image_eqI[of _ _ "newStatus (sb_UUID b) p (initialStackSyncState b)"]) (simp_all add: fields)
      qed
    qed
  qed
  moreover have "\<forall>r\<in>set (db_statuses db). gs_BindingUUID r \<noteq> sb_UUID b \<or> gs_ComposePath r \<in> set ?sel \<longrightarrow> r \<in> set (db_statuses db1)"
    unfolding db1 by auto
  moreover have "\<forall>r\<in>set (db_statuses db1). r \<notin> set (db_statuses db) \<longrightarrow>
       gs_BindingUUID r = sb_UUID b \<and> gs_State r = initialStackSyncState b \<and> gs_LastSuccessAt r = None \<and> gs_DeployState r = ''disabled''"
    unfolding db1 by (auto simp: newStatus_def)
  ultimately show ?thesis by blast
qed

theorem reconcile_one_row_per_stack_witness:
  "gs_ComposePath ` {r \<in> set (db_statuses (snd (reconcileGitStackStatuses None sampleBinding sampleDb))). gs_BindingUUID r = sb_UUID sampleBinding} = {''app/compose.yml''}"
proof -
  have run: "reconcileGitStackStatuses None sampleBinding sampleDb = (None, snd (reconcileGitStackStatuses None sampleBinding sampleDb))" by code_simp
  have d: "distinct (map statusKey (db_statuses sampleDb))" by (simp add: sampleDb_def)
  have "selectedComposePaths sampleBinding = [''app/compose.yml'']" by code_simp
  then show ?thesis using reconcile_one_row_per_stack[OF d run] by simp
qed

subsection \<open>What a preview records\<close>

definition decisive :: "PreviewEntry \<Rightarrow> bool" where
  "decisive e \<longleftrightarrow> pe_Status e \<in> {''skipped_large_directory'', ''skipped_permission'', ''conflict'', ''deleted_on_git'', ''add'', ''modify'', ''deleted_locally''}"

lemma aggregateEntry_conflicts:
  "sa_conflicts (aggregateEntry pv orphans c e a) = sa_conflicts a + (if pe_Status e = ''conflict'' then 1 else 0)"
  by (simp add: aggregateEntry_def)

lemma aggregateEntry_conflict:
  "sa_state (aggregateEntry pv orphans c e a) = stackSyncConflict \<longleftrightarrow> sa_state a = stackSyncConflict \<or> pe_Status e = ''conflict''"
  by (auto simp: aggregateEntry_def stack_states)

lemma aggregateEntry_up_to_date:
  "sa_state (aggregateEntry pv orphans c e a) = stackSyncUpToDate \<longleftrightarrow> sa_state a = stackSyncUpToDate \<and> \<not> decisive e"
  by (auto simp: aggregateEntry_def stack_states decisive_def)

lemma aggregate_fold:
  "sa_conflicts (foldl (\<lambda>a e. aggregateEntry pv orphans c e a) a es) = sa_conflicts a + int (length (filter (\<lambda>e. pe_Status e = ''conflict'') es))"
  "sa_state (foldl (\<lambda>a e. aggregateEntry pv orphans c e a) a es) = stackSyncConflict \<longleftrightarrow> sa_state a = stackSyncConflict \<or> (\<exists>e\<in>set es. pe_Status e = ''conflict'')"
  "sa_state (foldl (\<lambda>a e. aggregateEntry pv orphans c e a) a es) = stackSyncUpToDate \<longleftrightarrow> sa_state a = stackSyncUpToDate \<and> (\<forall>e\<in>set es. \<not> decisive e)"
  by (induction es arbitrary: a) (auto simp: aggregateEntry_conflicts aggregateEntry_conflict aggregateEntry_up_to_date)

text \<open>The owners of a path are the candidates of greatest depth, in the order of the catalogue.\<close>

definition candidate :: "string \<Rightarrow> string \<Rightarrow> bool" where
  "candidate p c \<longleftrightarrow> ownerRoot c = [] \<or> inside (trimSlash p) (ownerRoot c)"

definition rootDepth :: "string \<Rightarrow> int" where
  "rootDepth c = int (ownerDepth (ownerRoot c))"

definition bestDepth :: "string \<Rightarrow> string list \<Rightarrow> int" where
  "bestDepth p cs = foldl max (- 1) (map rootDepth (filter (candidate p) cs))"

lemma bestDepth_snoc: "bestDepth p (cs @ [c]) = (if candidate p c then max (bestDepth p cs) (rootDepth c) else bestDepth p cs)"
  by (simp add: bestDepth_def)

lemma rootDepth_le_best: "c \<in> set cs \<Longrightarrow> candidate p c \<Longrightarrow> rootDepth c \<le> bestDepth p cs"
  by (induction cs rule: rev_induct) (auto simp: bestDepth_snoc)

lemma ownerStep_candidate:
  "ownerStep (trimSlash p) (best, cs) c =
    (if \<not> candidate p c then (best, cs) else if rootDepth c > best then (rootDepth c, [c]) else (best, if rootDepth c = best then cs @ [c] else cs))"
  by (simp add: ownerStep_def candidate_def rootDepth_def Let_def)

lemma owner_fold:
  "foldl (ownerStep (trimSlash p)) (- 1, []) cs = (bestDepth p cs, filter (\<lambda>c. candidate p c \<and> rootDepth c = bestDepth p cs) cs)"
proof (induction cs rule: rev_induct)
  case Nil
  then show ?case by (simp add: bestDepth_def)
next
  case (snoc c cs)
  have deeper: "filter (\<lambda>d. candidate p d \<and> rootDepth d = rootDepth c) cs = []" if "rootDepth c > bestDepth p cs"
    using that rootDepth_le_best[of _ cs p] by (fastforce simp: filter_empty_conv)
  show ?case
    by (cases "rootDepth c > bestDepth p cs") (auto simp: snoc bestDepth_snoc ownerStep_candidate deeper max_def)
qed

lemma composePathsForFile_filter: "composePathsForFile cs p = filter (\<lambda>c. candidate p c \<and> rootDepth c = bestDepth p cs) cs"
  by (simp add: composePathsForFile_def owner_fold)

lemma composePathsForFile_distinct: "distinct cs \<Longrightarrow> distinct (composePathsForFile cs p)"
  by (simp add: composePathsForFile_filter)

lemma composePathsForFile_subset: "set (composePathsForFile cs p) \<subseteq> set cs"
  by (auto simp: composePathsForFile_filter)

lemma filter_pairs_distinct:
  assumes "distinct cs"
  shows "map snd (filter (\<lambda>ce. fst ce = c) (map (\<lambda>c. (c, e)) cs)) = (if c \<in> set cs then [e] else [])"
  using assms by (induction cs) auto

lemma ownEntries_filter:
  assumes "distinct cs"
  shows "ownEntries pv cs c = filter (\<lambda>e. c \<in> set (composePathsForFile cs (pe_Path e))) (pv_Entries pv)"
proof -
  have "map snd (filter (\<lambda>ce. fst ce = c) (concat (map (\<lambda>e. map (\<lambda>c. (c, e)) (composePathsForFile cs (pe_Path e))) es))) =
    filter (\<lambda>e. c \<in> set (composePathsForFile cs (pe_Path e))) es" for es
    by (induction es) (auto simp: filter_pairs_distinct[OF composePathsForFile_distinct[OF assms]])
  then show ?thesis by (simp add: ownEntries_def)
qed

text \<open>A loop of updates of one row each.\<close>

lemma statuses_loop:
  assumes "distinct ps" "\<And>p r. statusKey (f p r) = statusKey r"
  shows "db_statuses (foldl (\<lambda>db p. snd (UpdateGitStackStatuses None key (Some [p]) (f p) db)) db ps) =
    map (\<lambda>r. if gs_BindingUUID r = key \<and> gs_ComposePath r \<in> set ps then f (gs_ComposePath r) r else r) (db_statuses db)"
  using assms(1)
proof (induction ps arbitrary: db)
  case (Cons p ps)
  have key: "gs_BindingUUID (f p r) = gs_BindingUUID r" "gs_ComposePath (f p r) = gs_ComposePath r" for p r
    using assms(2)[of p r] by (simp_all add: statusKey_def)
  have one: "db_statuses (snd (UpdateGitStackStatuses None key (Some [p]) (f p) db)) =
    map (\<lambda>r. if gs_BindingUUID r = key \<and> gs_ComposePath r = p then f p r else r) (db_statuses db)"
    by (simp add: UpdateGitStackStatuses_def updateStatuses_def update_where_def)
  show ?case using Cons.IH[of "snd (UpdateGitStackStatuses None key (Some [p]) (f p) db)"] Cons.prems
    by (auto simp: one key comp_def)
qed simp

lemma recordAggregate_key: "statusKey (recordAggregate now a r) = statusKey r"
  by (simp add: recordAggregate_def statusKey_def Let_def)

definition recordedPaths :: "bool \<Rightarrow> StackBinding \<Rightarrow> bool \<Rightarrow> sync_db \<Rightarrow> string list" where
  "recordedPaths listFault b automation db = (if automation then activeAutomationComposePaths listFault b db else selectedComposePaths b)"


lemma exists_of_map: "map f xs = [a, b] \<Longrightarrow> \<exists>e\<in>set xs. f e = a"
  by (cases xs) auto

definition samplePreview :: "(string \<times> string) list \<Rightarrow> TransferPreview" where
  "samplePreview es = (emptyPreview ''b1'' toStack)\<lparr>pv_Entries := map (\<lambda>(p, st). entryOf p st) es\<rparr>"

definition statusDb :: sync_db where
  "statusDb = sampleDb\<lparr>db_statuses := [newStatus ''b1'' ''app/compose.yml'' ''pending'']\<rparr>"


text \<open>
  The state of a stack depends on the names of its files: the last entry in the order of the paths wins.  With the
  same two things to report, an unreadable item and a change to import, the row is an error or a harmless remote
  change (that still carries the message of the error) by the alphabet.
\<close>

lemma stack_state_depends_on_names:
  "sa_state (stackAggregate (samplePreview [(''app/a'', ''add''), (''app/b'', ''skipped_permission'')]) [] [''app/compose.yml''] ''app/compose.yml'') = stackSyncError"
  "sa_state (stackAggregate (samplePreview [(''app/a'', ''skipped_permission''), (''app/b'', ''add'')]) [] [''app/compose.yml''] ''app/compose.yml'') = stackSyncRemoteChanges"
  "sa_message (stackAggregate (samplePreview [(''app/a'', ''skipped_permission''), (''app/b'', ''add'')]) [] [''app/compose.yml''] ''app/compose.yml'') =
     ''A local stack item cannot be read; it was skipped while other stacks continued: app/a''"
  by code_simp+

subsection \<open>Restarts\<close>

definition repairedDeployment :: "Deployment \<Rightarrow> Deployment" where
  "repairedDeployment d =
     (if dp_State d \<in> set terminalDeploymentStates then d
      else if dp_State d = ''rolling_back'' then d\<lparr>dp_State := ''rollback_failed'',
        dp_Result := ''Dockman stopped while restoring the previous version; verify this stack manually''\<rparr>
      else d\<lparr>dp_State := ''failed'', dp_Result := ''Dockman stopped before the controlled deployment completed''\<rparr>)"

lemma count_repair:
  assumes "\<And>d. P d \<Longrightarrow> \<not> T d" "\<And>d. P d \<Longrightarrow> T (f d)"
  shows "length (filter P ds) + length (filter (\<lambda>d. \<not> T d) (update_where P f ds)) = length (filter (\<lambda>d. \<not> T d) ds)"
  using assms by (induction ds) (auto simp: update_where_def)

lemma failed_terminal: "''failed'' \<in> set terminalDeploymentStates" "''rollback_failed'' \<in> set terminalDeploymentStates"
  "''rolling_back'' \<notin> set terminalDeploymentStates" "''failed'' \<in> set terminalStackDeployStates"
  by (simp_all add: terminalDeploymentStates_def terminalStackDeployStates_def)

lemma repaired_terminal: "dp_State (repairedDeployment d) \<in> set terminalDeploymentStates"
  by (simp add: repairedDeployment_def failed_terminal)

lemma repaired_again: "repairedDeployment (repairedDeployment d) = repairedDeployment d"
  unfolding repairedDeployment_def[of "repairedDeployment d"] by (rule if_P[OF repaired_terminal])

definition restoringFailed :: "Deployment \<Rightarrow> Deployment" where
  "restoringFailed d = d\<lparr>dp_State := ''rollback_failed'',
     dp_Result := ''Dockman stopped while restoring the previous version; verify this stack manually''\<rparr>"

definition stageFailed :: "Deployment \<Rightarrow> Deployment" where
  "stageFailed d = d\<lparr>dp_State := ''failed'', dp_Result := ''Dockman stopped before the controlled deployment completed''\<rparr>"

lemma marked_split:
  "snd (MarkInterruptedDeployments e) = e\<lparr>db_deployments := update_where (\<lambda>d. dp_State d \<notin> set terminalDeploymentStates) stageFailed
     (update_where (\<lambda>d. dp_State d = ''rolling_back'') restoringFailed (db_deployments e))\<rparr>"
  "fst (MarkInterruptedDeployments e) = int (length (filter (\<lambda>d. dp_State d = ''rolling_back'') (db_deployments e))) +
     int (length (filter (\<lambda>d. dp_State d \<notin> set terminalDeploymentStates) (update_where (\<lambda>d. dp_State d = ''rolling_back'') restoringFailed (db_deployments e))))"
  unfolding MarkInterruptedDeployments_def Let_def fst_conv snd_conv restoringFailed_def stageFailed_def by (rule refl)+

lemma restoring_terminal: "dp_State (restoringFailed d) \<in> set terminalDeploymentStates"
  by (simp add: restoringFailed_def failed_terminal)

lemma rolling_unfinished: "dp_State d = ''rolling_back'' \<Longrightarrow> dp_State d \<notin> set terminalDeploymentStates"
  using failed_terminal(3) by simp

lemma repaired_both:
  "(if dp_State (if dp_State d = ''rolling_back'' then restoringFailed d else d) \<notin> set terminalDeploymentStates
    then stageFailed (if dp_State d = ''rolling_back'' then restoringFailed d else d)
    else (if dp_State d = ''rolling_back'' then restoringFailed d else d)) = repairedDeployment d"
  unfolding repairedDeployment_def restoringFailed_def[symmetric] stageFailed_def[symmetric]
  using restoring_terminal[of d] rolling_unfinished[of d] by presburger

lemma marked_rows: "snd (MarkInterruptedDeployments e) = e\<lparr>db_deployments := map repairedDeployment (db_deployments e)\<rparr>"
  unfolding marked_split update_where_def map_map comp_def repaired_both ..

lemma marked_count: "fst (MarkInterruptedDeployments e) = int (length (filter (\<lambda>d. dp_State d \<notin> set terminalDeploymentStates) (db_deployments e)))"
  unfolding marked_split of_nat_add[symmetric] using count_repair[of "\<lambda>d. dp_State d = ''rolling_back''" "\<lambda>d. dp_State d \<in> set terminalDeploymentStates" restoringFailed, OF rolling_unfinished restoring_terminal]
  by (rule arg_cong)

lemma cleared_terminal: "gs_DeployState ` set (db_statuses (ClearInterruptedStackDeployStates db)) \<subseteq> set terminalStackDeployStates"
  using failed_terminal(4) by (auto simp: ClearInterruptedStackDeployStates_def updateStatuses_def update_where_def)


subsection \<open>What the browser is shown\<close>

definition pendingDecision :: "string \<Rightarrow> bool" where
  "pendingDecision state \<longleftrightarrow> state \<in> {stackSyncLocalChanges, stackSyncLocalDeleted, stackSyncOrphaned, stackSyncConflict}"

lemma shownState_decision: "pendingDecision (gs_State r) \<Longrightarrow> shownState b r = gs_State r"
  by (auto simp: shownState_def pendingDecision_def copiedFailure_def Let_def stack_states)

lemma shownState_healthy: "shownState b r = stackSyncUpToDate \<Longrightarrow> gs_State r = stackSyncUpToDate \<or> (copiedFailure b r \<and> gs_LastSuccessAt r \<noteq> None)"
  by (auto simp: shownState_def copiedFailure_def Let_def stack_states split: if_splits)

text \<open>
  C28: no decision that is waiting is hidden.  Every row of a live link is shown once the list is asked for its host,
  under its own stack; one that needs a decision is shown with that state whatever the link is doing, and one shown
  up to date was recorded up to date, or was only painted by a failure of the whole link after a success.
\<close>

theorem pending_decisions_shown:
  assumes "distinct (map sb_UUID (db_bindings db))" "b \<in> set (db_bindings db)" "\<not> sb_Deleted b"
    "r \<in> set (db_statuses db)" "gs_BindingUUID r = sb_UUID b" "TrimSpace host = [] \<or> sb_Host b = TrimSpace host"
  shows "\<exists>v\<in>set (ListGitStackStatusViews now repositories host db). sv_BindingID v = sb_UUID b \<and> sv_ComposePath v = gs_ComposePath r \<and>
    (pendingDecision (gs_State r) \<longrightarrow> sv_State v = gs_State r) \<and>
    (sv_State v = stackSyncUpToDate \<longrightarrow> gs_State r = stackSyncUpToDate \<or> (copiedFailure b r \<and> gs_LastSuccessAt r \<noteq> None))"
proof -
  let ?h = "TrimSpace host" and ?v = "statusView now repositories b r"
  have got: "GetBinding (sb_UUID b) db = Some b"
  proof -
    have "find (\<lambda>x. sb_UUID x = sb_UUID b \<and> \<not> sb_Deleted x) bs = Some b" if "distinct (map sb_UUID bs)" "b \<in> set bs" for bs
      using that assms(3) by (induction bs) auto
    then show ?thesis using assms(1,2) by (simp add: GetBinding_def)
  qed
  have "r \<in> set (ListGitStackStatuses ?h db)" using assms(4-6) got by (auto simp: ListGitStackStatuses_def)
  moreover have "b \<in> set (ListBindingsForHost ?h db)" using assms(2,3,6) by (auto simp: ListBindingsForHost_def Let_def)
  moreover have "distinct (map sb_UUID (ListBindingsForHost ?h db))"
  proof -
    have sorted: "distinct (map sb_UUID (sort_key k xs)) \<longleftrightarrow> distinct (map sb_UUID xs)" for k :: "StackBinding \<Rightarrow> string" and xs
      by (simp add: distinct_map)
    show ?thesis unfolding ListBindingsForHost_def Let_def using assms(1) by (simp add: sorted distinct_map_filter)
  qed
  ultimately have "?v \<in> set (ListGitStackStatusViews now repositories host db)"
    using first_row_unique[of sb_UUID "ListBindingsForHost ?h db" "sb_UUID b" b] assms(5)
    by (auto simp: ListGitStackStatusViews_def Let_def map_filter_def image_iff intro!: bexI[of _ r])
  then show ?thesis
    using shownState_decision[of r b] shownState_healthy[of b r]
    by (intro bexI[of _ ?v]) (auto simp: statusView_def Let_def)
qed

theorem pending_decisions_shown_witness:
  "\<exists>v\<in>set (ListGitStackStatusViews 7 [] [] (statusDb\<lparr>db_bindings := [sampleBinding\<lparr>sb_AutoSyncState := ''syncing''\<rparr>],
      db_statuses := [newStatus ''b1'' ''app/compose.yml'' ''conflict'']\<rparr>)). sv_State v = ''conflict''"
proof -
  let ?b = "sampleBinding\<lparr>sb_AutoSyncState := ''syncing''\<rparr>" and ?r = "newStatus ''b1'' ''app/compose.yml'' ''conflict''"
  let ?db = "statusDb\<lparr>db_bindings := [?b], db_statuses := [?r]\<rparr>"
  have facts: "distinct (map sb_UUID (db_bindings ?db))" "?b \<in> set (db_bindings ?db)" "\<not> sb_Deleted ?b" "?r \<in> set (db_statuses ?db)"
    "gs_BindingUUID ?r = sb_UUID ?b" "TrimSpace [] = [] \<or> sb_Host ?b = TrimSpace []"
    by (simp_all add: sampleBinding_def newStatus_def TrimSpace_def)
  have "gs_State ?r = ''conflict''" "pendingDecision ''conflict''" by (simp_all add: newStatus_def pendingDecision_def stack_states)
  then show ?thesis using pending_decisions_shown[OF facts, of 7 "[]"] by auto
qed

end
