(* ===== verification/Sync_Deploy.thy ===== *)
theory Sync_Deploy
  imports Sync_Status_Laws
begin

section \<open>Deploying what a synchronisation changed\<close>

text \<open>
  Models \<open>core/internal/gitsync/deployment.go\<close>: which stacks a synchronisation may deploy, the controlled deployment of
  each (provisioning, validation, pull, dry run, deployment), its rollback, and the states it records.  A run is a log of
  the calls to Compose and to the provisioning, each with its error; the environment answers every call from that
  log, so what is proved holds for every behaviour of Compose.
\<close>

definition maxDeploymentLogSize :: nat where "maxDeploymentLogSize = 262144"
definition maxNewStacksPerSync :: nat where "maxNewStacksPerSync = 10"

subsection \<open>The log of a deployment\<close>

definition limitedWrite :: "string \<Rightarrow> string \<Rightarrow> string" where
  "limitedWrite data p =
     (if length data < maxDeploymentLogSize then data @ take (maxDeploymentLogSize - length data) p else data)"

text \<open>\<open>\x1b\[[0-?]*[ -/]*[@-~]\<close>, removed from left to right; text is ASCII or valid UTF-8, kept byte by byte.\<close>

definition inRange :: "nat \<Rightarrow> nat \<Rightarrow> char \<Rightarrow> bool" where
  "inRange lo hi c \<longleftrightarrow> lo \<le> (of_char c :: nat) \<and> (of_char c :: nat) \<le> hi"

definition ansiEnd :: "string \<Rightarrow> string option" where
  "ansiEnd s = (case dropWhile (inRange 32 47) (dropWhile (inRange 48 63) s) of
     [] \<Rightarrow> None
   | c # rest \<Rightarrow> if inRange 64 126 c then Some rest else None)"

lemma ansiEnd_shorter: "ansiEnd s = Some rest \<Longrightarrow> length rest < length s"
  using length_dropWhile_le[of "inRange 48 63" s] length_dropWhile_le[of "inRange 32 47" "dropWhile (inRange 48 63) s"]
  by (auto simp: ansiEnd_def split: list.splits if_splits)

definition afterEscape :: "string \<Rightarrow> string option" where
  "afterEscape s = (case s of e # b # rest \<Rightarrow> if e = CHR 0x1B \<and> b = CHR ''['' then ansiEnd rest else None | _ \<Rightarrow> None)"

lemma afterEscape_shorter: "afterEscape s = Some rest \<Longrightarrow> length rest < length s"
  using ansiEnd_shorter by (fastforce simp: afterEscape_def split: list.splits if_splits)

function stripANSI :: "string \<Rightarrow> string" where
  "stripANSI s = (case afterEscape s of Some rest \<Rightarrow> stripANSI rest | None \<Rightarrow> (case s of [] \<Rightarrow> [] | c # cs \<Rightarrow> c # stripANSI cs))"
  by pat_completeness auto
termination by (relation "measure length") (auto dest: afterEscape_shorter)

declare stripANSI.simps [simp del]

text \<open>\<open>ReplaceAll(value, "\n\n\n", "\n\n")\<close> goes on after what it has replaced.\<close>

fun squeezeOnce :: "string \<Rightarrow> string" where
  "squeezeOnce (a # b # c # s) =
     (if a = CHR 0x0A \<and> b = CHR 0x0A \<and> c = CHR 0x0A then CHR 0x0A # CHR 0x0A # squeezeOnce s else a # squeezeOnce (b # c # s))"
| "squeezeOnce s = s"

definition blankLines :: string where "blankLines = [CHR 0x0A, CHR 0x0A, CHR 0x0A]"

lemma squeezeOnce_length: "length (squeezeOnce s) \<le> length s"
  by (induction s rule: squeezeOnce.induct) auto

lemma squeezeOnce_shorter: "Contains s blankLines \<Longrightarrow> length (squeezeOnce s) < length s"
proof (induction s rule: squeezeOnce.induct)
  case (1 a b c s)
  then show ?case using squeezeOnce_length[of s] by (auto simp: blankLines_def)
qed (auto simp: blankLines_def)

function squeezeBlankLines :: "string \<Rightarrow> string" where
  "squeezeBlankLines s = (if Contains s blankLines then squeezeBlankLines (squeezeOnce s) else s)"
  by pat_completeness auto
termination by (relation "measure length") (auto dest: squeezeOnce_shorter)

declare squeezeBlankLines.simps [simp del]

definition printable :: "char \<Rightarrow> bool" where
  "printable c \<longleftrightarrow> c = CHR 0x0A \<or> c = CHR 0x09 \<or> (of_char c :: nat) \<ge> 32"

definition sanitizeDeploymentOutput :: "string \<Rightarrow> string" where
  "sanitizeDeploymentOutput value =
     TrimSpace (squeezeBlankLines (filter printable (map (\<lambda>c. if c = CHR 0x0D then CHR 0x0A else c) (stripANSI value))))"

definition logText :: "string list \<Rightarrow> string" where
  "logText pieces = sanitizeDeploymentOutput (foldl limitedWrite [] pieces)"

subsection \<open>Which stacks may be deployed\<close>

text \<open>The targets an operator asks for.\<close>

definition validateDeploymentTargets :: "StackBinding \<Rightarrow> bool \<Rightarrow> bool \<Rightarrow> string list \<Rightarrow> string + string list" where
  "validateDeploymentTargets b enabled allowNew requested =
     (let paths = map cleanCandidate requested in
      if \<not> enabled then Inr []
      else if \<not> sb_AutoSyncEnabled b then Inl ''automatic deployment requires automatic Git synchronization''
      else (case filter (\<lambda>p. p \<notin> set (selectedComposePaths b)) paths of
          p # _ \<Rightarrow> Inl (''automatic deployment target is not a discovered Compose file: '' @ p)
        | [] \<Rightarrow> if paths = [] \<and> \<not> allowNew then Inl ''select at least one Compose file for automatic deployment'' else Inr (sort (remdups paths))))"

definition changedPreviewPaths :: "TransferPreview \<Rightarrow> string list" where
  "changedPreviewPaths pv = map pe_Path (filter (\<lambda>e. pe_Status e = ''add'' \<or> pe_Status e = ''modify'') (pv_Entries pv))"

definition isComposeDeploymentFile :: "string \<Rightarrow> bool" where
  "isComposeDeploymentFile p \<longleftrightarrow> ToLower (path_base p) \<in> {''compose.yml'', ''compose.yaml'', ''docker-compose.yml'', ''docker-compose.yaml''}"

definition authorizes :: "string list \<Rightarrow> string list \<Rightarrow> string list \<Rightarrow> PreviewEntry \<Rightarrow> bool" where
  "authorizes tracked covered authorized e \<longleftrightarrow>
     (let p = path_clean (pe_Path e) in
      \<not> pe_Directory e \<and> isComposeDeploymentFile p \<and> (pe_Status e = ''add'' \<or> pe_Status e = ''modify'') \<and> p \<notin> set authorized \<and>
      (if p \<in> set tracked then p \<in> set covered else pe_Status e = ''add''))"

text \<open>A path authorised once is not authorised again.\<close>

fun newTargets :: "string list \<Rightarrow> string list \<Rightarrow> string list \<Rightarrow> PreviewEntry list \<Rightarrow> string list" where
  "newTargets tracked covered authorized [] = []"
| "newTargets tracked covered authorized (e # es) =
     (if authorizes tracked covered authorized e
      then path_clean (pe_Path e) # newTargets tracked covered (path_clean (pe_Path e) # authorized) es
      else newTargets tracked covered authorized es)"

definition newComposeDeploymentTargets :: "StackBinding \<Rightarrow> TransferPreview \<Rightarrow> string list \<Rightarrow> string + string list" where
  "newComposeDeploymentTargets b pv automated =
     (if \<not> sb_AutoDeployEnabled b \<or> \<not> sb_AutoDeployNewStacks b then Inr []
      else let targets = newTargets (splitPatternLines (sb_ComposePaths b)) automated (splitPatternLines (sb_AutoDeployComposePaths b)) (pv_Entries pv) in
        if length (remdups (map path_dir targets)) > maxNewStacksPerSync
        then Inl ''automatic deployment refused: one synchronization may authorize at most 10 stacks''
        else Inr (sort targets))"

definition unauthorizedDeploymentStacks :: "StackBinding \<Rightarrow> string list \<Rightarrow> string list \<Rightarrow> string list" where
  "unauthorizedDeploymentStacks b changed automated =
     (if \<not> sb_AutoDeployEnabled b then []
      else uniqueSortedStrings (filter (\<lambda>p. p \<notin> set (splitPatternLines (sb_AutoDeployComposePaths b))) (composePathsForFiles automated changed)))"

text \<open>The link as it is saved when new stacks were found; \<open>others\<close> are the links it must not overlap.\<close>

definition joinPaths :: "string list \<Rightarrow> string" where
  "joinPaths ps = Join ps [CHR 0x0A]"

definition withDiscoveredTargets :: "StackBinding \<Rightarrow> string list \<Rightarrow> StackBinding" where
  "withDiscoveredTargets b targets =
     (let grown = (\<lambda>stored. joinPaths (uniqueSortedStrings (splitPatternLines stored @ targets))) in
      b\<lparr>sb_ComposePaths := grown (sb_ComposePaths b),
        sb_SelectedComposePaths := (if normalizedComposeSelectionMode (sb_ComposeSelectionMode b) = composeSelectionSelected
          then grown (sb_SelectedComposePaths b) else sb_SelectedComposePaths b),
        sb_AutoSyncComposePaths := (if normalizedComposeSelectionMode (sb_AutoSyncSelectionMode b) = composeSelectionSelected
          then grown (sb_AutoSyncComposePaths b) else sb_AutoSyncComposePaths b),
        sb_AutoDeployComposePaths := grown (sb_AutoDeployComposePaths b),
        sb_AutoDeployState := ''pending'',
        sb_AutoDeployError := ''Git stack authorized for automatic deployment; waiting for controlled deployment''\<rparr>)"

definition registerDiscoveredDeploymentTargets :: "(StackBinding \<Rightarrow> string option) \<Rightarrow> fault \<Rightarrow> StackBinding \<Rightarrow> string list \<Rightarrow> sync_db \<Rightarrow> (string + StackBinding) \<times> sync_db" where
  "registerDiscoveredDeploymentTargets overlap fault b targets db =
     (let b1 = withDiscoveredTargets b targets in
      case overlap b1 of
        Some e \<Rightarrow> (Inl (''new Git stack would overlap another Folder Link: '' @ e), db)
      | None \<Rightarrow>
          (case SaveBinding fault b1 db of
             (Some e, db1) \<Rightarrow> (Inl e, db1)
           | (None, db1) \<Rightarrow>
               (case reconcileGitStackStatuses fault b1 db1 of
                  (Some e, db2) \<Rightarrow> (Inl e, db2)
                | (None, db2) \<Rightarrow> (Inr b1, db2))))"

definition deploymentTargetsForChanges :: "StackBinding \<Rightarrow> string list \<Rightarrow> string list" where
  "deploymentTargetsForChanges b changed =
     uniqueSortedStrings (concat (map (\<lambda>p. composePathsForFile (splitPatternLines (sb_AutoDeployComposePaths b)) (path_clean p)) changed))"

definition isRetryableAutoDeployState :: "string \<Rightarrow> bool" where
  "isRetryableAutoDeployState state \<longleftrightarrow> state \<in> {''failed'', ''partial'', ''pending''}"

definition awaitsRetry :: "GitStackStatus \<Rightarrow> bool" where
  "awaitsRetry r \<longleftrightarrow> gs_DeployState r \<notin> set terminalStackDeployStates \<or> gs_DeployState r \<in> {''failed'', ''rolled_back'', ''rollback_failed''}"

definition stacksAwaitingDeployRetry :: "bool \<Rightarrow> StackBinding \<Rightarrow> sync_db \<Rightarrow> string list" where
  "stacksAwaitingDeployRetry listFault b db =
     (let authorized = splitPatternLines (sb_AutoDeployComposePaths b) in
      if authorized = [] then []
      else if listFault then authorized
      else uniqueSortedStrings (map gs_ComposePath (filter (\<lambda>r. gs_ComposePath r \<in> set authorized \<and> awaitsRetry r) (GitStackStatuses (sb_UUID b) db))))"

subsection \<open>The calls of a deployment\<close>

datatype compose_action = ApplyProvisioning | ValidateCompose | PullCompose | DryRunCompose | DeployCompose | DeployComposeWait | CleanupCompose
  | RollbackMetadata | RollbackRemovedPaths | RollbackCreatedDirectories | CommitProvisioning

record compose_call =
  cc_Action :: compose_action
  cc_Stack :: string
  cc_Error :: "string option"

type_synonym deploy_log = "compose_call list"

text \<open>
  What is outside: Compose and the provisioning of a stack, which answer from the log of all calls so far; the locks;
  the faults of the database; the directory as the rollback sees it.
\<close>

record deploy_env =
  dv_configured :: bool
  dv_rollbackConfigured :: bool
  dv_hasPull :: bool
  dv_lock :: "deploy_log \<Rightarrow> string \<Rightarrow> bool"
  dv_answer :: "deploy_log \<Rightarrow> compose_action \<Rightarrow> string \<Rightarrow> string option"
  dv_provisions :: "deploy_log \<Rightarrow> string \<Rightarrow> bool"
  dv_output :: "deploy_log \<Rightarrow> string list"
  dv_newID :: "deploy_log \<Rightarrow> string"
  dv_now :: gotime
  dv_saveFault :: "deploy_log \<Rightarrow> string \<Rightarrow> fault"
  dv_statusFault :: "deploy_log \<Rightarrow> fault"
  dv_stateFault :: fault
  dv_baselineFault :: fault
  dv_replaceFault :: fault
  dv_restore :: restore_env
  dv_world :: restore_world
  dv_isUUID :: "string \<Rightarrow> bool"
  dv_backups :: backup_state

record deploy_world =
  wd_log :: deploy_log
  wd_db :: sync_db
  wd_files :: host_fs

definition callCompose :: "deploy_env \<Rightarrow> compose_action \<Rightarrow> string \<Rightarrow> deploy_world \<Rightarrow> string option \<times> deploy_world" where
  "callCompose env action stack w =
     (let e = dv_answer env (wd_log w) action stack in
      (e, w\<lparr>wd_log := wd_log w @ [\<lparr>cc_Action = action, cc_Stack = stack, cc_Error = e\<rparr>]\<rparr>))"

fun runStages :: "deploy_env \<Rightarrow> string \<Rightarrow> (string \<times> compose_action) list \<Rightarrow> string \<Rightarrow> deploy_world \<Rightarrow> (string \<times> string option) \<times> deploy_world" where
  "runStages env stack [] stage w = ((stage, None), w)"
| "runStages env stack ((name, action) # rest) stage w =
     (case callCompose env action stack w of
        (Some e, w1) \<Rightarrow> ((name, Some e), w1)
      | (None, w1) \<Rightarrow> runStages env stack rest name w1)"

definition deployStages :: "deploy_env \<Rightarrow> StackBinding \<Rightarrow> (string \<times> compose_action) list" where
  "deployStages env b =
     [(''provisioning'', ApplyProvisioning), (''validation'', ValidateCompose)] @ (if dv_hasPull env then [(''pull'', PullCompose)] else []) @
     [(''dry-run'', DryRunCompose), (''deployment'', if sb_AutoDeployRollbackEnabled b then DeployComposeWait else DeployCompose)]"

text \<open>\<open>errors.Join\<close> and \<open>safeGitError\<close>.\<close>

definition joinErrors :: "string option \<Rightarrow> string option \<Rightarrow> string option" where
  "joinErrors a b = (case (a, b) of (None, _) \<Rightarrow> b | (_, None) \<Rightarrow> a | (Some x, Some y) \<Rightarrow> Some (x @ [CHR 0x0A] @ y))"

definition safeGitError :: "string \<Rightarrow> string" where
  "safeGitError message = take 1000 message"

subsection \<open>Rolling one stack back\<close>

definition callUnless :: "deploy_env \<Rightarrow> bool \<Rightarrow> compose_action \<Rightarrow> string \<Rightarrow> string option \<times> deploy_world \<Rightarrow> string option \<times> deploy_world" where
  "callUnless env wanted action stack ew = (if fst ew = None \<and> wanted then callCompose env action stack (snd ew) else ew)"

definition undoProvisioning :: "deploy_env \<Rightarrow> bool \<Rightarrow> compose_action \<Rightarrow> string \<Rightarrow> string \<Rightarrow> string option \<times> deploy_world \<Rightarrow> string option \<times> deploy_world" where
  "undoProvisioning env provisioned action what stack ew =
     (if \<not> provisioned then ew
      else case callCompose env action stack (snd ew) of (e, w1) \<Rightarrow> (joinErrors (fst ew) (map_option (\<lambda>m. what @ m) e), w1))"

definition restoreStackFiles :: "deploy_env \<Rightarrow> StackBinding \<Rightarrow> string \<Rightarrow> string \<Rightarrow> string option \<times> deploy_world \<Rightarrow> int \<times> string option \<times> deploy_world" where
  "restoreStackFiles env b backupID stack ew =
     (if backupID = [] then (0, ew)
      else let w = snd ew;
               faults = \<lparr>rf_baseline = (case dv_baselineFault env of Some e \<Rightarrow> Inl e | None \<Rightarrow> Inr (BindingBaselineOf (sb_UUID b) (wd_db w))),
                         rf_replace = dv_replaceFault env\<rparr> in
        (case rollbackDeploymentFiles (dv_restore env) (dv_world env) faults (dv_isUUID env) (sb_UUID b) backupID stack (wd_files w) (dv_backups env) of
           (Inl e, fs, _) \<Rightarrow> (0, joinErrors (fst ew) (Some e), w\<lparr>wd_files := fs\<rparr>)
         | (Inr paths, fs, base) \<Rightarrow>
             (int (length paths), fst ew,
              w\<lparr>wd_files := fs, wd_db := (case base of Some m \<Rightarrow> snd (ReplaceBindingBaseline None (sb_UUID b) m (wd_db w)) | None \<Rightarrow> wd_db w)\<rparr>)))"

definition hadPrevious :: "deploy_env \<Rightarrow> StackBinding \<Rightarrow> string \<Rightarrow> string \<Rightarrow> bool \<times> string option" where
  "hadPrevious env b backupID stack =
     (if backupID = [] then (True, None)
      else case deploymentHadPreviousCompose (dv_isUUID env) (sb_UUID b) backupID stack (dv_backups env) of
        Inl e \<Rightarrow> (False, Some e) | Inr h \<Rightarrow> (h, None))"

text \<open>What the import and the provisioning did is undone even after an earlier step of the rollback failed.\<close>

definition undoStack :: "deploy_env \<Rightarrow> StackBinding \<Rightarrow> string \<Rightarrow> string \<Rightarrow> bool \<Rightarrow> string option \<times> deploy_world \<Rightarrow> int \<times> string option \<times> deploy_world" where
  "undoStack env b backupID stack provisioned ew =
     (case restoreStackFiles env b backupID stack (undoProvisioning env provisioned RollbackMetadata ''restore provisioning metadata: '' stack ew) of
        (restored, ew1) \<Rightarrow>
          (restored, undoProvisioning env provisioned RollbackCreatedDirectories ''remove provisioned directories: '' stack
             (undoProvisioning env provisioned RollbackRemovedPaths ''restore provisioned removals: '' stack ew1)))"

text \<open>A deployment that started containers is rolled forward to the restored files.\<close>

definition restartStack :: "deploy_env \<Rightarrow> string \<Rightarrow> bool \<Rightarrow> bool \<Rightarrow> string option \<times> deploy_world \<Rightarrow> string option \<times> deploy_world" where
  "restartStack env stack started had ew =
     callUnless env (started \<and> had) DeployComposeWait stack (callUnless env (started \<and> had) DryRunCompose stack (callUnless env had ValidateCompose stack ew))"

text \<open>The error of the rollback, the number of files restored, and the world afterwards.\<close>

definition rollbackStack :: "deploy_env \<Rightarrow> StackBinding \<Rightarrow> string \<Rightarrow> string \<Rightarrow> string \<Rightarrow> bool \<Rightarrow> deploy_world \<Rightarrow> int \<times> string option \<times> deploy_world" where
  "rollbackStack env b backupID stack stage provisioned w =
     (case hadPrevious env b backupID stack of
        (had, e) \<Rightarrow>
          (case undoStack env b backupID stack provisioned (callUnless env (stage = ''deployment'' \<and> \<not> had) CleanupCompose stack (e, w)) of
             (restored, ew) \<Rightarrow> (restored, restartStack env stack (stage = ''deployment'') had ew)))"

subsection \<open>One stack\<close>

record deploymentBatchResult =
  br_Deployed :: "string list"
  br_Failed :: "string list"
  br_RolledBack :: "string list"
  br_RollbackFailed :: "string list"
  br_Deferred :: "string list"

definition emptyBatch :: deploymentBatchResult where
  "emptyBatch = \<lparr>br_Deployed = [], br_Failed = [], br_RolledBack = [], br_RollbackFailed = [], br_Deferred = []\<rparr>"

definition saveDeployment :: "Deployment \<Rightarrow> sync_db \<Rightarrow> sync_db" where
  "saveDeployment d db = db\<lparr>db_deployments := upsert dp_UUID (\<lambda>_ r. r) d (db_deployments db)\<rparr>"

definition noteStack :: "deploy_env \<Rightarrow> StackBinding \<Rightarrow> string \<Rightarrow> (GitStackStatus \<Rightarrow> GitStackStatus) \<Rightarrow> deploy_world \<Rightarrow> deploy_world" where
  "noteStack env b stack f w =
     w\<lparr>wd_db := snd (UpdateGitStackStatuses (dv_statusFault env (wd_log w)) (sb_UUID b) (Some [stack]) f (wd_db w))\<rparr>"

definition failureText :: "string \<Rightarrow> string \<Rightarrow> string" where
  "failureText stage e = sanitizeDeploymentOutput (safeGitError (stage @ '' failed: '' @ e))"

text \<open>The attempt: the stages, the rollback when it is enabled, and the closing of the provisioning.\<close>

record attempt =
  at_State :: string
  at_Result :: string
  at_Stage :: string

definition attemptStack :: "deploy_env \<Rightarrow> StackBinding \<Rightarrow> string \<Rightarrow> string \<Rightarrow> deploy_world \<Rightarrow> attempt \<times> deploy_world" where
  "attemptStack env b backupID stack w =
     (let ((stage, err), w1) = runStages env stack (deployStages env b) ''provisioning'' w;
          provisioned = (stage \<noteq> ''provisioning'' \<and> dv_provisions env (wd_log w) stack) in
      case err of
        Some e \<Rightarrow>
          if sb_AutoDeployRollbackEnabled b then
            (case rollbackStack env b backupID stack stage provisioned w1 of
               (restored, None, w2) \<Rightarrow>
                 (\<lparr>at_State = ''rolled_back'', at_Result = failureText stage e @ ''; previous version restored safely ('' @ Itoa (nat restored) @ '' file(s))'',
                   at_Stage = stage\<rparr>, w2)
             | (_, Some r, w2) \<Rightarrow>
                 (\<lparr>at_State = ''rollback_failed'', at_Result = failureText stage e @ ''; automatic rollback failed: '' @ sanitizeDeploymentOutput (safeGitError r),
                   at_Stage = stage\<rparr>, w2))
          else if provisioned then
            (case callCompose env CommitProvisioning stack w1 of
               (None, w2) \<Rightarrow> (\<lparr>at_State = ''failed'', at_Result = failureText stage e, at_Stage = stage\<rparr>, w2)
             | (Some c, w2) \<Rightarrow>
                 (\<lparr>at_State = ''failed'', at_Result = failureText ''provisioning cleanup'' (e @ [CHR 0x0A] @ c), at_Stage = ''provisioning cleanup''\<rparr>, w2))
          else (\<lparr>at_State = ''failed'', at_Result = failureText stage e, at_Stage = stage\<rparr>, w1)
      | None \<Rightarrow>
          if provisioned then
            (case callCompose env CommitProvisioning stack w1 of
               (None, w2) \<Rightarrow> (\<lparr>at_State = ''success'', at_Result = ''deployed'', at_Stage = stage\<rparr>, w2)
             | (Some c, w2) \<Rightarrow> (\<lparr>at_State = ''failed'', at_Result = failureText ''provisioning cleanup'' c, at_Stage = ''provisioning cleanup''\<rparr>, w2))
          else (\<lparr>at_State = ''success'', at_Result = ''deployed'', at_Stage = stage\<rparr>, w1))"

definition recordAttempt :: "string \<Rightarrow> attempt \<Rightarrow> deploymentBatchResult \<Rightarrow> deploymentBatchResult" where
  "recordAttempt stack a r =
     (let r1 = (if at_State a = ''rolled_back'' then r\<lparr>br_RolledBack := br_RolledBack r @ [stack]\<rparr>
                else if at_State a = ''rollback_failed'' then r\<lparr>br_RollbackFailed := br_RollbackFailed r @ [stack]\<rparr> else r)
      in if at_State a = ''success'' then r1\<lparr>br_Deployed := br_Deployed r1 @ [stack]\<rparr> else r1\<lparr>br_Failed := br_Failed r1 @ [stack]\<rparr>)"

text \<open>
  One target.  An error of the database ends the whole run; a stack whose rollback was already counted then stays in the
  result as the code leaves it.
\<close>

definition newDeployment :: "deploy_env \<Rightarrow> StackBinding \<Rightarrow> string \<Rightarrow> string \<Rightarrow> deploy_world \<Rightarrow> Deployment" where
  "newDeployment env b commit stack w =
     \<lparr>dp_CreatedAt = dv_now env, dp_UUID = dv_newID env (wd_log w), dp_RepositoryUUID = sb_RepositoryUUID b, dp_BindingUUID = sb_UUID b,
      dp_CommitSHA = commit, dp_ComposeHash = stack, dp_State = ''validating'', dp_Result = [], dp_Logs = []\<rparr>"

definition beginDeployment :: "deploy_env \<Rightarrow> StackBinding \<Rightarrow> string \<Rightarrow> Deployment \<Rightarrow> deploy_world \<Rightarrow> deploy_world" where
  "beginDeployment env b stack d w =
     noteStack env b stack (\<lambda>g. g\<lparr>gs_DeployState := ''provisioning'', gs_DeployError := []\<rparr>)
       (noteStack env b stack (\<lambda>g. g\<lparr>gs_DeployState := ''validating'', gs_DeployError := []\<rparr>) (w\<lparr>wd_db := saveDeployment d (wd_db w)\<rparr>))"

definition endDeployment :: "deploy_env \<Rightarrow> StackBinding \<Rightarrow> string \<Rightarrow> Deployment \<Rightarrow> deploymentBatchResult \<Rightarrow> attempt \<times> deploy_world \<Rightarrow> string option \<times> deploymentBatchResult \<times> deploy_world" where
  "endDeployment env b stack d r aw =
     (case aw of (a, w) \<Rightarrow>
        (case dv_saveFault env (wd_log w) (at_State a) of
           Some e \<Rightarrow> (Some e, (if at_State a = ''rolled_back'' then r\<lparr>br_RolledBack := br_RolledBack r @ [stack]\<rparr>
               else if at_State a = ''rollback_failed'' then r\<lparr>br_RollbackFailed := br_RollbackFailed r @ [stack]\<rparr> else r), w)
         | None \<Rightarrow>
             (None, recordAttempt stack a r,
              noteStack env b stack (\<lambda>g. g\<lparr>gs_DeployState := at_State a, gs_DeployError := (if at_State a = ''success'' then [] else at_Result a),
                gs_LastDeployAt := Some (dv_now env)\<rparr>)
                (w\<lparr>wd_db := saveDeployment (d\<lparr>dp_State := at_State a, dp_Result := at_Result a, dp_Logs := logText (dv_output env (wd_log w))\<rparr>) (wd_db w)\<rparr>))))"

definition deployStack :: "deploy_env \<Rightarrow> StackBinding \<Rightarrow> string \<Rightarrow> string \<Rightarrow> string \<Rightarrow> deploymentBatchResult \<Rightarrow> deploy_world \<Rightarrow> string option \<times> deploymentBatchResult \<times> deploy_world" where
  "deployStack env b commit backupID stack r w =
     (if \<not> dv_lock env (wd_log w) (path_join [sb_StackPath b, stack]) then (None, r\<lparr>br_Deferred := br_Deferred r @ [stack]\<rparr>, w)
      else (case dv_saveFault env (wd_log w) ''validating'' of
          Some e \<Rightarrow> (Some e, r, w)
        | None \<Rightarrow> endDeployment env b stack (newDeployment env b commit stack w) r
            (attemptStack env b backupID stack (beginDeployment env b stack (newDeployment env b commit stack w) w))))"

fun deployLoop :: "deploy_env \<Rightarrow> StackBinding \<Rightarrow> string \<Rightarrow> string \<Rightarrow> string list \<Rightarrow> string option \<times> deploymentBatchResult \<times> deploy_world \<Rightarrow> string option \<times> deploymentBatchResult \<times> deploy_world" where
  "deployLoop env b commit backupID [] result = result"
| "deployLoop env b commit backupID (stack # stacks) (Some e, r, w) = (Some e, r, w)"
| "deployLoop env b commit backupID (stack # stacks) (None, r, w) = deployLoop env b commit backupID stacks (deployStack env b commit backupID stack r w)"

subsection \<open>The batch\<close>

definition countText :: "string list \<Rightarrow> string" where
  "countText ps = Itoa (length ps)"

definition batchState :: "deploymentBatchResult \<Rightarrow> string \<times> string" where
  "batchState r =
     (if br_Failed r = [] \<and> br_Deferred r \<noteq> [] then
        (''pending'', (if br_Deployed r \<noteq> [] then countText (br_Deployed r) @ '' stack(s) deployed; '' else []) @
           countText (br_Deferred r) @ '' stack(s) busy with another action and not deployed yet: '' @ Join (br_Deferred r) '', '')
      else if br_Failed r \<noteq> [] then
        ((if br_RollbackFailed r \<noteq> [] then ''failed'' else if br_Deployed r \<noteq> [] \<or> br_RolledBack r \<noteq> [] then ''partial'' else ''failed''),
         countText (br_Deployed r) @ '' stack(s) deployed; '' @ countText (br_Failed r) @ '' stack(s) failed'' @
         (if br_RolledBack r \<noteq> [] then '' ('' @ countText (br_RolledBack r) @ '' restored automatically)'' else []) @
         (if br_RollbackFailed r \<noteq> [] then ''; '' @ countText (br_RollbackFailed r) @ '' rollback(s) failed'' else []) @
         '': '' @ Join (br_Failed r) '', '')
      else (''success'', if br_Deployed r \<noteq> [] then countText (br_Deployed r) @ '' stack(s) deployed'' else ''deployed''))"

fun finishBatch :: "deploy_env \<Rightarrow> StackBinding \<Rightarrow> string option \<times> deploymentBatchResult \<times> deploy_world \<Rightarrow> string option \<times> deploymentBatchResult \<times> deploy_world" where
  "finishBatch env b (Some e, r, w) = (Some e, r, w)"
| "finishBatch env b (None, r, w) =
     (case UpdateBindingAutoDeployState (dv_stateFault env) (sb_UUID b) (fst (batchState r)) (snd (batchState r)) (Some (dv_now env)) (wd_db w) of
        (e, db) \<Rightarrow> (e, r, w\<lparr>wd_db := db\<rparr>))"

definition deployChangedStacks :: "deploy_env \<Rightarrow> StackBinding \<Rightarrow> string \<Rightarrow> string list \<Rightarrow> string \<Rightarrow> deploy_world \<Rightarrow> string option \<times> deploymentBatchResult \<times> deploy_world" where
  "deployChangedStacks env b commit changed backupID w =
     (if \<not> dv_configured env then (Some ''automatic deployment is not configured'', emptyBatch, w)
      else if sb_AutoDeployRollbackEnabled b \<and> \<not> dv_rollbackConfigured env
        then (Some ''automatic deployment rollback health check is not configured'', emptyBatch, w)
      else if deploymentTargetsForChanges b changed = [] then (None, emptyBatch, w)
      else finishBatch env b (deployLoop env b commit backupID (deploymentTargetsForChanges b changed) (None, emptyBatch, w)))"

end
