(* ===== verification/Sync_Deploy_Laws.thy ===== *)
theory Sync_Deploy_Laws
  imports Sync_Deploy
begin

section \<open>Laws of the deployments\<close>

text \<open>
  What a controlled deployment promises for every behaviour of Compose: nothing is started that was not validated and
  dry-run immediately before, every target ends in exactly one list of the result, a busy stack is left alone, and a
  rollback that reports success has put back the files.
\<close>

subsection \<open>The order of the calls\<close>

definition okCall :: "compose_action \<Rightarrow> string \<Rightarrow> compose_call" where
  "okCall action stack = \<lparr>cc_Action = action, cc_Stack = stack, cc_Error = None\<rparr>"

definition admissible :: "deploy_log \<Rightarrow> compose_call \<Rightarrow> bool" where
  "admissible log c \<longleftrightarrow>
     (cc_Action c \<in> {DeployCompose, DeployComposeWait} \<longrightarrow> (\<exists>pre. log = pre @ [okCall DryRunCompose (cc_Stack c)])) \<and>
     (cc_Action c = DryRunCompose \<longrightarrow> (\<exists>pre. log = pre @ [okCall ValidateCompose (cc_Stack c)] \<or>
        log = pre @ [okCall ValidateCompose (cc_Stack c), okCall PullCompose (cc_Stack c)]))"

text \<open>A log in which every dry run follows a validation and every deployment a dry run of the same stack.\<close>

inductive heeded :: "deploy_log \<Rightarrow> bool" where
  nothing: "heeded []"
| call: "heeded log \<Longrightarrow> admissible log c \<Longrightarrow> heeded (log @ [c])"

lemma heeded_admissible: "heeded log \<Longrightarrow> log = pre @ c # post \<Longrightarrow> admissible pre c"
proof (induction arbitrary: post rule: heeded.induct)
  case (call log d)
  then show ?case by (cases post rule: rev_cases) auto
qed simp

lemma callCompose_log:
  "callCompose env action stack w = (e, w1) \<Longrightarrow>
     wd_log w1 = wd_log w @ [\<lparr>cc_Action = action, cc_Stack = stack, cc_Error = e\<rparr>] \<and> wd_db w1 = wd_db w \<and> wd_files w1 = wd_files w"
  by (auto simp: callCompose_def Let_def)

lemma callCompose_ok: "callCompose env action stack w = (None, w1) \<Longrightarrow> wd_log w1 = wd_log w @ [okCall action stack]"
  using callCompose_log by (fastforce simp: okCall_def)

text \<open>The calls of one stack.\<close>

definition extends :: "string \<Rightarrow> deploy_world \<Rightarrow> deploy_world \<Rightarrow> bool" where
  "extends stack w w1 \<longleftrightarrow> (\<exists>cs. wd_log w1 = wd_log w @ cs \<and> (\<forall>c\<in>set cs. cc_Stack c = stack)) \<and> (heeded (wd_log w) \<longrightarrow> heeded (wd_log w1))"

lemma extends_refl: "wd_log w1 = wd_log w \<Longrightarrow> extends stack w w1" by (simp add: extends_def)

lemma extends_trans: "extends stack w w1 \<Longrightarrow> extends stack w1 w2 \<Longrightarrow> extends stack w w2"
  unfolding extends_def by (auto simp: Un_iff)

lemma extends_call:
  assumes "callCompose env action stack w = (e, w1)"
    "action \<in> {DeployCompose, DeployComposeWait} \<Longrightarrow> \<exists>pre. wd_log w = pre @ [okCall DryRunCompose stack]"
    "action = DryRunCompose \<Longrightarrow> \<exists>pre. wd_log w = pre @ [okCall ValidateCompose stack] \<or> wd_log w = pre @ [okCall ValidateCompose stack, okCall PullCompose stack]"
  shows "extends stack w w1"
  using callCompose_log[OF assms(1)] assms(2,3) by (auto simp: extends_def admissible_def intro!: heeded.call)

lemma extends_plain:
  "callCompose env action stack w = (e, w1) \<Longrightarrow> action \<notin> {DeployCompose, DeployComposeWait, DryRunCompose} \<Longrightarrow> extends stack w w1"
  by (rule extends_call) auto

text \<open>The stages, one after the other; \<open>ready\<close> says what a stage needs of the log.\<close>

fun staged :: "string \<Rightarrow> deploy_log \<Rightarrow> (string \<times> compose_action) list \<Rightarrow> bool" where
  "staged stack log [] = True"
| "staged stack log ((name, action) # rest) = ((\<forall>e. admissible log \<lparr>cc_Action = action, cc_Stack = stack, cc_Error = e\<rparr>) \<and> staged stack (log @ [okCall action stack]) rest)"

lemma deployStages_staged: "staged stack log (deployStages env b)"
  by (auto simp: deployStages_def admissible_def okCall_def)

lemma runStages_extends:
  assumes "staged stack (wd_log w) stages" "runStages env stack stages stage0 w = ((stage, err), w1)"
  shows "extends stack w w1 \<and> (err = None \<longrightarrow> wd_log w1 = wd_log w @ map (\<lambda>(_, action). okCall action stack) stages) \<and>
    wd_db w1 = wd_db w \<and> wd_files w1 = wd_files w"
  using assms
proof (induction stages arbitrary: stage0 w)
  case Nil
  then show ?case by (simp add: extends_refl)
next
  case (Cons sa rest)
  obtain name action where sa: "sa = (name, action)" by (metis surj_pair)
  obtain e w2 where c: "callCompose env action stack w = (e, w2)" by (metis surj_pair)
  note log = callCompose_log[OF c]
  have one: "extends stack w w2" using log Cons.prems(1) by (auto simp: extends_def sa intro!: heeded.call)
  show ?case
  proof (cases e)
    case None
    then have "wd_log w2 = wd_log w @ [okCall action stack]" using log by (simp add: okCall_def)
    moreover from this have "staged stack (wd_log w2) rest" using Cons.prems(1) by (simp add: sa)
    moreover have "runStages env stack rest name w2 = ((stage, err), w1)" using Cons.prems(2) c None by (simp add: sa)
    ultimately show ?thesis using Cons.IH[of w2 name] extends_trans[OF one] log by (auto simp: sa)
  next
    case (Some m)
    then show ?thesis using Cons.prems(2) c one log by (auto simp: sa)
  qed
qed

lemma callUnless_extends:
  assumes "action \<notin> {DeployCompose, DeployComposeWait, DryRunCompose}"
  shows "extends stack (snd ew) (snd (callUnless env wanted action stack ew))"
proof -
  obtain e w1 where c: "callCompose env action stack (snd ew) = (e, w1)" by (metis surj_pair)
  then show ?thesis using extends_plain[OF c assms] by (simp add: callUnless_def extends_refl)
qed

lemma undoProvisioning_extends:
  assumes "action \<notin> {DeployCompose, DeployComposeWait, DryRunCompose}"
  shows "extends stack (snd ew) (snd (undoProvisioning env provisioned action what stack ew))"
proof -
  obtain e w1 where c: "callCompose env action stack (snd ew) = (e, w1)" by (metis surj_pair)
  then show ?thesis using extends_plain[OF c assms] by (simp add: undoProvisioning_def extends_refl)
qed

lemma restoreStackFiles_log: "wd_log (snd (snd (restoreStackFiles env b backupID stack ew))) = wd_log (snd ew)"
  by (auto simp: restoreStackFiles_def Let_def split: sum.split prod.split)

text \<open>Validating, dry-running and starting the restored version.\<close>

lemma restart_extends: "extends stack (snd ew) (snd (restartStack env stack started had ew))"
proof (cases "fst ew = None \<and> had")
  case False
  then show ?thesis by (auto simp: restartStack_def callUnless_def extends_refl)
next
  case had: True
  obtain e1 w1 where v: "callCompose env ValidateCompose stack (snd ew) = (e1, w1)" by (metis surj_pair)
  obtain e2 w2 where r: "callCompose env DryRunCompose stack w1 = (e2, w2)" by (metis surj_pair)
  obtain e3 w3 where s: "callCompose env DeployComposeWait stack w2 = (e3, w3)" by (metis surj_pair)
  have x1: "extends stack (snd ew) w1" using extends_plain[OF v] by simp
  have x2: "extends stack w1 w2" if "e1 = None" using extends_call[OF r] callCompose_ok v that by fastforce
  have x3: "extends stack w2 w3" if "e1 = None" "e2 = None" using extends_call[OF s] callCompose_ok r that by fastforce
  show ?thesis
    using had v r s x1 x2 x3 extends_trans[OF x1] extends_trans[of stack w1 w2 w3]
    by (cases e1; cases e2; cases started) (auto simp: restartStack_def callUnless_def)
qed

lemma undoStack_extends: "extends stack (snd ew) (snd (snd (undoStack env b backupID stack provisioned ew)))"
proof -
  define ew1 where "ew1 = undoProvisioning env provisioned RollbackMetadata ''restore provisioning metadata: '' stack ew"
  obtain n ew2 where r: "restoreStackFiles env b backupID stack ew1 = (n, ew2)" by (metis surj_pair)
  define ew3 where "ew3 = undoProvisioning env provisioned RollbackRemovedPaths ''restore provisioned removals: '' stack ew2"
  have x1: "extends stack (snd ew) (snd ew1)" unfolding ew1_def by (rule undoProvisioning_extends) simp
  have x2: "extends stack (snd ew1) (snd ew2)" using restoreStackFiles_log[of env b backupID stack ew1] by (simp add: r extends_refl)
  have x3: "extends stack (snd ew2) (snd ew3)" unfolding ew3_def by (rule undoProvisioning_extends) simp
  have x4: "extends stack (snd ew3) (snd (undoProvisioning env provisioned RollbackCreatedDirectories ''remove provisioned directories: '' stack ew3))"
    by (rule undoProvisioning_extends) simp
  show ?thesis unfolding undoStack_def ew1_def[symmetric] r prod.case ew3_def[symmetric] snd_conv
    by (rule extends_trans[OF extends_trans[OF extends_trans[OF x1 x2] x3] x4])
qed

lemma rollbackStack_extends: "extends stack w (snd (snd (rollbackStack env b backupID stack stage provisioned w)))"
proof -
  obtain had e where h: "hadPrevious env b backupID stack = (had, e)" by (metis surj_pair)
  define ew1 where "ew1 = callUnless env (stage = ''deployment'' \<and> \<not> had) CleanupCompose stack (e, w)"
  obtain n ew2 where u: "undoStack env b backupID stack provisioned ew1 = (n, ew2)" by (metis surj_pair)
  have x1: "extends stack w (snd ew1)" using callUnless_extends[of CleanupCompose stack "(e, w)"] by (simp add: ew1_def)
  have x2: "extends stack (snd ew1) (snd ew2)" using undoStack_extends[of stack ew1] u by (metis snd_conv)
  show ?thesis unfolding rollbackStack_def h prod.case ew1_def[symmetric] u snd_conv
    by (rule extends_trans[OF extends_trans[OF x1 x2] restart_extends])
qed

text \<open>The attempt of one stack, and what its success means.\<close>

definition finalStates :: "string list" where
  "finalStates = [''success'', ''failed'', ''rolled_back'', ''rollback_failed'']"

lemma attemptStack_facts:
  assumes "attemptStack env b backupID stack w = (a, w1)"
  shows "extends stack w w1" "at_State a \<in> set finalStates"
    "at_State a = ''success'' \<longrightarrow> (\<exists>tail. set tail \<subseteq> {okCall CommitProvisioning stack} \<and>
       wd_log w1 = wd_log w @ map (\<lambda>(_, action). okCall action stack) (deployStages env b) @ tail)"
    "\<not> sb_AutoDeployRollbackEnabled b \<longrightarrow> at_State a = ''success'' \<or> at_State a = ''failed''"
proof -
  obtain stage err w0 where r: "runStages env stack (deployStages env b) ''provisioning'' w = ((stage, err), w0)" by (metis surj_pair)
  note ran = runStages_extends[OF deployStages_staged r]
  define provisioned where "provisioned = (stage \<noteq> ''provisioning'' \<and> dv_provisions env (wd_log w) stack)"
  obtain c w2 where c: "callCompose env CommitProvisioning stack w0 = (c, w2)" by (metis surj_pair)
  have x2: "extends stack w w2" using extends_trans[OF conjunct1[OF ran] extends_plain[OF c]] by simp
  obtain n re w3 where rb: "rollbackStack env b backupID stack stage provisioned w0 = (n, re, w3)" by (metis surj_pair)
  have x3: "extends stack w w3" using extends_trans[OF conjunct1[OF ran]] rollbackStack_extends[of stack w0 env b backupID stage provisioned] rb by simp
  have a: "(a, w1) = (case err of
        Some e \<Rightarrow>
          if sb_AutoDeployRollbackEnabled b then
            (case (n, re, w3) of
               (restored, None, w2) \<Rightarrow>
                 (\<lparr>at_State = ''rolled_back'', at_Result = failureText stage e @ ''; previous version restored safely ('' @ Itoa (nat restored) @ '' file(s))'',
                   at_Stage = stage\<rparr>, w2)
             | (_, Some r, w2) \<Rightarrow>
                 (\<lparr>at_State = ''rollback_failed'', at_Result = failureText stage e @ ''; automatic rollback failed: '' @ sanitizeDeploymentOutput (safeGitError r),
                   at_Stage = stage\<rparr>, w2))
          else if provisioned then
            (case (c, w2) of
               (None, w2) \<Rightarrow> (\<lparr>at_State = ''failed'', at_Result = failureText stage e, at_Stage = stage\<rparr>, w2)
             | (Some c, w2) \<Rightarrow>
                 (\<lparr>at_State = ''failed'', at_Result = failureText ''provisioning cleanup'' (e @ [CHR 0x0A] @ c), at_Stage = ''provisioning cleanup''\<rparr>, w2))
          else (\<lparr>at_State = ''failed'', at_Result = failureText stage e, at_Stage = stage\<rparr>, w0)
      | None \<Rightarrow>
          if provisioned then
            (case (c, w2) of
               (None, w2) \<Rightarrow> (\<lparr>at_State = ''success'', at_Result = ''deployed'', at_Stage = stage\<rparr>, w2)
             | (Some c, w2) \<Rightarrow> (\<lparr>at_State = ''failed'', at_Result = failureText ''provisioning cleanup'' c, at_Stage = ''provisioning cleanup''\<rparr>, w2))
          else (\<lparr>at_State = ''success'', at_Result = ''deployed'', at_Stage = stage\<rparr>, w0))"
    using assms unfolding attemptStack_def Let_def r prod.case provisioned_def[symmetric] c rb by simp
  show "extends stack w w1"
    using a x2 x3 ran by (cases err; cases re; cases c) (auto split: if_splits)
  show "at_State a \<in> set finalStates"
    using a by (cases err; cases re; cases c) (auto simp: finalStates_def split: if_splits)
  show "\<not> sb_AutoDeployRollbackEnabled b \<longrightarrow> at_State a = ''success'' \<or> at_State a = ''failed''"
    using a by (cases err; cases c) (auto split: if_splits)
  have done_log: "wd_log w0 = wd_log w @ map (\<lambda>(_, action). okCall action stack) (deployStages env b)" if "err = None" using ran that by simp
  have commit_log: "wd_log w2 = wd_log w0 @ [okCall CommitProvisioning stack]" if "c = None" using callCompose_ok c that by simp
  have ok: "err = None" "w1 = w0 \<or> (c = None \<and> w1 = w2)" if "at_State a = ''success''"
    using a that by (cases err; cases re; cases c; simp split: if_splits)+
  show "at_State a = ''success'' \<longrightarrow> (\<exists>tail. set tail \<subseteq> {okCall CommitProvisioning stack} \<and>
       wd_log w1 = wd_log w @ map (\<lambda>(_, action). okCall action stack) (deployStages env b) @ tail)"
  proof
    assume s: "at_State a = ''success''"
    from ok(2)[OF s] show "\<exists>tail. set tail \<subseteq> {okCall CommitProvisioning stack} \<and>
       wd_log w1 = wd_log w @ map (\<lambda>(_, action). okCall action stack) (deployStages env b) @ tail"
    proof
      assume "w1 = w0" then show ?thesis using done_log[OF ok(1)[OF s]] by (intro exI[of _ "[]"]) simp
    next
      assume "c = None \<and> w1 = w2"
      then show ?thesis using done_log[OF ok(1)[OF s]] commit_log by (intro exI[of _ "[okCall CommitProvisioning stack]"]) simp
    qed
  qed
qed

subsection \<open>The outcome of a batch\<close>

text \<open>What is known of a batch whose result so far is \<open>r\<close>, after the stacks \<open>tried\<close>.\<close>

definition deployedIn :: "deploy_env \<Rightarrow> StackBinding \<Rightarrow> string \<Rightarrow> deploy_log \<Rightarrow> bool" where
  "deployedIn env b stack log \<longleftrightarrow>
     (\<exists>pre tail post. log = pre @ map (\<lambda>(_, action). okCall action stack) (deployStages env b) @ tail @ post \<and> set tail \<subseteq> {okCall CommitProvisioning stack})"

definition batchOk :: "deploy_env \<Rightarrow> StackBinding \<Rightarrow> string list \<Rightarrow> deploymentBatchResult \<Rightarrow> deploy_world \<Rightarrow> deploy_world \<Rightarrow> bool" where
  "batchOk env b tried r w w1 \<longleftrightarrow>
     mset (br_Deployed r @ br_Failed r @ br_Deferred r) = mset tried \<and>
     set (br_RolledBack r) \<union> set (br_RollbackFailed r) \<subseteq> set (br_Failed r) \<and>
     length (br_RolledBack r) + length (br_RollbackFailed r) \<le> length (br_Failed r) \<and>
     (\<forall>stack\<in>set (br_Deployed r). deployedIn env b stack (wd_log w1)) \<and>
     (\<exists>cs. wd_log w1 = wd_log w @ cs \<and> (\<forall>c\<in>set cs. cc_Stack c \<in> set (br_Deployed r) \<union> set (br_Failed r))) \<and>
     (heeded (wd_log w) \<longrightarrow> heeded (wd_log w1))"

lemma deployedIn_append: "deployedIn env b stack log \<Longrightarrow> deployedIn env b stack (log @ cs)"
  unfolding deployedIn_def by (metis append.assoc)

lemma batchOk_start: "batchOk env b [] emptyBatch w w"
  by (simp add: batchOk_def emptyBatch_def)

lemma deployStack_facts:
  assumes "deployStack env b commit backupID stack r w1 = (None, r2, w2)"
  shows "(r2 = r\<lparr>br_Deferred := br_Deferred r @ [stack]\<rparr> \<and> w2 = w1) \<or>
    (\<exists>a wa wb. attemptStack env b backupID stack wa = (a, wb) \<and> wd_log wa = wd_log w1 \<and> wd_log w2 = wd_log wb \<and> r2 = recordAttempt stack a r)"
proof (cases "dv_lock env (wd_log w1) (path_join [sb_StackPath b, stack])")
  case False
  then show ?thesis using assms by (simp add: deployStack_def)
next
  case True
  define wa where "wa = beginDeployment env b stack (newDeployment env b commit stack w1) w1"
  obtain a wb where at: "attemptStack env b backupID stack wa = (a, wb)" by (metis surj_pair)
  have "wd_log wa = wd_log w1" by (simp add: wa_def beginDeployment_def noteStack_def)
  moreover have "r2 = recordAttempt stack a r \<and> wd_log w2 = wd_log wb"
    using assms True unfolding deployStack_def prod.case wa_def[symmetric] at endDeployment_def
    by (auto simp: noteStack_def split: option.splits)
  ultimately show ?thesis using at by blast
qed

lemma batchOk_step:
  assumes "batchOk env b tried r w w1" "deployStack env b commit backupID stack r w1 = (None, r2, w2)"
  shows "batchOk env b (tried @ [stack]) r2 w w2"
  using deployStack_facts[OF assms(2)]
proof
  assume "r2 = r\<lparr>br_Deferred := br_Deferred r @ [stack]\<rparr> \<and> w2 = w1"
  then show ?thesis using assms(1) by (auto simp: batchOk_def)
next
  assume "\<exists>a wa wb. attemptStack env b backupID stack wa = (a, wb) \<and> wd_log wa = wd_log w1 \<and> wd_log w2 = wd_log wb \<and> r2 = recordAttempt stack a r"
  then obtain a wa wb where at: "attemptStack env b backupID stack wa = (a, wb)" and logs: "wd_log wa = wd_log w1" "wd_log w2 = wd_log wb"
    and r2: "r2 = recordAttempt stack a r" by blast
  note facts = attemptStack_facts[OF at]
  obtain cs where cs: "wd_log w2 = wd_log w1 @ cs" "\<forall>c\<in>set cs. cc_Stack c = stack" and heed: "heeded (wd_log w1) \<longrightarrow> heeded (wd_log w2)"
    using facts(1) logs by (auto simp: extends_def)
  obtain cs0 where cs0: "wd_log w1 = wd_log w @ cs0" "\<forall>c\<in>set cs0. cc_Stack c \<in> set (br_Deployed r) \<union> set (br_Failed r)" and heed0: "heeded (wd_log w) \<longrightarrow> heeded (wd_log w1)"
    using assms(1) unfolding batchOk_def by blast
  have counted: "mset (br_Deployed r2 @ br_Failed r2 @ br_Deferred r2) = mset (tried @ [stack])"
    "set (br_RolledBack r2) \<union> set (br_RollbackFailed r2) \<subseteq> set (br_Failed r2)"
    "length (br_RolledBack r2) + length (br_RollbackFailed r2) \<le> length (br_Failed r2)"
    "set (br_Deployed r2) \<union> set (br_Failed r2) = insert stack (set (br_Deployed r) \<union> set (br_Failed r))"
    using assms(1) by (auto simp: batchOk_def r2 recordAttempt_def Let_def)
  have "deployedIn env b s (wd_log w2)" if s: "s \<in> set (br_Deployed r2)" for s
  proof (cases "s \<in> set (br_Deployed r)")
    case True
    then show ?thesis using assms(1) deployedIn_append cs(1) by (auto simp: batchOk_def)
  next
    case False
    then have "s = stack" "at_State a = ''success''" using s by (auto simp: r2 recordAttempt_def Let_def split: if_splits)
    then obtain tail where "set tail \<subseteq> {okCall CommitProvisioning stack}"
      "wd_log w2 = wd_log w1 @ map (\<lambda>(_, action). okCall action stack) (deployStages env b) @ tail" using facts(3) logs by auto
    then have "wd_log w2 = wd_log w1 @ map (\<lambda>(_, action). okCall action stack) (deployStages env b) @ tail @ [] \<and> set tail \<subseteq> {okCall CommitProvisioning stack}" by simp
    then show ?thesis unfolding deployedIn_def \<open>s = stack\<close> by blast
  qed
  moreover have "\<exists>cs. wd_log w2 = wd_log w @ cs \<and> (\<forall>c\<in>set cs. cc_Stack c \<in> set (br_Deployed r2) \<union> set (br_Failed r2))"
    unfolding counted(4) using cs cs0 by (intro exI[of _ "cs0 @ cs"]) auto
  ultimately show ?thesis using counted(1-3) heed heed0 unfolding batchOk_def by blast
qed

lemma deployLoop_error: "deployLoop env b commit backupID stacks (Some e, r, w) = (Some e, r, w)"
  by (cases stacks) auto

lemma deployLoop_batch:
  assumes "batchOk env b tried r w w1" "deployLoop env b commit backupID stacks (None, r, w1) = (None, r2, w2)"
  shows "batchOk env b (tried @ stacks) r2 w w2"
  using assms
proof (induction stacks arbitrary: tried r w1)
  case (Cons stack stacks)
  obtain e r3 w3 where one: "deployStack env b commit backupID stack r w1 = (e, r3, w3)" by (metis surj_pair)
  then have "e = None" using Cons.prems(2) by (cases e) (auto simp: deployLoop_error)
  then have "deployLoop env b commit backupID stacks (None, r3, w3) = (None, r2, w2)" "batchOk env b (tried @ [stack]) r3 w w3"
    using Cons.prems one batchOk_step by auto
  then show ?case using Cons.IH[of "tried @ [stack]"] by simp
qed simp

lemma deployChangedStacks_batch:
  assumes "deployChangedStacks env b commit changed backupID w = (None, r, w1)"
  shows "batchOk env b (deploymentTargetsForChanges b changed) r w w1 \<and>
    (deploymentTargetsForChanges b changed \<noteq> [] \<longrightarrow> (\<exists>db. wd_db w1 = snd (UpdateBindingAutoDeployState None (sb_UUID b) (fst (batchState r)) (snd (batchState r)) (Some (dv_now env)) db)))"
proof (cases "deploymentTargetsForChanges b changed = []")
  case True
  then have "r = emptyBatch \<and> w1 = w" using assms by (auto simp: deployChangedStacks_def split: if_splits)
  then show ?thesis using batchOk_start True by simp
next
  case False
  obtain e r2 w2 where l: "deployLoop env b commit backupID (deploymentTargetsForChanges b changed) (None, emptyBatch, w) = (e, r2, w2)" by (metis surj_pair)
  have fin: "finishBatch env b (e, r2, w2) = (None, r, w1)" using assms False l by (auto simp: deployChangedStacks_def split: if_splits)
  then have e: "e = None" by (cases e) auto
  obtain e2 db2 where u: "UpdateBindingAutoDeployState (dv_stateFault env) (sb_UUID b) (fst (batchState r2)) (snd (batchState r2)) (Some (dv_now env)) (wd_db w2) = (e2, db2)"
    by (metis surj_pair)
  have res: "r = r2" "w1 = w2\<lparr>wd_db := db2\<rparr>" "e2 = None" using fin e u by auto
  have fault: "dv_stateFault env = None" using u res(3) by (cases "dv_stateFault env") (auto simp: UpdateBindingAutoDeployState_def)
  have "batchOk env b (deploymentTargetsForChanges b changed) r2 w w2" using deployLoop_batch[OF batchOk_start l[unfolded e]] by simp
  moreover have "\<exists>db. wd_db w1 = snd (UpdateBindingAutoDeployState None (sb_UUID b) (fst (batchState r)) (snd (batchState r)) (Some (dv_now env)) db)"
    using u res fault by (intro exI[of _ "wd_db w2"]) simp
  ultimately show ?thesis using res by (simp add: batchOk_def)
qed

lemma deploymentTargets_distinct: "distinct (deploymentTargetsForChanges b changed)"
  by (simp add: deploymentTargetsForChanges_def uniqueSortedStrings_def)

lemma batchState_owed: "isRetryableAutoDeployState (fst (batchState r)) \<longleftrightarrow> br_Failed r \<noteq> [] \<or> br_Deferred r \<noteq> []"
  by (auto simp: batchState_def isRetryableAutoDeployState_def)

lemma batchOk_deferred:
  assumes "batchOk env b tried r w w1" "distinct tried"
  shows "\<forall>c\<in>set (drop (length (wd_log w)) (wd_log w1)). cc_Stack c \<notin> set (br_Deferred r)"
proof -
  have "distinct (br_Deployed r @ br_Failed r @ br_Deferred r)"
    using assms by (metis batchOk_def distinct_count_atmost_1 mset_eq_imp_distinct_iff)
  then show ?thesis using assms(1) by (auto simp: batchOk_def)
qed

lemma stored_deploy_state:
  "x \<in> set (db_bindings (snd (UpdateBindingAutoDeployState None key state message at db))) \<Longrightarrow> sb_UUID x = key \<Longrightarrow> \<not> sb_Deleted x \<Longrightarrow> sb_AutoDeployState x = state"
proof -
  assume x: "x \<in> set (db_bindings (snd (UpdateBindingAutoDeployState None key state message at db)))" and key: "sb_UUID x = key" "\<not> sb_Deleted x"
  let ?f = "\<lambda>b. b\<lparr>sb_AutoDeployState := state, sb_AutoDeployError := message, sb_LastAutoDeployAt := (case at of None \<Rightarrow> sb_LastAutoDeployAt b | Some _ \<Rightarrow> at)\<rparr>"
  have "set (db_bindings (snd (UpdateBindingAutoDeployState None key state message at db))) =
    (\<lambda>b. if sb_UUID b = key \<and> \<not> sb_Deleted b then ?f b else b) ` set (db_bindings db)"
    by (simp add: UpdateBindingAutoDeployState_def updateBinding_def update_where_def)
  with x obtain y where y: "x = (if sb_UUID y = key \<and> \<not> sb_Deleted y then ?f y else y)" by blast
  have "sb_UUID y = key \<and> \<not> sb_Deleted y" using y key by (cases "sb_UUID y = key \<and> \<not> sb_Deleted y") simp_all
  then have "x = ?f y" unfolding y by (rule if_P)
  then show ?thesis by simp
qed

text \<open>
  C23: the outcome of a batch.  When a run of the deployments ends, every stack it was to deploy is in exactly one of the
  lists deployed, failed and deferred; a rollback is reported only for a failed stack; a stack reported as deployed
  went through all stages without an error; a deferred stack was not touched by any call; and the state left on the
  link is one that is retried exactly when some stack failed or was deferred.
\<close>

theorem deployment_outcomes:
  assumes "deployChangedStacks env b commit changed backupID w = (None, r, w1)" "deploymentTargetsForChanges b changed \<noteq> []"
  shows "mset (br_Deployed r @ br_Failed r @ br_Deferred r) = mset (deploymentTargetsForChanges b changed) \<and>
    set (br_RolledBack r) \<union> set (br_RollbackFailed r) \<subseteq> set (br_Failed r) \<and>
    (\<forall>stack\<in>set (br_Deployed r). deployedIn env b stack (wd_log w1)) \<and>
    (\<forall>c\<in>set (drop (length (wd_log w)) (wd_log w1)). cc_Stack c \<notin> set (br_Deferred r)) \<and>
    (\<forall>x\<in>set (db_bindings (wd_db w1)). sb_UUID x = sb_UUID b \<and> \<not> sb_Deleted x \<longrightarrow>
       (isRetryableAutoDeployState (sb_AutoDeployState x) \<longleftrightarrow> br_Failed r \<noteq> [] \<or> br_Deferred r \<noteq> []))"
proof -
  note batch = deployChangedStacks_batch[OF assms(1)]
  then obtain db where db: "wd_db w1 = snd (UpdateBindingAutoDeployState None (sb_UUID b) (fst (batchState r)) (snd (batchState r)) (Some (dv_now env)) db)"
    using assms(2) by blast
  have owed: "\<forall>x\<in>set (db_bindings (wd_db w1)). sb_UUID x = sb_UUID b \<and> \<not> sb_Deleted x \<longrightarrow>
       (isRetryableAutoDeployState (sb_AutoDeployState x) \<longleftrightarrow> br_Failed r \<noteq> [] \<or> br_Deferred r \<noteq> [])"
  proof (intro ballI impI)
    fix x assume "x \<in> set (db_bindings (wd_db w1))" "sb_UUID x = sb_UUID b \<and> \<not> sb_Deleted x"
    then have "sb_AutoDeployState x = fst (batchState r)" unfolding db using stored_deploy_state by blast
    then show "isRetryableAutoDeployState (sb_AutoDeployState x) \<longleftrightarrow> br_Failed r \<noteq> [] \<or> br_Deferred r \<noteq> []"
      by (simp only: batchState_owed)
  qed
  note lists = conjunct1[OF batch, unfolded batchOk_def]
  show ?thesis
    by (intro conjI owed batchOk_deferred[OF conjunct1[OF batch] deploymentTargets_distinct]
        conjunct1[OF lists] conjunct1[OF conjunct2[OF lists]] conjunct1[OF conjunct2[OF conjunct2[OF conjunct2[OF lists]]]])
qed

text \<open>An environment in which every call succeeds, but for the calls a test names.\<close>

definition calmRestore :: restore_env where
  "calmRestore = \<lparr>rv_sha = (\<lambda>s. s), rv_token = (\<lambda>_ _. ''t''), rv_statError = (\<lambda>_. None), rv_special = (\<lambda>_. False), rv_writes = plainWrites, rv_removeAll = (\<lambda>_. None)\<rparr>"

definition calmDeploy :: deploy_env where
  "calmDeploy = \<lparr>dv_configured = True, dv_rollbackConfigured = True, dv_hasPull = True, dv_lock = (\<lambda>_ _. True), dv_answer = (\<lambda>_ _ _. None),
     dv_provisions = (\<lambda>_ _. False), dv_output = (\<lambda>_. []), dv_newID = (\<lambda>log. ''d'' @ Itoa (length log)), dv_now = 7, dv_saveFault = (\<lambda>_ _. None),
     dv_statusFault = (\<lambda>_. None), dv_stateFault = None, dv_baselineFault = None, dv_replaceFault = None, dv_restore = calmRestore,
     dv_world = \<lparr>rw_automationFree = True, rw_repositoryFree = True, rw_dirtyEditor = (\<lambda>_. False), rw_pauseFault = (\<lambda>_. None), rw_statusFault = None\<rparr>,
     dv_isUUID = (\<lambda>_. True), dv_backups = \<lparr>bs_rows = [], bs_archives = []\<rparr>\<rparr>"

definition twoStacks :: StackBinding where
  "twoStacks = sampleBinding\<lparr>sb_ComposePaths := joinPaths [''a/compose.yml'', ''b/compose.yml''], sb_AutoSyncEnabled := True, sb_AutoDeployEnabled := True,
     sb_AutoDeployComposePaths := joinPaths [''a/compose.yml'', ''b/compose.yml'']\<rparr>"

definition twoStacksWorld :: deploy_world where
  "twoStacksWorld = \<lparr>wd_log = [], wd_db = sampleDb\<lparr>db_bindings := [twoStacks], db_statuses := [
       (newStatus ''b1'' ''a/compose.yml'' ''up_to_date'')\<lparr>gs_DeployState := ''success''\<rparr>,
       (newStatus ''b1'' ''b/compose.yml'' ''up_to_date'')\<lparr>gs_DeployState := ''success''\<rparr>]\<rparr>, wd_files = []\<rparr>"

theorem deployment_outcomes_witness:
  "mset (br_Deployed (fst (snd (deployChangedStacks calmDeploy twoStacks ''c1'' [''a/x'', ''b/y''] [] twoStacksWorld))) @
     br_Failed (fst (snd (deployChangedStacks calmDeploy twoStacks ''c1'' [''a/x'', ''b/y''] [] twoStacksWorld))) @
     br_Deferred (fst (snd (deployChangedStacks calmDeploy twoStacks ''c1'' [''a/x'', ''b/y''] [] twoStacksWorld)))) =
   mset [''a/compose.yml'', ''b/compose.yml'']"
proof -
  let ?run = "deployChangedStacks calmDeploy twoStacks ''c1'' [''a/x'', ''b/y''] [] twoStacksWorld"
  have "fst ?run = None" by code_simp
  then have run: "?run = (None, fst (snd ?run), snd (snd ?run))" by (metis prod.collapse)
  have targets: "deploymentTargetsForChanges twoStacks [''a/x'', ''b/y''] = [''a/compose.yml'', ''b/compose.yml'']" by code_simp
  then have some: "deploymentTargetsForChanges twoStacks [''a/x'', ''b/y''] \<noteq> []" by simp
  show ?thesis using deployment_outcomes[OF run some] unfolding targets by blast
qed

text \<open>
  A deferred stack is forgotten when another one fails.  \<^verbatim>\<open>a\<close> fails while \<^verbatim>\<open>b\<close> is busy: the link is left failed, and the retry
  of a failed link re-arms only stacks whose own row shows a failure, which the row of the deferred stack does not.
\<close>

definition failsOn :: "compose_action \<Rightarrow> string \<Rightarrow> deploy_log \<Rightarrow> compose_action \<Rightarrow> string \<Rightarrow> string option" where
  "failsOn action stack log act st = (if act = action \<and> st = stack then Some ''boom'' else None)"

definition busyDeploy :: deploy_env where
  "busyDeploy = calmDeploy\<lparr>dv_lock := (\<lambda>_ name. name \<noteq> ''compose/b/compose.yml''), dv_answer := failsOn ValidateCompose ''a/compose.yml''\<rparr>"

lemma deferred_stack_forgotten:
  "let (e, r, w1) = deployChangedStacks busyDeploy twoStacks ''c1'' [''a/x'', ''b/y''] [] twoStacksWorld in
   e = None \<and> br_Failed r = [''a/compose.yml''] \<and> br_Deferred r = [''b/compose.yml''] \<and>
   map sb_AutoDeployState (db_bindings (wd_db w1)) = [''failed''] \<and>
   stacksAwaitingDeployRetry False twoStacks (wd_db w1) = [''a/compose.yml'']"
  by code_simp

text \<open>
  A retry carries no backup of an import.  When the deployment fails once and works at the second attempt, the rollback
  restores nothing, starts the same files again, and reports the previous version as restored.
\<close>

definition flakyDeploy :: deploy_env where
  "flakyDeploy = calmDeploy\<lparr>dv_answer := (\<lambda>log act st. if act = DeployComposeWait \<and> DeployComposeWait \<notin> cc_Action ` set log then Some ''unhealthy'' else None)\<rparr>"

lemma rolled_back_to_the_same_files:
  "let b = twoStacks\<lparr>sb_AutoDeployRollbackEnabled := True\<rparr>; (e, r, w1) = deployChangedStacks flakyDeploy b ''c1'' [''a/x''] [] twoStacksWorld in
   e = None \<and> br_RolledBack r = [''a/compose.yml''] \<and> br_Deployed r = [] \<and> wd_files w1 = wd_files twoStacksWorld \<and>
   map dp_Result (db_deployments (wd_db w1)) = [''deployment failed: unhealthy; previous version restored safely (0 file(s))'']"
  by code_simp

subsection \<open>Nothing is started unchecked\<close>

lemma deployStack_heeded: "heeded (wd_log w1) \<Longrightarrow> heeded (wd_log (snd (snd (deployStack env b commit backupID stack r w1))))"
proof -
  assume h: "heeded (wd_log w1)"
  define wa where "wa = beginDeployment env b stack (newDeployment env b commit stack w1) w1"
  obtain a wb where at: "attemptStack env b backupID stack wa = (a, wb)" by (metis surj_pair)
  have "wd_log wa = wd_log w1" by (simp add: wa_def beginDeployment_def noteStack_def)
  then have "heeded (wd_log wb)" using attemptStack_facts(1)[OF at] h by (simp add: extends_def)
  then show ?thesis using h unfolding deployStack_def prod.case wa_def[symmetric] at endDeployment_def
    by (auto simp: noteStack_def split: option.split)
qed

lemma deployLoop_heeded:
  "heeded (wd_log w) \<Longrightarrow> heeded (wd_log (snd (snd (deployLoop env b commit backupID stacks (e, r, w)))))"
proof (induction stacks arbitrary: e r w)
  case (Cons stack stacks)
  obtain e3 r3 w3 where one: "deployStack env b commit backupID stack r w = (e3, r3, w3)" by (metis surj_pair)
  have "heeded (wd_log w3)" using deployStack_heeded[of w env b commit backupID stack r] Cons.prems one by simp
  then show ?case using Cons.IH[of w3 e3 r3] Cons.prems one by (cases e) auto
qed simp

lemma finishBatch_log: "wd_log (snd (snd (finishBatch env b (e, r, w)))) = wd_log w"
  by (cases e) (auto split: prod.split)

lemma deployChangedStacks_heeded:
  assumes "heeded (wd_log w)"
  shows "heeded (wd_log (snd (snd (deployChangedStacks env b commit changed backupID w))))"
proof -
  obtain e r w1 where l: "deployLoop env b commit backupID (deploymentTargetsForChanges b changed) (None, emptyBatch, w) = (e, r, w1)" by (metis surj_pair)
  have "heeded (wd_log w1)" using deployLoop_heeded[OF assms, of env b commit backupID "deploymentTargetsForChanges b changed" None emptyBatch] l by simp
  then show ?thesis using assms l finishBatch_log[of env b e r w1] by (simp add: deployChangedStacks_def)
qed

text \<open>
  C22: nothing is started unchecked, whatever Compose answers and whatever fails.  In the calls of a run, each start of
  a stack comes directly after a successful dry run of that stack, and each dry run directly after its successful
  validation, with at most the pull of its images between; this holds for the restart of the previous version too.
\<close>

theorem started_only_after_dry_run:
  assumes "wd_log w = []" "wd_log (snd (snd (deployChangedStacks env b commit changed backupID w))) = pre @ c # post"
  shows "(cc_Action c \<in> {DeployCompose, DeployComposeWait} \<longrightarrow> (\<exists>p. pre = p @ [okCall DryRunCompose (cc_Stack c)])) \<and>
    (cc_Action c = DryRunCompose \<longrightarrow> (\<exists>p. pre = p @ [okCall ValidateCompose (cc_Stack c)] \<or>
       pre = p @ [okCall ValidateCompose (cc_Stack c), okCall PullCompose (cc_Stack c)]))"
proof -
  have "heeded (wd_log (snd (snd (deployChangedStacks env b commit changed backupID w))))"
    by (rule deployChangedStacks_heeded) (simp add: assms(1) heeded.nothing)
  then show ?thesis using heeded_admissible[OF _ assms(2)] by (simp add: admissible_def)
qed

theorem started_only_after_dry_run_witness:
  "\<exists>p. [okCall ApplyProvisioning ''a/compose.yml'', okCall ValidateCompose ''a/compose.yml'', okCall PullCompose ''a/compose.yml'', okCall DryRunCompose ''a/compose.yml''] =
     p @ [okCall DryRunCompose (cc_Stack (okCall DeployCompose ''a/compose.yml''))]"
proof -
  have log: "wd_log (snd (snd (deployChangedStacks calmDeploy twoStacks ''c1'' [''a/x''] [] twoStacksWorld))) =
    [okCall ApplyProvisioning ''a/compose.yml'', okCall ValidateCompose ''a/compose.yml'', okCall PullCompose ''a/compose.yml'', okCall DryRunCompose ''a/compose.yml''] @
      okCall DeployCompose ''a/compose.yml'' # []" by code_simp
  have "wd_log twoStacksWorld = []" by (simp add: twoStacksWorld_def)
  from started_only_after_dry_run[OF this log] show ?thesis by (simp add: okCall_def)
qed

end
