(* ===== verification/Repo_Git.thy ===== *)
theory Repo_Git
  imports Sync_Deploy_Laws
begin

section \<open>The managed repository\<close>

text \<open>
  Models the Git operations of \<open>core/internal/gitsync/repository.go\<close>: the distance between commits, the status of a
  repository against its remote, fetch, pull, push and the reset to the remote.  A repository is its commits, each with the
  parents that go-git yields for it, the local branch and the remote-tracking branch; what go-git does on the network and its merge base are
  functions of the environment that answer for the moment they are asked.  The laws the code relies on are \<open>git_laws\<close>.
\<close>

type_synonym commits = "(string, string list) gomap"

record git_repo =
  gr_commits :: commits
  gr_local :: "string option"
  gr_tracking :: "string option"

record RepositoryGitStatus =
  rg_Head :: string
  rg_RemoteHead :: string
  rg_Ahead :: int
  rg_Behind :: int
  rg_Diverged :: bool
  rg_State :: string

definition maxCommitDistanceWalk :: nat where "maxCommitDistanceWalk = 10000"

definition parentsOf :: "commits \<Rightarrow> string \<Rightarrow> string list" where
  "parentsOf commits h = (case map_of commits h of None \<Rightarrow> [] | Some ps \<Rightarrow> ps)"

text \<open>The loop over the queue; \<open>seen\<close> holds the commits it visited.\<close>

function distanceWalk :: "commits \<Rightarrow> string \<Rightarrow> (string \<times> nat) list \<Rightarrow> string list \<Rightarrow> nat option" where
  "distanceWalk commits ancestor [] seen = None"
| "distanceWalk commits ancestor ((h, d) # queue) seen =
     (if length seen \<ge> maxCommitDistanceWalk then None
      else if h \<in> set seen then distanceWalk commits ancestor queue seen
      else if h = ancestor then Some d
      else distanceWalk commits ancestor (queue @ map (\<lambda>p. (p, d + 1)) (parentsOf commits h)) (h # seen))"
  by pat_completeness auto
termination
  by (relation "measures [\<lambda>(_, _, _, seen). maxCommitDistanceWalk - length seen, \<lambda>(_, _, queue, _). length queue]") auto

definition commitDistance :: "commits \<Rightarrow> string \<Rightarrow> string \<Rightarrow> nat option" where
  "commitDistance commits start ancestor = (if start = ancestor then Some 0 else distanceWalk commits ancestor [(start, 0)] [])"

text \<open>What is outside: the operation journal, the workspace, credentials, and go-git.\<close>

record git_env =
  ge_enabled :: bool
  ge_row :: "nat \<Rightarrow> string option"
  ge_journal :: "nat \<Rightarrow> string option"
  ge_closing :: "nat \<Rightarrow> string option"
  ge_open :: "nat \<Rightarrow> string option"
  ge_auth :: "nat \<Rightarrow> string option"
  ge_fetch :: "nat \<Rightarrow> git_repo \<Rightarrow> string + git_repo"
  ge_push :: "nat \<Rightarrow> git_repo \<Rightarrow> string + git_repo"
  ge_mergeBase :: "commits \<Rightarrow> string \<Rightarrow> string \<Rightarrow> string + string list"

record git_world =
  gw_time :: nat
  gw_repo :: git_repo
  gw_Status :: string
  gw_LastError :: string

definition tick :: "git_world \<Rightarrow> git_world" where
  "tick w = w\<lparr>gw_time := Suc (gw_time w)\<rparr>"

definition unmeasuredStatus :: "string \<Rightarrow> string \<Rightarrow> string \<Rightarrow> RepositoryGitStatus" where
  "unmeasuredStatus head remote state = \<lparr>rg_Head = head, rg_RemoteHead = remote, rg_Ahead = 0, rg_Behind = 0, rg_Diverged = True, rg_State = state\<rparr>"

fun measuredStatus :: "string \<Rightarrow> string \<Rightarrow> nat option \<Rightarrow> nat option \<Rightarrow> RepositoryGitStatus" where
  "measuredStatus head remote (Some a) (Some b) =
     \<lparr>rg_Head = head, rg_RemoteHead = remote, rg_Ahead = int a, rg_Behind = int b, rg_Diverged = (a > 0 \<and> b > 0),
      rg_State = (if a > 0 \<and> b > 0 then ''diverged'' else if a > 0 then ''ahead'' else if b > 0 then ''behind'' else ''unknown'')\<rparr>"
| "measuredStatus head remote _ _ = unmeasuredStatus head remote ''unmeasured''"

definition compareHeads :: "git_env \<Rightarrow> commits \<Rightarrow> string \<Rightarrow> string \<Rightarrow> string + RepositoryGitStatus" where
  "compareHeads env commits head remote =
     (if head = remote then Inr \<lparr>rg_Head = head, rg_RemoteHead = remote, rg_Ahead = 0, rg_Behind = 0, rg_Diverged = False, rg_State = ''up-to-date''\<rparr>
      else if map_of commits head = None \<or> map_of commits remote = None then Inl ''object not found''
      else (case ge_mergeBase env commits head remote of
          Inr (base # _) \<Rightarrow> Inr (measuredStatus head remote (commitDistance commits head base) (commitDistance commits remote base))
        | _ \<Rightarrow> Inr (unmeasuredStatus head remote ''diverged'')))"

definition branchStatus :: "git_env \<Rightarrow> git_repo \<Rightarrow> string + RepositoryGitStatus" where
  "branchStatus env repo =
     (case gr_local repo of
        None \<Rightarrow> Inl ''local branch is unavailable''
      | Some head \<Rightarrow>
          (case gr_tracking repo of
             None \<Rightarrow> Inr \<lparr>rg_Head = head, rg_RemoteHead = [], rg_Ahead = 1, rg_Behind = 0, rg_Diverged = False, rg_State = ''local-only''\<rparr>
           | Some remote \<Rightarrow> compareHeads env (gr_commits repo) head remote))"

definition RepositoryStatus :: "git_env \<Rightarrow> git_world \<Rightarrow> string + RepositoryGitStatus" where
  "RepositoryStatus env w =
     (case ge_row env (gw_time w) of
        Some e \<Rightarrow> Inl e
      | None \<Rightarrow> (case ge_open env (gw_time w) of Some e \<Rightarrow> Inl e | None \<Rightarrow> branchStatus env (gw_repo w)))"

definition recordRepositoryError :: "string \<Rightarrow> git_world \<Rightarrow> git_world" where
  "recordRepositoryError e w = w\<lparr>gw_Status := ''error'', gw_LastError := safeGitError e\<rparr>"

definition repositoryReady :: "git_world \<Rightarrow> git_world" where
  "repositoryReady w = w\<lparr>gw_Status := ''ready'', gw_LastError := []\<rparr>"

text \<open>
  \<open>runOperation\<close>: the entry of the journal, the operation, the closing of the entry.  An operation whose entry could not be
  closed is reported as failed although it was done.
\<close>

fun closeOperation :: "string option \<Rightarrow> string option \<times> git_world \<Rightarrow> string option \<times> git_world" where
  "closeOperation closing (Some e, w) = (Some e, w)"
| "closeOperation closing (None, w) = (closing, w)"

definition runGitOperation :: "git_env \<Rightarrow> (git_world \<Rightarrow> string option \<times> git_world) \<Rightarrow> git_world \<Rightarrow> string option \<times> git_world" where
  "runGitOperation env body w =
     (if \<not> ge_enabled env then (Some ''Git synchronization is disabled'', w)
      else (case ge_journal env (gw_time w) of
          Some e \<Rightarrow> (Some e, w)
        | None \<Rightarrow> closeOperation (ge_closing env (gw_time w)) (body w)))"

definition fetchBody :: "git_env \<Rightarrow> git_world \<Rightarrow> string option \<times> git_world" where
  "fetchBody env w =
     (case ge_open env (gw_time w) of
        Some e \<Rightarrow> (Some e, w)
      | None \<Rightarrow>
          (case ge_auth env (gw_time w) of
             Some e \<Rightarrow> (Some e, w)
           | None \<Rightarrow> (case ge_fetch env (gw_time w) (gw_repo w) of Inl e \<Rightarrow> (Some e, w) | Inr repo \<Rightarrow> (None, w\<lparr>gw_repo := repo\<rparr>))))"

text \<open>Moves the local branch to the remote-tracking one.\<close>

definition adoptRemote :: "git_env \<Rightarrow> git_world \<Rightarrow> string option \<times> git_world" where
  "adoptRemote env w =
     (case ge_open env (gw_time w) of
        Some e \<Rightarrow> (Some e, w)
      | None \<Rightarrow>
          (case gr_tracking (gw_repo w) of
             None \<Rightarrow> (Some ''resolve fetched branch: reference not found'', w)
           | Some remote \<Rightarrow> (None, w\<lparr>gw_repo := (gw_repo w)\<lparr>gr_local := Some remote\<rparr>\<rparr>)))"

definition pushBody :: "git_env \<Rightarrow> git_world \<Rightarrow> string option \<times> git_world" where
  "pushBody env w =
     (case ge_open env (gw_time w) of
        Some e \<Rightarrow> (Some e, w)
      | None \<Rightarrow>
          (case ge_auth env (gw_time w) of
             Some e \<Rightarrow> (Some e, w)
           | None \<Rightarrow> (case ge_push env (gw_time w) (gw_repo w) of Inl e \<Rightarrow> (Some e, w) | Inr repo \<Rightarrow> (None, w\<lparr>gw_repo := repo\<rparr>))))"

fun afterFetch :: "git_env \<Rightarrow> string option \<times> git_world \<Rightarrow> (string + RepositoryGitStatus) \<times> git_world" where
  "afterFetch env (Some e, w) = (Inl e, recordRepositoryError e w)"
| "afterFetch env (None, w) = (RepositoryStatus env (repositoryReady w), repositoryReady w)"

definition fetchRepositoryLocked :: "git_env \<Rightarrow> git_world \<Rightarrow> (string + RepositoryGitStatus) \<times> git_world" where
  "fetchRepositoryLocked env w =
     (case ge_row env (gw_time w) of
        Some e \<Rightarrow> (Inl e, tick w)
      | None \<Rightarrow> afterFetch env (runGitOperation env (fetchBody env) (tick w)))"

fun afterMove :: "git_env \<Rightarrow> string option \<times> git_world \<Rightarrow> (string + RepositoryGitStatus) \<times> git_world" where
  "afterMove env (Some e, w) = (Inl e, recordRepositoryError e w)"
| "afterMove env (None, w) = (RepositoryStatus env w, w)"

definition pullGuarded :: "git_env \<Rightarrow> RepositoryGitStatus \<Rightarrow> git_world \<Rightarrow> (string + RepositoryGitStatus) \<times> git_world" where
  "pullGuarded env st0 w =
     (if rg_Diverged st0 \<or> rg_Ahead st0 > 0
        then (Inl ''pull refused: local and remote history require an explicit conflict decision'', w)
      else if rg_Behind st0 = 0 then (Inr st0, w)
      else afterMove env (runGitOperation env (adoptRemote env) w))"

definition pushGuarded :: "git_env \<Rightarrow> RepositoryGitStatus \<Rightarrow> git_world \<Rightarrow> (string + RepositoryGitStatus) \<times> git_world" where
  "pushGuarded env st0 w =
     (if rg_Diverged st0 \<or> rg_Behind st0 > 0
        then (Inl ''push refused: remote contains commits that are not present locally'', w)
      else if rg_Ahead st0 = 0 then (Inr st0, w)
      else (case runGitOperation env (pushBody env) (tick w) of
          (Some e, w1) \<Rightarrow> (Inl e, recordRepositoryError e w1)
        | (None, w1) \<Rightarrow> fetchRepositoryLocked env w1))"

definition resetGuarded :: "git_env \<Rightarrow> RepositoryGitStatus \<Rightarrow> git_world \<Rightarrow> (string + RepositoryGitStatus) \<times> git_world" where
  "resetGuarded env st0 w =
     (if rg_Ahead st0 = 0 \<and> \<not> rg_Diverged st0 then (Inr st0, w)
      else (case runGitOperation env (adoptRemote env) w of
          (Some e, w1) \<Rightarrow> (Inl e, recordRepositoryError e w1)
        | (None, w1) \<Rightarrow> (RepositoryStatus env (repositoryReady w1), repositoryReady w1)))"

text \<open>The common beginning of the three: a fetch, then the status against what was fetched.\<close>

fun onStatus :: "git_env \<Rightarrow> (RepositoryGitStatus \<Rightarrow> git_world \<Rightarrow> (string + RepositoryGitStatus) \<times> git_world) \<Rightarrow>
    (string + RepositoryGitStatus) \<times> git_world \<Rightarrow> (string + RepositoryGitStatus) \<times> git_world" where
  "onStatus env next (Inl e, w) = (Inl e, w)"
| "onStatus env next (Inr _, w) =
     (case ge_row env (gw_time w) of
        Some e \<Rightarrow> (Inl e, w)
      | None \<Rightarrow> (case RepositoryStatus env w of Inl e \<Rightarrow> (Inl e, w) | Inr st0 \<Rightarrow> next st0 w))"

definition FetchRepository :: "git_env \<Rightarrow> git_world \<Rightarrow> (string + RepositoryGitStatus) \<times> git_world" where
  "FetchRepository env w = fetchRepositoryLocked env w"

definition PullRepository :: "git_env \<Rightarrow> git_world \<Rightarrow> (string + RepositoryGitStatus) \<times> git_world" where
  "PullRepository env w = onStatus env (pullGuarded env) (fetchRepositoryLocked env w)"

definition PushRepository :: "git_env \<Rightarrow> git_world \<Rightarrow> (string + RepositoryGitStatus) \<times> git_world" where
  "PushRepository env w = onStatus env (pushGuarded env) (fetchRepositoryLocked env w)"

definition ResetRepositoryToRemote :: "git_env \<Rightarrow> git_world \<Rightarrow> (string + RepositoryGitStatus) \<times> git_world" where
  "ResetRepositoryToRemote env w = onStatus env (resetGuarded env) (fetchRepositoryLocked env w)"

subsection \<open>The distance is the shortest\<close>

definition childOf :: "commits \<Rightarrow> (string \<times> string) set" where
  "childOf commits = {(h, p). p \<in> set (parentsOf commits h)}"

text \<open>What the loop keeps: its queue in the order of the distances, and every visited commit at its least distance.\<close>

definition walkOk :: "commits \<Rightarrow> string \<Rightarrow> string \<Rightarrow> (string \<times> nat) list \<Rightarrow> string list \<Rightarrow> (string \<Rightarrow> nat) \<Rightarrow> bool" where
  "walkOk commits start ancestor queue seen D \<longleftrightarrow>
     sorted (map snd queue) \<and> (\<forall>(h, d)\<in>set queue. d \<le> snd (hd queue) + 1 \<and> (start, h) \<in> childOf commits ^^ d) \<and>
     distinct seen \<and> ancestor \<notin> set seen \<and> (start \<in> set seen \<or> (start, 0) \<in> set queue) \<and>
     (\<forall>u\<in>set seen. (start, u) \<in> childOf commits ^^ D u \<and> (\<forall>n. (start, u) \<in> childOf commits ^^ n \<longrightarrow> D u \<le> n) \<and>
        (\<forall>p\<in>set (parentsOf commits u). p \<in> set seen \<or> (p, D u + 1) \<in> set queue))"

lemma walkOkD:
  assumes "walkOk commits start ancestor queue seen D"
  shows "sorted (map snd queue)" "x \<in> set queue \<Longrightarrow> snd x \<le> snd (hd queue) + 1" "x \<in> set queue \<Longrightarrow> (start, fst x) \<in> childOf commits ^^ snd x"
    "distinct seen" "ancestor \<notin> set seen" "start \<in> set seen \<or> (start, 0) \<in> set queue"
    "u \<in> set seen \<Longrightarrow> (start, u) \<in> childOf commits ^^ D u" "u \<in> set seen \<Longrightarrow> (start, u) \<in> childOf commits ^^ n \<Longrightarrow> D u \<le> n"
    "u \<in> set seen \<Longrightarrow> p \<in> set (parentsOf commits u) \<Longrightarrow> p \<in> set seen \<or> (p, D u + 1) \<in> set queue"
  using assms by (auto simp: walkOk_def)

lemma walkOkI:
  assumes "sorted (map snd queue)" "\<And>x. x \<in> set queue \<Longrightarrow> snd x \<le> snd (hd queue) + 1" "\<And>x. x \<in> set queue \<Longrightarrow> (start, fst x) \<in> childOf commits ^^ snd x"
    "distinct seen" "ancestor \<notin> set seen" "start \<in> set seen \<or> (start, 0) \<in> set queue"
    "\<And>u. u \<in> set seen \<Longrightarrow> (start, u) \<in> childOf commits ^^ D u" "\<And>u n. u \<in> set seen \<Longrightarrow> (start, u) \<in> childOf commits ^^ n \<Longrightarrow> D u \<le> n"
    "\<And>u p. u \<in> set seen \<Longrightarrow> p \<in> set (parentsOf commits u) \<Longrightarrow> p \<in> set seen \<or> (p, D u + 1) \<in> set queue"
  shows "walkOk commits start ancestor queue seen D"
  unfolding walkOk_def using assms by fastforce

lemma walkOk_frontier:
  assumes ok: "walkOk commits start ancestor queue seen D"
  shows "(start, v) \<in> childOf commits ^^ n \<Longrightarrow> v \<notin> set seen \<Longrightarrow> \<exists>x\<in>set queue. snd x \<le> n"
proof (induction n arbitrary: v)
  case 0
  then show ?case using walkOkD(6)[OF ok] by force
next
  case (Suc n)
  then obtain u where u: "(start, u) \<in> childOf commits ^^ n" "v \<in> set (parentsOf commits u)" by (auto simp: childOf_def)
  show ?case
  proof (cases "u \<in> set seen")
    case True
    have "(v, D u + 1) \<in> set queue" using walkOkD(9)[OF ok True u(2)] Suc.prems(2) by blast
    moreover have "D u \<le> n" using walkOkD(8)[OF ok True u(1)] .
    ultimately show ?thesis by force
  next
    case False
    obtain x where "x \<in> set queue" "snd x \<le> n" using Suc.IH[OF u(1) False] by blast
    then show ?thesis by (intro bexI[of _ x]) simp_all
  qed
qed

lemma walkOk_least:
  assumes ok: "walkOk commits start ancestor ((h, d) # queue) seen D" and new: "h \<notin> set seen"
  shows "(start, h) \<in> childOf commits ^^ d" "(start, h) \<in> childOf commits ^^ n \<Longrightarrow> d \<le> n"
proof -
  show "(start, h) \<in> childOf commits ^^ d" using walkOkD(3)[OF ok, of "(h, d)"] by simp
  assume "(start, h) \<in> childOf commits ^^ n"
  then obtain x where x: "x \<in> set ((h, d) # queue)" "snd x \<le> n" using walkOk_frontier[OF ok _ new] by blast
  have "d \<le> snd x" using walkOkD(1)[OF ok] x(1) by auto
  then show "d \<le> n" using x(2) by simp
qed

lemma walkOk_skip:
  assumes ok: "walkOk commits start ancestor ((h, d) # queue) seen D" and old: "h \<in> set seen"
  shows "walkOk commits start ancestor queue seen D"
proof (rule walkOkI)
  show "sorted (map snd queue)" using walkOkD(1)[OF ok] by simp
  show "snd x \<le> snd (hd queue) + 1" if "x \<in> set queue" for x
  proof -
    have "snd x \<le> d + 1" using walkOkD(2)[OF ok, of x] that by simp
    moreover have "d \<le> snd (hd queue)" using walkOkD(1)[OF ok] that by (cases queue) auto
    ultimately show ?thesis by simp
  qed
  show "(start, fst x) \<in> childOf commits ^^ snd x" if "x \<in> set queue" for x using walkOkD(3)[OF ok, of x] that by simp
  show "start \<in> set seen \<or> (start, 0) \<in> set queue" using walkOkD(6)[OF ok] old by auto
  show "p \<in> set seen \<or> (p, D u + 1) \<in> set queue" if "u \<in> set seen" "p \<in> set (parentsOf commits u)" for u p
    using walkOkD(9)[OF ok that] old by auto
qed (use walkOkD(4,5,7,8)[OF ok] in auto)

lemma walkOk_visit:
  assumes ok: "walkOk commits start ancestor ((h, d) # queue) seen D" and new: "h \<notin> set seen" "h \<noteq> ancestor"
  shows "walkOk commits start ancestor (queue @ map (\<lambda>p. (p, d + 1)) (parentsOf commits h)) (h # seen) (D(h := d))"
proof (rule walkOkI)
  let ?q = "queue @ map (\<lambda>p. (p, d + 1)) (parentsOf commits h)"
  note least = walkOk_least[OF ok new(1)]
  have near: "d \<le> snd x \<and> snd x \<le> d + 1" if "x \<in> set ?q" for x
    using walkOkD(1)[OF ok] walkOkD(2)[OF ok, of x] that by auto
  show "sorted (map snd ?q)" using walkOkD(1)[OF ok] near by (auto simp: sorted_append sorted_wrt_map sorted_wrt01 comp_def)
  show "snd x \<le> snd (hd ?q) + 1" if "x \<in> set ?q" for x
  proof -
    have "hd ?q \<in> set ?q" using that by (intro hd_in_set) auto
    then show ?thesis using near[OF that] near[of "hd ?q"] by linarith
  qed
  show "(start, fst x) \<in> childOf commits ^^ snd x" if "x \<in> set ?q" for x
    using walkOkD(3)[OF ok, of x] least(1) that by (auto simp: childOf_def)
  show "distinct (h # seen)" using walkOkD(4)[OF ok] new by simp
  show "ancestor \<notin> set (h # seen)" using walkOkD(5)[OF ok] new by auto
  show "start \<in> set (h # seen) \<or> (start, 0) \<in> set ?q" using walkOkD(6)[OF ok] by auto
  show "(start, u) \<in> childOf commits ^^ (D(h := d)) u" if "u \<in> set (h # seen)" for u
    using walkOkD(7)[OF ok, of u] least(1) that by (cases "u = h") auto
  show "(D(h := d)) u \<le> n" if "u \<in> set (h # seen)" "(start, u) \<in> childOf commits ^^ n" for u n
    using walkOkD(8)[OF ok, of u n] least(2)[of n] that by (cases "u = h") auto
  show "p \<in> set (h # seen) \<or> (p, (D(h := d)) u + 1) \<in> set ?q" if "u \<in> set (h # seen)" "p \<in> set (parentsOf commits u)" for u p
    using walkOkD(9)[OF ok, of u p] that new(1) by (cases "u = h") auto
qed

lemma distanceWalk_Some:
  "walkOk commits start ancestor queue seen D \<Longrightarrow> distanceWalk commits ancestor queue seen = Some d \<Longrightarrow>
   (start, ancestor) \<in> childOf commits ^^ d \<and> (\<forall>n. (start, ancestor) \<in> childOf commits ^^ n \<longrightarrow> d \<le> n)"
proof (induction commits ancestor queue seen arbitrary: D rule: distanceWalk.induct)
  case (2 commits ancestor h e queue seen)
  have room: "\<not> maxCommitDistanceWalk \<le> length seen" using "2.prems"(2) by (auto split: if_splits)
  consider "h \<in> set seen" | "h \<notin> set seen" "h = ancestor" | "h \<notin> set seen" "h \<noteq> ancestor" by blast
  then show ?case
  proof cases
    case 1
    then show ?thesis using "2.IH"(1)[OF room 1 walkOk_skip[OF "2.prems"(1) 1]] "2.prems"(2) room by simp
  next
    case 2
    then have "d = e" using "2.prems"(2) room by simp
    then show ?thesis using walkOk_least[OF "2.prems"(1) 2(1)] 2(2) by blast
  next
    case 3
    then show ?thesis using "2.IH"(2)[OF room 3 walkOk_visit[OF "2.prems"(1) 3]] "2.prems"(2) room by simp
  qed
qed simp

definition exhaustedWalk :: "commits \<Rightarrow> string \<Rightarrow> string list \<Rightarrow> bool" where
  "exhaustedWalk commits start hs \<longleftrightarrow> length hs \<ge> maxCommitDistanceWalk \<and> distinct hs \<and> set hs \<subseteq> {h. (start, h) \<in> (childOf commits)\<^sup>*}"

lemma distanceWalk_None:
  "walkOk commits start ancestor queue seen D \<Longrightarrow> distanceWalk commits ancestor queue seen = None \<Longrightarrow>
   (\<forall>n. (start, ancestor) \<notin> childOf commits ^^ n) \<or> (\<exists>hs. exhaustedWalk commits start hs)"
proof (induction commits ancestor queue seen arbitrary: D rule: distanceWalk.induct)
  case (1 commits ancestor seen)
  have "(start, ancestor) \<notin> childOf commits ^^ n" for n
    using walkOk_frontier[OF "1.prems"(1), of ancestor n] walkOkD(5)[OF "1.prems"(1)] by auto
  then show ?case by blast
next
  case (2 commits ancestor h e queue seen)
  consider "maxCommitDistanceWalk \<le> length seen" | "\<not> maxCommitDistanceWalk \<le> length seen" "h \<in> set seen"
    | "\<not> maxCommitDistanceWalk \<le> length seen" "h \<notin> set seen" "h \<noteq> ancestor" using "2.prems"(2) by (fastforce split: if_splits)
  then show ?case
  proof cases
    case 1
    have "set seen \<subseteq> {h. (start, h) \<in> (childOf commits)\<^sup>*}" using walkOkD(7)[OF "2.prems"(1)] relpow_imp_rtrancl by blast
    then have "exhaustedWalk commits start seen" using 1 walkOkD(4)[OF "2.prems"(1)] by (simp add: exhaustedWalk_def)
    then show ?thesis by blast
  next
    case 2
    then show ?thesis using "2.IH"(1)[OF 2 walkOk_skip[OF "2.prems"(1) 2(2)]] "2.prems"(2) by simp
  next
    case 3
    then show ?thesis using "2.IH"(2)[OF 3 walkOk_visit[OF "2.prems"(1) 3(2,3)]] "2.prems"(2) by simp
  qed
qed

lemma walkOk_start: "start \<noteq> ancestor \<Longrightarrow> walkOk commits start ancestor [(start, 0)] [] D"
  by (simp add: walkOk_def)

lemma commitDistance_Some:
  assumes "commitDistance commits start ancestor = Some d"
  shows "(start, ancestor) \<in> childOf commits ^^ d \<and> (\<forall>n. (start, ancestor) \<in> childOf commits ^^ n \<longrightarrow> d \<le> n)"
proof (cases "start = ancestor")
  case False
  then show ?thesis using assms distanceWalk_Some[OF walkOk_start[OF False]] by (simp add: commitDistance_def)
qed (use assms in \<open>simp add: commitDistance_def\<close>)

text \<open>
  C21: the distance behind the counters Ahead and Behind.  A measured distance is the length of a shortest chain of parents
  from the one commit to the other; and when the walk gives up there is no such chain, or at least ten thousand different
  commits are reachable: a distance is never wrong, only unknown, and unknown only for large histories.
\<close>

theorem commitDistance_shortest:
  "case commitDistance commits start ancestor of
     Some d \<Rightarrow> (start, ancestor) \<in> childOf commits ^^ d \<and> (\<nexists>n. n < d \<and> (start, ancestor) \<in> childOf commits ^^ n)
   | None \<Rightarrow> (\<nexists>n. (start, ancestor) \<in> childOf commits ^^ n) \<or>
       (\<exists>hs. exhaustedWalk commits start hs)"
proof (cases "start = ancestor")
  case False
  note ok = walkOk_start[OF False, of commits "\<lambda>_. 0"]
  show ?thesis
  proof (cases "commitDistance commits start ancestor")
    case None
    then show ?thesis using False distanceWalk_None[OF ok] by (auto simp: commitDistance_def)
  next
    case (Some d)
    then show ?thesis using commitDistance_Some[OF Some] by (auto dest: leD)
  qed
qed (simp add: commitDistance_def)

theorem commitDistance_shortest_witness:
  "(''c3'', ''c1'') \<in> childOf [(''c1'', []), (''c2'', [''c1'']), (''c3'', [''c2'', ''c1''])] ^^ 1 \<and>
   (\<nexists>n. n < 1 \<and> (''c3'', ''c1'') \<in> childOf [(''c1'', []), (''c2'', [''c1'']), (''c3'', [''c2'', ''c1''])] ^^ n)"
proof -
  have "commitDistance [(''c1'', []), (''c2'', [''c1'']), (''c3'', [''c2'', ''c1''])] ''c3'' ''c1'' = Some 1" by code_simp
  then show ?thesis
    using commitDistance_shortest[where commits="[(''c1'', []), (''c2'', [''c1'']), (''c3'', [''c2'', ''c1''])]" and start="''c3''" and ancestor="''c1''"] by simp
qed

subsection \<open>No commit is lost\<close>

text \<open>
  What the code relies on in go-git: a fetch and a push leave the local branch alone and only add commits, and a merge base
  is a common ancestor.
\<close>

definition addsCommits :: "git_repo \<Rightarrow> git_repo \<Rightarrow> bool" where
  "addsCommits r r1 \<longleftrightarrow> (\<forall>h ps. map_of (gr_commits r) h = Some ps \<longrightarrow> map_of (gr_commits r1) h = Some ps)"

definition git_laws :: "git_env \<Rightarrow> bool" where
  "git_laws env \<longleftrightarrow>
     (\<forall>t r r1. ge_fetch env t r = Inr r1 \<or> ge_push env t r = Inr r1 \<longrightarrow> gr_local r1 = gr_local r \<and> addsCommits r r1) \<and>
     (\<forall>cs a b bases. ge_mergeBase env cs a b = Inr bases \<longrightarrow> (\<forall>x\<in>set bases. (a, x) \<in> (childOf cs)\<^sup>* \<and> (b, x) \<in> (childOf cs)\<^sup>*))"

text \<open>The commits and the history of the local branch survive.\<close>

definition keepsHistory :: "git_repo \<Rightarrow> git_repo \<Rightarrow> bool" where
  "keepsHistory r r1 \<longleftrightarrow> addsCommits r r1 \<and>
     (\<forall>l. gr_local r = Some l \<longrightarrow> (\<exists>l1. gr_local r1 = Some l1 \<and> (l1, l) \<in> (childOf (gr_commits r1))\<^sup>*))"

lemma childOf_mono: "addsCommits r r1 \<Longrightarrow> (childOf (gr_commits r))\<^sup>* \<subseteq> (childOf (gr_commits r1))\<^sup>*"
  by (rule rtrancl_mono) (auto simp: childOf_def parentsOf_def addsCommits_def split: option.splits, metis option.inject)

lemma addsCommits_refl [simp]: "addsCommits r r"
  by (simp add: addsCommits_def)

lemma addsCommits_trans: "addsCommits r r1 \<Longrightarrow> addsCommits r1 r2 \<Longrightarrow> addsCommits r r2"
  by (simp add: addsCommits_def)

lemma keepsHistory_refl [simp]: "keepsHistory r r"
  by (simp add: keepsHistory_def)

lemma keepsHistory_trans: "keepsHistory r r1 \<Longrightarrow> keepsHistory r1 r2 \<Longrightarrow> keepsHistory r r2"
  unfolding keepsHistory_def by (meson addsCommits_trans childOf_mono in_mono rtrancl_trans)

lemma keepsHistory_same_local: "gr_local r1 = gr_local r \<Longrightarrow> addsCommits r r1 \<Longrightarrow> keepsHistory r r1"
  by (simp add: keepsHistory_def)

lemma world_repo [simp]:
  "gw_repo (tick w) = gw_repo w" "gw_repo (recordRepositoryError e w) = gw_repo w" "gw_repo (repositoryReady w) = gw_repo w"
  "gw_time (repositoryReady w) = gw_time w"
  by (simp_all add: tick_def recordRepositoryError_def repositoryReady_def)

lemma closeOperation_world [simp]: "snd (closeOperation c r) = snd r"
  by (cases r; cases "fst r") auto

lemma runGitOperation_keeps:
  "keepsHistory (gw_repo w) (gw_repo (snd (body w))) \<Longrightarrow> keepsHistory (gw_repo w) (gw_repo (snd (runGitOperation env body w)))"
  by (simp add: runGitOperation_def split: option.split)

lemma fetchBody_keeps: "git_laws env \<Longrightarrow> keepsHistory (gw_repo w) (gw_repo (snd (fetchBody env w)))"
  by (auto simp: fetchBody_def git_laws_def intro: keepsHistory_same_local split: option.split sum.split)

lemma pushBody_keeps: "git_laws env \<Longrightarrow> keepsHistory (gw_repo w) (gw_repo (snd (pushBody env w)))"
  by (auto simp: pushBody_def git_laws_def intro: keepsHistory_same_local split: option.split sum.split)

lemma afterFetch_world: "gw_repo (snd (afterFetch env r)) = gw_repo (snd r)"
  by (cases r; cases "fst r") auto

lemma afterMove_world: "gw_repo (snd (afterMove env r)) = gw_repo (snd r)"
  by (cases r; cases "fst r") auto

lemma fetchRepositoryLocked_keeps:
  assumes "git_laws env"
  shows "keepsHistory (gw_repo w) (gw_repo (snd (fetchRepositoryLocked env w)))"
  using runGitOperation_keeps[of "tick w" "fetchBody env" env, OF fetchBody_keeps[OF assms]]
  by (simp add: fetchRepositoryLocked_def afterFetch_world split: option.split)

text \<open>A status that shows nothing ahead and no divergence: the local branch is part of the remote's history.\<close>

lemma compareHeads_contained:
  assumes "git_laws env" "compareHeads env cs head remote = Inr st" "\<not> rg_Diverged st" "rg_Ahead st \<le> 0"
  shows "(remote, head) \<in> (childOf cs)\<^sup>*"
proof (cases "head = remote")
  case False
  then obtain base rest where base: "ge_mergeBase env cs head remote = Inr (base # rest)"
    and st: "st = measuredStatus head remote (commitDistance cs head base) (commitDistance cs remote base)"
    using assms(2,3) by (auto simp: compareHeads_def unmeasuredStatus_def split: if_splits sum.splits list.splits)
  obtain a b where ab: "commitDistance cs head base = Some a" "commitDistance cs remote base = Some b"
    using assms(3) unfolding st by (cases "commitDistance cs head base"; cases "commitDistance cs remote base") (auto simp: unmeasuredStatus_def)
  then have "a = 0" using assms(4) unfolding st by simp
  then have "head = base" using commitDistance_Some[OF ab(1)] by simp
  moreover have "(remote, base) \<in> (childOf cs)\<^sup>*" using assms(1) base unfolding git_laws_def by (meson list.set_intros(1))
  ultimately show ?thesis by simp
qed simp

lemma RepositoryStatus_contained:
  assumes "git_laws env" "RepositoryStatus env w = Inr st" "\<not> rg_Diverged st" "rg_Ahead st \<le> 0" "gr_tracking (gw_repo w) = Some remote"
    "gr_local (gw_repo w) = Some head"
  shows "(remote, head) \<in> (childOf (gr_commits (gw_repo w)))\<^sup>*"
  using assms compareHeads_contained[OF assms(1), of "gr_commits (gw_repo w)" head remote st]
  by (auto simp: RepositoryStatus_def branchStatus_def split: option.splits)

lemma adoptRemote_keeps:
  assumes "git_laws env" "RepositoryStatus env w = Inr st" "\<not> rg_Diverged st" "rg_Ahead st \<le> 0"
  shows "keepsHistory (gw_repo w) (gw_repo (snd (adoptRemote env w)))"
  using RepositoryStatus_contained[OF assms]
  by (auto simp: adoptRemote_def keepsHistory_def addsCommits_def split: option.split)

lemma pullGuarded_keeps:
  assumes "git_laws env" "RepositoryStatus env w = Inr st"
  shows "keepsHistory (gw_repo w) (gw_repo (snd (pullGuarded env st w)))"
proof (cases "rg_Diverged st \<or> rg_Ahead st > 0 \<or> rg_Behind st = 0")
  case False
  then have "keepsHistory (gw_repo w) (gw_repo (snd (runGitOperation env (adoptRemote env) w)))"
    using adoptRemote_keeps[OF assms] by (intro runGitOperation_keeps) linarith
  then show ?thesis using False by (simp add: pullGuarded_def afterMove_world)
qed (auto simp: pullGuarded_def)

lemma pushGuarded_keeps:
  assumes "git_laws env"
  shows "keepsHistory (gw_repo w) (gw_repo (snd (pushGuarded env st w)))"
proof -
  obtain e w1 where op: "runGitOperation env (pushBody env) (tick w) = (e, w1)" by (metis surj_pair)
  then have one: "keepsHistory (gw_repo w) (gw_repo w1)"
    using runGitOperation_keeps[of "tick w" "pushBody env" env, OF pushBody_keeps[OF assms]] by simp
  show ?thesis using one fetchRepositoryLocked_keeps[OF assms, of w1] keepsHistory_trans
    by (auto simp: pushGuarded_def op split: option.split)
qed

lemma onStatus_keeps:
  assumes "\<And>st. RepositoryStatus env (snd r) = Inr st \<Longrightarrow> keepsHistory (gw_repo (snd r)) (gw_repo (snd (next st (snd r))))"
  shows "keepsHistory (gw_repo (snd r)) (gw_repo (snd (onStatus env next r)))"
  using assms by (cases r; cases "fst r") (auto split: option.split sum.split)

text \<open>The calls the synchronisation makes, in any order; what others push to the remote is in the answers of the environment.\<close>

inductive repo_step :: "git_env \<Rightarrow> git_world \<Rightarrow> git_world \<Rightarrow> bool" for env where
  fetch: "repo_step env w (snd (FetchRepository env w))"
| pull: "repo_step env w (snd (PullRepository env w))"
| push: "repo_step env w (snd (PushRepository env w))"

inductive_cases repo_stepE: "repo_step env w w1"

lemma repo_step_keeps:
  assumes "git_laws env" "repo_step env w w1"
  shows "keepsHistory (gw_repo w) (gw_repo w1)"
  using assms(2)
proof (rule repo_stepE)
  note fetched = fetchRepositoryLocked_keeps[OF assms(1), of w]
  { assume "w1 = snd (FetchRepository env w)" then show ?thesis using fetched by (simp add: FetchRepository_def) }
  { assume "w1 = snd (PullRepository env w)" then show ?thesis
      using keepsHistory_trans[OF fetched onStatus_keeps] pullGuarded_keeps[OF assms(1)] by (simp add: PullRepository_def) }
  { assume "w1 = snd (PushRepository env w)" then show ?thesis
      using keepsHistory_trans[OF fetched onStatus_keeps] pushGuarded_keeps[OF assms(1)] by (simp add: PushRepository_def) }
qed

text \<open>
  C20: no commit of Dockman is lost.  Whatever the remote does (new commits, a rewritten or deleted branch) and whatever
  fails, fetches, pulls and pushes in any order only move the local branch forward: every commit it had is still in its
  history.  Only \<open>ResetRepositoryToRemote\<close> can drop one.
\<close>

theorem sync_keeps_local_history:
  assumes "git_laws env" "(repo_step env)\<^sup>*\<^sup>* w w1" "gr_local (gw_repo w) = Some head"
  shows "\<exists>head1. gr_local (gw_repo w1) = Some head1 \<and> (head1, head) \<in> (childOf (gr_commits (gw_repo w1)))\<^sup>*"
proof -
  have "keepsHistory (gw_repo w) (gw_repo w1)" using assms(2)
    by (induction rule: rtranclp_induct) (auto intro: keepsHistory_trans repo_step_keeps[OF assms(1)])
  then show ?thesis using assms(3) by (simp add: keepsHistory_def)
qed

text \<open>A remote with one commit more, and a repository that pulls it.\<close>

definition calmGit :: git_env where
  "calmGit = \<lparr>ge_enabled = True, ge_row = (\<lambda>_. None), ge_journal = (\<lambda>_. None), ge_closing = (\<lambda>_. None), ge_open = (\<lambda>_. None), ge_auth = (\<lambda>_. None),
     ge_fetch = (\<lambda>t r. if gr_commits r = [(''c1'', [])]
       then Inr (r\<lparr>gr_commits := [(''c1'', []), (''c2'', [''c1''])], gr_tracking := Some ''c2''\<rparr>) else Inr r),
     ge_push = (\<lambda>_ r. Inr r), ge_mergeBase = (\<lambda>cs a b. if a \<in> set (parentsOf cs b) then Inr [a] else Inl ''no merge base'')\<rparr>"

definition behindWorld :: git_world where
  "behindWorld = \<lparr>gw_time = 0, gw_repo = \<lparr>gr_commits = [(''c1'', [])], gr_local = Some ''c1'', gr_tracking = Some ''c1''\<rparr>, gw_Status = ''ready'', gw_LastError = []\<rparr>"

lemma calmGit_laws: "git_laws calmGit"
  by (auto simp: git_laws_def calmGit_def addsCommits_def childOf_def split: if_splits)

theorem sync_keeps_local_history_witness:
  "gr_local (gw_repo (snd (PullRepository calmGit behindWorld))) = Some ''c2'' \<and>
   (''c2'', ''c1'') \<in> (childOf (gr_commits (gw_repo (snd (PullRepository calmGit behindWorld)))))\<^sup>*"
proof -
  have run: "gr_local (gw_repo (snd (PullRepository calmGit behindWorld))) = Some ''c2''" by code_simp
  have "(repo_step calmGit)\<^sup>*\<^sup>* behindWorld (snd (PullRepository calmGit behindWorld))" by (blast intro: repo_step.pull)
  from sync_keeps_local_history[OF calmGit_laws this, of "''c1''"] show ?thesis using run by (simp add: behindWorld_def)
qed

text \<open>The recovery drops the local commits on purpose.\<close>

lemma reset_drops_local_commit:
  "let w = behindWorld\<lparr>gw_repo := \<lparr>gr_commits = [(''c1'', []), (''x'', [''c1''])], gr_local = Some ''x'', gr_tracking = Some ''c1''\<rparr>\<rparr>;
       env = calmGit\<lparr>ge_mergeBase := (\<lambda>_ _ _. Inr [''c1''])\<rparr>
   in gr_local (gw_repo (snd (ResetRepositoryToRemote env w))) = Some ''c1''"
  by code_simp

end
