(* ===== verification/Sync_Import.thy ===== *)
theory Sync_Import
  imports Repo_Git
begin

section \<open>Importing and exporting\<close>

text \<open>
  Models the transfers of a folder link in \<open>core/internal/gitsync/binding.go\<close>: reading both sides, the preview, the
  import with its backup, the export with its commit, and what they do to the recorded states.  The world is the
  database, the repository of the link, the files Dockman wrote on the host, the backups and the calls of Compose; a
  counter marks the moments at which the outside is read, and the environment answers for each moment.
\<close>

subsection \<open>Inputs and results\<close>

record TransferInput =
  ti_IncludeSensitive :: bool
  ti_SensitiveConfirmation :: string
  ti_CommitMessage :: string
  ti_PreviewToken :: string
  ti_ResolvedPaths :: "string list"
  ti_SelectedPaths :: "string list"
  ti_compactResult :: bool
  ti_automation :: bool
  ti_targetComposePaths :: "string list"
  ti_heldBackComposePaths :: "string list"

definition plainInput :: TransferInput where
  "plainInput = \<lparr>ti_IncludeSensitive = False, ti_SensitiveConfirmation = [], ti_CommitMessage = [], ti_PreviewToken = [], ti_ResolvedPaths = [],
     ti_SelectedPaths = [], ti_compactResult = False, ti_automation = False, ti_targetComposePaths = [], ti_heldBackComposePaths = []\<rparr>"

record bindingPreview =
  bp_Preview :: TransferPreview
  bp_Orphans :: "string list"
  bp_Errors :: "(string, string) gomap"

record TransferResult =
  tr_Preview :: bindingPreview
  tr_CommitSHA :: string
  tr_Backup :: string
  tr_Message :: string
  tr_EditorBlocked :: "string list"
  tr_ComposeBlocked :: "string list"
  tr_ReadBlocked :: "string list"
  tr_HeldBack :: "string list"

record link_env =
  le_sync :: sync_env
  le_decode :: "string \<Rightarrow> bool option"
  le_git :: git_env
  le_repositories :: "Repository list"
  le_resolve :: "string option"
  le_stat :: "nat \<Rightarrow> fs_error + bool"
  le_disk :: "nat \<Rightarrow> host_fs \<Rightarrow> fs_node"
  le_content :: "string \<Rightarrow> string + git_node"
  le_subtree :: "git_node \<Rightarrow> string \<Rightarrow> fs_error + git_node"
  le_now :: "nat \<Rightarrow> gotime"
  le_listFault :: "nat \<Rightarrow> bool"
  le_fault :: "nat \<Rightarrow> string \<Rightarrow> fault"
  le_dirty :: "(nat \<Rightarrow> string list) option"
  le_backup :: "nat \<Rightarrow> backup_env"
  le_writes :: "nat \<Rightarrow> write_env"
  le_checkout :: "nat \<Rightarrow> string + host_fs"
  le_commit :: "nat \<Rightarrow> host_fs \<Rightarrow> string \<Rightarrow> string + string"
  le_instance :: string
  le_deploy :: deploy_env

record link_world =
  lw_time :: nat
  lw_db :: sync_db
  lw_git :: git_world
  lw_files :: host_fs
  lw_backups :: backup_state
  lw_log :: deploy_log

definition later :: "link_world \<Rightarrow> link_world" where
  "later w = w\<lparr>lw_time := Suc (lw_time w)\<rparr>"

definition onDb :: "(sync_db \<Rightarrow> string option \<times> sync_db) \<Rightarrow> link_world \<Rightarrow> string option \<times> link_world" where
  "onDb f w = (fst (f (lw_db w)), w\<lparr>lw_db := snd (f (lw_db w))\<rparr>)"

definition fsText :: "fs_error \<Rightarrow> string" where
  "fsText e = (case e of Permission \<Rightarrow> ''permission denied'' | NotExist \<Rightarrow> ''file does not exist'' | OtherFs s \<Rightarrow> s)"

definition newline :: string where "newline = [CHR 0x0A]"

subsection \<open>Both sides of a link\<close>

definition typedConfirmationText :: string where "typedConfirmationText = ''CONFIRM''"

definition validateSensitiveOptIn :: "TransferInput \<Rightarrow> string option" where
  "validateSensitiveOptIn input =
     (if ti_IncludeSensitive input \<and> ti_SensitiveConfirmation input \<noteq> typedConfirmationText
      then Some (''sensitive file inclusion requires confirmation '' @ quoted typedConfirmationText) else None)"

definition GetRepository :: "link_env \<Rightarrow> string \<Rightarrow> string + Repository" where
  "GetRepository env key = (case first_row rp_UUID key (le_repositories env) of None \<Rightarrow> Inl ''record not found'' | Some r \<Rightarrow> Inr r)"

definition repositoryCommitTree :: "link_env \<Rightarrow> link_world \<Rightarrow> string + git_node" where
  "repositoryCommitTree env w =
     (case gr_local (gw_repo (lw_git w)) of
        None \<Rightarrow> Inl ''resolve repository branch: reference not found''
      | Some head \<Rightarrow> le_content env head)"

definition repositorySubtree :: "link_env \<Rightarrow> git_node \<Rightarrow> string \<Rightarrow> fs_error + git_node" where
  "repositorySubtree env tree subPath = (if subPath = ''.'' \<or> TrimSpace subPath = [] then Inr tree else le_subtree env tree subPath)"

definition repositoryComposeCatalog :: "link_env \<Rightarrow> string \<Rightarrow> link_world \<Rightarrow> string + string list" where
  "repositoryComposeCatalog env subPath w =
     (case ge_open (le_git env) (gw_time (lw_git w)) of
        Some e \<Rightarrow> Inl e
      | None \<Rightarrow>
          (case repositoryCommitTree env w of
             Inl e \<Rightarrow> Inl e
           | Inr tree \<Rightarrow>
               (case repositorySubtree env tree subPath of
                  Inl e \<Rightarrow> if e = NotExist then Inr [] else Inl (fsText e)
                | Inr sub \<Rightarrow> Inr (discoverRepositoryComposeFiles sub))))"

definition automationBinding :: "link_env \<Rightarrow> StackBinding \<Rightarrow> link_world \<Rightarrow> StackBinding" where
  "automationBinding env b w = b\<lparr>sb_ComposeSelectionMode := composeSelectionSelected,
     sb_SelectedComposePaths := Join (activeAutomationComposePaths (le_listFault env (lw_time w)) b (lw_db w)) newline\<rparr>"

definition addCandidate :: "syncPolicy \<Rightarrow> string \<Rightarrow> syncPolicy" where
  "addCandidate policy relative =
     (if relative \<in> set (sp_compose policy) then policy
      else policy\<lparr>sp_compose := sp_compose policy @ [relative], sp_selectedRoots := remdups (sp_selectedRoots policy @ [path_dir relative])\<rparr>)"

definition withCandidates :: "link_env \<Rightarrow> TransferInput \<Rightarrow> StackBinding \<Rightarrow> link_world \<Rightarrow> syncPolicy \<Rightarrow> string + syncPolicy" where
  "withCandidates env input b w policy =
     (if ti_automation input \<and> sp_selectNewCompose policy then
        (case repositoryComposeCatalog env (sb_SubPath b) w of
           Inl e \<Rightarrow> Inl (''discover automatic Git stack candidates: '' @ e)
         | Inr catalog \<Rightarrow> Inr (foldl addCandidate policy catalog))
      else Inr policy)"

definition stackSide :: "link_env \<Rightarrow> TransferInput \<Rightarrow> syncPolicy \<Rightarrow> link_world \<Rightarrow> fs_error option \<times> inventory" where
  "stackSide env input policy w = collectStackFiles (le_sync env) (le_disk env (lw_time w) (lw_files w)) (ti_IncludeSensitive input) policy"

definition repositorySide :: "link_env \<Rightarrow> TransferInput \<Rightarrow> StackBinding \<Rightarrow> syncPolicy \<Rightarrow> link_world \<Rightarrow> fs_error option \<times> inventory" where
  "repositorySide env input b policy w =
     (case repositoryCommitTree env w of
        Inl e \<Rightarrow> (Some (OtherFs e), [])
      | Inr tree \<Rightarrow> collectRepositoryTreeFiles (le_sync env) (repositorySubtree env tree (sb_SubPath b)) (ti_IncludeSensitive input) policy)"

text \<open>An inventory that fails with \<open>ErrNotExist\<close> is used as far as it got.\<close>

definition readFailed :: "string \<Rightarrow> fs_error option \<Rightarrow> string option" where
  "readFailed what err =
     (case err of Some Permission \<Rightarrow> Some (what @ '': permission denied'') | Some (OtherFs e) \<Rightarrow> Some (what @ '': '' @ e) | _ \<Rightarrow> None)"

definition readRepository :: "link_env \<Rightarrow> string \<Rightarrow> StackBinding \<Rightarrow> inventory \<Rightarrow> fs_error option \<times> inventory \<Rightarrow> string + StackBinding \<times> inventory \<times> inventory" where
  "readRepository env direction b stackFiles side =
     (case side of
        (err, repositoryFiles) \<Rightarrow>
          (case readFailed ''read repository files'' err of
             Some e \<Rightarrow> Inl e
           | None \<Rightarrow>
               if direction = toRepository then Inr (b, stackFiles, repositoryFiles)
               else if direction = toStack then Inr (b, repositoryFiles, stackFiles)
               else Inl ''direction must be stack_to_repository or repository_to_stack''))"

definition readSides :: "link_env \<Rightarrow> string \<Rightarrow> TransferInput \<Rightarrow> StackBinding \<Rightarrow> syncPolicy \<Rightarrow> link_world \<Rightarrow> string + StackBinding \<times> inventory \<times> inventory" where
  "readSides env direction input b policy w =
     (case le_resolve env of
        Some e \<Rightarrow> Inl e
      | None \<Rightarrow>
          (case stackSide env input policy w of
             (err, stackFiles) \<Rightarrow>
               (case readFailed ''read stack files'' err of
                  Some e \<Rightarrow> Inl e
                | None \<Rightarrow>
                    (case ge_open (le_git env) (gw_time (lw_git w)) of
                       Some e \<Rightarrow> Inl e
                     | None \<Rightarrow> readRepository env direction b stackFiles (repositorySide env input b policy w)))))"

definition readPolicy :: "link_env \<Rightarrow> string \<Rightarrow> TransferInput \<Rightarrow> StackBinding \<Rightarrow> link_world \<Rightarrow> string + StackBinding \<times> inventory \<times> inventory" where
  "readPolicy env direction input b w =
     (case GetRepository env (sb_RepositoryUUID b) of
        Inl e \<Rightarrow> Inl e
      | Inr repository \<Rightarrow>
          (case policyFromBinding (se_glob (le_sync env)) b (Some (rp_ExcludePatterns repository)) of
             Inl e \<Rightarrow> Inl e
           | Inr policy0 \<Rightarrow>
               (case withCandidates env input b w policy0 of
                  Inl e \<Rightarrow> Inl e
                | Inr policy \<Rightarrow> readSides env direction input b policy w)))"

definition loadTransferTrees :: "link_env \<Rightarrow> string \<Rightarrow> string \<Rightarrow> TransferInput \<Rightarrow> link_world \<Rightarrow> string + StackBinding \<times> inventory \<times> inventory" where
  "loadTransferTrees env key direction input w =
     (case validateSensitiveOptIn input of
        Some e \<Rightarrow> Inl e
      | None \<Rightarrow>
          (case GetBinding key (lw_db w) of
             None \<Rightarrow> Inl ''record not found''
           | Some b \<Rightarrow> readPolicy env direction input (if ti_automation input then automationBinding env b w else b) w))"

subsection \<open>Validation of Compose files\<close>

definition composeFileError :: "link_env \<Rightarrow> string \<Rightarrow> transferFile \<Rightarrow> string option" where
  "composeFileError env p f =
     (case tf_open f of
        None \<Rightarrow> Some (''compose file '' @ p @ '' was skipped ('' @ tf_skipReason f @ ''); Compose files cannot be excluded from synchronization'')
      | Some (Inl e) \<Rightarrow> Some (''open compose YAML '' @ p @ '': '' @ fsText e)
      | Some (Inr contents) \<Rightarrow>
          (case le_decode env (LimitReader contents (tf_size f + 1)) of
             None \<Rightarrow> Some (''invalid compose YAML '' @ p)
           | Some isNull \<Rightarrow> if isNull then Some (''invalid compose YAML '' @ p @ '': document is empty'') else None))"

definition composeFileErrors :: "link_env \<Rightarrow> inventory \<Rightarrow> (string, string) gomap \<times> bool" where
  "composeFileErrors env files =
     (List.map_filter (\<lambda>(p, f). if isComposePath p then map_option (\<lambda>m. (p, m)) (composeFileError env p f) else None) files,
      list_ex (\<lambda>(p, _). isComposePath p) files)"

definition openIn :: "inventory \<Rightarrow> string \<Rightarrow> bool" where
  "openIn files p = (case map_of files p of None \<Rightarrow> False | Some f \<Rightarrow> tf_open f \<noteq> None)"

definition composeValidationForPaths :: "inventory \<Rightarrow> (string, string) gomap \<Rightarrow> string list \<Rightarrow> (string, string) gomap \<times> bool" where
  "composeValidationForPaths files errors composePaths =
     (List.map_filter (\<lambda>p. map_option (\<lambda>m. (p, m)) (map_of errors p)) composePaths,
      list_ex (\<lambda>p. openIn files p \<or> map_of errors p \<noteq> None) composePaths)"

definition firstComposeValidationError :: "(string, string) gomap \<times> bool \<Rightarrow> string option" where
  "firstComposeValidationError ef =
     (if \<not> snd ef then Some ''repository path contains no compose file''
      else (case sort (map fst (fst ef)) of [] \<Rightarrow> None | p # _ \<Rightarrow> map_of (fst ef) p))"

definition detectOrphanedComposePaths :: "inventory \<Rightarrow> inventory \<Rightarrow> baseline \<Rightarrow> string list \<Rightarrow> string list" where
  "detectOrphanedComposePaths repositoryFiles stackFiles base composePaths =
     sort (filter (\<lambda>c. openIn stackFiles c \<and> map_of base c \<noteq> None \<and> \<not> openIn repositoryFiles c \<and>
       \<not> list_ex (\<lambda>(p, _). c \<in> set (composePathsForFile composePaths p)) repositoryFiles) composePaths)"

subsection \<open>The catalogue of stacks\<close>

text \<open>\<open>discoverComposeFiles\<close>: breadth first, at most a thousand directories, nine levels and about five hundred files.\<close>

definition catalogChildren :: "string \<Rightarrow> nat \<Rightarrow> (string \<times> fs_node) list \<Rightarrow> (fs_node \<times> string \<times> nat) list" where
  "catalogChildren rel depth entries =
     List.map_filter (\<lambda>(name, node). if node \<noteq> FsLink \<and> isFsDir node \<and> \<not> shouldSkipPath (path_join [rel, name]) True
       then Some (node, path_join [rel, name], Suc depth) else None) entries"

definition catalogNames :: "string \<Rightarrow> (string \<times> fs_node) list \<Rightarrow> string list" where
  "catalogNames rel entries =
     List.map_filter (\<lambda>(name, node). if node \<noteq> FsLink \<and> \<not> isFsDir node \<and> \<not> shouldSkipPath (path_join [rel, name]) False \<and>
       ToLower name \<in> composeNames then Some (path_join [rel, name]) else None) entries"

function discoverLoop :: "(fs_node \<times> string \<times> nat) list \<Rightarrow> nat \<Rightarrow> string list \<Rightarrow> string list" where
  "discoverLoop [] visited names = names"
| "discoverLoop ((node, rel, depth) # queue) visited names =
     (if visited \<ge> 1000 \<or> length names \<ge> 500 then names
      else if depth > 8 then discoverLoop queue visited names
      else (case node of
          FsDir entries \<Rightarrow>
            discoverLoop (queue @ take (1000 - Suc visited - length queue) (catalogChildren rel depth entries)) (Suc visited) (names @ catalogNames rel entries)
        | _ \<Rightarrow> discoverLoop queue (Suc visited) names))"
  by pat_completeness auto
termination
  by (relation "measures [\<lambda>(_, visited, _). 1000 - visited, \<lambda>(queue, _, _). length queue]") auto

definition discoverComposeFiles :: "fs_node \<Rightarrow> string list" where
  "discoverComposeFiles root = sort (discoverLoop [(root, [], 0)] 0 [])"

definition missingState :: "baseline \<Rightarrow> GitStackStatus list \<Rightarrow> string list \<Rightarrow> string \<Rightarrow> string option" where
  "missingState base rows localCompose p =
     (if p \<in> set localCompose then None
      else (case first_row gs_ComposePath p rows of
          Some r \<Rightarrow> if gs_State r = stackSyncConflict \<or> gs_State r = stackSyncError then None
                    else if map_of base p \<noteq> None then Some stackSyncLocalDeleted else Some stackSyncRemoteChanges
        | None \<Rightarrow> if map_of base p \<noteq> None then Some stackSyncLocalDeleted else Some stackSyncRemoteChanges))"

definition markMissing :: "gotime \<Rightarrow> string \<Rightarrow> GitStackStatus \<Rightarrow> GitStackStatus" where
  "markMissing now state r = r\<lparr>gs_State := state, gs_ErrorMessage := [], gs_ConflictCount := 0, gs_LastCheckedAt := Some now\<rparr>"

definition recordMissingLocalComposeStatuses :: "link_env \<Rightarrow> StackBinding \<Rightarrow> string list \<Rightarrow> link_world \<Rightarrow> link_world" where
  "recordMissingLocalComposeStatuses env b localCompose w =
     (let base = BindingBaselineOf (sb_UUID b) (lw_db w); rows = GitStackStatuses (sb_UUID b) (lw_db w); now = le_now env (lw_time w);
          paths = (\<lambda>state. filter (\<lambda>p. missingState base rows localCompose p = Some state) (selectedComposePaths b));
          mark = (\<lambda>state db. snd (UpdateGitStackStatuses (le_fault env (lw_time w) ''status'') (sb_UUID b) (Some (paths state)) (markMissing now state) db))
      in w\<lparr>lw_db := mark stackSyncRemoteChanges (mark stackSyncLocalDeleted (lw_db w))\<rparr>)"

definition cataloguedRow :: "StackBinding \<Rightarrow> string list \<Rightarrow> StackBinding" where
  "cataloguedRow b discovered =
     (let added = filter (\<lambda>p. p \<notin> set (splitPatternLines (sb_ComposePaths b))) discovered;
          selected = keepCataloguedPaths (selectedComposePaths b) discovered
      in b\<lparr>sb_ComposePaths := Join discovered newline,
           sb_ComposeSelectionMode := (if length selected = length discovered \<and> added = [] then composeSelectionAll
             else if added \<noteq> [] then composeSelectionSelected else sb_ComposeSelectionMode b),
           sb_SelectedComposePaths := Join (uniqueSortedStrings selected) newline,
           sb_AutoSyncComposePaths := Join (keepCataloguedPaths (splitPatternLines (sb_AutoSyncComposePaths b)) discovered) newline,
           sb_AutoDeployComposePaths := Join (keepCataloguedPaths (splitPatternLines (sb_AutoDeployComposePaths b)) discovered) newline\<rparr>)"

definition withoutRemoved :: "string list \<Rightarrow> string list \<Rightarrow> baseline \<Rightarrow> baseline" where
  "withoutRemoved known removed base = filter (\<lambda>(p, _). ownedBy known removed p = []) base"

text \<open>The steps after the new row was saved: the baseline forgets the removed stacks, the rows follow.\<close>

definition catalogSaved :: "link_env \<Rightarrow> StackBinding \<Rightarrow> string list \<Rightarrow> string list \<Rightarrow> string list \<Rightarrow> string list \<Rightarrow> link_world \<Rightarrow> (string + StackBinding \<times> string list) \<times> link_world" where
  "catalogSaved env row known added removed localCompose w =
     (case (if removed = [] then (None, w)
            else case le_fault env (lw_time w) ''baseline'' of
              Some e \<Rightarrow> (Some e, w)
            | None \<Rightarrow> onDb (ReplaceBindingBaseline (le_fault env (lw_time w) ''replace baseline'') (sb_UUID row)
                (withoutRemoved known removed (BindingBaselineOf (sb_UUID row) (lw_db w)))) w) of
        (Some e, w1) \<Rightarrow> (Inl e, w1)
      | (None, w1) \<Rightarrow>
          (case onDb (reconcileGitStackStatuses (le_fault env (lw_time w) ''reconcile'') row) w1 of
             (Some e, w2) \<Rightarrow> (Inl e, w2)
           | (None, w2) \<Rightarrow> (Inr (row, added), recordMissingLocalComposeStatuses env row localCompose w2)))"

definition catalogFound :: "link_env \<Rightarrow> StackBinding \<Rightarrow> string list \<Rightarrow> string list \<Rightarrow> link_world \<Rightarrow> (string + StackBinding \<times> string list) \<times> link_world" where
  "catalogFound env b localCompose discovered w =
     (let known = splitPatternLines (sb_ComposePaths b); added = filter (\<lambda>p. p \<notin> set known) discovered; removed = filter (\<lambda>p. p \<notin> set discovered) known in
      if added = [] \<and> removed = [] then (Inr (b, []), recordMissingLocalComposeStatuses env b localCompose w)
      else (case onDb (SaveBinding (le_fault env (lw_time w) ''save'') (cataloguedRow b discovered)) w of
          (Some e, w1) \<Rightarrow> (Inl e, w1)
        | (None, w1) \<Rightarrow> catalogSaved env (cataloguedRow b discovered) known added removed localCompose w1))"

definition refreshBindingComposeCatalogLocked :: "link_env \<Rightarrow> StackBinding \<Rightarrow> link_world \<Rightarrow> (string + StackBinding \<times> string list) \<times> link_world" where
  "refreshBindingComposeCatalogLocked env b w =
     (case le_resolve env of
        Some e \<Rightarrow> (Inl e, w)
      | None \<Rightarrow>
          (case le_stat env (lw_time w) of
             Inl Permission \<Rightarrow> (Inl ''inspect linked stack folder: permission denied'', w)
           | Inl (OtherFs e) \<Rightarrow> (Inl (''inspect linked stack folder: '' @ e), w)
           | Inr False \<Rightarrow> (Inl ''linked stack path is no longer a directory'', w)
           | _ \<Rightarrow>
               (case GetRepository env (sb_RepositoryUUID b) of
                  Inl e \<Rightarrow> (Inl e, w)
                | Inr _ \<Rightarrow>
                    (case repositoryComposeCatalog env (sb_SubPath b) w of
                       Inl e \<Rightarrow> (Inl e, w)
                     | Inr remote \<Rightarrow>
                         catalogFound env b (discoverComposeFiles (le_disk env (lw_time w) (lw_files w)))
                           (uniqueSortedStrings (discoverComposeFiles (le_disk env (lw_time w) (lw_files w)) @ remote)) w))))"

definition RefreshBindingComposeCatalog :: "link_env \<Rightarrow> string \<Rightarrow> link_world \<Rightarrow> (string + StackBinding) \<times> link_world" where
  "RefreshBindingComposeCatalog env key w =
     (case GetBinding key (lw_db w) of
        None \<Rightarrow> (Inl ''record not found'', w)
      | Some b \<Rightarrow> (case refreshBindingComposeCatalogLocked env b w of (Inl e, w1) \<Rightarrow> (Inl e, w1) | (Inr (row, _), w1) \<Rightarrow> (Inr row, w1)))"

subsection \<open>The preview of a link\<close>

definition previewOf :: "link_env \<Rightarrow> string \<Rightarrow> TransferInput \<Rightarrow> StackBinding \<Rightarrow> inventory \<Rightarrow> inventory \<Rightarrow> link_world \<Rightarrow> bindingPreview" where
  "previewOf env direction input b source target w =
     (let base = BindingBaselineOf (sb_UUID b) (lw_db w) in
      \<lparr>bp_Preview = buildPreview (se_sha (le_sync env)) (sb_UUID b) direction source target base,
       bp_Orphans = (if direction = toStack then detectOrphanedComposePaths source target base (selectedComposePaths b) else []),
       bp_Errors = (if direction = toStack \<and> ti_automation input then fst (composeFileErrors env source) else [])\<rparr>)"

definition recordPreview :: "link_env \<Rightarrow> TransferInput \<Rightarrow> StackBinding \<Rightarrow> bindingPreview \<Rightarrow> link_world \<Rightarrow> link_world" where
  "recordPreview env input b bp w =
     w\<lparr>lw_db := recordPreviewStackStatuses (le_listFault env (lw_time w)) (le_fault env (lw_time w) ''status'') (le_now env (lw_time w)) b
       (ti_automation input) (bp_Orphans bp) (bp_Preview bp) (lw_db w)\<rparr>"

definition previewRead :: "link_env \<Rightarrow> string \<Rightarrow> string \<Rightarrow> TransferInput \<Rightarrow> link_world \<Rightarrow> (string + bindingPreview) \<times> link_world" where
  "previewRead env key direction input w =
     (case loadTransferTrees env key direction input w of
        Inl e \<Rightarrow> (Inl e, w)
      | Inr (b, source, target) \<Rightarrow>
          (case le_fault env (lw_time w) ''baseline'' of
             Some e \<Rightarrow> (Inl e, w)
           | None \<Rightarrow> (Inr (previewOf env direction input b source target w),
                      recordPreview env input b (previewOf env direction input b source target w) w)))"

text \<open>A manual preview of a link that copies only Compose files and has none yet looks for them first.\<close>

definition PreviewBinding :: "link_env \<Rightarrow> string \<Rightarrow> string \<Rightarrow> TransferInput \<Rightarrow> link_world \<Rightarrow> (string + bindingPreview) \<times> link_world" where
  "PreviewBinding env key direction input w =
     (if ti_automation input then previewRead env key direction input (later w)
      else (case GetBinding key (lw_db w) of
          None \<Rightarrow> (Inl ''record not found'', w)
        | Some b \<Rightarrow>
            if sb_SyncProfile b = syncProfileComposeOnly \<and> splitPatternLines (sb_ComposePaths b) = [] then
              (case RefreshBindingComposeCatalog env key (later w) of
                 (Inl e, w1) \<Rightarrow> (Inl (''refresh empty Compose catalog: '' @ e), w1)
               | (Inr _, w1) \<Rightarrow> previewRead env key direction input (later w1))
            else previewRead env key direction input (later w)))"

definition reconcileBindingIfIdentical :: "link_env \<Rightarrow> string \<Rightarrow> link_world \<Rightarrow> (string + bool) \<times> link_world" where
  "reconcileBindingIfIdentical env key w =
     (case loadTransferTrees env key toRepository plainInput w of
        Inl e \<Rightarrow> (Inl e, w)
      | Inr (b, stackFiles, repositoryFiles) \<Rightarrow>
          if length (baselineFromSource stackFiles) \<noteq> length (baselineFromSource repositoryFiles) \<or>
             list_ex (\<lambda>(p, sha). map_of (baselineFromSource repositoryFiles) p \<noteq> Some sha) (baselineFromSource stackFiles) then (Inr False, w)
          else (case onDb (ReplaceBindingBaseline (le_fault env (lw_time w) ''replace baseline'') (sb_UUID b) (baselineFromSource stackFiles)) w of
              (Some e, w1) \<Rightarrow> (Inl e, w1) | (None, w1) \<Rightarrow> (Inr True, w1)))"

subsection \<open>Stacks that are being edited\<close>

definition stackDirOf :: "string \<Rightarrow> string" where
  "stackDirOf composePath = (let d = path_dir composePath in if d = ''.'' then [] else d)"

text \<open>The path of an open editor below the link, if it is one.\<close>

definition editorRelative :: "string \<Rightarrow> string \<Rightarrow> string option" where
  "editorRelative root openPath =
     (if root \<noteq> ''.'' \<and> root \<noteq> [] then
        (if openPath = root then Some ''.'' else if HasPrefix openPath (root @ ''/'') then Some (TrimPrefix openPath (root @ ''/'')) else None)
      else Some openPath)"

definition bestEditorStack :: "string \<Rightarrow> string \<times> string \<Rightarrow> string \<Rightarrow> string \<times> string" where
  "bestEditorStack relative best composePath =
     (let dir = stackDirOf composePath in
      if (dir = [] \<or> relative = dir \<or> HasPrefix relative (dir @ ''/'')) \<and> length dir \<ge> length (snd best) then (composePath, dir) else best)"

definition editorStacks :: "StackBinding \<Rightarrow> string list \<Rightarrow> (string \<times> string) list" where
  "editorStacks b openPaths =
     filter (\<lambda>cd. fst cd \<noteq> []) (map (\<lambda>relative. foldl (bestEditorStack relative) ([], []) (selectedComposePaths b))
       (List.map_filter (\<lambda>raw. editorRelative (trimSlash (path_clean (sb_StackPath b))) (trimSlash (path_clean raw))) openPaths))"

definition inStackDir :: "string \<Rightarrow> string \<Rightarrow> bool" where
  "inStackDir p dir \<longleftrightarrow> (if dir = [] then CHR ''/'' \<notin> set p else p = dir \<or> HasPrefix p (dir @ ''/''))"

definition excludeDirtyEditorStacks :: "string list option \<Rightarrow> StackBinding \<Rightarrow> inventory \<Rightarrow> inventory \<times> string list" where
  "excludeDirtyEditorStacks dirty b selected =
     (case dirty of
        None \<Rightarrow> (selected, [])
      | Some openPaths \<Rightarrow>
          if selected = [] \<or> editorStacks b openPaths = [] then (selected, [])
          else (filter (\<lambda>(p, _). \<not> list_ex (\<lambda>cd. inStackDir p (snd cd)) (editorStacks b openPaths)) selected,
                sort (remdups (map fst (editorStacks b openPaths)))))"

subsection \<open>Importing\<close>

definition emptyPreviewOf :: bindingPreview where
  "emptyPreviewOf = \<lparr>bp_Preview = emptyPreview [] [], bp_Orphans = [], bp_Errors = []\<rparr>"

definition transferResult :: "bindingPreview \<Rightarrow> TransferResult" where
  "transferResult bp = \<lparr>tr_Preview = bp, tr_CommitSHA = [], tr_Backup = [], tr_Message = [], tr_EditorBlocked = [], tr_ComposeBlocked = [],
     tr_ReadBlocked = previewProtectedLocalPaths (bp_Preview bp), tr_HeldBack = []\<rparr>"

definition readBlockedNote :: "TransferResult \<Rightarrow> string" where
  "readBlockedNote r = (if tr_ReadBlocked r \<noteq> []
     then ''; '' @ countText (tr_ReadBlocked r) @ '' protected local item(s) skipped without blocking other stacks'' else [])"

definition pendingNote :: "int \<Rightarrow> string" where
  "pendingNote pending = (if pending > 0 then ''; '' @ Itoa (nat pending) @ '' conflict(s) remain pending'' else [])"

type_synonym transfer_outcome = "(string + TransferResult \<times> int) \<times> link_world"

definition importMessage :: "TransferResult \<Rightarrow> inventory \<Rightarrow> int \<Rightarrow> string" where
  "importMessage r selected pending =
     (let (stackFiles, controlFiles) = splitProvisionControlFiles selected in
      (if tr_HeldBack r \<noteq> [] then countText (tr_HeldBack r) @ '' stack(s) kept unchanged until their conflict or local deletion is decided; other stacks were imported with a backup''
       else if tr_ComposeBlocked r \<noteq> [] then countText (tr_ComposeBlocked r) @ '' invalid Compose stack(s) kept unchanged; other safe repository files were imported with a backup''
       else if controlFiles \<noteq> [] \<and> stackFiles = [] then ''Provisioning manifest synchronized; it will be applied by the controlled deployment''
       else ''Repository files imported with a backup; the stack was not deployed'') @ readBlockedNote r @ pendingNote pending)"

definition importRecorded :: "link_env \<Rightarrow> StackBinding \<Rightarrow> TransferResult \<Rightarrow> inventory \<Rightarrow> int \<Rightarrow> string \<Rightarrow> string option \<times> link_world \<Rightarrow> transfer_outcome" where
  "importRecorded env b r selected pending backup ew =
     (case ew of
        (Some e, w) \<Rightarrow> (Inl e, w)
      | (None, w) \<Rightarrow>
          (Inr (r\<lparr>tr_Backup := backup, tr_Message := importMessage r selected pending\<rparr>, pending),
           if sb_AutoDeployEnabled b \<and> deploymentTargetsForChanges b (map fst selected) \<noteq> []
           then snd (onDb (UpdateBindingAutoDeployState (le_fault env (lw_time w) ''deploy state'') (sb_UUID b) ''pending''
                  ''Imported changes are waiting for controlled deployment'' None) w)
           else w))"

definition importWritten :: "link_env \<Rightarrow> StackBinding \<Rightarrow> inventory \<Rightarrow> inventory \<Rightarrow> TransferResult \<Rightarrow> inventory \<Rightarrow> int \<Rightarrow> string \<Rightarrow> link_world \<Rightarrow> transfer_outcome" where
  "importWritten env b source target r selected pending backup w =
     (case writeStackFiles (le_writes env (lw_time w)) (lw_files w) (fst (splitProvisionControlFiles selected)) of
        (Some e, fs) \<Rightarrow> (Inl (fsText e), w\<lparr>lw_files := fs\<rparr>)
      | (None, fs) \<Rightarrow>
          importRecorded env b r selected pending backup
            (onDb (ReplaceBindingBaseline (le_fault env (lw_time w) ''replace baseline'') (sb_UUID b)
              (baselineAfterTransfer (BindingBaselineOf (sb_UUID b) (lw_db w)) source target selected)) (w\<lparr>lw_files := fs\<rparr>)))"

definition importBackedUp :: "link_env \<Rightarrow> StackBinding \<Rightarrow> string \<Rightarrow> inventory \<Rightarrow> inventory \<Rightarrow> TransferResult \<Rightarrow> inventory \<Rightarrow> int \<Rightarrow> link_world \<Rightarrow> transfer_outcome" where
  "importBackedUp env b head source target r selected pending w =
     (if fst (splitProvisionControlFiles selected) = [] then importWritten env b source target r selected pending [] w
      else (case backupChangedFiles (le_backup env (lw_time w)) b (fst (splitProvisionControlFiles selected)) target ''pre_import'' head [] (lw_backups w) of
          (Inl e, st) \<Rightarrow> (Inl e, w\<lparr>lw_backups := st\<rparr>)
        | (Inr backup, st) \<Rightarrow> importWritten env b source target r selected pending backup (w\<lparr>lw_backups := st\<rparr>)))"

definition nothingLeftMessage :: "TransferResult \<Rightarrow> string" where
  "nothingLeftMessage r =
     (if tr_HeldBack r \<noteq> [] then countText (tr_HeldBack r) @ '' stack(s) kept unchanged until their conflict or local deletion is decided''
      else if tr_ComposeBlocked r \<noteq> [] then countText (tr_ComposeBlocked r) @ '' stack(s) kept unchanged because their Compose file is invalid''
      else ''Synchronization paused for the stack currently being edited; no file was overwritten'')"

text \<open>The stacks a background import leaves out, one reason after the other: open editors, invalid Compose files, open decisions.\<close>

definition withoutBlocked :: "link_env \<Rightarrow> TransferInput \<Rightarrow> StackBinding \<Rightarrow> (string, string) gomap \<Rightarrow> inventory \<Rightarrow> inventory \<Rightarrow> link_world \<Rightarrow> inventory \<times> string list \<times> string list \<times> string list" where
  "withoutBlocked env input b composeErrors source selected w =
     (case excludeDirtyEditorStacks (map_option (\<lambda>f. f (lw_time w)) (le_dirty env)) b selected of
        (selected1, editor) \<Rightarrow>
          (case (if ti_automation input \<and> composeErrors \<noteq> [] then excludeInvalidComposeStacks selected1 source composeErrors else (selected1, [])) of
             (selected2, invalid) \<Rightarrow>
               (case (if ti_automation input \<and> ti_heldBackComposePaths input \<noteq> []
                      then excludeHeldBackStacks selected2 (selectedComposePaths b) (ti_heldBackComposePaths input) else (selected2, [])) of
                  (selected3, held) \<Rightarrow> (selected3, editor, invalid, held))))"

definition importAllowed :: "link_env \<Rightarrow> StackBinding \<Rightarrow> string \<Rightarrow> inventory \<Rightarrow> inventory \<Rightarrow> TransferResult \<Rightarrow> int \<Rightarrow>
    inventory \<times> string list \<times> string list \<times> string list \<Rightarrow> link_world \<Rightarrow> transfer_outcome" where
  "importAllowed env b head source target r0 pending allowed w =
     (case allowed of
        (selected, editor, invalid, held) \<Rightarrow>
          if selected = [] then
            (Inr (r0\<lparr>tr_EditorBlocked := editor, tr_ComposeBlocked := invalid, tr_HeldBack := held,
                tr_Message := nothingLeftMessage (r0\<lparr>tr_ComposeBlocked := invalid, tr_HeldBack := held\<rparr>)\<rparr>, pending), w)
          else (case le_resolve env of
              Some e \<Rightarrow> (Inl e, w)
            | None \<Rightarrow> importBackedUp env b head source target
                (r0\<lparr>tr_EditorBlocked := editor, tr_ComposeBlocked := invalid, tr_HeldBack := held\<rparr>) selected pending w))"

definition importChosen :: "link_env \<Rightarrow> TransferInput \<Rightarrow> StackBinding \<Rightarrow> string \<Rightarrow> (string, string) gomap \<Rightarrow> inventory \<Rightarrow> inventory \<Rightarrow> TransferResult \<Rightarrow> link_world \<Rightarrow> transfer_outcome" where
  "importChosen env input b head composeErrors source target r w =
     (case selectedTransferFiles (bp_Preview (tr_Preview r)) source (ti_ResolvedPaths input) (ti_SelectedPaths input) of
        Inl e \<Rightarrow> (Inl e, w)
      | Inr (selected, pending) \<Rightarrow>
          if selected = [] then
            (if pv_Preserved (bp_Preview (tr_Preview r)) > 0 \<and> pending = 0
             then (Inr (r\<lparr>tr_Message := Itoa (nat (pv_Preserved (bp_Preview (tr_Preview r)))) @ '' Git deletion(s) preserved locally; choose an explicit orphan action''\<rparr>, pending), w)
             else (Inl ''no transferable file was selected; resolve at least one conflict or leave this transfer pending'', w))
          else importAllowed env b head source target r pending (withoutBlocked env input b composeErrors source selected w) w)"

definition importUnchanged :: "link_env \<Rightarrow> StackBinding \<Rightarrow> inventory \<Rightarrow> TransferResult \<Rightarrow> link_world \<Rightarrow> transfer_outcome" where
  "importUnchanged env b source r w =
     (case onDb (ReplaceBindingBaseline (le_fault env (lw_time w) ''replace baseline'') (sb_UUID b) (baselineFromSource source)) w of
        (Some e, w1) \<Rightarrow> (Inl e, w1)
      | (None, w1) \<Rightarrow> (Inr (r\<lparr>tr_Message := ''Readable stack files already match the repository'' @ readBlockedNote r\<rparr>, 0), w1))"

definition importPreviewed :: "link_env \<Rightarrow> TransferInput \<Rightarrow> StackBinding \<Rightarrow> string \<Rightarrow> (string, string) gomap \<Rightarrow> inventory \<Rightarrow> inventory \<Rightarrow> TransferResult \<Rightarrow> link_world \<Rightarrow> transfer_outcome" where
  "importPreviewed env input b head composeErrors source target r w =
     (case validatePreviewToken (ti_PreviewToken input) (pv_PreviewToken (bp_Preview (tr_Preview r))) of
        Some e \<Rightarrow> (Inl e, w)
      | None \<Rightarrow>
          if pv_Changed (bp_Preview (tr_Preview r)) = 0 then importUnchanged env b source r w
          else importChosen env input b head composeErrors source target r w)"

definition importPreviewOf :: "link_env \<Rightarrow> TransferInput \<Rightarrow> StackBinding \<Rightarrow> (string, string) gomap \<Rightarrow> inventory \<Rightarrow> inventory \<Rightarrow> link_world \<Rightarrow> bindingPreview" where
  "importPreviewOf env input b composeErrors source target w =
     (previewOf env toStack input b source target w)\<lparr>bp_Errors := (if ti_automation input then composeErrors else [])\<rparr>"

text \<open>Which Compose files must be valid, and whether an invalid one stops the import.\<close>

definition validationPaths :: "TransferInput \<Rightarrow> StackBinding \<Rightarrow> string list" where
  "validationPaths input b = (if ti_targetComposePaths input \<noteq> [] then ti_targetComposePaths input else selectedComposePaths b)"

definition importErrors :: "link_env \<Rightarrow> TransferInput \<Rightarrow> inventory \<Rightarrow> (string, string) gomap \<times> bool" where
  "importErrors env input source =
     (if ti_targetComposePaths input \<noteq> [] then composeValidationForPaths source (fst (composeFileErrors env source)) (ti_targetComposePaths input)
      else composeFileErrors env source)"

definition importRefused :: "link_env \<Rightarrow> TransferInput \<Rightarrow> StackBinding \<Rightarrow> inventory \<Rightarrow> inventory \<Rightarrow> baseline \<Rightarrow> string option" where
  "importRefused env input b source target base =
     (let deleted = hasTrackedDeletedCompose source target base (validationPaths input b) in
      if firstComposeValidationError (importErrors env input source) \<noteq> None \<and> \<not> ti_automation input \<and> \<not> deleted
        then firstComposeValidationError (importErrors env input source)
      else if \<not> snd (importErrors env input source) \<and> \<not> deleted then Some ''repository path contains no compose file''
      else None)"

definition importLoaded :: "link_env \<Rightarrow> TransferInput \<Rightarrow> StackBinding \<Rightarrow> string \<Rightarrow> inventory \<Rightarrow> inventory \<Rightarrow> link_world \<Rightarrow> transfer_outcome" where
  "importLoaded env input b head source target w =
     (case le_fault env (lw_time w) ''baseline'' of
        Some e \<Rightarrow> (Inl e, w)
      | None \<Rightarrow>
          (case importRefused env input b source target (BindingBaselineOf (sb_UUID b) (lw_db w)) of
             Some e \<Rightarrow> (Inl e, w)
           | None \<Rightarrow>
               importPreviewed env input b head (fst (importErrors env input source)) source target
                 (transferResult (importPreviewOf env input b (fst (importErrors env input source)) source target w))
                 (recordPreview env input b (importPreviewOf env input b (fst (importErrors env input source)) source target w) w)))"

text \<open>An import works on a repository that is exactly at its remote.\<close>

definition importStatus :: "link_env \<Rightarrow> TransferInput \<Rightarrow> StackBinding \<Rightarrow> (string + RepositoryGitStatus) \<Rightarrow> link_world \<Rightarrow> transfer_outcome" where
  "importStatus env input b status w =
     (case status of
        Inl e \<Rightarrow> (Inl e, w)
      | Inr st \<Rightarrow>
          if rg_Ahead st > 0 \<or> rg_Behind st > 0 \<or> rg_Diverged st then (Inl ''import refused: pull remote changes and resolve repository state first'', w)
          else (case loadTransferTrees env (sb_UUID b) toStack input w of
              Inl e \<Rightarrow> (Inl e, w)
            | Inr (_, source, target) \<Rightarrow> importLoaded env input b (rg_Head st) source target w))"

definition importLocked :: "link_env \<Rightarrow> TransferInput \<Rightarrow> StackBinding \<Rightarrow> link_world \<Rightarrow> transfer_outcome" where
  "importLocked env input b w =
     (case fetchRepositoryLocked (le_git env) (lw_git w) of
        (Inl e, g) \<Rightarrow> (Inl e, w\<lparr>lw_git := g\<rparr>)
      | (Inr _, g) \<Rightarrow> importStatus env input b (RepositoryStatus (le_git env) g) (w\<lparr>lw_git := g\<rparr>))"

definition runLinkOperation :: "link_env \<Rightarrow> (link_world \<Rightarrow> (string + 'a) \<times> link_world) \<Rightarrow> link_world \<Rightarrow> (string + 'a) \<times> link_world" where
  "runLinkOperation env body w =
     (if \<not> ge_enabled (le_git env) then (Inl ''Git synchronization is disabled'', w)
      else (case le_fault env (lw_time w) ''start operation'' of
          Some e \<Rightarrow> (Inl e, w)
        | None \<Rightarrow>
            (case body w of
               (Inl e, w1) \<Rightarrow> (Inl e, w1)
             | (Inr a, w1) \<Rightarrow> (case le_fault env (lw_time w) ''finish operation'' of Some e \<Rightarrow> (Inl e, w1) | None \<Rightarrow> (Inr a, w1)))))"

definition clearResolvedManualConflictState :: "link_env \<Rightarrow> StackBinding \<Rightarrow> int \<Rightarrow> link_world \<Rightarrow> string option \<times> link_world" where
  "clearResolvedManualConflictState env b pending w =
     (if \<not> sb_AutoSyncEnabled b \<or> sb_AutoSyncState b \<noteq> ''conflict'' \<or> pending > 0 then (None, w)
      else onDb (UpdateBindingAutoSyncState (le_fault env (lw_time w) ''sync state'') (sb_UUID b) ''watching'' [] [] None None) w)"

definition statusRefreshSafe :: "TransferInput \<Rightarrow> StackBinding \<Rightarrow> TransferResult \<Rightarrow> bool" where
  "statusRefreshSafe input b r =
     (let pv = bp_Preview (tr_Preview r) in
      if ti_targetComposePaths input \<noteq> [] then
        targetedPreviewResolved pv (selectedComposePaths b) (ti_targetComposePaths input) \<and>
        composePathsForFiles (ti_targetComposePaths input) (tr_EditorBlocked r) = [] \<and> tr_EditorBlocked r = []
      else if ti_automation input \<and> ti_heldBackComposePaths input \<noteq> [] then
        pv_Preserved pv = 0 \<and> excludeStringValues (heldBackComposeStacks pv (selectedComposePaths b)) (ti_heldBackComposePaths input) = []
      else pv_Conflicts pv = 0 \<and> pv_Preserved pv = 0)"

definition markUpToDate :: "gotime \<Rightarrow> string option \<Rightarrow> GitStackStatus \<Rightarrow> GitStackStatus" where
  "markUpToDate now commit r = r\<lparr>gs_State := stackSyncUpToDate, gs_ErrorMessage := [], gs_ConflictCount := 0, gs_LastCheckedAt := Some now,
     gs_LastSuccessAt := Some now, gs_LastCommit := (case commit of None \<Rightarrow> gs_LastCommit r | Some c \<Rightarrow> c)\<rparr>"

definition importedPaths :: "link_env \<Rightarrow> TransferInput \<Rightarrow> StackBinding \<Rightarrow> link_world \<Rightarrow> string list" where
  "importedPaths env input b w =
     (if ti_automation input then activeAutomationComposePaths (le_listFault env (lw_time w)) b (lw_db w)
      else if ti_targetComposePaths input \<noteq> [] then ti_targetComposePaths input else selectedComposePaths b)"

definition markInvalid :: "gotime \<Rightarrow> string \<Rightarrow> GitStackStatus \<Rightarrow> GitStackStatus" where
  "markInvalid now message r = r\<lparr>gs_State := stackSyncError, gs_ErrorMessage := message, gs_LastCheckedAt := Some now\<rparr>"

definition invalidMessage :: "TransferResult \<Rightarrow> string \<Rightarrow> string" where
  "invalidMessage r p = (case map_of (bp_Errors (tr_Preview r)) p of Some m \<Rightarrow> if m = [] then ''Compose validation failed'' else m | None \<Rightarrow> ''Compose validation failed'')"

definition refreshImported :: "link_env \<Rightarrow> TransferInput \<Rightarrow> StackBinding \<Rightarrow> TransferResult \<Rightarrow> link_world \<Rightarrow> link_world" where
  "refreshImported env input b r w =
     (if \<not> statusRefreshSafe input b r then w
      else let now = le_now env (lw_time w); fault = le_fault env (lw_time w) ''status'';
               safe = excludeStringValues (excludeStringValues (excludeStringValues (importedPaths env input b w) (tr_ComposeBlocked r))
                        (ti_heldBackComposePaths input)) (tr_EditorBlocked r);
               db1 = snd (UpdateGitStackStatuses fault (sb_UUID b) (Some safe) (markUpToDate now None) (lw_db w))
           in w\<lparr>lw_db := foldl (\<lambda>db p. snd (UpdateGitStackStatuses fault (sb_UUID b) (Some [p]) (markInvalid now (invalidMessage r p)) db)) db1 (tr_ComposeBlocked r)\<rparr>)"

definition compacted :: "TransferInput \<Rightarrow> TransferResult \<Rightarrow> TransferResult" where
  "compacted input r = (if ti_compactResult input then r\<lparr>tr_Preview := (tr_Preview r)\<lparr>bp_Preview := (bp_Preview (tr_Preview r))\<lparr>pv_Entries := []\<rparr>\<rparr>\<rparr> else r)"

text \<open>After an error nothing more is written; the result that comes with it is left out here.\<close>

fun importSettled :: "link_env \<Rightarrow> TransferInput \<Rightarrow> StackBinding \<Rightarrow> transfer_outcome \<Rightarrow> (string + TransferResult) \<times> link_world" where
  "importSettled env input b (Inl e, w) = (Inl e, w)"
| "importSettled env input b (Inr (r, pending), w) =
     (case clearResolvedManualConflictState env b pending w of
        (Some e, w1) \<Rightarrow> (Inl (''repository files were imported but the synchronization state could not be refreshed: '' @ e), w1)
      | (None, w1) \<Rightarrow> (Inr (compacted input r), refreshImported env input b r w1))"

definition ImportBinding :: "link_env \<Rightarrow> string \<Rightarrow> TransferInput \<Rightarrow> link_world \<Rightarrow> (string + TransferResult) \<times> link_world" where
  "ImportBinding env key input w =
     (case GetBinding key (lw_db w) of
        None \<Rightarrow> (Inl ''record not found'', w)
      | Some b \<Rightarrow> importSettled env input b (runLinkOperation env (importLocked env input b) (later w)))"

subsection \<open>Exporting\<close>

definition resumePause :: "fault \<Rightarrow> string \<Rightarrow> string option \<times> sync_db \<Rightarrow> string \<Rightarrow> string option \<times> sync_db" where
  "resumePause fault key edb p =
     (case edb of (Some e, db) \<Rightarrow> (Some e, db) | (None, db) \<Rightarrow> SetGitStackPause fault key p False db)"

definition resumeRecoveryPausesAfterExport :: "link_env \<Rightarrow> StackBinding \<Rightarrow> string list \<Rightarrow> link_world \<Rightarrow> string option \<times> link_world" where
  "resumeRecoveryPausesAfterExport env b complete w =
     (case le_fault env (lw_time w) ''list statuses'' of
        Some e \<Rightarrow> (Some e, w)
      | None \<Rightarrow> onDb (\<lambda>db. foldl (resumePause (le_fault env (lw_time w) ''pause'') (sb_UUID b)) (None, db)
          (map gs_ComposePath (filter (\<lambda>r. gs_ComposePath r \<in> set complete \<and> gs_AutomationPaused r \<and> gs_PauseReason r = stackPauseRecovery)
            (GitStackStatuses (sb_UUID b) db)))) w)"

text \<open>The state the link keeps from the stacks that were not cleared.\<close>

definition attentionStep :: "string \<times> int \<Rightarrow> GitStackStatus \<Rightarrow> string \<times> int" where
  "attentionStep sa r =
     (if gs_DeployState r = ''rollback_failed'' \<or> gs_DeployState r = ''failed'' then (''failed'', snd sa + 1)
      else if gs_DeployState r = ''rolled_back'' then ((if fst sa \<noteq> ''failed'' then ''partial'' else fst sa), snd sa + 1)
      else if gs_DeployState r \<in> {''pending'', ''validating'', ''dry_run'', ''deploying'', ''rolling_back''}
        then ((if fst sa = ''watching'' then ''pending'' else fst sa), snd sa)
      else sa)"

definition clearResolvedDeploymentStates :: "link_env \<Rightarrow> StackBinding \<Rightarrow> string list \<Rightarrow> link_world \<Rightarrow> string option \<times> link_world" where
  "clearResolvedDeploymentStates env b complete w =
     (if \<not> sb_AutoDeployEnabled b \<or> complete = [] then (None, w)
      else (case le_fault env (lw_time w) ''list statuses'' of
          Some e \<Rightarrow> (Some e, w)
        | None \<Rightarrow>
            let rows = GitStackStatuses (sb_UUID b) (lw_db w);
                cleared = map gs_ComposePath (filter (\<lambda>r. gs_ComposePath r \<in> set complete \<and> gs_DeployState r \<in> {''failed'', ''rolled_back'', ''rollback_failed''}) rows);
                (state, attention) = foldl attentionStep (''watching'', 0)
                  (filter (\<lambda>r. gs_ComposePath r \<notin> set cleared \<and> gs_ComposePath r \<in> set (splitPatternLines (sb_AutoDeployComposePaths b))) rows)
            in if cleared = [] then (None, w)
               else (case onDb (UpdateGitStackStatuses (le_fault env (lw_time w) ''status'') (sb_UUID b) (Some cleared)
                         (\<lambda>r. r\<lparr>gs_DeployState := ''idle'', gs_DeployError := []\<rparr>)) w of
                   (Some e, w1) \<Rightarrow> (Some e, w1)
                 | (None, w1) \<Rightarrow> onDb (UpdateBindingAutoDeployState (le_fault env (lw_time w) ''deploy state'') (sb_UUID b) state
                     (if attention > 0 then Itoa (nat attention) @ '' stack(s) still require deployment attention'' else []) None) w1)))"

definition clearIdenticalRollbackStates :: "link_env \<Rightarrow> StackBinding \<Rightarrow> link_world \<Rightarrow> string option \<times> link_world" where
  "clearIdenticalRollbackStates env b w =
     (case le_fault env (lw_time w) ''list statuses'' of
        Some e \<Rightarrow> (Some e, w)
      | None \<Rightarrow> clearResolvedDeploymentStates env b
          (map gs_ComposePath (filter (\<lambda>r. gs_DeployState r = ''rolled_back'' \<and> gs_ComposePath r \<in> set (splitPatternLines (sb_AutoDeployComposePaths b)))
            (GitStackStatuses (sb_UUID b) (lw_db w)))) w)"

definition isControl :: "char \<Rightarrow> bool" where
  "isControl c \<longleftrightarrow> (of_char c :: nat) < 32 \<or> (of_char c :: nat) = 127"

definition provenanceValue :: "string \<Rightarrow> string" where
  "provenanceValue v = (let clean = filter (\<lambda>c. \<not> isControl c) (TrimSpace v) in if clean = [] then ''unknown'' else quoted (take 120 clean))"

definition commitMessageWithProvenance :: "link_env \<Rightarrow> string \<Rightarrow> StackBinding \<Rightarrow> string" where
  "commitMessageWithProvenance env message b =
     TrimSpace message @ newline @ newline @ ''Dockman-Origin: instance='' @ provenanceValue (le_instance env) @ ''; binding='' @ provenanceValue (sb_UUID b)"

definition exportMessage :: "TransferInput \<Rightarrow> StackBinding \<Rightarrow> string" where
  "exportMessage input b =
     (if TrimSpace (ti_CommitMessage input) = [] then ''chore(stack): sync '' @ sb_StackPath b @ '' from Dockman'' else TrimSpace (ti_CommitMessage input))"

type_synonym export_outcome = "(string + TransferResult \<times> int \<times> string list) \<times> link_world"

definition exportPushed :: "link_env \<Rightarrow> StackBinding \<Rightarrow> inventory \<Rightarrow> inventory \<Rightarrow> TransferResult \<Rightarrow> inventory \<Rightarrow> int \<Rightarrow> string \<Rightarrow> link_world \<Rightarrow> export_outcome" where
  "exportPushed env b source target r selected pending commit w =
     (case onDb (ReplaceBindingBaseline (le_fault env (lw_time w) ''replace baseline'') (sb_UUID b)
             (baselineAfterTransfer (BindingBaselineOf (sb_UUID b) (lw_db w)) source target selected)) w of
        (Some e, w1) \<Rightarrow> (Inl e, w1)
      | (None, w1) \<Rightarrow>
          (Inr (r\<lparr>tr_CommitSHA := commit, tr_Message := ''Stack exported, committed, and pushed'' @ readBlockedNote r @ pendingNote pending\<rparr>,
                pending, sort (map fst selected)), w1))"

text \<open>The commit stays on the local branch when the push fails.\<close>

definition committed :: "string \<Rightarrow> git_repo \<Rightarrow> git_repo" where
  "committed commit repo =
     repo\<lparr>gr_commits := (commit, case gr_local repo of None \<Rightarrow> [] | Some head \<Rightarrow> [head]) # gr_commits repo, gr_local := Some commit\<rparr>"

definition exportCommitted :: "link_env \<Rightarrow> StackBinding \<Rightarrow> inventory \<Rightarrow> inventory \<Rightarrow> TransferResult \<Rightarrow> inventory \<Rightarrow> int \<Rightarrow> string \<Rightarrow> link_world \<Rightarrow> export_outcome" where
  "exportCommitted env b source target r selected pending commit w =
     (case ge_auth (le_git env) (gw_time (lw_git w)) of
        Some e \<Rightarrow> (Inl e, w)
      | None \<Rightarrow>
          (case ge_push (le_git env) (gw_time (lw_git w)) (gw_repo (lw_git w)) of
             Inl e \<Rightarrow> (Inl (''push stack export: '' @ e), w)
           | Inr repo \<Rightarrow> exportPushed env b source target r selected pending commit (w\<lparr>lw_git := (lw_git w)\<lparr>gw_repo := repo\<rparr>\<rparr>)))"

definition exportStaged :: "link_env \<Rightarrow> TransferInput \<Rightarrow> StackBinding \<Rightarrow> inventory \<Rightarrow> inventory \<Rightarrow> TransferResult \<Rightarrow> inventory \<Rightarrow> int \<Rightarrow> host_fs \<Rightarrow> link_world \<Rightarrow> export_outcome" where
  "exportStaged env input b source target r selected pending checkout w =
     (if length (exportMessage input b) > 300 \<or> ContainsAny (exportMessage input b) [CHR 0x0D, CHR 0x0A]
        then (Inl ''commit message must be one line and at most 300 characters'', w)
      else (case le_commit env (lw_time w) checkout (commitMessageWithProvenance env (exportMessage input b) b) of
          Inl e \<Rightarrow> (Inl (''commit stack export: '' @ e), w)
        | Inr commit \<Rightarrow>
            exportCommitted env b source target r selected pending commit
              (w\<lparr>lw_git := (lw_git w)\<lparr>gw_repo := committed commit (gw_repo (lw_git w))\<rparr>\<rparr>)))"

definition exportSelected :: "link_env \<Rightarrow> TransferInput \<Rightarrow> StackBinding \<Rightarrow> inventory \<Rightarrow> inventory \<Rightarrow> TransferResult \<Rightarrow> inventory \<Rightarrow> int \<Rightarrow> link_world \<Rightarrow> export_outcome" where
  "exportSelected env input b source target r selected pending w =
     (case GetRepository env (sb_RepositoryUUID b) of
        Inl e \<Rightarrow> (Inl e, w)
      | Inr _ \<Rightarrow>
          (case ge_open (le_git env) (gw_time (lw_git w)) of
             Some e \<Rightarrow> (Inl e, w)
           | None \<Rightarrow>
               (case le_checkout env (lw_time w) of
                  Inl e \<Rightarrow> (Inl e, w)
                | Inr checkout \<Rightarrow>
                    (case writeRepositoryFiles (le_writes env (lw_time w)) checkout selected of
                       (Some e, _) \<Rightarrow> (Inl (fsText e), w)
                     | (None, checkout1) \<Rightarrow> exportStaged env input b source target r selected pending checkout1 w))))"

definition exportChosen :: "link_env \<Rightarrow> TransferInput \<Rightarrow> StackBinding \<Rightarrow> inventory \<Rightarrow> inventory \<Rightarrow> TransferResult \<Rightarrow> link_world \<Rightarrow> export_outcome" where
  "exportChosen env input b source target r w =
     (case validatePreviewToken (ti_PreviewToken input) (pv_PreviewToken (bp_Preview (tr_Preview r))) of
        Some e \<Rightarrow> (Inl e, w)
      | None \<Rightarrow>
          if pv_Changed (bp_Preview (tr_Preview r)) = 0 then
            (case onDb (ReplaceBindingBaseline (le_fault env (lw_time w) ''replace baseline'') (sb_UUID b)
                    (baselineFromSourcePreservingControl source (BindingBaselineOf (sb_UUID b) (lw_db w)))) w of
               (Some e, w1) \<Rightarrow> (Inl e, w1)
             | (None, w1) \<Rightarrow> (Inr (r\<lparr>tr_Message := ''Repository already matches the readable stack files'' @ readBlockedNote r\<rparr>, 0, []), w1))
          else (case selectedTransferFiles (bp_Preview (tr_Preview r)) source (ti_ResolvedPaths input) (ti_SelectedPaths input) of
              Inl e \<Rightarrow> (Inl e, w)
            | Inr (selected, pending) \<Rightarrow>
                if selected = [] then (Inl ''no transferable file was selected; resolve at least one conflict or leave this transfer pending'', w)
                else exportSelected env input b source target r selected pending w))"

definition exportStatus :: "link_env \<Rightarrow> TransferInput \<Rightarrow> StackBinding \<Rightarrow> (string + RepositoryGitStatus) \<Rightarrow> link_world \<Rightarrow> export_outcome" where
  "exportStatus env input b status w =
     (case status of
        Inl e \<Rightarrow> (Inl e, w)
      | Inr st \<Rightarrow>
          if rg_Behind st > 0 \<or> rg_Diverged st then (Inl ''export refused: pull remote changes and resolve repository state first'', w)
          else (case loadTransferTrees env (sb_UUID b) toRepository input w of
              Inl e \<Rightarrow> (Inl e, w)
            | Inr (_, source, target) \<Rightarrow>
                (case le_fault env (lw_time w) ''baseline'' of
                   Some e \<Rightarrow> (Inl e, w)
                 | None \<Rightarrow> exportChosen env input b source target (transferResult (previewOf env toRepository input b source target w))
                     (recordPreview env input b (previewOf env toRepository input b source target w) w))))"

definition exportLocked :: "link_env \<Rightarrow> TransferInput \<Rightarrow> StackBinding \<Rightarrow> link_world \<Rightarrow> export_outcome" where
  "exportLocked env input b w =
     (case fetchRepositoryLocked (le_git env) (lw_git w) of
        (Inl e, g) \<Rightarrow> (Inl e, w\<lparr>lw_git := g\<rparr>)
      | (Inr _, g) \<Rightarrow> exportStatus env input b (RepositoryStatus (le_git env) g) (w\<lparr>lw_git := g\<rparr>))"

definition refreshExported :: "link_env \<Rightarrow> TransferInput \<Rightarrow> StackBinding \<Rightarrow> TransferResult \<Rightarrow> link_world \<Rightarrow> link_world" where
  "refreshExported env input b r w =
     (if pv_Conflicts (bp_Preview (tr_Preview r)) \<noteq> 0 then w
      else let paths = (if ti_automation input then activeAutomationComposePaths (le_listFault env (lw_time w)) b (lw_db w) else selectedComposePaths b) in
        snd (onDb (UpdateGitStackStatuses (le_fault env (lw_time w) ''status'') (sb_UUID b)
          (Some (excludeStringValues paths (composePathsForFiles paths (tr_ReadBlocked r)))) (markUpToDate (le_now env (lw_time w)) (Some (tr_CommitSHA r)))) w))"

definition exportCleared :: "link_env \<Rightarrow> TransferInput \<Rightarrow> StackBinding \<Rightarrow> TransferResult \<Rightarrow> string list \<Rightarrow> link_world \<Rightarrow> (string + TransferResult) \<times> link_world" where
  "exportCleared env input b r exported w =
     (if ti_automation input \<or> exported = [] then (Inr r, w)
      else (case clearResolvedDeploymentStates env b (fullyExportedComposePaths (selectedComposePaths b) (bp_Preview (tr_Preview r)) exported) w of
          (Some e, w1) \<Rightarrow> (Inl (''stack was pushed but its previous deployment warning could not be cleared: '' @ e), w1)
        | (None, w1) \<Rightarrow>
            (case resumeRecoveryPausesAfterExport env b (fullyExportedComposePaths (selectedComposePaths b) (bp_Preview (tr_Preview r)) exported) w1 of
               (Some e, w2) \<Rightarrow> (Inl (''stack was pushed but automatic synchronization could not be resumed: '' @ e), w2)
             | (None, w2) \<Rightarrow> (Inr r, w2))))"

fun exportSettled :: "link_env \<Rightarrow> TransferInput \<Rightarrow> StackBinding \<Rightarrow> export_outcome \<Rightarrow> (string + TransferResult) \<times> link_world" where
  "exportSettled env input b (Inl e, w) = (Inl e, w)"
| "exportSettled env input b (Inr (r, pending, exported), w) =
     (case clearResolvedManualConflictState env b pending w of
        (Some e, w1) \<Rightarrow> (Inl (''stack was pushed but its synchronization state could not be refreshed: '' @ e), w1)
      | (None, w1) \<Rightarrow> exportCleared env input b r exported (refreshExported env input b r w1))"

definition ExportBinding :: "link_env \<Rightarrow> string \<Rightarrow> TransferInput \<Rightarrow> link_world \<Rightarrow> (string + TransferResult) \<times> link_world" where
  "ExportBinding env key input w =
     (case GetBinding key (lw_db w) of
        None \<Rightarrow> (Inl ''record not found'', w)
      | Some b \<Rightarrow> exportSettled env input b (runLinkOperation env (exportLocked env input b) (later w)))"

end
