(* ===== verification/Sync_Import_Laws.thy ===== *)
theory Sync_Import_Laws
  imports Sync_Import
begin

section \<open>What an import may change\<close>

text \<open>
  An import touches a file of the host only when the preview the caller confirmed names it, and only when no decision about
  it is open; the proof follows the files through the steps of \<open>ImportBinding\<close>.
\<close>

subsection \<open>Inventories are keyed by path\<close>

lemma keyed_update: "keyed m \<Longrightarrow> keyed (AList.update (tf_path f) f m)"
  unfolding keyed_def by (intro conjI distinct_update) (use set_AList_update[of "tf_path f" f m] in blast)+

lemma keyed_put: "keyed (fst st) \<Longrightarrow> keyed (fst (put f st))"
  unfolding put_def fst_conv by (rule keyed_update)

lemma keyed_filter: "keyed m \<Longrightarrow> keyed (filter P m)"
  by (auto simp: keyed_def distinct_map_filter)

lemma keyed_exclude: "keyed (fst st) \<Longrightarrow> keyed (fst (snd (autoExcludeLargeDirectory st policy relative observed)))"
  by (simp add: autoExcludeLargeDirectory_def Let_def) (intro impI keyed_put; simp add: keyed_filter)

lemma keyed_charge: "keyed (fst st) \<Longrightarrow> keyed (fst (fst st, n))"
  by simp

lemma collectBlob_keyed: "keyed (fst st) \<Longrightarrow> keyed (fst (snd (collectBlob env incl policy parent rel executable blob observed st)))"
  using keyed_exclude[of st policy parent "observed + 1"]
  by (cases "autoExcludeLargeDirectory st policy parent (observed + 1)")
    (auto simp: collectBlob_def Let_def intro!: keyed_put split: sum.split option.split)

definition keeps_keys :: "sync_env \<Rightarrow> bool \<Rightarrow> syncPolicy \<Rightarrow> ignoreRule list \<Rightarrow> git_node \<Rightarrow> bool" where
  "keeps_keys env incl policy rules node \<longleftrightarrow>
     (\<forall>rel st r st1. walkTree env incl policy rules node rel st = (r, st1) \<and> keyed (fst st) \<longrightarrow> keyed (fst st1))"

lemma walkTreeEntries_keyed:
  assumes "\<forall>(name, node)\<in>set entries. keeps_keys env incl policy rules node"
    and "walkTreeEntries env incl policy rules entries rel observed st = (r, st1)" "keyed (fst st)"
  shows "keyed (fst st1)"
  using assms
proof (induction entries arbitrary: observed st)
  case (Cons e rest)
  obtain name node where e: "e = (name, node)" by (cases e)
  define child where "child = path_join [rel, name]"
  define act where "act = repositoryAction (se_glob env) policy rules child (isGitDir node) (node \<noteq> GitLink)"
  have step: "keyed (fst st1)" if "walkTreeEntries env incl policy rules rest rel n st2 = (r, st1)" "keyed (fst st2)" for n st2
    using Cons.IH[OF _ that] Cons.prems(1) by simp
  have down: "keyed (fst st2)" if "walkTree env incl policy rules node child st = (r2, st2)" for r2 st2
  proof -
    have "keeps_keys env incl policy rules node" using Cons.prems(1) by (simp add: e)
    then show ?thesis using that Cons.prems(3) unfolding keeps_keys_def by blast
  qed
  note run = Cons.prems(2)[unfolded e walkTreeEntries.simps Let_def child_def[symmetric] act_def[symmetric]]
  obtain oe n st2 where walk: "walkTree env incl policy rules node child st = ((oe, n), st2)" by (metis surj_pair)
  obtain b st3 where large: "autoExcludeLargeDirectory st2 policy rel (observed + n) = (b, st3)" by (metis surj_pair)
  have k2: "keyed (fst st2)" by (rule down[OF walk])
  have k3: "keyed (fst st3)" using keyed_exclude[OF k2, of policy rel "observed + n"] large by simp
  show ?case
  proof (cases "unsafeTreeName name \<or> validateRelativePath child False \<noteq> None")
    case True
    then show ?thesis using run Cons.prems(3) by (auto split: if_splits option.splits)
  next
    case False
    then have run: "(case act of Ignore \<Rightarrow> walkTreeEntries env incl policy rules rest rel observed st
      | MarkExcluded \<Rightarrow> walkTreeEntries env incl policy rules rest rel observed (put ((skippedFile child ''excluded'')\<lparr>tf_directory := isGitDir node\<rparr>) st)
      | DescendOnly \<Rightarrow> (case ((oe, n), st2) of ((Some e, _), st1) \<Rightarrow> ((Some e, 0), st1) | ((None, n), st1) \<Rightarrow> walkTreeEntries env incl policy rules rest rel (observed + n) st1)
      | Descend \<Rightarrow> (case ((oe, n), st2) of ((Some e, _), st1) \<Rightarrow> ((Some e, 0), st1)
           | ((None, n), st1) \<Rightarrow> (case autoExcludeLargeDirectory st1 policy rel (observed + n) of (True, st2) \<Rightarrow> ((None, observed + n), st2)
                | (False, st2) \<Rightarrow> walkTreeEntries env incl policy rules rest rel (observed + n) st2))
      | Collect \<Rightarrow>
          (case (case node of GitBlob executable blob \<Rightarrow> collectBlob env incl policy rel child executable blob observed st
                 | _ \<Rightarrow> ((Some (OtherFs ''not a blob''), 0, False), st)) of
             ((Some e, _, _), st1) \<Rightarrow> ((Some e, 0), st1)
           | ((None, n, True), st1) \<Rightarrow> ((None, n), st1)
           | ((None, n, False), st1) \<Rightarrow> walkTreeEntries env incl policy rules rest rel n st1)) = (r, st1)"
      using run by (simp only: walk if_False option.case) simp
    show ?thesis
    proof (cases act)
      case Ignore
      then show ?thesis using run step Cons.prems(3) by simp
    next
      case MarkExcluded
      then show ?thesis using run step keyed_put[OF Cons.prems(3)] by simp
    next
      case DescendOnly
      then show ?thesis using run step k2 by (cases oe) auto
    next
      case Descend
      then show ?thesis using run step k2 k3 by (cases oe; cases b) (auto simp: large)
    next
      case Collect
      define got where "got = (case node of GitBlob executable blob \<Rightarrow> collectBlob env incl policy rel child executable blob observed st
         | _ \<Rightarrow> ((Some (OtherFs ''not a blob''), 0, False), st))"
      have k: "keyed (fst (snd got))" using Cons.prems(3) collectBlob_keyed[OF Cons.prems(3)] by (simp add: got_def split: git_node.split)
      obtain oe' n' b' st' where g: "got = ((oe', n', b'), st')" by (metis surj_pair)
      then show ?thesis using run[unfolded Collect entry_action.case got_def[symmetric] g] step k by (cases oe'; cases b') auto
    qed
  qed
qed simp

lemma walkTree_keyed: "keeps_keys env incl policy rules node"
proof (induction node)
  case (GitTree entries)
  then have "\<forall>(name, node)\<in>set entries. keeps_keys env incl policy rules node" by force
  then show ?case using walkTreeEntries_keyed unfolding keeps_keys_def[of _ _ _ _ "GitTree entries"] by auto
qed (auto simp: keeps_keys_def)

lemma collectRepositoryTreeFiles_keyed: "keyed (snd (collectRepositoryTreeFiles env tree incl policy))"
proof -
  have empty: "keyed []" by (simp add: keyed_def)
  have "keyed (fst (snd (walkTree env incl p rules node [] ([], 0))))" for p rules node
    using walkTree_keyed[of env incl p rules node] empty unfolding keeps_keys_def by (metis fst_conv prod.collapse)
  then show ?thesis using empty
    by (auto simp: collectRepositoryTreeFiles_def Let_def split: sum.split option.split prod.split) (metis fst_conv snd_conv)+
qed

subsection \<open>Following the files of the host\<close>

lemma onDb_other [simp]:
  "lw_files (snd (onDb f w)) = lw_files w" "lw_backups (snd (onDb f w)) = lw_backups w" "lw_log (snd (onDb f w)) = lw_log w" "lw_time (snd (onDb f w)) = lw_time w"
  by (simp_all add: onDb_def)

lemma recordPreview_other [simp]:
  "lw_files (recordPreview env input b bp w) = lw_files w" "lw_backups (recordPreview env input b bp w) = lw_backups w"
  "lw_log (recordPreview env input b bp w) = lw_log w" "lw_time (recordPreview env input b bp w) = lw_time w"
  by (simp_all add: recordPreview_def)

lemma recordMissing_other [simp]:
  "lw_files (recordMissingLocalComposeStatuses env b localCompose w) = lw_files w" "lw_log (recordMissingLocalComposeStatuses env b localCompose w) = lw_log w"
  by (simp_all add: recordMissingLocalComposeStatuses_def Let_def)

lemma later_other [simp]: "lw_files (later w) = lw_files w" "lw_backups (later w) = lw_backups w" "lw_log (later w) = lw_log w" "lw_db (later w) = lw_db w"
  by (simp_all add: later_def)

text \<open>The result of a step, read as what it did to the host.\<close>

definition quiet :: "link_world \<Rightarrow> link_world \<Rightarrow> bool" where
  "quiet w w1 \<longleftrightarrow> lw_files w1 = lw_files w \<and> lw_log w1 = lw_log w"

lemma quietI [intro]: "lw_files w1 = lw_files w \<Longrightarrow> lw_log w1 = lw_log w \<Longrightarrow> quiet w w1"
  by (simp add: quiet_def)

lemma quiet_refl [simp]: "quiet w w"
  by (simp add: quiet_def)

lemma quiet_trans: "quiet w w1 \<Longrightarrow> quiet w1 w2 \<Longrightarrow> quiet w w2"
  by (simp add: quiet_def)

text \<open>The change an import may make to one path.\<close>

definition writtenAs :: "inventory \<Rightarrow> string \<Rightarrow> bool" where
  "writtenAs selected q \<longleftrightarrow> \<not> isProvisionControlPath q \<and> (\<exists>f. map_of selected q = Some f \<and> tf_open f \<noteq> None)"

definition touchesOnly :: "(string \<Rightarrow> bool) \<Rightarrow> link_world \<Rightarrow> link_world \<Rightarrow> bool" where
  "touchesOnly P w w1 \<longleftrightarrow> lw_log w1 = lw_log w \<and> (\<forall>q. map_of (lw_files w1) q \<noteq> map_of (lw_files w) q \<longrightarrow> P q)"

lemma touchesOnly_quiet: "quiet w w1 \<Longrightarrow> touchesOnly P w w1"
  by (simp add: touchesOnly_def quiet_def)

lemma touchesOnly_before: "quiet w w1 \<Longrightarrow> touchesOnly P w1 w2 \<Longrightarrow> touchesOnly P w w2"
  by (simp add: touchesOnly_def quiet_def)

lemma touchesOnly_after: "touchesOnly P w w1 \<Longrightarrow> quiet w1 w2 \<Longrightarrow> touchesOnly P w w2"
  by (simp add: touchesOnly_def quiet_def)

lemma touchesOnly_mono: "touchesOnly P w w1 \<Longrightarrow> (\<And>q. P q \<Longrightarrow> Q q) \<Longrightarrow> touchesOnly Q w w1"
  by (auto simp: touchesOnly_def)

lemma touchesOnly_backups [simp]: "touchesOnly P w (w\<lparr>lw_backups := st\<rparr>)" "touchesOnly P w (w\<lparr>lw_git := g\<rparr>)" "touchesOnly P w w"
  by (simp_all add: touchesOnly_def)

lemma importRecorded_quiet: "quiet (snd ew) (snd (importRecorded env b r selected pending backup ew))"
  by (auto simp: importRecorded_def split: prod.split option.split)

lemma map_of_stackFiles:
  "map_of (fst (splitProvisionControlFiles selected)) q = (if isProvisionControlPath q then None else map_of selected q)"
  by (induction selected) (auto simp: splitProvisionControlFiles_def)

lemma importWritten_touches:
  assumes "keyed selected"
  shows "touchesOnly (writtenAs selected) w (snd (importWritten env b source target r selected pending backup w))"
proof -
  have k: "keyed (fst (splitProvisionControlFiles selected))" using keyed_filter[OF assms] by (simp add: splitProvisionControlFiles_def)
  obtain e fs where run: "writeStackFiles (le_writes env (lw_time w)) (lw_files w) (fst (splitProvisionControlFiles selected)) = (e, fs)" by (metis surj_pair)
  have "map_of fs q = map_of (lw_files w) q" if "\<not> writtenAs selected q" for q
    using that conjunct1[OF writeStackFiles_spec[OF k run]] by (auto simp: writtenAs_def map_of_stackFiles)
  then have wrote: "touchesOnly (writtenAs selected) w (w\<lparr>lw_files := fs\<rparr>)" by (auto simp: touchesOnly_def)
  show ?thesis
  proof (cases e)
    case None
    have "quiet (w\<lparr>lw_files := fs\<rparr>) (snd (importRecorded env b r selected pending backup (onDb f (w\<lparr>lw_files := fs\<rparr>))))" for f
      by (rule quiet_trans[OF _ importRecorded_quiet]) auto
    then show ?thesis using touchesOnly_after[OF wrote] by (simp add: importWritten_def run None)
  qed (simp add: importWritten_def run wrote)
qed

lemma importBackedUp_touches:
  assumes "keyed selected"
  shows "touchesOnly (writtenAs selected) w (snd (importBackedUp env b head source target r selected pending w))"
proof -
  have "touchesOnly (writtenAs selected) w (snd (importWritten env b source target r selected pending bid (w\<lparr>lw_backups := st\<rparr>)))" for st bid
    by (rule touchesOnly_before[OF _ importWritten_touches[OF assms]]) auto
  then show ?thesis using importWritten_touches[OF assms]
    by (auto simp: importBackedUp_def intro: touchesOnly_quiet split: prod.split sum.split)
qed

text \<open>The stacks left out, for one path.\<close>

definition leftOut :: "link_env \<Rightarrow> TransferInput \<Rightarrow> StackBinding \<Rightarrow> nat \<Rightarrow> string \<Rightarrow> bool" where
  "leftOut env input b t q \<longleftrightarrow>
     (\<exists>editor. le_dirty env = Some editor \<and> list_ex (\<lambda>cd. inStackDir q (snd cd)) (editorStacks b (editor t))) \<or>
     (ti_automation input \<and> ownedBy (selectedComposePaths b) (ti_heldBackComposePaths input) q \<noteq> [])"

lemma map_of_filter_fst: "map_of (filter (\<lambda>(p, _). P p) m) q = (if P q then map_of m q else None)"
  by (induction m) auto

lemma excludeDirty_map:
  "map_of (fst (excludeDirtyEditorStacks dirty b selected)) q =
   (if \<exists>paths. dirty = Some paths \<and> list_ex (\<lambda>cd. inStackDir q (snd cd)) (editorStacks b paths) then None else map_of selected q)"
  by (auto simp: excludeDirtyEditorStacks_def map_of_filter_fst[of "\<lambda>p. \<not> list_ex (\<lambda>cd. inStackDir p (snd cd)) xs" for xs] split: option.split)

lemma excludeOwned_map: "map_of (fst (excludeOwned selected composePaths stacks)) q = (if ownedBy composePaths stacks q = [] then map_of selected q else None)"
  by (simp add: excludeOwned_def map_of_filter_fst[of "\<lambda>p. ownedBy composePaths stacks p = []"])

lemma keyed_excluded: "keyed selected \<Longrightarrow> keyed (fst (excludeOwned selected composePaths stacks))"
  "keyed selected \<Longrightarrow> keyed (fst (excludeDirtyEditorStacks dirty b selected))"
  by (auto simp: excludeOwned_def excludeDirtyEditorStacks_def intro: keyed_filter split: option.split)

lemma withoutBlocked_keeps:
  assumes "withoutBlocked env input b errors source selected w = (selected1, editor, invalid, held)"
  shows "keyed selected \<Longrightarrow> keyed selected1"
    and "writtenAs selected1 q \<Longrightarrow> writtenAs selected q \<and> \<not> leftOut env input b (lw_time w) q"
proof -
  let ?d = "map_option (\<lambda>f. f (lw_time w)) (le_dirty env)"
  obtain s1 e1 where one: "excludeDirtyEditorStacks ?d b selected = (s1, e1)" by (metis surj_pair)
  obtain s2 i2 where two: "(if ti_automation input \<and> errors \<noteq> [] then excludeInvalidComposeStacks s1 source errors else (s1, [])) = (s2, i2)" by (metis surj_pair)
  obtain s3 h3 where three: "(if ti_automation input \<and> ti_heldBackComposePaths input \<noteq> []
      then excludeHeldBackStacks s2 (selectedComposePaths b) (ti_heldBackComposePaths input) else (s2, [])) = (s3, h3)" by (metis surj_pair)
  have s3: "selected1 = s3" using assms by (simp add: withoutBlocked_def one two three)
  have m1: "map_of s1 p = (if \<exists>paths. ?d = Some paths \<and> list_ex (\<lambda>cd. inStackDir p (snd cd)) (editorStacks b paths) then None else map_of selected p)" for p
    using excludeDirty_map[of ?d b selected p] by (simp add: one)
  have m2: "map_of s2 p \<in> {None, map_of s1 p}" for p
    using two excludeOwned_map[of s1 _ _ p] by (auto simp: excludeInvalidComposeStacks_def split: if_splits) (metis fst_conv option.distinct(1))+
  have m3: "map_of s3 p = (if ti_automation input \<and> ownedBy (selectedComposePaths b) (ti_heldBackComposePaths input) p \<noteq> [] then None else map_of s2 p)" for p
    using three excludeOwned_map[of s2 "selectedComposePaths b" "ti_heldBackComposePaths input" p]
    by (auto simp: excludeHeldBackStacks_def ownedBy_def split: if_splits)
  show "keyed selected1" if "keyed selected"
  proof -
    have "keyed s1" using keyed_excluded(2)[OF that, of ?d b] by (simp add: one)
    then have "keyed s2" using two keyed_excluded(1)[of s1] by (auto simp: excludeInvalidComposeStacks_def split: if_splits) (metis fst_conv)
    then show ?thesis using three keyed_excluded(1)[of s2] unfolding s3 by (auto simp: excludeHeldBackStacks_def split: if_splits) (metis fst_conv)
  qed
  assume "writtenAs selected1 q"
  then obtain f where f: "map_of s3 q = Some f" "tf_open f \<noteq> None" "\<not> isProvisionControlPath q" by (auto simp: writtenAs_def s3)
  have n: "\<not> (ti_automation input \<and> ownedBy (selectedComposePaths b) (ti_heldBackComposePaths input) q \<noteq> [])" and "map_of s2 q = Some f"
    using f(1) m3[of q] by (auto split: if_splits)
  then have s1: "map_of s1 q = Some f" using m2[of q] by simp
  then have "\<not> (\<exists>paths. ?d = Some paths \<and> list_ex (\<lambda>cd. inStackDir q (snd cd)) (editorStacks b paths))" "map_of selected q = Some f"
    using m1[of q] by (auto split: if_splits)
  then show "writtenAs selected q \<and> \<not> leftOut env input b (lw_time w) q"
    using f n by (auto simp: writtenAs_def leftOut_def)
qed

lemma importAllowed_touches:
  assumes "keyed (fst allowed)"
  shows "touchesOnly (writtenAs (fst allowed)) w (snd (importAllowed env b head source target r pending allowed w))"
  using importBackedUp_touches[OF assms] by (auto simp: importAllowed_def intro: touchesOnly_quiet split: prod.split option.split)

definition agreed :: "link_env \<Rightarrow> TransferInput \<Rightarrow> StackBinding \<Rightarrow> inventory \<Rightarrow> inventory \<Rightarrow> baseline \<Rightarrow> nat \<Rightarrow> string \<Rightarrow> bool" where
  "agreed env input b source target base t q \<longleftrightarrow>
     ti_PreviewToken input = pv_PreviewToken (buildPreview (se_sha (le_sync env)) (sb_UUID b) toStack source target base) \<and>
     \<not> isProvisionControlPath q \<and> \<not> leftOut env input b t q \<and>
     (ti_SelectedPaths input \<noteq> [] \<longrightarrow> q \<in> cleanCandidate ` set (ti_SelectedPaths input)) \<and>
     (\<exists>f. map_of source q = Some f \<and> tf_open f \<noteq> None \<and>
        (\<forall>dst. map_of target q = Some dst \<longrightarrow> \<not> heldOut dst \<or> q \<in> cleanCandidate ` set (ti_ResolvedPaths input)) \<and>
        (\<forall>dst. map_of target q = Some dst \<and> tf_open dst \<noteq> None \<and> tf_sha dst \<noteq> tf_sha f \<longrightarrow>
           map_of base q = Some (tf_sha dst) \<or> q \<in> cleanCandidate ` set (ti_ResolvedPaths input)))"

text \<open>What the selection takes, in terms of the two sides and the baseline.\<close>

lemma selected_agreed:
  assumes "distinct (map fst source)"
    and sel: "selectedTransferFiles (buildPreview sha key toStack source target base) source resolved chosen = Inr (selected, n)"
    and "writtenAs selected q"
  shows "(chosen \<noteq> [] \<longrightarrow> q \<in> cleanCandidate ` set chosen) \<and>
    (\<exists>f. map_of source q = Some f \<and> tf_open f \<noteq> None \<and>
        (\<forall>dst. map_of target q = Some dst \<longrightarrow> \<not> heldOut dst \<or> q \<in> cleanCandidate ` set resolved) \<and>
        (\<forall>dst. map_of target q = Some dst \<and> tf_open dst \<noteq> None \<and> tf_sha dst \<noteq> tf_sha f \<longrightarrow>
           map_of base q = Some (tf_sha dst) \<or> q \<in> cleanCandidate ` set resolved))"
proof -
  let ?pv = "buildPreview sha key toStack source target base"
  obtain f where f: "map_of selected q = Some f" "tf_open f \<noteq> None" "\<not> isProvisionControlPath q" using assms(3) by (auto simp: writtenAs_def)
  obtain e where e: "e \<in> set (pv_Entries ?pv)" "takesEntry (map cleanCandidate resolved) (map cleanCandidate chosen) e" "pe_Path e = q"
    and o: "if pe_Status e = ''remove_control'' then f = skippedFile q [] else map_of source q = Some f \<and> tf_open f \<noteq> None"
    by (rule selectedTransferFiles_origin[OF sel f(1)])
  have "pe_Status e \<noteq> ''remove_control''" using o f(2) by auto
  then have src: "map_of source q = Some f" using o by simp
  have named: "chosen \<noteq> [] \<longrightarrow> q \<in> cleanCandidate ` set chosen" using e(2,3) by (auto simp: takesEntry_def)
  show ?thesis
  proof (cases "q \<in> cleanCandidate ` set resolved")
    case True
    then show ?thesis using src f(2) named by blast
  next
    case False
    then have t: "takeable e" using e(2,3) \<open>pe_Status e \<noteq> ''remove_control''\<close> by (auto simp: takesEntry_def takeable_def)
    obtain s where "(q, s) \<in> set source" "mayReplace toStack target base q s"
      using preview_takeable[of e toStack source target base] e(1,3) t f(3) by (auto simp: buildPreview_entries)
    then have "mayReplace toStack target base q f" using assms(1) src by (simp add: map_of_is_SomeI)
    then have "(\<forall>dst. map_of target q = Some dst \<longrightarrow> \<not> heldOut dst) \<and>
        (\<forall>dst. map_of target q = Some dst \<and> tf_open dst \<noteq> None \<longrightarrow> map_of base q = Some (tf_sha dst))"
      by (auto simp: mayReplace_def targetOf_def heldOut_def split: if_splits)
    then show ?thesis using src f(2) named by blast
  qed
qed

lemma importChosen_touches:
  assumes "keyed source" "bp_Preview (tr_Preview r) = buildPreview (se_sha (le_sync env)) (sb_UUID b) toStack source target base"
    and "ti_PreviewToken input = pv_PreviewToken (bp_Preview (tr_Preview r))"
  shows "touchesOnly (agreed env input b source target base (lw_time w)) w (snd (importChosen env input b head errors source target r w))"
proof -
  note k = keyed_distinct[OF assms(1)]
  have step: "touchesOnly (agreed env input b source target base (lw_time w)) w
      (snd (importAllowed env b head source target r pending (withoutBlocked env input b errors source selected w) w))"
    if sel: "selectedTransferFiles (buildPreview (se_sha (le_sync env)) (sb_UUID b) toStack source target base) source (ti_ResolvedPaths input)
        (ti_SelectedPaths input) = Inr (selected, pending)" for selected pending
  proof -
    obtain s1 editor invalid held where wb: "withoutBlocked env input b errors source selected w = (s1, editor, invalid, held)" by (metis surj_pair)
    have "tf_path f = p" if m: "map_of selected p = Some f" for p f
    proof -
      obtain e where "e \<in> set (pv_Entries (buildPreview (se_sha (le_sync env)) (sb_UUID b) toStack source target base))"
          "takesEntry (map cleanCandidate (ti_ResolvedPaths input)) (map cleanCandidate (ti_SelectedPaths input)) e" "pe_Path e = p"
        and "if pe_Status e = ''remove_control'' then f = skippedFile p [] else map_of source p = Some f \<and> tf_open f \<noteq> None"
        by (rule selectedTransferFiles_origin[OF sel m])
      then show ?thesis using keyed_found[OF assms(1)] by (auto simp: skippedFile_def split: if_splits)
    qed
    then have ks: "keyed selected" using selectedTransferFiles_distinct[OF sel] by (auto simp: keyed_def)
    have "touchesOnly (writtenAs s1) w (snd (importAllowed env b head source target r pending (s1, editor, invalid, held) w))"
      using importAllowed_touches[of "(s1, editor, invalid, held)"] withoutBlocked_keeps(1)[OF wb ks] by simp
    then show ?thesis unfolding wb
    proof (rule touchesOnly_mono)
      fix q assume "writtenAs s1 q"
      then have q: "writtenAs selected q" "\<not> leftOut env input b (lw_time w) q" using withoutBlocked_keeps(2)[OF wb] by blast+
      then show "agreed env input b source target base (lw_time w) q"
        unfolding agreed_def using selected_agreed[OF k sel q(1)] assms(2,3) by (auto simp: writtenAs_def)
    qed
  qed
  show ?thesis unfolding importChosen_def assms(2) using step by (auto intro: touchesOnly_quiet split: sum.split prod.split)
qed

lemma importUnchanged_quiet: "quiet w (snd (importUnchanged env b source r w))"
  by (auto simp: importUnchanged_def onDb_def split: option.split)

lemma importLoaded_touches:
  assumes "keyed source"
  shows "touchesOnly (agreed env input b source target (BindingBaselineOf (sb_UUID b) (lw_db w)) (lw_time w)) w
    (snd (importLoaded env input b head source target w))"
proof -
  let ?errors = "fst (importErrors env input source)" and ?base = "BindingBaselineOf (sb_UUID b) (lw_db w)"
  let ?bp = "importPreviewOf env input b ?errors source target w" and ?w = "recordPreview env input b (importPreviewOf env input b (fst (importErrors env input source)) source target w) w"
  have pv: "bp_Preview (tr_Preview (transferResult ?bp)) = buildPreview (se_sha (le_sync env)) (sb_UUID b) toStack source target ?base"
    by (simp add: transferResult_def importPreviewOf_def previewOf_def Let_def)
  have q: "quiet w ?w" by auto
  have "touchesOnly (agreed env input b source target ?base (lw_time w)) ?w
      (snd (importPreviewed env input b head ?errors source target (transferResult ?bp) ?w))"
  proof (cases "validatePreviewToken (ti_PreviewToken input) (pv_PreviewToken (bp_Preview (tr_Preview (transferResult ?bp))))")
    case None
    then have "ti_PreviewToken input = pv_PreviewToken (bp_Preview (tr_Preview (transferResult ?bp)))" by (auto simp: validatePreviewToken_def split: if_splits)
    from importChosen_touches[OF assms pv this, of ?w head ?errors] show ?thesis
      using touchesOnly_quiet[OF importUnchanged_quiet] by (simp add: importPreviewed_def None)
  qed (simp add: importPreviewed_def touchesOnly_quiet)
  then show ?thesis using touchesOnly_before[OF q] by (auto simp: importLoaded_def intro: touchesOnly_quiet split: option.split)
qed

lemma loadTransferTrees_keyed:
  assumes "loadTransferTrees env key toStack input w = Inr (b, source, target)"
  shows "keyed source"
proof -
  have empty: "keyed []" by (simp add: keyed_def)
  have k: "keyed (snd (repositorySide env input b' policy w))" for b' policy
    using collectRepositoryTreeFiles_keyed empty by (simp add: repositorySide_def split: sum.split)
  obtain b' policy stackFiles where "readRepository env toStack b' stackFiles (repositorySide env input b' policy w) = Inr (b, source, target)"
    using assms by (auto simp: loadTransferTrees_def readPolicy_def readSides_def split: option.splits sum.splits prod.splits)
  moreover have "toStack \<noteq> toRepository" by (simp add: toStack_def toRepository_def)
  ultimately show ?thesis using k[of b' policy]
    by (auto simp: readRepository_def split: option.splits prod.splits)
qed

definition importAgreed :: "link_env \<Rightarrow> string \<Rightarrow> TransferInput \<Rightarrow> link_world \<Rightarrow> string \<Rightarrow> bool" where
  "importAgreed env key input w q \<longleftrightarrow>
     (\<exists>b b' source target g. GetBinding key (lw_db w) = Some b \<and>
        loadTransferTrees env (sb_UUID b) toStack input ((later w)\<lparr>lw_git := g\<rparr>) = Inr (b', source, target) \<and>
        agreed env input b source target (BindingBaselineOf (sb_UUID b) (lw_db w)) (lw_time (later w)) q)"

lemma importStatus_touches:
  assumes "GetBinding key (lw_db w) = Some b"
  shows "touchesOnly (importAgreed env key input w) (later w) (snd (importStatus env input b status ((later w)\<lparr>lw_git := g\<rparr>)))"
proof -
  let ?w = "(later w)\<lparr>lw_git := g\<rparr>"
  have q: "quiet (later w) ?w" by auto
  have "touchesOnly (importAgreed env key input w) ?w (snd (importLoaded env input b head source target ?w))"
    if t: "loadTransferTrees env (sb_UUID b) toStack input ?w = Inr (b', source, target)" for b' source target head
    using importLoaded_touches[OF loadTransferTrees_keyed[OF t], of env input b target ?w head]
    by (rule touchesOnly_mono) (use t assms in \<open>auto simp: importAgreed_def\<close>)
  then show ?thesis using touchesOnly_before[OF q]
    by (auto simp: importStatus_def split: sum.split prod.split)
qed

lemma runLinkOperation_touches:
  "touchesOnly P w (snd (body w)) \<Longrightarrow> touchesOnly P w (snd (runLinkOperation env body w))"
  by (auto simp: runLinkOperation_def split: option.split prod.split sum.split)

lemma importSettled_quiet: "quiet (snd r) (snd (importSettled env input b r))"
proof -
  obtain a w where r: "r = (a, w)" by (metis surj_pair)
  have "quiet w (refreshImported env input b t v)" if "quiet w v" for t v
    using that by (auto simp: refreshImported_def quiet_def Let_def)
  moreover have "quiet w (snd (clearResolvedManualConflictState env b pending w))" for pending
    by (auto simp: clearResolvedManualConflictState_def)
  ultimately show ?thesis
    by (cases a) (auto simp: r split: prod.split option.split, metis snd_conv, metis snd_conv)
qed

subsection \<open>A concrete import\<close>

text \<open>A link whose repository has a newer version of one file, and the input that confirms its preview.\<close>

fun addPath :: "string list \<Rightarrow> fs_node \<Rightarrow> (string \<times> fs_node) list \<Rightarrow> (string \<times> fs_node) list" where
  "addPath [] leaf es = es"
| "addPath [n] leaf es = AList.update n leaf es"
| "addPath (n # m # rest) leaf es =
     AList.update n (FsDir (addPath (m # rest) leaf (case map_of es n of Some (FsDir sub) \<Rightarrow> sub | _ \<Rightarrow> []))) es"

definition diskOf :: "host_fs \<Rightarrow> fs_node" where
  "diskOf fs = FsDir (foldl (\<lambda>es (p, h). addPath (Split p (CHR ''/'')) (plainFile (hf_contents h)) es) [] fs)"

definition remoteTree :: git_node where
  "remoteTree = GitTree [(''app'', GitTree [(''compose.yml'', GitBlob False (Inr ''v2''))])]"

definition calmLink :: link_env where
  "calmLink = \<lparr>le_sync = sampleSync\<lparr>se_sha := (\<lambda>s. s)\<rparr>, le_decode = (\<lambda>_. Some False), le_git = calmGit, le_repositories = [\<lparr>rp_UUID = ''r1'', rp_Name = ''r'', rp_DefaultBranch = ''main'', rp_ExcludePatterns = []\<rparr>],
     le_resolve = None, le_stat = (\<lambda>_. Inr True), le_disk = (\<lambda>_. diskOf), le_content = (\<lambda>_. Inr remoteTree), le_subtree = (\<lambda>t _. Inr t), le_now = (\<lambda>_. 9),
     le_listFault = (\<lambda>_. False), le_fault = (\<lambda>_ _. None), le_dirty = None, le_backup = (\<lambda>_. sampleBackups), le_writes = (\<lambda>_. plainWrites),
     le_checkout = (\<lambda>_. Inr []), le_commit = (\<lambda>_ _ _. Inr ''c9''), le_instance = ''i'', le_deploy = calmDeploy\<rparr>"

definition linkWorld :: link_world where
  "linkWorld = \<lparr>lw_time = 0, lw_db = sampleDb\<lparr>db_bindings := [sampleBinding\<lparr>sb_SyncProfile := syncProfileAllFiles\<rparr>], db_baselines := [(''b1'', [(''app/compose.yml'', ''v1'')])]\<rparr>,
     lw_git = \<lparr>gw_time = 0, gw_repo = \<lparr>gr_commits = [(''c2'', [])], gr_local = Some ''c2'', gr_tracking = Some ''c2''\<rparr>, gw_Status = ''ready'', gw_LastError = []\<rparr>,
     lw_files = [(''app/compose.yml'', \<lparr>hf_contents = ''v1'', hf_mode = 420\<rparr>)], lw_backups = \<lparr>bs_rows = [], bs_archives = []\<rparr>, lw_log = []\<rparr>"

definition linkRow :: StackBinding where "linkRow = sampleBinding\<lparr>sb_SyncProfile := syncProfileAllFiles\<rparr>"

definition remoteFile :: transferFile where "remoteFile = textFile ''app/compose.yml'' ''v2''"
definition localFile :: transferFile where "localFile = textFile ''app/compose.yml'' ''v1''"

definition agreedPreview :: TransferPreview where
  "agreedPreview = buildPreview (\<lambda>s. s) ''b1'' toStack [(''app/compose.yml'', remoteFile)] [(''app/compose.yml'', localFile)] [(''app/compose.yml'', ''v1'')]"

definition agreedInput :: TransferInput where
  "agreedInput = plainInput\<lparr>ti_PreviewToken := pv_PreviewToken agreedPreview\<rparr>"


definition fetchedGit :: git_world where
  "fetchedGit = snd (fetchRepositoryLocked calmGit (lw_git linkWorld))"

definition fetchedWorld :: link_world where
  "fetchedWorld = (later linkWorld)\<lparr>lw_git := fetchedGit\<rparr>"

definition writtenFiles :: host_fs where
  "writtenFiles = [(''app/compose.yml'', \<lparr>hf_contents = ''v2'', hf_mode = 420\<rparr>)]"

lemma link_facts:
  "loadTransferTrees calmLink ''b1'' toStack agreedInput fetchedWorld = Inr (linkRow, [(''app/compose.yml'', remoteFile)], [(''app/compose.yml'', localFile)])"
  "RepositoryStatus calmGit fetchedGit =
     Inr \<lparr>rg_Head = ''c2'', rg_RemoteHead = ''c2'', rg_Ahead = 0, rg_Behind = 0, rg_Diverged = False, rg_State = ''up-to-date''\<rparr>"
  "fetchRepositoryLocked calmGit (lw_git linkWorld) =
     (Inr \<lparr>rg_Head = ''c2'', rg_RemoteHead = ''c2'', rg_Ahead = 0, rg_Behind = 0, rg_Diverged = False, rg_State = ''up-to-date''\<rparr>, fetchedGit)"
  "selectedTransferFiles agreedPreview [(''app/compose.yml'', remoteFile)] [] [] = Inr ([(''app/compose.yml'', remoteFile)], 0)"
  "writeStackFiles plainWrites (lw_files linkWorld) [(''app/compose.yml'', remoteFile)] = (None, writtenFiles)"
  "isl (fst (backupChangedFiles sampleBackups linkRow [(''app/compose.yml'', remoteFile)] [(''app/compose.yml'', localFile)]
     ''pre_import'' ''c2'' [] (lw_backups linkWorld))) = False"
  "pv_Changed agreedPreview \<noteq> 0" "pv_PreviewToken agreedPreview \<noteq> []"
  "composeFileErrors calmLink [(''app/compose.yml'', remoteFile)] = ([], True)"
  "splitProvisionControlFiles [(''app/compose.yml'', remoteFile)] = ([(''app/compose.yml'', remoteFile)], [])"
  "BindingBaselineOf ''b1'' (lw_db linkWorld) = [(''app/compose.yml'', ''v1'')]"
  "GetBinding ''b1'' (lw_db linkWorld) = Some linkRow"
  by code_simp+

lemma link_env [simp]: "le_git calmLink = calmGit" "le_fault calmLink t x = None" "le_resolve calmLink = None" "le_writes calmLink t = plainWrites"
  "le_backup calmLink t = sampleBackups" "le_dirty calmLink = None" "ge_enabled calmGit" "se_sha (le_sync calmLink) = (\<lambda>s. s)"
  "sb_UUID linkRow = ''b1''"
  by (simp_all add: calmLink_def calmGit_def linkRow_def sampleBinding_def)

lemma link_input [simp]: "ti_PreviewToken agreedInput = pv_PreviewToken agreedPreview" "ti_ResolvedPaths agreedInput = []" "ti_SelectedPaths agreedInput = []"
  "ti_automation agreedInput = False" "ti_targetComposePaths agreedInput = []"
  by (simp_all add: agreedInput_def plainInput_def)

lemma link_world [simp]: "lw_db fetchedWorld = lw_db linkWorld" "lw_files fetchedWorld = lw_files linkWorld" "lw_backups fetchedWorld = lw_backups linkWorld"
   "lw_git (later linkWorld) = lw_git linkWorld" "lw_db (later linkWorld) = lw_db linkWorld"
  by (simp_all add: fetchedWorld_def later_def)
lemma link_token: "validatePreviewToken (pv_PreviewToken agreedPreview) (pv_PreviewToken agreedPreview) = None"
  using link_facts(8) by (simp add: validatePreviewToken_def)

lemma link_imported: "lw_files (snd (importLoaded calmLink agreedInput linkRow ''c2'' [(''app/compose.yml'', remoteFile)] [(''app/compose.yml'', localFile)] fetchedWorld)) = writtenFiles"
proof -
  obtain bid st where b: "backupChangedFiles sampleBackups linkRow [(''app/compose.yml'', remoteFile)] [(''app/compose.yml'', localFile)]
    ''pre_import'' ''c2'' [] (lw_backups linkWorld) = (Inr bid, st)" using link_facts(6) by (metis isl_def prod.collapse sum.collapse(2) sum.exhaust_sel)
  have pv: "bp_Preview (tr_Preview (transferResult (importPreviewOf calmLink agreedInput linkRow e
      [(''app/compose.yml'', remoteFile)] [(''app/compose.yml'', localFile)] fetchedWorld))) = agreedPreview" for e
    by (simp add: transferResult_def importPreviewOf_def previewOf_def Let_def link_facts(11) agreedPreview_def)
  have "lw_files (snd (importWritten calmLink linkRow s t r [(''app/compose.yml'', remoteFile)] p bid w)) = writtenFiles" if "lw_files w = lw_files linkWorld" for s t r p bid w
    using importRecorded_quiet by (simp add: importWritten_def link_facts(5,10) that quiet_def)
  then have "lw_files (snd (importAllowed calmLink linkRow ''c2'' [(''app/compose.yml'', remoteFile)] [(''app/compose.yml'', localFile)] r p ([(''app/compose.yml'', remoteFile)], [], [], []) w)) = writtenFiles"
    if "lw_files w = lw_files linkWorld" "lw_backups w = lw_backups linkWorld" for r p w using that
    by (simp add: importAllowed_def importBackedUp_def link_facts(10) b)
  then show ?thesis by (simp add: importLoaded_def importRefused_def importErrors_def link_facts(9) firstComposeValidationError_def importPreviewed_def pv link_token link_facts(7)
    importChosen_def link_facts(4) withoutBlocked_def excludeDirtyEditorStacks_def)
qed

lemma link_import: "lw_files (snd (ImportBinding calmLink ''b1'' agreedInput linkWorld)) = writtenFiles"
proof -
  have q: "lw_files (snd (importSettled env input b r)) = lw_files (snd r)" for env input b r
    using importSettled_quiet[of r env input b] by (simp add: quiet_def)
  have "importLocked calmLink agreedInput linkRow (later linkWorld) = importLoaded calmLink agreedInput linkRow ''c2'' [(''app/compose.yml'', remoteFile)] [(''app/compose.yml'', localFile)] fetchedWorld"
    by (simp add: importLocked_def link_facts(1,2,3) importStatus_def flip: fetchedWorld_def)
  then show ?thesis using link_imported
    by (auto simp: ImportBinding_def link_facts(12) q runLinkOperation_def split: prod.split sum.split)
qed

subsection \<open>The theorem\<close>

lemma ImportBinding_touches: "touchesOnly (importAgreed env key input w) w (snd (ImportBinding env key input w))"
proof (cases "GetBinding key (lw_db w)")
  case None
  then show ?thesis by (simp add: ImportBinding_def touchesOnly_def)
next
  case (Some b)
  have "touchesOnly (importAgreed env key input w) (later w) (snd (importLocked env input b (later w)))"
    using importStatus_touches[OF Some, of env input]
    by (auto simp: importLocked_def split: prod.split sum.split)
  from touchesOnly_after[OF runLinkOperation_touches[of _ _ "importLocked env input b", OF this] importSettled_quiet]
  show ?thesis by (simp add: ImportBinding_def Some touchesOnly_def)
qed



subsection \<open>Where the code falls short of its comments\<close>

text \<open>
  A file open in a subdirectory of a stack at the root of the link names that stack as blocked by the editor, but only the files directly at the
  root are left out: the very file being edited is still imported.
\<close>

lemma edited_file_still_imported:
  "(let b = sampleBinding\<lparr>sb_StackPath := ''compose'', sb_ComposePaths := ''compose.yml''\<rparr>;
        (kept, blocked) = excludeDirtyEditorStacks (Some [''compose/conf/app.conf'']) b
          [(''compose.yml'', textFile ''compose.yml'' ''v2''), (''conf/app.conf'', textFile ''conf/app.conf'' ''v2'')]
    in map fst kept = [''conf/app.conf''] \<and> blocked = [''compose.yml''])"
  by code_simp

text \<open>
  A manual import of one file out of two stacks marks both as up to date: the refresh looks at conflicts and deletions, not at what was chosen.
\<close>

definition twoStackDb :: sync_db where
  "twoStackDb = sampleDb\<lparr>db_bindings := [twoStacks], db_statuses := [newStatus ''b1'' ''a/compose.yml'' ''remote_changes'', newStatus ''b1'' ''b/compose.yml'' ''remote_changes'']\<rparr>"

lemma partial_import_marks_all:
  "map gs_State (db_statuses (lw_db (refreshImported calmLink (plainInput\<lparr>ti_SelectedPaths := [''a/compose.yml'']\<rparr>) twoStacks
     (transferResult emptyPreviewOf) (linkWorld\<lparr>lw_db := twoStackDb\<rparr>)))) = [''up_to_date'', ''up_to_date'']"
  by code_simp

end
