(* ===== verification/Sync_Automation.thy ===== *)
theory Sync_Automation
  imports Sync_Import_Laws
begin

section \<open>The automatic synchronisation\<close>

text \<open>
  Models \<open>core/internal/gitsync/automation.go\<close> and \<open>unreadable.go\<close>: the settings of the automation, its scheduler, and one
  cycle of a link from the fetch to the recorded state: it pushes what an earlier export left behind, pulls, previews,
  holds back the stacks with an open decision, imports and deploys.  The cycle is a chain of steps over \<open>link_world\<close>; what
  it found so far travels in \<open>auto_run\<close>, the variables the closure of the code shares with the function around it.
\<close>

subsection \<open>Inputs and results\<close>

record AutoSyncResult =
  as_BindingID :: string
  as_State :: string
  as_Changed :: int
  as_Conflicts :: int
  as_Preserved :: int
  as_Backup :: string
  as_Deployed :: "string list"
  as_DeployFailed :: "string list"
  as_RolledBack :: "string list"
  as_RollbackFailed :: "string list"
  as_SyncFailed :: "string list"
  as_Discovered :: "string list"
  as_HeldBack :: "string list"
  as_AutoExcluded :: "string list"
  as_Message :: string

definition emptyAutoResult :: "string \<Rightarrow> string \<Rightarrow> string \<Rightarrow> AutoSyncResult" where
  "emptyAutoResult key state message = \<lparr>as_BindingID = key, as_State = state, as_Changed = 0, as_Conflicts = 0, as_Preserved = 0, as_Backup = [],
     as_Deployed = [], as_DeployFailed = [], as_RolledBack = [], as_RollbackFailed = [], as_SyncFailed = [], as_Discovered = [], as_HeldBack = [],
     as_AutoExcluded = [], as_Message = message\<rparr>"

record auto_run =
  au_result :: AutoSyncResult
  au_binding :: StackBinding
  au_commit :: string
  au_skipped :: bool
  au_localDeletion :: bool
  au_attributed :: bool

text \<open>What a preview gave, kept when its entries are released.\<close>

record auto_scan =
  sc_Changed :: int
  sc_Conflicts :: int
  sc_Preserved :: int
  sc_LocalDeletions :: int
  sc_Token :: string
  sc_Paths :: "string list"
  sc_Active :: "string list"
  sc_Held :: "string list"
  sc_Invalid :: "string list"

record auto_env =
  ae_link :: link_env
  ae_busy :: bool
  ae_notifies :: bool
  ae_cancelled :: "nat \<Rightarrow> bool"
  ae_overlap :: "nat \<Rightarrow> StackBinding \<Rightarrow> string option"
  ae_stat :: "nat \<Rightarrow> string \<Rightarrow> bool option"
  ae_readDir :: "nat \<Rightarrow> string \<Rightarrow> bool"
  ae_openFile :: "nat \<Rightarrow> string \<Rightarrow> bool"

type_synonym auto_outcome = "(string + auto_run) \<times> link_world"

definition stopped :: "string \<Rightarrow> string \<Rightarrow> auto_run \<Rightarrow> auto_run" where
  "stopped state message u = u\<lparr>au_result := (au_result u)\<lparr>as_State := state, as_Message := message\<rparr>\<rparr>"

definition countOf :: "int \<Rightarrow> string" where
  "countOf n = Itoa (nat n)"

definition commaList :: "string list \<Rightarrow> string" where
  "commaList ps = Join ps '', ''"

subsection \<open>Paths that cannot be read\<close>

definition maxAutoExcludedPaths :: nat where "maxAutoExcludedPaths = 256"

text \<open>The loop over the discovered paths: the merged list and what was added to it.\<close>

fun mergeLoop :: "string list \<Rightarrow> string list \<Rightarrow> string list \<Rightarrow> string list \<times> string list" where
  "mergeLoop merged added [] = (merged, added)"
| "mergeLoop merged added (raw # rest) =
     (let p = trimSlash (path_clean (TrimSpace raw)) in
      if p = [] \<or> p = ''.'' \<or> p \<in> set merged then mergeLoop merged added rest
      else if length merged \<ge> maxAutoExcludedPaths then (merged, added)
      else mergeLoop (merged @ [p]) (added @ [p]) rest)"

definition firstOnly :: "string list \<Rightarrow> string list" where
  "firstOnly ps = rev (remdups (rev ps))"

definition mergeUnreadablePaths :: "string list \<Rightarrow> string list \<Rightarrow> string list \<times> string list \<times> bool" where
  "mergeUnreadablePaths current discovered =
     (case mergeLoop (firstOnly current) [] discovered of
        (merged, added) \<Rightarrow> if added = [] then (current, [], False) else (sort merged, sort added, True))"

definition pathIsHeldOut :: "string \<Rightarrow> string list \<Rightarrow> bool" where
  "pathIsHeldOut p blockedPaths \<longleftrightarrow> list_ex (\<lambda>blocked. trimSlash p = blocked \<or> HasPrefix (trimSlash p) (blocked @ ''/'')) blockedPaths"

definition forgetHeldOut :: "link_env \<Rightarrow> string \<Rightarrow> string list \<Rightarrow> link_world \<Rightarrow> link_world" where
  "forgetHeldOut env key added w =
     (case le_fault env (lw_time w) ''baseline'' of
        Some _ \<Rightarrow> w
      | None \<Rightarrow>
          if list_ex (\<lambda>(p, _). pathIsHeldOut p added) (BindingBaselineOf key (lw_db w)) then
            snd (onDb (ReplaceBindingBaseline (le_fault env (lw_time w) ''replace baseline'') key
              (filter (\<lambda>(p, _). \<not> pathIsHeldOut p added) (BindingBaselineOf key (lw_db w)))) w)
          else w)"

definition recordUnreadablePaths :: "link_env \<Rightarrow> StackBinding \<Rightarrow> string list \<Rightarrow> link_world \<Rightarrow> (StackBinding \<times> bool) \<times> link_world" where
  "recordUnreadablePaths env b discovered w =
     (if discovered = [] then ((b, False), w)
      else (case mergeUnreadablePaths (splitPatternLines (sb_AutoExcludedPaths b)) discovered of
          (_, _, False) \<Rightarrow> ((b, False), w)
        | (merged, added, True) \<Rightarrow>
            (case onDb (SaveBinding (le_fault env (lw_time w) ''save'') (b\<lparr>sb_AutoExcludedPaths := joinPaths merged\<rparr>)) w of
               (Some _, w1) \<Rightarrow> ((b\<lparr>sb_AutoExcludedPaths := joinPaths merged\<rparr>, False), w1)
             | (None, w1) \<Rightarrow> ((b\<lparr>sb_AutoExcludedPaths := joinPaths merged\<rparr>, True), forgetHeldOut env (sb_UUID b) added w1))))"

definition pathIsReadable :: "auto_env \<Rightarrow> nat \<Rightarrow> string \<Rightarrow> bool" where
  "pathIsReadable env t relative =
     (case ae_stat env t relative of None \<Rightarrow> False | Some True \<Rightarrow> ae_readDir env t relative | Some False \<Rightarrow> ae_openFile env t relative)"

definition refreshUnreadableExclusions :: "auto_env \<Rightarrow> StackBinding \<Rightarrow> link_world \<Rightarrow> StackBinding \<times> link_world" where
  "refreshUnreadableExclusions env b w =
     (let held = splitPatternLines (sb_AutoExcludedPaths b) in
      if held = [] \<or> le_resolve (ae_link env) \<noteq> None \<or> \<not> list_ex (pathIsReadable env (lw_time w)) held then (b, w)
      else let b1 = b\<lparr>sb_AutoExcludedPaths := joinPaths (filter (\<lambda>p. \<not> pathIsReadable env (lw_time w) p) held)\<rparr> in
        (b1, snd (onDb (SaveBinding (le_fault (ae_link env) (lw_time w) ''save'') b1) w)))"

subsection \<open>Paths of stacks left out\<close>

definition excludeComposeStackPaths :: "string list \<Rightarrow> string list \<Rightarrow> string list" where
  "excludeComposeStackPaths paths blockedCompose =
     filter (\<lambda>p. \<not> list_ex (\<lambda>dir. (dir = [] \<and> CHR ''/'' \<notin> set p) \<or> (dir \<noteq> [] \<and> (p = dir \<or> HasPrefix p (dir @ ''/''))))
       (map stackDirOf blockedCompose)) paths"

definition skipSuffix :: string where "skipSuffix = ''; no new Git commit, stack scan skipped''"

function autoSyncMessageWithoutSkipSuffix :: "string \<Rightarrow> string" where
  "autoSyncMessageWithoutSkipSuffix message =
     (if HasSuffix (TrimSpace message) skipSuffix then autoSyncMessageWithoutSkipSuffix (TrimSuffix (TrimSpace message) skipSuffix)
      else TrimSpace message)"
  by pat_completeness auto
termination
proof (relation "measure length", simp)
  fix message assume s: "HasSuffix (TrimSpace message) skipSuffix"
  moreover have "length (TrimSpace message) \<le> length message" by (rule length_TrimSpace)
  moreover have "0 < length skipSuffix" by (simp add: skipSuffix_def)
  moreover have "length skipSuffix \<le> length (TrimSpace message)" using s by (auto simp: HasSuffix_def HasPrefix_exists dest: arg_cong[of _ _ length])
  ultimately have "length (TrimSpace message) - length skipSuffix < length message" by linarith
  then show "(TrimSuffix (TrimSpace message) skipSuffix, message) \<in> measure length" using s by (simp add: TrimSuffix_def)
qed

declare autoSyncMessageWithoutSkipSuffix.simps [simp del]

subsection \<open>One cycle\<close>

definition automaticInput :: "string \<Rightarrow> string list \<Rightarrow> TransferInput" where
  "automaticInput token held = plainInput\<lparr>ti_PreviewToken := token, ti_compactResult := True, ti_automation := True, ti_heldBackComposePaths := held\<rparr>"

text \<open>The deployment works on the backups as the import left them.\<close>

definition deployLink :: "link_env \<Rightarrow> StackBinding \<Rightarrow> string \<Rightarrow> string list \<Rightarrow> string \<Rightarrow> link_world \<Rightarrow> string option \<times> deploymentBatchResult \<times> link_world" where
  "deployLink env b commit changed backupID w =
     (case deployChangedStacks ((le_deploy env)\<lparr>dv_backups := lw_backups w\<rparr>) b commit changed backupID
        \<lparr>wd_log = lw_log w, wd_db = lw_db w, wd_files = lw_files w\<rparr> of
        (e, r, dw) \<Rightarrow> (e, r, w\<lparr>lw_db := wd_db dw, lw_files := wd_files dw, lw_log := wd_log dw\<rparr>))"

text \<open>The end of the report: what was left out, what is not authorised, what is held back.\<close>

definition reportExcluded :: "AutoSyncResult \<Rightarrow> AutoSyncResult" where
  "reportExcluded r =
     (if as_AutoExcluded r = [] then r
      else r\<lparr>as_Message := as_Message r @ ''; '' @ countText (as_AutoExcluded r) @
        '' local path(s) Dockman cannot read are now left out of synchronization until their permissions change: '' @ commaList (as_AutoExcluded r)\<rparr>)"

definition reportUnauthorized :: "string list \<Rightarrow> AutoSyncResult \<Rightarrow> AutoSyncResult" where
  "reportUnauthorized unauthorized r =
     (if unauthorized = [] then r
      else r\<lparr>as_Message := as_Message r @ ''; '' @ countText unauthorized @
        '' changed stack(s) not authorized for automatic deployment, still running their previous version: '' @ commaList unauthorized\<rparr>)"

definition reportHeldBack :: "auto_scan \<Rightarrow> auto_run \<Rightarrow> auto_run" where
  "reportHeldBack scan u =
     (if sc_Held scan = [] then u
      else if sc_Conflicts scan > 0 then
        u\<lparr>au_attributed := True, au_result := (au_result u)\<lparr>as_HeldBack := sc_Held scan, as_State := ''conflict'',
          as_Message := countOf (sc_Conflicts scan) @ '' conflict(s) require a manual decision on '' @ commaList (sc_Held scan) @ ''; every other stack was synchronized''\<rparr>\<rparr>
      else u\<lparr>au_attributed := True, au_localDeletion := True, au_result := (au_result u)\<lparr>as_HeldBack := sc_Held scan, as_State := ''blocked'',
          as_Message := countOf (sc_LocalDeletions scan) @ '' locally deleted synchronized file(s) require an explicit decision on '' @ commaList (sc_Held scan) @
            ''; no file was restored and every other stack was synchronized''\<rparr>\<rparr>)"

definition autoReported :: "auto_scan \<Rightarrow> string list \<Rightarrow> auto_run \<Rightarrow> auto_run" where
  "autoReported scan paths u =
     reportHeldBack scan (u\<lparr>au_result := reportUnauthorized (unauthorizedDeploymentStacks (au_binding u) paths (sc_Active scan)) (reportExcluded (au_result u))\<rparr>)"

text \<open>A retry that had nothing to deploy clears the state it answers.\<close>

definition autoResolved :: "auto_env \<Rightarrow> auto_scan \<Rightarrow> bool \<Rightarrow> bool \<Rightarrow> string list \<Rightarrow> auto_run \<Rightarrow> link_world \<Rightarrow> auto_outcome" where
  "autoResolved env scan retrying attempted paths u w =
     (if retrying \<and> \<not> attempted then
        (case onDb (UpdateBindingAutoDeployState (le_fault (ae_link env) (lw_time w) ''deploy state'') (sb_UUID (au_binding u)) ''watching''
            ''No stack under automatic deployment still carries the previously reported failure; the deployment state was cleared'' None) w of
           (Some e, w1) \<Rightarrow> (Inl e, w1)
         | (None, w1) \<Rightarrow> (Inr (autoReported scan paths (u\<lparr>au_binding := (au_binding u)\<lparr>sb_AutoDeployState := ''watching'', sb_AutoDeployError := []\<rparr>\<rparr>)), w1))
      else (Inr (autoReported scan paths u), w))"

definition deployMessage :: "auto_scan \<Rightarrow> TransferResult \<Rightarrow> string list \<Rightarrow> deploymentBatchResult \<Rightarrow> AutoSyncResult \<Rightarrow> string" where
  "deployMessage scan t readBlocked d r =
     (if (tr_ComposeBlocked t \<noteq> [] \<or> readBlocked \<noteq> []) \<and> br_Failed d \<noteq> [] then
        countText (as_SyncFailed r) @ '' stack(s) skipped during synchronization; '' @ countText (br_Deployed d) @ '' stack(s) deployed and '' @
          countText (br_Failed d) @ '' additional stack(s) failed deployment''
      else if readBlocked \<noteq> [] then
        countText readBlocked @ '' stack(s) with protected local items were skipped; '' @ countText (br_Deployed d) @ '' independent stack(s) deployed successfully''
      else if tr_ComposeBlocked t \<noteq> [] then
        countText (tr_ComposeBlocked t) @ '' invalid Compose stack(s) kept unchanged; '' @ countText (br_Deployed d) @ '' independent stack(s) deployed successfully''
      else if br_Failed d \<noteq> [] then
        countOf (sc_Changed scan) @ '' file(s) synchronized; '' @ countText (br_Deployed d) @ '' stack(s) deployed and '' @ countText (br_Failed d) @
          '' stack(s) failed independently'' @
          (if br_RolledBack d \<noteq> [] then ''; '' @ countText (br_RolledBack d) @ '' previous stack version(s) restored safely'' else []) @
          (if br_RollbackFailed d \<noteq> [] then ''; '' @ countText (br_RollbackFailed d) @ '' automatic rollback(s) require manual recovery'' else [])
      else if br_Deployed d \<noteq> [] then countOf (sc_Changed scan) @ '' file(s) synchronized and '' @ countText (br_Deployed d) @ '' stack(s) deployed''
      else as_Message r)"

definition deployedResult :: "auto_scan \<Rightarrow> TransferResult \<Rightarrow> string list \<Rightarrow> deploymentBatchResult \<Rightarrow> AutoSyncResult \<Rightarrow> AutoSyncResult" where
  "deployedResult scan t readBlocked d r =
     r\<lparr>as_Deployed := br_Deployed d, as_DeployFailed := br_Failed d, as_RolledBack := br_RolledBack d, as_RollbackFailed := br_RollbackFailed d,
       as_State := (if br_Failed d \<noteq> [] then ''partial'' else as_State r), as_Message := deployMessage scan t readBlocked d r\<rparr>"

definition deployTried :: "deploymentBatchResult \<Rightarrow> bool" where
  "deployTried d \<longleftrightarrow> br_Deployed d \<noteq> [] \<or> br_Failed d \<noteq> [] \<or> br_RolledBack d \<noteq> [] \<or> br_RollbackFailed d \<noteq> [] \<or> br_Deferred d \<noteq> []"

definition autoDeployed :: "auto_env \<Rightarrow> auto_scan \<Rightarrow> TransferResult \<Rightarrow> string list \<Rightarrow> bool \<Rightarrow> string list \<Rightarrow> auto_run \<Rightarrow> link_world \<Rightarrow> auto_outcome" where
  "autoDeployed env scan t readBlocked retrying paths u w =
     (if paths = [] \<or> \<not> sb_AutoDeployEnabled (au_binding u) then autoResolved env scan retrying False paths u w
      else (case deployLink (ae_link env) (au_binding u) (au_commit u) paths (tr_Backup t) w of
          (Some e, _, w1) \<Rightarrow> (Inl e, w1)
        | (None, d, w1) \<Rightarrow>
            autoResolved env scan retrying (deployTried d) paths (u\<lparr>au_result := deployedResult scan t readBlocked d (au_result u)\<rparr>) w1))"

text \<open>What is retried: the failed stacks, or all of them when an import still waits for its first deployment.\<close>

definition retriesDeploy :: "auto_scan \<Rightarrow> StackBinding \<Rightarrow> bool" where
  "retriesDeploy scan b \<longleftrightarrow> sc_Changed scan = 0 \<and> sb_AutoDeployEnabled b \<and> isRetryableAutoDeployState (sb_AutoDeployState b)"

definition staleTargets :: "link_env \<Rightarrow> auto_scan \<Rightarrow> StackBinding \<Rightarrow> link_world \<Rightarrow> string list" where
  "staleTargets env scan b w =
     (if \<not> retriesDeploy scan b then []
      else if sb_AutoDeployState b = ''pending'' then splitPatternLines (sb_AutoDeployComposePaths b)
      else stacksAwaitingDeployRetry (le_listFault env (lw_time w)) b (lw_db w))"

definition importedMessage :: "auto_scan \<Rightarrow> TransferResult \<Rightarrow> string list \<Rightarrow> string" where
  "importedMessage scan t readBlocked =
     (if sc_Preserved scan > 0 \<and> tr_EditorBlocked t = [] then
        countOf (sc_Preserved scan) @ '' Git deletion(s) preserved locally; choose restore, archive, or explicit local deletion''
      else if sc_Changed scan = 0 \<and> readBlocked = [] then ''Stack already matches Git''
      else if tr_EditorBlocked t \<noteq> [] then
        countText (tr_EditorBlocked t) @ '' stack(s) kept unchanged while edited in Dockman ('' @ commaList (tr_EditorBlocked t) @ ''); every other stack was synchronized''
      else if tr_ComposeBlocked t \<noteq> [] \<and> readBlocked \<noteq> [] then
        countText (tr_ComposeBlocked t) @ '' invalid Compose stack(s) and '' @ countText readBlocked @
          '' stack(s) with protected local items were skipped; other stacks continued independently''
      else if readBlocked \<noteq> [] then
        countText readBlocked @ '' stack(s) contain protected local items or automatically excluded large data directories and were skipped; other stacks continued independently''
      else if tr_ComposeBlocked t \<noteq> [] then
        countText (tr_ComposeBlocked t) @ '' invalid Compose stack(s) kept unchanged; other safe changes were synchronized''
      else countOf (sc_Changed scan) @ '' file(s) synchronized from Git with backup; stack was not deployed'')"

definition importedState :: "auto_scan \<Rightarrow> TransferResult \<Rightarrow> string list \<Rightarrow> string" where
  "importedState scan t readBlocked =
     (if tr_EditorBlocked t \<noteq> [] \<or> sc_Preserved scan > 0 then ''blocked''
      else if tr_ComposeBlocked t \<noteq> [] \<or> readBlocked \<noteq> [] then ''partial'' else ''up_to_date'')"

definition importedRun :: "auto_scan \<Rightarrow> TransferResult \<Rightarrow> string list \<Rightarrow> auto_run \<Rightarrow> auto_run" where
  "importedRun scan t readBlocked u =
     u\<lparr>au_attributed := (au_attributed u \<or> tr_EditorBlocked t \<noteq> []),
       au_result := (au_result u)\<lparr>as_State := importedState scan t readBlocked, as_Message := importedMessage scan t readBlocked, as_Backup := tr_Backup t,
         as_SyncFailed := uniqueSortedStrings (tr_ComposeBlocked t @ readBlocked)\<rparr>\<rparr>"

definition importedChanges :: "auto_scan \<Rightarrow> TransferResult \<Rightarrow> string list \<Rightarrow> string list" where
  "importedChanges scan t readBlocked =
     excludeComposeStackPaths (excludeComposeStackPaths (excludeComposeStackPaths (excludeComposeStackPaths (sc_Paths scan) (sc_Held scan))
       (tr_ComposeBlocked t)) readBlocked) (tr_EditorBlocked t)"

definition autoImported :: "auto_env \<Rightarrow> auto_scan \<Rightarrow> TransferResult \<Rightarrow> string list \<Rightarrow> auto_run \<Rightarrow> link_world \<Rightarrow> auto_outcome" where
  "autoImported env scan t readBlocked u w =
     (case (if sc_Changed scan = 0 \<and> sb_AutoDeployEnabled (au_binding u) \<and> readBlocked = []
            then clearIdenticalRollbackStates (ae_link env) (au_binding u) w else (None, w)) of
        (Some e, w1) \<Rightarrow> (Inl e, w1)
      | (None, w1) \<Rightarrow>
          autoDeployed env scan t readBlocked (retriesDeploy scan (au_binding u))
            (excludeComposeStackPaths (importedChanges scan t readBlocked @ staleTargets (ae_link env) scan (au_binding u) w)
              (uniqueSortedStrings (tr_ComposeBlocked t @ readBlocked)))
            (importedRun scan t readBlocked u) w1)"

definition autoTransfer :: "auto_env \<Rightarrow> string \<Rightarrow> auto_scan \<Rightarrow> auto_run \<Rightarrow> link_world \<Rightarrow> auto_outcome" where
  "autoTransfer env key scan u w =
     (case ImportBinding (ae_link env) key (automaticInput (sc_Token scan) (sc_Held scan)) w of
        (Inl e, w1) \<Rightarrow> (Inl e, w1)
      | (Inr t, w1) \<Rightarrow> autoImported env scan t (composePathsForFiles (sc_Active scan) (tr_ReadBlocked t)) u w1)"

definition autoRegistered :: "auto_env \<Rightarrow> string \<Rightarrow> auto_scan \<Rightarrow> string list \<Rightarrow> auto_run \<Rightarrow> link_world \<Rightarrow> auto_outcome" where
  "autoRegistered env key scan targets u w =
     (if targets \<noteq> [] then
        (case registerDiscoveredDeploymentTargets (ae_overlap env (lw_time w)) (le_fault (ae_link env) (lw_time w) ''register'') (au_binding u) targets (lw_db w) of
           (Inl e, db) \<Rightarrow> (Inl e, w\<lparr>lw_db := db\<rparr>)
         | (Inr b, db) \<Rightarrow> autoTransfer env key scan (u\<lparr>au_binding := b, au_result := (au_result u)\<lparr>as_Discovered := targets\<rparr>\<rparr>) (w\<lparr>lw_db := db\<rparr>))
      else if activeAutomationComposePaths (le_listFault (ae_link env) (lw_time w)) (au_binding u) (lw_db w) = [] \<and> sc_Invalid scan = [] then
        (Inr (stopped ''paused'' ''All selected stacks are paused or excluded from automatic synchronization; no new Git stack was discovered'' u), w)
      else autoTransfer env key scan u w)"

text \<open>A decision that no stack owns, or that leaves no stack to synchronise, stops the whole link.\<close>

definition stopsLink :: "auto_scan \<Rightarrow> bool" where
  "stopsLink scan \<longleftrightarrow> (sc_Conflicts scan > 0 \<or> sc_LocalDeletions scan > 0) \<and> (sc_Held scan = [] \<or> excludeStringValues (sc_Active scan) (sc_Held scan) = [])"

definition stoppedLink :: "auto_scan \<Rightarrow> auto_run \<Rightarrow> auto_run" where
  "stoppedLink scan u =
     (if sc_Conflicts scan > 0
      then stopped ''conflict'' (countOf (sc_Conflicts scan) @ '' conflict(s) require a manual decision; no file was changed'') u
      else stopped ''blocked'' (countOf (sc_LocalDeletions scan) @ '' locally deleted synchronized file(s) require an explicit stack decision; no file was restored'')
        (u\<lparr>au_localDeletion := True\<rparr>))"

definition autoDecided :: "auto_env \<Rightarrow> string \<Rightarrow> auto_scan \<Rightarrow> TransferPreview \<Rightarrow> auto_run \<Rightarrow> link_world \<Rightarrow> auto_outcome" where
  "autoDecided env key scan pv u w =
     (case newComposeDeploymentTargets (au_binding u) pv (sc_Active scan) of
        Inl e \<Rightarrow> (Inl e, w)
      | Inr targets \<Rightarrow>
          if stopsLink scan then (Inr (stoppedLink scan u), w)
          else autoRegistered env key scan (excludeStringValues targets (sc_Invalid scan)) u w)"

definition scanOf :: "link_env \<Rightarrow> StackBinding \<Rightarrow> bindingPreview \<Rightarrow> link_world \<Rightarrow> auto_scan" where
  "scanOf env b bp w =
     (let pv = bp_Preview bp; active = activeAutomationComposePaths (le_listFault env (lw_time w)) b (lw_db w) in
      \<lparr>sc_Changed = pv_Changed pv, sc_Conflicts = pv_Conflicts pv, sc_Preserved = pv_Preserved pv, sc_LocalDeletions = pv_LocalDeletions pv,
       sc_Token = pv_PreviewToken pv, sc_Paths = changedPreviewPaths pv, sc_Active = active, sc_Held = heldBackComposeStacks pv active,
       sc_Invalid = map fst (bp_Errors bp)\<rparr>)"

definition scannedRun :: "auto_scan \<Rightarrow> StackBinding \<times> bool \<Rightarrow> auto_run \<Rightarrow> auto_run" where
  "scannedRun scan recorded u =
     u\<lparr>au_binding := (if snd recorded then fst recorded else au_binding u),
       au_result := (au_result u)\<lparr>as_Changed := sc_Changed scan, as_Conflicts := sc_Conflicts scan, as_Preserved := sc_Preserved scan,
         as_AutoExcluded := (if snd recorded then splitPatternLines (sb_AutoExcludedPaths (fst recorded)) else as_AutoExcluded (au_result u))\<rparr>\<rparr>"

definition autoPreviewed :: "auto_env \<Rightarrow> string \<Rightarrow> bindingPreview \<Rightarrow> auto_run \<Rightarrow> link_world \<Rightarrow> auto_outcome" where
  "autoPreviewed env key bp u w =
     (case recordUnreadablePaths (ae_link env) (au_binding u) (previewPathsWithStatus (bp_Preview bp) ''skipped_permission'') w of
        (recorded, w1) \<Rightarrow>
          autoDecided env key (scanOf (ae_link env) (au_binding u) bp w) (bp_Preview bp) (scannedRun (scanOf (ae_link env) (au_binding u) bp w) recorded u) w1)"

definition autoScanned :: "auto_env \<Rightarrow> string \<Rightarrow> auto_run \<Rightarrow> link_world \<Rightarrow> auto_outcome" where
  "autoScanned env key u w =
     (case refreshUnreadableExclusions env (au_binding u) w of
        (b, w1) \<Rightarrow>
          (case PreviewBinding (ae_link env) key toStack (plainInput\<lparr>ti_automation := True\<rparr>) w1 of
             (Inl e, w2) \<Rightarrow> (Inl e, w2)
           | (Inr bp, w2) \<Rightarrow> autoPreviewed env key bp (u\<lparr>au_binding := b\<rparr>) w2))"

text \<open>The shortcut of a background cycle over a commit it already inspected.\<close>

definition takesShortcut :: "link_env \<Rightarrow> bool \<Rightarrow> auto_run \<Rightarrow> link_world \<Rightarrow> bool" where
  "takesShortcut env explicit u w \<longleftrightarrow>
     sb_LastAutoSyncCommit (au_binding u) \<noteq> [] \<and> sb_LastAutoSyncCommit (au_binding u) = au_commit u \<and> \<not> explicit \<and>
     \<not> bindingHasActiveStackState (le_listFault env (lw_time w)) (au_binding u) stackSyncError (lw_db w)"

definition shortcutRun :: "link_env \<Rightarrow> auto_run \<Rightarrow> link_world \<Rightarrow> auto_run" where
  "shortcutRun env u0 w =
     (let b = au_binding u0; u = u0\<lparr>au_skipped := True\<rparr> in
      if bindingHasActiveStackState (le_listFault env (lw_time w)) b stackSyncLocalDeleted (lw_db w)
        then stopped ''blocked'' ''A synchronized stack was deleted locally; choose restore from Git, delete from Git, or stop synchronizing it'' (u\<lparr>au_localDeletion := True\<rparr>)
      else if sb_AutoSyncState b = ''blocked'' \<and> Contains (sb_AutoSyncError b) ''Git deletion''
        then stopped ''blocked'' (autoSyncMessageWithoutSkipSuffix (sb_AutoSyncError b) @ skipSuffix) u
      else if sb_AutoSyncState b = ''partial''
        then stopped ''partial'' (autoSyncMessageWithoutSkipSuffix (sb_AutoSyncError b) @ skipSuffix) u
      else stopped ''up_to_date'' ''No new Git commit; stack scan skipped'' u)"

definition autoCompared :: "auto_env \<Rightarrow> string \<Rightarrow> bool \<Rightarrow> auto_run \<Rightarrow> link_world \<Rightarrow> auto_outcome" where
  "autoCompared env key explicit u w =
     (if takesShortcut (ae_link env) explicit u w then (Inr (shortcutRun (ae_link env) u w), w) else autoScanned env key u w)"

definition autoAtHead :: "auto_env \<Rightarrow> string \<Rightarrow> bool \<Rightarrow> auto_run \<Rightarrow> link_world \<Rightarrow> auto_outcome" where
  "autoAtHead env key explicit u w =
     (if \<not> sb_AutoReconcileEnabled (au_binding u) then autoCompared env key explicit u w
      else (case le_fault (ae_link env) (lw_time w) ''baseline'' of
          Some e \<Rightarrow> (Inl e, w)
        | None \<Rightarrow>
            if BindingBaselineOf (sb_UUID (au_binding u)) (lw_db w) \<noteq> [] then autoCompared env key explicit u w
            else (case reconcileBindingIfIdentical (ae_link env) (sb_UUID (au_binding u)) w of
                (Inl e, w1) \<Rightarrow> (Inl e, w1)
              | (Inr True, w1) \<Rightarrow> (Inr (stopped ''up_to_date'' ''Dockman and Git were identical; synchronization baseline established automatically'' u), w1)
              | (Inr False, w1) \<Rightarrow> autoCompared env key explicit u w1)))"

definition autoMeasured :: "auto_env \<Rightarrow> string \<Rightarrow> bool \<Rightarrow> auto_run \<Rightarrow> RepositoryGitStatus \<Rightarrow> link_world \<Rightarrow> auto_outcome" where
  "autoMeasured env key explicit u st w =
     (if rg_Diverged st \<or> rg_Ahead st > 0
        then (Inr (stopped ''blocked'' ''Repository state requires a manual decision before automatic synchronization'' u), w)
      else if rg_Behind st > 0 then
        (case PullRepository (le_git (ae_link env)) (lw_git w) of
           (Inl e, g) \<Rightarrow> (Inl e, w\<lparr>lw_git := g\<rparr>)
         | (Inr pulled, g) \<Rightarrow> autoAtHead env key explicit (u\<lparr>au_commit := rg_Head pulled\<rparr>) (w\<lparr>lw_git := g\<rparr>))
      else autoAtHead env key explicit (u\<lparr>au_commit := rg_Head st\<rparr>) w)"

text \<open>A commit an export left behind is pushed first.\<close>

definition autoFetched :: "auto_env \<Rightarrow> string \<Rightarrow> bool \<Rightarrow> auto_run \<Rightarrow> RepositoryGitStatus \<Rightarrow> link_world \<Rightarrow> auto_outcome" where
  "autoFetched env key explicit u st w =
     (if \<not> rg_Diverged st \<and> rg_Ahead st > 0 then
        (case PushRepository (le_git (ae_link env)) (lw_git w) of
           (Inl e, g) \<Rightarrow> (Inr (stopped ''blocked'' (countOf (rg_Ahead st) @ '' local commit(s) could not be pushed to the remote: '' @ safeGitError e) u), w\<lparr>lw_git := g\<rparr>)
         | (Inr pushed, g) \<Rightarrow> autoMeasured env key explicit u pushed (w\<lparr>lw_git := g\<rparr>))
      else autoMeasured env key explicit u st w)"

definition autoCycle :: "auto_env \<Rightarrow> string \<Rightarrow> bool \<Rightarrow> auto_run \<Rightarrow> link_world \<Rightarrow> auto_outcome" where
  "autoCycle env key explicit u w =
     (case FetchRepository (le_git (ae_link env)) (lw_git w) of
        (Inl e, g) \<Rightarrow> (Inl e, w\<lparr>lw_git := g\<rparr>)
      | (Inr st, g) \<Rightarrow> autoFetched env key explicit u st (w\<lparr>lw_git := g\<rparr>))"

subsection \<open>What a cycle records\<close>

definition recordSync :: "link_env \<Rightarrow> string \<Rightarrow> string \<Rightarrow> string \<Rightarrow> string \<Rightarrow> gotime \<Rightarrow> gotime option \<Rightarrow> link_world \<Rightarrow> link_world" where
  "recordSync env key state message commit attemptedAt succeededAt w =
     snd (onDb (UpdateBindingAutoSyncState (le_fault env (lw_time w) ''sync state'') key state message commit (Some attemptedAt) succeededAt) w)"

definition preservedBlock :: "auto_run \<Rightarrow> bool" where
  "preservedBlock u \<longleftrightarrow> as_Preserved (au_result u) > 0 \<or>
     (au_skipped u \<and> sb_AutoSyncState (au_binding u) = ''blocked'' \<and> Contains (sb_AutoSyncError (au_binding u)) ''Git deletion'')"

definition recordBlocked :: "link_env \<Rightarrow> string \<Rightarrow> gotime \<Rightarrow> auto_run \<Rightarrow> link_world \<Rightarrow> link_world" where
  "recordBlocked env key attemptedAt u w =
     (let r = au_result u;
          w1 = recordSync env key (as_State r) (as_Message r) (if preservedBlock u then au_commit u else []) attemptedAt None w
      in if as_State r = ''blocked'' \<and> \<not> preservedBlock u \<and> \<not> au_localDeletion u \<and> \<not> au_attributed u
         then w1\<lparr>lw_db := updateActiveStackStatuses (le_listFault env (lw_time w1)) (le_fault env (lw_time w1) ''status'') (le_now env (lw_time w1)) (au_binding u)
                stackSyncRemoteChanges (as_Message r) [] False (lw_db w1)\<rparr>
         else w1)"

definition recordStacks :: "link_env \<Rightarrow> auto_run \<Rightarrow> link_world \<Rightarrow> link_world" where
  "recordStacks env u w =
     (let b = au_binding u; listFault = le_listFault env (lw_time w); fault = le_fault env (lw_time w) ''status''; now = le_now env (lw_time w) in
      w\<lparr>lw_db :=
        (if au_skipped u then
           updateActiveStackStatusesPreservingLocal listFault fault now b stackSyncUpToDate [] (au_commit u) True
             (if as_State (au_result u) = ''partial'' then [stackSyncError] else []) (lw_db w)
         else if as_SyncFailed (au_result u) \<noteq> [] then
           snd (UpdateGitStackStatuses fault (sb_UUID b) (Some (excludeStringValues (activeAutomationComposePaths listFault b (lw_db w)) (as_SyncFailed (au_result u))))
             (markUpToDate now (Some (au_commit u))) (lw_db w))
         else updateActiveStackStatuses listFault fault now b stackSyncUpToDate [] (au_commit u) True (lw_db w))\<rparr>)"

fun settleAutoSync :: "link_env \<Rightarrow> string \<Rightarrow> gotime \<Rightarrow> auto_outcome \<Rightarrow> (AutoSyncResult \<times> string option) \<times> link_world" where
  "settleAutoSync env key attemptedAt (Inl e, w) =
     ((emptyAutoResult key ''error'' (safeGitError e), Some e), recordSync env key ''error'' (safeGitError e) [] attemptedAt None w)"
| "settleAutoSync env key attemptedAt (Inr u, w) =
     ((au_result u, None),
      if as_State (au_result u) = ''conflict'' \<or> as_State (au_result u) = ''blocked'' then recordBlocked env key attemptedAt u w
      else if as_State (au_result u) = ''paused'' then recordSync env key ''watching'' (as_Message (au_result u)) [] attemptedAt None w
      else recordStacks env u
        (recordSync env key (if as_State (au_result u) = ''partial'' then ''partial'' else ''up_to_date'')
          (if as_State (au_result u) = ''partial'' then as_Message (au_result u) else []) (au_commit u) attemptedAt (Some (le_now env (lw_time w))) w))"

definition pausedMessage :: string where
  "pausedMessage = ''All selected stacks are paused or excluded from automatic synchronization; Git synchronization was skipped''"

definition failedRun :: "string \<Rightarrow> link_world \<Rightarrow> (AutoSyncResult \<times> string option) \<times> link_world" where
  "failedRun e w = ((emptyAutoResult [] [] [], Some e), w)"

definition autoStarted :: "auto_env \<Rightarrow> string \<Rightarrow> bool \<Rightarrow> StackBinding \<Rightarrow> link_world \<Rightarrow> (AutoSyncResult \<times> string option) \<times> link_world" where
  "autoStarted env key explicit b w =
     (let now = le_now (ae_link env) (lw_time w) in
      if activeAutomationComposePaths (le_listFault (ae_link env) (lw_time w)) b (lw_db w) = [] \<and> \<not> (sb_AutoDeployEnabled b \<and> sb_AutoDeployNewStacks b)
        then ((emptyAutoResult key ''paused'' pausedMessage, None), recordSync (ae_link env) key ''watching'' pausedMessage [] now None w)
      else settleAutoSync (ae_link env) key now
        (runLinkOperation (ae_link env)
          (autoCycle env key explicit \<lparr>au_result = emptyAutoResult key ''syncing'' [], au_binding = b, au_commit = [], au_skipped = False,
             au_localDeletion = False, au_attributed = False\<rparr>)
          (recordSync (ae_link env) key ''syncing'' [] [] now None w)))"

definition runBindingAutoSync :: "auto_env \<Rightarrow> string \<Rightarrow> bool \<Rightarrow> link_world \<Rightarrow> (AutoSyncResult \<times> string option) \<times> link_world" where
  "runBindingAutoSync env key explicit w =
     (if ae_busy env then failedRun ''automatic synchronization is already running for this folder link'' w
      else (case GetBinding key (lw_db w) of
          None \<Rightarrow> failedRun ''record not found'' w
        | Some b \<Rightarrow>
            if \<not> sb_AutoSyncEnabled b then failedRun ''automatic synchronization is disabled for this folder link'' w
            else (case onDb (reconcileGitStackStatuses (le_fault (ae_link env) (lw_time w) ''reconcile'') b) (later w) of
                (Some e, w1) \<Rightarrow> failedRun e w1
              | (None, w1) \<Rightarrow> autoStarted env key explicit b w1)))"

subsection \<open>What the user is told\<close>

record AutomationEvent =
  ev_Host :: string
  ev_BindingID :: string
  ev_Kind :: string
  ev_Title :: string
  ev_Message :: string
  ev_Severity :: string

definition eventDetails :: "StackBinding \<Rightarrow> AutoSyncResult \<Rightarrow> string" where
  "eventDetails b r =
     ''Folder Link: '' @ sb_StackPath b @ newline @ ''Host: '' @ sb_Host b @ newline @ ''State: '' @ as_State r @ newline @ as_Message r"

definition eventOf :: "StackBinding \<Rightarrow> string \<Rightarrow> string \<Rightarrow> string \<Rightarrow> string \<Rightarrow> string \<Rightarrow> AutomationEvent" where
  "eventOf b key kind title message severity =
     \<lparr>ev_Host = sb_Host b, ev_BindingID = key, ev_Kind = kind, ev_Title = title, ev_Message = message, ev_Severity = severity\<rparr>"

definition syncStateChanged :: "StackBinding option \<Rightarrow> StackBinding \<Rightarrow> AutoSyncResult \<Rightarrow> bool" where
  "syncStateChanged previous b r \<longleftrightarrow>
     (case previous of None \<Rightarrow> [] | Some p \<Rightarrow> sb_AutoSyncState p) \<noteq> as_State r \<or>
     (TrimSpace (sb_AutoSyncError b) \<noteq> [] \<and> sb_AutoSyncError b \<noteq> (case previous of None \<Rightarrow> [] | Some p \<Rightarrow> sb_AutoSyncError p))"

definition syncEvents :: "StackBinding \<Rightarrow> string \<Rightarrow> AutoSyncResult \<Rightarrow> string option \<Rightarrow> bool \<Rightarrow> StackBinding option \<Rightarrow> AutomationEvent list" where
  "syncEvents b key r syncErr explicit previous =
     (let changed = syncStateChanged previous b r; details = eventDetails b r in
      if syncErr \<noteq> None \<or> as_State r \<in> {''error'', ''partial'', ''blocked''} then
        (if explicit \<or> changed then [eventOf b key ''git.sync.failure'' ''Git synchronization needs attention''
           (case syncErr of Some e \<Rightarrow> if TrimSpace (as_Message r) = [] then details @ newline @ ''Error: '' @ safeGitError e else details | None \<Rightarrow> details) ''error''] else [])
      else if as_State r = ''conflict'' then
        (if explicit \<or> changed then [eventOf b key ''git.conflict'' ''Git synchronization conflict'' details ''warning''] else [])
      else if as_Changed r > 0 \<or> as_Deployed r \<noteq> [] \<or> as_Discovered r \<noteq> [] \<or> explicit \<or> (changed \<and> (as_State r = ''up_to_date'' \<or> as_State r = ''watching''))
        then [eventOf b key ''git.sync.success'' ''Git synchronization completed'' details ''success'']
      else [])"

definition listEvent :: "StackBinding \<Rightarrow> string \<Rightarrow> AutoSyncResult \<Rightarrow> string \<Rightarrow> string \<Rightarrow> string \<Rightarrow> string \<Rightarrow> string list \<Rightarrow> AutomationEvent list" where
  "listEvent b key r kind title label severity stacks =
     (if stacks = [] then [] else [eventOf b key kind title (eventDetails b r @ newline @ label @ commaList stacks) severity])"

definition notifyAutomationResult :: "auto_env \<Rightarrow> string \<Rightarrow> AutoSyncResult \<Rightarrow> string option \<Rightarrow> bool \<Rightarrow> StackBinding option \<Rightarrow> sync_db \<Rightarrow> AutomationEvent list" where
  "notifyAutomationResult env key r syncErr explicit previous db =
     (if \<not> ae_notifies env then []
      else (case GetBinding key db of
          None \<Rightarrow> []
        | Some b \<Rightarrow>
            syncEvents b key r syncErr explicit previous @
            listEvent b key r ''git.stack.discovered'' ''Git stack authorized for automatic deployment'' ''Stacks: '' ''info'' (as_Discovered r) @
            listEvent b key r ''git.deploy.success'' ''Git stack deployment completed'' ''Deployed: '' ''success'' (as_Deployed r) @
            listEvent b key r ''git.deploy.failure'' ''Git stack deployment failed'' ''Failed: '' ''error'' (as_DeployFailed r) @
            listEvent b key r ''git.rollback'' ''Git deployment rollback performed'' ''Stacks: '' ''warning'' (as_RolledBack r @ as_RollbackFailed r)))"

definition notified :: "auto_env \<Rightarrow> string \<Rightarrow> bool \<Rightarrow> StackBinding option \<Rightarrow> (AutoSyncResult \<times> string option) \<times> link_world \<Rightarrow>
    (AutoSyncResult \<times> string option) \<times> AutomationEvent list \<times> link_world" where
  "notified env key explicit previous rw =
     (case rw of ((r, e), w) \<Rightarrow> ((r, e), notifyAutomationResult env key r e explicit previous (lw_db w), w))"

definition RunBindingAutoSync :: "auto_env \<Rightarrow> string \<Rightarrow> link_world \<Rightarrow> (AutoSyncResult \<times> string option) \<times> AutomationEvent list \<times> link_world" where
  "RunBindingAutoSync env key w = notified env key False (GetBinding key (lw_db w)) (runBindingAutoSync env key False w)"

definition RunBindingAutoSyncNow :: "auto_env \<Rightarrow> string \<Rightarrow> link_world \<Rightarrow> (AutoSyncResult \<times> string option) \<times> AutomationEvent list \<times> link_world" where
  "RunBindingAutoSyncNow env key w = notified env key True (GetBinding key (lw_db w)) (runBindingAutoSync env key True w)"

subsection \<open>The scheduler\<close>

definition autoSyncSchedulerMaxSleep :: gotime where "autoSyncSchedulerMaxSleep = 30 * second"
definition autoSyncSchedulerMinSleep :: gotime where "autoSyncSchedulerMinSleep = second"

text \<open>\<open>listed\<close>: the links with automatic synchronisation, or none when they could not be read.\<close>

definition dueIn :: "gotime \<Rightarrow> StackBinding \<Rightarrow> gotime \<Rightarrow> gotime" where
  "dueIn now b at = at + normalizedAutoSyncInterval (sb_AutoSyncIntervalMinutes b) * minute - now"

fun delayLoop :: "gotime \<Rightarrow> gotime \<Rightarrow> StackBinding list \<Rightarrow> gotime" where
  "delayLoop now delay [] = delay"
| "delayLoop now delay (b # bs) =
     (case sb_LastAutoSyncAt b of
        None \<Rightarrow> autoSyncSchedulerMinSleep
      | Some at \<Rightarrow> if dueIn now b at \<le> autoSyncSchedulerMinSleep then autoSyncSchedulerMinSleep else delayLoop now (min delay (dueIn now b at)) bs)"

definition nextAutoSyncDelay :: "gotime \<Rightarrow> StackBinding list option \<Rightarrow> gotime" where
  "nextAutoSyncDelay now listed =
     (case listed of None \<Rightarrow> autoSyncSchedulerMaxSleep | Some [] \<Rightarrow> autoSyncSchedulerMaxSleep | Some bs \<Rightarrow> delayLoop now autoSyncSchedulerMaxSleep bs)"

definition isDue :: "gotime \<Rightarrow> StackBinding \<Rightarrow> bool" where
  "isDue now b \<longleftrightarrow> (case sb_LastAutoSyncAt b of None \<Rightarrow> True | Some at \<Rightarrow> dueIn now b at \<le> 0)"

fun dueLoop :: "auto_env \<Rightarrow> gotime \<Rightarrow> StackBinding list \<Rightarrow> link_world \<Rightarrow> string list \<times> link_world" where
  "dueLoop env now [] w = ([], w)"
| "dueLoop env now (b # bs) w =
     (if ae_cancelled env (lw_time w) then ([], w)
      else if \<not> isDue now b then dueLoop env now bs w
      else (case RunBindingAutoSync env (sb_UUID b) w of
          (_, _, w1) \<Rightarrow> (case dueLoop env now bs w1 of (others, w2) \<Rightarrow> (sb_UUID b # others, w2))))"

text \<open>The links that were run, and the world afterwards.\<close>

definition runDueAutoSyncs :: "auto_env \<Rightarrow> gotime \<Rightarrow> link_world \<Rightarrow> string list \<times> link_world" where
  "runDueAutoSyncs env now w =
     (if le_listFault (ae_link env) (lw_time w) then ([], w) else dueLoop env now (ListAutoSyncBindings (lw_db w)) w)"

subsection \<open>The settings\<close>

record BindingAutomationInput =
  bi_Enabled :: bool
  bi_AutoReconcile :: "bool option"
  bi_IntervalMinutes :: int
  bi_SelectionMode :: string
  bi_ComposePaths :: "string list"
  bi_DeployEnabled :: bool
  bi_DeployNewStacks :: bool
  bi_DeployRollback :: bool
  bi_DeployComposePaths :: "string list"

definition normalizedInput :: "BindingAutomationInput \<Rightarrow> BindingAutomationInput" where
  "normalizedInput input =
     (let i0 = (if bi_IntervalMinutes input = 0 then input\<lparr>bi_IntervalMinutes := defaultAutoSyncIntervalMinutes\<rparr> else input);
          i1 = (if \<not> bi_Enabled i0 then i0\<lparr>bi_DeployEnabled := False, bi_DeployRollback := False, bi_DeployComposePaths := []\<rparr> else i0)
      in if \<not> bi_DeployEnabled i1 then i1\<lparr>bi_DeployNewStacks := False, bi_DeployRollback := False\<rparr> else i1)"

definition withSchedule :: "BindingAutomationInput \<Rightarrow> StackBinding \<Rightarrow> StackBinding" where
  "withSchedule input b =
     b\<lparr>sb_AutoSyncEnabled := bi_Enabled input, sb_AutoSyncPaused := (bi_Enabled input \<and> sb_AutoSyncPaused b),
       sb_AutoReconcileEnabled := (case bi_AutoReconcile input of None \<Rightarrow> sb_AutoReconcileEnabled b | Some v \<Rightarrow> v),
       sb_AutoSyncIntervalMinutes := bi_IntervalMinutes input\<rparr>"

definition withSelection :: "BindingAutomationInput \<Rightarrow> StackBinding \<Rightarrow> string + StackBinding" where
  "withSelection input b =
     (if TrimSpace (bi_SelectionMode input) = [] then Inr b
      else (case normalizeComposeSelection (selectedComposePaths b) (bi_SelectionMode input) (bi_ComposePaths input) composeSelectionAll of
          Inl e \<Rightarrow> Inl (''invalid automatic synchronization targets: '' @ e)
        | Inr (mode, paths) \<Rightarrow> Inr (b\<lparr>sb_AutoSyncSelectionMode := mode, sb_AutoSyncComposePaths := joinPaths paths\<rparr>)))"

definition withSyncState :: "BindingAutomationInput \<Rightarrow> StackBinding \<Rightarrow> StackBinding \<Rightarrow> StackBinding" where
  "withSyncState input old b0 =
     (let b = (if joinPaths (autoSyncComposePaths b0) \<noteq> joinPaths (autoSyncComposePaths old) then b0\<lparr>sb_LastAutoSyncCommit := []\<rparr> else b0) in
      if \<not> bi_Enabled input then b\<lparr>sb_AutoSyncState := ''disabled'', sb_AutoSyncError := []\<rparr>
      else if \<not> sb_AutoSyncEnabled old \<or> sb_AutoSyncState b = [] \<or> sb_AutoSyncState b = ''disabled''
        then b\<lparr>sb_AutoSyncState := ''watching'', sb_AutoSyncError := []\<rparr> else b)"

definition withDeployment :: "BindingAutomationInput \<Rightarrow> StackBinding \<Rightarrow> string list \<Rightarrow> StackBinding \<Rightarrow> StackBinding" where
  "withDeployment input old paths b0 =
     (let b = b0\<lparr>sb_AutoDeployEnabled := bi_DeployEnabled input, sb_AutoDeployNewStacks := bi_DeployNewStacks input,
                 sb_AutoDeployRollbackEnabled := bi_DeployRollback input, sb_AutoDeployComposePaths := joinPaths paths\<rparr> in
      if \<not> bi_DeployEnabled input then b\<lparr>sb_AutoDeployState := ''disabled'', sb_AutoDeployError := []\<rparr>
      else if \<not> sb_AutoDeployEnabled old \<or> sb_AutoDeployState b = [] \<or> sb_AutoDeployState b = ''disabled''
        then b\<lparr>sb_AutoDeployState := ''watching'', sb_AutoDeployError := []\<rparr> else b)"

definition automationTargets :: "BindingAutomationInput \<Rightarrow> StackBinding \<Rightarrow> string + string list" where
  "automationTargets input b =
     (case validateDeploymentTargets b (bi_DeployEnabled input) (bi_DeployNewStacks input) (bi_DeployComposePaths input) of
        Inl e \<Rightarrow> Inl e
      | Inr paths \<Rightarrow>
          (case filter (\<lambda>p. p \<notin> set (autoSyncComposePaths b)) paths of
             p # _ \<Rightarrow> Inl (''automatic deployment target is excluded from automatic synchronization: '' @ p)
           | [] \<Rightarrow> Inr paths))"

definition automationRow :: "BindingAutomationInput \<Rightarrow> StackBinding \<Rightarrow> string + StackBinding" where
  "automationRow input old =
     (if bi_IntervalMinutes input < minAutoSyncIntervalMinutes \<or> bi_IntervalMinutes input > maxAutoSyncIntervalMinutes
        then Inl ''automatic synchronization interval must be between 5 and 1440 minutes''
      else (case withSelection input (withSchedule input old) of
          Inl e \<Rightarrow> Inl e
        | Inr b \<Rightarrow>
            (case automationTargets input (withSyncState input old b) of
               Inl e \<Rightarrow> Inl e
             | Inr paths \<Rightarrow> Inr (withDeployment input old paths (withSyncState input old b)))))"

definition UpdateBindingAutomation :: "fault \<Rightarrow> string \<Rightarrow> BindingAutomationInput \<Rightarrow> sync_db \<Rightarrow> (string + StackBinding) \<times> sync_db" where
  "UpdateBindingAutomation fault key input db =
     (case GetBinding key db of
        None \<Rightarrow> (Inl ''record not found'', db)
      | Some old \<Rightarrow>
          (case automationRow (normalizedInput input) old of
             Inl e \<Rightarrow> (Inl e, db)
           | Inr b \<Rightarrow> (case SaveBinding fault b db of (Some e, db1) \<Rightarrow> (Inl e, db1) | (None, db1) \<Rightarrow> (Inr b, db1))))"

subsection \<open>Pausing and resetting\<close>

definition pauseBinding :: "auto_env \<Rightarrow> string \<Rightarrow> link_world \<Rightarrow> (string + StackBinding \<times> AutoSyncResult option) \<times> link_world" where
  "pauseBinding env key w =
     (if ae_busy env then (Inl ''automatic synchronization is currently running; retry when it finishes'', w)
      else (case GetBinding key (lw_db w) of
          None \<Rightarrow> (Inl ''record not found'', w)
        | Some b \<Rightarrow>
            if \<not> sb_AutoSyncEnabled b then (Inl ''automatic synchronization is disabled for this folder link'', w)
            else (case onDb (SaveBinding (le_fault (ae_link env) (lw_time w) ''save'') (b\<lparr>sb_AutoSyncPaused := True\<rparr>)) w of
                (Some e, w1) \<Rightarrow> (Inl e, w1)
              | (None, w1) \<Rightarrow> (Inr (b\<lparr>sb_AutoSyncPaused := True\<rparr>, None), w1))))"

definition resumeSaved :: "auto_env \<Rightarrow> string \<Rightarrow> AutoSyncResult \<times> string option \<Rightarrow> link_world \<Rightarrow> (string + StackBinding \<times> AutoSyncResult option) \<times> link_world" where
  "resumeSaved env key re w =
     (case GetBinding key (lw_db w) of
        None \<Rightarrow> (Inl ''record not found'', w)
      | Some b \<Rightarrow>
          (case onDb (SaveBinding (le_fault (ae_link env) (lw_time w) ''save'') (b\<lparr>sb_AutoSyncPaused := False\<rparr>)) w of
             (Some e, w1) \<Rightarrow> (Inl e, w1)
           | (None, w1) \<Rightarrow>
               (case snd re of
                  Some e \<Rightarrow> (Inl (''automatic synchronization resumed, but its immediate check failed: '' @ e), w1)
                | None \<Rightarrow> (Inr (b\<lparr>sb_AutoSyncPaused := False\<rparr>, Some (fst re)), w1))))"

text \<open>The link stays paused for the scheduler while the check of a resume runs.\<close>

definition SetBindingAutomationPause :: "auto_env \<Rightarrow> string \<Rightarrow> bool \<Rightarrow> link_world \<Rightarrow> (string + StackBinding \<times> AutoSyncResult option) \<times> link_world" where
  "SetBindingAutomationPause env key paused w =
     (case GetBinding key (lw_db w) of
        None \<Rightarrow> (Inl ''record not found'', w)
      | Some b \<Rightarrow>
          if \<not> sb_AutoSyncEnabled b then (Inl ''automatic synchronization is disabled for this folder link'', w)
          else if sb_AutoSyncPaused b = paused then (Inr (b, None), w)
          else if paused then pauseBinding env key w
          else (case RunBindingAutoSyncNow env key w of (re, _, w1) \<Rightarrow> resumeSaved env key re w1))"

definition clearRecordedStackDeployFailures :: "link_env \<Rightarrow> StackBinding \<Rightarrow> link_world \<Rightarrow> (string + int) \<times> link_world" where
  "clearRecordedStackDeployFailures env b w =
     (case le_fault env (lw_time w) ''list statuses'' of
        Some e \<Rightarrow> (Inl e, w)
      | None \<Rightarrow>
          let stale = map gs_ComposePath (filter (\<lambda>r. gs_DeployState r \<noteq> [] \<and> gs_DeployState r \<noteq> ''success'') (GitStackStatuses (sb_UUID b) (lw_db w))) in
          if stale = [] then (Inr 0, w)
          else (case onDb (UpdateGitStackStatuses (le_fault env (lw_time w) ''status'') (sb_UUID b) (Some stale) (\<lambda>r. r\<lparr>gs_DeployState := [], gs_DeployError := []\<rparr>)) w of
              (Some e, w1) \<Rightarrow> (Inl e, w1)
            | (None, w1) \<Rightarrow> (Inr (int (length stale)), w1)))"

definition resetRow :: "StackBinding \<Rightarrow> StackBinding" where
  "resetRow b = b\<lparr>sb_AutoSyncState := ''idle'', sb_AutoSyncError := [], sb_LastAutoSyncCommit := [],
     sb_AutoDeployState := (if sb_AutoDeployEnabled b then ''watching'' else ''disabled''), sb_AutoDeployError := []\<rparr>"

definition ResetBindingAutomationState :: "auto_env \<Rightarrow> string \<Rightarrow> link_world \<Rightarrow> (string + StackBinding \<times> int) \<times> link_world" where
  "ResetBindingAutomationState env key w =
     (if \<not> ge_enabled (le_git (ae_link env)) then (Inl ''Git synchronization is disabled'', w)
      else if ae_busy env then (Inl ''automatic synchronization is currently running; retry when it finishes'', w)
      else (case GetBinding key (lw_db w) of
          None \<Rightarrow> (Inl ''record not found'', w)
        | Some b \<Rightarrow>
            (case clearRecordedStackDeployFailures (ae_link env) b w of
               (Inl e, w1) \<Rightarrow> (Inl e, w1)
             | (Inr cleared, w1) \<Rightarrow>
                 (case onDb (SaveBinding (le_fault (ae_link env) (lw_time w) ''save'') (resetRow b)) w1 of
                    (Some e, w2) \<Rightarrow> (Inl e, w2)
                  | (None, w2) \<Rightarrow> (Inr (resetRow b, cleared), w2)))))"

end
