(* ===== verification/Sync_Automation_Laws.thy ===== *)
theory Sync_Automation_Laws
  imports Sync_Automation
begin

section \<open>Laws of the automatic synchronisation\<close>

text \<open>
  What the settings of the automation guarantee, when the scheduler wakes, what a cycle leaves on the link, and what it may
  change on the host.
\<close>

subsection \<open>The settings\<close>

lemma splitPatternLines_no_newline: "x \<in> set (splitPatternLines s) \<Longrightarrow> CHR 0x0A \<notin> set x"
  by (auto simp: splitPatternLines_def dest: Split_no_sep split: if_splits)

lemma autoSyncComposePaths_no_newline: "x \<in> set (autoSyncComposePaths b) \<Longrightarrow> CHR 0x0A \<notin> set x"
  using set_TrimSpace
  by (fastforce simp: autoSyncComposePaths_def selectedComposePaths_def keepCataloguedPaths_def uniqueSortedStrings_def
      dest: splitPatternLines_no_newline split: if_splits)

lemma splitPatternLines_joinPaths: "\<forall>p\<in>set ps. CHR 0x0A \<notin> set p \<Longrightarrow> set (splitPatternLines (joinPaths ps)) \<subseteq> set ps"
  by (cases ps) (simp_all add: splitPatternLines_def joinPaths_def Split_Join)

lemma autoSyncComposePaths_update [simp]:
  "autoSyncComposePaths (b\<lparr>sb_LastAutoSyncCommit := v\<rparr>) = autoSyncComposePaths b" "autoSyncComposePaths (b\<lparr>sb_AutoSyncState := v\<rparr>) = autoSyncComposePaths b"
  "autoSyncComposePaths (b\<lparr>sb_AutoSyncError := v\<rparr>) = autoSyncComposePaths b" "autoSyncComposePaths (b\<lparr>sb_AutoDeployEnabled := f\<rparr>) = autoSyncComposePaths b"
  "autoSyncComposePaths (b\<lparr>sb_AutoDeployNewStacks := f\<rparr>) = autoSyncComposePaths b" "autoSyncComposePaths (b\<lparr>sb_AutoDeployRollbackEnabled := f\<rparr>) = autoSyncComposePaths b"
  "autoSyncComposePaths (b\<lparr>sb_AutoDeployComposePaths := v\<rparr>) = autoSyncComposePaths b" "autoSyncComposePaths (b\<lparr>sb_AutoDeployState := v\<rparr>) = autoSyncComposePaths b"
  "autoSyncComposePaths (b\<lparr>sb_AutoDeployError := v\<rparr>) = autoSyncComposePaths b"
  by (simp_all add: autoSyncComposePaths_def selectedComposePaths_def)

lemma withDeployment_other [simp]:
  "sb_AutoSyncEnabled (withDeployment input old paths b) = sb_AutoSyncEnabled b" "sb_AutoSyncPaused (withDeployment input old paths b) = sb_AutoSyncPaused b"
  "sb_AutoSyncIntervalMinutes (withDeployment input old paths b) = sb_AutoSyncIntervalMinutes b"
  "autoSyncComposePaths (withDeployment input old paths b) = autoSyncComposePaths b"
  "sb_AutoDeployComposePaths (withDeployment input old paths b) = joinPaths paths" "sb_AutoDeployEnabled (withDeployment input old paths b) = bi_DeployEnabled input"
  "sb_AutoDeployNewStacks (withDeployment input old paths b) = bi_DeployNewStacks input" "sb_AutoDeployRollbackEnabled (withDeployment input old paths b) = bi_DeployRollback input"
  by (simp_all add: withDeployment_def Let_def)

lemma withSyncState_other [simp]:
  "sb_AutoSyncEnabled (withSyncState input old b) = sb_AutoSyncEnabled b" "sb_AutoSyncPaused (withSyncState input old b) = sb_AutoSyncPaused b"
  "sb_AutoSyncIntervalMinutes (withSyncState input old b) = sb_AutoSyncIntervalMinutes b" "autoSyncComposePaths (withSyncState input old b) = autoSyncComposePaths b"
  by (simp_all add: withSyncState_def Let_def)

lemma withSelection_other:
  "withSelection input b = Inr b1 \<Longrightarrow> sb_AutoSyncEnabled b1 = sb_AutoSyncEnabled b \<and> sb_AutoSyncPaused b1 = sb_AutoSyncPaused b \<and>
     sb_AutoSyncIntervalMinutes b1 = sb_AutoSyncIntervalMinutes b"
  by (auto simp: withSelection_def split: if_splits sum.splits)

lemma automationRow_coherent:
  assumes "automationRow input old = Inr b"
  shows "minAutoSyncIntervalMinutes \<le> sb_AutoSyncIntervalMinutes b \<and> sb_AutoSyncIntervalMinutes b \<le> maxAutoSyncIntervalMinutes"
    "sb_AutoSyncEnabled b = bi_Enabled input" "sb_AutoSyncPaused b \<longrightarrow> bi_Enabled input" "sb_AutoDeployEnabled b = bi_DeployEnabled input"
    "sb_AutoDeployNewStacks b = bi_DeployNewStacks input" "sb_AutoDeployRollbackEnabled b = bi_DeployRollback input"
    "set (splitPatternLines (sb_AutoDeployComposePaths b)) \<subseteq> set (autoSyncComposePaths b)"
proof -
  obtain b1 paths where b1: "withSelection input (withSchedule input old) = Inr b1" and targets: "automationTargets input (withSyncState input old b1) = Inr paths"
    and b: "b = withDeployment input old paths (withSyncState input old b1)"
    and interval: "minAutoSyncIntervalMinutes \<le> bi_IntervalMinutes input" "bi_IntervalMinutes input \<le> maxAutoSyncIntervalMinutes"
    using assms by (auto simp: automationRow_def not_less split: if_splits sum.splits)
  note same = withSelection_other[OF b1]
  show "minAutoSyncIntervalMinutes \<le> sb_AutoSyncIntervalMinutes b \<and> sb_AutoSyncIntervalMinutes b \<le> maxAutoSyncIntervalMinutes"
    "sb_AutoSyncEnabled b = bi_Enabled input" "sb_AutoSyncPaused b \<longrightarrow> bi_Enabled input" "sb_AutoDeployEnabled b = bi_DeployEnabled input"
    "sb_AutoDeployNewStacks b = bi_DeployNewStacks input" "sb_AutoDeployRollbackEnabled b = bi_DeployRollback input"
    using same interval by (simp_all add: b withSchedule_def)
  have "set paths \<subseteq> set (autoSyncComposePaths b1)"
    using targets by (auto simp: automationTargets_def filter_empty_conv split: sum.splits list.splits)
  then show "set (splitPatternLines (sb_AutoDeployComposePaths b)) \<subseteq> set (autoSyncComposePaths b)"
    using splitPatternLines_joinPaths[of paths] autoSyncComposePaths_no_newline[of _ b1] by (fastforce simp: b)
qed

lemma normalizedInput_coherent:
  "bi_DeployEnabled (normalizedInput input) \<Longrightarrow> bi_Enabled (normalizedInput input)"
  "bi_DeployNewStacks (normalizedInput input) \<or> bi_DeployRollback (normalizedInput input) \<Longrightarrow> bi_DeployEnabled (normalizedInput input)"
  by (auto simp: normalizedInput_def Let_def split: if_splits)

lemma upsert_row: "row \<in> set (upsert key (\<lambda>_ r. r) row tbl)"
  by (auto simp: upsert_def)

text \<open>
  C39: the settings that are saved are coherent, whatever was asked for.  The interval is between five minutes and a day; a
  link is paused or deploys only while it synchronises; new stacks and rollbacks are enabled only with the deployment; and
  every stack that may be deployed is one that is synchronised.
\<close>

theorem automation_settings_coherent:
  assumes "UpdateBindingAutomation fault key input db = (Inr b, db1)"
  shows "5 \<le> sb_AutoSyncIntervalMinutes b \<and> sb_AutoSyncIntervalMinutes b \<le> 1440 \<and> (sb_AutoSyncPaused b \<or> sb_AutoDeployEnabled b \<longrightarrow> sb_AutoSyncEnabled b) \<and>
    (sb_AutoDeployNewStacks b \<or> sb_AutoDeployRollbackEnabled b \<longrightarrow> sb_AutoDeployEnabled b) \<and>
    set (splitPatternLines (sb_AutoDeployComposePaths b)) \<subseteq> set (autoSyncComposePaths b) \<and> b \<in> set (db_bindings db1)"
proof -
  obtain old where row: "automationRow (normalizedInput input) old = Inr b" and saved: "SaveBinding fault b db = (None, db1)"
    using assms by (auto simp: UpdateBindingAutomation_def split: option.splits sum.splits prod.splits)
  have "b \<in> set (db_bindings db1)" using saved
    by (auto simp: SaveBinding_def upsert_row split: if_splits option.splits)
  then show ?thesis using automationRow_coherent[OF row] normalizedInput_coherent[of input]
    by (auto simp: minAutoSyncIntervalMinutes_def maxAutoSyncIntervalMinutes_def)
qed

theorem automation_settings_coherent_witness:
  "\<exists>b db1. UpdateBindingAutomation None ''b1'' \<lparr>bi_Enabled = True, bi_AutoReconcile = None, bi_IntervalMinutes = 0, bi_SelectionMode = ''selected'',
       bi_ComposePaths = [''a/compose.yml''], bi_DeployEnabled = True, bi_DeployNewStacks = False, bi_DeployRollback = True,
       bi_DeployComposePaths = [''a/compose.yml'']\<rparr> (sampleDb\<lparr>db_bindings := [twoStacks]\<rparr>) = (Inr b, db1) \<and>
     splitPatternLines (sb_AutoDeployComposePaths b) = [''a/compose.yml''] \<and> sb_AutoSyncIntervalMinutes b \<le> 1440 \<and>
     set (splitPatternLines (sb_AutoDeployComposePaths b)) \<subseteq> set (autoSyncComposePaths b)"
proof -
  let ?input = "\<lparr>bi_Enabled = True, bi_AutoReconcile = None, bi_IntervalMinutes = 0, bi_SelectionMode = ''selected'',
       bi_ComposePaths = [''a/compose.yml''], bi_DeployEnabled = True, bi_DeployNewStacks = False, bi_DeployRollback = True,
       bi_DeployComposePaths = [''a/compose.yml'']\<rparr>"
  let ?run = "UpdateBindingAutomation None ''b1'' ?input (sampleDb\<lparr>db_bindings := [twoStacks]\<rparr>)"
  have "(case fst ?run of Inr b \<Rightarrow> splitPatternLines (sb_AutoDeployComposePaths b) = [''a/compose.yml''] | Inl _ \<Rightarrow> False)" by code_simp
  then obtain b db1 where run: "?run = (Inr b, db1)" "splitPatternLines (sb_AutoDeployComposePaths b) = [''a/compose.yml'']"
    by (cases ?run) (auto split: sum.splits)
  then show ?thesis using automation_settings_coherent[OF run(1)] by blast
qed

subsection \<open>The scheduler\<close>

lemma delayLoop_least: "autoSyncSchedulerMinSleep \<le> d \<Longrightarrow> autoSyncSchedulerMinSleep \<le> delayLoop now d bs"
  by (induction bs arbitrary: d) (auto split: option.split)

lemma delayLoop_most: "autoSyncSchedulerMinSleep \<le> d \<Longrightarrow> delayLoop now d bs \<le> d"
proof (induction bs arbitrary: d)
  case (Cons b bs)
  show ?case
  proof (cases "sb_LastAutoSyncAt b")
    case (Some at)
    then show ?thesis using Cons.prems Cons.IH[of "min d (dueIn now b at)"] by auto
  qed (use Cons.prems in simp)
qed simp

lemma delayLoop_due:
  "autoSyncSchedulerMinSleep \<le> d \<Longrightarrow> b \<in> set bs \<Longrightarrow>
   delayLoop now d bs \<le> (case sb_LastAutoSyncAt b of None \<Rightarrow> autoSyncSchedulerMinSleep | Some at \<Rightarrow> max autoSyncSchedulerMinSleep (dueIn now b at))"
proof (induction bs arbitrary: d)
  case (Cons x bs)
  show ?case
  proof (cases "sb_LastAutoSyncAt x")
    case None
    then show ?thesis by (auto split: option.split)
  next
    case (Some at)
    show ?thesis
    proof (cases "dueIn now x at \<le> autoSyncSchedulerMinSleep")
      case True
      then show ?thesis using Some by (auto split: option.split)
    next
      case False
      let ?d = "min d (dueIn now x at)"
      have d: "autoSyncSchedulerMinSleep \<le> ?d" using Cons.prems False by simp
      show ?thesis
      proof (cases "b = x")
        case True
        then show ?thesis using delayLoop_most[OF d, of now bs] Some False by (auto simp: max_def)
      next
        case False
        then show ?thesis using Cons.IH[OF d] Cons.prems(2) Some \<open>\<not> dueIn now x at \<le> _\<close> by simp
      qed
    qed
  qed
qed simp

text \<open>
  C40: the scheduler neither spins nor oversleeps.  It waits at least one second and at most thirty, and no link waits
  longer than until it is due, but for that one second: a link that never ran is looked at after one second.
\<close>

theorem nextAutoSyncDelay_in_time:
  "autoSyncSchedulerMinSleep \<le> nextAutoSyncDelay now listed \<and> nextAutoSyncDelay now listed \<le> autoSyncSchedulerMaxSleep \<and>
   (\<forall>bs b. listed = Some bs \<and> b \<in> set bs \<longrightarrow>
     nextAutoSyncDelay now listed \<le> (case sb_LastAutoSyncAt b of None \<Rightarrow> autoSyncSchedulerMinSleep | Some at \<Rightarrow> max autoSyncSchedulerMinSleep (dueIn now b at)))"
proof -
  have d: "autoSyncSchedulerMinSleep \<le> autoSyncSchedulerMaxSleep" by (simp add: autoSyncSchedulerMinSleep_def autoSyncSchedulerMaxSleep_def second_def)
  show ?thesis
  proof (intro conjI allI impI)
    show "autoSyncSchedulerMinSleep \<le> nextAutoSyncDelay now listed" "nextAutoSyncDelay now listed \<le> autoSyncSchedulerMaxSleep"
      using d delayLoop_least[OF d] delayLoop_most[OF d] by (auto simp: nextAutoSyncDelay_def simp del: delayLoop.simps split: option.split list.split)
  next
    fix bs b assume "listed = Some bs \<and> b \<in> set bs"
    then show "nextAutoSyncDelay now listed \<le> (case sb_LastAutoSyncAt b of None \<Rightarrow> autoSyncSchedulerMinSleep | Some at \<Rightarrow> max autoSyncSchedulerMinSleep (dueIn now b at))"
      using delayLoop_due[OF d, of b bs now] by (cases bs) (simp_all add: nextAutoSyncDelay_def del: delayLoop.simps)
  qed
qed

theorem nextAutoSyncDelay_in_time_witness:
  "nextAutoSyncDelay (14 * minute + 58 * second) (Some [sampleBinding\<lparr>sb_LastAutoSyncAt := Some 0\<rparr>]) \<le> 2 * second"
proof -
  have "dueIn (14 * minute + 58 * second) (sampleBinding\<lparr>sb_LastAutoSyncAt := Some 0\<rparr>) 0 = 2 * second" by code_simp
  then show ?thesis
    using nextAutoSyncDelay_in_time[of "14 * minute + 58 * second" "Some [sampleBinding\<lparr>sb_LastAutoSyncAt := Some 0\<rparr>]"]
    by (auto simp: autoSyncSchedulerMinSleep_def second_def)
qed

subsection \<open>What a cycle may change\<close>

text \<open>
  The end of a step of the cycle: the state it reports, the stacks it names as held back, and what it did to the host since
  the world it started in.
\<close>

definition endStates :: "string set" where
  "endStates = {''blocked'', ''conflict'', ''paused'', ''up_to_date'', ''partial''}"

definition stopsAll :: "AutoSyncResult \<Rightarrow> bool" where
  "stopsAll r \<longleftrightarrow> as_HeldBack r = [] \<and> (as_State r = ''conflict'' \<or> as_State r = ''paused'')"

definition cycleAgreed :: "auto_env \<Rightarrow> string \<Rightarrow> host_fs \<Rightarrow> string list \<Rightarrow> string \<Rightarrow> bool" where
  "cycleAgreed env key fs held q \<longleftrightarrow>
     (\<exists>token w'. lw_files w' = fs \<and> importAgreed (ae_link env) key (automaticInput token held) w' q)"

definition endsWell :: "auto_outcome \<Rightarrow> link_world \<Rightarrow> bool" where
  "endsWell out w \<longleftrightarrow> (\<forall>u. fst out = Inr u \<longrightarrow> as_State (au_result u) \<in> endStates \<and> (stopsAll (au_result u) \<longrightarrow> quiet w (snd out)))"

definition keepsHost :: "auto_env \<Rightarrow> string \<Rightarrow> auto_outcome \<Rightarrow> link_world \<Rightarrow> bool" where
  "keepsHost env key out w \<longleftrightarrow>
     (\<exists>held. touchesOnly (cycleAgreed env key (lw_files w) held) w (snd out) \<and> (\<forall>u. fst out = Inr u \<longrightarrow> as_HeldBack (au_result u) = held))"

definition stepOk :: "auto_env \<Rightarrow> string \<Rightarrow> bool \<Rightarrow> link_world \<Rightarrow> auto_outcome \<Rightarrow> bool" where
  "stepOk env key deploys w out \<longleftrightarrow> endsWell out w \<and> (\<not> deploys \<longrightarrow> keepsHost env key out w)"

text \<open>A step that only moves to another world without touching the host.\<close>

lemma stepOk_before: "quiet w w1 \<Longrightarrow> stepOk env key deploys w1 out \<Longrightarrow> stepOk env key deploys w out"
  unfolding stepOk_def endsWell_def keepsHost_def using touchesOnly_before[of w w1] quiet_trans[of w w1] by (fastforce simp: quiet_def)

lemma stepOk_error: "quiet w w1 \<Longrightarrow> stepOk env key deploys w (Inl e, w1)"
  by (auto simp: stepOk_def endsWell_def keepsHost_def intro: touchesOnly_quiet)

lemma stepOk_stop: "quiet w w1 \<Longrightarrow> as_State (au_result u) \<in> endStates \<Longrightarrow> stepOk env key deploys w (Inr u, w1)"
  by (auto simp: stepOk_def endsWell_def keepsHost_def intro: touchesOnly_quiet)

lemma stopped_state [simp]: "as_State (au_result (stopped state message u)) = state"
  by (simp add: stopped_def)

lemma quiet_git [simp]: "quiet w (w\<lparr>lw_git := g\<rparr>)" "quiet w (w\<lparr>lw_db := db\<rparr>)" "quiet w (snd (onDb f w))"
  by (auto simp: quiet_def)

subsubsection \<open>After the import\<close>

definition afterImport :: "auto_scan \<Rightarrow> bool \<Rightarrow> link_world \<Rightarrow> auto_outcome \<Rightarrow> bool" where
  "afterImport scan deploys w out \<longleftrightarrow>
     (\<forall>u. fst out = Inr u \<longrightarrow> as_HeldBack (au_result u) = sc_Held scan \<and> as_State (au_result u) \<in> endStates \<and> \<not> stopsAll (au_result u)) \<and>
     (\<not> deploys \<longrightarrow> quiet w (snd out))"

definition importedOk :: "auto_run \<Rightarrow> bool" where
  "importedOk u \<longleftrightarrow> as_State (au_result u) \<in> {''blocked'', ''partial'', ''up_to_date''} \<and> as_HeldBack (au_result u) = []"

lemma autoReported_ok:
  "importedOk u \<Longrightarrow> as_HeldBack (au_result (autoReported scan paths u)) = sc_Held scan \<and>
     as_State (au_result (autoReported scan paths u)) \<in> endStates \<and> \<not> stopsAll (au_result (autoReported scan paths u))"
  by (auto simp: importedOk_def autoReported_def reportHeldBack_def reportUnauthorized_def reportExcluded_def endStates_def stopsAll_def)

lemma autoResolved_ok:
  assumes "importedOk u"
  shows "afterImport scan deploys w (autoResolved env scan retrying attempted paths u w)"
proof -
  have ok: "importedOk (u\<lparr>au_binding := b\<rparr>)" for b using assms by (simp add: importedOk_def)
  have "quiet w w1" if "onDb f w = (r, w1)" for f r w1 using quiet_git(3)[of w f] that by simp
  then show ?thesis using autoReported_ok[OF assms] autoReported_ok[OF ok]
    by (auto simp: afterImport_def autoResolved_def split: prod.split option.split)
qed

lemma deployedResult_ok: "importedOk u \<Longrightarrow> importedOk (u\<lparr>au_result := deployedResult scan t readBlocked d (au_result u)\<rparr>)"
  by (auto simp: importedOk_def deployedResult_def)

lemma autoDeployed_ok:
  assumes "importedOk u"
  shows "afterImport scan (sb_AutoDeployEnabled (au_binding u)) w (autoDeployed env scan t readBlocked retrying paths u w)"
proof (cases "paths = [] \<or> \<not> sb_AutoDeployEnabled (au_binding u)")
  case True
  then show ?thesis using autoResolved_ok[OF assms, of scan _ w env retrying False paths] by (simp add: autoDeployed_def)
next
  case False
  have "afterImport scan True w (autoResolved env scan retrying (deployTried d) paths (u\<lparr>au_result := deployedResult scan t readBlocked d (au_result u)\<rparr>) w1)" for d w1
    using autoResolved_ok[OF deployedResult_ok[OF assms], of scan True w1] by (simp add: afterImport_def)
  then show ?thesis using False by (auto simp: autoDeployed_def afterImport_def split: prod.split option.split)
qed

lemma clearIdentical_quiet: "quiet w (snd (clearIdenticalRollbackStates env b w))"
  by (auto simp: clearIdenticalRollbackStates_def clearResolvedDeploymentStates_def Let_def onDb_def quiet_def split: option.split prod.split)

lemma importedRun_ok: "as_HeldBack (au_result u) = [] \<Longrightarrow> importedOk (importedRun scan t readBlocked u)"
  by (auto simp: importedOk_def importedRun_def importedState_def)

lemma afterImport_before: "quiet w w1 \<Longrightarrow> afterImport scan deploys w1 out \<Longrightarrow> afterImport scan deploys w out"
  by (auto simp: afterImport_def intro: quiet_trans)

lemma autoImported_ok:
  assumes "as_HeldBack (au_result u) = []"
  shows "afterImport scan (sb_AutoDeployEnabled (au_binding u)) w (autoImported env scan t readBlocked u w)"
proof -
  define cleared where "cleared = (if sc_Changed scan = 0 \<and> sb_AutoDeployEnabled (au_binding u) \<and> readBlocked = []
    then clearIdenticalRollbackStates (ae_link env) (au_binding u) w else (None, w))"
  obtain e w1 where c: "cleared = (e, w1)" by (cases cleared)
  have q: "quiet w w1" using clearIdentical_quiet[of w "ae_link env" "au_binding u"] c by (auto simp: cleared_def split: if_splits)
  have same: "au_binding (importedRun scan t readBlocked u) = au_binding u" by (simp add: importedRun_def)
  show ?thesis
  proof (cases e)
    case None
    then show ?thesis unfolding autoImported_def cleared_def[symmetric] c
      using afterImport_before[OF q] autoDeployed_ok[OF importedRun_ok[OF assms]] same by (metis (no_types, lifting) option.case(1) prod.case)
  next
    case (Some x)
    then show ?thesis using q unfolding autoImported_def cleared_def[symmetric] c by (simp add: afterImport_def)
  qed
qed

lemma autoTransfer_ok:
  assumes "as_HeldBack (au_result u) = []"
  shows "stepOk env key (sb_AutoDeployEnabled (au_binding u)) w (autoTransfer env key scan u w)"
proof -
  let ?input = "automaticInput (sc_Token scan) (sc_Held scan)"
  obtain res w1 where run: "ImportBinding (ae_link env) key ?input w = (res, w1)" by (metis surj_pair)
  have "touchesOnly (importAgreed (ae_link env) key ?input w) w w1" using ImportBinding_touches[of "ae_link env" key ?input w] run by simp
  then have t: "touchesOnly (cycleAgreed env key (lw_files w) (sc_Held scan)) w w1"
    by (rule touchesOnly_mono) (auto simp: cycleAgreed_def)
  show ?thesis
  proof (cases res)
    case (Inl e)
    then show ?thesis using t by (auto simp: autoTransfer_def run stepOk_def endsWell_def keepsHost_def)
  next
    case (Inr tr)
    let ?out = "autoImported env scan tr (composePathsForFiles (sc_Active scan) (tr_ReadBlocked tr)) u w1"
    have "afterImport scan (sb_AutoDeployEnabled (au_binding u)) w1 ?out" by (rule autoImported_ok[OF assms])
    then have "stepOk env key (sb_AutoDeployEnabled (au_binding u)) w ?out"
      using touchesOnly_after[OF t, of "snd ?out"] by (auto simp: afterImport_def stepOk_def endsWell_def keepsHost_def)
    then show ?thesis by (simp add: autoTransfer_def run Inr)
  qed
qed

subsubsection \<open>Up to the import\<close>

lemma autoRegistered_ok:
  assumes "as_HeldBack (au_result u) = []" "\<not> sb_AutoDeployEnabled (au_binding u) \<Longrightarrow> targets = []"
  shows "stepOk env key (sb_AutoDeployEnabled (au_binding u)) w (autoRegistered env key scan targets u w)"
proof (cases "targets = []")
  case True
  then show ?thesis using autoTransfer_ok[OF assms(1)] by (simp add: autoRegistered_def stepOk_stop endStates_def)
next
  case False
  then have on: "sb_AutoDeployEnabled (au_binding u)" using assms(2) by blast
  have "stepOk env key True w (autoTransfer env key scan (u\<lparr>au_binding := b, au_result := (au_result u)\<lparr>as_Discovered := targets\<rparr>\<rparr>) (w\<lparr>lw_db := db\<rparr>))" for b db
  proof (rule stepOk_before[OF quiet_git(2)])
    show "stepOk env key True (w\<lparr>lw_db := db\<rparr>) (autoTransfer env key scan (u\<lparr>au_binding := b, au_result := (au_result u)\<lparr>as_Discovered := targets\<rparr>\<rparr>) (w\<lparr>lw_db := db\<rparr>))"
      using autoTransfer_ok[of "u\<lparr>au_binding := b, au_result := (au_result u)\<lparr>as_Discovered := targets\<rparr>\<rparr>" env key "w\<lparr>lw_db := db\<rparr>" scan] assms(1)
      by (simp add: stepOk_def)
  qed
  then show ?thesis using False on by (auto simp: autoRegistered_def stepOk_error split: prod.split sum.split)
qed

lemma autoDecided_ok:
  assumes "as_HeldBack (au_result u) = []"
  shows "stepOk env key (sb_AutoDeployEnabled (au_binding u)) w (autoDecided env key scan pv u w)"
proof (cases "newComposeDeploymentTargets (au_binding u) pv (sc_Active scan)")
  case (Inl e)
  then show ?thesis by (simp add: autoDecided_def stepOk_error)
next
  case (Inr targets)
  have "targets = []" if "\<not> sb_AutoDeployEnabled (au_binding u)" using Inr that by (auto simp: newComposeDeploymentTargets_def)
  then show ?thesis using autoRegistered_ok[OF assms, of "excludeStringValues targets (sc_Invalid scan)"]
    by (auto simp: autoDecided_def Inr stoppedLink_def excludeStringValues_def endStates_def intro: stepOk_stop)
qed

lemma recordUnreadable_same:
  assumes "recordUnreadablePaths env b discovered w = ((b1, changed), w1)"
  shows "quiet w w1" "sb_AutoDeployEnabled b1 = sb_AutoDeployEnabled b"
  using assms by (auto simp: recordUnreadablePaths_def forgetHeldOut_def onDb_def quiet_def split: if_splits prod.splits bool.splits option.splits)

lemma autoPreviewed_ok:
  assumes "as_HeldBack (au_result u) = []"
  shows "stepOk env key (sb_AutoDeployEnabled (au_binding u)) w (autoPreviewed env key bp u w)"
proof -
  obtain b changed w1 where rec: "recordUnreadablePaths (ae_link env) (au_binding u) (previewPathsWithStatus (bp_Preview bp) ''skipped_permission'') w = ((b, changed), w1)"
    by (metis surj_pair)
  let ?u = "scannedRun (scanOf (ae_link env) (au_binding u) bp w) (b, changed) u"
  have "as_HeldBack (au_result ?u) = []" "sb_AutoDeployEnabled (au_binding ?u) = sb_AutoDeployEnabled (au_binding u)"
    using assms recordUnreadable_same(2)[OF rec] by (simp_all add: scannedRun_def)
  then show ?thesis using stepOk_before[OF recordUnreadable_same(1)[OF rec]] autoDecided_ok[of ?u] by (simp add: autoPreviewed_def rec)
qed

lemma PreviewBinding_automation_quiet: "ti_automation input \<Longrightarrow> quiet w (snd (PreviewBinding env key direction input w))"
  by (auto simp: PreviewBinding_def previewRead_def quiet_def split: sum.split option.split prod.split)

lemma refreshUnreadable_same:
  assumes "refreshUnreadableExclusions env b w = (b1, w1)"
  shows "quiet w w1" "sb_AutoDeployEnabled b1 = sb_AutoDeployEnabled b"
  using assms by (auto simp: refreshUnreadableExclusions_def Let_def split: if_splits)

lemma autoScanned_ok:
  assumes "as_HeldBack (au_result u) = []"
  shows "stepOk env key (sb_AutoDeployEnabled (au_binding u)) w (autoScanned env key u w)"
proof -
  obtain b w1 where ref: "refreshUnreadableExclusions env (au_binding u) w = (b, w1)" by (metis surj_pair)
  let ?input = "plainInput\<lparr>ti_automation := True\<rparr>"
  obtain res w2 where pre: "PreviewBinding (ae_link env) key toStack ?input w1 = (res, w2)" by (metis surj_pair)
  have q: "quiet w w2" using quiet_trans[OF refreshUnreadable_same(1)[OF ref]] PreviewBinding_automation_quiet[of ?input w1 "ae_link env" key toStack] pre by simp
  show ?thesis
  proof (cases res)
    case (Inl e)
    then show ?thesis using q by (simp add: autoScanned_def ref pre stepOk_error)
  next
    case (Inr bp)
    have "stepOk env key (sb_AutoDeployEnabled (au_binding u)) w2 (autoPreviewed env key bp (u\<lparr>au_binding := b\<rparr>) w2)"
      using autoPreviewed_ok[of "u\<lparr>au_binding := b\<rparr>"] assms refreshUnreadable_same(2)[OF ref] by simp
    then show ?thesis using stepOk_before[OF q] by (simp add: autoScanned_def ref pre Inr)
  qed
qed

lemma shortcutRun_state: "as_State (au_result (shortcutRun env u w)) \<in> endStates"
  by (simp add: shortcutRun_def Let_def endStates_def)

lemma autoCompared_ok:
  "as_HeldBack (au_result u) = [] \<Longrightarrow> stepOk env key (sb_AutoDeployEnabled (au_binding u)) w (autoCompared env key explicit u w)"
  by (simp add: autoCompared_def autoScanned_ok stepOk_stop shortcutRun_state)

lemma reconcile_quiet: "quiet w (snd (reconcileBindingIfIdentical env key w))"
  by (auto simp: reconcileBindingIfIdentical_def onDb_def quiet_def split: sum.split option.split prod.split)

lemma autoAtHead_ok:
  assumes "as_HeldBack (au_result u) = []"
  shows "stepOk env key (sb_AutoDeployEnabled (au_binding u)) w (autoAtHead env key explicit u w)"
proof -
  obtain res w1 where rec: "reconcileBindingIfIdentical (ae_link env) (sb_UUID (au_binding u)) w = (res, w1)" by (metis surj_pair)
  have q: "quiet w w1" using reconcile_quiet[of w "ae_link env" "sb_UUID (au_binding u)"] rec by simp
  note compared = autoCompared_ok[OF assms]
  have "stepOk env key (sb_AutoDeployEnabled (au_binding u)) w (autoCompared env key explicit u w1)" by (rule stepOk_before[OF q compared])
  then show ?thesis using q compared
    by (auto simp: autoAtHead_def rec stepOk_error endStates_def intro: stepOk_stop split: option.split sum.split bool.split)
qed

lemma autoMeasured_ok:
  assumes "as_HeldBack (au_result u) = []"
  shows "stepOk env key (sb_AutoDeployEnabled (au_binding u)) w (autoMeasured env key explicit u st w)"
proof -
  have head: "stepOk env key (sb_AutoDeployEnabled (au_binding u)) w1 (autoAtHead env key explicit (u\<lparr>au_commit := c\<rparr>) w1)" for c w1
    using autoAtHead_ok[of "u\<lparr>au_commit := c\<rparr>"] assms by simp
  then have "stepOk env key (sb_AutoDeployEnabled (au_binding u)) w (autoAtHead env key explicit (u\<lparr>au_commit := c\<rparr>) (w\<lparr>lw_git := g\<rparr>))" for c g
    by (rule stepOk_before[OF quiet_git(1)])
  then show ?thesis using head
    by (auto simp: autoMeasured_def stepOk_error endStates_def intro: stepOk_stop split: prod.split sum.split)
qed

lemma autoFetched_ok:
  assumes "as_HeldBack (au_result u) = []"
  shows "stepOk env key (sb_AutoDeployEnabled (au_binding u)) w (autoFetched env key explicit u st w)"
  using stepOk_before[OF quiet_git(1) autoMeasured_ok[OF assms]] autoMeasured_ok[OF assms]
  by (auto simp: autoFetched_def endStates_def intro: stepOk_stop split: prod.split sum.split)

lemma autoCycle_ok:
  assumes "as_HeldBack (au_result u) = []"
  shows "stepOk env key (sb_AutoDeployEnabled (au_binding u)) w (autoCycle env key explicit u w)"
  using stepOk_before[OF quiet_git(1) autoFetched_ok[OF assms]]
  by (auto simp: autoCycle_def stepOk_error split: prod.split sum.split)

lemma runLinkOperation_ok: "stepOk env key deploys w (body w) \<Longrightarrow> stepOk env key deploys w (runLinkOperation (ae_link env) body w)"
  by (auto simp: runLinkOperation_def stepOk_def endsWell_def keepsHost_def split: option.split prod.split sum.split)

subsubsection \<open>The whole cycle\<close>

lemma recordSync_quiet [simp]: "quiet w (recordSync env key state message commit at ok w)"
  by (simp add: recordSync_def)

lemma recordStacks_quiet: "quiet w (recordStacks env u w)"
  by (simp add: recordStacks_def Let_def)

lemma recordBlocked_quiet: "quiet w (recordBlocked env key at u w)"
  using quiet_trans[OF recordSync_quiet quiet_git(2)] by (simp add: recordBlocked_def Let_def)

lemma settle_quiet: "quiet (snd out) (snd (settleAutoSync env key at out))"
  using quiet_trans[OF recordSync_quiet recordStacks_quiet] recordBlocked_quiet
  by (cases out; cases "fst out") auto

definition cycleKeeps :: "auto_env \<Rightarrow> string \<Rightarrow> bool \<Rightarrow> link_world \<Rightarrow> (AutoSyncResult \<times> string option) \<times> link_world \<Rightarrow> bool" where
  "cycleKeeps env key deploys w out \<longleftrightarrow>
     (stopsAll (fst (fst out)) \<longrightarrow> quiet w (snd out)) \<and>
     (\<not> deploys \<longrightarrow> (\<exists>held. touchesOnly (cycleAgreed env key (lw_files w) held) w (snd out) \<and> (snd (fst out) = None \<longrightarrow> as_HeldBack (fst (fst out)) = held)))"

lemma cycleKeeps_quiet: "quiet w w1 \<Longrightarrow> cycleKeeps env key deploys w (r, w1)"
  by (auto simp: cycleKeeps_def intro: touchesOnly_quiet)

lemma cycleKeeps_before: "quiet w w1 \<Longrightarrow> cycleKeeps env key deploys w1 out \<Longrightarrow> cycleKeeps env key deploys w out"
  unfolding cycleKeeps_def using touchesOnly_before[of w w1] quiet_trans[of w w1] by (fastforce simp: quiet_def)

lemma settle_keeps:
  assumes "stepOk env key deploys w out"
  shows "cycleKeeps env key deploys w (settleAutoSync (ae_link env) key at out)"
proof -
  obtain a w1 where out: "out = (a, w1)" by (cases out)
  obtain r e w2 where settled: "settleAutoSync (ae_link env) key at (a, w1) = ((r, e), w2)" by (metis surj_pair)
  have q: "quiet w1 w2" using settle_quiet[of "(a, w1)" "ae_link env" key at] settled by simp
  show ?thesis
  proof (cases a)
    case (Inl x)
    then have "e = Some (x)" "\<not> stopsAll r" using settled by (auto simp: stopsAll_def emptyAutoResult_def)
    then show ?thesis using assms q unfolding out cycleKeeps_def settled stepOk_def keepsHost_def by (auto intro: touchesOnly_after)
  next
    case (Inr u)
    then have "r = au_result u" using settled by simp
    then show ?thesis using assms q unfolding out cycleKeeps_def settled stepOk_def endsWell_def keepsHost_def
      by (auto simp: Inr intro: touchesOnly_after quiet_trans)
  qed
qed

lemma autoStarted_keeps: "cycleKeeps env key (sb_AutoDeployEnabled b) w (autoStarted env key explicit b w)"
proof -
  let ?u = "\<lparr>au_result = emptyAutoResult key ''syncing'' [], au_binding = b, au_commit = [], au_skipped = False, au_localDeletion = False, au_attributed = False\<rparr>"
  let ?w = "recordSync (ae_link env) key ''syncing'' [] [] (le_now (ae_link env) (lw_time w)) None w"
  have "stepOk env key (sb_AutoDeployEnabled b) ?w (autoCycle env key explicit ?u ?w)"
    using autoCycle_ok[of ?u env key ?w explicit] by (simp add: emptyAutoResult_def)
  from cycleKeeps_before[OF recordSync_quiet settle_keeps[OF runLinkOperation_ok[of env key _ ?w "autoCycle env key explicit ?u", OF this]]]
  show ?thesis by (simp add: autoStarted_def Let_def cycleKeeps_quiet)
qed

lemma runBindingAutoSync_keeps:
  "cycleKeeps env key (case GetBinding key (lw_db w) of None \<Rightarrow> False | Some b \<Rightarrow> sb_AutoDeployEnabled b) w (runBindingAutoSync env key explicit w)"
proof (cases "ae_busy env \<or> GetBinding key (lw_db w) = None")
  case True
  then show ?thesis by (auto simp: runBindingAutoSync_def failedRun_def cycleKeeps_quiet)
next
  case False
  then obtain b where b: "GetBinding key (lw_db w) = Some b" by blast
  obtain e w1 where rec: "onDb (reconcileGitStackStatuses (le_fault (ae_link env) (lw_time w) ''reconcile'') b) (later w) = (e, w1)" by (metis surj_pair)
  have "quiet (later w) w1" using quiet_git(3)[of "later w" "reconcileGitStackStatuses (le_fault (ae_link env) (lw_time w) ''reconcile'') b"] by (simp add: rec)
  then have q: "quiet w w1" by (simp add: quiet_def)
  show ?thesis using False b cycleKeeps_before[OF q autoStarted_keeps]
    by (cases e) (auto simp: runBindingAutoSync_def rec failedRun_def cycleKeeps_quiet[OF q] cycleKeeps_quiet[OF quiet_refl])
qed


subsection \<open>What a cycle leaves on the link\<close>

definition recordedState :: "AutoSyncResult \<Rightarrow> string" where
  "recordedState r =
     (if as_State r \<in> {''error'', ''conflict'', ''blocked'', ''partial''} then as_State r else if as_State r = ''paused'' then ''watching'' else ''up_to_date'')"

text \<open>The live rows of a link carry a state and the time of the attempt.\<close>

definition syncedRows :: "string \<Rightarrow> string \<Rightarrow> gotime \<Rightarrow> link_world \<Rightarrow> bool" where
  "syncedRows key state at w \<longleftrightarrow>
     (\<forall>x\<in>set (db_bindings (lw_db w)). sb_UUID x = key \<and> \<not> sb_Deleted x \<longrightarrow> sb_AutoSyncState x = state \<and> sb_LastAutoSyncAt x = Some at)"

lemma recordSync_rows:
  assumes "le_fault env (lw_time w) ''sync state'' = None"
  shows "syncedRows key state at (recordSync env key state message commit at ok w)"
  unfolding syncedRows_def
proof (intro ballI impI)
  let ?f = "\<lambda>b. b\<lparr>sb_AutoSyncState := state, sb_AutoSyncError := message, sb_LastAutoSyncAt := Some at,
    sb_LastAutoSyncSuccessAt := (case ok of None \<Rightarrow> sb_LastAutoSyncSuccessAt b | Some _ \<Rightarrow> ok),
    sb_LastAutoSyncCommit := (if commit = [] then sb_LastAutoSyncCommit b else commit)\<rparr>"
  fix x assume x: "x \<in> set (db_bindings (lw_db (recordSync env key state message commit at ok w)))" and key: "sb_UUID x = key \<and> \<not> sb_Deleted x"
  have "set (db_bindings (lw_db (recordSync env key state message commit at ok w))) =
    (\<lambda>b. if sb_UUID b = key \<and> \<not> sb_Deleted b then ?f b else b) ` set (db_bindings (lw_db w))"
    by (simp add: recordSync_def onDb_def UpdateBindingAutoSyncState_def assms updateBinding_def update_where_def)
  with x obtain y where y: "x = (if sb_UUID y = key \<and> \<not> sb_Deleted y then ?f y else y)" by blast
  have "sb_UUID y = key \<and> \<not> sb_Deleted y" using y key by (cases "sb_UUID y = key \<and> \<not> sb_Deleted y") simp_all
  then have "x = ?f y" unfolding y by (rule if_P)
  then show "sb_AutoSyncState x = state \<and> sb_LastAutoSyncAt x = Some at" by simp
qed

lemma recordSync_time [simp]: "lw_time (recordSync env key state message commit at ok w) = lw_time w"
  by (simp add: recordSync_def)

lemma statuses_bindings [simp]:
  "db_bindings (snd (UpdateGitStackStatuses fault key paths f db)) = db_bindings db"
  "db_bindings (snd (UpdateGitStackStatusesExcept fault key paths ex f db)) = db_bindings db"
  "db_bindings (updateActiveStackStatuses lf fault now b state message commit ok db) = db_bindings db"
  "db_bindings (updateActiveStackStatusesPreservingLocal lf fault now b state message commit ok ex db) = db_bindings db"
  by (auto simp: UpdateGitStackStatuses_def UpdateGitStackStatusesExcept_def updateActiveStackStatuses_def updateActiveStackStatusesPreservingLocal_def
      updateStatuses_def split: option.split)

lemma recordStacks_rows: "syncedRows key state at (recordStacks env u w) = syncedRows key state at w"
  by (simp add: syncedRows_def recordStacks_def Let_def)

lemma recordBlocked_rows:
  assumes "le_fault env (lw_time w) ''sync state'' = None" "as_State (au_result u) = state"
  shows "syncedRows key state at (recordBlocked env key at u w)"
  using recordSync_rows[OF assms(1), of key state at] assms(2) by (simp add: recordBlocked_def Let_def syncedRows_def)

lemma settle_rows:
  assumes "\<forall>t. le_fault env t ''sync state'' = None" "\<forall>u. fst out = Inr u \<longrightarrow> as_State (au_result u) \<in> endStates"
    and "settleAutoSync env key at out = ((r, e), w1)"
  shows "syncedRows key (recordedState r) at w1"
proof -
  obtain a w where out: "out = (a, w)" by (cases out)
  have fault: "le_fault env t ''sync state'' = None" for t using assms(1) by blast
  show ?thesis
  proof (cases a)
    case (Inl x)
    then show ?thesis using assms(3) recordSync_rows[OF fault] by (auto simp: out emptyAutoResult_def recordedState_def)
  next
    case (Inr u)
    then have "as_State (au_result u) \<in> endStates" using assms(2) out by simp
    then show ?thesis using assms(3) recordSync_rows[OF fault] recordBlocked_rows[OF fault]
      by (auto simp: out Inr recordedState_def endStates_def recordStacks_rows split: if_splits)
  qed
qed

text \<open>
  C18: a cycle never leaves the link in the middle.  Whatever happened in between, if the row of the link can be written then
  its state afterwards is the one the result reports (never \<^verbatim>\<open>syncing\<close>), and the time of the attempt is recorded, so that
  the scheduler does not run the link again before its interval has passed.
\<close>

theorem cycle_settles_link:
  assumes "runBindingAutoSync env key explicit w = ((r, e), w1)" "as_State r \<noteq> []" "\<forall>t. le_fault (ae_link env) t ''sync state'' = None"
    and "x \<in> set (db_bindings (lw_db w1))" "sb_UUID x = key" "\<not> sb_Deleted x"
    and "now < le_now (ae_link env) (Suc (lw_time w)) + normalizedAutoSyncInterval (sb_AutoSyncIntervalMinutes x) * minute"
  shows "sb_AutoSyncState x = recordedState r \<and> \<not> isDue now x"
proof -
  have fault: "le_fault (ae_link env) t ''sync state'' = None" for t using assms(3) by blast
  let ?at = "le_now (ae_link env) (Suc (lw_time w))"
  obtain b w2 where started: "autoStarted env key explicit b w2 = ((r, e), w1)" and time: "lw_time w2 = Suc (lw_time w)"
  proof -
    have no: "failedRun m v \<noteq> ((r, e), w1)" for m v using assms(2) by (auto simp: failedRun_def emptyAutoResult_def)
    have idle: "\<not> ae_busy env" using assms(1) no by (cases "ae_busy env") (simp_all add: runBindingAutoSync_def)
    then obtain b where b: "GetBinding key (lw_db w) = Some b"
      using assms(1) no by (cases "GetBinding key (lw_db w)") (simp_all add: runBindingAutoSync_def)
    have on: "sb_AutoSyncEnabled b" using assms(1) no idle b by (cases "sb_AutoSyncEnabled b") (simp_all add: runBindingAutoSync_def)
    obtain x w2 where rec: "onDb (reconcileGitStackStatuses (le_fault (ae_link env) (lw_time w) ''reconcile'') b) (later w) = (x, w2)" by (metis surj_pair)
    have "lw_time w2 = Suc (lw_time w)"
      using onDb_other(4)[of "reconcileGitStackStatuses (le_fault (ae_link env) (lw_time w) ''reconcile'') b" "later w"] unfolding rec
      by (simp add: later_def)
    moreover have "autoStarted env key explicit b w2 = ((r, e), w1)"
      using assms(1) no idle b on by (cases x) (simp_all add: runBindingAutoSync_def rec)
    ultimately show thesis using that by blast
  qed
  have "syncedRows key (recordedState r) ?at w1"
  proof (cases "activeAutomationComposePaths (le_listFault (ae_link env) (lw_time w2)) b (lw_db w2) = [] \<and> \<not> (sb_AutoDeployEnabled b \<and> sb_AutoDeployNewStacks b)")
    case True
    then have "r = emptyAutoResult key ''paused'' pausedMessage"
      "w1 = recordSync (ae_link env) key ''watching'' pausedMessage [] (le_now (ae_link env) (lw_time w2)) None w2"
      using started by (auto simp: autoStarted_def Let_def)
    then show ?thesis using recordSync_rows[OF fault] by (simp add: time emptyAutoResult_def recordedState_def)
  next
    case False
    let ?u = "\<lparr>au_result = emptyAutoResult key ''syncing'' [], au_binding = b, au_commit = [], au_skipped = False, au_localDeletion = False, au_attributed = False\<rparr>"
    let ?w = "recordSync (ae_link env) key ''syncing'' [] [] ?at None w2"
    have "stepOk env key (sb_AutoDeployEnabled b) ?w (autoCycle env key explicit ?u ?w)"
      using autoCycle_ok[of ?u env key ?w explicit] by (simp add: emptyAutoResult_def)
    from runLinkOperation_ok[of env key _ ?w "autoCycle env key explicit ?u", OF this]
    have "\<forall>u. fst (runLinkOperation (ae_link env) (autoCycle env key explicit ?u) ?w) = Inr u \<longrightarrow> as_State (au_result u) \<in> endStates"
      unfolding stepOk_def endsWell_def by blast
    moreover have "settleAutoSync (ae_link env) key ?at (runLinkOperation (ae_link env) (autoCycle env key explicit ?u) ?w) = ((r, e), w1)"
      using started unfolding autoStarted_def Let_def time by (simp only: False[unfolded time] if_False)
    ultimately show ?thesis using settle_rows[OF assms(3)] by blast
  qed
  then have "sb_AutoSyncState x = recordedState r" "sb_LastAutoSyncAt x = Some ?at" using assms(4-6) by (simp_all add: syncedRows_def)
  then show ?thesis using assms(7) by (simp add: isDue_def dueIn_def)
qed

subsection \<open>Concrete cycles\<close>

definition autoRow :: StackBinding where
  "autoRow = linkRow\<lparr>sb_AutoSyncEnabled := True, sb_LastAutoSyncCommit := ''c2'', sb_AutoSyncState := ''up_to_date''\<rparr>"

definition autoEnv :: auto_env where
  "autoEnv = \<lparr>ae_link = calmLink, ae_busy = False, ae_notifies = True, ae_cancelled = (\<lambda>_. False), ae_overlap = (\<lambda>_ _. None), ae_stat = (\<lambda>_ _. Some False),
     ae_readDir = (\<lambda>_ _. True), ae_openFile = (\<lambda>_ _. True)\<rparr>"

definition editedWorld :: link_world where
  "editedWorld = linkWorld\<lparr>lw_db := sampleDb\<lparr>db_bindings := [autoRow], db_baselines := [(''b1'', [(''app/compose.yml'', ''v2'')])]\<rparr>,
     lw_files := [(''app/compose.yml'', \<lparr>hf_contents = ''v3'', hf_mode = 420\<rparr>)]\<rparr>"

text \<open>
  A conflict found by an explicit check is forgotten by the next background cycle.  The check of an edited file leaves the link
  in conflict but keeps the commit it inspected before, so the background cycle takes the shortcut, and the link turns green
  while the row of its stack still waits for the decision.
\<close>

lemma conflict_turns_green:
  "(case runBindingAutoSync autoEnv ''b1'' True editedWorld of
      ((r, _), w1) \<Rightarrow> as_State r = ''conflict'' \<and> as_HeldBack r = [] \<and> map sb_AutoSyncState (db_bindings (lw_db w1)) = [''conflict''] \<and>
        (case runBindingAutoSync autoEnv ''b1'' False w1 of
           ((r2, _), w2) \<Rightarrow> as_State r2 = ''up_to_date'' \<and> map sb_AutoSyncState (db_bindings (lw_db w2)) = [''up_to_date''] \<and>
             map gs_State (db_statuses (lw_db w2)) = [''conflict'']))"
  by code_simp

text \<open>
  A deployment that is owed is dropped when its stack holds a protected item in the cycle of the retry: nothing is deployed,
  and the state that would retry it is cleared although the row of the stack still shows the failure.
\<close>

definition owedWorld :: link_world where
  "owedWorld = linkWorld\<lparr>lw_db := sampleDb\<lparr>db_bindings := [twoStacks\<lparr>sb_AutoDeployState := ''failed''\<rparr>],
     db_statuses := [(newStatus ''b1'' ''a/compose.yml'' ''up_to_date'')\<lparr>gs_DeployState := ''failed''\<rparr>]\<rparr>\<rparr>"

definition idleScan :: auto_scan where
  "idleScan = \<lparr>sc_Changed = 0, sc_Conflicts = 0, sc_Preserved = 0, sc_LocalDeletions = 0, sc_Token = [], sc_Paths = [],
     sc_Active = [''a/compose.yml'', ''b/compose.yml''], sc_Held = [], sc_Invalid = []\<rparr>"

lemma owed_deployment_dropped:
  "(case autoImported autoEnv idleScan (transferResult emptyPreviewOf) [''a/compose.yml'']
      \<lparr>au_result = emptyAutoResult ''b1'' ''syncing'' [], au_binding = twoStacks\<lparr>sb_AutoDeployState := ''failed''\<rparr>, au_commit = ''c2'', au_skipped = False,
       au_localDeletion = False, au_attributed = False\<rparr> owedWorld of
      (_, w1) \<Rightarrow> lw_log w1 = [] \<and> map sb_AutoDeployState (db_bindings (lw_db w1)) = [''watching''] \<and> map gs_DeployState (db_statuses (lw_db w1)) = [''failed''])"
  by code_simp

text \<open>
  A held-back stack at the root of a link keeps its files but is deployed all the same, when files of its subdirectories changed.
\<close>

lemma held_back_root_stack_deployed:
  "deploymentTargetsForChanges (sampleBinding\<lparr>sb_AutoDeployComposePaths := ''compose.yml''\<rparr>)
     (excludeComposeStackPaths [''compose.yml'', ''conf/app.conf''] [''compose.yml'']) = [''compose.yml'']"
  by code_simp

subsection \<open>Witnesses\<close>

text \<open>A link whose stacks are all paused.\<close>

definition pausedWorld :: link_world where
  "pausedWorld = linkWorld\<lparr>lw_db := sampleDb\<lparr>db_bindings := [autoRow],
     db_statuses := [(newStatus ''b1'' ''app/compose.yml'' ''conflict'')\<lparr>gs_AutomationPaused := True\<rparr>]\<rparr>\<rparr>"


theorem cycle_settles_link_witness:
  "\<exists>x\<in>set (db_bindings (lw_db (snd (runBindingAutoSync autoEnv ''b1'' True pausedWorld)))). sb_AutoSyncState x = ''watching'' \<and> \<not> isDue 10 x"
proof -
  obtain r e w1 where run: "runBindingAutoSync autoEnv ''b1'' True pausedWorld = ((r, e), w1)" by (metis surj_pair)
  have "as_State (fst (fst (runBindingAutoSync autoEnv ''b1'' True pausedWorld))) = ''paused''"
    "map (\<lambda>x. (sb_UUID x, sb_Deleted x, sb_AutoSyncIntervalMinutes x)) (db_bindings (lw_db (snd (runBindingAutoSync autoEnv ''b1'' True pausedWorld)))) = [(''b1'', False, 15)]"
    by code_simp+
  then have r: "as_State r = ''paused''" and rows: "map (\<lambda>x. (sb_UUID x, sb_Deleted x, sb_AutoSyncIntervalMinutes x)) (db_bindings (lw_db w1)) = [(''b1'', False, 15)]"
    by (simp_all add: run)
  then obtain x where x: "db_bindings (lw_db w1) = [x]" "sb_UUID x = ''b1''" "\<not> sb_Deleted x" "sb_AutoSyncIntervalMinutes x = 15" by auto
  have "(10::int) < le_now (ae_link autoEnv) (Suc (lw_time pausedWorld)) + normalizedAutoSyncInterval 15 * minute" by code_simp
  then have "sb_AutoSyncState x = recordedState r \<and> \<not> isDue 10 x"
    using cycle_settles_link[OF run _ _ _ x(2,3), of 10] r x(1,4) by (simp add: autoEnv_def)
  then show ?thesis using x(1) r by (simp add: run recordedState_def)
qed

end
