(* ===== verification/Spec2Isabelle.thy ===== *)
theory Spec2Isabelle
  imports Auth_Service Update_Policy Image_Scan Container_Recreate Update_Schedules
    Stack_Lock Stack_Update Binding_Ownership Sync_Automation_Laws
begin

text \<open>
  Verification development for Dockman, a manager of Docker Compose stacks written in Go
  (\<open>src/core\<close>).  The program signs users in, watches the containers of its hosts, asks the
  registries for newer images, and replaces containers by hand or on a schedule without losing
  the service they run.  This development models the sign-in and the whole path of an image
  update, from the registry's answer to the record of what was done.

  \<^bold>\<open>Parts and how they meet.\<close>

  A request passes the middleware (\<open>auth\<close>), whose sign-in is slowed by the throttle.  The schedules
  of a host follow its inventory (\<open>ReconcileInventory\<close>); a schedule or a user starts a run
  (\<open>automationRun\<close>), which takes the inventory (\<open>Inventory\<close>: labels first, then saved policies),
  scans the enrolled containers (\<open>checkContainerUpdates\<close>, the registry client below it), adds what
  the version discovery found, saves the scan, and when the host is not paused hands the allowed
  targets to the executor (\<open>ExecuteAutomaticContainerUpdates\<close>).  The executor groups them into
  containers and stacks, takes the stack locks, and calls the replacement engine
  (\<open>ForceUpdateContainer\<close>), which rolls back what does not become healthy.  Outcomes go to the
  execution store, where a failure blocks its digest (the circuit breaker), and the images left
  behind go to the cleanup queue.

  \<^bold>\<open>Theories.\<close>

  \<^item> \<open>Go_Prelude\<close>: strings and time of the Go standard library, maps as association lists (locale
    \<open>go_map\<close>), fold and list lemmas.
  \<^item> \<open>Auth_Throttle\<close> (\<open>auth/throttle.go\<close>) and \<open>Auth_Service\<close> (\<open>auth/service.go\<close>, the two
    stores, \<open>middleware.go\<close>, \<open>utils.go\<close>, \<open>handler.go\<close>, \<open>handler_http.go\<close>): attempts, users, sessions,
    sign-in, sign-out, OIDC.  State: the throttle's map and the two tables.
  \<^item> \<open>Registry_Client\<close> (\<open>docker/updater/registry.go\<close>): image references, manifest digests, the
    anonymous token and the redirect rule, with a log of the requests sent.
  \<^item> \<open>Version_Discovery\<close> (\<open>version.go\<close>): tag grammar and order, catalogue pages, the cache shared
    by concurrent callers as a step relation.
  \<^item> \<open>Container_Labels\<close> (\<open>parallel.go\<close> and the label tests of \<open>updater.go\<close>): grouping by stack, the
    merged log writer, protected infrastructure.
  \<^item> \<open>Update_Policy\<close> (\<open>policy.go\<close>): policy table, validation, bulk save, enrolment.
  \<^item> \<open>Image_Scan\<close> (\<open>scan.go\<close>): digests and the verdict of each container.
  \<^item> \<open>Container_Recreate\<close> (\<open>updater.go\<close>, \<open>container/container.go\<close>): replacement, rollback, health
    checks, forced updates, recovery of interrupted replacements.  A run is a log of the calls
    made to the Docker daemon, each with whether it succeeded; the daemon is a parameter that
    answers from that log, so every theorem holds for every daemon.
  \<^item> \<open>Sql_Tables\<close>: tables with an upsert (locale \<open>unique_index\<close>), used by \<open>Scan_Store\<close>
    (\<open>automation.go\<close>, \<open>execution.go\<close>: scans, controls, executions, blocks, recovery) and
    \<open>Image_Cleanup\<close> (\<open>cleanup.go\<close>: the queue of previous images).
  \<^item> \<open>Update_Automation\<close> (\<open>automation.go\<close>): a run and the execution of available updates;
    \<open>Update_Schedules\<close>: the jobs of the scheduler and the coalescing of refreshes.
  \<^item> \<open>Stack_Lock\<close> (\<open>docker/compose/stack_lock.go\<close>): the counted lock table as a step relation
    over the atomic sections of concurrent calls.
  \<^item> \<open>Stack_Update\<close> (\<open>docker/update_automation.go\<close>, the lock helpers of \<open>handler_containers.go\<close>):
    grouping, dependency order, the stack transaction and its rollback.
  \<^item> \<open>Go_Path\<close>: Go's path functions and their laws on lists of components; \<open>Sync_Policy\<close>
    (\<open>gitsync/binding.go\<close>): pattern lines, rules, the policy of a folder link and the
    predicates that select, include, exclude and protect paths.
  \<^item> \<open>Binding_Ownership\<close> (\<open>binding.go\<close>): no two links own one file.  \<open>Sync_Sensitive\<close>,
    \<open>Sync_Inventory\<close> (\<open>binding.go\<close>, \<open>composePathsForFile\<close> of \<open>stack_status.go\<close>): which files hold
    secrets, and the inventories of a host directory (a tree of nodes with the errors of reading
    them) and of a Git tree; \<open>Sync_Inventory_Laws\<close>: what an inventory may contain.
  \<^item> \<open>Sync_Preview\<close> (\<open>binding.go\<close>): the three-way comparison of source, target and baseline, its
    token, the selection of files and the baseline afterwards; \<open>Sync_Preview_Laws\<close>: nothing unseen is
    overwritten, a transfer comes to rest, the order of map iteration does not matter.
  \<^item> \<open>Sync_Transfer\<close> (\<open>binding.go\<close>): the writing of files, atomic path by path.  \<open>Sync_Backup\<close>
    (\<open>backup.go\<close>, \<open>backup_restore.go\<close>, \<open>deployment_rollback.go\<close>): the archive made before an import, the rows
    of the backups and their retention, restoration and the rollback of one stack; \<open>Sync_Backup_Laws\<close>: an
    import and its restoration cancel, and which backups survive.
  \<^item> \<open>Sync_Status\<close> (\<open>store.go\<close>, \<open>stack_status.go\<close>): the tables of links, stack rows, deployments and
    baselines, what a preview records in the rows, the pauses, the repair after a restart and the list of
    the browser.  \<open>Sync_Status_Laws\<close>: the writers of a link as a step relation under which an unlinked
    link stays unlinked; what a row says after a preview.
  \<^item> \<open>Sync_Deploy\<close> (\<open>deployment.go\<close>): which stacks a change deploys, the stages of one deployment, its
    rollback, the results of a batch.  A run is the log of the calls of Compose with their success; the
    environment answers from that log.  \<open>Sync_Deploy_Laws\<close>: each target has one outcome, and nothing starts
    without its dry run.
  \<^item> \<open>Repo_Git\<close> (\<open>repository.go\<close>): the managed repository, its distance to the remote, fetch, pull, push and
    reset.  go-git answers as a function of the moment; the laws the code relies on are \<open>git_laws\<close>, and the calls
    in any order are the step relation \<open>repo_step\<close>.
  \<^item> \<open>Sync_Import\<close> (\<open>binding.go\<close>, \<open>orphan.go\<close>, \<open>repository_storage.go\<close>, \<open>commit_identity.go\<close>): reading both
    sides of a link, the preview, the catalogue of its stacks, import and export from the fetch to the recorded
    states.  Each handler is a chain of steps over \<open>link_world\<close>, one per early return of the code.
    \<open>Sync_Import_Laws\<close>: what an import may change on the host.
  \<^item> \<open>Sync_Automation\<close> (\<open>automation.go\<close>, \<open>unreadable.go\<close>): the settings of the automation, its scheduler, and one
    cycle of a link (push what is left behind, pull, preview, hold back, import, deploy, record) with the events it
    sends.  \<open>Sync_Automation_Laws\<close>: a condition carried through the chain of steps of the cycle, what the cycle may change
    and leaves on the link, and the times of the scheduler.

  \<^bold>\<open>Conventions.\<close>  Records carry the fields of the Go structs under a short prefix, functions keep
  their names.  An error is the left side of a sum, or \<open>Some\<close> of an option.  A database statement
  has a \<open>fault\<close> argument: with a fault it fails and changes nothing, which is what the
  transactions of the program guarantee.  Code outside \<open>src\<close> is an argument: bcrypt, SHA-256, the
  random source, the clock, HTTP, JSON and URL parsing, the cron parser, the Docker daemon.  Goroutines
  that share state are step relations whose steps are the sections under a mutex; a worker pool
  whose workers share nothing is run in order.

  \<^bold>\<open>What the lemmas show.\<close>  For each table the well-formedness invariant and its preservation by
  each operation; for each loop its termination (by a measure) or a bound on its work; for each
  operation its result on every branch; for the replacement engine, how each call extends the log
  and which containers it can touch (the \<open>within\<close> rules), from which the properties about every
  daemon follow.  The properties are numbered in the theories; some of them record behaviour the
  code does not mean to have, and say so.

  \<^bold>\<open>Bounds and fuel.\<close>  The catalogue of tags is read in at most \<open>maxRegistryTagPages\<close> pages, the
  redirects of one request in at most ten, the polls of a health check until a deadline whose
  distance decreases: these are the code's own bounds and the recursions use them, so no fuel is
  added to the model.

  \<^bold>\<open>Not modelled.\<close>  Transports and processes (HTTP handlers of the Docker views, SSH, SFTP, language
  server, terminals, viewers, notifications, secrets with sops), generated code, the web interface,
  wiring and migrations.  They move data between libraries and hold no decision that a model
  without the library could state.  Of the Git synchronisation the policies, the
  inventories, the preview, the transfer in both directions, the backups, the states, the deployments and the calls
  on repositories are modelled; go-git itself, credentials, webhooks and the HTTP handlers are not.

  \<^bold>\<open>Plan.\<close>  The decisions on orphaned and deleted stacks, then the build jobs, the host watch and the restart tracker.
\<close>

end
